(* ===== verification/Prelude.thy ===== *)
theory Prelude
  imports Complex_Main "HOL-Library.Word" "HOL-Library.AList"
begin

text \<open>
  Shared vocabulary of the development. The console is TypeScript, so this theory fixes how
  the values of that language are represented and proves what every component needs of them:

  \<^item> bytes are 8-bit words, the operands of JavaScript's bitwise operators 32-bit words;
  \<^item> a \<^verbatim>\<open>Map\<close> is an association list in insertion order (\<^const>\<open>AList.update\<close> replaces in
    place or appends, as \<^verbatim>\<open>Map.set\<close> does), a \<^verbatim>\<open>Set\<close> a list without repetitions;
  \<^item> a number that is not an integer is an exact rational: rounding of the double
    representation is not modelled, the rounding the code asks for (\<^verbatim>\<open>Math.round\<close>,
    \<^verbatim>\<open>Math.floor\<close>, conversion to 32 bits) is;
  \<^item> an object literal used as a table is an association list read through its prototype
    chain;
  \<^item> an \<^verbatim>\<open>ArrayBuffer\<close> is a byte list, written and read at offsets.

  Interfaces are stated as locales here and interpreted where the components provide
  them: \<open>byte_buffer\<close> (writing disjoint fields and reading them back), \<open>frame_codec\<close>
  (an encoder and its decoder) and \<open>guarded_machine\<close> (a state machine with an invariant).
\<close>

unbundle bit_operations_syntax

type_synonym byte = "8 word"
type_synonym int32 = "32 word"

named_theorems wire_simps \<open>reading and writing of byte buffers\<close>
named_theorems machine_defs \<open>unfolding rules of step functions\<close>

section \<open>JavaScript values\<close>

text \<open>\<^verbatim>\<open>Math.round\<close> rounds halves up; conversion to 32 bits truncates towards zero.\<close>

definition js_round :: "rat \<Rightarrow> int" where
  "js_round x = \<lfloor>x + 1 / 2\<rfloor>"

definition js_trunc :: "rat \<Rightarrow> int" where
  "js_trunc x = (if 0 \<le> x then \<lfloor>x\<rfloor> else \<lceil>x\<rceil>)"

definition to_int32 :: "rat \<Rightarrow> int32" where
  "to_int32 x = word_of_int (js_trunc x)"

lemma js_round_of_int [simp]: "js_round (of_int n) = n"
  unfolding js_round_def by linarith

lemma js_round_mono: "x \<le> y \<Longrightarrow> js_round x \<le> js_round y"
  unfolding js_round_def by (rule floor_mono) simp

lemma js_trunc_of_int [simp]: "js_trunc (of_int n) = n"
  by (simp add: js_trunc_def)

lemma js_trunc_nonneg: "0 \<le> x \<Longrightarrow> js_trunc x = \<lfloor>x\<rfloor>"
  by (simp add: js_trunc_def)

text \<open>
  \<^verbatim>\<open>key in table\<close> and \<^verbatim>\<open>table[key]\<close> see the own properties of an object literal first and then
  those every object inherits.
\<close>

datatype 'a property = Own 'a | Inherited | Absent

definition object_prototype :: "string list" where
  "object_prototype =
    [''constructor'', ''hasOwnProperty'', ''isPrototypeOf'', ''propertyIsEnumerable'',
     ''toLocaleString'', ''toString'', ''valueOf'', ''__proto__'', ''__defineGetter__'',
     ''__defineSetter__'', ''__lookupGetter__'', ''__lookupSetter__'']"

definition js_lookup :: "(string \<times> 'a) list \<Rightarrow> string \<Rightarrow> 'a property" where
  "js_lookup t k =
    (case map_of t k of
       Some v \<Rightarrow> Own v
     | None \<Rightarrow> if k \<in> set object_prototype then Inherited else Absent)"

definition js_in :: "string \<Rightarrow> (string \<times> 'a) list \<Rightarrow> bool" where
  "js_in k t \<longleftrightarrow> js_lookup t k \<noteq> Absent"

lemma js_lookup_Own: "js_lookup t k = Own v \<longleftrightarrow> map_of t k = Some v"
  by (auto simp: js_lookup_def split: option.splits)

lemma js_lookup_Absent:
  "js_lookup t k = Absent \<longleftrightarrow> map_of t k = None \<and> k \<notin> set object_prototype"
  by (auto simp: js_lookup_def split: option.splits)

text \<open>Insertion-ordered sets.\<close>

definition js_add :: "'a \<Rightarrow> 'a list \<Rightarrow> 'a list" where
  "js_add x xs = (if x \<in> set xs then xs else xs @ [x])"

definition js_delete :: "'a \<Rightarrow> 'a list \<Rightarrow> 'a list" where
  "js_delete x xs = filter (\<lambda>y. y \<noteq> x) xs"

lemma set_js_add [simp]: "set (js_add x xs) = insert x (set xs)"
  by (auto simp: js_add_def)

lemma set_js_delete [simp]: "set (js_delete x xs) = set xs - {x}"
  by (auto simp: js_delete_def)

lemma distinct_js_add [simp]: "distinct (js_add x xs) = distinct xs"
  by (auto simp: js_add_def)

lemma distinct_js_delete [simp, intro]: "distinct xs \<Longrightarrow> distinct (js_delete x xs)"
  by (auto simp: js_delete_def)

lemma length_js_add_le: "length (js_add x xs) \<le> Suc (length xs)"
  by (simp add: js_add_def)

lemma length_js_delete_le: "length (js_delete x xs) \<le> length xs"
  by (simp add: js_delete_def)

lemma js_delete_absent [simp]: "x \<notin> set xs \<Longrightarrow> js_delete x xs = xs"
  by (auto simp: js_delete_def intro: filter_True)

lemma js_delete_add_absent [simp]: "x \<notin> set xs \<Longrightarrow> js_delete x (js_add x xs) = xs"
  by (auto simp: js_delete_def js_add_def intro: filter_True)

text \<open>Insertion-ordered maps.\<close>

lemma length_alist_delete_le: "length (AList.delete k m) \<le> length m"
  by (simp add: AList.delete_eq)

lemma length_alist_update:
  "length (AList.update k v m) = (if k \<in> fst ` set m then length m else Suc (length m))"
  by (induction m) auto

lemma set_alist_delete: "set (AList.delete k m) = {p \<in> set m. fst p \<noteq> k}"
  by (auto simp: AList.delete_eq)

lemma alist_update_absent: "k \<notin> fst ` set m \<Longrightarrow> AList.update k v m = m @ [(k, v)]"
  by (induction m) auto

lemma alist_delete_absent: "k \<notin> fst ` set m \<Longrightarrow> AList.delete k m = m"
  by (induction m) (auto simp: AList.delete_eq)

lemma alist_delete_update_absent:
  "k \<notin> fst ` set m \<Longrightarrow> AList.delete k (AList.update k v m) = m"
  by (induction m) (auto simp: AList.delete_eq)

text \<open>Decimal notation of a whole number.\<close>

definition digit :: "nat \<Rightarrow> char" where
  "digit n = ''0123456789'' ! n"

function nat_string :: "nat \<Rightarrow> string" where
  "nat_string n = (if n < 10 then [digit n] else nat_string (n div 10) @ [digit (n mod 10)])"
  by pat_completeness auto

termination by (relation "measure (\<lambda>n. n)") auto

declare nat_string.simps [simp del]

text \<open>The states of a \<^verbatim>\<open>WebSocket\<close>.\<close>

datatype ready_state = CONNECTING | OPEN | CLOSING | CLOSED

fun dead :: "ready_state \<Rightarrow> bool" where
  "dead CLOSING = True"
| "dead CLOSED = True"
| "dead r = False"

section \<open>Byte buffers\<close>

text \<open>Big-endian integers of a given width.\<close>

fun be_bytes :: "nat \<Rightarrow> nat \<Rightarrow> byte list" where
  "be_bytes 0 x = []"
| "be_bytes (Suc n) x = be_bytes n (x div 256) @ [of_nat x]"

definition be_val :: "byte list \<Rightarrow> nat" where
  "be_val bs = foldl (\<lambda>a b. a * 256 + unat b) 0 bs"

lemma length_be_bytes [simp]: "length (be_bytes n x) = n"
  by (induction n arbitrary: x) auto

lemma be_val_Nil [simp]: "be_val [] = 0"
  by (simp add: be_val_def)

lemma be_val_snoc [simp]: "be_val (bs @ [b]) = be_val bs * 256 + unat b"
  by (simp add: be_val_def)

lemma unat_of_nat_byte [simp]: "unat (of_nat x :: byte) = x mod 256"
  by (simp add: unat_of_nat)

lemma be_val_be_bytes: "be_val (be_bytes n x) = x mod 256 ^ n"
proof (induction n arbitrary: x)
  case 0
  then show ?case by simp
next
  case (Suc n)
  have "be_val (be_bytes (Suc n) x) = (x div 256 mod 256 ^ n) * 256 + x mod 256"
    using Suc by simp
  also have "\<dots> = x mod 256 ^ Suc n"
    by (metis mod_mult2_eq mult.commute power_Suc)
  finally show ?case .
qed

lemma be_val_bound: "be_val bs < 256 ^ length bs"
proof (induction bs rule: rev_induct)
  case Nil
  then show ?case by simp
next
  case (snoc b bs)
  have "unat b < 256" using unsigned_less [of b] by simp
  with snoc show ?case by simp
qed

lemma be_bytes_be_val: "be_bytes (length bs) (be_val bs) = bs"
proof (induction bs rule: rev_induct)
  case (snoc b bs)
  have "unat b < 256" using unsigned_less [of b] by simp
  then have "(be_val bs * 256 + unat b) div 256 = be_val bs" by simp
  moreover have "(of_nat (be_val bs * 256 + unat b) :: byte) = b"
  proof -
    have "(256 :: byte) = 0" by simp
    then show ?thesis by (simp only: of_nat_add of_nat_mult of_nat_numeral mult_zero_right add_0) simp
  qed
  ultimately show ?case using snoc by simp
qed simp

text \<open>\<^verbatim>\<open>DataView\<close> accessors: the buffer is read and written at byte offsets.\<close>

definition buf_read :: "nat \<Rightarrow> nat \<Rightarrow> byte list \<Rightarrow> byte list" where
  "buf_read off n buf = take n (drop off buf)"

definition buf_write :: "nat \<Rightarrow> byte list \<Rightarrow> byte list \<Rightarrow> byte list" where
  "buf_write off bs buf = take off buf @ bs @ drop (off + length bs) buf"

definition get_u8 :: "byte list \<Rightarrow> nat \<Rightarrow> byte" where
  "get_u8 buf off = buf ! off"

definition get_u16 :: "byte list \<Rightarrow> nat \<Rightarrow> 16 word" where
  "get_u16 buf off = of_nat (be_val (buf_read off 2 buf))"

definition get_u32 :: "byte list \<Rightarrow> nat \<Rightarrow> 32 word" where
  "get_u32 buf off = of_nat (be_val (buf_read off 4 buf))"

definition get_u64 :: "byte list \<Rightarrow> nat \<Rightarrow> nat" where
  "get_u64 buf off = be_val (buf_read off 8 buf)"

lemma length_buf_write [simp]:
  "off + length bs \<le> length buf \<Longrightarrow> length (buf_write off bs buf) = length buf"
  by (simp add: buf_write_def)

lemma get_u8_read: "off < length buf \<Longrightarrow> buf_read off 1 buf = [get_u8 buf off]"
  by (simp add: buf_read_def get_u8_def take_Suc_conv_app_nth hd_drop_conv_nth take_Suc)

text \<open>
  The interface of a buffer: writing at an offset keeps the size, is read back, and leaves
  every disjoint range alone. Its client is the layout lemma: disjoint fields written in any
  order of the code are all read back.
\<close>

locale byte_buffer =
  fixes rd :: "nat \<Rightarrow> nat \<Rightarrow> 'b \<Rightarrow> byte list"
    and wr :: "nat \<Rightarrow> byte list \<Rightarrow> 'b \<Rightarrow> 'b"
    and sz :: "'b \<Rightarrow> nat"
  assumes sz_wr: "off + length bs \<le> sz b \<Longrightarrow> sz (wr off bs b) = sz b"
    and rd_wr_same: "off + length bs \<le> sz b \<Longrightarrow> rd off (length bs) (wr off bs b) = bs"
    and rd_wr_other:
      "off + length bs \<le> sz b \<Longrightarrow> p + n \<le> off \<or> off + length bs \<le> p \<Longrightarrow>
        rd p n (wr off bs b) = rd p n b"
begin

lemma sz_fold:
  "(\<And>off bs. (off, bs) \<in> set fs \<Longrightarrow> off + length bs \<le> sz b) \<Longrightarrow>
    sz (fold (\<lambda>(off, bs). wr off bs) fs b) = sz b"
proof (induction fs arbitrary: b)
  case Nil
  then show ?case by simp
next
  case (Cons f fs)
  obtain off bs where f: "f = (off, bs)" by (cases f)
  with Cons.prems have "off + length bs \<le> sz b" by auto
  then have "sz (wr off bs b) = sz b" by (rule sz_wr)
  with Cons f show ?case by simp
qed

lemma rd_fold_other:
  "(\<And>off bs. (off, bs) \<in> set fs \<Longrightarrow>
      off + length bs \<le> sz b \<and> (p + n \<le> off \<or> off + length bs \<le> p)) \<Longrightarrow>
    rd p n (fold (\<lambda>(off, bs). wr off bs) fs b) = rd p n b"
proof (induction fs arbitrary: b)
  case Nil
  then show ?case by simp
next
  case (Cons f fs)
  obtain off bs where f: "f = (off, bs)" by (cases f)
  with Cons.prems have fit: "off + length bs \<le> sz b"
    and dis: "p + n \<le> off \<or> off + length bs \<le> p" by auto
  have "rd p n (fold (\<lambda>(off, bs). wr off bs) fs (wr off bs b)) = rd p n (wr off bs b)"
    using Cons.prems by (intro Cons.IH) (auto simp: sz_wr [OF fit])
  with f show ?case by (simp add: rd_wr_other [OF fit dis])
qed

lemma read_back:
  assumes "sorted_wrt (\<lambda>(o1, b1) (o2, b2). o1 + length b1 \<le> o2) fs"
    and "\<And>off bs. (off, bs) \<in> set fs \<Longrightarrow> off + length bs \<le> sz b"
    and "(p, cs) \<in> set fs"
  shows "rd p (length cs) (fold (\<lambda>(off, bs). wr off bs) fs b) = cs"
  using assms
proof (induction fs arbitrary: b)
  case Nil
  then show ?case by simp
next
  case (Cons f fs)
  obtain off bs where f: "f = (off, bs)" by (cases f)
  with Cons.prems have fit: "off + length bs \<le> sz b" by auto
  show ?case
  proof (cases "(p, cs) \<in> set fs")
    case True
    have "rd p (length cs) (fold (\<lambda>(off, bs). wr off bs) fs (wr off bs b)) = cs"
      using Cons.prems True f by (intro Cons.IH) (auto simp: sz_wr [OF fit])
    with f show ?thesis by simp
  next
    case False
    with Cons.prems(3) f have eq: "p = off" "cs = bs" by auto
    have "rd p (length cs) (fold (\<lambda>(off, bs). wr off bs) fs (wr off bs b)) =
      rd p (length cs) (wr off bs b)"
      using Cons.prems f eq by (intro rd_fold_other) (auto simp: sz_wr [OF fit])
    with f eq show ?thesis by (simp add: rd_wr_same [OF fit])
  qed
qed

end

interpretation list_buffer: byte_buffer buf_read buf_write length
proof unfold_locales
  fix off p n :: nat and bs b :: "byte list"
  assume fit: "off + length bs \<le> length b"
  then show "length (buf_write off bs b) = length b" by simp
  from fit show "buf_read off (length bs) (buf_write off bs b) = bs"
    by (simp add: buf_read_def buf_write_def)
  assume "p + n \<le> off \<or> off + length bs \<le> p"
  with fit show "buf_read p n (buf_write off bs b) = buf_read p n b"
    by (auto simp: buf_read_def buf_write_def drop_take min_def)
qed

text \<open>
  A frame: a zeroed buffer into which fields are written, in ascending order and without overlap.
  Each field, each byte of it and each big-endian integer is read back.
\<close>

definition build_frame :: "nat \<Rightarrow> (nat \<times> byte list) list \<Rightarrow> byte list" where
  "build_frame n fs = fold (\<lambda>(off, bs). buf_write off bs) fs (replicate n 0)"

definition layout_ok :: "nat \<Rightarrow> (nat \<times> byte list) list \<Rightarrow> bool" where
  "layout_ok n fs \<longleftrightarrow> sorted_wrt (\<lambda>(o1, b1) (o2, b2). o1 + length b1 \<le> o2) fs \<and>
    list_all (\<lambda>(off, bs). off + length bs \<le> n) fs"

lemma layout_fit: "layout_ok n fs \<Longrightarrow> (off, bs) \<in> set fs \<Longrightarrow> off + length bs \<le> n"
  by (auto simp: layout_ok_def list_all_iff)

lemma length_build_frame: "layout_ok n fs \<Longrightarrow> length (build_frame n fs) = n"
  unfolding build_frame_def
  by (subst list_buffer.sz_fold) (auto dest: layout_fit)

lemma build_read:
  "layout_ok n fs \<Longrightarrow> (off, bs) \<in> set fs \<Longrightarrow> buf_read off (length bs) (build_frame n fs) = bs"
  unfolding build_frame_def
  by (rule list_buffer.read_back) (auto simp: layout_ok_def list_all_iff)

lemma build_nth:
  assumes "layout_ok n fs" and "(off, bs) \<in> set fs" and "i < length bs"
  shows "build_frame n fs ! (off + i) = bs ! i"
proof -
  have "off + length bs \<le> length (build_frame n fs)"
    using layout_fit [OF assms(1,2)] by (simp add: length_build_frame [OF assms(1)])
  then show ?thesis
    using build_read [OF assms(1,2)] assms(3) by (auto simp: buf_read_def dest: arg_cong [of _ _ "\<lambda>l. l ! i"])
qed

lemma of_nat_mod_word:
  "(of_nat (x mod 256 ^ 4) :: 32 word) = of_nat x" "(of_nat (x mod 256 ^ 2) :: 16 word) = of_nat x"
  by (simp_all add: word_of_nat_eq_iff take_bit_eq_mod)

lemma get_build:
  "layout_ok n fs \<Longrightarrow> (off, be_bytes 4 x) \<in> set fs \<Longrightarrow> get_u32 (build_frame n fs) off = of_nat x"
  "layout_ok n fs \<Longrightarrow> (off, be_bytes 2 x) \<in> set fs \<Longrightarrow> get_u16 (build_frame n fs) off = of_nat x"
  "layout_ok n fs \<Longrightarrow> (off, be_bytes 8 x) \<in> set fs \<Longrightarrow> x < 2 ^ 64 \<Longrightarrow> get_u64 (build_frame n fs) off = x"
  using build_read [of n fs off "be_bytes 4 x"] build_read [of n fs off "be_bytes 2 x"]
    build_read [of n fs off "be_bytes 8 x"]
  by (simp_all add: get_u32_def get_u16_def get_u64_def be_val_be_bytes of_nat_mod_word [simplified])

section \<open>Codecs\<close>

text \<open>
  What a pair of an encoder and a decoder promises: whatever the encoder accepts is read
  back. The consequences (frames identify their messages, an accepted message has exactly
  one decoding) are proved once.
\<close>

locale frame_codec =
  fixes enc :: "'m \<Rightarrow> 'e + byte list"
    and dec :: "byte list \<Rightarrow> 'd + 'm"
    and wf :: "'m \<Rightarrow> bool"
  assumes accepts: "wf m \<Longrightarrow> \<exists>bs. enc m = Inr bs"
    and decodes: "wf m \<Longrightarrow> enc m = Inr bs \<Longrightarrow> dec bs = Inr m"
begin

lemma enc_inj: "wf m \<Longrightarrow> wf m' \<Longrightarrow> enc m = enc m' \<Longrightarrow> m = m'"
  by (metis accepts decodes sum.inject(2))

lemma round_trip: "wf m \<Longrightarrow> \<exists>bs. enc m = Inr bs \<and> dec bs = Inr m"
  using accepts decodes by blast

end

section \<open>State machines\<close>

text \<open>
  A component with state is a step function over its events; what holds initially and is
  kept by every enabled event holds after every run.
\<close>

fun run_allowed :: "('s \<Rightarrow> 'e \<Rightarrow> bool) \<Rightarrow> ('s \<Rightarrow> 'e \<Rightarrow> 's) \<Rightarrow> 's \<Rightarrow> 'e list \<Rightarrow> bool" where
  "run_allowed en step s [] = True"
| "run_allowed en step s (e # es) = (en s e \<and> run_allowed en step (step s e) es)"

lemma run_allowed_append:
  "run_allowed en step s (xs @ ys) \<longleftrightarrow> run_allowed en step s xs \<and> run_allowed en step (foldl step s xs) ys"
  by (induction xs arbitrary: s) auto

locale guarded_machine =
  fixes init :: "'s"
    and en :: "'s \<Rightarrow> 'e \<Rightarrow> bool"
    and step :: "'s \<Rightarrow> 'e \<Rightarrow> 's"
    and inv :: "'s \<Rightarrow> bool"
  assumes inv_init: "inv init"
    and inv_step: "inv s \<Longrightarrow> en s e \<Longrightarrow> inv (step s e)"
begin

lemma inv_run_from: "inv s \<Longrightarrow> run_allowed en step s es \<Longrightarrow> inv (foldl step s es)"
  by (induction es arbitrary: s) (auto intro: inv_step)

lemma inv_run: "run_allowed en step init es \<Longrightarrow> inv (foldl step init es)"
  by (rule inv_run_from [OF inv_init])

end

text \<open>A machine whose every event is always enabled.\<close>

locale free_machine =
  fixes init :: "'s"
    and step :: "'s \<Rightarrow> 'e \<Rightarrow> 's"
    and inv :: "'s \<Rightarrow> bool"
  assumes inv_init: "inv init"
    and inv_step: "inv s \<Longrightarrow> inv (step s e)"

sublocale free_machine \<subseteq> guarded: guarded_machine init "\<lambda>_ _. True" step inv
  by unfold_locales (auto intro: inv_init inv_step)

context free_machine
begin

lemma always_allowed: "run_allowed (\<lambda>_ _. True) step s es"
  by (induction es arbitrary: s) auto

lemma inv_always_from: "inv s \<Longrightarrow> inv (foldl step s es)"
  by (rule guarded.inv_run_from) (simp_all add: always_allowed)

lemma inv_always: "inv (foldl step init es)"
  by (rule inv_always_from [OF inv_init])

end

text \<open>
  An input device of the console: a machine that writes frames, each one byte that says what
  kind of message it is and a report of a fixed size.
\<close>

definition framed :: "byte \<Rightarrow> nat \<Rightarrow> byte list list \<Rightarrow> bool" where
  "framed tag len fs = list_all (\<lambda>f. length f = Suc len \<and> hd f = tag) fs"

lemma framed_simps [simp]:
  "framed tag len []" "framed tag len (fs @ gs) = (framed tag len fs \<and> framed tag len gs)"
  "framed tag len ((b # r) # fs) = (b = tag \<and> length r = len \<and> framed tag len fs)"
  by (auto simp: framed_def)

locale input_device =
  fixes init :: "'s"
    and step :: "'s \<Rightarrow> 'e \<Rightarrow> 's"
    and frames :: "'s \<Rightarrow> byte list list"
    and tag :: byte
    and len :: nat
  assumes frames_init: "framed tag len (frames init)"
    and frames_step: "framed tag len (frames s) \<Longrightarrow> framed tag len (frames (step s e))"

sublocale input_device \<subseteq> device: free_machine init step "\<lambda>s. framed tag len (frames s)"
  by unfold_locales (auto intro: frames_init frames_step)

context input_device
begin

lemma frames_always: "framed tag len (frames (foldl step init es))"
  by (rule device.inv_always)

end

end
