(* ===== verification/Keymap.thy ===== *)
theory Keymap
  imports Prelude
begin

text \<open>
  The key tables of \<^verbatim>\<open>web/src/lib/keymap.ts\<close>: the bits of the modifier byte and the HID usage
  of every \<^verbatim>\<open>KeyboardEvent.code\<close> the console forwards. The tables are object literals, read
  with \<^verbatim>\<open>in\<close> and \<^verbatim>\<open>[]\<close>, so inherited names (\<^verbatim>\<open>toString\<close>, \<^verbatim>\<open>constructor\<close>, ...) answer as well.
\<close>

section \<open>Tables\<close>

datatype modifier_name =
  LeftCtrl | LeftShift | LeftAlt | LeftMeta | RightCtrl | RightShift | RightAlt | RightMeta

fun ModifierBits :: "modifier_name \<Rightarrow> int32" where
  "ModifierBits LeftCtrl = push_bit 0 1"
| "ModifierBits LeftShift = push_bit 1 1"
| "ModifierBits LeftAlt = push_bit 2 1"
| "ModifierBits LeftMeta = push_bit 3 1"
| "ModifierBits RightCtrl = push_bit 4 1"
| "ModifierBits RightShift = push_bit 5 1"
| "ModifierBits RightAlt = push_bit 6 1"
| "ModifierBits RightMeta = push_bit 7 1"

definition ModifierMap :: "(string \<times> int32) list" where
  "ModifierMap =
    [(''ControlLeft'', ModifierBits LeftCtrl), (''ShiftLeft'', ModifierBits LeftShift),
     (''AltLeft'', ModifierBits LeftAlt), (''MetaLeft'', ModifierBits LeftMeta),
     (''ControlRight'', ModifierBits RightCtrl), (''ShiftRight'', ModifierBits RightShift),
     (''AltRight'', ModifierBits RightAlt), (''MetaRight'', ModifierBits RightMeta)]"

text \<open>The first half of \<^verbatim>\<open>KeycodeMap\<close>: letters to the numeric pad.\<close>

definition KeycodeMap_standard :: "(string \<times> byte) list" where
  "KeycodeMap_standard =
    [(''KeyA'', 4), (''KeyB'', 5), (''KeyC'', 6), (''KeyD'', 7), (''KeyE'', 8), (''KeyF'', 9),
     (''KeyG'', 10), (''KeyH'', 11), (''KeyI'', 12), (''KeyJ'', 13), (''KeyK'', 14),
     (''KeyL'', 15), (''KeyM'', 16), (''KeyN'', 17), (''KeyO'', 18), (''KeyP'', 19),
     (''KeyQ'', 20), (''KeyR'', 21), (''KeyS'', 22), (''KeyT'', 23), (''KeyU'', 24),
     (''KeyV'', 25), (''KeyW'', 26), (''KeyX'', 27), (''KeyY'', 28), (''KeyZ'', 29),
     (''Digit1'', 30), (''Digit2'', 31), (''Digit3'', 32), (''Digit4'', 33), (''Digit5'', 34),
     (''Digit6'', 35), (''Digit7'', 36), (''Digit8'', 37), (''Digit9'', 38), (''Digit0'', 39),
     (''Enter'', 40), (''Escape'', 41), (''Backspace'', 42), (''Tab'', 43), (''Space'', 44),
     (''Minus'', 45), (''Equal'', 46), (''BracketLeft'', 47), (''BracketRight'', 48),
     (''Backslash'', 49), (''Semicolon'', 51), (''Quote'', 52), (''Backquote'', 53),
     (''Comma'', 54), (''Period'', 55), (''Slash'', 56), (''CapsLock'', 57), (''F1'', 58),
     (''F2'', 59), (''F3'', 60), (''F4'', 61), (''F5'', 62), (''F6'', 63), (''F7'', 64),
     (''F8'', 65), (''F9'', 66), (''F10'', 67), (''F11'', 68), (''F12'', 69),
     (''PrintScreen'', 70), (''ScrollLock'', 71), (''Pause'', 72), (''Insert'', 73),
     (''Home'', 74), (''PageUp'', 75), (''Delete'', 76), (''End'', 77), (''PageDown'', 78),
     (''ArrowRight'', 79), (''ArrowLeft'', 80), (''ArrowDown'', 81), (''ArrowUp'', 82),
     (''NumLock'', 83), (''NumpadDivide'', 84), (''NumpadMultiply'', 85),
     (''NumpadSubtract'', 86), (''NumpadAdd'', 87), (''NumpadEnter'', 88), (''Numpad1'', 89),
     (''Numpad2'', 90), (''Numpad3'', 91), (''Numpad4'', 92), (''Numpad5'', 93),
     (''Numpad6'', 94), (''Numpad7'', 95), (''Numpad8'', 96), (''Numpad9'', 97),
     (''Numpad0'', 98), (''NumpadDecimal'', 99)]"

text \<open>The second half: international, system, media and accessibility keys.\<close>

definition KeycodeMap_extended :: "(string \<times> byte) list" where
  "KeycodeMap_extended =
    [(''IntlBackslash'', 100), (''ContextMenu'', 101), (''Power'', 102), (''NumpadEqual'', 103),
     (''F13'', 104), (''F14'', 105), (''F15'', 106), (''F16'', 107), (''F17'', 108),
     (''F18'', 109), (''F19'', 110), (''F20'', 111), (''F21'', 112), (''F22'', 113),
     (''F23'', 114), (''F24'', 115), (''Execute'', 116), (''Help'', 117), (''Props'', 118),
     (''Select'', 119), (''Stop'', 120), (''Again'', 121), (''Undo'', 122), (''Cut'', 123),
     (''Copy'', 124), (''Paste'', 125), (''Find'', 126), (''AudioVolumeMute'', 127),
     (''AudioVolumeUp'', 128), (''AudioVolumeDown'', 129), (''VolumeMute'', 127),
     (''VolumeUp'', 128), (''VolumeDown'', 129), (''LockingCapsLock'', 130),
     (''LockingNumLock'', 131), (''LockingScrollLock'', 132), (''NumpadComma'', 133),
     (''NumpadEqual2'', 134), (''IntlRo'', 135), (''KanaMode'', 136), (''IntlYen'', 137),
     (''Convert'', 138), (''NonConvert'', 139), (''International6'', 140),
     (''International7'', 141), (''International8'', 142), (''International9'', 143),
     (''Lang1'', 144), (''Lang2'', 145), (''Lang3'', 146), (''Lang4'', 147), (''Lang5'', 148),
     (''Lang6'', 149), (''Lang7'', 150), (''Lang8'', 151), (''Lang9'', 152), (''IntlHash'', 50),
     (''NumpadParenLeft'', 182), (''NumpadParenRight'', 183), (''NumpadBackspace'', 187),
     (''NumpadMemoryStore'', 208), (''NumpadMemoryRecall'', 209), (''NumpadMemoryClear'', 210),
     (''NumpadMemoryAdd'', 211), (''NumpadMemorySubtract'', 212), (''NumpadClear'', 216),
     (''NumpadClearEntry'', 217), (''BrowserSearch'', 240), (''BrowserHome'', 241),
     (''BrowserBack'', 242), (''BrowserForward'', 243), (''BrowserStop'', 244),
     (''BrowserRefresh'', 245), (''BrowserFavorites'', 246), (''MediaPlayPause'', 232),
     (''MediaStop'', 233), (''MediaTrackPrevious'', 234), (''MediaTrackNext'', 235),
     (''Eject'', 236), (''MediaSelect'', 237), (''LaunchMail'', 238), (''LaunchApp1'', 239),
     (''LaunchApp2'', 240), (''Sleep'', 248), (''Wake'', 249), (''MediaRewind'', 250),
     (''MediaFastForward'', 251)]"

definition KeycodeMap :: "(string \<times> byte) list" where
  "KeycodeMap = KeycodeMap_standard @ KeycodeMap_extended"

section \<open>Accessors\<close>

definition isModifier :: "string \<Rightarrow> bool" where
  "isModifier code \<longleftrightarrow> js_in code ModifierMap"

text \<open>
  An inherited member is an object, which the bitwise operators of the callers read as 0,
  the value the \<^verbatim>\<open>??\<close> default gives to an absent one.
\<close>

definition getModifierBit :: "string \<Rightarrow> int32" where
  "getModifierBit code = (case js_lookup ModifierMap code of Own b \<Rightarrow> b | _ \<Rightarrow> 0)"

definition getKeycode :: "string \<Rightarrow> byte property" where
  "getKeycode code = js_lookup KeycodeMap code"

section \<open>Facts about the tables\<close>

lemma ModifierMap_codes:
  "map fst ModifierMap =
    [''ControlLeft'', ''ShiftLeft'', ''AltLeft'', ''MetaLeft'',
     ''ControlRight'', ''ShiftRight'', ''AltRight'', ''MetaRight'']"
  by (simp add: ModifierMap_def)

lemma ModifierMap_bits: "map snd ModifierMap = [1, 2, 4, 8, 16, 32, 64, 128]"
  by (simp add: ModifierMap_def)

lemma ModifierMap_nth_bit:
  "i < 8 \<Longrightarrow> snd (ModifierMap ! i) = push_bit i 1"
  by (simp add: ModifierMap_def less_Suc_eq numeral_eq_Suc) (elim disjE; simp)

lemma distinct_ModifierMap: "distinct (map fst ModifierMap)"
  by (simp add: ModifierMap_codes)

lemma modifier_keys_absent: "list_all (\<lambda>(k, v). map_of KeycodeMap k = None) ModifierMap"
  by code_simp

lemma modifier_keys_disjoint: "fst ` set ModifierMap \<inter> fst ` set KeycodeMap = {}"
  using modifier_keys_absent by (fastforce simp: list_all_iff map_of_eq_None_iff)

lemma KeycodeMap_nonzero: "list_all (\<lambda>(k, v). v \<noteq> 0) KeycodeMap"
  by code_simp

lemma getKeycode_nonzero: "getKeycode code = Own v \<Longrightarrow> v \<noteq> 0"
  using KeycodeMap_nonzero
  by (auto simp: getKeycode_def js_lookup_Own list_all_iff dest!: map_of_SomeD)

lemma isModifier_Inherited: "js_lookup KeycodeMap code = Inherited \<Longrightarrow> isModifier code"
  by (auto simp: isModifier_def js_in_def js_lookup_def split: option.splits if_splits)

lemma not_isModifier_getKeycode: "\<not> isModifier code \<Longrightarrow> getKeycode code \<noteq> Inherited"
  using isModifier_Inherited by (auto simp: getKeycode_def)

lemma isModifier_cases:
  "isModifier code \<longleftrightarrow> code \<in> fst ` set ModifierMap \<or> code \<in> set object_prototype"
  by (auto simp: isModifier_def js_in_def js_lookup_Absent map_of_eq_None_iff)

lemma getModifierBit_index:
  "i < 8 \<Longrightarrow> getModifierBit (fst (ModifierMap ! i)) = push_bit i 1"
  by (simp add: getModifierBit_def js_lookup_def ModifierMap_def less_Suc_eq numeral_eq_Suc)
    (elim disjE; simp)

end
