(* ===== verification/Keyboard_Report.thy ===== *)
theory Keyboard_Report
  imports Keymap
begin

text \<open>
  The class \<^verbatim>\<open>KeyboardReport\<close> of \<^verbatim>\<open>web/src/lib/keyboard.ts\<close>: the held modifiers and keys of the
  emulated keyboard and the 8-byte HID report built from them. The specification is the set
  of codes whose last event was a press; the report refines it.
\<close>

section \<open>Model\<close>

definition MAX_KEYS :: nat where
  "MAX_KEYS = 6"

record keyboard_report =
  modifier :: int32
  pressedKeys :: "(string \<times> byte) list"

definition new_keyboard_report :: keyboard_report where
  "new_keyboard_report = \<lparr>modifier = 0, pressedKeys = []\<rparr>"

text \<open>The loop of \<^verbatim>\<open>buildReport\<close>, which stops at the end of the report.\<close>

fun fill_keys :: "nat \<Rightarrow> byte list \<Rightarrow> byte list \<Rightarrow> byte list" where
  "fill_keys i report [] = report"
| "fill_keys i report (keycode # ks) =
     (if i \<ge> 8 then report else fill_keys (Suc i) (report[i := keycode]) ks)"

definition buildReport :: "keyboard_report \<Rightarrow> byte list" where
  "buildReport kb =
    (let report = replicate 8 0;
         report = report[0 := ucast (modifier kb)];
         report = report[1 := 0]
     in fill_keys 2 report (map snd (pressedKeys kb)))"

definition keyDown :: "keyboard_report \<Rightarrow> string \<Rightarrow> keyboard_report \<times> byte list" where
  "keyDown kb code =
    (let kb' =
       (if isModifier code then kb\<lparr>modifier := modifier kb OR getModifierBit code\<rparr>
        else (case getKeycode code of
                Absent \<Rightarrow> kb
              | Own keycode \<Rightarrow>
                  (if length (pressedKeys kb) < MAX_KEYS
                   then kb\<lparr>pressedKeys := AList.update code keycode (pressedKeys kb)\<rparr> else kb)
              | Inherited \<Rightarrow>
                  (if length (pressedKeys kb) < MAX_KEYS
                   then kb\<lparr>pressedKeys := AList.update code 0 (pressedKeys kb)\<rparr> else kb)))
     in (kb', buildReport kb'))"

definition keyUp :: "keyboard_report \<Rightarrow> string \<Rightarrow> keyboard_report \<times> byte list" where
  "keyUp kb code =
    (let kb' =
       (if isModifier code then kb\<lparr>modifier := modifier kb AND NOT (getModifierBit code)\<rparr>
        else kb\<lparr>pressedKeys := AList.delete code (pressedKeys kb)\<rparr>)
     in (kb', buildReport kb'))"

definition reset_keys :: "keyboard_report \<Rightarrow> keyboard_report \<times> byte list" where
  "reset_keys kb =
    (let kb' = kb\<lparr>modifier := 0, pressedKeys := []\<rparr> in (kb', buildReport kb'))"

definition getModifier :: "keyboard_report \<Rightarrow> int32" where
  "getModifier kb = modifier kb"

definition getPressedKeyCount :: "keyboard_report \<Rightarrow> nat" where
  "getPressedKeyCount kb = length (pressedKeys kb)"

datatype key_event = KeyDown string | KeyUp string | KeyReset

fun report_step :: "keyboard_report \<Rightarrow> key_event \<Rightarrow> keyboard_report" where
  "report_step kb (KeyDown code) = fst (keyDown kb code)"
| "report_step kb (KeyUp code) = fst (keyUp kb code)"
| "report_step kb KeyReset = fst (reset_keys kb)"

section \<open>Specification\<close>

text \<open>The codes that are down: the last event of each of them is a press.\<close>

fun held_step :: "string set \<Rightarrow> key_event \<Rightarrow> string set" where
  "held_step H (KeyDown code) = insert code H"
| "held_step H (KeyUp code) = H - {code}"
| "held_step H KeyReset = {}"

definition key_codes :: "string set" where
  "key_codes = {c. \<not> isModifier c \<and> (\<exists>k. getKeycode c = Own k)}"

text \<open>No more than six ordinary keys are ever down at once.\<close>

fun within_rollover :: "string set \<Rightarrow> key_event list \<Rightarrow> bool" where
  "within_rollover H [] \<longleftrightarrow> True"
| "within_rollover H (e # es) \<longleftrightarrow>
     card (held_step H e \<inter> key_codes) \<le> MAX_KEYS \<and> within_rollover (held_step H e) es"

section \<open>The report\<close>

lemma fill_keys_eq:
  "length report = 8 \<Longrightarrow> 2 \<le> i \<Longrightarrow> i \<le> 8 \<Longrightarrow>
    fill_keys i report ks =
      take i report @ take (8 - i) ks @ drop (i + min (8 - i) (length ks)) report"
proof (induction ks arbitrary: i report)
  case Nil
  then show ?case by simp
next
  case (Cons k ks)
  show ?case
  proof (cases "i \<ge> 8")
    case True
    with Cons.prems show ?thesis by simp
  next
    case False
    with Cons.prems have "fill_keys (Suc i) (report[i := k]) ks =
      take (Suc i) (report[i := k]) @ take (8 - Suc i) ks @
        drop (Suc i + min (8 - Suc i) (length ks)) (report[i := k])"
      by (intro Cons.IH) auto
    moreover have "take (Suc i) (report[i := k]) = take i report @ [k]"
      using False Cons.prems by (simp add: take_Suc_conv_app_nth)
    moreover have "8 - i = Suc (8 - Suc i)" using False by simp
    ultimately show ?thesis using False Cons.prems by simp
  qed
qed

lemma buildReport_eq:
  "buildReport kb =
    [ucast (modifier kb), 0] @ take 6 (map snd (pressedKeys kb)) @
      replicate (6 - length (pressedKeys kb)) 0"
proof -
  have blank: "(replicate 8 0)[0 := a, 1 := 0] = [a, 0] @ replicate 6 (0 :: byte)" for a :: byte
    by (simp add: numeral_eq_Suc)
  show ?thesis
    unfolding buildReport_def Let_def blank
    by (simp add: fill_keys_eq min_def)
qed

lemma length_buildReport: "length (buildReport kb) = 8"
  by (simp add: buildReport_eq)

section \<open>Invariant\<close>

definition report_inv :: "keyboard_report \<Rightarrow> bool" where
  "report_inv kb \<longleftrightarrow>
    length (pressedKeys kb) \<le> MAX_KEYS \<and> distinct (map fst (pressedKeys kb)) \<and>
    (\<forall>(c, k) \<in> set (pressedKeys kb). \<not> isModifier c \<and> getKeycode c = Own k) \<and>
    modifier kb AND 255 = modifier kb"

lemma getModifierBit_byte: "getModifierBit c AND 255 = getModifierBit c"
  by (auto simp: getModifierBit_def js_lookup_def ModifierMap_def split: option.splits if_splits)

lemma report_inv_new: "report_inv new_keyboard_report"
  by (simp add: report_inv_def new_keyboard_report_def)

lemma set_alist_update_subset:
  "set (AList.update k v m) \<subseteq> insert (k, v) (set m)"
  by (induction m) auto

lemma report_inv_keyDown: "report_inv kb \<Longrightarrow> report_inv (fst (keyDown kb c))"
proof (cases "isModifier c")
  case True
  assume inv: "report_inv kb"
  have "(modifier kb OR getModifierBit c) AND 255 = modifier kb OR getModifierBit c"
    using inv by (simp add: report_inv_def bit.conj_disj_distrib2 getModifierBit_byte)
  with True inv show ?thesis by (simp add: keyDown_def report_inv_def Let_def)
next
  case False
  assume inv: "report_inv kb"
  show ?thesis
  proof (cases "getKeycode c")
    case (Own k)
    have upd: "\<forall>(c', k') \<in> set (AList.update c k (pressedKeys kb)).
        \<not> isModifier c' \<and> getKeycode c' = Own k'"
      using inv False Own set_alist_update_subset [of c k "pressedKeys kb"]
      by (fastforce simp: report_inv_def)
    show ?thesis
      using inv False Own upd
      by (auto simp: keyDown_def report_inv_def Let_def length_alist_update distinct_update MAX_KEYS_def)
  next
    case Inherited
    then show ?thesis using not_isModifier_getKeycode [OF False] by simp
  next
    case Absent
    with inv False show ?thesis by (simp add: keyDown_def Let_def)
  qed
qed

lemma and_byte_mask: "m AND 255 = m \<Longrightarrow> (m AND b) AND 255 = m AND b" for m b :: int32
  by (metis and.assoc and.commute)

lemma report_inv_keyUp: "report_inv kb \<Longrightarrow> report_inv (fst (keyUp kb c))"
  unfolding keyUp_def report_inv_def
  by (cases "isModifier c")
    (auto simp: Let_def distinct_delete set_alist_delete and_byte_mask
      intro: le_trans [OF length_alist_delete_le])

lemma report_inv_reset: "report_inv (fst (reset_keys kb))"
  by (simp add: reset_keys_def report_inv_def Let_def)

lemma report_inv_step: "report_inv kb \<Longrightarrow> report_inv (report_step kb e)"
  by (cases e) (simp_all add: report_inv_keyDown report_inv_keyUp report_inv_reset)

interpretation report: free_machine new_keyboard_report report_step report_inv
  by unfold_locales (auto intro: report_inv_new report_inv_step)

section \<open>Codes the report holds\<close>

definition hid_held :: "keyboard_report \<Rightarrow> string \<Rightarrow> bool" where
  "hid_held kb code \<longleftrightarrow>
    (if isModifier code then modifier kb AND getModifierBit code \<noteq> 0
     else code \<in> fst ` set (pressedKeys kb))"

section \<open>The report refines the set of held codes\<close>

lemma bit_getModifierBit:
  "i < 8 \<Longrightarrow> bit (getModifierBit c) i \<longleftrightarrow> c = fst (ModifierMap ! i)"
proof (cases "\<exists>j < 8. c = fst (ModifierMap ! j)")
  case True
  assume i: "i < 8"
  from True obtain j where j: "j < 8" "c = fst (ModifierMap ! j)" by blast
  have len: "length ModifierMap = 8" by (simp add: ModifierMap_def)
  have "c = fst (ModifierMap ! i) \<longleftrightarrow> i = j"
    using nth_eq_iff_index_eq [OF distinct_ModifierMap, of i j] i j len by auto
  moreover have "bit (getModifierBit c) i \<longleftrightarrow> i = j"
    using i j by (auto simp: getModifierBit_index bit_exp_iff possible_bit_word)
  ultimately show ?thesis by simp
next
  case False
  assume i: "i < 8"
  have "c \<notin> fst ` set ModifierMap"
  proof
    assume "c \<in> fst ` set ModifierMap"
    then obtain j where "j < length ModifierMap" "c = fst (ModifierMap ! j)"
      by (metis (no_types) imageE in_set_conv_nth)
    moreover have "length ModifierMap = 8" by (simp add: ModifierMap_def)
    ultimately show False using False by metis
  qed
  then have "getModifierBit c = 0"
    by (auto simp: getModifierBit_def js_lookup_def map_of_eq_None_iff [THEN iffD2])
  with False i show ?thesis by auto
qed

lemma modifier_entry: "i < 8 \<Longrightarrow> isModifier (fst (ModifierMap ! i))"
proof -
  assume "i < 8"
  then have "i < length ModifierMap" by (simp add: ModifierMap_def)
  then show ?thesis by (simp add: isModifier_cases)
qed

lemma getModifierBit_disjoint:
  assumes "getModifierBit c AND getModifierBit d \<noteq> 0"
  shows "c = d"
proof -
  obtain i where i: "bit (getModifierBit c) i" "bit (getModifierBit d) i"
    using assms by (auto simp: bit_eq_iff bit_and_iff)
  have "bit (getModifierBit c AND 255) i" using i(1) by (simp add: getModifierBit_byte)
  then have "bit (255 :: int32) i" by (simp add: bit_and_iff)
  moreover have "(255 :: int32) = mask 8" by (simp add: mask_eq_exp_minus_1)
  ultimately have "i < 8" by (simp add: bit_mask_iff)
  with i show ?thesis by (simp add: bit_getModifierBit)
qed

lemma hid_held_new [simp]: "\<not> hid_held new_keyboard_report c"
  by (simp add: hid_held_def new_keyboard_report_def)

lemma hid_held_keyDown: "hid_held (fst (keyDown kb c)) d \<Longrightarrow> hid_held kb d \<or> d = c"
  using getModifierBit_disjoint [of c d]
  by (auto simp: hid_held_def keyDown_def Let_def bit.conj_disj_distrib2 dom_update
      split: if_splits property.splits)

lemma hid_held_keyUp: "hid_held (fst (keyUp kb c)) d \<longleftrightarrow> hid_held kb d \<and> d \<noteq> c"
proof (cases "isModifier c")
  case True
  have "(m AND NOT (getModifierBit c)) AND getModifierBit d = (if d = c then 0 else m AND getModifierBit d)"
    for m :: int32
  proof (cases "d = c")
    case False
    then have "getModifierBit d AND getModifierBit c = 0" using getModifierBit_disjoint by blast
    then have "NOT (getModifierBit c) AND getModifierBit d = getModifierBit d"
      by (auto simp: bit_eq_iff bit_simps)
    with False show ?thesis by (simp add: and.assoc)
  qed (simp add: and.assoc)
  with True show ?thesis by (simp add: hid_held_def keyUp_def Let_def)
next
  case False
  then show ?thesis by (auto simp: hid_held_def keyUp_def Let_def set_alist_delete)
qed

lemma reset_keys_new: "fst (reset_keys kb) = new_keyboard_report"
  by (simp add: reset_keys_def Let_def new_keyboard_report_def)

lemma snd_report: "snd (keyDown kb c) = buildReport (fst (keyDown kb c))"
    "snd (keyUp kb c) = buildReport (fst (keyUp kb c))"
    "snd (reset_keys kb) = buildReport (fst (reset_keys kb))"
  by (simp_all add: keyDown_def keyUp_def reset_keys_def Let_def)

text \<open>Every modifier bit follows its code, whatever else is pressed.\<close>

lemma modifier_bit_step:
  "i < 8 \<Longrightarrow> (\<And>i. i < 8 \<Longrightarrow> bit (modifier kb) i \<longleftrightarrow> fst (ModifierMap ! i) \<in> H) \<Longrightarrow>
    bit (modifier (report_step kb e)) i \<longleftrightarrow> fst (ModifierMap ! i) \<in> held_step H e"
proof (cases e)
  case (KeyDown c)
  assume "i < 8" "\<And>i. i < 8 \<Longrightarrow> bit (modifier kb) i \<longleftrightarrow> fst (ModifierMap ! i) \<in> H"
  then show ?thesis using KeyDown modifier_entry [of i]
    by (auto simp: keyDown_def Let_def bit_or_iff bit_getModifierBit split: property.splits)
next
  case (KeyUp c)
  assume "i < 8" "\<And>i. i < 8 \<Longrightarrow> bit (modifier kb) i \<longleftrightarrow> fst (ModifierMap ! i) \<in> H"
  then show ?thesis using KeyUp modifier_entry [of i]
    by (auto simp: keyUp_def Let_def bit_and_iff bit_not_iff bit_getModifierBit)
next
  case KeyReset
  then show ?thesis by (simp add: reset_keys_def Let_def)
qed

lemma modifier_bits_run:
  "i < 8 \<Longrightarrow> (\<And>i. i < 8 \<Longrightarrow> bit (modifier kb) i \<longleftrightarrow> fst (ModifierMap ! i) \<in> H) \<Longrightarrow>
    bit (modifier (foldl report_step kb es)) i \<longleftrightarrow> fst (ModifierMap ! i) \<in> foldl held_step H es"
proof (induction es arbitrary: kb H)
  case (Cons e es)
  show ?case using Cons.IH [of "report_step kb e" "held_step H e"] Cons.prems modifier_bit_step [of _ kb H e]
    by simp
qed simp

text \<open>Within the rollover limit the map holds exactly the ordinary keys that are down.\<close>

lemma held_keys_step:
  assumes "report_inv kb" and "fst ` set (pressedKeys kb) = H \<inter> key_codes"
    and "card (held_step H e \<inter> key_codes) \<le> MAX_KEYS"
  shows "fst ` set (pressedKeys (report_step kb e)) = held_step H e \<inter> key_codes"
proof (cases e)
  case (KeyDown c)
  show ?thesis
  proof (cases "c \<in> key_codes")
    case True
    then obtain k where k: "\<not> isModifier c" "getKeycode c = Own k" by (auto simp: key_codes_def)
    have "length (pressedKeys kb) = card (H \<inter> key_codes)"
      using assms(1,2) distinct_card [of "map fst (pressedKeys kb)"] by (simp add: report_inv_def)
    moreover have fin: "finite (H \<inter> key_codes)" using assms(2) by (metis List.finite_set finite_imageI)
    moreover have "held_step H e \<inter> key_codes = insert c (H \<inter> key_codes)"
      using True KeyDown by auto
    ultimately have "c \<notin> H \<Longrightarrow> length (pressedKeys kb) < MAX_KEYS"
      using assms(3) by simp
    with assms(2) True k KeyDown show ?thesis
      by (auto simp: keyDown_def Let_def dom_update)
  next
    case False
    then show ?thesis using assms(2) KeyDown not_isModifier_getKeycode [of c]
      by (auto simp: keyDown_def Let_def key_codes_def split: property.splits)
  qed
next
  case (KeyUp c)
  have "fst ` set (AList.delete c (pressedKeys kb)) = fst ` set (pressedKeys kb) - {c}"
    by (auto simp: set_alist_delete)
  then show ?thesis
    using assms(2) KeyUp by (auto simp: keyUp_def Let_def key_codes_def)
next
  case KeyReset
  then show ?thesis by (simp add: reset_keys_def Let_def)
qed

lemma held_keys_run:
  "report_inv kb \<Longrightarrow> fst ` set (pressedKeys kb) = H \<inter> key_codes \<Longrightarrow> within_rollover H es \<Longrightarrow>
    fst ` set (pressedKeys (foldl report_step kb es)) = foldl held_step H es \<inter> key_codes"
proof (induction es arbitrary: kb H)
  case (Cons e es)
  show ?case
    using Cons.IH [of "report_step kb e" "held_step H e"] Cons.prems
    by (simp add: report_inv_step held_keys_step)
qed simp


lemma key_slots:
  "report_inv kb \<Longrightarrow>
    set (drop 2 (buildReport kb)) - {0} = {k. \<exists>c \<in> fst ` set (pressedKeys kb). getKeycode c = Own k}"
proof -
  assume inv: "report_inv kb"
  then have "set (drop 2 (buildReport kb)) - {0} = snd ` set (pressedKeys kb) - {0}"
    by (auto simp: buildReport_eq report_inv_def MAX_KEYS_def)
  moreover have "\<forall>p \<in> set (pressedKeys kb). getKeycode (fst p) = Own (snd p) \<and> snd p \<noteq> 0"
    using inv getKeycode_nonzero by (auto simp: report_inv_def)
  ultimately show ?thesis by (auto simp: image_iff)
qed



text \<open>
  Pressing a key and releasing it leaves the keyboard exactly as it was, when the key was
  up before: for a modifier when its bit was clear, for any other code when it was not among
  the held keys (also when the press was dropped because six keys were down).
\<close>

theorem keyUp_keyDown_restores:
  assumes "report_inv kb"
    and "if isModifier code then modifier kb AND getModifierBit code = 0
         else code \<notin> fst ` set (pressedKeys kb)"
  shows "fst (keyUp (fst (keyDown kb code)) code) = kb"
proof (cases "isModifier code")
  case True
  let ?b = "getModifierBit code"
  have "modifier kb AND ?b = 0" using assms True by simp
  then have "(modifier kb OR ?b) AND NOT ?b = modifier kb"
    by (auto simp: bit_eq_iff bit_simps)
  with True show ?thesis by (simp add: keyDown_def keyUp_def Let_def)
next
  case False
  with assms(2) show ?thesis
    by (cases "getKeycode code")
      (auto simp: keyDown_def keyUp_def Let_def alist_delete_absent alist_delete_update_absent)
qed

theorem keyUp_keyDown_restores_witness:
  "fst (keyUp (fst (keyDown new_keyboard_report ''ShiftLeft'')) ''ShiftLeft'') =
    new_keyboard_report"
  by (rule keyUp_keyDown_restores [OF report_inv_new]) (simp add: new_keyboard_report_def)

end
