(* ===== verification/Text_Tools.thy ===== *)
theory Text_Tools
  imports Prelude "HOL-Library.Sublist"
begin

text \<open>
  The string operations of the language that the settings pages use, on strings of 8-bit
  characters: trimming, lower case, splitting, searching, fixed-point printing.
\<close>

definition is_ws :: "char \<Rightarrow> bool" where
  "is_ws c \<longleftrightarrow> of_char c \<in> {9, 10, 11, 12, 13, 32, 160 :: nat}"

definition js_trim :: "string \<Rightarrow> string" where
  "js_trim s = rev (dropWhile is_ws (rev (dropWhile is_ws s)))"

definition lower_char :: "char \<Rightarrow> char" where
  "lower_char c =
    (let n = of_char c :: nat
     in if 65 \<le> n \<and> n \<le> 90 \<or> 192 \<le> n \<and> n \<le> 222 \<and> n \<noteq> 215 then char_of (n + 32) else c)"

definition js_lower :: "string \<Rightarrow> string" where
  "js_lower = map lower_char"

definition is_digit :: "char \<Rightarrow> bool" where
  "is_digit c \<longleftrightarrow> 48 \<le> (of_char c :: nat) \<and> (of_char c :: nat) \<le> 57"

definition digit_value :: "char \<Rightarrow> nat" where
  "digit_value c = of_char c - 48"

text \<open>\<^verbatim>\<open>includes\<close>.\<close>

definition js_includes :: "string \<Rightarrow> string \<Rightarrow> bool" where
  "js_includes s t \<longleftrightarrow> sublist t s"

text \<open>\<^verbatim>\<open>split\<close> on one character.\<close>

fun split_char :: "char \<Rightarrow> string \<Rightarrow> string list" where
  "split_char d [] = [[]]"
| "split_char d (c # cs) =
    (if c = d then [] # split_char d cs
     else case split_char d cs of p # ps \<Rightarrow> (c # p) # ps | [] \<Rightarrow> [[c]])"

text \<open>\<^verbatim>\<open>Number\<close> of a string of decimal digits.\<close>

definition number_of :: "string \<Rightarrow> nat" where
  "number_of s = foldl (\<lambda>n c. n * 10 + digit_value c) 0 s"

text \<open>\<open>toFixed\<close> of a nonnegative number: the nearest multiple, halves up.\<close>

definition js_toFixed :: "nat \<Rightarrow> rat \<Rightarrow> string" where
  "js_toFixed digits x =
    (let n = nat (js_round (x * 10 ^ digits));
         frac = nat_string (n mod 10 ^ digits)
     in nat_string (n div 10 ^ digits) @ ''.'' @ replicate (digits - length frac) (CHR ''0'') @ frac)"

lemma split_char_nonempty [simp]: "split_char d s \<noteq> []"
  by (induction s) (auto split: list.split)

lemma split_char_plain: "d \<notin> set s \<Longrightarrow> split_char d s = [s]"
  by (induction s) auto

lemma split_char_append:
  "d \<notin> set s \<Longrightarrow> split_char d (s @ d # t) = s # split_char d t"
  by (induction s) (auto split: list.split)

lemma digit_props:
  assumes "n < 10"
  shows "is_digit (digit n)" "digit_value (digit n) = n" "of_char (digit n) = 48 + n"
proof -
  from assms have "n = 0 \<or> n = 1 \<or> n = 2 \<or> n = 3 \<or> n = 4 \<or> n = 5 \<or> n = 6 \<or> n = 7 \<or> n = 8 \<or> n = 9"
    by presburger
  then show "is_digit (digit n)" "digit_value (digit n) = n" "of_char (digit n) = 48 + n"
    by (auto simp: digit_def is_digit_def digit_value_def)
qed

lemma digits_nat_string: "list_all is_digit (nat_string n)"
  by (induction n rule: nat_string.induct) (subst nat_string.simps, simp add: digit_props)

lemma nat_string_plain:
  assumes "c \<in> set (nat_string n)"
  shows "is_digit c"
  using assms digits_nat_string [of n] by (auto simp: list_all_iff)

lemma nat_string_value: "foldl (\<lambda>n c. n * 10 + digit_value c) 0 (nat_string n) = n"
  by (induction n rule: nat_string.induct) (subst nat_string.simps, simp add: digit_props)

lemma number_nat_string: "number_of (nat_string n) = n"
  by (simp add: number_of_def nat_string_value)

lemma nat_string_nonempty [simp]: "nat_string n \<noteq> []"
  by (subst nat_string.simps) simp

lemma js_trim_plain:
  assumes "s \<noteq> []" "\<not> is_ws (hd s)" "\<not> is_ws (last s)"
  shows "js_trim s = s"
proof -
  have "dropWhile is_ws s = s" using assms by (cases s) auto
  moreover have "dropWhile is_ws (rev s) = rev s" using assms by (cases s rule: rev_cases) auto
  ultimately show ?thesis by (simp add: js_trim_def)
qed

lemma not_ws_digit: "is_digit c \<Longrightarrow> \<not> is_ws c"
  by (auto simp: is_digit_def is_ws_def)

end
