(* ===== verification/Virtual_Keyboard.thy ===== *)
theory Virtual_Keyboard
  imports Keyboard_Report Text_Tools
begin

text \<open>
  The keyboard on the screen and the shortcuts: the layouts of
  \<^verbatim>\<open>web/src/pages/desktop/virtual-keyboard/virtual-keys.ts\<close>, the component of \<^verbatim>\<open>virtual-keyboard/index.tsx\<close> that
  turns its buttons into reports, recording a shortcut (\<^verbatim>\<open>menu/keyboard/shortcuts/recorder.tsx\<close>) and
  sending one (\<^verbatim>\<open>shortcut.tsx\<close>). A frame is what is handed to \<^verbatim>\<open>client.send\<close>. Which button the
  keyboard library reports is its name in the layout.
\<close>

section \<open>Layouts\<close>

definition layout_default :: "string list" where
  "layout_default =
    [''{escape} F1 F2 F3 F4 F5 F6 F7 F8 F9 F10 F11 F12'',
     ''Backquote Digit1 Digit2 Digit3 Digit4 Digit5 Digit6 Digit7 Digit8 Digit9 Digit0 Minus Equal {backspace}'',
     ''{tab} KeyQ KeyW KeyE KeyR KeyT KeyY KeyU KeyI KeyO KeyP BracketLeft BracketRight Backslash'',
     ''{capslock} KeyA KeyS KeyD KeyF KeyG KeyH KeyJ KeyK KeyL Semicolon Quote {enter}'',
     ''{shiftleft} KeyZ KeyX KeyC KeyV KeyB KeyN KeyM Comma Period Slash {shiftright}'',
     ''{controlleft} {winleft} {altleft} {space} {altright} {winright} {menu} {controlright}'']"

definition layout_mac :: "string list" where
  "layout_mac =
    [''{escape} F1 F2 F3 F4 F5 F6 F7 F8 F9 F10 F11 F12'',
     ''Backquote Digit1 Digit2 Digit3 Digit4 Digit5 Digit6 Digit7 Digit8 Digit9 Digit0 Minus Equal {backspace}'',
     ''{tab} KeyQ KeyW KeyE KeyR KeyT KeyY KeyU KeyI KeyO KeyP BracketLeft BracketRight Backslash'',
     ''{capslock} KeyA KeyS KeyD KeyF KeyG KeyH KeyJ KeyK KeyL Semicolon Quote {enter}'',
     ''{shiftleft} KeyZ KeyX KeyC KeyV KeyB KeyN KeyM Comma Period Slash {shiftright}'',
     ''{controlleft} {altleft} {metaleft} {space} {metaright} {altright}'']"

definition layout_rus :: "string list" where
  "layout_rus =
    [''{escape} F1 F2 F3 F4 F5 F6 F7 F8 F9 F10 F11 F12'',
     ''Backquote Digit1 Digit2 Digit3 Digit4 Digit5 Digit6 Digit7 Digit8 Digit9 Digit0 Minus Equal {backspace}'',
     ''{tab} RusQ RusW RusE RusR RusT RusY RusU RusI RusO RusP RusBracketLeft RusBracketRight RusBackslash'',
     ''{capslock} RusA RusS RusD RusF RusG RusH RusJ RusK RusL RusSemicolon RusQuote {enter}'',
     ''{shiftleft} RusZ RusX RusC RusV RusB RusN RusM RusComma RusPeriod RusSlash {shiftright}'',
     ''{controlleft} {winleft} {altleft} {space} {altright} {winright} {menu} {controlright}'']"

definition layout_qwertz :: "string list" where
  "layout_qwertz =
    [''{escape} F1 F2 F3 F4 F5 F6 F7 F8 F9 F10 F11 F12'',
     ''Backquote_qwertz Digit1_qwertz Digit2_qwertz Digit3_qwertz Digit4_qwertz Digit5_qwertz Digit6_qwertz Digit7_qwertz Digit8_qwertz Digit9_qwertz Digit0_qwertz Minus_qwertz Equal_qwertz {backspace}'',
     ''{tab} KeyQ_qwertz KeyW KeyE_qwertz KeyR KeyT KeyZ_qwertz KeyU KeyI KeyO KeyP BracketLeft_qwertz BracketRight_qwertz'',
     ''{capslock} KeyA KeyS KeyD KeyF KeyG KeyH KeyJ KeyK KeyL Semicolon_qwertz Quote_qwertz Backslash_qwertz {enter}'',
     ''{shiftleft} IntlBackslash_qwertz KeyY_qwertz KeyX KeyC KeyV KeyB KeyN KeyM Comma_qwertz Period_qwertz Slash_qwertz {shiftright}'',
     ''{controlleft_qwertz} {winleft} {altleft} {space} {altright_qwertz} {winright} {menu} {controlright_qwertz}'']"

definition layout_azerty :: "string list" where
  "layout_azerty =
    [''{escape} F1 F2 F3 F4 F5 F6 F7 F8 F9 F10 F11 F12'',
     ''Backquote_azerty Digit1_azerty Digit2_azerty Digit3_azerty Digit4_azerty Digit5_azerty Digit6_azerty Digit7_azerty Digit8_azerty Digit9_azerty Digit0_azerty Minus_azerty Equal_azerty {backspace}'',
     ''{tab} KeyA_azerty KeyZ_azerty KeyE_azerty KeyR_azerty KeyT_azerty KeyY_azerty KeyU_azerty KeyI_azerty KeyO_azerty KeyP_azerty BracketLeft_azerty BracketRight_azerty Backslash_azerty'',
     ''{capslock} KeyQ_azerty KeyS_azerty KeyD_azerty KeyF_azerty KeyG_azerty KeyH_azerty KeyJ_azerty KeyK_azerty KeyL_azerty Semicolon_azerty Quote_azerty {enter}'',
     ''{shiftleft} KeyW_azerty KeyX_azerty KeyC_azerty KeyV_azerty KeyB_azerty KeyN_azerty KeyM_azerty Comma_azerty Period_azerty Slash_azerty {shiftright}'',
     ''{controlleft} {winleft} {altleft} {space} {altright} {winright} {menu} {controlright}'']"

definition layout_ko :: "string list" where
  "layout_ko =
    [''{escape} F1 F2 F3 F4 F5 F6 F7 F8 F9 F10 F11 F12'',
     ''Backquote_ko Digit1_ko Digit2_ko Digit3_ko Digit4_ko Digit5_ko Digit6_ko Digit7_ko Digit8_ko Digit9_ko Digit0_ko Minus_ko Equal_ko {backspace}'',
     ''{tab} KeyQ_ko KeyW_ko KeyE_ko KeyR_ko KeyT_ko KeyY_ko KeyU_ko KeyI_ko KeyO_ko KeyP_ko BracketLeft_ko BracketRight_ko Backslash_ko'',
     ''{capslock} KeyA_ko KeyS_ko KeyD_ko KeyF_ko KeyG_ko KeyH_ko KeyJ_ko KeyK_ko KeyL_ko Semicolon_ko Quote_ko {enter}'',
     ''{shiftleft} KeyZ_ko KeyX_ko KeyC_ko KeyV_ko KeyB_ko KeyN_ko KeyM_ko Comma_ko Period_ko Slash_ko {shiftright}'',
     ''{controlleft} {winleft} {altleft} {space} {altright} {winright} {menu} {controlright}'']"

definition layout_ja :: "string list" where
  "layout_ja =
    [''{escape} F1 F2 F3 F4 F5 F6 F7 F8 F9 F10 F11 F12'',
     ''Backquote_ja Digit1_ja Digit2_ja Digit3_ja Digit4_ja Digit5_ja Digit6_ja Digit7_ja Digit8_ja Digit9_ja Digit0_ja Minus_ja Equal_ja {backspace}'',
     ''{tab} KeyQ_ja KeyW_ja KeyE_ja KeyR_ja KeyT_ja KeyY_ja KeyU_ja KeyI_ja KeyO_ja KeyP_ja BracketLeft_ja BracketRight_ja Backslash_ja'',
     ''{capslock} KeyA_ja KeyS_ja KeyD_ja KeyF_ja KeyG_ja KeyH_ja KeyJ_ja KeyK_ja KeyL_ja Semicolon_ja Quote_ja {enter}'',
     ''{shiftleft} KeyZ_ja KeyX_ja KeyC_ja KeyV_ja KeyB_ja KeyN_ja KeyM_ja Comma_ja Period_ja Slash_ja {shiftright}'',
     ''{controlleft} {winleft} {altleft} {space} {altright} {winright} {menu} {controlright}'']"

definition control_pad :: "string list" where
  "control_pad = [''{prtscr} {scrolllock} {pause}'',
     ''{insert} {home} {pageup}'',
     ''{delete} {end} {pagedown}'']"

definition arrow_keys :: "string list" where
  "arrow_keys = [''{arrowup}'',
     ''{arrowleft} {arrowdown} {arrowright}'']"

definition specialKeyMap :: "(string \<times> string) list" where
  "specialKeyMap =
    [(''{escape}'', ''Escape''), (''{backspace}'', ''Backspace''), (''{tab}'', ''Tab''),
     (''{capslock}'', ''CapsLock''), (''{enter}'', ''Enter''), (''{shiftleft}'', ''ShiftLeft''),
     (''{shiftright}'', ''ShiftRight''), (''{controlleft}'', ''ControlLeft''),
     (''{controlright}'', ''ControlRight''), (''{altleft}'', ''AltLeft''), (''{metaleft}'', ''MetaLeft''),
     (''{winleft}'', ''MetaLeft''), (''{space}'', ''Space''), (''{metaright}'', ''MetaRight''),
     (''{winright}'', ''MetaRight''), (''{altright}'', ''AltRight''), (''{prtscr}'', ''PrintScreen''),
     (''{scrolllock}'', ''ScrollLock''), (''{pause}'', ''Pause''), (''{insert}'', ''Insert''),
     (''{home}'', ''Home''), (''{pageup}'', ''PageUp''), (''{delete}'', ''Delete''), (''{end}'', ''End''),
     (''{pagedown}'', ''PageDown''), (''{arrowright}'', ''ArrowRight''), (''{arrowleft}'', ''ArrowLeft''),
     (''{arrowdown}'', ''ArrowDown''), (''{arrowup}'', ''ArrowUp''), (''{controlleft_qwertz}'', ''ControlLeft''),
     (''{controlright_qwertz}'', ''ControlRight''), (''{altright_qwertz}'', ''AltRight'')]"

definition modifierKeys :: "string list" where
  "modifierKeys =
    [''{shiftleft}'', ''{controlleft}'', ''{altleft}'', ''{metaleft}'', ''{winleft}'', ''{shiftright}'',
     ''{controlright}'', ''{altright}'', ''{metaright}'', ''{winright}'', ''{controlleft_qwertz}'',
     ''{controlright_qwertz}'', ''{altright_qwertz}'']"

definition layout_rows :: "string \<Rightarrow> string list" where
  "layout_rows n =
    (if n = ''mac'' then layout_mac else if n = ''rus'' then layout_rus else if n = ''qwertz'' then layout_qwertz
     else if n = ''azerty'' then layout_azerty else if n = ''ko'' then layout_ko else if n = ''ja'' then layout_ja
     else layout_default)"

text \<open>The buttons of rows: the library splits a row at its blanks.\<close>

definition buttons :: "string list \<Rightarrow> string list" where
  "buttons rows = concat (map (split_char (CHR '' '')) rows)"

definition layout_for :: "string \<Rightarrow> string \<Rightarrow> string" where
  "layout_for language system =
    (if language = ''en'' \<and> system = ''mac'' then ''mac''
     else case map_of [(''en'', ''default''), (''ru'', ''rus''), (''de'', ''qwertz''), (''fr'', ''azerty''), (''ko'', ''ko''),
         (''ja'', ''ja'')] language of
       Some l \<Rightarrow> l
     | None \<Rightarrow> ''default'')"

section \<open>Keys\<close>

text \<open>\<^verbatim>\<open>replace\<close> of a text by nothing: its first occurrence.\<close>

fun remove_first :: "string \<Rightarrow> string \<Rightarrow> string" where
  "remove_first p [] = []"
| "remove_first p (c # cs) = (if prefix p (c # cs) then drop (length p) (c # cs) else c # remove_first p cs)"

definition getKeyboardCode :: "string \<Rightarrow> string \<Rightarrow> byte property" where
  "getKeyboardCode language key =
    (if language = ''fr'' \<and> suffix ''_azerty'' key then
       let base = remove_first ''_azerty'' key
       in if base = ''KeyA'' then getKeycode ''KeyQ'' else if base = ''KeyQ'' then getKeycode ''KeyA''
          else if base = ''KeyZ'' then getKeycode ''KeyW'' else if base = ''KeyW'' then getKeycode ''KeyZ''
          else getKeycode base
     else if language = ''de'' \<and> suffix ''_qwertz'' key then
       let base = remove_first ''_qwertz'' key
       in if base = ''KeyZ'' then getKeycode ''KeyY'' else if base = ''KeyY'' then getKeycode ''KeyZ'' else getKeycode base
     else if language = ''ko'' \<and> suffix ''_ko'' key then getKeycode (remove_first ''_ko'' key)
     else if language = ''ja'' \<and> suffix ''_ja'' key then getKeycode (remove_first ''_ja'' key)
     else case map_of specialKeyMap key of
       Some special \<Rightarrow> getKeycode special
     | None \<Rightarrow> getKeycode key)"

record virtual_keyboard =
  keyboardSystem :: string
  keyboardLanguage :: string
  activeModifierKeys :: "string list"

text \<open>What is not a number in a byte array is a zero.\<close>

definition code_byte :: "byte property \<Rightarrow> byte" where
  "code_byte p = (case p of Own b \<Rightarrow> b | _ \<Rightarrow> 0)"

definition vk_frame :: "int32 \<Rightarrow> byte \<Rightarrow> byte list" where
  "vk_frame modifiers code = [1, ucast modifiers, 0, code, 0, 0, 0, 0, 0]"

definition modifier_code :: "string \<Rightarrow> string" where
  "modifier_code k = (case map_of specialKeyMap k of Some c \<Rightarrow> c | None \<Rightarrow> [])"

fun modifiers_down :: "int32 \<Rightarrow> string list \<Rightarrow> int32 \<times> byte list list" where
  "modifiers_down m [] = (m, [])"
| "modifiers_down m (k # ks) =
    (let m' = m OR getModifierBit (modifier_code k); (m'', fs) = modifiers_down m' ks
     in (m'', vk_frame m' (code_byte (getKeycode (modifier_code k))) # fs))"

definition sendModifierKeyDown :: "virtual_keyboard \<Rightarrow> int32 \<times> byte list list" where
  "sendModifierKeyDown s = modifiers_down 0 (activeModifierKeys s)"

definition sendModifierKeyUp :: "virtual_keyboard \<Rightarrow> virtual_keyboard \<times> byte list list" where
  "sendModifierKeyUp s =
    (if activeModifierKeys s = [] then (s, [])
     else (s\<lparr>activeModifierKeys := []\<rparr>, map (\<lambda>_. vk_frame 0 0) (activeModifierKeys s)))"

definition vk_keydown :: "string \<Rightarrow> virtual_keyboard \<Rightarrow> byte list list" where
  "vk_keydown key s =
    (case getKeyboardCode (keyboardLanguage s) key of
       Absent \<Rightarrow> []
     | code \<Rightarrow>
         if code = Own 0 then []
         else let (modifiers, fs) = sendModifierKeyDown s in fs @ [vk_frame modifiers (code_byte code)])"

definition onKeyPress :: "string \<Rightarrow> virtual_keyboard \<Rightarrow> virtual_keyboard \<times> byte list list" where
  "onKeyPress key s =
    (if key \<in> set modifierKeys then
       if key \<in> set (activeModifierKeys s) then
         let (s', ups) = sendModifierKeyUp s in (s', snd (sendModifierKeyDown s) @ ups)
       else (s\<lparr>activeModifierKeys := activeModifierKeys s @ [key]\<rparr>, [])
     else (s, vk_keydown key s))"

definition onKeyReleased :: "string \<Rightarrow> virtual_keyboard \<Rightarrow> virtual_keyboard \<times> byte list list" where
  "onKeyReleased key s =
    (if key \<in> set modifierKeys then (s, [])
     else let (s', ups) = sendModifierKeyUp s in (s', ups @ [vk_frame 0 0]))"

datatype vk_event = Vk_press string | Vk_release string | Vk_system string | Vk_language string

fun vk_step :: "virtual_keyboard \<times> byte list list \<Rightarrow> vk_event \<Rightarrow> virtual_keyboard \<times> byte list list" where
  "vk_step (s, fs) (Vk_press key) = (let (s', new) = onKeyPress key s in (s', fs @ new))"
| "vk_step (s, fs) (Vk_release key) = (let (s', new) = onKeyReleased key s in (s', fs @ new))"
| "vk_step (s, fs) (Vk_system system) = (s\<lparr>keyboardSystem := system\<rparr>, fs)"
| "vk_step (s, fs) (Vk_language language) = (s\<lparr>keyboardLanguage := language\<rparr>, fs)"

section \<open>Shortcuts\<close>

definition RECORDER_MAX_KEYS :: nat where
  "RECORDER_MAX_KEYS = 6"

text \<open>A recorded key is its code and label; \<open>label\<close> is what \<^verbatim>\<open>formatKeyDisplay\<close> answers.\<close>

definition record_key :: "string \<Rightarrow> string \<Rightarrow> (string \<times> string) list \<Rightarrow> (string \<times> string) list" where
  "record_key code label keys =
    (if list_ex (\<lambda>k. fst k = code) keys then keys
     else if length keys \<ge> RECORDER_MAX_KEYS then keys
     else keys @ [(code, label)])"

fun shortcut_reports :: "keyboard_report \<Rightarrow> string list \<Rightarrow> byte list list" where
  "shortcut_reports kb [] = [snd (reset_keys kb)]"
| "shortcut_reports kb (code # codes) = (case keyDown kb code of (kb', report) \<Rightarrow> report # shortcut_reports kb' codes)"

definition sendShortcut :: "(string \<times> string) list \<Rightarrow> byte list list" where
  "sendShortcut keys = map (\<lambda>report. 1 # report) (shortcut_reports new_keyboard_report (map fst keys))"

definition defaultShortcuts :: "string list list" where
  "defaultShortcuts = [[''MetaLeft'', ''Tab''], [''ControlLeft'', ''AltLeft'', ''Delete'']]"

section \<open>Buttons without a code\<close>

definition dead_button :: "string \<Rightarrow> string \<Rightarrow> bool" where
  "dead_button language key \<longleftrightarrow> key \<notin> set modifierKeys \<and> getKeyboardCode language key = Absent"

definition dead_buttons :: "string \<Rightarrow> string \<Rightarrow> string list" where
  "dead_buttons language system =
    filter (dead_button language) (buttons (layout_rows (layout_for language system) @ control_pad @ arrow_keys))"

definition russian_buttons :: "string list" where
  "russian_buttons = buttons
    [''RusQ RusW RusE RusR RusT RusY RusU RusI RusO RusP RusBracketLeft RusBracketRight RusBackslash'',
     ''RusA RusS RusD RusF RusG RusH RusJ RusK RusL RusSemicolon RusQuote'',
     ''RusZ RusX RusC RusV RusB RusN RusM RusComma RusPeriod RusSlash'']"

lemma codes_1:
  "list_all (\<lambda>(k, v). getKeycode k = Own v)
    [(''KeyA'', 4), (''KeyB'', 5), (''KeyC'', 6), (''KeyD'', 7), (''KeyE'', 8), (''KeyF'', 9), (''KeyG'', 10),
     (''KeyH'', 11), (''KeyI'', 12), (''KeyJ'', 13), (''KeyK'', 14), (''KeyL'', 15), (''KeyM'', 16),
     (''KeyN'', 17), (''KeyO'', 18), (''KeyP'', 19), (''KeyQ'', 20), (''KeyR'', 21), (''KeyS'', 22),
     (''KeyT'', 23), (''KeyU'', 24), (''KeyV'', 25), (''KeyW'', 26), (''KeyX'', 27), (''KeyY'', 28),
     (''KeyZ'', 29)]"
  by code_simp

lemma codes_2:
  "list_all (\<lambda>(k, v). getKeycode k = Own v)
    [(''Digit1'', 30), (''Digit2'', 31), (''Digit3'', 32), (''Digit4'', 33), (''Digit5'', 34), (''Digit6'', 35),
     (''Digit7'', 36), (''Digit8'', 37), (''Digit9'', 38), (''Digit0'', 39), (''Enter'', 40), (''Escape'', 41),
     (''Backspace'', 42), (''Tab'', 43), (''Space'', 44), (''Minus'', 45), (''Equal'', 46), (''BracketLeft'', 47),
     (''BracketRight'', 48), (''Backslash'', 49), (''Semicolon'', 51), (''Quote'', 52), (''Backquote'', 53),
     (''Comma'', 54), (''Period'', 55), (''Slash'', 56)]"
  by code_simp

lemma codes_3:
  "list_all (\<lambda>(k, v). getKeycode k = Own v)
    [(''CapsLock'', 57), (''F1'', 58), (''F2'', 59), (''F3'', 60), (''F4'', 61), (''F5'', 62), (''F6'', 63),
     (''F7'', 64), (''F8'', 65), (''F9'', 66), (''F10'', 67), (''F11'', 68), (''F12'', 69), (''PrintScreen'', 70),
     (''ScrollLock'', 71), (''Pause'', 72), (''Insert'', 73), (''Home'', 74), (''PageUp'', 75), (''Delete'', 76),
     (''End'', 77), (''PageDown'', 78), (''ArrowRight'', 79), (''ArrowLeft'', 80), (''ArrowDown'', 81),
     (''ArrowUp'', 82), (''NumLock'', 83), (''IntlBackslash'', 100)]"
  by code_simp

lemmas key_codes_of = codes_1 [simplified] codes_2 [simplified] codes_3 [simplified]

text \<open>No code has the names of the Russian buttons or of a button in braces.\<close>

lemma table_names: "list_all (\<lambda>(k, v). hd k \<noteq> CHR ''{'' \<and> take 3 k \<noteq> ''Rus'') KeycodeMap"
  by code_simp

lemma no_code:
  assumes "hd k = CHR ''{'' \<or> take 3 k = ''Rus''" and "k \<notin> set object_prototype"
  shows "getKeycode k = Absent"
proof -
  have "map_of KeycodeMap k = None"
    using assms(1) table_names by (auto simp: map_of_eq_None_iff list_all_iff)
  then show ?thesis using assms(2) by (simp add: getKeycode_def js_lookup_def)
qed

lemma modifier_buttons: "list_all (\<lambda>k. k \<in> set modifierKeys)
    [''{shiftleft}'', ''{controlleft}'', ''{altleft}'', ''{metaleft}'', ''{winleft}'', ''{shiftright}'',
     ''{controlright}'', ''{altright}'', ''{metaright}'', ''{winright}'', ''{controlleft_qwertz}'',
     ''{controlright_qwertz}'', ''{altright_qwertz}'']"
  by (simp add: modifierKeys_def)

lemma other_buttons: "list_all (\<lambda>(k, c). k \<notin> set modifierKeys \<and> map_of specialKeyMap k = Some c)
    [(''{arrowdown}'', ''ArrowDown''), (''{arrowleft}'', ''ArrowLeft''), (''{arrowright}'', ''ArrowRight''),
     (''{arrowup}'', ''ArrowUp''), (''{backspace}'', ''Backspace''), (''{capslock}'', ''CapsLock''),
     (''{delete}'', ''Delete''), (''{end}'', ''End''), (''{enter}'', ''Enter''), (''{escape}'', ''Escape''),
     (''{home}'', ''Home''), (''{insert}'', ''Insert''), (''{pagedown}'', ''PageDown''),
     (''{pageup}'', ''PageUp''), (''{pause}'', ''Pause''), (''{prtscr}'', ''PrintScreen''),
     (''{scrolllock}'', ''ScrollLock''), (''{space}'', ''Space''), (''{tab}'', ''Tab'')]"
  by code_simp

lemma menu_button: "''{menu}'' \<notin> set modifierKeys \<and> map_of specialKeyMap ''{menu}'' = None"
  by code_simp

lemma braces: "list_all (\<lambda>k. hd k = CHR ''{'') (modifierKeys @ map fst specialKeyMap)"
  by code_simp

lemma plain_button: "hd k \<noteq> CHR ''{'' \<Longrightarrow> k \<notin> set modifierKeys \<and> map_of specialKeyMap k = None"
  using braces by (auto simp: list_all_iff map_of_eq_None_iff)

lemma suffix_take: "suffix p k \<longleftrightarrow> take (length p) (rev k) = rev p"
  by (metis suffix_to_prefix prefix_def append_eq_conv_conj length_rev append_take_drop_id)

lemmas button_facts = modifier_buttons [simplified] other_buttons [simplified] menu_button plain_button suffix_take

lemma buttons_default: "buttons (layout_default @ control_pad @ arrow_keys) =
    [''{escape}'', ''F1'', ''F2'', ''F3'', ''F4'', ''F5'', ''F6'', ''F7'', ''F8'', ''F9'', ''F10'', ''F11'',
     ''F12'', ''Backquote'', ''Digit1'', ''Digit2'', ''Digit3'', ''Digit4'', ''Digit5'', ''Digit6'',
     ''Digit7'', ''Digit8'', ''Digit9'', ''Digit0'', ''Minus'', ''Equal'', ''{backspace}'', ''{tab}'',
     ''KeyQ'', ''KeyW'', ''KeyE'', ''KeyR'', ''KeyT'', ''KeyY'', ''KeyU'', ''KeyI'', ''KeyO'', ''KeyP'',
     ''BracketLeft'', ''BracketRight'', ''Backslash'', ''{capslock}'', ''KeyA'', ''KeyS'', ''KeyD'', ''KeyF'',
     ''KeyG'', ''KeyH'', ''KeyJ'', ''KeyK'', ''KeyL'', ''Semicolon'', ''Quote'', ''{enter}'', ''{shiftleft}'',
     ''KeyZ'', ''KeyX'', ''KeyC'', ''KeyV'', ''KeyB'', ''KeyN'', ''KeyM'', ''Comma'', ''Period'', ''Slash'',
     ''{shiftright}'', ''{controlleft}'', ''{winleft}'', ''{altleft}'', ''{space}'', ''{altright}'',
     ''{winright}'', ''{menu}'', ''{controlright}'', ''{prtscr}'', ''{scrolllock}'', ''{pause}'', ''{insert}'',
     ''{home}'', ''{pageup}'', ''{delete}'', ''{end}'', ''{pagedown}'', ''{arrowup}'', ''{arrowleft}'',
     ''{arrowdown}'', ''{arrowright}'']"
  by code_simp

lemma buttons_mac: "buttons (layout_mac @ control_pad @ arrow_keys) =
    [''{escape}'', ''F1'', ''F2'', ''F3'', ''F4'', ''F5'', ''F6'', ''F7'', ''F8'', ''F9'', ''F10'', ''F11'',
     ''F12'', ''Backquote'', ''Digit1'', ''Digit2'', ''Digit3'', ''Digit4'', ''Digit5'', ''Digit6'',
     ''Digit7'', ''Digit8'', ''Digit9'', ''Digit0'', ''Minus'', ''Equal'', ''{backspace}'', ''{tab}'',
     ''KeyQ'', ''KeyW'', ''KeyE'', ''KeyR'', ''KeyT'', ''KeyY'', ''KeyU'', ''KeyI'', ''KeyO'', ''KeyP'',
     ''BracketLeft'', ''BracketRight'', ''Backslash'', ''{capslock}'', ''KeyA'', ''KeyS'', ''KeyD'', ''KeyF'',
     ''KeyG'', ''KeyH'', ''KeyJ'', ''KeyK'', ''KeyL'', ''Semicolon'', ''Quote'', ''{enter}'', ''{shiftleft}'',
     ''KeyZ'', ''KeyX'', ''KeyC'', ''KeyV'', ''KeyB'', ''KeyN'', ''KeyM'', ''Comma'', ''Period'', ''Slash'',
     ''{shiftright}'', ''{controlleft}'', ''{altleft}'', ''{metaleft}'', ''{space}'', ''{metaright}'',
     ''{altright}'', ''{prtscr}'', ''{scrolllock}'', ''{pause}'', ''{insert}'', ''{home}'', ''{pageup}'',
     ''{delete}'', ''{end}'', ''{pagedown}'', ''{arrowup}'', ''{arrowleft}'', ''{arrowdown}'', ''{arrowright}'']"
  by code_simp

lemma buttons_rus: "buttons (layout_rus @ control_pad @ arrow_keys) =
    [''{escape}'', ''F1'', ''F2'', ''F3'', ''F4'', ''F5'', ''F6'', ''F7'', ''F8'', ''F9'', ''F10'', ''F11'',
     ''F12'', ''Backquote'', ''Digit1'', ''Digit2'', ''Digit3'', ''Digit4'', ''Digit5'', ''Digit6'',
     ''Digit7'', ''Digit8'', ''Digit9'', ''Digit0'', ''Minus'', ''Equal'', ''{backspace}'', ''{tab}'',
     ''RusQ'', ''RusW'', ''RusE'', ''RusR'', ''RusT'', ''RusY'', ''RusU'', ''RusI'', ''RusO'', ''RusP'',
     ''RusBracketLeft'', ''RusBracketRight'', ''RusBackslash'', ''{capslock}'', ''RusA'', ''RusS'', ''RusD'',
     ''RusF'', ''RusG'', ''RusH'', ''RusJ'', ''RusK'', ''RusL'', ''RusSemicolon'', ''RusQuote'', ''{enter}'',
     ''{shiftleft}'', ''RusZ'', ''RusX'', ''RusC'', ''RusV'', ''RusB'', ''RusN'', ''RusM'', ''RusComma'',
     ''RusPeriod'', ''RusSlash'', ''{shiftright}'', ''{controlleft}'', ''{winleft}'', ''{altleft}'',
     ''{space}'', ''{altright}'', ''{winright}'', ''{menu}'', ''{controlright}'', ''{prtscr}'',
     ''{scrolllock}'', ''{pause}'', ''{insert}'', ''{home}'', ''{pageup}'', ''{delete}'', ''{end}'',
     ''{pagedown}'', ''{arrowup}'', ''{arrowleft}'', ''{arrowdown}'', ''{arrowright}'']"
  by code_simp

lemma buttons_qwertz: "buttons (layout_qwertz @ control_pad @ arrow_keys) =
    [''{escape}'', ''F1'', ''F2'', ''F3'', ''F4'', ''F5'', ''F6'', ''F7'', ''F8'', ''F9'', ''F10'', ''F11'',
     ''F12'', ''Backquote_qwertz'', ''Digit1_qwertz'', ''Digit2_qwertz'', ''Digit3_qwertz'', ''Digit4_qwertz'',
     ''Digit5_qwertz'', ''Digit6_qwertz'', ''Digit7_qwertz'', ''Digit8_qwertz'', ''Digit9_qwertz'',
     ''Digit0_qwertz'', ''Minus_qwertz'', ''Equal_qwertz'', ''{backspace}'', ''{tab}'', ''KeyQ_qwertz'',
     ''KeyW'', ''KeyE_qwertz'', ''KeyR'', ''KeyT'', ''KeyZ_qwertz'', ''KeyU'', ''KeyI'', ''KeyO'', ''KeyP'',
     ''BracketLeft_qwertz'', ''BracketRight_qwertz'', ''{capslock}'', ''KeyA'', ''KeyS'', ''KeyD'', ''KeyF'',
     ''KeyG'', ''KeyH'', ''KeyJ'', ''KeyK'', ''KeyL'', ''Semicolon_qwertz'', ''Quote_qwertz'',
     ''Backslash_qwertz'', ''{enter}'', ''{shiftleft}'', ''IntlBackslash_qwertz'', ''KeyY_qwertz'', ''KeyX'',
     ''KeyC'', ''KeyV'', ''KeyB'', ''KeyN'', ''KeyM'', ''Comma_qwertz'', ''Period_qwertz'', ''Slash_qwertz'',
     ''{shiftright}'', ''{controlleft_qwertz}'', ''{winleft}'', ''{altleft}'', ''{space}'',
     ''{altright_qwertz}'', ''{winright}'', ''{menu}'', ''{controlright_qwertz}'', ''{prtscr}'',
     ''{scrolllock}'', ''{pause}'', ''{insert}'', ''{home}'', ''{pageup}'', ''{delete}'', ''{end}'',
     ''{pagedown}'', ''{arrowup}'', ''{arrowleft}'', ''{arrowdown}'', ''{arrowright}'']"
  by code_simp

lemma buttons_azerty: "buttons (layout_azerty @ control_pad @ arrow_keys) =
    [''{escape}'', ''F1'', ''F2'', ''F3'', ''F4'', ''F5'', ''F6'', ''F7'', ''F8'', ''F9'', ''F10'', ''F11'',
     ''F12'', ''Backquote_azerty'', ''Digit1_azerty'', ''Digit2_azerty'', ''Digit3_azerty'', ''Digit4_azerty'',
     ''Digit5_azerty'', ''Digit6_azerty'', ''Digit7_azerty'', ''Digit8_azerty'', ''Digit9_azerty'',
     ''Digit0_azerty'', ''Minus_azerty'', ''Equal_azerty'', ''{backspace}'', ''{tab}'', ''KeyA_azerty'',
     ''KeyZ_azerty'', ''KeyE_azerty'', ''KeyR_azerty'', ''KeyT_azerty'', ''KeyY_azerty'', ''KeyU_azerty'',
     ''KeyI_azerty'', ''KeyO_azerty'', ''KeyP_azerty'', ''BracketLeft_azerty'', ''BracketRight_azerty'',
     ''Backslash_azerty'', ''{capslock}'', ''KeyQ_azerty'', ''KeyS_azerty'', ''KeyD_azerty'', ''KeyF_azerty'',
     ''KeyG_azerty'', ''KeyH_azerty'', ''KeyJ_azerty'', ''KeyK_azerty'', ''KeyL_azerty'', ''Semicolon_azerty'',
     ''Quote_azerty'', ''{enter}'', ''{shiftleft}'', ''KeyW_azerty'', ''KeyX_azerty'', ''KeyC_azerty'',
     ''KeyV_azerty'', ''KeyB_azerty'', ''KeyN_azerty'', ''KeyM_azerty'', ''Comma_azerty'', ''Period_azerty'',
     ''Slash_azerty'', ''{shiftright}'', ''{controlleft}'', ''{winleft}'', ''{altleft}'', ''{space}'',
     ''{altright}'', ''{winright}'', ''{menu}'', ''{controlright}'', ''{prtscr}'', ''{scrolllock}'',
     ''{pause}'', ''{insert}'', ''{home}'', ''{pageup}'', ''{delete}'', ''{end}'', ''{pagedown}'',
     ''{arrowup}'', ''{arrowleft}'', ''{arrowdown}'', ''{arrowright}'']"
  by code_simp

lemma buttons_ko: "buttons (layout_ko @ control_pad @ arrow_keys) =
    [''{escape}'', ''F1'', ''F2'', ''F3'', ''F4'', ''F5'', ''F6'', ''F7'', ''F8'', ''F9'', ''F10'', ''F11'',
     ''F12'', ''Backquote_ko'', ''Digit1_ko'', ''Digit2_ko'', ''Digit3_ko'', ''Digit4_ko'', ''Digit5_ko'',
     ''Digit6_ko'', ''Digit7_ko'', ''Digit8_ko'', ''Digit9_ko'', ''Digit0_ko'', ''Minus_ko'', ''Equal_ko'',
     ''{backspace}'', ''{tab}'', ''KeyQ_ko'', ''KeyW_ko'', ''KeyE_ko'', ''KeyR_ko'', ''KeyT_ko'', ''KeyY_ko'',
     ''KeyU_ko'', ''KeyI_ko'', ''KeyO_ko'', ''KeyP_ko'', ''BracketLeft_ko'', ''BracketRight_ko'',
     ''Backslash_ko'', ''{capslock}'', ''KeyA_ko'', ''KeyS_ko'', ''KeyD_ko'', ''KeyF_ko'', ''KeyG_ko'',
     ''KeyH_ko'', ''KeyJ_ko'', ''KeyK_ko'', ''KeyL_ko'', ''Semicolon_ko'', ''Quote_ko'', ''{enter}'',
     ''{shiftleft}'', ''KeyZ_ko'', ''KeyX_ko'', ''KeyC_ko'', ''KeyV_ko'', ''KeyB_ko'', ''KeyN_ko'',
     ''KeyM_ko'', ''Comma_ko'', ''Period_ko'', ''Slash_ko'', ''{shiftright}'', ''{controlleft}'',
     ''{winleft}'', ''{altleft}'', ''{space}'', ''{altright}'', ''{winright}'', ''{menu}'', ''{controlright}'',
     ''{prtscr}'', ''{scrolllock}'', ''{pause}'', ''{insert}'', ''{home}'', ''{pageup}'', ''{delete}'',
     ''{end}'', ''{pagedown}'', ''{arrowup}'', ''{arrowleft}'', ''{arrowdown}'', ''{arrowright}'']"
  by code_simp

lemma buttons_ja: "buttons (layout_ja @ control_pad @ arrow_keys) =
    [''{escape}'', ''F1'', ''F2'', ''F3'', ''F4'', ''F5'', ''F6'', ''F7'', ''F8'', ''F9'', ''F10'', ''F11'',
     ''F12'', ''Backquote_ja'', ''Digit1_ja'', ''Digit2_ja'', ''Digit3_ja'', ''Digit4_ja'', ''Digit5_ja'',
     ''Digit6_ja'', ''Digit7_ja'', ''Digit8_ja'', ''Digit9_ja'', ''Digit0_ja'', ''Minus_ja'', ''Equal_ja'',
     ''{backspace}'', ''{tab}'', ''KeyQ_ja'', ''KeyW_ja'', ''KeyE_ja'', ''KeyR_ja'', ''KeyT_ja'', ''KeyY_ja'',
     ''KeyU_ja'', ''KeyI_ja'', ''KeyO_ja'', ''KeyP_ja'', ''BracketLeft_ja'', ''BracketRight_ja'',
     ''Backslash_ja'', ''{capslock}'', ''KeyA_ja'', ''KeyS_ja'', ''KeyD_ja'', ''KeyF_ja'', ''KeyG_ja'',
     ''KeyH_ja'', ''KeyJ_ja'', ''KeyK_ja'', ''KeyL_ja'', ''Semicolon_ja'', ''Quote_ja'', ''{enter}'',
     ''{shiftleft}'', ''KeyZ_ja'', ''KeyX_ja'', ''KeyC_ja'', ''KeyV_ja'', ''KeyB_ja'', ''KeyN_ja'',
     ''KeyM_ja'', ''Comma_ja'', ''Period_ja'', ''Slash_ja'', ''{shiftright}'', ''{controlleft}'',
     ''{winleft}'', ''{altleft}'', ''{space}'', ''{altright}'', ''{winright}'', ''{menu}'', ''{controlright}'',
     ''{prtscr}'', ''{scrolllock}'', ''{pause}'', ''{insert}'', ''{home}'', ''{pageup}'', ''{delete}'',
     ''{end}'', ''{pagedown}'', ''{arrowup}'', ''{arrowleft}'', ''{arrowdown}'', ''{arrowright}'']"
  by code_simp

lemmas buttons_of = buttons_default buttons_mac buttons_rus buttons_qwertz buttons_azerty buttons_ko buttons_ja

lemmas dead_facts = layout_for_def layout_rows_def buttons_of dead_button_def getKeyboardCode_def button_facts key_codes_of
  no_code object_prototype_def

lemma dead_en: "dead_buttons ''en'' ''win'' = [''{menu}'']"
  unfolding dead_buttons_def by (simp add: dead_facts)

lemma dead_en_mac: "dead_buttons ''en'' ''mac'' = []"
  unfolding dead_buttons_def by (simp add: dead_facts)

lemma dead_de: "dead_buttons ''de'' ''win'' = [''{menu}'']"
  unfolding dead_buttons_def by (simp add: dead_facts)

lemma dead_fr: "dead_buttons ''fr'' ''win'' = [''{menu}'']"
  unfolding dead_buttons_def by (simp add: dead_facts)

lemma dead_ko: "dead_buttons ''ko'' ''win'' = [''{menu}'']"
  unfolding dead_buttons_def by (simp add: dead_facts)

lemma dead_ja: "dead_buttons ''ja'' ''win'' = [''{menu}'']"
  unfolding dead_buttons_def by (simp add: dead_facts)

lemma dead_ru: "dead_buttons ''ru'' ''win'' = russian_buttons @ [''{menu}'']"
proof -
  have "russian_buttons =
    [''RusQ'', ''RusW'', ''RusE'', ''RusR'', ''RusT'', ''RusY'', ''RusU'', ''RusI'', ''RusO'', ''RusP'',
     ''RusBracketLeft'', ''RusBracketRight'', ''RusBackslash'', ''RusA'', ''RusS'', ''RusD'', ''RusF'',
     ''RusG'', ''RusH'', ''RusJ'', ''RusK'', ''RusL'', ''RusSemicolon'', ''RusQuote'', ''RusZ'', ''RusX'',
     ''RusC'', ''RusV'', ''RusB'', ''RusN'', ''RusM'', ''RusComma'', ''RusPeriod'', ''RusSlash'']"
    by code_simp
  then show ?thesis unfolding dead_buttons_def by (simp add: dead_facts)
qed

text \<open>
  Every button of the keyboards for English, German, French, Korean and Japanese types a key, except the
  menu button; on the Russian keyboard none of the thirty-four letter buttons does: their names have no code,
  so pressing one sends nothing.
\<close>

theorem dead_buttons_of_layouts:
  "dead_buttons ''en'' ''mac'' = [] \<and>
   (\<forall>language \<in> {''en'', ''de'', ''fr'', ''ko'', ''ja''}. dead_buttons language ''win'' = [''{menu}'']) \<and>
   dead_buttons ''ru'' ''win'' = russian_buttons @ [''{menu}''] \<and> length russian_buttons = 34"
proof -
  have "length russian_buttons = 34" by code_simp
  then show ?thesis by (simp add: dead_en_mac dead_en dead_de dead_fr dead_ko dead_ja dead_ru)
qed

lemma dead_button_sends_nothing: "dead_button (keyboardLanguage s) key \<Longrightarrow> onKeyPress key s = (s, [])"
  by (simp add: dead_button_def onKeyPress_def vk_keydown_def)

section \<open>A key and its modifiers\<close>

definition chosen_modifiers :: "string list \<Rightarrow> int32" where
  "chosen_modifiers ks = foldl (\<lambda>m k. m OR getModifierBit (modifier_code k)) 0 ks"

lemma modifiers_down_fst: "fst (modifiers_down m ks) = foldl (\<lambda>m k. m OR getModifierBit (modifier_code k)) m ks"
  by (induction ks arbitrary: m) (simp_all add: Let_def split_beta)

text \<open>
  A key typed on the screen keyboard reaches the host in a report with exactly the chosen modifiers, every report sent
  on its release is empty, and afterwards no modifier is chosen.
\<close>

theorem screen_key_typed:
  assumes "key \<notin> set modifierKeys" and "getKeyboardCode (keyboardLanguage s) key = Own b" and "b \<noteq> 0"
  shows "\<exists>fs. onKeyPress key s = (s, fs @ [vk_frame (chosen_modifiers (activeModifierKeys s)) b]) \<and>
    snd (onKeyReleased key s) = replicate (Suc (length (activeModifierKeys s))) (vk_frame 0 0) \<and>
    activeModifierKeys (fst (onKeyReleased key s)) = []"
  using assms
  by (auto simp: onKeyPress_def vk_keydown_def sendModifierKeyDown_def onKeyReleased_def sendModifierKeyUp_def
      chosen_modifiers_def modifiers_down_fst [symmetric] map_replicate_const replicate_append_same code_byte_def
      split: prod.splits)

theorem screen_key_typed_witness:
  "snd (onKeyPress ''KeyA'' \<lparr>keyboardSystem = ''win'', keyboardLanguage = ''en'', activeModifierKeys = [''{controlleft}'']\<rparr>) =
     [vk_frame 1 0, vk_frame 1 4] \<and>
   snd (onKeyReleased ''KeyA'' \<lparr>keyboardSystem = ''win'', keyboardLanguage = ''en'', activeModifierKeys = [''{controlleft}'']\<rparr>) =
     [vk_frame 0 0, vk_frame 0 0]"
proof -
  let ?s = "\<lparr>keyboardSystem = ''win'', keyboardLanguage = ''en'', activeModifierKeys = [''{controlleft}'']\<rparr>"
  have plain: "''KeyA'' \<notin> set modifierKeys" and code: "getKeyboardCode (keyboardLanguage ?s) ''KeyA'' = Own 4" and "(4 :: byte) \<noteq> 0"
    by (simp_all add: button_facts getKeyboardCode_def key_codes_of)
  from screen_key_typed [OF this]
  have "snd (onKeyReleased ''KeyA'' ?s) = replicate (Suc (length (activeModifierKeys ?s))) (vk_frame 0 0)" by blast
  moreover have "map_of specialKeyMap ''{controlleft}'' = Some ''ControlLeft''" and "getModifierBit ''ControlLeft'' = 1"
    and "getKeycode ''ControlLeft'' = Absent"
    by code_simp+
  then have "snd (onKeyPress ''KeyA'' ?s) = [vk_frame 1 0, vk_frame 1 4]"
    using plain code by (simp add: onKeyPress_def vk_keydown_def sendModifierKeyDown_def modifier_code_def code_byte_def)
  ultimately show ?thesis by simp
qed

section \<open>Recorded shortcuts\<close>

lemma recorded_ok:
  "distinct (map fst ks) \<Longrightarrow> length ks \<le> 6 \<Longrightarrow>
    distinct (map fst (foldl (\<lambda>ks (c, l). record_key c l ks) ks ps)) \<and>
    length (foldl (\<lambda>ks (c, l). record_key c l ks) ks ps) \<le> 6"
proof (induction ps arbitrary: ks)
  case (Cons p ps)
  obtain c l where "p = (c, l)" by force
  moreover have "distinct (map fst (record_key c l ks)) \<and> length (record_key c l ks) \<le> 6"
    using Cons.prems by (auto simp: record_key_def RECORDER_MAX_KEYS_def list_ex_iff)
  ultimately show ?case using Cons.IH by simp
qed simp

lemma reports_ne: "shortcut_reports kb codes \<noteq> []"
  by (cases codes) (simp_all add: split_beta)

lemma reports_alone: "butlast (shortcut_reports kb codes) = [] \<longleftrightarrow> codes = []"
  by (cases codes) (simp_all add: split_beta reports_ne)

lemma reports_before_reset:
  "codes \<noteq> [] \<Longrightarrow> last (butlast (shortcut_reports kb codes)) = buildReport (foldl report_step kb (map KeyDown codes))"
proof (induction codes arbitrary: kb)
  case (Cons c codes)
  obtain kb' r where kd: "keyDown kb c = (kb', r)" by force
  then have "r = buildReport kb'" using snd_report(1) [of kb c] by simp
  then show ?case using Cons.IH [of kb'] kd by (cases "codes = []") (simp_all add: reports_ne reports_alone)
qed simp

lemma last_report: "last (shortcut_reports kb codes) = snd (reset_keys new_keyboard_report)"
proof (induction codes arbitrary: kb)
  case Nil
  show ?case by (simp add: reset_keys_def Let_def buildReport_eq)
next
  case (Cons c codes)
  then show ?case by (simp add: split_beta reports_ne)
qed

lemma rollover_presses: "finite H \<Longrightarrow> card H + length codes \<le> 6 \<Longrightarrow> within_rollover H (map KeyDown codes)"
proof (induction codes arbitrary: H)
  case (Cons c codes)
  have "card (insert c H) \<le> Suc (card H)" using Cons.prems by (simp add: card_insert_if)
  moreover from this have "card (insert c H \<inter> key_codes) \<le> 6"
    using Cons.prems card_mono [of "insert c H" "insert c H \<inter> key_codes"] by simp
  ultimately show ?case using Cons by (simp add: MAX_KEYS_def)
qed simp

lemma held_presses: "foldl held_step H (map KeyDown codes) = H \<union> set codes"
  by (induction codes arbitrary: H) auto

text \<open>
  A recorded shortcut has at most six distinct keys, and sending it puts all of them down together: the last report before
  the empty one has the bit of every recorded modifier and the usages of exactly the recorded keys.
\<close>

theorem recorded_shortcut_typed:
  fixes ps
  assumes "i < 8"
  defines "keys \<equiv> foldl (\<lambda>ks (c, l). record_key c l ks) [] ps"
  assumes "keys \<noteq> []"
  defines "r \<equiv> tl (last (butlast (sendShortcut keys)))"
  shows "length keys \<le> 6 \<and> distinct (map fst keys) \<and>
    (bit (r ! 0) i \<longleftrightarrow> fst (ModifierMap ! i) \<in> fst ` set keys) \<and>
    set (drop 2 r) - {0} = {k. \<exists>c \<in> fst ` set keys \<inter> key_codes. getKeycode c = Own k} \<and>
    last (sendShortcut keys) = [1, 0, 0, 0, 0, 0, 0, 0, 0]"
proof -
  let ?codes = "map fst keys" and ?kb = "foldl report_step new_keyboard_report (map KeyDown (map fst keys))"
  have ok: "distinct ?codes" "length keys \<le> 6" using recorded_ok [of "[]" ps] by (simp_all add: keys_def)
  have some: "butlast (shortcut_reports new_keyboard_report ?codes) \<noteq> []"
    using assms(3) by (simp add: reports_alone)
  have "r = buildReport ?kb"
    using assms(3) some reports_before_reset [of ?codes new_keyboard_report]
    by (simp add: r_def sendShortcut_def map_butlast [symmetric] last_map)
  moreover have inv: "report_inv ?kb" by (rule report.inv_always)
  moreover have "bit (modifier ?kb) i \<longleftrightarrow> fst (ModifierMap ! i) \<in> set ?codes"
    using modifier_bits_run [OF assms(1), of new_keyboard_report "{}" "map KeyDown ?codes"] held_presses [of "{}" ?codes]
    by (simp add: new_keyboard_report_def del: map_map)
  moreover have "fst ` set (pressedKeys ?kb) = set ?codes \<inter> key_codes"
    using held_keys_run [OF report_inv_new, of "{}" "map KeyDown ?codes"] rollover_presses [of "{}" ?codes] ok(2)
    by (simp add: held_presses new_keyboard_report_def del: map_map)
  moreover have "last (sendShortcut keys) = [1, 0, 0, 0, 0, 0, 0, 0, 0]"
    using last_report [of new_keyboard_report ?codes] some
    by (simp add: sendShortcut_def last_map reports_ne reset_keys_def Let_def buildReport_eq new_keyboard_report_def numeral_eq_Suc)
  ultimately show ?thesis
    using ok key_slots [OF inv] assms(1) by (simp add: buildReport_eq bit_ucast_iff)
qed

definition sample_recording :: "(string \<times> string) list" where
  "sample_recording = [(''ControlLeft'', ''Ctrl''), (''ControlLeft'', ''Ctrl''), (''KeyC'', ''C'')]"

theorem recorded_shortcut_typed_witness:
  "bit (tl (last (butlast (sendShortcut (foldl (\<lambda>ks (c, l). record_key c l ks) [] sample_recording)))) ! 0) 0 \<and>
    foldl (\<lambda>ks (c, l). record_key c l ks) [] sample_recording = [(''ControlLeft'', ''Ctrl''), (''KeyC'', ''C'')]"
proof -
  have keys: "foldl (\<lambda>ks (c, l). record_key c l ks) [] sample_recording = [(''ControlLeft'', ''Ctrl''), (''KeyC'', ''C'')]"
    by (simp add: sample_recording_def record_key_def RECORDER_MAX_KEYS_def)
  moreover have "fst (ModifierMap ! 0) = ''ControlLeft''" by (simp add: ModifierMap_def)
  ultimately show ?thesis using recorded_shortcut_typed [of 0 sample_recording] by simp
qed

end
