(* ===== verification/Json_Value.thy ===== *)
theory Json_Value
  imports Text_Tools
begin

text \<open>
  Values as \<^verbatim>\<open>JSON.parse\<close> returns them, and the operators of the language the console reads them
  with: property access, \<^verbatim>\<open>||\<close>, \<^verbatim>\<open>??\<close>, \<^verbatim>\<open>typeof\<close> tests and \<^verbatim>\<open>String\<close>. A property that is absent is
  \<open>None\<close>, the value \<^verbatim>\<open>undefined\<close>. The keys of an object are distinct. None of the names the
  console reads is inherited from a prototype.
\<close>

datatype json =
  JNull | JBool bool | JNum rat | JStr string | JArr "json list" | JObj "(string \<times> json) list"

fun truthy :: "json option \<Rightarrow> bool" where
  "truthy None = False"
| "truthy (Some JNull) = False"
| "truthy (Some (JBool b)) = b"
| "truthy (Some (JNum r)) = (r \<noteq> 0)"
| "truthy (Some (JStr s)) = (s \<noteq> [])"
| "truthy (Some _) = True"

text \<open>Property access of a value that is neither \<^verbatim>\<open>null\<close> nor \<^verbatim>\<open>undefined\<close>.\<close>

fun field :: "string \<Rightarrow> json \<Rightarrow> json option" where
  "field k (JObj m) = map_of m k"
| "field k _ = None"

definition js_or :: "json option \<Rightarrow> json option \<Rightarrow> json option" where
  "js_or a b = (if truthy a then a else b)"

definition nullish :: "json option \<Rightarrow> json option \<Rightarrow> json option" where
  "nullish a b = (if a = None \<or> a = Some JNull then b else a)"

text \<open>\<^verbatim>\<open>(a || {})\<close>, read as a record.\<close>

definition or_empty :: "json option \<Rightarrow> json" where
  "or_empty a = (if truthy a then the a else JObj [])"

fun as_string :: "json option \<Rightarrow> string option" where
  "as_string (Some (JStr s)) = Some s"
| "as_string _ = None"

fun as_number :: "json option \<Rightarrow> rat option" where
  "as_number (Some (JNum r)) = Some r"
| "as_number _ = None"

fun as_bool :: "json option \<Rightarrow> bool option" where
  "as_bool (Some (JBool b)) = Some b"
| "as_bool _ = None"

text \<open>\<^verbatim>\<open>typeof v === 'object' && v !== null\<close>.\<close>

fun as_object :: "json option \<Rightarrow> json option" where
  "as_object (Some (JObj m)) = Some (JObj m)"
| "as_object (Some (JArr xs)) = Some (JArr xs)"
| "as_object _ = None"

text \<open>
  A number as \<^verbatim>\<open>String\<close> prints it: an integer in full, a fraction with at most 17 digits after the
  point and without trailing zeros.
\<close>

definition int_string :: "int \<Rightarrow> string" where
  "int_string i = (if i < 0 then ''-'' @ nat_string (nat (- i)) else nat_string (nat i))"

fun fraction_digits :: "nat \<Rightarrow> rat \<Rightarrow> string" where
  "fraction_digits 0 x = []"
| "fraction_digits (Suc n) x =
    (if x = 0 then [] else digit (nat \<lfloor>x * 10\<rfloor>) # fraction_digits n (x * 10 - of_int \<lfloor>x * 10\<rfloor>))"

definition num_string :: "rat \<Rightarrow> string" where
  "num_string r =
    (if of_int \<lfloor>r\<rfloor> = r then int_string \<lfloor>r\<rfloor>
     else (if r < 0 then ''-'' else []) @ nat_string (nat \<lfloor>\<bar>r\<bar>\<rfloor>) @ ''.'' @
       fraction_digits 17 (\<bar>r\<bar> - of_int \<lfloor>\<bar>r\<bar>\<rfloor>))"

text \<open>
  \<^verbatim>\<open>String(v)\<close>; an object with a property \<^verbatim>\<open>toString\<close> of its own, which cannot be a function here, has
  no primitive value and throws (\<open>None\<close>). An array prints its elements with \<^verbatim>\<open>null\<close> as nothing.
\<close>

fun join_opt :: "string \<Rightarrow> string option list \<Rightarrow> string option" where
  "join_opt sep [] = Some []"
| "join_opt sep [x] = x"
| "join_opt sep (x # xs) =
    (case x of None \<Rightarrow> None
     | Some s \<Rightarrow> (case join_opt sep xs of None \<Rightarrow> None | Some t \<Rightarrow> Some (s @ sep @ t)))"

fun js_String :: "json \<Rightarrow> string option" where
  "js_String JNull = Some ''null''"
| "js_String (JBool b) = Some (if b then ''true'' else ''false'')"
| "js_String (JNum r) = Some (num_string r)"
| "js_String (JStr s) = Some s"
| "js_String (JArr xs) =
    join_opt '','' (map (\<lambda>x. if x = JNull then Some [] else js_String x) xs)"
| "js_String (JObj m) =
    (if map_of m ''toString'' = None then Some ''[object Object]'' else None)"

text \<open>\<^verbatim>\<open>String(a || d)\<close>.\<close>

definition string_or :: "json option \<Rightarrow> string \<Rightarrow> string option" where
  "string_or a d = (if truthy a then js_String (the a) else Some d)"

text \<open>An object literal as \<^verbatim>\<open>JSON.stringify\<close> writes it: properties that are \<^verbatim>\<open>undefined\<close> are left out.\<close>

definition object_literal :: "(string \<times> json option) list \<Rightarrow> json" where
  "object_literal ps = JObj [(k, v). (k, Some v) \<leftarrow> ps]"

lemma truthy_Some: "truthy a \<Longrightarrow> \<exists>v. a = Some v \<and> v \<noteq> JNull"
  by (cases a) auto

lemma field_or_empty_None [simp]: "\<not> truthy a \<Longrightarrow> field k (or_empty a) = None"
  by (simp add: or_empty_def)

lemma string_or_plain: "truthy a \<longrightarrow> (\<exists>s. a = Some (JStr s)) \<Longrightarrow> \<exists>s. string_or a d = Some s"
  by (auto simp: string_or_def)

end
