(* ===== verification/Async.thy ===== *)
theory Async
  imports Json_Value
begin

text \<open>
  Asynchronous functions. A function of the page that awaits is a value of the datatype
  \<open>async\<close>: it reads and changes the state, awaits a request, returns or throws. What follows an
  \<^verbatim>\<open>await\<close> is a function of the answer, so that the state may be changed by others in between.
  \<^verbatim>\<open>try\<close>, \<^verbatim>\<open>catch\<close> and \<^verbatim>\<open>finally\<close> are functions on these values.

  The second half is a small logic of them. \<open>keeps I p\<close> says that every change \<open>p\<close> makes keeps \<open>I\<close>, and
  \<open>frame v p\<close> that none changes \<open>v\<close> of the state; \<open>ends_within p n\<close> that \<open>p\<close> ends when \<open>n\<close> answers have come, whatever they are and whatever
  happens to the state meanwhile. All follow the structure of the code.
\<close>

section \<open>Programs\<close>

text \<open>
  What is thrown: an \<^verbatim>\<open>Error\<close> with its message and the body of an HTTP answer, a \<^verbatim>\<open>DOMException\<close> with its name
  and message, the \<^verbatim>\<open>CaptureUnsupported\<close> of the media classes, or any other value.
\<close>

datatype failure =
  Js_error string "json option"
| Dom_exception string string
| Capture_unsupported string
| Thrown_value json

text \<open>\<^verbatim>\<open>error instanceof Error ? error.message : undefined\<close>.\<close>

fun failure_text :: "failure \<Rightarrow> string option" where
  "failure_text (Js_error m b) = Some m"
| "failure_text (Dom_exception n m) = Some m"
| "failure_text (Capture_unsupported r) = Some (''capture unsupported: '' @ r)"
| "failure_text (Thrown_value j) = None"

datatype ('s, 'q, 'w, 'a) async =
  Return 'a
| Throw failure
| Modify "'s \<Rightarrow> 's" "('s, 'q, 'w, 'a) async"
| Get "'s \<Rightarrow> ('s, 'q, 'w, 'a) async"
| Await 'q "'w \<Rightarrow> ('s, 'q, 'w, 'a) async"

primrec and_then ::
  "('s, 'q, 'w, 'a) async \<Rightarrow> ('a \<Rightarrow> ('s, 'q, 'w, 'b) async) \<Rightarrow> ('s, 'q, 'w, 'b) async" where
  "and_then (Return x) f = f x"
| "and_then (Throw e) f = Throw e"
| "and_then (Modify g p) f = Modify g (and_then p f)"
| "and_then (Get p) f = Get (\<lambda>s. and_then (p s) f)"
| "and_then (Await q k) f = Await q (\<lambda>w. and_then (k w) f)"

primrec catching ::
  "('s, 'q, 'w, 'a) async \<Rightarrow> (failure \<Rightarrow> ('s, 'q, 'w, 'a) async) \<Rightarrow> ('s, 'q, 'w, 'a) async" where
  "catching (Return x) h = Return x"
| "catching (Throw e) h = h e"
| "catching (Modify g p) h = Modify g (catching p h)"
| "catching (Get p) h = Get (\<lambda>s. catching (p s) h)"
| "catching (Await q k) h = Await q (\<lambda>w. catching (k w) h)"

primrec finally_do ::
  "('s, 'q, 'w, 'a) async \<Rightarrow> ('s \<Rightarrow> 's) \<Rightarrow> ('s, 'q, 'w, 'a) async" where
  "finally_do (Return x) f = Modify f (Return x)"
| "finally_do (Throw e) f = Modify f (Throw e)"
| "finally_do (Modify g p) f = Modify g (finally_do p f)"
| "finally_do (Get p) f = Get (\<lambda>s. finally_do (p s) f)"
| "finally_do (Await q k) f = Await q (\<lambda>w. finally_do (k w) f)"

abbreviation act :: "('s \<Rightarrow> 's) \<Rightarrow> ('s, 'q, 'w, unit) async" where
  "act f \<equiv> Modify f (Return ())"

abbreviation await :: "'q \<Rightarrow> ('s, 'q, 'w, 'w) async" where
  "await q \<equiv> Await q Return"

text \<open>\<^verbatim>\<open>void p\<close>, and a call whose result is not used.\<close>

definition ignoring :: "('s, 'q, 'w, 'a) async \<Rightarrow> ('s, 'q, 'w, unit) async" where
  "ignoring p = and_then p (\<lambda>_. Return ())"

text \<open>Property access as an expression: it throws on \<^verbatim>\<open>null\<close> and \<^verbatim>\<open>undefined\<close>.\<close>

definition member :: "string \<Rightarrow> json option \<Rightarrow> ('s, 'q, 'w, json option) async" where
  "member k v =
    (case v of
       None \<Rightarrow> Throw (Js_error (''Cannot read properties of undefined (reading '' @ k @ '')'') None)
     | Some JNull \<Rightarrow> Throw (Js_error (''Cannot read properties of null (reading '' @ k @ '')'') None)
     | Some j \<Rightarrow> Return (field k j))"

text \<open>Running up to the next \<^verbatim>\<open>await\<close>.\<close>

datatype ('s, 'q, 'w, 'a) progress =
  Finished "failure + 'a"
| Waiting 'q "'w \<Rightarrow> ('s, 'q, 'w, 'a) async"

primrec run :: "('s, 'q, 'w, 'a) async \<Rightarrow> 's \<Rightarrow> 's \<times> ('s, 'q, 'w, 'a) progress" where
  "run (Return x) s = (s, Finished (Inr x))"
| "run (Throw e) s = (s, Finished (Inl e))"
| "run (Modify f p) s = run p (f s)"
| "run (Get p) s = run (p s) s"
| "run (Await q k) s = (s, Waiting q k)"

section \<open>Laws\<close>

lemma and_then_Return [simp]: "and_then p Return = p"
  by (induction p) auto

lemma and_then_assoc: "and_then (and_then p f) g = and_then p (\<lambda>x. and_then (f x) g)"
  by (induction p) auto

lemma run_and_then:
  "run (and_then p f) s =
    (case run p s of
       (t, Finished (Inr x)) \<Rightarrow> run (f x) t
     | (t, Finished (Inl e)) \<Rightarrow> (t, Finished (Inl e))
     | (t, Waiting q k) \<Rightarrow> (t, Waiting q (\<lambda>w. and_then (k w) f)))"
  by (induction p arbitrary: s) auto

lemma run_finally:
  "run (finally_do p f) s =
    (case run p s of
       (t, Finished r) \<Rightarrow> (f t, Finished r)
     | (t, Waiting q k) \<Rightarrow> (t, Waiting q (\<lambda>w. finally_do (k w) f)))"
  by (induction p arbitrary: s) auto

section \<open>Invariants and frames\<close>

primrec keeps :: "('s \<Rightarrow> bool) \<Rightarrow> ('s, 'q, 'w, 'a) async \<Rightarrow> bool" where
  "keeps I (Return x) \<longleftrightarrow> True"
| "keeps I (Throw e) \<longleftrightarrow> True"
| "keeps I (Modify f p) \<longleftrightarrow> (\<forall>s. I s \<longrightarrow> I (f s)) \<and> keeps I p"
| "keeps I (Get p) \<longleftrightarrow> (\<forall>s. keeps I (p s))"
| "keeps I (Await q k) \<longleftrightarrow> (\<forall>w. keeps I (k w))"

lemma keeps_and_then: "keeps I p \<Longrightarrow> (\<And>x. keeps I (f x)) \<Longrightarrow> keeps I (and_then p f)"
  by (induction p) auto

lemma keeps_catching: "keeps I p \<Longrightarrow> (\<And>e. keeps I (h e)) \<Longrightarrow> keeps I (catching p h)"
  by (induction p) auto

lemma keeps_finally: "keeps I p \<Longrightarrow> (\<And>s. I s \<Longrightarrow> I (f s)) \<Longrightarrow> keeps I (finally_do p f)"
  by (induction p) auto

lemma keeps_now: "keeps I p \<Longrightarrow> I s \<Longrightarrow> I (fst (run p s))"
  by (induction p arbitrary: s) auto

lemma keeps_rest: "keeps I p \<Longrightarrow> run p s = (u, Waiting q k) \<Longrightarrow> keeps I (k w)"
  by (induction p arbitrary: s) auto

lemma keeps_ignoring: "keeps I p \<Longrightarrow> keeps I (ignoring p)"
  by (simp add: ignoring_def keeps_and_then)

lemma keeps_member: "keeps I (member k j)"
  by (simp add: member_def split: option.split json.split)

lemmas keeping_programs = keeps_and_then keeps_catching keeps_finally keeps_ignoring keeps_member

definition frame :: "('s \<Rightarrow> 'v) \<Rightarrow> ('s, 'q, 'w, 'a) async \<Rightarrow> bool" where
  "frame v p \<longleftrightarrow> (\<forall>c. keeps (\<lambda>s. v s = c) p)"

lemma frame_simps [simp]:
  "frame v (Return x)" "frame v (Throw e)"
  "frame v (Modify f p) \<longleftrightarrow> (\<forall>s. v (f s) = v s) \<and> frame v p"
  "frame v (Get g) \<longleftrightarrow> (\<forall>s. frame v (g s))" "frame v (Await q k) \<longleftrightarrow> (\<forall>w. frame v (k w))"
  by (auto simp: frame_def)

lemma frame_and_then: "frame v p \<Longrightarrow> (\<And>x. frame v (f x)) \<Longrightarrow> frame v (and_then p f)"
  by (simp add: frame_def keeps_and_then)

lemma frame_catching: "frame v p \<Longrightarrow> (\<And>e. frame v (h e)) \<Longrightarrow> frame v (catching p h)"
  by (simp add: frame_def keeps_catching)

lemma frame_finally: "frame v p \<Longrightarrow> (\<And>s. v (f s) = v s) \<Longrightarrow> frame v (finally_do p f)"
  by (simp add: frame_def keeps_finally)

lemma frame_ignoring: "frame v p \<Longrightarrow> frame v (ignoring p)"
  by (simp add: frame_def keeps_ignoring)

lemma frame_member: "frame v (member k j)"
  by (simp add: frame_def keeps_member)

lemmas framed_programs = frame_and_then frame_catching frame_finally frame_ignoring frame_member

lemma frame_now: "frame v p \<Longrightarrow> v (fst (run p s)) = v s"
  using keeps_now [of "\<lambda>x. v x = v s" p s] by (simp add: frame_def)

lemma frame_rest: "frame v p \<Longrightarrow> run p s = (u, Waiting q k) \<Longrightarrow> frame v (k w)"
  by (auto simp: frame_def dest: keeps_rest)

text \<open>
  The same with what the program has read: \<open>safe I p s\<close> says that \<open>p\<close>, run from \<open>s\<close>, has \<open>I\<close> whenever it
  awaits or ends, if \<open>I\<close> holds when it is resumed. Between two awaits \<open>I\<close> may be broken.
\<close>

primrec safe :: "('s \<Rightarrow> bool) \<Rightarrow> ('s, 'q, 'w, 'a) async \<Rightarrow> 's \<Rightarrow> bool" where
  "safe I (Return x) s \<longleftrightarrow> I s"
| "safe I (Throw e) s \<longleftrightarrow> I s"
| "safe I (Modify f p) s \<longleftrightarrow> safe I p (f s)"
| "safe I (Get p) s \<longleftrightarrow> safe I (p s) s"
| "safe I (Await q k) s \<longleftrightarrow> I s \<and> (\<forall>w u. I u \<longrightarrow> safe I (k w) u)"

definition sound :: "('s \<Rightarrow> bool) \<Rightarrow> ('s, 'q, 'w, 'a) async \<Rightarrow> bool" where
  "sound I p \<longleftrightarrow> (\<forall>s. I s \<longrightarrow> safe I p s)"

lemma safe_and_then: "safe I p s \<Longrightarrow> (\<And>x. sound I (f x)) \<Longrightarrow> safe I (and_then p f) s"
  by (induction p arbitrary: s) (auto simp: sound_def)

lemma safe_catching: "safe I p s \<Longrightarrow> (\<And>e. sound I (h e)) \<Longrightarrow> safe I (catching p h) s"
  by (induction p arbitrary: s) (auto simp: sound_def)

lemma safe_finally: "safe I p s \<Longrightarrow> (\<And>u. I u \<Longrightarrow> I (f u)) \<Longrightarrow> safe I (finally_do p f) s"
  by (induction p arbitrary: s) auto

lemma sound_Return [simp]: "sound I (Return x)" "sound I (Throw e)"
  by (simp_all add: sound_def)

lemma sound_Modify: "(\<And>s. I s \<Longrightarrow> I (f s)) \<Longrightarrow> sound I p \<Longrightarrow> sound I (Modify f p)"
  by (simp add: sound_def)

lemma sound_Get: "(\<And>s. sound I (p s)) \<Longrightarrow> sound I (Get p)"
  by (simp add: sound_def)

lemma sound_Await: "(\<And>w. sound I (k w)) \<Longrightarrow> sound I (Await q k)"
  by (simp add: sound_def)

lemma sound_and_then: "sound I p \<Longrightarrow> (\<And>x. sound I (f x)) \<Longrightarrow> sound I (and_then p f)"
  by (auto simp: sound_def [of I p] intro: safe_and_then simp: sound_def [of I "and_then p f"])

lemma sound_catching: "sound I p \<Longrightarrow> (\<And>e. sound I (h e)) \<Longrightarrow> sound I (catching p h)"
  by (auto simp: sound_def [of I p] intro: safe_catching simp: sound_def [of I "catching p h"])

lemma sound_finally: "sound I p \<Longrightarrow> (\<And>u. I u \<Longrightarrow> I (f u)) \<Longrightarrow> sound I (finally_do p f)"
  by (simp add: sound_def safe_finally)

lemma sound_ignoring: "sound I p \<Longrightarrow> sound I (ignoring p)"
  by (simp add: ignoring_def sound_and_then)

lemma sound_member: "sound I (member k j)"
  by (simp add: member_def split: option.split json.split)

lemmas sound_programs = sound_Modify sound_Get sound_Await sound_and_then sound_catching sound_finally
  sound_ignoring sound_member

lemma safe_now: "safe I p s \<Longrightarrow> I (fst (run p s))"
  by (induction p arbitrary: s) auto

lemma safe_rest: "safe I p s \<Longrightarrow> run p s = (u, Waiting q k) \<Longrightarrow> sound I (k w)"
  by (induction p arbitrary: s) (auto simp: sound_def)

section \<open>Ends\<close>

primrec ends_within :: "('s, 'q, 'w, 'a) async \<Rightarrow> nat \<Rightarrow> bool" where
  "ends_within (Return x) n \<longleftrightarrow> True"
| "ends_within (Throw e) n \<longleftrightarrow> True"
| "ends_within (Modify f p) n \<longleftrightarrow> ends_within p n"
| "ends_within (Get p) n \<longleftrightarrow> (\<forall>s. ends_within (p s) n)"
| "ends_within (Await q k) n \<longleftrightarrow> 0 < n \<and> (\<forall>w. ends_within (k w) (n - 1))"

lemma ends_mono: "ends_within p m \<Longrightarrow> m \<le> n \<Longrightarrow> ends_within p n"
proof (induction p arbitrary: m n)
  case (Await q k)
  then show ?case by (metis diff_le_mono ends_within.simps(5) order_less_le_trans rangeI)
next
  case (Get p)
  then show ?case by (metis ends_within.simps(4) rangeI)
qed auto

lemma ends_and_then:
  "ends_within p m \<Longrightarrow> (\<And>x. ends_within (f x) n) \<Longrightarrow> ends_within (and_then p f) (m + n)"
proof (induction p arbitrary: m)
  case (Return x)
  then show ?case using ends_mono [of "f x" n "m + n"] by simp
next
  case (Await q k)
  have "ends_within (and_then (k w) f) (m - 1 + n)" for w
    using Await.IH [of "k w" "m - 1"] Await.prems by simp
  with Await.prems(1) show ?case by (simp add: add_diff_inverse_nat)
qed auto

lemma ends_catching:
  "ends_within p m \<Longrightarrow> (\<And>e. ends_within (h e) n) \<Longrightarrow> ends_within (catching p h) (m + n)"
proof (induction p arbitrary: m)
  case (Throw e)
  then show ?case using ends_mono [of "h e" n "m + n"] by simp
next
  case (Await q k)
  have "ends_within (catching (k w) h) (m - 1 + n)" for w
    using Await.IH [of "k w" "m - 1"] Await.prems by simp
  with Await.prems(1) show ?case by (simp add: add_diff_inverse_nat)
qed auto

lemma ends_finally: "ends_within (finally_do p f) n = ends_within p n"
  by (induction p arbitrary: n) auto

lemma ends_ignoring: "ends_within p n \<Longrightarrow> ends_within (ignoring p) n"
  using ends_and_then [of p n "\<lambda>_. Return ()" 0] by (simp add: ignoring_def)

lemma ends_member: "ends_within (member k j) n"
  by (simp add: member_def split: option.split json.split)

text \<open>In the form a proof over a program of known steps uses.\<close>

lemma ends_step: "ends_within p 1 \<Longrightarrow> (\<And>x. ends_within (f x) n) \<Longrightarrow> ends_within (and_then p f) (Suc n)"
  using ends_and_then [of p 1 f n] by simp

lemma ends_read: "ends_within p 0 \<Longrightarrow> (\<And>x. ends_within (f x) n) \<Longrightarrow> ends_within (and_then p f) n"
  using ends_and_then [of p 0 f n] by simp

lemma ends_last: "ends_within p n \<Longrightarrow> (\<And>x. ends_within (f x) 0) \<Longrightarrow> ends_within (and_then p f) n"
  using ends_and_then [of p n f 0] by simp

lemma ends_handled: "ends_within p n \<Longrightarrow> (\<And>e. ends_within (h e) 0) \<Longrightarrow> ends_within (catching p h) n"
  using ends_catching [of p n h 0] by simp

lemma ends_run: "ends_within p n \<Longrightarrow> run p s = (t, Waiting q k) \<Longrightarrow> 0 < n \<and> ends_within (k w) (n - 1)"
  by (induction p arbitrary: s) auto

text \<open>A program given its answers one after the other, with what happens to the state before each of them.\<close>

fun feed ::
  "('s, 'q, 'w, 'a) async \<Rightarrow> 's \<Rightarrow> ('w \<times> ('s \<Rightarrow> 's)) list \<Rightarrow> 's \<times> ('s, 'q, 'w, 'a) progress" where
  "feed p s [] = run p s"
| "feed p s ((w, f) # ws) =
    (case run p s of
       (u, Finished r) \<Rightarrow> (u, Finished r)
     | (u, Waiting q k) \<Rightarrow> feed (k w) (f u) ws)"

lemma ends_feed: "ends_within p n \<Longrightarrow> n \<le> length ws \<Longrightarrow> \<exists>u r. feed p s ws = (u, Finished r)"
proof (induction p s ws arbitrary: n rule: feed.induct)
  case (1 p s)
  then show ?case using ends_run [of p n s] by (cases "run p s"; cases "snd (run p s)") fastforce+
next
  case (2 p s w f ws)
  show ?case
  proof (cases "run p s")
    case (Pair u r)
    then show ?thesis
    proof (cases r)
      case (Waiting q k)
      with Pair 2 ends_run [of p n s u q k w] show ?thesis by fastforce
    qed simp
  qed
qed

end
