(* ===== verification/Async_System.thy ===== *)
theory Async_System
  imports Async
begin

text \<open>
  A page as a system: its state and the suspended calls of its asynchronous functions, each with
  what it awaits and how it goes on. A call starts at any time and runs to its first \<^verbatim>\<open>await\<close>; any
  suspended call may be answered next. An invariant \<open>I\<close> of the state is \<open>held\<close> when the suspended calls
  will keep it too.
\<close>

record ('s, 'q, 'w) system =
  now :: 's
  jobs :: "('q \<times> ('w \<Rightarrow> ('s, 'q, 'w, unit) async)) list"

definition idle_system :: "'s \<Rightarrow> ('s, 'q, 'w) system" where
  "idle_system s = \<lparr>now = s, jobs = []\<rparr>"

definition begin_job :: "('s, 'q, 'w, unit) async \<Rightarrow> ('s, 'q, 'w) system \<Rightarrow> ('s, 'q, 'w) system" where
  "begin_job p x =
    (case run p (now x) of
       (s, Finished r) \<Rightarrow> x\<lparr>now := s\<rparr>
     | (s, Waiting q k) \<Rightarrow> x\<lparr>now := s, jobs := jobs x @ [(q, k)]\<rparr>)"

definition continue_job :: "nat \<Rightarrow> 'w \<Rightarrow> ('s, 'q, 'w) system \<Rightarrow> ('s, 'q, 'w) system" where
  "continue_job i w x =
    (if i < length (jobs x) then
       case jobs x ! i of (q, k) \<Rightarrow> begin_job (k w) (x\<lparr>jobs := take i (jobs x) @ drop (Suc i) (jobs x)\<rparr>)
     else x)"

lemma begun: "now (begin_job p x) = fst (run p (now x))"
  by (simp add: begin_job_def split: prod.split progress.split)

definition held :: "('s \<Rightarrow> bool) \<Rightarrow> ('s, 'q, 'w) system \<Rightarrow> bool" where
  "held I x \<longleftrightarrow> I (now x) \<and> (\<forall>(q, k) \<in> set (jobs x). \<forall>w. sound I (k w))"

lemma held_idle: "held I (idle_system s) = I s"
  by (simp add: held_def idle_system_def)

lemma held_now: "held I x \<Longrightarrow> I (now x)"
  by (simp add: held_def)

lemma held_change: "held I x \<Longrightarrow> I s \<Longrightarrow> held I (x\<lparr>now := s\<rparr>)"
  by (simp add: held_def)

lemma held_safe:
  assumes "held I x" and "safe I p (now x)"
  shows "held I (begin_job p x)"
  using assms(1) safe_now [OF assms(2)] safe_rest [OF assms(2)]
  by (cases "run p (now x)"; cases "snd (run p (now x))") (auto simp: begin_job_def held_def)

lemma held_begin: "held I x \<Longrightarrow> sound I p \<Longrightarrow> held I (begin_job p x)"
  by (rule held_safe) (auto simp: held_def sound_def)

lemma held_continue:
  assumes "held I x"
  shows "held I (continue_job i w x)"
proof (cases "i < length (jobs x)")
  case True
  obtain q k where job: "jobs x ! i = (q, k)" by force
  then have "(q, k) \<in> set (jobs x)" using True nth_mem by metis
  then have *: "sound I (k w)" using assms by (auto simp: held_def)
  have "held I (x\<lparr>jobs := take i (jobs x) @ drop (Suc i) (jobs x)\<rparr>)"
    using assms by (auto simp: held_def dest!: in_set_takeD in_set_dropD)
  with * job True show ?thesis by (simp add: continue_job_def held_begin)
qed (simp add: continue_job_def assms)

text \<open>
  What a page does: it starts calls, changes its state at once, or has a call answered. A page whose
  calls and changes keep an invariant keeps it in every run.
\<close>

datatype ('s, 'q, 'w) move =
  Call "('s, 'q, 'w, unit) async"
| Change "'s \<Rightarrow> 's"
| Answered nat 'w

fun make_move :: "('s, 'q, 'w) system \<Rightarrow> ('s, 'q, 'w) move \<Rightarrow> ('s, 'q, 'w) system" where
  "make_move x (Call p) = begin_job p x"
| "make_move x (Change f) = x\<lparr>now := f (now x)\<rparr>"
| "make_move x (Answered i w) = continue_job i w x"

fun keeping :: "('s \<Rightarrow> bool) \<Rightarrow> ('s, 'q, 'w) move \<Rightarrow> bool" where
  "keeping I (Call p) = sound I p"
| "keeping I (Change f) = (\<forall>s. I s \<longrightarrow> I (f s))"
| "keeping I (Answered i w) = True"

lemma held_move: "held I x \<Longrightarrow> keeping I m \<Longrightarrow> held I (make_move x m)"
  by (cases m) (auto simp: held_begin held_continue held_change held_now)

locale page =
  fixes moves :: "'e \<Rightarrow> ('s, 'q, 'w) move" and I :: "'s \<Rightarrow> bool"
  assumes kept: "keeping I (moves e)"
begin

lemma held_run: "held I x \<Longrightarrow> held I (foldl (\<lambda>x e. make_move x (moves e)) x es)"
  by (induction es arbitrary: x) (auto intro: held_move kept)

lemma run_from: "I s \<Longrightarrow> I (now (foldl (\<lambda>x e. make_move x (moves e)) (idle_system s) es))"
  using held_run [of "idle_system s" es] by (simp add: held_idle held_now)

end

section \<open>What an answer may bring about\<close>

text \<open>
  \<open>sets v ok A p\<close>: up to its next \<^verbatim>\<open>await\<close> the program \<open>p\<close> leaves \<open>v\<close> of the state as it is or sets it to a value of \<open>A\<close>; after the
  answer \<open>w\<close> to a request \<open>q\<close> it may set it to one of \<open>ok q w\<close>. So a value of the state can be traced to the
  answer it came from.
\<close>

primrec sets ::
  "('s \<Rightarrow> 'v) \<Rightarrow> ('q \<Rightarrow> 'w \<Rightarrow> 'v set) \<Rightarrow> 'v set \<Rightarrow> ('s, 'q, 'w, 'a) async \<Rightarrow> bool" where
  "sets v ok A (Return x) \<longleftrightarrow> True"
| "sets v ok A (Throw e) \<longleftrightarrow> True"
| "sets v ok A (Modify f p) \<longleftrightarrow> (\<forall>s. v (f s) \<in> insert (v s) A) \<and> sets v ok A p"
| "sets v ok A (Get p) \<longleftrightarrow> (\<forall>s. sets v ok A (p s))"
| "sets v ok A (Await q k) \<longleftrightarrow> (\<forall>w. sets v ok (ok q w) (k w))"

lemma sets_now: "sets v ok A p \<Longrightarrow> v (fst (run p s)) \<in> insert (v s) A"
proof (induction p arbitrary: s)
  case (Modify f p)
  then have "v (f s) \<in> insert (v s) A" and "v (fst (run p (f s))) \<in> insert (v (f s)) A" by auto
  then show ?case by auto
next
  case (Get p)
  then show ?case by simp
qed simp_all

lemma sets_rest: "sets v ok A p \<Longrightarrow> run p s = (u, Waiting q k) \<Longrightarrow> sets v ok (ok q w) (k w)"
  by (induction p arbitrary: s) auto

lemma sets_finally:
  "sets v ok A p \<Longrightarrow> (\<And>s. v (f s) = v s) \<Longrightarrow> sets v ok A (finally_do p f)"
  by (induction p arbitrary: A) auto

definition traced :: "('s \<Rightarrow> 'v) \<Rightarrow> ('q \<Rightarrow> 'w \<Rightarrow> 'v set) \<Rightarrow> ('s, 'q, 'w) system \<Rightarrow> bool" where
  "traced v ok x \<longleftrightarrow> (\<forall>(q, k) \<in> set (jobs x). \<forall>w. sets v ok (ok q w) (k w))"

lemma traced_begin: "traced v ok x \<Longrightarrow> sets v ok A p \<Longrightarrow> traced v ok (begin_job p x)"
  using sets_rest [of v ok A p "now x"]
  by (cases "run p (now x)"; cases "snd (run p (now x))") (auto simp: begin_job_def traced_def)

lemma traced_job: "traced v ok x \<Longrightarrow> i < length (jobs x) \<Longrightarrow> jobs x ! i = (q, k) \<Longrightarrow> sets v ok (ok q w) (k w)"
  by (metis (no_types, lifting) traced_def nth_mem case_prodD)

lemma traced_continue:
  assumes "traced v ok x"
  shows "traced v ok (continue_job i w x)"
proof (cases "i < length (jobs x)")
  case True
  obtain q k where job: "jobs x ! i = (q, k)" by force
  have "traced v ok (x\<lparr>jobs := take i (jobs x) @ drop (Suc i) (jobs x)\<rparr>)"
    using assms by (auto simp: traced_def dest!: in_set_takeD in_set_dropD)
  from traced_begin [OF this traced_job [OF assms True job]] job True show ?thesis
    by (simp add: continue_job_def)
qed (simp add: continue_job_def assms)

lemma traced_answer:
  assumes "traced v ok x" and "i < length (jobs x)" and "jobs x ! i = (q, k)"
  shows "v (now (continue_job i w x)) \<in> insert (v (now x)) (ok q w)"
  using sets_now [OF traced_job [OF assms, of w], of "now x"] assms by (simp add: continue_job_def begun)

fun tracing :: "('s \<Rightarrow> 'v) \<Rightarrow> ('q \<Rightarrow> 'w \<Rightarrow> 'v set) \<Rightarrow> ('s, 'q, 'w) move \<Rightarrow> bool" where
  "tracing v ok (Call p) = (\<exists>A. sets v ok A p)"
| "tracing v ok (Change f) = True"
| "tracing v ok (Answered i w) = True"

lemma traced_move: "traced v ok x \<Longrightarrow> tracing v ok m \<Longrightarrow> traced v ok (make_move x m)"
  by (cases m) (auto simp: traced_continue traced_def [of v ok "x\<lparr>now := s\<rparr>" for s] traced_def [of v ok x] intro: traced_begin)

locale traced_page =
  fixes moves :: "'e \<Rightarrow> ('s, 'q, 'w) move" and v :: "'s \<Rightarrow> 'v" and ok :: "'q \<Rightarrow> 'w \<Rightarrow> 'v set"
  assumes traceable: "tracing v ok (moves e)"
begin

lemma traced_run: "traced v ok (foldl (\<lambda>x e. make_move x (moves e)) (idle_system s) es)"
proof -
  have "traced v ok x \<Longrightarrow> traced v ok (foldl (\<lambda>x e. make_move x (moves e)) x es)" for x
    by (induction es arbitrary: x) (auto intro: traced_move traceable)
  moreover have "traced v ok (idle_system s)" by (simp add: idle_system_def traced_def)
  ultimately show ?thesis by blast
qed

end

end
