(* ===== verification/Paste_Text.thy ===== *)
theory Paste_Text
  imports Async_System
begin

text \<open>
  Typing a text on the host, \<^verbatim>\<open>Paste\<close> of \<^verbatim>\<open>web/src/pages/desktop/menu/keyboard/paste.tsx\<close>: which characters a
  language allows, the keys of an English keyboard that type a Russian text, and the dialog. A text is
  the list of its code points. Lower case is that of the letters the tables name; every other
  character that has another lower case has none in the table.
\<close>

section \<open>Characters\<close>

definition isValidForLanguage :: "nat list \<Rightarrow> string \<Rightarrow> bool" where
  "isValidForLanguage value selectedLangue =
    list_all (\<lambda>code.
      if selectedLangue = ''ru'' then
        0x0410 \<le> code \<and> code \<le> 0x042f \<or> 0x0430 \<le> code \<and> code \<le> 0x044f \<or> code = 0x0401 \<or> code = 0x0451 \<or>
        0x20 \<le> code \<and> code \<le> 0x7e \<and> \<not> (0x41 \<le> code \<and> code \<le> 0x5a) \<and> \<not> (0x61 \<le> code \<and> code \<le> 0x7a)
      else if selectedLangue = ''fr'' then code \<le> 0x7f \<or> 0xa0 \<le> code \<and> code \<le> 0x017e
      else code \<le> 0x7f) value"

definition cp :: "char \<Rightarrow> nat" where
  "cp c = of_char c"

text \<open>The letters in the order of the table; the code points are those of the Cyrillic letters it lists.\<close>

definition letterMap :: "(nat \<times> nat) list" where
  "letterMap = zip
    [0x451, 0x439, 0x446, 0x443, 0x43a, 0x435, 0x43d, 0x433, 0x448, 0x449, 0x437, 0x445, 0x44a, 0x444, 0x44b, 0x432,
     0x430, 0x43f, 0x440, 0x43e, 0x43b, 0x434, 0x436, 0x44d, 0x44f, 0x447, 0x441, 0x43c, 0x438, 0x442, 0x44c, 0x431, 0x44e]
    (map cp ''`qwertyuiop[]asdfghjkl;'' @ [39] @ map cp ''zxcvbnm,.'')"

definition punctuationMap :: "(nat \<times> nat) list" where
  "punctuationMap = [(34, cp CHR ''@''), (0x2116, cp CHR ''#''), (cp CHR '';'', cp CHR ''$''), (cp CHR '':'', cp CHR ''^''),
    (cp CHR ''?'', cp CHR ''&''), (0x401, cp CHR ''~''), (cp CHR ''/'', cp CHR ''|''), (cp CHR ''.'', cp CHR ''/''),
    (cp CHR '','', cp CHR ''?'')]"

definition lower_cp :: "nat \<Rightarrow> nat" where
  "lower_cp c =
    (if 0x410 \<le> c \<and> c \<le> 0x42f \<or> 0x41 \<le> c \<and> c \<le> 0x5a then c + 32 else if c = 0x401 then 0x451 else c)"

text \<open>\<^verbatim>\<open>toUpperCase\<close> of what the table gives, which is ASCII.\<close>

definition upper_ascii :: "nat \<Rightarrow> nat" where
  "upper_ascii c = (if 0x61 \<le> c \<and> c \<le> 0x7a then c - 32 else c)"

definition translate_char :: "nat \<Rightarrow> nat" where
  "translate_char ch =
    (case map_of letterMap (lower_cp ch) of
       Some translated \<Rightarrow> if ch = lower_cp ch then translated else upper_ascii translated
     | None \<Rightarrow> (case map_of punctuationMap ch of Some p \<Rightarrow> p | None \<Rightarrow> ch))"

definition translateRuToEnWithPunctuation :: "nat list \<Rightarrow> nat list" where
  "translateRuToEnWithPunctuation = map translate_char"

section \<open>The dialog\<close>

record paste_dialog =
  isModalOpen :: bool
  inputValue :: "nat list"
  isReadingClipboard :: bool
  langue :: string
  status :: string
  errMsg :: string
  isLoading :: bool

datatype paste_request = Read_text | Paste_text "nat list" string
datatype paste_answer = Text "nat list" | Denied | Unreadable | Pasted int string | Not_sent

definition onChange :: "nat list \<Rightarrow> paste_dialog \<Rightarrow> paste_dialog" where
  "onChange value s =
    s\<lparr>status := (if isValidForLanguage value (langue s) then [] else ''error''), inputValue := value\<rparr>"

definition readFromClipboard :: "(paste_dialog, paste_request, paste_answer, unit) async" where
  "readFromClipboard = Get (\<lambda>s. if isReadingClipboard s then Return ()
    else Modify (\<lambda>s. s\<lparr>isReadingClipboard := True\<rparr>)
      (finally_do (Await Read_text (\<lambda>w. case w of
          Text t \<Rightarrow> if t = [] then Return () else act (\<lambda>s. s\<lparr>inputValue := inputValue s @ t\<rparr>)
        | Denied \<Rightarrow> act (\<lambda>s. s\<lparr>errMsg := ''keyboard.clipboardPermissionDenied''\<rparr>)
        | _ \<Rightarrow> act (\<lambda>s. s\<lparr>errMsg := ''keyboard.clipboardReadError''\<rparr>)))
       (\<lambda>s. s\<lparr>isReadingClipboard := False\<rparr>)))"

definition paste_done :: "paste_dialog \<Rightarrow> paste_dialog" where
  "paste_done s = s\<lparr>inputValue := [], status := [], errMsg := [], isModalOpen := False\<rparr>"

definition submit :: "(paste_dialog, paste_request, paste_answer, unit) async" where
  "submit = Get (\<lambda>s. if isLoading s \<or> inputValue s = [] then Return ()
    else Modify (\<lambda>s. s\<lparr>isLoading := True\<rparr>)
      (finally_do
        (Await (Paste_text (if langue s = ''ru'' then translateRuToEnWithPunctuation (inputValue s) else inputValue s) (langue s))
          (\<lambda>w. case w of
             Pasted code msg \<Rightarrow> if code \<noteq> 0 then act (\<lambda>s. s\<lparr>errMsg := msg\<rparr>) else act paste_done
           | _ \<Rightarrow> Throw (Js_error [] None)))
        (\<lambda>s. s\<lparr>isLoading := False\<rparr>)))"

section \<open>Properties\<close>

lemma letter_table:
  "letterMap = zip
    [0x451, 0x439, 0x446, 0x443, 0x43a, 0x435, 0x43d, 0x433, 0x448, 0x449, 0x437, 0x445, 0x44a, 0x444, 0x44b, 0x432,
     0x430, 0x43f, 0x440, 0x43e, 0x43b, 0x434, 0x436, 0x44d, 0x44f, 0x447, 0x441, 0x43c, 0x438, 0x442, 0x44c, 0x431, 0x44e]
    [96, 113, 119, 101, 114, 116, 121, 117, 105, 111, 112, 91, 93, 97, 115, 100, 102, 103, 104, 106, 107, 108, 59, 39,
     122, 120, 99, 118, 98, 110, 109, 44, 46]"
  by (simp add: letterMap_def cp_def)

definition small_letters :: "nat list" where
  "small_letters = 0x451 # [0x430..<0x450]"

lemma letters_typed: "list_all (\<lambda>c. \<exists>t. map_of letterMap c = Some t \<and> 0x20 \<le> t \<and> t \<le> 0x7e) small_letters"
  by (simp add: letter_table small_letters_def upt_rec_numeral)

lemma letter_codes:
  assumes "0x430 \<le> c \<and> c \<le> 0x44f \<or> c = 0x451"
  shows "\<exists>t. map_of letterMap c = Some t \<and> 0x20 \<le> t \<and> t \<le> 0x7e"
proof -
  have "c \<in> insert 0x451 {0x430..<0x450}" using assms by auto
  then have "c \<in> set small_letters" by (simp only: small_letters_def list.set set_upt)
  then show ?thesis using letters_typed by (simp add: list_all_iff)
qed

lemma no_letter: "c < 0x410 \<Longrightarrow> c \<noteq> 0x401 \<Longrightarrow> map_of letterMap (lower_cp c) = None"
  by (auto simp: letter_table lower_cp_def)

text \<open>
  A text that is allowed for Russian is turned into printable ASCII, character by character, so each of its
  characters is one key of the English keyboard.
\<close>

theorem russian_text_is_typed:
  assumes "isValidForLanguage value ''ru''"
  shows "length (translateRuToEnWithPunctuation value) = length value \<and>
    list_all (\<lambda>c. 0x20 \<le> c \<and> c \<le> 0x7e) (translateRuToEnWithPunctuation value)"
proof -
  have "0x20 \<le> translate_char c \<and> translate_char c \<le> 0x7e" if "c \<in> set value" for c
  proof (cases "c < 0x80")
    case True
    then have "0x20 \<le> c \<and> c \<le> 0x7e" using assms that by (auto simp: isValidForLanguage_def list_all_iff)
    with True no_letter [of c] show ?thesis
      by (auto simp: translate_char_def punctuationMap_def cp_def)
  next
    case False
    then have "0x430 \<le> lower_cp c \<and> lower_cp c \<le> 0x44f \<or> lower_cp c = 0x451"
      using assms that by (auto simp: isValidForLanguage_def list_all_iff lower_cp_def)
    from letter_codes [OF this] show ?thesis by (auto simp: translate_char_def upper_ascii_def)
  qed
  then show ?thesis by (simp add: translateRuToEnWithPunctuation_def list_all_iff)
qed

theorem russian_text_is_typed_witness:
  "isValidForLanguage [0x41f, 0x440, 33] ''ru'' \<and> translateRuToEnWithPunctuation [0x41f, 0x440, 33] = [71, 104, 33] \<and>
   list_all (\<lambda>c. 0x20 \<le> c \<and> c \<le> 0x7e) (translateRuToEnWithPunctuation [0x41f, 0x440, 33])"
proof -
  have valid: "isValidForLanguage [0x41f, 0x440, 33] ''ru''" by (simp add: isValidForLanguage_def)
  have "translateRuToEnWithPunctuation [0x41f, 0x440, 33] = [71, 104, 33]"
    by (simp add: translateRuToEnWithPunctuation_def translate_char_def letter_table lower_cp_def upper_ascii_def
        punctuationMap_def cp_def)
  with russian_text_is_typed [OF valid] valid show ?thesis by blast
qed

text \<open>
  The capitals of the seven letters that share a key with punctuation lose their case: they are turned into the same
  character as their small letters, because upper case does nothing to a bracket, and the entry of the
  second table for one of them is never reached.
\<close>

theorem shifted_letters_lose_case:
  "\<forall>c \<in> {0x401, 0x411, 0x416, 0x425, 0x42a, 0x42d, 0x42e}.
     isValidForLanguage [c] ''ru'' \<and> lower_cp c \<noteq> c \<and> translate_char c = translate_char (lower_cp c)"
  by (simp add: isValidForLanguage_def translate_char_def letter_table lower_cp_def upper_ascii_def)

text \<open>
  A text read from the clipboard is not checked against the language, so it is sent as it is.
\<close>

lemma clipboard_text_unchecked:
  assumes "\<not> isReadingClipboard s" and "t \<noteq> []"
  shows "\<exists>u. feed readFromClipboard s [(Text t, id)] = (u, Finished (Inr ())) \<and> status u = status s \<and>
    inputValue u = inputValue s @ t"
  using assms by (simp add: readFromClipboard_def)

text \<open>Whatever the server answers, the dialog can be used again after one answer.\<close>

lemma submit_unlocks:
  assumes "\<not> isLoading s" and "inputValue s \<noteq> []"
  shows "\<exists>u r. feed submit s [(w, f)] = (u, Finished r) \<and> \<not> isLoading u"
  using assms by (cases w) (auto simp: submit_def paste_done_def)

end
