(* ===== verification/File_Browser.thy ===== *)
theory File_Browser
  imports Async_System Text_Tools "HOL-Library.AList" "HOL-Library.Multiset"
begin

text \<open>
  The browser of the files of a medium, \<^verbatim>\<open>useFileBrowser\<close> of \<^verbatim>\<open>web/src/pages/storage/use-file-browser.tsx\<close>:
  which entries are shown and in which order, moving between folders, reading a folder, expanding
  folders in place, uploading and deleting. The server's answers and the browser's comparison of
  names (\<^verbatim>\<open>localeCompare\<close>) are arguments.
\<close>

section \<open>Entries\<close>

datatype media_type = image_medium | partition_medium

record file_entry =
  name :: string
  size_bytes :: nat
  isDir :: bool
  modifiedAt :: string

record media_files =
  entries_of :: "file_entry list"
  free_bytes :: nat
  writing :: bool

datatype sort_key = by_name | by_size | by_type

text \<open>\<^verbatim>\<open>lib/file-names.ts\<close>: a leading dot does not start an extension.\<close>

definition extension :: "string \<Rightarrow> string" where
  "extension n =
    (let parts = split_char (CHR ''.'') n
     in if length parts < 2 \<or> parts = [[], last parts] then [] else js_lower (last parts))"

definition isImageName :: "string \<Rightarrow> bool" where
  "isImageName n \<longleftrightarrow> suffix ''.iso'' (js_lower n) \<or> suffix ''.img'' (js_lower n)"

definition transferTempPrefixes :: "string list" where
  "transferTempPrefixes = [''.kvm-upload-'', ''.nanokvm-'']"

definition isEntryVisible :: "media_type option \<Rightarrow> file_entry \<Rightarrow> bool" where
  "isEntryVisible m e \<longleftrightarrow> \<not> list_ex (\<lambda>p. prefix p (name e)) transferTempPrefixes \<and>
    \<not> (m = Some partition_medium \<and> \<not> isDir e \<and> isImageName (name e))"

definition compare_entries :: "(string \<Rightarrow> string \<Rightarrow> int) \<Rightarrow> sort_key \<Rightarrow> bool \<Rightarrow> file_entry \<Rightarrow> file_entry \<Rightarrow> int" where
  "compare_entries cmp key asc a b =
    (if isDir a \<noteq> isDir b then if isDir a then -1 else 1
     else
       let compared = (case key of
             by_size \<Rightarrow> int (size_bytes a) - int (size_bytes b)
           | by_type \<Rightarrow> cmp (extension (name a)) (extension (name b))
           | by_name \<Rightarrow> cmp (name a) (name b));
           compared = (if compared = 0 then cmp (name a) (name b) else compared)
       in if asc then compared else - compared)"

text \<open>The stable sort of the language: an element goes after those that do not compare greater.\<close>

fun insert_entry :: "('a \<Rightarrow> 'a \<Rightarrow> int) \<Rightarrow> 'a \<Rightarrow> 'a list \<Rightarrow> 'a list" where
  "insert_entry f x [] = [x]"
| "insert_entry f x (y # ys) = (if f y x > 0 then x # y # ys else y # insert_entry f x ys)"

definition js_sort :: "('a \<Rightarrow> 'a \<Rightarrow> int) \<Rightarrow> 'a list \<Rightarrow> 'a list" where
  "js_sort f xs = foldl (\<lambda>ys x. insert_entry f x ys) [] xs"

definition sortEntries :: "(string \<Rightarrow> string \<Rightarrow> int) \<Rightarrow> file_entry list \<Rightarrow> sort_key \<Rightarrow> bool \<Rightarrow> file_entry list" where
  "sortEntries cmp es key asc = js_sort (compare_entries cmp key asc) es"

section \<open>Paths\<close>

definition childPath :: "string \<Rightarrow> string \<Rightarrow> string" where
  "childPath parent n = (if parent = ''/'' then ''/'' @ n else parent @ ''/'' @ n)"

definition path_parts :: "string \<Rightarrow> string list" where
  "path_parts p = filter (\<lambda>part. part \<noteq> []) (split_char (CHR ''/'') p)"

fun js_join :: "string \<Rightarrow> string list \<Rightarrow> string" where
  "js_join d [] = []"
| "js_join d [x] = x"
| "js_join d (x # y # ys) = x @ d @ js_join d (y # ys)"

definition parentPath :: "string \<Rightarrow> string" where
  "parentPath p = (let parts = butlast (path_parts p) in if parts \<noteq> [] then ''/'' @ js_join ''/'' parts else ''/'')"

definition crumbPath :: "string \<Rightarrow> nat \<Rightarrow> string" where
  "crumbPath p index = ''/'' @ js_join ''/'' (take (Suc index) (path_parts p))"

section \<open>State\<close>

type_synonym medium = "media_type \<times> string"

text \<open>\<open>changed\<close> counts the calls of \<^verbatim>\<open>onMediaChanged\<close>; \<open>confirming\<close> is what the open question would delete.\<close>

record files_panel =
  media :: "medium option"
  reason :: string
  path :: string
  dataOwned :: bool
  listing :: "(string \<times> media_files) option"
  isLoading :: bool
  uploads :: "(nat \<times> string \<times> media_type) list"
  uploadId :: nat
  expandedDirs :: "(string \<times> media_files) list"
  expandingDirs :: "string list"
  query :: string
  sortKey :: sort_key
  sortAsc :: bool
  uploadTarget :: "(medium \<times> string) option"
  listingId :: nat
  expandedGeneration :: nat
  confirming :: "(medium \<times> string) option"
  changed :: nat
  aborted :: "nat list"
  messages :: "string list"

definition new_files_panel :: files_panel where
  "new_files_panel = \<lparr>media = None, reason = [], path = ''/'', dataOwned = False, listing = None, isLoading = False, uploads = [],
    uploadId = 0, expandedDirs = [], expandingDirs = [], query = [], sortKey = by_name, sortAsc = True,
    uploadTarget = None, listingId = 0, expandedGeneration = 0, confirming = None, changed = 0, aborted = [], messages = []\<rparr>"

definition mayWrite :: "(string \<Rightarrow> bool) \<Rightarrow> media_type \<Rightarrow> bool" where
  "mayWrite hasPermission m = hasPermission (if m = partition_medium then ''medium.attach'' else ''library.write'')"

definition canBrowse :: "files_panel \<Rightarrow> bool" where
  "canBrowse s \<longleftrightarrow> media s \<noteq> None \<and> reason s = []"

definition canWrite :: "files_panel \<Rightarrow> bool" where
  "canWrite s \<longleftrightarrow> \<not> dataOwned s"

definition isBrowsed :: "medium \<Rightarrow> files_panel \<Rightarrow> bool" where
  "isBrowsed target s \<longleftrightarrow> canBrowse s \<and> media s = Some target"

definition type_text :: "media_type \<Rightarrow> string" where
  "type_text m = (case m of image_medium \<Rightarrow> ''image'' | partition_medium \<Rightarrow> ''partition'')"

definition location_key :: "medium \<Rightarrow> string \<Rightarrow> string" where
  "location_key m p = type_text (fst m) @ '':'' @ snd m @ '':'' @ p"

definition locationKey :: "files_panel \<Rightarrow> string" where
  "locationKey s = (case media s of None \<Rightarrow> ''::'' @ path s | Some m \<Rightarrow> location_key m (path s))"

definition files :: "files_panel \<Rightarrow> media_files option" where
  "files s = (case listing s of None \<Rightarrow> None | Some (key, f) \<Rightarrow> if key = locationKey s then Some f else None)"

definition panel_entries :: "files_panel \<Rightarrow> file_entry list" where
  "panel_entries s =
    filter (isEntryVisible (map_option fst (media s))) (case files s of None \<Rightarrow> [] | Some f \<Rightarrow> entries_of f)"

definition visibleEntries :: "(string \<Rightarrow> string \<Rightarrow> int) \<Rightarrow> files_panel \<Rightarrow> file_entry list" where
  "visibleEntries cmp s =
    (let trimmedQuery = js_lower (js_trim (query s))
     in sortEntries cmp
          (if trimmedQuery \<noteq> [] then filter (\<lambda>e. js_includes (js_lower (name e)) trimmedQuery) (panel_entries s)
           else panel_entries s)
          (sortKey s) (sortAsc s))"

text \<open>The rows under an expanded folder.\<close>

definition childEntries :: "(string \<Rightarrow> string \<Rightarrow> int) \<Rightarrow> string \<Rightarrow> files_panel \<Rightarrow> file_entry list" where
  "childEntries cmp fullPath s =
    (case map_of (expandedDirs s) fullPath of
       None \<Rightarrow> []
     | Some f \<Rightarrow> sortEntries cmp (filter (isEntryVisible (map_option fst (media s))) (entries_of f)) (sortKey s) (sortAsc s))"

section \<open>Programs\<close>

datatype files_request =
  List_files medium string
| Upload_file medium string string
| Delete_file medium string

datatype files_answer = Files int string media_files | Rsp int string | Lost

type_synonym 'a files_program = "(files_panel, files_request, files_answer, 'a) async"

definition onError :: "string \<Rightarrow> files_panel \<Rightarrow> files_panel" where
  "onError m s = s\<lparr>messages := messages s @ [m]\<rparr>"

definition listed :: "medium \<Rightarrow> string \<Rightarrow> files_answer \<Rightarrow> files_panel \<Rightarrow> files_panel" where
  "listed m p w s =
    (case w of
       Files code msg f \<Rightarrow> if code = 0 then s\<lparr>listing := Some (location_key m p, f)\<rparr> else onError msg s
     | Rsp code msg \<Rightarrow> onError msg s
     | Lost \<Rightarrow> onError ''storage.failed'' s)"

definition refresh :: "unit files_program" where
  "refresh = Modify (\<lambda>s. s\<lparr>listingId := Suc (listingId s)\<rparr>) (Get (\<lambda>s.
    if \<not> canBrowse s then act (\<lambda>s. s\<lparr>listing := None, isLoading := False\<rparr>)
    else let n = listingId s; m = the (media s); p = path s
      in Modify (\<lambda>s. s\<lparr>isLoading := True\<rparr>) (Await (List_files m p) (\<lambda>w. Get (\<lambda>s.
        if listingId s \<noteq> n then Return ()
        else act (\<lambda>s. (listed m p w s)\<lparr>isLoading := False\<rparr>))))))"

definition forget_expanded :: "files_panel \<Rightarrow> files_panel" where
  "forget_expanded s = s\<lparr>expandedGeneration := Suc (expandedGeneration s), expandedDirs := [], expandingDirs := []\<rparr>"

text \<open>
  A new medium, reason or folder, and what the effects do then: the folder is read again when
  anything it depends on changed, the search and the expanded folders go when the place changed.
\<close>

definition move_to :: "medium option \<Rightarrow> string \<Rightarrow> string \<Rightarrow> files_panel \<Rightarrow> files_panel" where
  "move_to m r p s = s\<lparr>media := m, reason := r, path := p\<rparr>"

definition relocate :: "medium option \<Rightarrow> string \<Rightarrow> string \<Rightarrow> unit files_program" where
  "relocate m r p = Get (\<lambda>s.
    let moved = (media s \<noteq> m \<or> path s \<noteq> p)
    in Modify (\<lambda>s. if moved then forget_expanded ((move_to m r p s)\<lparr>query := []\<rparr>) else move_to m r p s)
         (if moved \<or> canBrowse s \<noteq> canBrowse (move_to m r p s) then refresh else Return ()))"

text \<open>The target machine wrote: the folder is read again and the expanded folders go.\<close>

definition storage_changed :: "unit files_program" where
  "storage_changed = Modify forget_expanded refresh"

definition collapse :: "string \<Rightarrow> files_panel \<Rightarrow> files_panel" where
  "collapse d s = s\<lparr>expandedDirs := filter (\<lambda>(k, _). \<not> (k = d \<or> prefix (d @ ''/'') k)) (expandedDirs s)\<rparr>"

definition expanded :: "string \<Rightarrow> files_answer \<Rightarrow> files_panel \<Rightarrow> files_panel" where
  "expanded d w s =
    (case w of
       Files code msg f \<Rightarrow>
         if code \<noteq> 0 then onError msg s else s\<lparr>expandedDirs := AList.update d f (expandedDirs s)\<rparr>
     | Rsp code msg \<Rightarrow> onError msg s
     | Lost \<Rightarrow> onError ''storage.failed'' s)"

definition toggleDir :: "string \<Rightarrow> unit files_program" where
  "toggleDir d = Get (\<lambda>s.
    if map_of (expandedDirs s) d \<noteq> None then act (collapse d)
    else if d \<in> set (expandingDirs s) \<or> media s = None then Return ()
    else let generation = expandedGeneration s
      in Modify (\<lambda>s. s\<lparr>expandingDirs := js_add d (expandingDirs s)\<rparr>)
        (Await (List_files (the (media s)) d) (\<lambda>w. Get (\<lambda>s.
          if expandedGeneration s \<noteq> generation then Return ()
          else act (\<lambda>s. (expanded d w s)\<lparr>expandingDirs := js_delete d (expandingDirs s)\<rparr>)))))"

definition choose_upload :: "(string \<Rightarrow> bool) \<Rightarrow> medium \<Rightarrow> string \<Rightarrow> files_panel \<Rightarrow> files_panel" where
  "choose_upload hasPermission m d s =
    (if mayWrite hasPermission (fst m) \<and> canWrite s then s\<lparr>uploadTarget := Some (m, d)\<rparr> else s)"

definition begin_file_upload :: "string \<Rightarrow> media_type \<Rightarrow> files_panel \<Rightarrow> files_panel" where
  "begin_file_upload f m s = s\<lparr>uploadId := Suc (uploadId s), uploads := uploads s @ [(Suc (uploadId s), f, m)]\<rparr>"

definition end_upload :: "nat \<Rightarrow> files_panel \<Rightarrow> files_panel" where
  "end_upload n s = s\<lparr>uploads := filter (\<lambda>u. fst u \<noteq> n) (uploads s)\<rparr>"

definition upload_done :: "nat \<Rightarrow> bool \<Rightarrow> files_answer \<Rightarrow> unit files_program" where
  "upload_done n here w =
    (case w of
       Rsp code msg \<Rightarrow>
         if code = 0 then if here then refresh else act (\<lambda>s. s\<lparr>changed := Suc (changed s)\<rparr>)
         else act (onError msg)
     | _ \<Rightarrow> act (\<lambda>s. if n \<in> set (aborted s) then s else onError ''storage.files.uploadFailed'' s))"

definition upload :: "string option \<Rightarrow> unit files_program" where
  "upload file = Get (\<lambda>s. Modify (\<lambda>s. s\<lparr>uploadTarget := None\<rparr>)
    (case (file, uploadTarget s) of
       (Some f, Some (m, d)) \<Rightarrow>
         let n = Suc (uploadId s); here = (isBrowsed m s \<and> d = path s)
         in Modify (begin_file_upload f (fst m))
           (finally_do (Await (Upload_file m d f) (upload_done n here)) (end_upload n))
     | _ \<Rightarrow> Return ()))"

definition cancel_upload :: "nat \<Rightarrow> files_panel \<Rightarrow> files_panel" where
  "cancel_upload n s = (if n \<in> fst ` set (uploads s) then s\<lparr>aborted := js_add n (aborted s)\<rparr> else s)"

definition confirmDelete :: "(string \<Rightarrow> bool) \<Rightarrow> string \<Rightarrow> files_panel \<Rightarrow> files_panel" where
  "confirmDelete hasPermission target s =
    (case media s of
       None \<Rightarrow> s
     | Some m \<Rightarrow>
         if mayWrite hasPermission (fst m) \<and> canWrite s then s\<lparr>confirming := Some (m, target)\<rparr> else s)"

definition confirmed :: "unit files_program" where
  "confirmed = Get (\<lambda>s. case confirming s of
     None \<Rightarrow> Return ()
   | Some (m, target) \<Rightarrow> Modify (\<lambda>s. s\<lparr>confirming := None\<rparr>)
       (Await (Delete_file m target) (\<lambda>w. case w of
          Rsp code msg \<Rightarrow> if code \<noteq> 0 then act (onError msg) else Modify forget_expanded refresh
        | _ \<Rightarrow> act (onError ''storage.failed''))))"

datatype files_event =
  Relocate "medium option" string string | Storage_changed | Toggle string | Refresh_pressed medium
| Upload_to medium string | File_chosen "string option" | Cancel_upload nat | Delete_pressed string | Delete_confirmed
| Delete_declined | Search string | Sort sort_key bool | Partition_owned bool | Files_answer nat files_answer

fun files_moves :: "(string \<Rightarrow> bool) \<Rightarrow> files_event \<Rightarrow> (files_panel, files_request, files_answer) move" where
  "files_moves h (Relocate m r p) = Call (relocate m r p)"
| "files_moves h Storage_changed = Call storage_changed"
| "files_moves h (Toggle d) = Call (toggleDir d)"
| "files_moves h (Refresh_pressed m) =
    Call (Get (\<lambda>s. if isBrowsed m s then refresh else act (\<lambda>s. s\<lparr>changed := Suc (changed s)\<rparr>)))"
| "files_moves h (Upload_to m d) = Change (choose_upload h m d)"
| "files_moves h (File_chosen f) = Call (upload f)"
| "files_moves h (Cancel_upload n) = Change (cancel_upload n)"
| "files_moves h (Delete_pressed target) = Change (confirmDelete h target)"
| "files_moves h Delete_confirmed = Call confirmed"
| "files_moves h Delete_declined = Change (\<lambda>s. s\<lparr>confirming := None\<rparr>)"
| "files_moves h (Search q) = Change (\<lambda>s. s\<lparr>query := q\<rparr>)"
| "files_moves h (Sort k asc) = Change (\<lambda>s. s\<lparr>sortKey := k, sortAsc := asc\<rparr>)"
| "files_moves h (Partition_owned b) = Change (\<lambda>s. s\<lparr>dataOwned := b\<rparr>)"
| "files_moves h (Files_answer i w) = Answered i w"

definition files_run :: "(string \<Rightarrow> bool) \<Rightarrow> files_event list \<Rightarrow> (files_panel, files_request, files_answer) system" where
  "files_run h es = foldl (\<lambda>x e. make_move x (files_moves h e)) (idle_system new_files_panel) es"

section \<open>A listing belongs to its folder\<close>

fun listing_from :: "files_request \<Rightarrow> files_answer \<Rightarrow> (string \<times> media_files) option set" where
  "listing_from (List_files m p) (Files code msg f) = (if code = 0 then {None, Some (location_key m p, f)} else {None})"
| "listing_from q w = {None}"

lemma listing_from_None: "None \<in> listing_from q w"
  by (cases q; cases w) auto

lemma listing_kept [simp]:
  "listing (onError m s) = listing s" "listing (forget_expanded s) = listing s" "listing (collapse d s) = listing s"
  "listing (expanded d w s) = listing s" "listing (move_to mm r p s) = listing s" "listing (begin_file_upload f t s) = listing s" "listing (end_upload n s) = listing s"
  by (simp_all add: onError_def forget_expanded_def collapse_def expanded_def begin_file_upload_def end_upload_def move_to_def
      split: files_answer.split)

lemma sets_refresh: "None \<in> A \<Longrightarrow> sets listing listing_from A refresh"
  by (auto simp: refresh_def Let_def listed_def split: files_answer.split)

lemma sets_files:
  "None \<in> A \<Longrightarrow> sets listing listing_from A (relocate m r p)" "None \<in> A \<Longrightarrow> sets listing listing_from A storage_changed"
  "sets listing listing_from A (toggleDir d)" "None \<in> A \<Longrightarrow> sets listing listing_from A (upload f)"
  "sets listing listing_from A confirmed"
  unfolding relocate_def storage_changed_def toggleDir_def upload_def upload_done_def confirmed_def Let_def
  by (auto intro!: sets_refresh sets_finally listing_from_None simp: Let_def
      split: option.split files_answer.split)

interpretation reading: traced_page "files_moves h" listing listing_from for h
proof
  fix e
  show "tracing listing listing_from (files_moves h e)"
    by (cases e) (auto intro!: exI [of _ UNIV] sets_files sets_refresh)
qed

text \<open>
  C23: However folders, uploads, deletions and answers interleave: the listing the panel keeps changes only to
  the entries of an answer, under the key of exactly the medium and folder that answer was asked for, or to
  nothing; an answer that is an error brings no entries.
\<close>

theorem listing_belongs_to_folder:
  fixes w
  assumes "i < length (jobs (files_run h es))" and "jobs (files_run h es) ! i = (q, k)"
  defines "s \<equiv> now (files_run h es)" and "u \<equiv> now (make_move (files_run h es) (files_moves h (Files_answer i w)))"
  shows "listing u = listing s \<or> listing u = None \<or>
    (\<exists>m p msg f. q = List_files m p \<and> w = Files 0 msg f \<and> listing u = Some (location_key m p, f))"
proof -
  have "listing u \<in> insert (listing s) (listing_from q w)"
    using traced_answer [OF reading.traced_run] assms by (simp add: files_run_def)
  then show ?thesis by (cases q; cases w) (auto split: if_splits)
qed

text \<open>
  The answer to a reading of a folder that is not the newest changes nothing, whether it brings entries, an
  error, or does not come.
\<close>

theorem stale_listing_ignored:
  assumes "canBrowse s" and "listingId (f u) \<noteq> Suc (listingId s)" and "u = fst (run refresh s)"
  shows "feed refresh s [(w, f)] = (f u, Finished (Inr ()))"
  using assms(1,2) unfolding assms(3) by (auto simp: refresh_def Let_def canBrowse_def)

section \<open>Uploads\<close>

text \<open>
  Whether an uploaded file makes the panel read its folder again is decided by what was shown when the
  upload began: an upload to a folder the user opens meanwhile is reported to the page only, and the
  folder is not read again.
\<close>

theorem upload_not_shown:
  fixes g f
  assumes "uploadTarget s = Some (m, d)" and "\<not> (isBrowsed m s \<and> d = path s)"
  defines "v \<equiv> g (fst (run (upload (Some f)) s))"
  shows "\<exists>u. feed (upload (Some f)) s [(Rsp 0 [], g)] = (u, Finished (Inr ())) \<and>
    listing u = listing v \<and> listingId u = listingId v \<and> changed u = Suc (changed v)"
  using assms
  by (auto simp: upload_def upload_done_def Let_def end_upload_def begin_file_upload_def)

definition sample_folder :: media_files where
  "sample_folder = \<lparr>entries_of = [\<lparr>name = ''b'', size_bytes = 1, isDir = False, modifiedAt = []\<rparr>,
    \<lparr>name = ''a'', size_bytes = 0, isDir = True, modifiedAt = []\<rparr>], free_bytes = 0, writing = False\<rparr>"

definition sample_share :: files_panel where
  "sample_share = new_files_panel\<lparr>media := Some (partition_medium, [])\<rparr>"

theorem listing_belongs_to_folder_witness:
  "length (jobs (files_run (\<lambda>_. True) [Relocate (Some (image_medium, ''a'')) [] ''/''])) = 1 \<and>
   (let u = now (make_move (files_run (\<lambda>_. True) [Relocate (Some (image_medium, ''a'')) [] ''/''])
        (files_moves (\<lambda>_. True) (Files_answer 0 (Files 0 [] sample_folder))))
    in listing u \<noteq> None \<and> (\<exists>m p msg f. List_files (image_medium, ''a'') ''/'' = List_files m p \<and>
      Files 0 [] sample_folder = Files 0 msg f \<and> listing u = Some (location_key m p, f)))"
proof -
  let ?x = "files_run (\<lambda>_. True) [Relocate (Some (image_medium, ''a'')) [] ''/'']"
  note defs = files_run_def idle_system_def new_files_panel_def relocate_def refresh_def Let_def move_to_def forget_expanded_def
    canBrowse_def begin_job_def continue_job_def listed_def
  have one: "length (jobs ?x) = 1" and first: "fst (jobs ?x ! 0) = List_files (image_medium, ''a'') ''/''"
    and before: "listing (now ?x) = None"
    and after: "listing (now (make_move ?x (files_moves (\<lambda>_. True) (Files_answer 0 (Files 0 [] sample_folder))))) \<noteq> None"
    by (simp_all add: defs)
  have job: "jobs ?x ! 0 = (List_files (image_medium, ''a'') ''/'', snd (jobs ?x ! 0))"
    using first by (metis prod.collapse)
  have "0 < length (jobs ?x)" using one by simp
  from listing_belongs_to_folder [OF this job, of "Files 0 [] sample_folder"] one before after show ?thesis
    unfolding Let_def by metis
qed

theorem stale_listing_ignored_witness:
  "canBrowse sample_share \<and> listingId (sample_share\<lparr>listingId := 7\<rparr>) \<noteq> Suc (listingId sample_share) \<and>
   feed refresh sample_share [(Files 0 [] sample_folder, \<lambda>_. sample_share\<lparr>listingId := 7\<rparr>)] =
     (sample_share\<lparr>listingId := 7\<rparr>, Finished (Inr ()))"
proof -
  have "canBrowse sample_share" and "listingId (sample_share\<lparr>listingId := 7\<rparr>) \<noteq> Suc (listingId sample_share)"
    by (simp_all add: sample_share_def new_files_panel_def canBrowse_def)
  with stale_listing_ignored [OF this refl] show ?thesis by simp
qed

text \<open>The upload goes to the shared files while an image is shown, and the shared files are opened meanwhile.\<close>

theorem upload_not_shown_witness:
  "let s = sample_share\<lparr>media := Some (image_medium, ''a''), uploadTarget := Some ((partition_medium, []), ''/'')\<rparr>;
       opened = (\<lambda>s. s\<lparr>media := Some (partition_medium, [])\<rparr>)
   in isBrowsed (partition_medium, []) (opened s) \<and>
     (\<exists>u. feed (upload (Some ''f'')) s [(Rsp 0 [], opened)] = (u, Finished (Inr ())) \<and>
       listingId u = listingId (opened (fst (run (upload (Some ''f'')) s))))"
proof -
  let ?s = "sample_share\<lparr>media := Some (image_medium, ''a''), uploadTarget := Some ((partition_medium, []), ''/'')\<rparr>"
  have target: "uploadTarget ?s = Some ((partition_medium, []), ''/'')" by simp
  have other: "\<not> (isBrowsed (partition_medium, []) ?s \<and> ''/'' = path ?s)" by (simp add: isBrowsed_def)
  have "isBrowsed (partition_medium, []) (?s\<lparr>media := Some (partition_medium, [])\<rparr>)"
    by (simp add: isBrowsed_def canBrowse_def sample_share_def new_files_panel_def)
  with upload_not_shown [OF target other] show ?thesis unfolding Let_def by blast
qed

section \<open>Sorting\<close>

text \<open>What \<^verbatim>\<open>localeCompare\<close> and every comparison made of it promise.\<close>

definition consistent_order :: "('a \<Rightarrow> 'a \<Rightarrow> int) \<Rightarrow> bool" where
  "consistent_order f \<longleftrightarrow> (\<forall>x y. f x y < 0 \<longleftrightarrow> 0 < f y x) \<and> (\<forall>x y z. f x y \<le> 0 \<longrightarrow> f y z \<le> 0 \<longrightarrow> f x z \<le> 0)"

lemma order_flip:
  assumes "consistent_order f"
  shows "f y x \<le> 0 \<longleftrightarrow> 0 \<le> f x y" and "f y x = 0 \<longleftrightarrow> f x y = 0" and "0 < f y x \<longleftrightarrow> f x y < 0"
proof -
  have "f x y < 0 \<longleftrightarrow> 0 < f y x" "f y x < 0 \<longleftrightarrow> 0 < f x y" using assms by (auto simp: consistent_order_def)
  then show "f y x \<le> 0 \<longleftrightarrow> 0 \<le> f x y" and "f y x = 0 \<longleftrightarrow> f x y = 0" and "0 < f y x \<longleftrightarrow> f x y < 0"
    by linarith+
qed

lemma order_trans: "consistent_order f \<Longrightarrow> f x y \<le> 0 \<Longrightarrow> f y z \<le> 0 \<Longrightarrow> f x z \<le> 0"
  by (auto simp: consistent_order_def)

lemma order_pull: "consistent_order f \<Longrightarrow> consistent_order (\<lambda>x y. f (h x) (h y))"
  by (auto simp: consistent_order_def)

lemma order_neg:
  assumes "consistent_order f"
  shows "consistent_order (\<lambda>x y. - f x y)"
proof -
  have "- f x z \<le> 0" if "- f x y \<le> 0" "- f y z \<le> 0" for x y z
    using that order_flip(1) [OF assms, of y x] order_flip(1) [OF assms, of z y] order_flip(1) [OF assms, of z x]
      order_trans [OF assms, of z y x] by linarith
  then show ?thesis using order_flip(3) [OF assms] by (auto simp: consistent_order_def)
qed

lemma order_then:
  assumes f: "consistent_order f" and g: "consistent_order g"
  shows "consistent_order (\<lambda>x y. if f x y = 0 then g x y else f x y)" (is "consistent_order ?h")
proof -
  have "?h x y < 0 \<longleftrightarrow> 0 < ?h y x" for x y
    using order_flip(2) [OF f, of y x] order_flip(3) [OF f, of y x] order_flip(3) [OF g, of y x] by simp
  moreover have "?h x z \<le> 0" if "?h x y \<le> 0" "?h y z \<le> 0" for x y z
  proof -
    have "f x y \<le> 0" "f y z \<le> 0" using that by (auto split: if_splits)
    then have "f x z \<le> 0" by (rule order_trans [OF f])
    moreover have "f x y = 0 \<and> f y z = 0" if "f x z = 0"
    proof -
      have "f z x \<le> 0" using that order_flip(2) [OF f, of z x] by simp
      with \<open>f x y \<le> 0\<close> \<open>f y z \<le> 0\<close> have "f z y \<le> 0" "f y x \<le> 0" using order_trans [OF f] by blast+
      then show ?thesis using \<open>f x y \<le> 0\<close> \<open>f y z \<le> 0\<close> order_flip(1) [OF f] by (metis order_antisym)
    qed
    ultimately show ?thesis using that order_trans [OF g, of x y z] by auto
  qed
  ultimately show ?thesis unfolding consistent_order_def by blast
qed

lemma order_difference: "consistent_order (\<lambda>x y. int (h x) - int (h y))"
  by (auto simp: consistent_order_def)

lemma order_entries: "consistent_order cmp \<Longrightarrow> consistent_order (compare_entries cmp key asc)"
proof -
  assume cmp: "consistent_order cmp"
  define prim where "prim = (\<lambda>(a :: file_entry) (b :: file_entry). case key of by_size \<Rightarrow> int (size_bytes a) - int (size_bytes b)
    | by_type \<Rightarrow> cmp (extension (name a)) (extension (name b)) | by_name \<Rightarrow> cmp (name a) (name b))"
  define both where "both = (\<lambda>(a :: file_entry) (b :: file_entry). if prim a b = 0 then cmp (name a) (name b) else prim a b)"
  define dirs where "dirs = (\<lambda>(a :: file_entry) (b :: file_entry). int (if isDir a then 0 else 1) - int (if isDir b then 0 else 1))"
  have "consistent_order prim"
    unfolding prim_def by (cases key) (auto intro: order_difference order_pull [OF cmp, of "\<lambda>a. extension (name a)"] order_pull [OF cmp, of name])
  then have both: "consistent_order both" unfolding both_def by (rule order_then) (rule order_pull [OF cmp, of name])
  have "consistent_order (\<lambda>a b. if asc then both a b else - both a b)"
    by (cases asc) (use both order_neg [OF both] in auto)
  moreover have "consistent_order dirs" unfolding dirs_def by (rule order_difference)
  ultimately have "consistent_order (\<lambda>a b. if dirs a b = 0 then (if asc then both a b else - both a b) else dirs a b)"
    by (rule order_then [rotated])
  moreover have "compare_entries cmp key asc = (\<lambda>a b. if dirs a b = 0 then (if asc then both a b else - both a b) else dirs a b)"
    by (intro ext) (auto simp: compare_entries_def dirs_def both_def prim_def Let_def)
  ultimately show ?thesis by simp
qed

lemma mset_js_sort: "mset (js_sort f xs) = mset xs"
proof -
  have ins: "mset (insert_entry f x ys) = add_mset x (mset ys)" for x ys by (induction ys) auto
  have "mset (foldl (\<lambda>ys x. insert_entry f x ys) ys xs) = mset ys + mset xs" for ys
    by (induction xs arbitrary: ys) (auto simp: ins)
  then show ?thesis by (simp add: js_sort_def)
qed

lemma sorted_insert:
  assumes "consistent_order f" and "sorted_wrt (\<lambda>a b. f a b \<le> 0) ys"
  shows "sorted_wrt (\<lambda>a b. f a b \<le> 0) (insert_entry f x ys)"
  using assms(2)
proof (induction ys)
  case (Cons y ys)
  have set_insert: "set (insert_entry f x ys) = insert x (set ys)" by (induction ys) auto
  show ?case
  proof (cases "f y x > 0")
    case True
    then have "f x y \<le> 0" using order_flip(3) [OF assms(1), of y x] by simp
    with True Cons.prems order_trans [OF assms(1)] show ?thesis by auto
  qed (use Cons set_insert in auto)
qed simp

lemma sorted_js_sort: "consistent_order f \<Longrightarrow> sorted_wrt (\<lambda>a b. f a b \<le> 0) (js_sort f xs)"
proof -
  assume f: "consistent_order f"
  have "sorted_wrt (\<lambda>a b. f a b \<le> 0) ys \<Longrightarrow> sorted_wrt (\<lambda>a b. f a b \<le> 0) (foldl (\<lambda>ys x. insert_entry f x ys) ys xs)" for ys
    by (induction xs arbitrary: ys) (auto intro: sorted_insert [OF f])
  then show ?thesis by (simp add: js_sort_def)
qed

text \<open>
  What the panel shows of a folder is exactly its visible entries that match the search, folders before files,
  and in the order of the comparison, whatever key and direction are chosen.
\<close>

theorem shown_entries_sorted:
  assumes "consistent_order cmp"
  shows "set (visibleEntries cmp s) =
      {e \<in> set (panel_entries s). js_includes (js_lower (name e)) (js_lower (js_trim (query s)))} \<and>
    sorted_wrt (\<lambda>a b. (isDir b \<longrightarrow> isDir a) \<and> compare_entries cmp (sortKey s) (sortAsc s) a b \<le> 0) (visibleEntries cmp s)"
proof -
  let ?es = "visibleEntries cmp s" and ?c = "compare_entries cmp (sortKey s) (sortAsc s)"
  have "js_includes x []" for x by (simp add: js_includes_def)
  then have "set ?es = {e \<in> set (panel_entries s). js_includes (js_lower (name e)) (js_lower (js_trim (query s)))}"
    by (auto simp: visibleEntries_def Let_def sortEntries_def mset_eq_setD [OF mset_js_sort])
  moreover have "sorted_wrt (\<lambda>a b. ?c a b \<le> 0) ?es"
    using sorted_js_sort [OF order_entries [OF assms]] by (simp add: visibleEntries_def Let_def sortEntries_def)
  then have "sorted_wrt (\<lambda>a b. (isDir b \<longrightarrow> isDir a) \<and> ?c a b \<le> 0) ?es"
    by (rule sorted_wrt_mono_rel [rotated]) (auto simp: compare_entries_def split: if_splits)
  ultimately show ?thesis by blast
qed

section \<open>Folders\<close>

definition plain_name :: "string \<Rightarrow> bool" where
  "plain_name n \<longleftrightarrow> n \<noteq> [] \<and> CHR ''/'' \<notin> set n"

definition path_of :: "string list \<Rightarrow> string" where
  "path_of parts = (if parts = [] then ''/'' else concat (map ((#) (CHR ''/'')) parts))"

lemma split_path: "list_all plain_name parts \<Longrightarrow> CHR ''/'' \<notin> set a \<Longrightarrow>
    split_char (CHR ''/'') (a @ concat (map ((#) (CHR ''/'')) parts)) = a # parts"
proof (induction parts arbitrary: a)
  case (Cons b parts)
  then have "split_char (CHR ''/'') (b @ concat (map ((#) (CHR ''/'')) parts)) = b # parts" by (simp add: plain_name_def)
  with Cons.prems show ?case by (simp add: split_char_append)
qed (simp add: split_char_plain)

lemma parts_path: "list_all plain_name parts \<Longrightarrow> path_parts (path_of parts) = parts"
  using split_path [of parts "[]"] by (auto simp: path_parts_def path_of_def plain_name_def list_all_iff filter_id_conv)

lemma join_path: "parts \<noteq> [] \<Longrightarrow> ''/'' @ js_join ''/'' parts = path_of parts"
  by (induction "''/''" parts rule: js_join.induct) (auto simp: path_of_def)

lemma child_path: "list_all plain_name parts \<Longrightarrow> plain_name n \<Longrightarrow> childPath (path_of parts) n = path_of (parts @ [n])"
proof -
  assume "list_all plain_name parts" "plain_name n"
  then have "path_of parts = ''/'' \<longleftrightarrow> parts = []"
    by (cases parts) (auto simp: path_of_def plain_name_def)
  then show ?thesis by (auto simp: childPath_def path_of_def)
qed

text \<open>
  Opening a folder and going up comes back to the folder it was opened from, and the crumbs of a path lead to its
  beginnings, for paths of plain names.
\<close>

theorem parent_of_child:
  assumes "list_all plain_name parts" and "plain_name n"
  shows "parentPath (childPath (path_of parts) n) = path_of parts \<and>
    (\<forall>i < length parts. crumbPath (path_of parts) i = path_of (take (Suc i) parts))"
proof -
  have "path_parts (childPath (path_of parts) n) = parts @ [n]"
    using assms child_path [OF assms] parts_path [of "parts @ [n]"] by simp
  then have "parentPath (childPath (path_of parts) n) = path_of parts"
    using join_path [of parts] by (auto simp: parentPath_def path_of_def)
  moreover have "crumbPath (path_of parts) i = path_of (take (Suc i) parts)" if "i < length parts" for i
  proof -
    have "take (Suc i) parts \<noteq> []" using that by auto
    from join_path [OF this] show ?thesis by (simp add: crumbPath_def parts_path [OF assms(1)])
  qed
  ultimately show ?thesis by blast
qed

section \<open>An order of names\<close>

text \<open>Texts by their character codes, one comparison the browser may use.\<close>

fun code_order :: "string \<Rightarrow> string \<Rightarrow> int" where
  "code_order [] [] = 0"
| "code_order [] (y # ys) = -1"
| "code_order (x # xs) [] = 1"
| "code_order (x # xs) (y # ys) = (if x = y then code_order xs ys else int (of_char x) - int (of_char y))"

lemma code_order_consistent: "consistent_order code_order"
proof -
  have "code_order x y < 0 \<longleftrightarrow> 0 < code_order y x" for x y
    by (induction x y rule: code_order.induct) auto
  moreover have "code_order x y \<le> 0 \<Longrightarrow> code_order y z \<le> 0 \<Longrightarrow> code_order x z \<le> 0" for x y z
  proof (induction x y arbitrary: z rule: code_order.induct)
    case (4 x xs y ys)
    then show ?case by (cases z) (auto split: if_splits)
  next
    case (2 y ys)
    then show ?case by (cases z) auto
  qed auto
  ultimately show ?thesis by (auto simp: consistent_order_def)
qed

definition sample_listing :: files_panel where
  "sample_listing = sample_share\<lparr>listing := Some (''partition::/'', sample_folder)\<rparr>"

theorem shown_entries_sorted_witness:
  "consistent_order code_order \<and> map name (visibleEntries code_order sample_listing) = [''a'', ''b''] \<and>
   set (visibleEntries code_order sample_listing) = {e \<in> set (panel_entries sample_listing).
     js_includes (js_lower (name e)) (js_lower (js_trim (query sample_listing)))}"
proof -
  have "map name (visibleEntries code_order sample_listing) = [''a'', ''b'']"
    by (simp add: sample_listing_def sample_share_def new_files_panel_def sample_folder_def visibleEntries_def Let_def
        panel_entries_def files_def locationKey_def location_key_def type_text_def isEntryVisible_def transferTempPrefixes_def
        isImageName_def js_lower_def js_trim_def lower_char_def sortEntries_def js_sort_def compare_entries_def suffix_def)
  with shown_entries_sorted [OF code_order_consistent, of sample_listing] show ?thesis
    using code_order_consistent by blast
qed

theorem parent_of_child_witness:
  "parentPath (childPath (path_of [''a'', ''b'']) ''c'') = path_of [''a'', ''b'']"
proof -
  have "list_all plain_name [''a'', ''b'']" and "plain_name ''c''" by (simp_all add: plain_name_def)
  from parent_of_child [OF this] show ?thesis by blast
qed

end
