(* ===== verification/Image_Transfer.thy ===== *)
theory Image_Transfer
  imports Async_System Text_Tools
begin

text \<open>
  Adding an image to the library, \<^verbatim>\<open>useAddMedia\<close> of \<^verbatim>\<open>web/src/pages/storage/use-add-media.tsx\<close>: uploading a
  file, downloading from an address, following the transfer through the status endpoint,
  cancelling and dismissing it. The server's answers, the form's validation and the browser's reading
  of an address are arguments.
\<close>

section \<open>State\<close>

datatype transfer_kind = upload_kind | download_kind
datatype transfer_state = running_t | success_t | failed_t

record transfer =
  tf_id :: nat
  tf_kind :: transfer_kind
  tf_name :: string
  tf_percentage :: string
  tf_loaded :: nat
  tf_total :: nat
  tf_state :: transfer_state
  tf_message :: string
  tf_cancellable :: bool

record task =
  t_polling :: bool
  t_seenRunning :: bool
  t_finished :: bool
  t_controller :: bool
  t_aborted :: bool

text \<open>
  A task object is named by its id and kept in \<open>tasks\<close>: a call that is suspended still changes the object
  it began with. \<open>lingering\<close> are the timers of finished transfers, \<open>reloads\<close> the ids for which the list was
  read again.
\<close>

record adder =
  current :: "nat option"
  tasks :: "nat \<Rightarrow> task"
  taskId :: nat
  transfer :: "transfer option"
  lingering :: "nat list"
  reloads :: "nat list"
  messages :: "string list"
  isUrlOpen :: bool
  isUploadOpen :: bool
  pendingFile :: "string option"
  checksum :: string
  isDragging :: bool
  dataOwned :: bool
  disposed :: bool

definition blank_task :: task where
  "blank_task = \<lparr>t_polling = False, t_seenRunning = False, t_finished = False, t_controller = False, t_aborted = False\<rparr>"

definition new_adder :: adder where
  "new_adder = \<lparr>current = None, tasks = (\<lambda>_. blank_task), taskId = 0, transfer = None, lingering = [], reloads = [],
    messages = [], isUrlOpen = False, isUploadOpen = False, pendingFile = None, checksum = [], isDragging = False,
    dataOwned = False, disposed = False\<rparr>"

definition current_task :: "adder \<Rightarrow> (nat \<times> task) option" where
  "current_task s = map_option (\<lambda>i. (i, tasks s i)) (current s)"

definition change_task :: "nat \<Rightarrow> (task \<Rightarrow> task) \<Rightarrow> adder \<Rightarrow> adder" where
  "change_task i f s = s\<lparr>tasks := (tasks s)(i := f (tasks s i))\<rparr>"

definition change_transfer :: "nat \<Rightarrow> (transfer \<Rightarrow> transfer option) \<Rightarrow> adder \<Rightarrow> adder" where
  "change_transfer i f s =
    s\<lparr>transfer := (case transfer s of None \<Rightarrow> None | Some v \<Rightarrow> if tf_id v = i then f v else Some v)\<rparr>"

definition begin_transfer :: "transfer_kind \<Rightarrow> string \<Rightarrow> adder \<Rightarrow> adder" where
  "begin_transfer k n s =
    (let i = Suc (taskId s)
     in s\<lparr>taskId := i, current := Some i, tasks := (tasks s)(i := blank_task),
          transfer := Some \<lparr>tf_id = i, tf_kind = k, tf_name = n, tf_percentage = [], tf_loaded = 0, tf_total = 0,
            tf_state = running_t, tf_message = [], tf_cancellable = True\<rparr>\<rparr>)"

datatype outcome = Succeeded | Failed_with string | Cancelled

definition finish_transfer :: "nat \<Rightarrow> outcome \<Rightarrow> adder \<Rightarrow> adder" where
  "finish_transfer i r s =
    (if current s \<noteq> Some i \<or> t_finished (tasks s i) then s
     else
       let s = change_task i (\<lambda>k. k\<lparr>t_finished := True, t_polling := False\<rparr>) s
       in case r of
            Cancelled \<Rightarrow> change_transfer i (\<lambda>_. None) s
          | Failed_with m \<Rightarrow>
              change_transfer i (\<lambda>v. Some (v\<lparr>tf_state := failed_t, tf_message := m, tf_cancellable := False\<rparr>)) s
          | Succeeded \<Rightarrow>
              (change_transfer i (\<lambda>v. Some (v\<lparr>tf_state := success_t, tf_message := [], tf_cancellable := False\<rparr>)) s)
                \<lparr>reloads := reloads s @ [i], lingering := lingering s @ [i]\<rparr>)"

definition linger_over :: "nat \<Rightarrow> adder \<Rightarrow> adder" where
  "linger_over i s =
    (if i \<in> set (lingering s) then change_transfer i (\<lambda>_. None) (s\<lparr>lingering := remove1 i (lingering s)\<rparr>) else s)"

definition dismiss :: "adder \<Rightarrow> adder" where
  "dismiss s =
    s\<lparr>transfer := (case transfer s of None \<Rightarrow> None | Some v \<Rightarrow> if tf_state v = failed_t then None else Some v)\<rparr>"

definition closeUpload :: "adder \<Rightarrow> adder" where
  "closeUpload s = s\<lparr>isUploadOpen := False, pendingFile := None, checksum := [], isDragging := False\<rparr>"

definition onDragOver :: "adder \<Rightarrow> adder" where
  "onDragOver s = (if dataOwned s then s else s\<lparr>isDragging := True\<rparr>)"

definition onDrop :: "string option \<Rightarrow> adder \<Rightarrow> adder" where
  "onDrop f s = (if dataOwned s then s\<lparr>isDragging := False\<rparr> else s\<lparr>isDragging := False, pendingFile := f\<rparr>)"

definition add_error :: "string \<Rightarrow> adder \<Rightarrow> adder" where
  "add_error m s = s\<lparr>messages := messages s @ [m]\<rparr>"

section \<open>Names\<close>

definition is_hex :: "char \<Rightarrow> bool" where
  "is_hex c \<longleftrightarrow> (let n = of_char c :: nat in 48 \<le> n \<and> n \<le> 57 \<or> 65 \<le> n \<and> n \<le> 70 \<or> 97 \<le> n \<and> n \<le> 102)"

definition sha256Pattern :: "string \<Rightarrow> bool" where
  "sha256Pattern s \<longleftrightarrow> length s = 64 \<and> list_all is_hex s"

text \<open>The browser: the path of an address, if it is one, \<^verbatim>\<open>decodeURIComponent\<close>, and the translations.\<close>

record browser =
  pathname :: "string \<Rightarrow> string option"
  decodeURI :: "string \<Rightarrow> string option"
  words :: "string \<Rightarrow> string"

definition urlBaseName :: "browser \<Rightarrow> string \<Rightarrow> string" where
  "urlBaseName b url =
    (case pathname b url of
       None \<Rightarrow> url
     | Some p \<Rightarrow>
         (case filter (\<lambda>part. part \<noteq> []) (split_char (CHR ''/'') p) of
            [] \<Rightarrow> url
          | parts \<Rightarrow> (case decodeURI b (last parts) of None \<Rightarrow> url | Some n \<Rightarrow> n)))"

definition image_name :: "string \<Rightarrow> bool" where
  "image_name n \<longleftrightarrow> suffix ''.iso'' (js_lower n) \<or> suffix ''.img'' (js_lower n)"

section \<open>Programs\<close>

record image_status =
  st_status :: string
  st_file :: string
  st_percentage :: string
  st_loaded :: nat
  st_total :: nat

datatype add_request = Status_image | Cancel_download | Upload_image string string | Download_image string string | Validate_form

datatype add_answer =
  Status_of int image_status
| Code int string
| Http bool int string
| Form string string
| No_answer

type_synonym 'a add_program = "(adder, add_request, add_answer, 'a) async"

text \<open>\<^verbatim>\<open>a || b\<close> on texts.\<close>

definition or_text :: "string \<Rightarrow> string \<Rightarrow> string" where
  "or_text a b = (if a = [] then b else a)"

definition show_progress :: "browser \<Rightarrow> image_status \<Rightarrow> transfer \<Rightarrow> transfer" where
  "show_progress b r v =
    v\<lparr>tf_name := or_text (tf_name v) (urlBaseName b (st_file r)), tf_percentage := st_percentage r,
      tf_loaded := st_loaded r, tf_total := st_total r\<rparr>"

definition follow :: "browser \<Rightarrow> image_status \<Rightarrow> adder \<Rightarrow> adder" where
  "follow b r s =
    (case current_task s of
       None \<Rightarrow> s
     | Some (i, k) \<Rightarrow>
         if \<not> t_polling k then s
         else if st_status r = ''in_progress'' then
           change_transfer i (\<lambda>v. Some (show_progress b r v)) (change_task i (\<lambda>k. k\<lparr>t_seenRunning := True\<rparr>) s)
         else if \<not> t_seenRunning k \<or> t_controller k then s
         else if st_status r = ''success'' then finish_transfer i Succeeded s
         else if st_status r = ''checksum_failed'' then finish_transfer i (Failed_with (words b ''storage.add.checksumFailed'')) s
         else if st_status r = ''failed'' then finish_transfer i (Failed_with []) s
         else if st_status r = ''idle'' then finish_transfer i Cancelled s
         else s)"

definition pick_up :: "browser \<Rightarrow> image_status \<Rightarrow> adder \<Rightarrow> adder" where
  "pick_up b r s =
    (let s = begin_transfer download_kind (urlBaseName b (st_file r)) s
     in change_task (taskId s) (\<lambda>k. k\<lparr>t_polling := True\<rparr>) s)"

definition poll :: "browser \<Rightarrow> bool \<Rightarrow> unit add_program" where
  "poll b initial = Get (\<lambda>s.
    if \<not> initial \<and> \<not> (case current_task s of None \<Rightarrow> False | Some (i, k) \<Rightarrow> t_polling k) then Return ()
    else Await Status_image (\<lambda>w. case w of
      Status_of code r \<Rightarrow> Get (\<lambda>s.
        if disposed s \<or> code \<noteq> 0 then Return ()
        else if initial then
          if st_status r \<noteq> ''in_progress'' \<or> current s \<noteq> None then Return ()
          else Modify (pick_up b r) (act (follow b r))
        else act (follow b r))
    | _ \<Rightarrow> Return ()))"

definition cancel_transfer :: "browser \<Rightarrow> unit add_program" where
  "cancel_transfer b = Get (\<lambda>s.
    case current_task s of
      None \<Rightarrow> Return ()
    | Some (i, k) \<Rightarrow>
        if t_finished k then Return ()
        else if t_controller k then
          Modify (change_task i (\<lambda>k. k\<lparr>t_aborted := True\<rparr>)) (act (finish_transfer i Cancelled))
        else Await Cancel_download (\<lambda>w. case w of
          Code code msg \<Rightarrow>
            if code \<noteq> 0 then act (add_error (or_text msg (words b ''download.cancelFailed'')))
            else act (finish_transfer i Cancelled)
        | _ \<Rightarrow> act (add_error (words b ''download.cancelFailed''))))"

definition upload_answered :: "browser \<Rightarrow> nat \<Rightarrow> add_answer \<Rightarrow> adder \<Rightarrow> adder" where
  "upload_answered b i w s =
    (case w of
       Http ok code msg \<Rightarrow>
         if \<not> ok \<or> code \<noteq> 0 then
           finish_transfer i (Failed_with
             (if msg = ''sha256 mismatch'' then words b ''storage.add.checksumFailed''
              else or_text msg (words b ''storage.add.uploadFailed''))) s
         else finish_transfer i Succeeded s
     | _ \<Rightarrow>
         if t_aborted (tasks s i) then finish_transfer i Cancelled s
         else finish_transfer i (Failed_with (words b ''storage.add.uploadFailed'')) s)"

definition begin_upload :: "string \<Rightarrow> adder \<Rightarrow> adder" where
  "begin_upload f s =
    (let s = begin_transfer upload_kind f (closeUpload s)
     in change_task (taskId s) (\<lambda>k. k\<lparr>t_controller := True, t_polling := True\<rparr>) s)"

definition uploadImage :: "browser \<Rightarrow> string option \<Rightarrow> unit add_program" where
  "uploadImage b file = (case file of
     None \<Rightarrow> Return ()
   | Some f \<Rightarrow> Get (\<lambda>s.
       if \<not> image_name f then act (add_error (words b ''storage.add.onlyImages''))
       else let sum = js_trim (checksum s)
         in if sum \<noteq> [] \<and> \<not> sha256Pattern sum then act (add_error (words b ''download.invalidSHA256''))
            else Modify (begin_upload f) (Get (\<lambda>s. let i = taskId s
              in Await (Upload_image f sum) (\<lambda>w. act (upload_answered b i w))))))"

definition download_answered :: "browser \<Rightarrow> nat \<Rightarrow> add_answer \<Rightarrow> adder \<Rightarrow> adder" where
  "download_answered b i w s =
    (case w of
       Code code msg \<Rightarrow>
         if code \<noteq> 0 then add_error (or_text msg (words b ''storage.add.downloadFailed'')) (finish_transfer i Cancelled s)
         else (change_task i (\<lambda>k. k\<lparr>t_seenRunning := True, t_polling := True\<rparr>) s)\<lparr>isUrlOpen := False\<rparr>
     | _ \<Rightarrow> add_error (words b ''storage.add.downloadFailed'') (finish_transfer i Cancelled s))"

definition downloadFromUrl :: "browser \<Rightarrow> unit add_program" where
  "downloadFromUrl b = Await Validate_form (\<lambda>w. case w of
     Form url sha \<Rightarrow> Modify (begin_transfer download_kind (urlBaseName b url)) (Get (\<lambda>s. let i = taskId s
       in Await (Download_image url sha) (\<lambda>w. act (download_answered b i w))))
   | _ \<Rightarrow> Return ())"

datatype add_event =
  Poll bool | Cancel_pressed | Upload_pressed "string option" | Download_pressed | Add_answer nat add_answer
| Linger nat | Dismiss | Close_upload | Drag_over | Drag_leave | Drop "string option" | Choose_file "string option"
| Checksum string | Open_upload | Open_url bool | Owned bool | Left

fun add_moves :: "browser \<Rightarrow> add_event \<Rightarrow> (adder, add_request, add_answer) move" where
  "add_moves b (Poll initial) = Call (poll b initial)"
| "add_moves b Cancel_pressed = Call (cancel_transfer b)"
| "add_moves b (Upload_pressed f) = Call (uploadImage b f)"
| "add_moves b Download_pressed = Call (downloadFromUrl b)"
| "add_moves b (Add_answer i w) = Answered i w"
| "add_moves b (Linger i) = Change (linger_over i)"
| "add_moves b Dismiss = Change dismiss"
| "add_moves b Close_upload = Change closeUpload"
| "add_moves b Drag_over = Change onDragOver"
| "add_moves b Drag_leave = Change (\<lambda>s. s\<lparr>isDragging := False\<rparr>)"
| "add_moves b (Drop f) = Change (onDrop f)"
| "add_moves b (Choose_file f) = Change (\<lambda>s. s\<lparr>pendingFile := f\<rparr>)"
| "add_moves b (Checksum c) = Change (\<lambda>s. s\<lparr>checksum := c\<rparr>)"
| "add_moves b Open_upload = Change (\<lambda>s. if dataOwned s then s else s\<lparr>isUploadOpen := True\<rparr>)"
| "add_moves b (Open_url v) = Change (\<lambda>s. if v \<and> dataOwned s then s else s\<lparr>isUrlOpen := v\<rparr>)"
| "add_moves b (Owned v) = Change (\<lambda>s. s\<lparr>dataOwned := v\<rparr>)"
| "add_moves b Left = Change (\<lambda>s. s\<lparr>disposed := True\<rparr>)"

definition add_run :: "browser \<Rightarrow> add_event list \<Rightarrow> (adder, add_request, add_answer) system" where
  "add_run b es = foldl (\<lambda>x e. make_move x (add_moves b e)) (idle_system new_adder) es"

section \<open>One transfer at a time\<close>

definition add_inv :: "adder \<Rightarrow> bool" where
  "add_inv s \<longleftrightarrow> current s = (if taskId s = 0 then None else Some (taskId s)) \<and>
    (\<forall>v. transfer s = Some v \<longrightarrow> tf_id v = taskId s \<and> 0 < taskId s) \<and>
    ((\<exists>v. transfer s = Some v \<and> tf_state v = running_t) \<longleftrightarrow> 0 < taskId s \<and> \<not> t_finished (tasks s (taskId s))) \<and>
    distinct (reloads s) \<and> (\<forall>i \<in> set (reloads s) \<union> set (lingering s). i \<le> taskId s \<and> t_finished (tasks s i))"

lemma add_inv_fields:
  "add_inv s \<Longrightarrow> add_inv (s\<lparr>isUrlOpen := o1\<rparr>)" "add_inv s \<Longrightarrow> add_inv (s\<lparr>isUploadOpen := o1\<rparr>)"
  "add_inv s \<Longrightarrow> add_inv (s\<lparr>pendingFile := f\<rparr>)" "add_inv s \<Longrightarrow> add_inv (s\<lparr>checksum := c\<rparr>)"
  "add_inv s \<Longrightarrow> add_inv (s\<lparr>isDragging := o1\<rparr>)" "add_inv s \<Longrightarrow> add_inv (s\<lparr>dataOwned := o1\<rparr>)"
  "add_inv s \<Longrightarrow> add_inv (s\<lparr>disposed := o1\<rparr>)" "add_inv s \<Longrightarrow> add_inv (add_error m s)" "add_inv s \<Longrightarrow> add_inv (closeUpload s)"
  by (simp_all add: add_inv_def add_error_def closeUpload_def)

lemma add_inv_begin: "add_inv s \<Longrightarrow> add_inv (begin_transfer k n s)"
  by (auto simp: add_inv_def begin_transfer_def blank_task_def Let_def le_SucI dest!: bspec)

text \<open>A task changed in anything but its end.\<close>

lemma add_inv_task: "add_inv s \<Longrightarrow> (\<And>k. t_finished (f k) = t_finished k) \<Longrightarrow> add_inv (change_task i f s)"
  by (auto simp: add_inv_def change_task_def)

lemma add_inv_show:
  "add_inv s \<Longrightarrow> (\<And>v. tf_id (f v) = tf_id v \<and> tf_state (f v) = tf_state v) \<Longrightarrow> add_inv (change_transfer i (\<lambda>v. Some (f v)) s)"
  by (auto simp: add_inv_def change_transfer_def split: option.splits)

lemma add_inv_finish: "add_inv s \<Longrightarrow> add_inv (finish_transfer i r s)"
  by (cases "transfer s"; cases r)
    (auto simp: add_inv_def finish_transfer_def change_task_def change_transfer_def Let_def split: if_splits)

lemma add_inv_linger: "add_inv s \<Longrightarrow> add_inv (linger_over i s)"
  by (cases "transfer s")
    (auto simp: add_inv_def linger_over_def change_transfer_def split: if_splits dest: set_mp [OF set_remove1_subset])

lemma add_inv_dismiss: "add_inv s \<Longrightarrow> add_inv (dismiss s)"
  by (cases "transfer s") (auto simp: add_inv_def dismiss_def)

lemma add_inv_follow: "add_inv s \<Longrightarrow> add_inv (follow b r s)"
  by (auto simp: follow_def show_progress_def intro!: add_inv_finish add_inv_show add_inv_task split: option.split)

lemma add_inv_answers:
  "add_inv s \<Longrightarrow> add_inv (upload_answered b i w s)" "add_inv s \<Longrightarrow> add_inv (download_answered b i w s)"
  "add_inv s \<Longrightarrow> add_inv (begin_upload f s)" "add_inv s \<Longrightarrow> add_inv (pick_up b r s)"
  by (auto simp: upload_answered_def download_answered_def begin_upload_def pick_up_def Let_def
      intro!: add_inv_finish add_inv_fields add_inv_task add_inv_begin split: add_answer.split)

lemma sound_adding:
  "sound add_inv (poll b initial)" "sound add_inv (cancel_transfer b)" "sound add_inv (uploadImage b f)"
  "sound add_inv (downloadFromUrl b)"
  unfolding poll_def cancel_transfer_def uploadImage_def downloadFromUrl_def Let_def
  by (auto intro!: sound_programs add_inv_finish add_inv_fields add_inv_task add_inv_begin add_inv_follow add_inv_answers
      split: option.split add_answer.split)

interpretation adding: page "add_moves b" add_inv for b
proof
  fix e
  show "keeping add_inv (add_moves b e)"
    by (cases e) (auto simp: sound_adding onDragOver_def onDrop_def
      intro!: add_inv_fields add_inv_linger add_inv_dismiss)
qed

text \<open>
  C30: However requests, polls, cancels and timers interleave, the page shows a running transfer exactly
  while its current task is not finished, the transfer shown is that of the current task, and the
  list is read again at most once for a transfer.
\<close>

theorem transfer_shown_once:
  fixes b es
  defines "s \<equiv> now (add_run b es)"
  shows "distinct (reloads s) \<and>
    ((\<exists>v. transfer s = Some v \<and> tf_state v = running_t) \<longleftrightarrow> (\<exists>i. current s = Some i \<and> \<not> t_finished (tasks s i))) \<and>
    map_option tf_id (transfer s) \<in> {None, current s}"
proof -
  have "add_inv new_adder" by (simp add: add_inv_def new_adder_def)
  from adding.run_from [OF this, of b es] show ?thesis
    by (cases "transfer s") (auto simp: add_inv_def s_def add_run_def)
qed

section \<open>Transfers that are mixed up\<close>

definition plain_browser :: browser where
  "plain_browser = \<lparr>pathname = (\<lambda>_. None), decodeURI = Some, words = id\<rparr>"

definition sample_status :: "string \<Rightarrow> image_status" where
  "sample_status st = \<lparr>st_status = st, st_file = ''a.iso'', st_percentage = [], st_loaded = 0, st_total = 0\<rparr>"

text \<open>
  The answer to a poll that was sent for an earlier transfer ends the next one: the status of the
  first, cancelled download arrives after the second was registered and is taken for its own, so
  the page reports the second as done while it runs.
\<close>

theorem stale_poll_ends_new_transfer:
  fixes x
  defines "x \<equiv> add_run plain_browser
    [Download_pressed, Add_answer 0 (Form ''u'' []), Add_answer 0 (Code 0 []), Poll False,
     Cancel_pressed, Add_answer 1 (Code 0 []),
     Download_pressed, Add_answer 1 (Form ''v'' []), Add_answer 1 (Code 0 []),
     Add_answer 0 (Status_of 0 (sample_status ''success''))]"
  shows "map_option (\<lambda>v. (tf_id v, tf_name v, tf_state v)) (transfer (now x)) = Some (2, ''v'', success_t) \<and> jobs x = []"
  by (simp add: x_def add_run_def idle_system_def new_adder_def downloadFromUrl_def begin_job_def continue_job_def Let_def
      download_answered_def poll_def cancel_transfer_def follow_def current_task_def finish_transfer_def change_task_def
      change_transfer_def begin_transfer_def blank_task_def sample_status_def plain_browser_def urlBaseName_def)

text \<open>
  A second transfer that the server refuses takes the first one off the page: the upload still runs,
  nothing shows it or can cancel it, and when it succeeds the list is not read again.
\<close>

theorem refused_transfer_hides_running:
  fixes x
  defines "x \<equiv> add_run plain_browser
    [Upload_pressed (Some ''a.iso''), Download_pressed, Add_answer 1 (Form ''u'' []), Add_answer 1 (Code 5 ''busy'')]"
  shows "map fst (jobs x) = [Upload_image ''a.iso'' []] \<and> transfer (now x) = None \<and>
    reloads (now (make_move x (add_moves plain_browser (Add_answer 0 (Http True 0 []))))) = []"
  by (simp add: x_def add_run_def idle_system_def new_adder_def downloadFromUrl_def begin_job_def continue_job_def Let_def
      uploadImage_def image_name_def js_lower_def lower_char_def js_trim_def begin_upload_def closeUpload_def
      upload_answered_def download_answered_def current_task_def finish_transfer_def change_task_def add_error_def or_text_def
      change_transfer_def begin_transfer_def blank_task_def plain_browser_def urlBaseName_def suffix_def)

end
