(* ===== verification/Json_Text.thy ===== *)
theory Json_Text
  imports Json_Value
begin

text \<open>
  \<^verbatim>\<open>JSON.stringify\<close> and \<^verbatim>\<open>JSON.parse\<close> on strings of 8-bit characters; an escape beyond them is outside
  the model and refused. The parser has fuel, twice the length of the text, which every text that is
  accepted with more fuel is accepted with; what is printed is read back as it was.
\<close>

section \<open>Printing\<close>

definition hex_low :: "nat \<Rightarrow> char" where
  "hex_low n = (if n < 10 then char_of (48 + n) else char_of (87 + n))"

definition escape_char :: "char \<Rightarrow> string" where
  "escape_char c =
    (let n = of_char c :: nat
     in if n = 34 \<or> n = 92 then [CHR 92, c]
        else if n = 8 then [CHR 92, CHR ''b''] else if n = 12 then [CHR 92, CHR ''f'']
        else if n = 10 then [CHR 92, CHR ''n''] else if n = 13 then [CHR 92, CHR ''r'']
        else if n = 9 then [CHR 92, CHR ''t'']
        else if n < 32 then CHR 92 # ''u00'' @ [hex_low (n div 16), hex_low (n mod 16)]
        else [c])"

definition print_string :: "string \<Rightarrow> string" where
  "print_string s = CHR 34 # concat (map escape_char s) @ [CHR 34]"

fun commas :: "string list \<Rightarrow> string" where
  "commas [] = []"
| "commas [x] = x"
| "commas (x # xs) = x @ '','' @ commas xs"

fun stringify :: "json \<Rightarrow> string" where
  "stringify JNull = ''null''"
| "stringify (JBool b) = (if b then ''true'' else ''false'')"
| "stringify (JNum r) = num_string r"
| "stringify (JStr s) = print_string s"
| "stringify (JArr xs) = ''['' @ commas (map stringify xs) @ '']''"
| "stringify (JObj m) = ''{'' @ commas (map (\<lambda>(k, v). print_string k @ '':'' @ stringify v) m) @ ''}''"

section \<open>Parsing\<close>

definition json_ws :: "char \<Rightarrow> bool" where
  "json_ws c \<longleftrightarrow> of_char c \<in> {9, 10, 13, 32 :: nat}"

definition skip :: "string \<Rightarrow> string" where
  "skip = dropWhile json_ws"

definition hex_value :: "char \<Rightarrow> nat option" where
  "hex_value c =
    (let n = of_char c :: nat
     in if 48 \<le> n \<and> n \<le> 57 then Some (n - 48) else if 97 \<le> n \<and> n \<le> 102 then Some (n - 87)
        else if 65 \<le> n \<and> n \<le> 70 then Some (n - 55) else None)"

text \<open>The character of an escape of one letter.\<close>

definition simple_escape :: "char \<Rightarrow> char option" where
  "simple_escape e =
    (if e \<in> {CHR 34, CHR 92, CHR ''/''} then Some e
     else if e = CHR ''b'' then Some (CHR 8) else if e = CHR ''f'' then Some (CHR 12)
     else if e = CHR ''n'' then Some (CHR 10) else if e = CHR ''r'' then Some (CHR 13)
     else if e = CHR ''t'' then Some (CHR 9) else None)"

definition unicode_escape :: "string \<Rightarrow> char option" where
  "unicode_escape h =
    (case map hex_value h of
       [Some a, Some b, Some c, Some d] \<Rightarrow>
         if a = 0 \<and> b = 0 then Some (char_of (16 * c + d)) else None
     | _ \<Rightarrow> None)"

fun parse_chars :: "string \<Rightarrow> (string \<times> string) option" where
  "parse_chars [] = None"
| "parse_chars (c # cs) =
    (if c = CHR 34 then Some ([], cs)
     else if (of_char c :: nat) < 32 then None
     else if c = CHR 92 then
       (case cs of
          [] \<Rightarrow> None
        | e # r \<Rightarrow>
            if e = CHR ''u'' then
              (case unicode_escape (take 4 r) of
                 None \<Rightarrow> None
               | Some x \<Rightarrow> map_option (\<lambda>(s, t). (x # s, t)) (parse_chars (drop 4 r)))
            else
              (case simple_escape e of
                 None \<Rightarrow> None
               | Some x \<Rightarrow> map_option (\<lambda>(s, t). (x # s, t)) (parse_chars r)))
     else map_option (\<lambda>(s, t). (c # s, t)) (parse_chars cs))"

definition fraction_of :: "string \<Rightarrow> rat" where
  "fraction_of ds = of_nat (number_of ds) / 10 ^ length ds"

text \<open>The exponent of a number, or nothing when there is none; \<open>None\<close> when it has no digits.\<close>

definition parse_exponent :: "string \<Rightarrow> (int \<times> string) option" where
  "parse_exponent s =
    (case s of
       e # r \<Rightarrow>
         if e \<in> set ''eE'' then
           (let neg = (r \<noteq> [] \<and> hd r = CHR ''-'');
                r = (if r \<noteq> [] \<and> hd r \<in> set ''+-'' then tl r else r);
                ds = takeWhile is_digit r
            in if ds = [] then None
               else Some (if neg then - int (number_of ds) else int (number_of ds), dropWhile is_digit r))
         else Some (0, s)
     | [] \<Rightarrow> Some (0, s))"

definition scale :: "rat \<Rightarrow> int \<Rightarrow> rat" where
  "scale x e = (if 0 \<le> e then x * 10 ^ nat e else x / 10 ^ nat (- e))"

definition parse_unsigned :: "string \<Rightarrow> (rat \<times> string) option" where
  "parse_unsigned s =
    (let ds = takeWhile is_digit s; r = dropWhile is_digit s
     in if ds = [] \<or> (hd ds = CHR ''0'' \<and> length ds > 1) then None
        else
          let fs = (if r \<noteq> [] \<and> hd r = CHR ''.'' then takeWhile is_digit (tl r) else []);
              bad = (r \<noteq> [] \<and> hd r = CHR ''.'' \<and> fs = []);
              r = (if r \<noteq> [] \<and> hd r = CHR ''.'' then dropWhile is_digit (tl r) else r);
              x = of_nat (number_of ds) + fraction_of fs
          in if bad then None else map_option (\<lambda>(e, t). (scale x e, t)) (parse_exponent r))"

definition parse_number :: "string \<Rightarrow> (rat \<times> string) option" where
  "parse_number s =
    (if s \<noteq> [] \<and> hd s = CHR ''-'' then map_option (\<lambda>(x, t). (- x, t)) (parse_unsigned (tl s))
     else parse_unsigned s)"

text \<open>A later property of the same name replaces the earlier one.\<close>

definition make_object :: "(string \<times> json) list \<Rightarrow> json" where
  "make_object ms = JObj (foldl (\<lambda>m (k, v). AList.update k v m) [] ms)"

definition expect :: "char \<Rightarrow> string \<Rightarrow> string option" where
  "expect c s = (case skip s of [] \<Rightarrow> None | d # r \<Rightarrow> if d = c then Some r else None)"

definition parse_atom :: "string \<Rightarrow> (json \<times> string) option" where
  "parse_atom s =
    (if prefix ''true'' s then Some (JBool True, drop 4 s)
     else if prefix ''false'' s then Some (JBool False, drop 5 s)
     else if prefix ''null'' s then Some (JNull, drop 4 s)
     else map_option (\<lambda>(x, t). (JNum x, t)) (parse_number s))"

fun parse_value :: "nat \<Rightarrow> string \<Rightarrow> (json \<times> string) option"
  and parse_elements :: "nat \<Rightarrow> string \<Rightarrow> (json list \<times> string) option"
  and parse_members :: "nat \<Rightarrow> string \<Rightarrow> ((string \<times> json) list \<times> string) option" where
  "parse_value 0 s = None"
| "parse_value (Suc n) s =
    (case skip s of
       [] \<Rightarrow> None
     | c # r \<Rightarrow>
         if c = CHR 34 then map_option (\<lambda>(x, t). (JStr x, t)) (parse_chars r)
         else if c = CHR ''['' then
           (case expect (CHR '']'') r of
              Some t \<Rightarrow> Some (JArr [], t)
            | None \<Rightarrow> map_option (\<lambda>(xs, t). (JArr xs, t)) (parse_elements n r))
         else if c = CHR ''{'' then
           (case expect (CHR ''}'') r of
              Some t \<Rightarrow> Some (JObj [], t)
            | None \<Rightarrow> map_option (\<lambda>(ms, t). (make_object ms, t)) (parse_members n r))
         else parse_atom (c # r))"
| "parse_elements 0 s = None"
| "parse_elements (Suc n) s =
    (case parse_value n s of
       None \<Rightarrow> None
     | Some (v, t) \<Rightarrow>
         (case expect (CHR '','') t of
            Some u \<Rightarrow> map_option (\<lambda>(xs, w). (v # xs, w)) (parse_elements n u)
          | None \<Rightarrow> map_option (\<lambda>u. ([v], u)) (expect (CHR '']'') t)))"
| "parse_members 0 s = None"
| "parse_members (Suc n) s =
    (case expect (CHR 34) s of
       None \<Rightarrow> None
     | Some r \<Rightarrow>
         (case parse_chars r of
            None \<Rightarrow> None
          | Some (k, t) \<Rightarrow>
              (case expect (CHR '':'') t of
                 None \<Rightarrow> None
               | Some u \<Rightarrow>
                   (case parse_value n u of
                      None \<Rightarrow> None
                    | Some (v, w) \<Rightarrow>
                        (case expect (CHR '','') w of
                           Some x \<Rightarrow> map_option (\<lambda>(ms, y). ((k, v) # ms, y)) (parse_members n x)
                         | None \<Rightarrow> map_option (\<lambda>y. ([(k, v)], y)) (expect (CHR ''}'') w))))))"

definition parse :: "string \<Rightarrow> json option" where
  "parse s =
    (case parse_value (2 * length s + 2) s of
       Some (v, t) \<Rightarrow> if skip t = [] then Some v else None
     | None \<Rightarrow> None)"

section \<open>Fuel\<close>

lemma length_skip: "length (skip s) \<le> length s"
  by (simp add: skip_def length_dropWhile_le)

lemma expect_shorter: "expect c s = Some t \<Longrightarrow> length t < length s"
  using length_skip [of s] by (auto simp: expect_def split: list.splits if_splits)

lemma parse_chars_shorter: "parse_chars s = Some (x, t) \<Longrightarrow> length t < length s"
proof (induction s arbitrary: x t rule: parse_chars.induct)
  case (2 c cs)
  then show ?case by (fastforce split: if_splits list.splits option.splits)
qed simp

lemma parse_exponent_shorter: "parse_exponent s = Some (e, t) \<Longrightarrow> length t \<le> length s"
proof (cases s)
  case (Cons c r)
  assume s: "parse_exponent s = Some (e, t)"
  have "length (dropWhile is_digit (if r \<noteq> [] \<and> hd r \<in> set ''+-'' then tl r else r)) \<le> length r"
    using length_dropWhile_le [of is_digit r] length_dropWhile_le [of is_digit "tl r"] by (cases r) auto
  with s Cons show ?thesis by (auto simp: parse_exponent_def Let_def split: if_splits)
qed (simp add: parse_exponent_def)

lemma drop_digits: "takeWhile is_digit s \<noteq> [] \<Longrightarrow> length (dropWhile is_digit s) < length s"
  by (metis add_diff_cancel_left' length_append length_greater_0_conv less_add_same_cancel2 takeWhile_dropWhile_id)

lemma parse_unsigned_shorter: "parse_unsigned s = Some (x, t) \<Longrightarrow> length t < length s"
proof -
  assume p: "parse_unsigned s = Some (x, t)"
  define u where "u = dropWhile is_digit s"
  define w where "w = (if u \<noteq> [] \<and> hd u = CHR ''.'' then dropWhile is_digit (tl u) else u)"
  have "\<exists>e. parse_exponent w = Some (e, t)" and ds: "takeWhile is_digit s \<noteq> []"
    using p unfolding parse_unsigned_def Let_def u_def [symmetric] w_def [symmetric]
    by (auto split: if_splits)
  then have "length t \<le> length w" using parse_exponent_shorter by blast
  also have "length w \<le> length u" using length_dropWhile_le [of is_digit "tl u"] by (auto simp: w_def)
  also have "length u < length s" using drop_digits [OF ds] by (simp add: u_def)
  finally show ?thesis .
qed

lemma parse_number_shorter: "parse_number s = Some (x, t) \<Longrightarrow> length t < length s"
  using parse_unsigned_shorter [of s] parse_unsigned_shorter [of "tl s"]
  by (fastforce simp: parse_number_def split: if_splits)

lemma parse_atom_shorter: "parse_atom s = Some (v, t) \<Longrightarrow> s \<noteq> [] \<Longrightarrow> length t < length s"
  using parse_number_shorter [of s] by (auto simp: parse_atom_def split: if_split_asm)

lemma skip_Cons_shorter: "skip s = c # r \<Longrightarrow> length r < length s"
  using length_skip [of s] by simp

lemma parse_shorter:
  "parse_value n s = Some (v, t) \<Longrightarrow> length t < length s"
  "parse_elements n s = Some (vs, t) \<Longrightarrow> length t < length s"
  "parse_members n s = Some (ms, t) \<Longrightarrow> length t < length s"
proof (induction n s and n s and n s arbitrary: v t and vs t and ms t
    rule: parse_value_parse_elements_parse_members.induct)
  case (2 n s)
  then obtain c r where s: "skip s = c # r" by (cases "skip s") auto
  have r: "length r < length s" using skip_Cons_shorter [OF s] .
  consider "c = CHR 34" | "c = CHR ''[''" | "c = CHR ''{''" | "c \<notin> {CHR 34, CHR ''['', CHR ''{''}" by blast
  then show ?case
  proof cases
    case 1
    with 2(3) s r parse_chars_shorter [of r] show ?thesis by auto
  next
    case 2
    with \<open>parse_value (Suc n) s = Some (v, t)\<close> s r expect_shorter [of "CHR '']''" r] "2.IH"(1) [OF s] show ?thesis
      by (auto split: option.splits)
  next
    case 3
    with \<open>parse_value (Suc n) s = Some (v, t)\<close> s r expect_shorter [of "CHR ''}''" r] "2.IH"(2) [OF s] show ?thesis
      by (auto split: option.splits)
  next
    case 4
    have "length t < length (c # r)"
      using 4 \<open>parse_value (Suc n) s = Some (v, t)\<close> s parse_atom_shorter [of "c # r"] by simp
    with r show ?thesis by simp
  qed
next
  case (4 n s)
  then show ?case using expect_shorter by (fastforce split: option.splits prod.splits)
next
  case (6 n s)
  from "6.prems" obtain r k u w v x where
    r: "expect (CHR 34) s = Some r" "parse_chars r = Some (k, u)" "expect (CHR '':'') u = Some w"
      "parse_value n w = Some (v, x)"
    by (auto split: option.splits)
  have "length x < length s"
    using expect_shorter [OF r(1)] parse_chars_shorter [OF r(2)] expect_shorter [OF r(3)]
      "6.IH"(1) [OF r(1,2) refl r(3,4)] by simp
  with "6.prems" r "6.IH"(2) [OF r(1,2) refl r(3,4) refl] expect_shorter [of _ x] show ?case
    by (cases "expect (CHR '','') x") (fastforce split: option.splits)+
qed simp_all

lemma fuel_stable:
  "(\<forall>n s. 2 * length s < m \<longrightarrow> 2 * length s < n \<longrightarrow> parse_value m s = parse_value n s) \<and>
   (\<forall>n s. 2 * length s + 1 < m \<longrightarrow> 2 * length s + 1 < n \<longrightarrow> parse_elements m s = parse_elements n s) \<and>
   (\<forall>n s. 2 * length s + 1 < m \<longrightarrow> 2 * length s + 1 < n \<longrightarrow> parse_members m s = parse_members n s)"
proof (induction m)
  case (Suc m)
  have V: "parse_value m s = parse_value n s" if "2 * length s < m" "2 * length s < n" for n s
    using Suc that by blast
  have E: "parse_elements m s = parse_elements n s" if "2 * length s + 1 < m" "2 * length s + 1 < n" for n s
    using Suc that by blast
  have M: "parse_members m s = parse_members n s" if "2 * length s + 1 < m" "2 * length s + 1 < n" for n s
    using Suc that by blast
  have "parse_value (Suc m) s = parse_value n s" if l: "2 * length s < Suc m" "2 * length s < n" for n s
  proof (cases "skip s")
    case (Cons c r)
    from l obtain k where k: "n = Suc k" by (cases n) auto
    have "2 * length r + 1 < m" "2 * length r + 1 < k" using skip_Cons_shorter [OF Cons] l k by auto
    then show ?thesis using E [of r k] M [of r k] Cons k by (simp split: option.split)
  qed (use l in \<open>cases n; simp\<close>)
  moreover have "parse_elements (Suc m) s = parse_elements n s"
    if l: "2 * length s + 1 < Suc m" "2 * length s + 1 < n" for n s
  proof -
    from l obtain k where k: "n = Suc k" by (cases n) auto
    have v: "parse_value m s = parse_value k s" by (rule V) (use l k in auto)
    have "parse_elements m u = parse_elements k u" if "parse_value k s = Some (x, t)" "expect c t = Some u" for x t c u
      using expect_shorter [OF that(2)] parse_shorter(1) [OF that(1)] l k by (intro E) auto
    with v k show ?thesis by (auto split: option.split)
  qed
  moreover have "parse_members (Suc m) s = parse_members n s"
    if l: "2 * length s + 1 < Suc m" "2 * length s + 1 < n" for n s
  proof -
    from l obtain k where k: "n = Suc k" by (cases n) auto
    have v: "parse_value m w = parse_value k w" "length w < length s"
      if "expect a s = Some r" "parse_chars r = Some (x, u)" "expect b u = Some w" for a r x u b w
      using expect_shorter [OF that(1)] parse_chars_shorter [OF that(2)] expect_shorter [OF that(3)] l k
      by (auto intro!: V)
    have "parse_members m y = parse_members k y"
      if "expect a s = Some r" "parse_chars r = Some (h, u)" "expect b u = Some w"
        "parse_value k w = Some (z, x)" "expect c x = Some y" for a r h u b w z x c y
      using parse_shorter(1) [OF that(4)] expect_shorter [OF that(5)] v(2) [OF that(1-3)] l k by (intro M) auto
    with v k show ?thesis by (auto split: option.split)
  qed
  ultimately show ?case by blast
qed simp

text \<open>More fuel than \<^const>\<open>parse\<close> takes does not change the result.\<close>

lemma parse_fuel_enough: "2 * length s + 2 \<le> n \<Longrightarrow> parse_value n s = parse_value (2 * length s + 2) s"
  by (rule fuel_stable [THEN conjunct1, rule_format]) simp_all

section \<open>What is printed is read back\<close>

fun int_json :: "json \<Rightarrow> bool" where
  "int_json (JNum r) = (of_int \<lfloor>r\<rfloor> = r)"
| "int_json (JArr xs) = list_all int_json xs"
| "int_json (JObj m) = (distinct (map fst m) \<and> list_all (\<lambda>(k, v). int_json v) m)"
| "int_json _ = True"

definition ends :: "string \<Rightarrow> bool" where
  "ends t \<longleftrightarrow> t = [] \<or> hd t \<in> {CHR '','', CHR '']'', CHR ''}''}"

lemma hex_value_low: "k < 16 \<Longrightarrow> hex_value (hex_low k) = Some k"
  by (auto simp: hex_value_def hex_low_def Let_def)

lemma unicode_read:
  assumes "n < 256"
  shows "unicode_escape [CHR ''0'', CHR ''0'', hex_low (n div 16), hex_low (n mod 16)] = Some (char_of n)"
proof -
  have "n div 16 < 16" "n mod 16 < 16" using assms by auto
  moreover have "hex_value (CHR ''0'') = Some 0" by (simp add: hex_value_def)
  ultimately show ?thesis by (simp add: unicode_escape_def hex_value_low)
qed

lemma escape_read: "parse_chars (escape_char c @ r) = map_option (\<lambda>(s, t). (c # s, t)) (parse_chars r)"
proof -
  define n where "n = (of_char c :: nat)"
  have c: "c = char_of n" and n: "n < 256" by (simp_all add: n_def)
  consider "n \<in> {8, 9, 10, 12, 13, 34, 92}" | "n < 32" "n \<notin> {8, 9, 10, 12, 13}" | "32 \<le> n" "n \<noteq> 34" "n \<noteq> 92"
    by force
  then show ?thesis
  proof cases
    case 2
    then have "escape_char c = CHR 92 # CHR ''u'' # [CHR ''0'', CHR ''0'', hex_low (n div 16), hex_low (n mod 16)]"
      by (simp add: escape_char_def Let_def n_def)
    with unicode_read [OF n] c show ?thesis by simp
  next
    case 1
    then have "c \<in> {CHR 8, CHR 9, CHR 10, CHR 12, CHR 13, CHR 34, CHR 92}"
      unfolding insert_iff empty_iff of_char_eq_iff [symmetric, where 'a = nat] by (simp add: n_def)
    then show ?thesis by (elim insertE emptyE; simp add: escape_char_def simple_escape_def)
  next
    case 3
    then have "c \<noteq> CHR 34" "c \<noteq> CHR 92" by (auto simp: n_def)
    with 3 show ?thesis by (simp add: escape_char_def n_def)
  qed
qed

lemma read_string: "parse_chars (concat (map escape_char s) @ CHR 34 # t) = Some (s, t)"
  by (induction s) (simp_all add: escape_read)

lemma leading_zero: "hd (nat_string n) = CHR ''0'' \<Longrightarrow> length (nat_string n) = 1"
proof (induction n rule: nat_string.induct)
  case (1 n)
  show ?case
  proof (cases "n < 10")
    case True
    then show ?thesis by (subst nat_string.simps) simp
  next
    case False
    then have n: "nat_string n = nat_string (n div 10) @ [digit (n mod 10)]" by (subst nat_string.simps) simp
    have "hd (nat_string (n div 10)) \<noteq> CHR ''0''"
    proof
      assume z: "hd (nat_string (n div 10)) = CHR ''0''"
      with 1 False have "length (nat_string (n div 10)) = 1" by blast
      then have "nat_string (n div 10) = ''0''" using z by (cases "nat_string (n div 10)") auto
      then have "n div 10 = 0" using number_nat_string [of "n div 10"] by (simp add: number_of_def digit_value_def)
      with False show False by simp
    qed
    with 1(2) n show ?thesis by simp
  qed
qed

lemma ends_exponent: "ends t \<Longrightarrow> parse_exponent t = Some (0, t)"
  by (cases t) (auto simp: ends_def parse_exponent_def)

lemma read_nat:
  assumes "ends t"
  shows "takeWhile is_digit (nat_string n @ t) = nat_string n" "dropWhile is_digit (nat_string n @ t) = t"
proof -
  have d: "\<And>c. c \<in> set (nat_string n) \<Longrightarrow> is_digit c" using nat_string_plain by blast
  have t: "takeWhile is_digit t = []" "dropWhile is_digit t = t"
    using assms by (cases t; auto simp: ends_def is_digit_def)+
  show "takeWhile is_digit (nat_string n @ t) = nat_string n" "dropWhile is_digit (nat_string n @ t) = t"
    using d t by (simp_all add: takeWhile_append2 dropWhile_append2)
qed

lemma hd_nat_string: "is_digit (hd (nat_string n))"
  using nat_string_plain [of "hd (nat_string n)" n] by simp

lemma read_unsigned:
  assumes "ends t"
  shows "parse_unsigned (nat_string n @ t) = Some (of_nat n, t)"
proof -
  have dot: "(t \<noteq> [] \<and> hd t = CHR ''.'') = False" using assms by (auto simp: ends_def)
  have lead: "(nat_string n = [] \<or> hd (nat_string n) = CHR ''0'' \<and> 1 < length (nat_string n)) = False"
    using leading_zero [of n] by auto
  show ?thesis
    unfolding parse_unsigned_def read_nat [OF assms] Let_def conj_assoc [symmetric] dot lead if_False
    by (simp add: ends_exponent [OF assms] scale_def number_nat_string fraction_of_def number_of_def [of "[]"])
qed

lemma read_number: "ends t \<Longrightarrow> parse_number (int_string i @ t) = Some (of_int i, t)"
proof -
  assume t: "ends t"
  have "hd (nat_string n @ t) \<noteq> CHR ''-''" for n using hd_nat_string [of n] by (auto simp: is_digit_def)
  then show ?thesis
    by (simp add: parse_number_def int_string_def read_unsigned [OF t])
qed

definition starts :: "char \<Rightarrow> bool" where
  "starts c \<longleftrightarrow> \<not> json_ws c \<and> c \<notin> {CHR '']'', CHR ''}''}"

lemma stringify_start: "\<exists>c r. stringify v = c # r \<and> starts c"
proof -
  have d: "starts c" if "is_digit c" for c using that by (auto simp: starts_def json_ws_def is_digit_def)
  have n: "\<exists>c r. nat_string k = c # r \<and> starts c" for k
    using hd_nat_string [of k] d by (cases "nat_string k") auto
  have i: "\<exists>c r. int_string k = c # r \<and> starts c" for k
    using n [of "nat k"] by (auto simp: int_string_def starts_def json_ws_def)
  have "\<exists>c r. num_string x = c # r \<and> starts c" for x
    using i [of "\<lfloor>x\<rfloor>"] n [of "nat \<lfloor>\<bar>x\<bar>\<rfloor>"] by (auto simp: num_string_def starts_def json_ws_def)
  then show ?thesis
    by (cases v) (auto simp: print_string_def starts_def json_ws_def)
qed

lemma skip_stringify: "skip (stringify v @ t) = stringify v @ t"
  using stringify_start [of v] by (auto simp: skip_def starts_def)

lemma expect_self [simp]: "\<not> json_ws c \<Longrightarrow> expect c (c # r) = Some r"
  by (simp add: expect_def skip_def)

lemma expect_other: "\<not> json_ws d \<Longrightarrow> d \<noteq> c \<Longrightarrow> expect c (d # r) = None"
  by (simp add: expect_def skip_def)

lemma not_ws [simp]: "\<not> json_ws (CHR '','')" "\<not> json_ws (CHR '']'')" "\<not> json_ws (CHR ''}'')" "\<not> json_ws (CHR '':'')"
  "\<not> json_ws (CHR 34)"
  by (simp_all add: json_ws_def)

lemma expect_start: "c \<in> {CHR '']'', CHR ''}''} \<Longrightarrow> expect c (stringify v @ t) = None"
  using stringify_start [of v] by (auto simp: expect_def skip_def starts_def)

lemma expect_print: "c \<in> {CHR '']'', CHR ''}''} \<Longrightarrow> expect c (print_string k @ t) = None"
  by (auto simp: print_string_def expect_other)

lemma ends_simps [simp]: "ends []" "ends (CHR '','' # t)" "ends (CHR '']'' # t)" "ends (CHR ''}'' # t)"
  by (simp_all add: ends_def)

lemma commas_Cons: "xs \<noteq> [] \<Longrightarrow> commas (x # xs) = x @ CHR '','' # commas xs"
  by (cases xs) auto

definition reads :: "json \<Rightarrow> bool" where
  "reads v \<longleftrightarrow> (\<forall>n t. 2 * length (stringify v) < n \<longrightarrow> ends t \<longrightarrow> parse_value n (stringify v @ t) = Some (v, t))"

lemma read_elements:
  assumes "xs \<noteq> []" "\<And>x. x \<in> set xs \<Longrightarrow> reads x" "2 * length (commas (map stringify xs)) + 1 < n"
  shows "parse_elements n (commas (map stringify xs) @ CHR '']'' # t) = Some (xs, t)"
  using assms
proof (induction xs arbitrary: n)
  case (Cons x xs)
  then obtain k where k: "n = Suc k" by (cases n) auto
  have x: "reads x" using Cons.prems by simp
  show ?case
  proof (cases "xs = []")
    case True
    with Cons.prems k have "parse_value k (stringify x @ CHR '']'' # t) = Some (x, CHR '']'' # t)"
      using x by (simp add: reads_def)
    with True k show ?thesis by (simp add: expect_other)
  next
    case False
    define r where "r = commas (map stringify xs) @ CHR '']'' # t"
    have l: "2 * length (stringify x) < k" "2 * length (commas (map stringify xs)) + 1 < k"
      using Cons.prems(3) k False by (simp_all add: commas_Cons)
    have "parse_value k (stringify x @ CHR '','' # r) = Some (x, CHR '','' # r)"
      using x l by (simp add: reads_def)
    moreover have "parse_elements k r = Some (xs, t)"
      unfolding r_def using Cons.IH [OF False] Cons.prems l by simp
    ultimately show ?thesis using False k by (simp add: commas_Cons r_def [symmetric])
  qed
qed simp

definition member_text :: "string \<times> json \<Rightarrow> string" where
  "member_text = (\<lambda>(k, v). print_string k @ '':'' @ stringify v)"

lemma member_text_pair: "member_text (k, v) = print_string k @ '':'' @ stringify v"
  by (simp add: member_text_def)

lemma read_members:
  assumes "m \<noteq> []" "\<And>k v. (k, v) \<in> set m \<Longrightarrow> reads v" "2 * length (commas (map member_text m)) + 1 < n"
  shows "parse_members n (commas (map member_text m) @ CHR ''}'' # t) = Some (m, t)"
  using assms
proof (induction m arbitrary: n)
  case (Cons kv m)
  obtain k v where kv: "kv = (k, v)" by (cases kv)
  from Cons.prems obtain j where j: "n = Suc j" by (cases n) auto
  have v: "reads v" using Cons.prems kv by auto
  have head: "parse_members (Suc j) (print_string k @ '':'' @ stringify v @ d # r) =
      (case expect (CHR '','') (d # r) of
         Some x \<Rightarrow> map_option (\<lambda>(ms, y). ((k, v) # ms, y)) (parse_members j x)
       | None \<Rightarrow> map_option (\<lambda>y. ([(k, v)], y)) (expect (CHR ''}'') (d # r)))"
    if "ends (d # r)" "2 * length (stringify v) < j" for d r
    using v that read_string [of k "CHR '':'' # stringify v @ d # r"] by (simp add: print_string_def reads_def)
  show ?case
  proof (cases "m = []")
    case True
    with Cons.prems j kv head [of "CHR ''}''" t] show ?thesis by (simp add: member_text_pair expect_other)
  next
    case False
    define r where "r = commas (map member_text m) @ CHR ''}'' # t"
    have l: "2 * length (stringify v) < j" "2 * length (commas (map member_text m)) + 1 < j"
      using Cons.prems(3) j kv False by (simp_all add: commas_Cons member_text_pair)
    have "parse_members j r = Some (m, t)"
      unfolding r_def using Cons.IH [OF False] Cons.prems l by auto
    with head [of "CHR '',''" r] l have "parse_members n (print_string k @ '':'' @ stringify v @ CHR '','' # r) =
      Some ((k, v) # m, t)" by (simp only: j) (simp add: parse_members.simps(2))
    with False kv show ?thesis by (simp add: commas_Cons member_text_pair r_def)
  qed
qed simp

lemma update_fresh: "k \<notin> fst ` set m \<Longrightarrow> AList.update k v m = m @ [(k, v)]"
  by (induction m) auto

lemma make_object_distinct: "distinct (map fst m) \<Longrightarrow> make_object m = JObj m"
proof -
  have "distinct (map fst (a @ m)) \<Longrightarrow> foldl (\<lambda>m (k, v). AList.update k v m) a m = a @ m" for a
    by (induction m arbitrary: a) (auto simp: update_fresh)
  from this [of "[]"] show "distinct (map fst m) \<Longrightarrow> make_object m = JObj m" by (simp add: make_object_def)
qed

lemma parse_value_Cons:
  "skip s = c # r \<Longrightarrow> parse_value (Suc n) s =
     (if c = CHR 34 then map_option (\<lambda>(x, t). (JStr x, t)) (parse_chars r)
      else if c = CHR ''['' then
        (case expect (CHR '']'') r of
           Some t \<Rightarrow> Some (JArr [], t)
         | None \<Rightarrow> map_option (\<lambda>(xs, t). (JArr xs, t)) (parse_elements n r))
      else if c = CHR ''{'' then
        (case expect (CHR ''}'') r of
           Some t \<Rightarrow> Some (JObj [], t)
         | None \<Rightarrow> map_option (\<lambda>(ms, t). (make_object ms, t)) (parse_members n r))
      else parse_atom (c # r))"
  by simp

lemma parse_atoms:
  "parse_atom (''true'' @ t) = Some (JBool True, t)" "parse_atom (''false'' @ t) = Some (JBool False, t)"
  "parse_atom (''null'' @ t) = Some (JNull, t)"
  by (simp_all add: parse_atom_def)

lemma parse_atom_digit:
  assumes "s \<noteq> []" "is_digit (hd s) \<or> hd s = CHR ''-''"
  shows "parse_atom s = map_option (\<lambda>(x, t). (JNum x, t)) (parse_number s)"
  using assms by (cases s) (auto simp: parse_atom_def is_digit_def)

lemma hd_int_string: "is_digit (hd (int_string i)) \<or> hd (int_string i) = CHR ''-''" "int_string i \<noteq> []"
  using hd_nat_string by (simp_all add: int_string_def)

lemma int_json_string: "int_json (JNum r) \<Longrightarrow> num_string r = int_string \<lfloor>r\<rfloor> \<and> of_int \<lfloor>r\<rfloor> = r"
  by (simp add: num_string_def)

lemma value_at:
  assumes "\<And>k. 2 * length (stringify v) < Suc k \<Longrightarrow> ends t \<Longrightarrow> parse_value (Suc k) (stringify v @ t) = Some (v, t)"
    and "2 * length (stringify v) < n" "ends t"
  shows "parse_value n (stringify v @ t) = Some (v, t)"
  using assms by (cases n) auto

lemma reads_stringify: "int_json v \<Longrightarrow> reads v"
proof (induction v)
  case (JNum r)
  obtain i where i: "num_string r = int_string i" "r = of_int i" using int_json_string [OF JNum] by metis
  obtain c w where c: "int_string i = c # w" "is_digit c \<or> c = CHR ''-''" using hd_int_string [of i] by (cases "int_string i") auto
  have "parse_value (Suc k) (stringify (JNum r) @ t) = Some (JNum r, t)" if "ends t" for k t
  proof -
    have "c \<notin> {CHR 34, CHR ''['', CHR ''{''}" using c(2) by (auto simp: is_digit_def)
    moreover have "skip (stringify (JNum r) @ t) = c # w @ t" using skip_stringify [of "JNum r" t] i c by simp
    moreover have "parse_atom (c # w @ t) = Some (JNum r, t)"
      using parse_atom_digit [of "c # w @ t"] c read_number [OF that, of i] i by simp
    ultimately show ?thesis by (simp only: parse_value_Cons) simp
  qed
  then show ?case unfolding reads_def by (blast intro: value_at)
next
  case (JArr xs)
  have "parse_value (Suc k) (stringify (JArr xs) @ t) = Some (JArr xs, t)"
    if l: "2 * length (stringify (JArr xs)) < Suc k" for k t
  proof -
    define r where "r = commas (map stringify xs) @ CHR '']'' # t"
    have sk: "skip (stringify (JArr xs) @ t) = CHR ''['' # r" using skip_stringify [of "JArr xs" t] by (simp add: r_def)
    show ?thesis
    proof (cases "xs = []")
      case False
      then obtain y ys where "xs = y # ys" by (cases xs) auto
      then have "expect (CHR '']'') r = None" using expect_start [of "CHR '']''" y]
        by (cases ys) (simp_all add: r_def)
      moreover have "parse_elements k r = Some (xs, t)"
        unfolding r_def using JArr False l by (intro read_elements) (auto simp: list_all_iff)
      ultimately show ?thesis using sk by (simp only: parse_value_Cons) simp
    qed (use sk in \<open>simp only: parse_value_Cons, simp add: r_def\<close>)
  qed
  then show ?case unfolding reads_def by (blast intro: value_at)
next
  case (JObj m)
  have "parse_value (Suc k) (stringify (JObj m) @ t) = Some (JObj m, t)"
    if l: "2 * length (stringify (JObj m)) < Suc k" for k t
  proof -
    define r where "r = commas (map member_text m) @ CHR ''}'' # t"
    have sk: "skip (stringify (JObj m) @ t) = CHR ''{'' # r"
      using skip_stringify [of "JObj m" t] by (simp add: r_def member_text_def)
    show ?thesis
    proof (cases "m = []")
      case False
      then obtain k1 v1 ys where m: "m = (k1, v1) # ys" by (cases m) auto
      then have "expect (CHR ''}'') r = None" using expect_print [of "CHR ''}''" k1]
        by (cases ys) (simp_all add: r_def member_text_pair)
      moreover have "parse_members k r = Some (m, t)"
        unfolding r_def
      proof (rule read_members [OF False])
        show "\<And>k v. (k, v) \<in> set m \<Longrightarrow> reads v" using JObj by (fastforce simp: list_all_iff)
        show "2 * length (commas (map member_text m)) + 1 < k" using l by (simp add: member_text_def)
      qed
      ultimately show ?thesis using sk JObj.prems by (simp only: parse_value_Cons) (simp add: make_object_distinct)
    qed (use sk in \<open>simp only: parse_value_Cons, simp add: r_def\<close>)
  qed
  then show ?case unfolding reads_def by (blast intro: value_at)
next
  case (JStr x)
  have "parse_value (Suc k) (stringify (JStr x) @ t) = Some (JStr x, t)" for k t
    using read_string [of x t] by (simp add: print_string_def skip_def)
  then show ?case unfolding reads_def by (blast intro: value_at)
next
  case (JBool b)
  have "parse_value (Suc k) (stringify (JBool b) @ t) = Some (JBool b, t)" for k t
    using parse_atoms by (simp add: skip_def json_ws_def)
  then show ?case unfolding reads_def by (blast intro: value_at)
next
  case JNull
  have "parse_value (Suc k) (stringify JNull @ t) = Some (JNull, t)" for k t
    using parse_atoms by (simp add: skip_def json_ws_def)
  then show ?case unfolding reads_def by (blast intro: value_at)
qed

text \<open>What \<^verbatim>\<open>JSON.stringify\<close> prints of a value with whole numbers, \<^verbatim>\<open>JSON.parse\<close> reads back.\<close>

lemma parse_stringify: "int_json v \<Longrightarrow> parse (stringify v) = Some v"
proof -
  assume "int_json v"
  then have "reads v" by (rule reads_stringify)
  then have "parse_value (2 * length (stringify v) + 2) (stringify v @ []) = Some (v, [])"
    unfolding reads_def by (metis add_2_eq_Suc' ends_simps(1) less_SucI lessI)
  then show ?thesis unfolding parse_def append_Nil2 by (simp only: option.case prod.case) (simp add: skip_def)
qed

end
