(* ===== verification/Base64.thy ===== *)
theory Base64
  imports Text_Tools
begin

text \<open>\<^verbatim>\<open>btoa\<close> and the forgiving \<^verbatim>\<open>atob\<close> of the browser on strings of 8-bit characters.\<close>

definition digit64 :: "nat \<Rightarrow> char" where
  "digit64 n =
    (if n < 26 then char_of (n + 65) else if n < 52 then char_of (n + 71)
     else if n < 62 then char_of (n - 4) else if n = 62 then CHR ''+'' else CHR ''/'')"

definition value64 :: "char \<Rightarrow> nat option" where
  "value64 c =
    (let n = of_char c :: nat
     in if 65 \<le> n \<and> n \<le> 90 then Some (n - 65) else if 97 \<le> n \<and> n \<le> 122 then Some (n - 71)
        else if 48 \<le> n \<and> n \<le> 57 then Some (n + 4) else if n = 43 then Some 62
        else if n = 47 then Some 63 else None)"

fun encode64 :: "nat list \<Rightarrow> string" where
  "encode64 [] = []"
| "encode64 [a] = [digit64 (a div 4), digit64 (a mod 4 * 16), CHR ''='', CHR ''='']"
| "encode64 [a, b] =
    [digit64 (a div 4), digit64 (a mod 4 * 16 + b div 16), digit64 (b mod 16 * 4), CHR ''='']"
| "encode64 (a # b # c # r) =
    [digit64 (a div 4), digit64 (a mod 4 * 16 + b div 16), digit64 (b mod 16 * 4 + c div 64), digit64 (c mod 64)]
      @ encode64 r"

definition btoa :: "string \<Rightarrow> string" where
  "btoa s = encode64 (map of_char s)"

fun decode64 :: "nat list \<Rightarrow> nat list option" where
  "decode64 [] = Some []"
| "decode64 [a] = None"
| "decode64 [a, b] = Some [a * 4 + b div 16]"
| "decode64 [a, b, c] = Some [a * 4 + b div 16, b mod 16 * 16 + c div 4]"
| "decode64 (a # b # c # d # r) =
    map_option ((@) [a * 4 + b div 16, b mod 16 * 16 + c div 4, c mod 4 * 64 + d]) (decode64 r)"

text \<open>Blanks are dropped, then one or two signs of padding when the length is a multiple of four.\<close>

definition unpad :: "string \<Rightarrow> string" where
  "unpad s =
    (if length s mod 4 = 0 \<and> s \<noteq> [] \<and> last s = CHR ''='' then
       (let s = butlast s in if s \<noteq> [] \<and> last s = CHR ''='' then butlast s else s)
     else s)"

fun all_values :: "nat option list \<Rightarrow> nat list option" where
  "all_values [] = Some []"
| "all_values (None # vs) = None"
| "all_values (Some v # vs) = map_option ((#) v) (all_values vs)"

definition atob :: "string \<Rightarrow> string option" where
  "atob s =
    (let s = unpad (filter (\<lambda>c. of_char c \<notin> {9, 10, 12, 13, 32 :: nat}) s)
     in case all_values (map value64 s) of
          None \<Rightarrow> None
        | Some vs \<Rightarrow> map_option (map char_of) (decode64 vs))"

section \<open>Round trip\<close>

lemma of_char_digit64:
  assumes "n < 64"
  shows "of_char (digit64 n) =
    (if n < 26 then n + 65 else if n < 52 then n + 71 else if n < 62 then n - 4 else if n = 62 then 43 else 47)"
  using assms by (simp add: digit64_def)

lemma digit64_props:
  assumes "n < 64"
  shows "value64 (digit64 n) = Some n" "digit64 n \<noteq> CHR ''=''" "of_char (digit64 n) \<notin> {9, 10, 12, 13, 32 :: nat}"
proof -
  show "value64 (digit64 n) = Some n" unfolding value64_def of_char_digit64 [OF assms] Let_def using assms by auto
  show "digit64 n \<noteq> CHR ''=''"
    unfolding of_char_eq_iff [symmetric, where 'a = nat] of_char_digit64 [OF assms] by auto
  show "of_char (digit64 n) \<notin> {9, 10, 12, 13, 32 :: nat}" unfolding of_char_digit64 [OF assms] by auto
qed

text \<open>The text without its padding, as digits.\<close>

fun sextets :: "nat list \<Rightarrow> nat list" where
  "sextets [] = []"
| "sextets [a] = [a div 4, a mod 4 * 16]"
| "sextets [a, b] = [a div 4, a mod 4 * 16 + b div 16, b mod 16 * 4]"
| "sextets (a # b # c # r) =
    [a div 4, a mod 4 * 16 + b div 16, b mod 16 * 4 + c div 64, c mod 64] @ sextets r"

lemma sextets_small: "list_all (\<lambda>b. b < 256) bs \<Longrightarrow> list_all (\<lambda>n. n < 64) (sextets bs)"
  by (induction bs rule: sextets.induct) auto

lemma decode_sextets: "list_all (\<lambda>b. b < 256) bs \<Longrightarrow> decode64 (sextets bs) = Some bs"
  by (induction bs rule: sextets.induct) auto

lemma length_encode64: "length (encode64 bs) mod 4 = 0"
  by (induction bs rule: encode64.induct) auto

lemma encode64_padding:
  "\<exists>k \<le> 2. encode64 bs = map digit64 (sextets bs) @ replicate k (CHR ''='')"
proof (induction bs rule: encode64.induct)
  case (2 a)
  show ?case by (intro exI [of _ 2]) (simp add: numeral_2_eq_2)
next
  case (3 a b)
  show ?case by (intro exI [of _ 1]) simp
next
  case (4 a b c r)
  then show ?case by auto
qed auto

lemma all_values_Some: "list_all (\<lambda>n. n < 64) ns \<Longrightarrow> all_values (map value64 (map digit64 ns)) = Some ns"
  by (induction ns) (simp_all add: digit64_props)

lemma unpad_encode:
  assumes "list_all (\<lambda>b. b < 256) bs"
  shows "unpad (encode64 bs) = map digit64 (sextets bs)"
proof -
  obtain k where k: "k \<le> 2" "encode64 bs = map digit64 (sextets bs) @ replicate k (CHR ''='')"
    using encode64_padding by blast
  have l: "last (map digit64 (sextets bs)) \<noteq> CHR ''=''" if "sextets bs \<noteq> []"
    using sextets_small [OF assms] digit64_props(2) that by (simp add: last_map list_all_iff)
  have m: "length (map digit64 (sextets bs) @ replicate k (CHR ''='')) mod 4 = 0"
    using length_encode64 [of bs] k(2) by simp
  have e: "bs = [] \<or> sextets bs \<noteq> []" by (cases bs rule: sextets.cases) auto
  consider "k = 0" | "k = 1" | "k = 2" using k(1) by linarith
  then show ?thesis
  proof cases
    case 1
    with l m k(2) show ?thesis by (auto simp: unpad_def Let_def)
  next
    case 2
    with l m k(2) show ?thesis by (auto simp: unpad_def Let_def)
  next
    case 3
    with m k(2) show ?thesis by (auto simp: unpad_def Let_def numeral_2_eq_2 butlast_append)
  qed
qed

lemma atob_btoa: "atob (btoa s) = Some s"
proof -
  define bs :: "nat list" where "bs = map of_char s"
  have small: "list_all (\<lambda>b. b < (256 :: nat)) bs" by (auto simp: bs_def list_all_iff)
  have "filter (\<lambda>c. of_char c \<notin> {9, 10, 12, 13, 32 :: nat}) (encode64 bs) = encode64 bs"
    using encode64_padding [of bs] sextets_small [OF small] digit64_props(3)
    by (auto simp: filter_id_conv list_all_iff)
  moreover have "map (char_of \<circ> of_char :: char \<Rightarrow> char) s = s" by (simp add: map_idI)
  ultimately show ?thesis
    unfolding atob_def btoa_def bs_def [symmetric] Let_def
    using all_values_Some [OF sextets_small [OF small]] decode_sextets [OF small] unpad_encode [OF small]
    by (simp add: bs_def)
qed

end
