(* ===== verification/Local_Storage.thy ===== *)
theory Local_Storage
  imports Json_Text Base64
begin

text \<open>
  The settings the page keeps in the browser: \<^verbatim>\<open>web/src/lib/localstorage.ts\<close> and, for the assistant,
  \<^verbatim>\<open>web/src/lib/picoclaw-storage.ts\<close>. A store maps keys to strings. A getter that may drop an entry
  returns the store as well; the time is an argument. An exception of a decoder is \<open>None\<close>.
\<close>

type_synonym store = "string \<Rightarrow> string option"

section \<open>Numbers as text\<close>

datatype jsnum = NaN | Infinite | Fin rat

text \<open>From here on a number rounds to infinity.\<close>

definition overflow :: rat where
  "overflow = 2 ^ 1024 - 2 ^ 970"

definition finite_num :: "rat \<Rightarrow> jsnum" where
  "finite_num x = (if overflow \<le> \<bar>x\<bar> then Infinite else Fin x)"

text \<open>An unsigned decimal literal: digits with an optional fraction and exponent, up to the end.\<close>

definition decimal_literal :: "string \<Rightarrow> jsnum" where
  "decimal_literal s =
    (let ds = takeWhile is_digit s; r = dropWhile is_digit s;
         dot = (r \<noteq> [] \<and> hd r = CHR ''.'');
         fs = (if dot then takeWhile is_digit (tl r) else []);
         r = (if dot then dropWhile is_digit (tl r) else r)
     in if ds = [] \<and> fs = [] then NaN
        else case parse_exponent r of
               Some (e, []) \<Rightarrow> finite_num (scale (of_nat (number_of ds) + fraction_of fs) e)
             | _ \<Rightarrow> NaN)"

definition radix_literal :: "nat \<Rightarrow> string \<Rightarrow> jsnum" where
  "radix_literal b s =
    (case those (map hex_value s) of
       None \<Rightarrow> NaN
     | Some vs \<Rightarrow>
         if vs = [] \<or> \<not> list_all (\<lambda>v. v < b) vs then NaN
         else finite_num (of_nat (foldl (\<lambda>n v. n * b + v) 0 vs)))"

fun negate :: "jsnum \<Rightarrow> jsnum" where
  "negate (Fin x) = Fin (- x)"
| "negate n = n"

definition js_Number :: "string \<Rightarrow> jsnum" where
  "js_Number s =
    (let t = js_trim s; p = js_lower (take 2 t)
     in if t = [] then Fin 0
        else if p = ''0x'' then radix_literal 16 (drop 2 t)
        else if p = ''0o'' then radix_literal 8 (drop 2 t)
        else if p = ''0b'' then radix_literal 2 (drop 2 t)
        else
          let u = (if hd t \<in> set ''+-'' then tl t else t);
              x = (if u = ''Infinity'' then Infinite else decimal_literal u)
          in if hd t = CHR ''-'' then negate x else x)"

fun num_truthy :: "jsnum \<Rightarrow> bool" where
  "num_truthy NaN = False"
| "num_truthy Infinite = True"
| "num_truthy (Fin x) = (x \<noteq> 0)"

section \<open>Reading\<close>

definition readItem :: "string \<Rightarrow> (string \<Rightarrow> 'a option) \<Rightarrow> store \<Rightarrow> 'a option \<times> store" where
  "readItem key decode st =
    (case st key of
       None \<Rightarrow> (None, st)
     | Some raw \<Rightarrow>
         (case decode raw of
            Some v \<Rightarrow> (Some v, st)
          | None \<Rightarrow> (None, st(key := None))))"

definition setWithExpiry :: "int \<Rightarrow> string \<Rightarrow> string \<Rightarrow> int \<Rightarrow> store \<Rightarrow> store" where
  "setWithExpiry now key v ttl st =
    st(key \<mapsto> stringify (JObj [(''value'', JStr v), (''expiry'', JNum (of_int (now + ttl)))]))"

definition expiring_item :: "string \<Rightarrow> (string \<times> rat) option" where
  "expiring_item raw =
    (case parse raw of
       None \<Rightarrow> None
     | Some p \<Rightarrow>
         (case (as_string (field ''value'' p), as_number (field ''expiry'' p)) of
            (Some v, Some e) \<Rightarrow> Some (v, e)
          | _ \<Rightarrow> None))"

definition getWithExpiry :: "int \<Rightarrow> string \<Rightarrow> store \<Rightarrow> string option \<times> store" where
  "getWithExpiry now key st =
    (case readItem key expiring_item st of
       (None, st) \<Rightarrow> (None, st)
     | (Some (v, e), st) \<Rightarrow> if of_int now > e then (None, st(key := None)) else (Some v, st))"

section \<open>Settings of the page\<close>

definition LANGUAGE_KEY :: string where "LANGUAGE_KEY = ''nano-kvm-language''"
definition VIDEO_MODE_KEY :: string where "VIDEO_MODE_KEY = ''nano-kvm-vide-mode''"
definition VIDEO_SCALE_KEY :: string where "VIDEO_SCALE_KEY = ''nano-kvm-video-scale''"
definition WEB_RESOLUTION_KEY :: string where "WEB_RESOLUTION_KEY = ''nano-kvm-web-resolution''"
definition FPS_KEY :: string where "FPS_KEY = ''nano-kvm-fps''"
definition QUALITY_KEY :: string where "QUALITY_KEY = ''nano-kvm-quality''"
definition GOP_KEY :: string where "GOP_KEY = ''nano-kvm-gop''"
definition FRAME_DETECT_KEY :: string where "FRAME_DETECT_KEY = ''nano-kvm-frame-detect''"
definition MOUSE_STYLE_KEY :: string where "MOUSE_STYLE_KEY = ''nano-kvm-mouse-style''"
definition MOUSE_MODE_KEY :: string where "MOUSE_MODE_KEY = ''nano-kvm-mouse-mode''"
definition MOUSE_SCROLL_DIRECTION_KEY :: string where "MOUSE_SCROLL_DIRECTION_KEY = ''nano-kvm-mouse-scroll-direction''"
definition MOUSE_SCROLL_INTERVAL_KEY :: string where "MOUSE_SCROLL_INTERVAL_KEY = ''nano-kvm-mouse-scroll-interval''"
definition SKIP_UPDATE_KEY :: string where "SKIP_UPDATE_KEY = ''nano-kvm-check-update''"
definition KEYBOARD_SYSTEM_KEY :: string where "KEYBOARD_SYSTEM_KEY = ''nano-kvm-keyboard-system''"
definition KEYBOARD_LANGUAGE_KEY :: string where "KEYBOARD_LANGUAGE_KEY = ''nano-kvm-keyboard-language''"
definition SKIP_MODIFY_PASSWORD_KEY :: string where "SKIP_MODIFY_PASSWORD_KEY = ''nano-kvm-skip-modify-password''"
definition MENU_DISABLED_ITEMS_KEY :: string where "MENU_DISABLED_ITEMS_KEY = ''nano-kvm-menu-disabled-items''"
definition MENU_AUTO_HIDE_KEY :: string where "MENU_AUTO_HIDE_KEY = ''nano-kvm-menu-auto-hide''"
definition KEYBOARD_LED_STATUS_VISIBLE_KEY :: string where "KEYBOARD_LED_STATUS_VISIBLE_KEY = ''nano-kvm-keyboard-led-status-visible''"
definition POWER_CONFIRM_KEY :: string where "POWER_CONFIRM_KEY = ''nano-kvm-power-confirm''"
definition ASSISTANT_FRQ_TEXT_KEY :: string where "ASSISTANT_FRQ_TEXT_KEY = ''nano-kvm-assistant-frq-text''"
definition ASSISTANT_FRQ_RECT_KEY :: string where "ASSISTANT_FRQ_RECT_KEY = ''nano-kvm-assistant-frq-rect''"

definition bool_string :: "bool \<Rightarrow> string" where
  "bool_string b = (if b then ''true'' else ''false'')"

definition getLanguage :: "store \<Rightarrow> string option" where "getLanguage st = st LANGUAGE_KEY"
definition setLanguage :: "string \<Rightarrow> store \<Rightarrow> store" where "setLanguage v st = st(LANGUAGE_KEY \<mapsto> v)"
definition getVideoMode :: "store \<Rightarrow> string option" where "getVideoMode st = st VIDEO_MODE_KEY"
definition setVideoMode :: "string \<Rightarrow> store \<Rightarrow> store" where "setVideoMode v st = st(VIDEO_MODE_KEY \<mapsto> v)"

text \<open>\<^verbatim>\<open>s && Number(s)\<close>: the number when it counts as true.\<close>

definition truthy_number :: "string option \<Rightarrow> jsnum option" where
  "truthy_number s =
    (case s of
       None \<Rightarrow> None
     | Some t \<Rightarrow> if t \<noteq> [] \<and> num_truthy (js_Number t) then Some (js_Number t) else None)"

text \<open>\<^verbatim>\<open>s ? Number(s) : null\<close>.\<close>

definition any_number :: "string option \<Rightarrow> jsnum option" where
  "any_number s = (case s of None \<Rightarrow> None | Some t \<Rightarrow> if t \<noteq> [] then Some (js_Number t) else None)"

definition getVideoScale :: "store \<Rightarrow> jsnum option" where "getVideoScale st = truthy_number (st VIDEO_SCALE_KEY)"
definition setVideoScale :: "rat \<Rightarrow> store \<Rightarrow> store" where "setVideoScale v st = st(VIDEO_SCALE_KEY \<mapsto> num_string v)"

definition resolution_of :: "string \<Rightarrow> (rat \<times> rat) option" where
  "resolution_of raw =
    (case atob raw of
       None \<Rightarrow> None
     | Some t \<Rightarrow>
         (case parse t of
            None \<Rightarrow> None
          | Some p \<Rightarrow>
              (case (as_number (field ''width'' p), as_number (field ''height'' p)) of
                 (Some w, Some h) \<Rightarrow> Some (w, h)
               | _ \<Rightarrow> None)))"

definition getResolution :: "store \<Rightarrow> (rat \<times> rat) option \<times> store" where
  "getResolution st = readItem WEB_RESOLUTION_KEY resolution_of st"

definition setResolution :: "rat \<times> rat \<Rightarrow> store \<Rightarrow> store" where
  "setResolution r st =
    st(WEB_RESOLUTION_KEY \<mapsto> btoa (stringify (JObj [(''width'', JNum (fst r)), (''height'', JNum (snd r))])))"

definition getFps :: "store \<Rightarrow> jsnum option" where "getFps st = any_number (st FPS_KEY)"
definition setFps :: "rat \<Rightarrow> store \<Rightarrow> store" where "setFps v st = st(FPS_KEY \<mapsto> num_string v)"
definition getQuality :: "store \<Rightarrow> jsnum option" where "getQuality st = any_number (st QUALITY_KEY)"
definition setQuality :: "rat \<Rightarrow> store \<Rightarrow> store" where "setQuality v st = st(QUALITY_KEY \<mapsto> num_string v)"
definition getGop :: "store \<Rightarrow> jsnum option" where "getGop st = any_number (st GOP_KEY)"
definition setGop :: "rat \<Rightarrow> store \<Rightarrow> store" where "setGop v st = st(GOP_KEY \<mapsto> num_string v)"
definition getFrameDetect :: "store \<Rightarrow> bool" where "getFrameDetect st \<longleftrightarrow> st FRAME_DETECT_KEY = Some ''true''"
definition setFrameDetect :: "bool \<Rightarrow> store \<Rightarrow> store" where "setFrameDetect v st = st(FRAME_DETECT_KEY \<mapsto> bool_string v)"
definition getMouseStyle :: "store \<Rightarrow> string option" where "getMouseStyle st = st MOUSE_STYLE_KEY"
definition setMouseStyle :: "string \<Rightarrow> store \<Rightarrow> store" where "setMouseStyle v st = st(MOUSE_STYLE_KEY \<mapsto> v)"
definition getMouseMode :: "store \<Rightarrow> string option" where "getMouseMode st = st MOUSE_MODE_KEY"
definition setMouseMode :: "string \<Rightarrow> store \<Rightarrow> store" where "setMouseMode v st = st(MOUSE_MODE_KEY \<mapsto> v)"
definition getMouseScrollDirection :: "store \<Rightarrow> jsnum option" where "getMouseScrollDirection st = truthy_number (st MOUSE_SCROLL_DIRECTION_KEY)"
definition setMouseScrollDirection :: "rat \<Rightarrow> store \<Rightarrow> store" where "setMouseScrollDirection v st = st(MOUSE_SCROLL_DIRECTION_KEY \<mapsto> num_string v)"
definition getMouseScrollInterval :: "store \<Rightarrow> jsnum option" where "getMouseScrollInterval st = any_number (st MOUSE_SCROLL_INTERVAL_KEY)"
definition setMouseScrollInterval :: "rat \<Rightarrow> store \<Rightarrow> store" where "setMouseScrollInterval v st = st(MOUSE_SCROLL_INTERVAL_KEY \<mapsto> num_string v)"

definition three_days :: int where "three_days = 3 * 24 * 60 * 60 * 1000"

definition getSkipUpdate :: "int \<Rightarrow> store \<Rightarrow> bool \<times> store" where
  "getSkipUpdate now st = (case getWithExpiry now SKIP_UPDATE_KEY st of (v, st) \<Rightarrow> (v = Some ''true'', st))"

definition setSkipUpdate :: "int \<Rightarrow> bool \<Rightarrow> store \<Rightarrow> store" where
  "setSkipUpdate now skp st = setWithExpiry now SKIP_UPDATE_KEY (bool_string skp) three_days st"

definition setKeyboardSystem :: "string \<Rightarrow> store \<Rightarrow> store" where "setKeyboardSystem v st = st(KEYBOARD_SYSTEM_KEY \<mapsto> v)"
definition getKeyboardSystem :: "store \<Rightarrow> string option" where "getKeyboardSystem st = st KEYBOARD_SYSTEM_KEY"
definition setKeyboardLanguage :: "string \<Rightarrow> store \<Rightarrow> store" where "setKeyboardLanguage v st = st(KEYBOARD_LANGUAGE_KEY \<mapsto> v)"
definition getKeyboardLanguage :: "store \<Rightarrow> string option" where "getKeyboardLanguage st = st KEYBOARD_LANGUAGE_KEY"

definition setSkipModifyPassword :: "int \<Rightarrow> bool \<Rightarrow> store \<Rightarrow> store" where
  "setSkipModifyPassword now skp st = setWithExpiry now SKIP_MODIFY_PASSWORD_KEY (bool_string skp) three_days st"

definition getSkipModifyPassword :: "int \<Rightarrow> store \<Rightarrow> bool \<times> store" where
  "getSkipModifyPassword now st =
    (case getWithExpiry now SKIP_MODIFY_PASSWORD_KEY st of (v, st) \<Rightarrow> (v = Some ''true'', st))"

definition setMenuDisabledItems :: "string list \<Rightarrow> store \<Rightarrow> store" where
  "setMenuDisabledItems items st = st(MENU_DISABLED_ITEMS_KEY \<mapsto> stringify (JArr (map JStr items)))"

definition string_array :: "string \<Rightarrow> string list option" where
  "string_array raw =
    (case parse raw of
       Some (JArr xs) \<Rightarrow> those (map (\<lambda>x. as_string (Some x)) xs)
     | _ \<Rightarrow> None)"

definition getMenuDisabledItems :: "store \<Rightarrow> string list \<times> store" where
  "getMenuDisabledItems st =
    (case readItem MENU_DISABLED_ITEMS_KEY string_array st of
       (None, st) \<Rightarrow> ([], st)
     | (Some items, st) \<Rightarrow>
         (fold js_add (map (\<lambda>i. if i = ''image'' \<or> i = ''download'' then ''storage'' else i) items) [], st))"

definition getMenuDisplayMode :: "store \<Rightarrow> string" where
  "getMenuDisplayMode st =
    (case st MENU_AUTO_HIDE_KEY of Some v \<Rightarrow> if v \<noteq> [] then v else ''auto'' | None \<Rightarrow> ''auto'')"
definition setMenuDisplayMode :: "string \<Rightarrow> store \<Rightarrow> store" where "setMenuDisplayMode v st = st(MENU_AUTO_HIDE_KEY \<mapsto> v)"
definition getKeyboardLedStatusVisible :: "store \<Rightarrow> bool" where "getKeyboardLedStatusVisible st \<longleftrightarrow> st KEYBOARD_LED_STATUS_VISIBLE_KEY \<noteq> Some ''false''"
definition setKeyboardLedStatusVisible :: "bool \<Rightarrow> store \<Rightarrow> store" where "setKeyboardLedStatusVisible v st = st(KEYBOARD_LED_STATUS_VISIBLE_KEY \<mapsto> bool_string v)"
definition getPowerConfirm :: "store \<Rightarrow> bool" where "getPowerConfirm st \<longleftrightarrow> st POWER_CONFIRM_KEY = Some ''true''"
definition setPowerConfirm :: "bool \<Rightarrow> store \<Rightarrow> store" where "setPowerConfirm v st = st(POWER_CONFIRM_KEY \<mapsto> bool_string v)"
definition getAssistantFrqText :: "store \<Rightarrow> string" where
  "getAssistantFrqText st = (case st ASSISTANT_FRQ_TEXT_KEY of Some v \<Rightarrow> v | None \<Rightarrow> [])"
definition setAssistantFrqText :: "string \<Rightarrow> store \<Rightarrow> store" where "setAssistantFrqText v st = st(ASSISTANT_FRQ_TEXT_KEY \<mapsto> v)"

text \<open>The rectangle is the parsed object itself, when its four sides are numbers.\<close>

definition getAssistantFrqRect :: "store \<Rightarrow> json option" where
  "getAssistantFrqRect st =
    (case parse (case st ASSISTANT_FRQ_RECT_KEY of Some v \<Rightarrow> if v \<noteq> [] then v else ''null'' | None \<Rightarrow> ''null'') of
       None \<Rightarrow> None
     | Some rect \<Rightarrow>
         if truthy (Some rect) \<and>
           list_all (\<lambda>k. as_number (field k rect) \<noteq> None) [''left'', ''top'', ''width'', ''height'']
         then Some rect else None)"

definition setAssistantFrqRect :: "rat \<Rightarrow> rat \<Rightarrow> rat \<Rightarrow> rat \<Rightarrow> store \<Rightarrow> store" where
  "setAssistantFrqRect l t w h st =
    st(ASSISTANT_FRQ_RECT_KEY \<mapsto>
      stringify (JObj [(''left'', JNum l), (''top'', JNum t), (''width'', JNum w), (''height'', JNum h)]))"

section \<open>Settings of the assistant\<close>

text \<open>The session store may be unavailable; keys of an earlier release are still read.\<close>

record browser_store =
  session_store :: "store option"
  local_store :: store

definition PICOCLAW_SESSION_ID_KEY :: string where "PICOCLAW_SESSION_ID_KEY = ''nano-kvm-picoclaw-session-id''"
definition LEGACY_AI_SESSION_ID_KEY :: string where "LEGACY_AI_SESSION_ID_KEY = ''nano-kvm-ai-session-id''"
definition PICOCLAW_MAX_STEPS_KEY :: string where "PICOCLAW_MAX_STEPS_KEY = ''nano-kvm-picoclaw-max-steps''"
definition LEGACY_AI_MAX_STEPS_KEY :: string where "LEGACY_AI_MAX_STEPS_KEY = ''nano-kvm-ai-max-steps''"
definition PICOCLAW_MAX_RUNTIME_KEY :: string where "PICOCLAW_MAX_RUNTIME_KEY = ''nano-kvm-picoclaw-max-runtime-ms''"
definition LEGACY_AI_MAX_RUNTIME_KEY :: string where "LEGACY_AI_MAX_RUNTIME_KEY = ''nano-kvm-ai-max-runtime-ms''"
definition PICOCLAW_RUNTIME_INSTALL_SNAPSHOT_KEY :: string where "PICOCLAW_RUNTIME_INSTALL_SNAPSHOT_KEY = ''nano-kvm-picoclaw-runtime-install-snapshot''"
definition LEGACY_AI_RUNTIME_INSTALL_SNAPSHOT_KEY :: string where "LEGACY_AI_RUNTIME_INSTALL_SNAPSHOT_KEY = ''nano-kvm-ai-runtime-install-snapshot''"

text \<open>\<^verbatim>\<open>a || b\<close> on strings that may be absent.\<close>

definition or_string :: "string option \<Rightarrow> string option \<Rightarrow> string option" where
  "or_string a b = (if a = None \<or> a = Some [] then b else a)"

definition getLocalValue :: "string \<Rightarrow> string \<Rightarrow> browser_store \<Rightarrow> string option" where
  "getLocalValue primary legacy b = or_string (local_store b primary) (local_store b legacy)"

definition setLocalValue :: "string \<Rightarrow> string \<Rightarrow> string \<Rightarrow> browser_store \<Rightarrow> browser_store" where
  "setLocalValue primary legacy v b = b\<lparr>local_store := (local_store b)(primary \<mapsto> v, legacy := None)\<rparr>"

definition removeLocalValue :: "string \<Rightarrow> string \<Rightarrow> browser_store \<Rightarrow> browser_store" where
  "removeLocalValue primary legacy b = b\<lparr>local_store := (local_store b)(primary := None, legacy := None)\<rparr>"

definition getPicoclawSessionId :: "browser_store \<Rightarrow> string option" where
  "getPicoclawSessionId b =
    or_string (or_string (Option.bind (session_store b) (\<lambda>s. s PICOCLAW_SESSION_ID_KEY))
        (Option.bind (session_store b) (\<lambda>s. s LEGACY_AI_SESSION_ID_KEY)))
      (getLocalValue PICOCLAW_SESSION_ID_KEY LEGACY_AI_SESSION_ID_KEY b)"

definition setPicoclawSessionId :: "string \<Rightarrow> browser_store \<Rightarrow> browser_store" where
  "setPicoclawSessionId sid b =
    setLocalValue PICOCLAW_SESSION_ID_KEY LEGACY_AI_SESSION_ID_KEY sid
      (b\<lparr>session_store := map_option (\<lambda>s. s(PICOCLAW_SESSION_ID_KEY \<mapsto> sid, LEGACY_AI_SESSION_ID_KEY := None))
         (session_store b)\<rparr>)"

definition clearPicoclawSessionId :: "browser_store \<Rightarrow> browser_store" where
  "clearPicoclawSessionId b =
    removeLocalValue PICOCLAW_SESSION_ID_KEY LEGACY_AI_SESSION_ID_KEY
      (b\<lparr>session_store := map_option (\<lambda>s. s(PICOCLAW_SESSION_ID_KEY := None, LEGACY_AI_SESSION_ID_KEY := None))
         (session_store b)\<rparr>)"

definition stored_number :: "string option \<Rightarrow> rat \<Rightarrow> jsnum" where
  "stored_number v d = (case v of Some t \<Rightarrow> if t \<noteq> [] then js_Number t else Fin d | None \<Rightarrow> Fin d)"

definition getPicoclawMaxSteps :: "browser_store \<Rightarrow> rat" where
  "getPicoclawMaxSteps b =
    (let parsed = stored_number (getLocalValue PICOCLAW_MAX_STEPS_KEY LEGACY_AI_MAX_STEPS_KEY b) 20
     in max 1 (min 50 (case parsed of Fin x \<Rightarrow> x | _ \<Rightarrow> 20)))"

definition setPicoclawMaxSteps :: "rat \<Rightarrow> browser_store \<Rightarrow> browser_store" where
  "setPicoclawMaxSteps n b =
    setLocalValue PICOCLAW_MAX_STEPS_KEY LEGACY_AI_MAX_STEPS_KEY
      (num_string (of_int (max 1 (min 50 (js_round n))))) b"

definition getPicoclawMaxRuntimeMs :: "browser_store \<Rightarrow> rat" where
  "getPicoclawMaxRuntimeMs b =
    (case stored_number (getLocalValue PICOCLAW_MAX_RUNTIME_KEY LEGACY_AI_MAX_RUNTIME_KEY b) 120000 of
       Fin x \<Rightarrow> if x \<le> 0 then 120000 else x
     | _ \<Rightarrow> 120000)"

definition setPicoclawMaxRuntimeMs :: "rat \<Rightarrow> browser_store \<Rightarrow> browser_store" where
  "setPicoclawMaxRuntimeMs n b =
    setLocalValue PICOCLAW_MAX_RUNTIME_KEY LEGACY_AI_MAX_RUNTIME_KEY (num_string (of_int (max 1000 (js_round n)))) b"

record install_snapshot =
  is_installing :: bool
  installProgress :: "rat option"
  installStage :: "string option"
  is_status :: "string option"

definition getPicoclawRuntimeInstallSnapshot :: "browser_store \<Rightarrow> install_snapshot option" where
  "getPicoclawRuntimeInstallSnapshot b =
    (case getLocalValue PICOCLAW_RUNTIME_INSTALL_SNAPSHOT_KEY LEGACY_AI_RUNTIME_INSTALL_SNAPSHOT_KEY b of
       None \<Rightarrow> None
     | Some v \<Rightarrow>
         if v = [] then None
         else case as_object (parse v) of
           None \<Rightarrow> None
         | Some p \<Rightarrow>
             Some \<lparr>is_installing = (field ''installing'' p = Some (JBool True)),
               installProgress = as_number (field ''installProgress'' p),
               installStage = as_string (field ''installStage'' p),
               is_status = as_string (field ''status'' p)\<rparr>)"

definition setPicoclawRuntimeInstallSnapshot :: "install_snapshot \<Rightarrow> browser_store \<Rightarrow> browser_store" where
  "setPicoclawRuntimeInstallSnapshot x b =
    setLocalValue PICOCLAW_RUNTIME_INSTALL_SNAPSHOT_KEY LEGACY_AI_RUNTIME_INSTALL_SNAPSHOT_KEY
      (stringify (object_literal
        [(''installing'', Some (JBool (is_installing x))),
         (''installProgress'', map_option JNum (installProgress x)),
         (''installStage'', map_option JStr (installStage x)), (''status'', map_option JStr (is_status x))])) b"

definition clearPicoclawRuntimeInstallSnapshot :: "browser_store \<Rightarrow> browser_store" where
  "clearPicoclawRuntimeInstallSnapshot b =
    removeLocalValue PICOCLAW_RUNTIME_INSTALL_SNAPSHOT_KEY LEGACY_AI_RUNTIME_INSTALL_SNAPSHOT_KEY b"

section \<open>Numbers read back\<close>

lemma num_string_int [simp]: "num_string (of_int i) = int_string i"
  by (simp add: num_string_def)

lemma int_string_nonempty [simp]: "int_string i \<noteq> []"
  by (simp add: int_string_def)

lemma decimal_nat:
  assumes "of_nat n < overflow"
  shows "decimal_literal (nat_string n) = Fin (of_nat n)"
proof -
  have d: "takeWhile is_digit (nat_string n) = nat_string n" "dropWhile is_digit (nat_string n) = []"
    using read_nat [of "[]" n] by simp_all
  show ?thesis
    unfolding decimal_literal_def d Let_def
    using assms by (simp add: parse_exponent_def scale_def number_nat_string fraction_of_def
        number_of_def [of "[]"] finite_num_def)
qed

lemma trim_int_string: "js_trim (int_string i) = int_string i"
proof (rule js_trim_plain)
  show "\<not> is_ws (hd (int_string i))"
    using hd_int_string(1) [of i] not_ws_digit by (auto simp: is_ws_def)
  have "last (int_string i) \<in> set (nat_string (nat \<bar>i\<bar>))" by (simp add: int_string_def)
  then show "\<not> is_ws (last (int_string i))" using nat_string_plain not_ws_digit by blast
qed simp

lemma lower_digit: "is_digit c \<Longrightarrow> lower_char c = c"
  by (auto simp: is_digit_def lower_char_def Let_def)

lemma radix_int_string: "js_lower (take 2 (int_string i)) \<notin> {''0x'', ''0o'', ''0b''}"
proof -
  have "js_lower (take 2 s) \<notin> {''0x'', ''0o'', ''0b''}" if "list_all is_digit (tl s)" for s
  proof (cases s)
    case (Cons p t)
    then show ?thesis
      using that lower_digit [of "hd t"] by (cases t) (auto simp: js_lower_def is_digit_def)
  qed (simp add: js_lower_def)
  moreover have "list_all is_digit (tl (int_string i))"
    using digits_nat_string [of "nat (- i)"] digits_nat_string [of "nat i"]
    by (cases "nat_string (nat i)") (auto simp: int_string_def)
  ultimately show ?thesis by blast
qed

lemma Number_int:
  assumes "of_int \<bar>i\<bar> < overflow"
  shows "js_Number (int_string i) = Fin (of_int i)"
proof -
  have r: "js_lower (take 2 (int_string i)) \<noteq> ''0x''" "js_lower (take 2 (int_string i)) \<noteq> ''0o''"
    "js_lower (take 2 (int_string i)) \<noteq> ''0b''" using radix_int_string [of i] by auto
  have h: "hd (nat_string n) \<notin> set ''+-''" "nat_string n \<noteq> ''Infinity''" for n
    using hd_nat_string [of n] by (auto simp: is_digit_def)
  have "of_nat (nat \<bar>i\<bar>) < overflow" using assms by simp
  then have d: "decimal_literal (nat_string (nat \<bar>i\<bar>)) = Fin (of_int \<bar>i\<bar>)" using decimal_nat by simp
  show ?thesis
  proof (cases "i < 0")
    case True
    then show ?thesis
      using r d h(2) unfolding js_Number_def trim_int_string Let_def by (simp add: int_string_def)
  next
    case False
    then show ?thesis
      using r d h [of "nat i"] unfolding js_Number_def trim_int_string Let_def by (simp add: int_string_def)
  qed
qed

lemma overflow_large: "of_int \<bar>i\<bar> < overflow" if "\<bar>i\<bar> < 10 ^ 21"
proof -
  have "(10 :: rat) ^ 21 < overflow" unfolding overflow_def by simp
  moreover have "of_int \<bar>i\<bar> < (10 :: rat) ^ 21" using that by (metis of_int_less_iff of_int_numeral of_int_power)
  ultimately show ?thesis by linarith
qed

section \<open>A setting\<close>

text \<open>Every write of the page, with the key it is for.\<close>

datatype setting_write =
  W_language string | W_video_mode string | W_video_scale rat | W_resolution "rat \<times> rat" | W_fps rat
| W_quality rat | W_gop rat | W_frame_detect bool | W_mouse_style string | W_mouse_mode string
| W_scroll_direction rat | W_scroll_interval rat | W_skip_update int bool | W_keyboard_system string
| W_keyboard_language string | W_skip_password int bool | W_menu_items "string list" | W_menu_mode string
| W_led_visible bool | W_power_confirm bool | W_frq_text string | W_frq_rect rat rat rat rat

fun key_of :: "setting_write \<Rightarrow> string" where
  "key_of (W_language v) = LANGUAGE_KEY"
| "key_of (W_video_mode v) = VIDEO_MODE_KEY"
| "key_of (W_video_scale v) = VIDEO_SCALE_KEY"
| "key_of (W_resolution v) = WEB_RESOLUTION_KEY"
| "key_of (W_fps v) = FPS_KEY"
| "key_of (W_quality v) = QUALITY_KEY"
| "key_of (W_gop v) = GOP_KEY"
| "key_of (W_frame_detect v) = FRAME_DETECT_KEY"
| "key_of (W_mouse_style v) = MOUSE_STYLE_KEY"
| "key_of (W_mouse_mode v) = MOUSE_MODE_KEY"
| "key_of (W_scroll_direction v) = MOUSE_SCROLL_DIRECTION_KEY"
| "key_of (W_scroll_interval v) = MOUSE_SCROLL_INTERVAL_KEY"
| "key_of (W_skip_update now v) = SKIP_UPDATE_KEY"
| "key_of (W_keyboard_system v) = KEYBOARD_SYSTEM_KEY"
| "key_of (W_keyboard_language v) = KEYBOARD_LANGUAGE_KEY"
| "key_of (W_skip_password now v) = SKIP_MODIFY_PASSWORD_KEY"
| "key_of (W_menu_items v) = MENU_DISABLED_ITEMS_KEY"
| "key_of (W_menu_mode v) = MENU_AUTO_HIDE_KEY"
| "key_of (W_led_visible v) = KEYBOARD_LED_STATUS_VISIBLE_KEY"
| "key_of (W_power_confirm v) = POWER_CONFIRM_KEY"
| "key_of (W_frq_text v) = ASSISTANT_FRQ_TEXT_KEY"
| "key_of (W_frq_rect l t w h) = ASSISTANT_FRQ_RECT_KEY"

fun apply_write :: "setting_write \<Rightarrow> store \<Rightarrow> store" where
  "apply_write (W_language v) st = setLanguage v st"
| "apply_write (W_video_mode v) st = setVideoMode v st"
| "apply_write (W_video_scale v) st = setVideoScale v st"
| "apply_write (W_resolution v) st = setResolution v st"
| "apply_write (W_fps v) st = setFps v st"
| "apply_write (W_quality v) st = setQuality v st"
| "apply_write (W_gop v) st = setGop v st"
| "apply_write (W_frame_detect v) st = setFrameDetect v st"
| "apply_write (W_mouse_style v) st = setMouseStyle v st"
| "apply_write (W_mouse_mode v) st = setMouseMode v st"
| "apply_write (W_scroll_direction v) st = setMouseScrollDirection v st"
| "apply_write (W_scroll_interval v) st = setMouseScrollInterval v st"
| "apply_write (W_skip_update now v) st = setSkipUpdate now v st"
| "apply_write (W_keyboard_system v) st = setKeyboardSystem v st"
| "apply_write (W_keyboard_language v) st = setKeyboardLanguage v st"
| "apply_write (W_skip_password now v) st = setSkipModifyPassword now v st"
| "apply_write (W_menu_items v) st = setMenuDisabledItems v st"
| "apply_write (W_menu_mode v) st = setMenuDisplayMode v st"
| "apply_write (W_led_visible v) st = setKeyboardLedStatusVisible v st"
| "apply_write (W_power_confirm v) st = setPowerConfirm v st"
| "apply_write (W_frq_text v) st = setAssistantFrqText v st"
| "apply_write (W_frq_rect l t w h) st = setAssistantFrqRect l t w h st"

lemmas setter_defs = setLanguage_def setVideoMode_def setVideoScale_def setResolution_def setFps_def setQuality_def
  setGop_def setFrameDetect_def setMouseStyle_def setMouseMode_def setMouseScrollDirection_def
  setMouseScrollInterval_def setSkipUpdate_def setKeyboardSystem_def setKeyboardLanguage_def
  setSkipModifyPassword_def setMenuDisabledItems_def setMenuDisplayMode_def setKeyboardLedStatusVisible_def
  setPowerConfirm_def setAssistantFrqText_def setAssistantFrqRect_def setWithExpiry_def

lemma write_frame: "k \<noteq> key_of w \<Longrightarrow> apply_write w st k = st k"
  by (cases w) (simp_all add: setter_defs)

lemma writes_frame: "k \<notin> key_of ` set ws \<Longrightarrow> fold apply_write ws st k = st k"
  by (induction ws arbitrary: st) (auto simp: write_frame)

text \<open>
  What the page may rely on of a setting: a getter that looks at one key only and, after the setter
  of that key, sees the value that was set.
\<close>

locale setting =
  fixes key :: string
    and put :: "'a \<Rightarrow> store \<Rightarrow> store"
    and get :: "store \<Rightarrow> 'b"
    and ok :: "'a \<Rightarrow> bool"
    and shown :: "'a \<Rightarrow> 'b"
  assumes get_put: "ok v \<Longrightarrow> get (put v st) = shown v"
    and get_key: "st key = st' key \<Longrightarrow> get st = get st'"
begin

lemma get_after_writes:
  "ok v \<Longrightarrow> key \<notin> key_of ` set ws \<Longrightarrow> get (fold apply_write ws (put v st)) = shown v"
proof -
  assume v: "ok v" and "key \<notin> key_of ` set ws"
  then have "fold apply_write ws (put v st) key = put v st key" by (simp add: writes_frame)
  then have "get (fold apply_write ws (put v st)) = get (put v st)" by (rule get_key)
  then show ?thesis by (simp add: get_put [OF v])
qed

end

definition whole :: "rat \<Rightarrow> bool" where
  "whole x \<longleftrightarrow> (\<exists>i. x = of_int i \<and> \<bar>i\<bar> < 10 ^ 21)"

lemma whole_number: "whole x \<Longrightarrow> js_Number (num_string x) = Fin x" "whole x \<Longrightarrow> num_string x \<noteq> []"
  using Number_int overflow_large by (auto simp: whole_def)

interpretation language: setting LANGUAGE_KEY setLanguage getLanguage "\<lambda>_. True" Some
  by unfold_locales (simp_all add: setLanguage_def getLanguage_def)

interpretation video_mode: setting VIDEO_MODE_KEY setVideoMode getVideoMode "\<lambda>_. True" Some
  by unfold_locales (simp_all add: setVideoMode_def getVideoMode_def)

interpretation video_scale: setting VIDEO_SCALE_KEY setVideoScale getVideoScale
  whole "\<lambda>x. if x = 0 then None else Some (Fin x)"
  by unfold_locales (simp_all add: setVideoScale_def getVideoScale_def truthy_number_def whole_number)

interpretation fps: setting FPS_KEY setFps getFps whole "\<lambda>x. Some (Fin x)"
  by unfold_locales (simp_all add: setFps_def getFps_def any_number_def whole_number)

interpretation quality: setting QUALITY_KEY setQuality getQuality whole "\<lambda>x. Some (Fin x)"
  by unfold_locales (simp_all add: setQuality_def getQuality_def any_number_def whole_number)

interpretation gop: setting GOP_KEY setGop getGop whole "\<lambda>x. Some (Fin x)"
  by unfold_locales (simp_all add: setGop_def getGop_def any_number_def whole_number)

interpretation frame_detect: setting FRAME_DETECT_KEY setFrameDetect getFrameDetect "\<lambda>_. True" "\<lambda>b. b"
  by unfold_locales (auto simp: setFrameDetect_def getFrameDetect_def bool_string_def)

interpretation mouse_style: setting MOUSE_STYLE_KEY setMouseStyle getMouseStyle "\<lambda>_. True" Some
  by unfold_locales (simp_all add: setMouseStyle_def getMouseStyle_def)

interpretation mouse_mode: setting MOUSE_MODE_KEY setMouseMode getMouseMode "\<lambda>_. True" Some
  by unfold_locales (simp_all add: setMouseMode_def getMouseMode_def)

interpretation scroll_direction: setting MOUSE_SCROLL_DIRECTION_KEY setMouseScrollDirection getMouseScrollDirection
  whole "\<lambda>x. if x = 0 then None else Some (Fin x)"
  by unfold_locales (simp_all add: setMouseScrollDirection_def getMouseScrollDirection_def truthy_number_def whole_number)

interpretation scroll_interval: setting MOUSE_SCROLL_INTERVAL_KEY setMouseScrollInterval getMouseScrollInterval
  whole "\<lambda>x. Some (Fin x)"
  by unfold_locales (simp_all add: setMouseScrollInterval_def getMouseScrollInterval_def any_number_def whole_number)

interpretation keyboard_system: setting KEYBOARD_SYSTEM_KEY setKeyboardSystem getKeyboardSystem "\<lambda>_. True" Some
  by unfold_locales (simp_all add: setKeyboardSystem_def getKeyboardSystem_def)

interpretation keyboard_language: setting KEYBOARD_LANGUAGE_KEY setKeyboardLanguage getKeyboardLanguage "\<lambda>_. True" Some
  by unfold_locales (simp_all add: setKeyboardLanguage_def getKeyboardLanguage_def)

interpretation menu_mode: setting MENU_AUTO_HIDE_KEY setMenuDisplayMode getMenuDisplayMode "\<lambda>_. True"
  "\<lambda>v. if v = [] then ''auto'' else v"
  by unfold_locales (simp_all add: setMenuDisplayMode_def getMenuDisplayMode_def)

interpretation led_visible: setting KEYBOARD_LED_STATUS_VISIBLE_KEY setKeyboardLedStatusVisible
  getKeyboardLedStatusVisible "\<lambda>_. True" "\<lambda>b. b"
  by unfold_locales (auto simp: setKeyboardLedStatusVisible_def getKeyboardLedStatusVisible_def bool_string_def)

interpretation power_confirm: setting POWER_CONFIRM_KEY setPowerConfirm getPowerConfirm "\<lambda>_. True" "\<lambda>b. b"
  by unfold_locales (auto simp: setPowerConfirm_def getPowerConfirm_def bool_string_def)

interpretation frq_text: setting ASSISTANT_FRQ_TEXT_KEY setAssistantFrqText getAssistantFrqText "\<lambda>_. True" "\<lambda>v. v"
  by unfold_locales (simp_all add: setAssistantFrqText_def getAssistantFrqText_def)

lemma readItem_key: "st key = st' key \<Longrightarrow> fst (readItem key d st) = fst (readItem key d st')"
  by (simp add: readItem_def split: option.split)

interpretation resolution: setting WEB_RESOLUTION_KEY setResolution "\<lambda>st. fst (getResolution st)"
  "\<lambda>(w, h). whole w \<and> whole h" Some
proof
  show "fst (getResolution st) = fst (getResolution st')" if "st WEB_RESOLUTION_KEY = st' WEB_RESOLUTION_KEY" for st st' :: store
    unfolding getResolution_def by (rule readItem_key) (rule that)
  fix v :: "rat \<times> rat" and st
  assume v: "case v of (w, h) \<Rightarrow> whole w \<and> whole h"
  obtain w h where "v = (w, h)" by (cases v)
  then have "int_json (JObj [(''width'', JNum (fst v)), (''height'', JNum (snd v))])"
    using v by (auto simp: whole_def)
  from parse_stringify [OF this] show "fst (getResolution (setResolution v st)) = Some v"
    by (simp add: getResolution_def setResolution_def readItem_def resolution_of_def atob_btoa del: stringify.simps)
qed

lemma those_strings: "those (map (\<lambda>x. as_string (Some x)) (map JStr xs)) = Some xs"
  by (induction xs) simp_all

definition menu_shown :: "string list \<Rightarrow> string list" where
  "menu_shown items = fold js_add (map (\<lambda>i. if i = ''image'' \<or> i = ''download'' then ''storage'' else i) items) []"

interpretation menu_items: setting MENU_DISABLED_ITEMS_KEY setMenuDisabledItems "\<lambda>st. fst (getMenuDisabledItems st)"
  "\<lambda>_. True" menu_shown
proof
  show "fst (getMenuDisabledItems st) = fst (getMenuDisabledItems st')"
    if "st MENU_DISABLED_ITEMS_KEY = st' MENU_DISABLED_ITEMS_KEY" for st st' :: store
    using that by (simp add: getMenuDisabledItems_def readItem_def split: option.split)
  fix v :: "string list" and st
  have "parse (stringify (JArr (map JStr v))) = Some (JArr (map JStr v))"
    by (rule parse_stringify) (simp add: list_all_iff)
  then have "string_array (stringify (JArr (map JStr v))) = Some v"
    unfolding string_array_def using those_strings [of v] by simp
  then show "fst (getMenuDisabledItems (setMenuDisabledItems v st)) = menu_shown v"
    by (simp add: getMenuDisabledItems_def setMenuDisabledItems_def readItem_def menu_shown_def del: stringify.simps)
qed

lemma expiring_stringify:
  "expiring_item (stringify (JObj [(''value'', JStr v), (''expiry'', JNum (of_int t))])) = Some (v, of_int t)"
proof -
  have "parse (stringify (JObj [(''value'', JStr v), (''expiry'', JNum (of_int t))])) =
    Some (JObj [(''value'', JStr v), (''expiry'', JNum (of_int t))])"
    by (rule parse_stringify) simp
  then show ?thesis unfolding expiring_item_def by simp
qed

lemma getWithExpiry_set:
  "fst (getWithExpiry t key (setWithExpiry now key v ttl st)) = (if t > now + ttl then None else Some v)"
  unfolding getWithExpiry_def setWithExpiry_def readItem_def fun_upd_same option.case expiring_stringify prod.case
  by (simp del: of_int_add)

lemma getWithExpiry_key:
  "st key = st' key \<Longrightarrow> fst (getWithExpiry t key st) = fst (getWithExpiry t key st')"
  by (simp add: getWithExpiry_def readItem_def split: option.split prod.split)

interpretation skip_update: setting SKIP_UPDATE_KEY "setSkipUpdate now" "\<lambda>st. fst (getSkipUpdate t st)"
  "\<lambda>_. True" "\<lambda>b. b \<and> t \<le> now + three_days" for now t
proof
  show "fst (getSkipUpdate t st) = fst (getSkipUpdate t st')" if "st SKIP_UPDATE_KEY = st' SKIP_UPDATE_KEY" for st st' :: store
    using getWithExpiry_key [of st SKIP_UPDATE_KEY st' t] that by (simp add: getSkipUpdate_def split_beta)
  show "fst (getSkipUpdate t (setSkipUpdate now b st)) = (b \<and> t \<le> now + three_days)" for b st
    by (auto simp: getSkipUpdate_def setSkipUpdate_def split_beta getWithExpiry_set bool_string_def)
qed

interpretation skip_password: setting SKIP_MODIFY_PASSWORD_KEY "setSkipModifyPassword now"
  "\<lambda>st. fst (getSkipModifyPassword t st)" "\<lambda>_. True" "\<lambda>b. b \<and> t \<le> now + three_days" for now t
proof
  show "fst (getSkipModifyPassword t st) = fst (getSkipModifyPassword t st')"
    if "st SKIP_MODIFY_PASSWORD_KEY = st' SKIP_MODIFY_PASSWORD_KEY" for st st' :: store
    using getWithExpiry_key [of st SKIP_MODIFY_PASSWORD_KEY st' t] that by (simp add: getSkipModifyPassword_def split_beta)
  show "fst (getSkipModifyPassword t (setSkipModifyPassword now b st)) = (b \<and> t \<le> now + three_days)" for b st
    by (auto simp: getSkipModifyPassword_def setSkipModifyPassword_def split_beta getWithExpiry_set bool_string_def)
qed

interpretation frq_rect: setting ASSISTANT_FRQ_RECT_KEY "\<lambda>(l, t, w, h). setAssistantFrqRect l t w h" getAssistantFrqRect
  "\<lambda>(l, t, w, h). whole l \<and> whole t \<and> whole w \<and> whole h"
  "\<lambda>(l, t, w, h). Some (JObj [(''left'', JNum l), (''top'', JNum t), (''width'', JNum w), (''height'', JNum h)])"
proof
  show "getAssistantFrqRect st = getAssistantFrqRect st'"
    if "st ASSISTANT_FRQ_RECT_KEY = st' ASSISTANT_FRQ_RECT_KEY" for st st' :: store
    using that by (simp add: getAssistantFrqRect_def)
  fix v :: "rat \<times> rat \<times> rat \<times> rat" and st
  assume v: "case v of (l, t, w, h) \<Rightarrow> whole l \<and> whole t \<and> whole w \<and> whole h"
  obtain l t w h where lt: "v = (l, t, w, h)" by (cases v)
  let ?r = "JObj [(''left'', JNum l), (''top'', JNum t), (''width'', JNum w), (''height'', JNum h)]"
  have "int_json ?r" using v lt by (auto simp: whole_def)
  from parse_stringify [OF this] have "parse (stringify ?r) = Some ?r" .
  moreover have "stringify ?r \<noteq> []" by simp
  ultimately show "getAssistantFrqRect ((case v of (l, t, w, h) \<Rightarrow> setAssistantFrqRect l t w h) st) =
    (case v of (l, t, w, h) \<Rightarrow> Some (JObj [(''left'', JNum l), (''top'', JNum t), (''width'', JNum w), (''height'', JNum h)]))"
    unfolding lt prod.case getAssistantFrqRect_def setAssistantFrqRect_def by (simp del: stringify.simps)
qed

section \<open>Properties\<close>

text \<open>
  What a reader at time \<open>t\<close> may expect of the last write to each of the 22 settings. Texts, flags and
  numbers are as written, but for three settings: a scale or scroll direction of zero reads as unset,
  an empty menu mode as automatic. The hidden menu items are each listed once, with \<^verbatim>\<open>image\<close> and
  \<^verbatim>\<open>download\<close> under their new name. A skipped reminder is skipped for three days.
\<close>

definition renamed_item :: "string \<Rightarrow> string" where
  "renamed_item i = (if i \<in> {''image'', ''download''} then ''storage'' else i)"

fun reads_back :: "int \<Rightarrow> setting_write \<Rightarrow> store \<Rightarrow> bool" where
  "reads_back t (W_language v) st \<longleftrightarrow> getLanguage st = Some v"
| "reads_back t (W_video_mode v) st \<longleftrightarrow> getVideoMode st = Some v"
| "reads_back t (W_video_scale v) st \<longleftrightarrow> getVideoScale st = (if v = 0 then None else Some (Fin v))"
| "reads_back t (W_resolution r) st \<longleftrightarrow> fst (getResolution st) = Some r"
| "reads_back t (W_fps v) st \<longleftrightarrow> getFps st = Some (Fin v)"
| "reads_back t (W_quality v) st \<longleftrightarrow> getQuality st = Some (Fin v)"
| "reads_back t (W_gop v) st \<longleftrightarrow> getGop st = Some (Fin v)"
| "reads_back t (W_frame_detect v) st \<longleftrightarrow> getFrameDetect st = v"
| "reads_back t (W_mouse_style v) st \<longleftrightarrow> getMouseStyle st = Some v"
| "reads_back t (W_mouse_mode v) st \<longleftrightarrow> getMouseMode st = Some v"
| "reads_back t (W_scroll_direction v) st \<longleftrightarrow> getMouseScrollDirection st = (if v = 0 then None else Some (Fin v))"
| "reads_back t (W_scroll_interval v) st \<longleftrightarrow> getMouseScrollInterval st = Some (Fin v)"
| "reads_back t (W_skip_update now v) st \<longleftrightarrow> fst (getSkipUpdate t st) = (v \<and> t \<le> now + 259200000)"
| "reads_back t (W_keyboard_system v) st \<longleftrightarrow> getKeyboardSystem st = Some v"
| "reads_back t (W_keyboard_language v) st \<longleftrightarrow> getKeyboardLanguage st = Some v"
| "reads_back t (W_skip_password now v) st \<longleftrightarrow> fst (getSkipModifyPassword t st) = (v \<and> t \<le> now + 259200000)"
| "reads_back t (W_menu_items v) st \<longleftrightarrow> distinct (fst (getMenuDisabledItems st)) \<and>
     set (fst (getMenuDisabledItems st)) = renamed_item ` set v"
| "reads_back t (W_menu_mode v) st \<longleftrightarrow> getMenuDisplayMode st = (if v = [] then ''auto'' else v)"
| "reads_back t (W_led_visible v) st \<longleftrightarrow> getKeyboardLedStatusVisible st = v"
| "reads_back t (W_power_confirm v) st \<longleftrightarrow> getPowerConfirm st = v"
| "reads_back t (W_frq_text v) st \<longleftrightarrow> getAssistantFrqText st = v"
| "reads_back t (W_frq_rect x y w h) st \<longleftrightarrow> getAssistantFrqRect st =
     Some (JObj [(''left'', JNum x), (''top'', JNum y), (''width'', JNum w), (''height'', JNum h)])"

fun written_numbers :: "setting_write \<Rightarrow> rat list" where
  "written_numbers (W_video_scale v) = [v]"
| "written_numbers (W_resolution r) = [fst r, snd r]"
| "written_numbers (W_fps v) = [v]"
| "written_numbers (W_quality v) = [v]"
| "written_numbers (W_gop v) = [v]"
| "written_numbers (W_scroll_direction v) = [v]"
| "written_numbers (W_scroll_interval v) = [v]"
| "written_numbers (W_frq_rect x y w h) = [x, y, w, h]"
| "written_numbers _ = []"

lemma frq_rect_after_writes:
  "whole l \<Longrightarrow> whole t \<Longrightarrow> whole w \<Longrightarrow> whole h \<Longrightarrow> ASSISTANT_FRQ_RECT_KEY \<notin> key_of ` set ws \<Longrightarrow>
    getAssistantFrqRect (fold apply_write ws (setAssistantFrqRect l t w h st)) =
      Some (JObj [(''left'', JNum l), (''top'', JNum t), (''width'', JNum w), (''height'', JNum h)])"
  using frq_rect.get_after_writes [of "(l, t, w, h)" ws st] by simp

lemma resolution_after_writes:
  "whole (fst r) \<Longrightarrow> whole (snd r) \<Longrightarrow> WEB_RESOLUTION_KEY \<notin> key_of ` set ws \<Longrightarrow>
    fst (getResolution (fold apply_write ws (setResolution r st))) = Some r"
  using resolution.get_after_writes [of r ws st] by (simp add: split_beta)

lemmas setting_facts = language.get_after_writes video_mode.get_after_writes video_scale.get_after_writes
  resolution_after_writes fps.get_after_writes quality.get_after_writes gop.get_after_writes
  frame_detect.get_after_writes mouse_style.get_after_writes mouse_mode.get_after_writes
  scroll_direction.get_after_writes scroll_interval.get_after_writes skip_update.get_after_writes
  keyboard_system.get_after_writes keyboard_language.get_after_writes skip_password.get_after_writes
  menu_items.get_after_writes menu_mode.get_after_writes led_visible.get_after_writes
  power_confirm.get_after_writes frq_text.get_after_writes frq_rect_after_writes

lemma js_add_set: "set (fold js_add xs ys) = set xs \<union> set ys" "distinct ys \<Longrightarrow> distinct (fold js_add xs ys)"
  by (induction xs arbitrary: ys) (auto simp: js_add_def)

lemma menu_shown_items: "distinct (menu_shown v)" "set (menu_shown v) = renamed_item ` set v"
  by (auto simp: menu_shown_def js_add_set renamed_item_def)

text \<open>
  C28: Each of the 22 settings, once written, is read back as \<open>reads_back\<close> says, whatever other
  settings are written afterwards, provided the numbers written are whole and below 10 to the 21st in
  size (from there on their text is in exponential notation).
\<close>

theorem settings_survive_other_writes:
  assumes "\<forall>x \<in> set (written_numbers w). \<exists>i. x = of_int i \<and> \<bar>i\<bar> < 10 ^ 21"
    and "key_of w \<notin> key_of ` set ws"
  shows "reads_back t w (fold apply_write ws (apply_write w st))"
proof -
  have "\<forall>x \<in> set (written_numbers w). whole x" using assms(1) by (simp add: whole_def)
  with assms(2) show ?thesis
    by (cases w) (simp_all add: setting_facts menu_shown_items three_days_def)
qed

theorem settings_survive_other_writes_witness:
  "reads_back 0 (W_resolution (1920, 1080))
    (fold apply_write [W_fps 30, W_language ''en''] (apply_write (W_resolution (1920, 1080)) (\<lambda>_. None)))"
proof (rule settings_survive_other_writes)
  show "key_of (W_resolution (1920, 1080)) \<notin> key_of ` set [W_fps 30, W_language ''en'']" by code_simp
  have "\<exists>i. (1920 :: rat) = of_int i \<and> \<bar>i\<bar> < 10 ^ 21" "\<exists>i. (1080 :: rat) = of_int i \<and> \<bar>i\<bar> < 10 ^ 21"
    by (rule exI [of _ 1920], simp) (rule exI [of _ 1080], simp)
  then show "\<forall>x \<in> set (written_numbers (W_resolution (1920, 1080))). \<exists>i. x = of_int i \<and> \<bar>i\<bar> < 10 ^ 21" by simp
qed

text \<open>
  An entry that cannot be read does not outlive the reading: each getter that decodes an entry
  answers for every store, removes at most that entry, and answers the same when asked again.
\<close>

theorem unreadable_entries_are_dropped:
  "(let (v, st') = getResolution st in
      (st' = st \<or> v = None \<and> st' = st(WEB_RESOLUTION_KEY := None)) \<and> getResolution st' = (v, st')) \<and>
   (let (v, st') = getMenuDisabledItems st in
      (st' = st \<or> v = [] \<and> st' = st(MENU_DISABLED_ITEMS_KEY := None)) \<and> getMenuDisabledItems st' = (v, st')) \<and>
   (let (v, st') = getSkipUpdate now st in
      (st' = st \<or> \<not> v \<and> st' = st(SKIP_UPDATE_KEY := None)) \<and> getSkipUpdate now st' = (v, st')) \<and>
   (let (v, st') = getSkipModifyPassword now st in
      (st' = st \<or> \<not> v \<and> st' = st(SKIP_MODIFY_PASSWORD_KEY := None)) \<and> getSkipModifyPassword now st' = (v, st'))"
proof -
  have r: "snd (readItem k d st) = st \<or> fst (readItem k d st) = None \<and> snd (readItem k d st) = st(k := None)"
    "readItem k d (snd (readItem k d st)) = readItem k d st" for k and d :: "string \<Rightarrow> 'a option" and st
    by (auto simp: readItem_def split: option.split)
  have e: "snd (getWithExpiry now k st) = st \<or> fst (getWithExpiry now k st) = None \<and> snd (getWithExpiry now k st) = st(k := None)"
    "getWithExpiry now k (snd (getWithExpiry now k st)) = getWithExpiry now k st" for k st
    by (auto simp: getWithExpiry_def readItem_def split: option.split)
  have m: "snd (getMenuDisabledItems st) = st \<or> fst (getMenuDisabledItems st) = [] \<and>
      snd (getMenuDisabledItems st) = st(MENU_DISABLED_ITEMS_KEY := None)"
    "getMenuDisabledItems (snd (getMenuDisabledItems st)) = getMenuDisabledItems st"
    by (auto simp: getMenuDisabledItems_def readItem_def split: option.split)
  show ?thesis
    using r [of WEB_RESOLUTION_KEY resolution_of st] m e [of SKIP_UPDATE_KEY st] e [of SKIP_MODIFY_PASSWORD_KEY st]
    by (auto simp: getResolution_def getSkipUpdate_def getSkipModifyPassword_def split_beta Let_def)
qed

text \<open>
  The numbers do not go through \<^verbatim>\<open>readItem\<close>: an entry that is no number is handed to the page as not a
  number, and stays.
\<close>

lemma unreadable_number_is_kept:
  "getFps ((\<lambda>_. None)(FPS_KEY \<mapsto> ''fast'')) = Some NaN"
  by (simp add: getFps_def any_number_def js_Number_def js_trim_def is_ws_def js_lower_def lower_char_def
      decimal_literal_def is_digit_def Let_def)

text \<open>
  The limits of the assistant: whatever the store holds, the number of steps is between 1 and 50
  and the time limit positive; what was set is read back, over an entry of an earlier release too, and
  so is the session, until it is cleared.
\<close>

theorem assistant_limits:
  "1 \<le> getPicoclawMaxSteps b \<and> getPicoclawMaxSteps b \<le> 50 \<and> 0 < getPicoclawMaxRuntimeMs b \<and>
   getPicoclawMaxSteps (setPicoclawMaxSteps n b) = of_int (max 1 (min 50 (js_round n))) \<and>
   (10 ^ 21 \<le> js_round m \<or> getPicoclawMaxRuntimeMs (setPicoclawMaxRuntimeMs m b) = of_int (max 1000 (js_round m))) \<and>
   (sid = [] \<or> getPicoclawSessionId (setPicoclawSessionId sid b) = Some sid) \<and>
   getPicoclawSessionId (clearPicoclawSessionId b) = None"
proof -
  have keys: "PICOCLAW_SESSION_ID_KEY \<noteq> LEGACY_AI_SESSION_ID_KEY" "PICOCLAW_MAX_STEPS_KEY \<noteq> LEGACY_AI_MAX_STEPS_KEY"
    "PICOCLAW_MAX_RUNTIME_KEY \<noteq> LEGACY_AI_MAX_RUNTIME_KEY" by code_simp+
  have "1 \<le> getPicoclawMaxSteps b" "getPicoclawMaxSteps b \<le> 50" by (simp_all add: getPicoclawMaxSteps_def Let_def)
  moreover have "0 < getPicoclawMaxRuntimeMs b" by (simp add: getPicoclawMaxRuntimeMs_def split: jsnum.split)
  moreover have "getPicoclawMaxSteps (setPicoclawMaxSteps n b) = of_int (max 1 (min 50 (js_round n)))"
  proof -
    define i where "i = max 1 (min 50 (js_round n))"
    have "1 \<le> i" "i \<le> 50" by (simp_all add: i_def)
    then have "js_Number (int_string i) = Fin (of_int i)" by (intro Number_int overflow_large) simp
    with \<open>1 \<le> i\<close> \<open>i \<le> 50\<close> show ?thesis
      unfolding getPicoclawMaxSteps_def setPicoclawMaxSteps_def i_def [symmetric]
      by (simp add: Let_def getLocalValue_def setLocalValue_def or_string_def stored_number_def keys)
  qed
  moreover have "getPicoclawMaxRuntimeMs (setPicoclawMaxRuntimeMs m b) = of_int (max 1000 (js_round m))"
    if "js_round m < 10 ^ 21"
  proof -
    define i where "i = max 1000 (js_round m)"
    have "1000 \<le> i" "i < 10 ^ 21" using that by (simp_all add: i_def)
    then have "js_Number (int_string i) = Fin (of_int i)" by (intro Number_int overflow_large) simp
    with \<open>1000 \<le> i\<close> show ?thesis
      unfolding getPicoclawMaxRuntimeMs_def setPicoclawMaxRuntimeMs_def i_def [symmetric]
      by (simp add: getLocalValue_def setLocalValue_def or_string_def stored_number_def keys)
  qed
  moreover have "sid = [] \<or> getPicoclawSessionId (setPicoclawSessionId sid b) = Some sid"
    by (cases "session_store b") (auto simp: getPicoclawSessionId_def setPicoclawSessionId_def getLocalValue_def
        setLocalValue_def or_string_def keys)
  moreover have "getPicoclawSessionId (clearPicoclawSessionId b) = None"
    by (cases "session_store b") (auto simp: getPicoclawSessionId_def clearPicoclawSessionId_def getLocalValue_def
        removeLocalValue_def or_string_def keys)
  ultimately show ?thesis by force
qed

end
