(* ===== verification/Picoclaw_Gateway.thy ===== *)
theory Picoclaw_Gateway
  imports Local_Storage
begin

text \<open>
  The chat connection of the assistant, the class \<^verbatim>\<open>PicoClawGateway\<close> of \<^verbatim>\<open>web/src/lib/picoclaw-gateway.ts\<close>:
  one socket at a time, reconnecting, the promises \<^verbatim>\<open>connect\<close> returns, listeners, and what becomes of a
  message. The browser's sockets, timers and promises are part of the state. A frame of text arrives
  as \<^verbatim>\<open>JSON.parse\<close> leaves it; a new identifier of \<^verbatim>\<open>generateUUIDv4\<close> is an argument of the operation that
  draws it. Listeners are the page's: a call of a listener is an entry of the log \<open>heard\<close>, and what a
  listener asks of the gateway comes as a later event.
\<close>

section \<open>Identifiers\<close>

definition hex_digit_char :: "nat \<Rightarrow> char" where
  "hex_digit_char n = (if n < 10 then char_of (48 + n) else char_of (87 + n))"

text \<open>The fallback: one random number in [0, 1) for each placeholder.\<close>

fun uuid_fill :: "string \<Rightarrow> rat list \<Rightarrow> string" where
  "uuid_fill [] rs = []"
| "uuid_fill (c # cs) rs =
    (if c \<in> set ''xy'' then
       (let random = nat \<lfloor>hd rs * 16\<rfloor>;
            v = (if c = CHR ''x'' then random else (random AND 3) OR 8)
        in hex_digit_char v # uuid_fill cs (tl rs))
     else c # uuid_fill cs rs)"

definition generateUUIDv4 :: "string option \<Rightarrow> rat list \<Rightarrow> string" where
  "generateUUIDv4 randomUUID rs =
    (case randomUUID of Some u \<Rightarrow> u | None \<Rightarrow> uuid_fill ''xxxxxxxx-xxxx-4xxx-yxxx-xxxxxxxxxxxx'' rs)"

section \<open>What is read from a message\<close>

definition normalizeLiteralEmptyText :: "string \<Rightarrow> string" where
  "normalizeLiteralEmptyText s =
    (let trimmed = js_trim s; normalized = js_lower trimmed
     in if trimmed = [] then []
        else if normalized = ''null'' \<or> normalized = ''undefined'' then []
        else trimmed)"

text \<open>One element of a content array; the result is \<open>None\<close> when \<^verbatim>\<open>String\<close> throws.\<close>

definition item_text :: "json \<Rightarrow> string option" where
  "item_text item =
    (case item of
       JStr s \<Rightarrow> Some (normalizeLiteralEmptyText s)
     | JObj m \<Rightarrow>
         (if map_of m ''text'' = None then Some []
          else map_option normalizeLiteralEmptyText (string_or (map_of m ''text'') []))
     | _ \<Rightarrow> Some [])"

fun collect_texts :: "json list \<Rightarrow> string list option" where
  "collect_texts [] = Some []"
| "collect_texts (x # xs) =
    (case item_text x of None \<Rightarrow> None
     | Some t \<Rightarrow> map_option (\<lambda>ts. if t = [] then ts else t # ts) (collect_texts xs))"

fun join_lines :: "string list \<Rightarrow> string" where
  "join_lines [] = []"
| "join_lines [x] = x"
| "join_lines (x # xs) = x @ CHR 10 # join_lines xs"

definition extractText :: "json \<Rightarrow> string option" where
  "extractText message =
    (let payload = or_empty (field ''payload'' message);
         content = nullish (nullish (nullish (field ''content'' payload) (field ''content'' message))
           (field ''text'' payload)) (field ''text'' message)
     in case content of
          Some (JStr s) \<Rightarrow> Some (normalizeLiteralEmptyText s)
        | Some (JArr xs) \<Rightarrow> map_option (\<lambda>ts. js_trim (join_lines ts)) (collect_texts xs)
        | _ \<Rightarrow> Some [])"

definition extractImageBase64 :: "json \<Rightarrow> string option" where
  "extractImageBase64 message =
    (let payload = or_empty (field ''payload'' message);
         data = or_empty (js_or (field ''data'' payload) (field ''data'' message))
     in as_string (js_or (js_or (field ''image_base64'' data) (field ''image_base64'' payload))
          (field ''image_base64'' message)))"

definition extractAction :: "json \<Rightarrow> (string \<times> rat option \<times> rat option) option" where
  "extractAction message =
    (let payload = or_empty (field ''payload'' message);
         v = js_or (js_or (js_or (field ''action'' payload) (field ''action'' message))
           (field ''tool_name'' payload)) (field ''tool_name'' message)
     in case as_string v of
          None \<Rightarrow> None
        | Some a \<Rightarrow>
            (let action = normalizeLiteralEmptyText a
             in if action = [] then None
                else Some (action, as_number (field ''x'' payload), as_number (field ''y'' payload))))"

section \<open>State\<close>

datatype transport_state = Disconnected | Connecting | Connected | Failed
datatype run_state = Idle | Busy
datatype control_mode = Off | Mcp | Picoclaw

record control_status =
  c_mode :: control_mode
  c_transitioning :: bool
  can_control :: bool
  c_last_error :: "string option"
  changed_at :: "string option"
  c_source :: "string option"

datatype gateway_event =
  Ev_connected string
| Ev_transport transport_state
| Ev_run run_state
| Ev_assistant string string json
| Ev_tool string string "rat option" "rat option" json
| Ev_observation string string string json
| Ev_error string string "json option"
| Ev_close nat string
| Ev_control control_status

fun event_name :: "gateway_event \<Rightarrow> string" where
  "event_name (Ev_connected s) = ''connected''"
| "event_name (Ev_transport s) = ''transport_state''"
| "event_name (Ev_run s) = ''run_state''"
| "event_name (Ev_assistant i t m) = ''assistant_message''"
| "event_name (Ev_tool i a x y m) = ''tool_action''"
| "event_name (Ev_observation i t b m) = ''observation''"
| "event_name (Ev_error c m r) = ''error''"
| "event_name (Ev_close c r) = ''close''"
| "event_name (Ev_control c) = ''control_mode_changed''"

datatype outcome = Pending | Resolved string | Rejected string

text \<open>
  A socket knows the attempt and the session it was opened for. A listener set is an object that the
  function returned by \<^verbatim>\<open>on\<close> keeps a reference to, so the sets are kept by number and \<open>listeners\<close> names
  the current one of an event. The promise of attempt \<open>n\<close> is element \<open>n - 1\<close> of \<open>promises\<close>.
\<close>

record gw_socket =
  gs_ready :: ready_state
  gs_attempt :: nat
  gs_session :: string

record gateway =
  ws :: "nat option"
  listeners :: "(string \<times> nat) list"
  connectPromise :: "nat option"
  sessionId :: string
  connectionAttemptId :: nat
  autoReconnect :: bool
  reconnectAttempts :: nat
  reconnectTimer :: "nat option"
  explicitClose :: bool
  gw_sockets :: "gw_socket list"
  listener_sets :: "nat list list"
  promises :: "outcome list"
  timers :: "(nat \<times> nat) list"  \<comment> \<open>timer and delay, still to fire\<close>
  next_timer :: nat
  page_store :: browser_store
  wire :: "(nat \<times> json) list"
  emitted :: "gateway_event list"
  heard :: "(nat \<times> gateway_event) list"

definition new_gateway :: "browser_store \<Rightarrow> gateway" where
  "new_gateway b =
    \<lparr>ws = None, listeners = [], connectPromise = None, sessionId = [], connectionAttemptId = 0,
     autoReconnect = False, reconnectAttempts = 0, reconnectTimer = None, explicitClose = False,
     gw_sockets = [], listener_sets = [], promises = [], timers = [], next_timer = 1,
     page_store = b, wire = [], emitted = [], heard = []\<rparr>"

section \<open>Listeners\<close>

definition emit :: "gateway_event \<Rightarrow> gateway \<Rightarrow> gateway" where
  "emit e g =
    (let g = g\<lparr>emitted := emitted g @ [e]\<rparr>
     in case map_of (listeners g) (event_name e) of
          None \<Rightarrow> g
        | Some i \<Rightarrow> g\<lparr>heard := heard g @ map (\<lambda>l. (l, e)) (listener_sets g ! i)\<rparr>)"

definition gw_on :: "string \<Rightarrow> nat \<Rightarrow> gateway \<Rightarrow> gateway \<times> nat" where
  "gw_on name l g =
    (case map_of (listeners g) name of
       Some i \<Rightarrow> (g\<lparr>listener_sets := (listener_sets g)[i := js_add l (listener_sets g ! i)]\<rparr>, i)
     | None \<Rightarrow>
         (let i = length (listener_sets g)
          in (g\<lparr>listener_sets := listener_sets g @ [[l]],
               listeners := AList.update name i (listeners g)\<rparr>, i)))"

text \<open>The function \<^verbatim>\<open>on\<close> returned, with the set it keeps.\<close>

definition gw_off :: "string \<Rightarrow> nat \<Rightarrow> nat \<Rightarrow> gateway \<Rightarrow> gateway" where
  "gw_off name l i g =
    (let current = js_delete l (listener_sets g ! i);
         g = g\<lparr>listener_sets := (listener_sets g)[i := current]\<rparr>
     in if current = [] then g\<lparr>listeners := AList.delete name (listeners g)\<rparr> else g)"

definition setTransportState :: "transport_state \<Rightarrow> gateway \<Rightarrow> gateway" where
  "setTransportState s g = emit (Ev_transport s) g"

definition setRunState :: "run_state \<Rightarrow> gateway \<Rightarrow> gateway" where
  "setRunState s g = emit (Ev_run s) g"

section \<open>Connecting\<close>

definition clearReconnectTimer :: "gateway \<Rightarrow> gateway" where
  "clearReconnectTimer g =
    (case reconnectTimer g of
       None \<Rightarrow> g
     | Some t \<Rightarrow> g\<lparr>timers := filter (\<lambda>(u, d). u \<noteq> t) (timers g), reconnectTimer := None\<rparr>)"

definition save_session :: "string \<Rightarrow> gateway \<Rightarrow> gateway" where
  "save_session s g = g\<lparr>page_store := setPicoclawSessionId s (page_store g)\<rparr>"

definition socket_is :: "ready_state set \<Rightarrow> gateway \<Rightarrow> bool" where
  "socket_is rs g = (case ws g of None \<Rightarrow> False | Some i \<Rightarrow> gs_ready (gw_sockets g ! i) \<in> rs)"

datatype promise_ref = Attempt nat | Immediate string

text \<open>The first statement of \<^verbatim>\<open>connect\<close>: the session to use.\<close>

definition choose_session :: "string option \<Rightarrow> string \<Rightarrow> gateway \<Rightarrow> gateway" where
  "choose_session sid u g =
    (if sid \<noteq> None \<and> sid \<noteq> Some [] then save_session (the sid) (g\<lparr>sessionId := the sid\<rparr>)
     else if ws g = None \<or> socket_is {CLOSED} g then save_session u (g\<lparr>sessionId := u\<rparr>)
     else g)"

definition gw_connect ::
  "string option \<Rightarrow> bool \<Rightarrow> string \<Rightarrow> string \<Rightarrow> gateway \<Rightarrow> gateway \<times> promise_ref" where
  "gw_connect sid auto u1 u2 g =
    (let g = choose_session sid u1 g
     in if socket_is {OPEN, CONNECTING} g then
          (g, case connectPromise g of Some a \<Rightarrow> Attempt a | None \<Rightarrow> Immediate (sessionId g))
        else
          let g = clearReconnectTimer (g\<lparr>autoReconnect := auto, explicitClose := False\<rparr>);
              g = setTransportState Connecting g;
              s = (if sessionId g \<noteq> [] then sessionId g else u2);
              a = Suc (connectionAttemptId g);
              g = save_session s (g\<lparr>connectionAttemptId := a, sessionId := s\<rparr>);
              i = length (gw_sockets g);
              g = g\<lparr>gw_sockets := gw_sockets g @ [\<lparr>gs_ready = CONNECTING, gs_attempt = a, gs_session = s\<rparr>],
                    ws := Some i, promises := promises g @ [Pending], connectPromise := Some a\<rparr>
          in (g, Attempt a))"

definition current :: "nat \<Rightarrow> gateway \<Rightarrow> bool" where
  "current i g \<longleftrightarrow> ws g = Some i \<and> connectionAttemptId g = gs_attempt (gw_sockets g ! i)"

text \<open>
  Settling the promise of an attempt. Only the first settlement counts, and the callback of \<^verbatim>\<open>finally\<close>
  runs as soon as the handler that settled it is done.
\<close>

definition settle :: "nat \<Rightarrow> outcome \<Rightarrow> gateway \<Rightarrow> gateway" where
  "settle a r g =
    (if promises g ! (a - 1) = Pending then
       g\<lparr>promises := (promises g)[a - 1 := r],
         connectPromise := (if connectionAttemptId g = a then None else connectPromise g)\<rparr>
     else g)"

definition onopen :: "nat \<Rightarrow> gateway \<Rightarrow> gateway" where
  "onopen i g =
    (if \<not> current i g then g
     else
       let s = gs_session (gw_sockets g ! i);
           g = g\<lparr>reconnectAttempts := 0\<rparr>;
           g = emit (Ev_connected s) g;
           g = setTransportState Connected g;
           g = setRunState Idle g
       in settle (gs_attempt (gw_sockets g ! i)) (Resolved s) g)"

definition onerror :: "nat \<Rightarrow> gateway \<Rightarrow> gateway" where
  "onerror i g = (if \<not> current i g then g else setTransportState Failed g)"

definition CLOSE_ERRORS :: "(nat \<times> string) list" where
  "CLOSE_ERRORS =
    [(4001, ''AI_LOCK_HELD''), (4002, ''RUNTIME_UNAVAILABLE''), (4003, ''AUTH_FAILED''),
     (4004, ''AI_TAKEN_OVER''), (4005, ''UPSTREAM_CLOSED''), (4006, ''AI_MODE_CONFLICT''),
     (4007, ''RUNTIME_STOPPED'')]"

definition scheduleReconnect :: "gateway \<Rightarrow> gateway" where
  "scheduleReconnect g =
    (let g = clearReconnectTimer g;
         g = g\<lparr>reconnectAttempts := reconnectAttempts g + 1\<rparr>;
         delay = min (1000 * reconnectAttempts g) 5000
     in g\<lparr>reconnectTimer := Some (next_timer g), timers := timers g @ [(next_timer g, delay)],
          next_timer := Suc (next_timer g)\<rparr>)"

definition emit_close_error :: "nat \<Rightarrow> string \<Rightarrow> gateway \<Rightarrow> gateway" where
  "emit_close_error code reason g =
    (if code \<noteq> 1000 \<and> code \<noteq> 4006 \<and> code \<noteq> 4007 then
       (case map_of CLOSE_ERRORS code of
          None \<Rightarrow> g
        | Some c \<Rightarrow> emit (Ev_error c (if reason \<noteq> [] then reason else c) None) g)
     else g)"

definition onclose :: "nat \<Rightarrow> nat \<Rightarrow> string \<Rightarrow> gateway \<Rightarrow> gateway" where
  "onclose i code reason g =
    (if \<not> current i g then g
     else
       let a = gs_attempt (gw_sockets g ! i);
           g = emit_close_error code reason (g\<lparr>ws := None\<rparr>);
           g = emit (Ev_close code reason) g;
           g = setTransportState (if code \<in> {1000, 4006, 4007} then Disconnected else Failed) g;
           g = setRunState Idle g
       in if \<not> explicitClose g then
            let g = settle a (Rejected (if reason \<noteq> [] then reason else ''gateway closed'')) g
            in if autoReconnect g \<and> code \<noteq> 4006 \<and> code \<noteq> 4007 then scheduleReconnect g else g
          else g)"

section \<open>Messages\<close>

datatype frame_data = Binary_data | Malformed string | Parsed json

text \<open>\<^verbatim>\<open>payload.mode\<close> and the other fields of a change of the control mode.\<close>

fun mode_named :: "string \<Rightarrow> control_mode option" where
  "mode_named s =
    (if s = ''off'' then Some Off else if s = ''mcp'' then Some Mcp
     else if s = ''picoclaw'' then Some Picoclaw else None)"

definition control_of :: "json \<Rightarrow> control_mode \<Rightarrow> control_status" where
  "control_of payload m =
    \<lparr>c_mode = m, c_transitioning = (field ''transitioning'' payload = Some (JBool True)),
     can_control = (field ''can_control'' payload = Some (JBool True)),
     c_last_error = as_string (field ''last_error'' payload),
     changed_at = as_string (field ''changed_at'' payload),
     c_source = as_string (field ''source'' payload)\<rparr>"

text \<open>A payload whose evaluation throws is not emitted.\<close>

definition emit_built :: "gateway_event option \<Rightarrow> gateway \<Rightarrow> gateway" where
  "emit_built e g = (case e of None \<Rightarrow> g | Some e \<Rightarrow> emit e g)"

definition built2 :: "('a \<Rightarrow> 'b \<Rightarrow> 'c) \<Rightarrow> 'a option \<Rightarrow> 'b option \<Rightarrow> 'c option" where
  "built2 f a b = (case a of None \<Rightarrow> None | Some x \<Rightarrow> map_option (f x) b)"

definition handle_action :: "json \<Rightarrow> string option \<Rightarrow> gateway \<Rightarrow> gateway" where
  "handle_action message ident g =
    (case extractAction message of
       None \<Rightarrow> g
     | Some (action, x, y) \<Rightarrow>
         emit_built (map_option (\<lambda>i. Ev_tool i action x y message) ident) g)"

definition handle_typed :: "string \<Rightarrow> json \<Rightarrow> string \<Rightarrow> gateway \<Rightarrow> gateway" where
  "handle_typed type message uuid g =
    (let ident = string_or (field ''id'' message) uuid
     in if type = ''typing.start'' then setRunState Busy g
        else if type = ''typing.stop'' then g
        else if type = ''pong'' then g
        else if type = ''error'' then
          (let g = setRunState Idle (setTransportState Failed g)
           in emit_built (built2 (\<lambda>c m. Ev_error c m (Some message))
                (string_or (field ''code'' message) ''ERROR'')
                (string_or (field ''message'' message) ''Gateway error'')) g)
        else if type = ''control.mode_changed'' then
          (let payload = or_empty (field ''payload'' message)
           in case string_or (field ''mode'' payload) ''off'' of
                None \<Rightarrow> g
              | Some mode \<Rightarrow>
                  (case mode_named mode of
                     None \<Rightarrow> g
                   | Some m \<Rightarrow> emit (Ev_control (control_of payload m)) g))
        else if type = ''message.create'' \<or> type = ''message.update'' then
          (let g = setRunState Idle g
           in emit_built (built2 (\<lambda>i t. Ev_assistant i t message) ident (extractText message)) g)
        else case extractImageBase64 message of
          Some b \<Rightarrow>
            if b \<noteq> [] then
              emit_built (built2 (\<lambda>i t. Ev_observation i t b message) ident (extractText message)) g
            else handle_action message ident g
        | None \<Rightarrow> handle_action message ident g)"

definition handleMessage :: "frame_data \<Rightarrow> string \<Rightarrow> gateway \<Rightarrow> gateway" where
  "handleMessage d uuid g =
    (case d of
       Binary_data \<Rightarrow> g
     | Malformed raw \<Rightarrow>
         emit (Ev_error ''INVALID_MESSAGE'' ''Failed to parse gateway message'' (Some (JStr raw))) g
     | Parsed message \<Rightarrow>
         (if message = JNull then g
          else case string_or (field ''type'' message) [] of
                 None \<Rightarrow> g
               | Some type \<Rightarrow> handle_typed type message uuid g))"

definition onmessage :: "nat \<Rightarrow> frame_data \<Rightarrow> string \<Rightarrow> gateway \<Rightarrow> gateway" where
  "onmessage i d uuid g = (if \<not> current i g then g else handleMessage d uuid g)"

section \<open>Sending and closing\<close>

record send_options =
  o_id :: "string option"
  maxSteps :: "rat option"
  maxRuntimeMs :: "rat option"
  trackState :: "bool option"

definition send_json :: "json \<Rightarrow> gateway \<Rightarrow> gateway" where
  "send_json m g = (case ws g of None \<Rightarrow> g | Some i \<Rightarrow> g\<lparr>wire := wire g @ [(i, m)]\<rparr>)"

definition sendChatMessage ::
  "string \<Rightarrow> send_options \<Rightarrow> string \<Rightarrow> gateway \<Rightarrow> gateway \<times> (string \<times> string) option" where
  "sendChatMessage content opts uuid g =
    (let trimmed = js_trim content
     in if trimmed = [] \<or> \<not> socket_is {OPEN} g then (g, None)
        else
          let i = (case o_id opts of Some x \<Rightarrow> if x \<noteq> [] then x else uuid | None \<Rightarrow> uuid);
              g = (if trackState opts \<noteq> Some False then setRunState Busy g else g);
              m = object_literal
                [(''id'', Some (JStr i)), (''session_id'', Some (JStr (sessionId g))),
                 (''type'', Some (JStr ''message.send'')),
                 (''payload'', Some (object_literal
                   [(''content'', Some (JStr trimmed)), (''max_steps'', map_option JNum (maxSteps opts)),
                    (''max_runtime_ms'', map_option JNum (maxRuntimeMs opts))]))]
          in (send_json m g, Some (i, sessionId g)))"

definition sendStopMessage :: "gateway \<Rightarrow> gateway \<times> bool" where
  "sendStopMessage g =
    (if \<not> socket_is {OPEN} g then (g, False)
     else (send_json (object_literal
       [(''type'', Some (JStr ''message.cancel'')), (''session_id'', Some (JStr (sessionId g))),
        (''payload'', Some (object_literal []))]) g, True))"

definition gw_close :: "gateway \<Rightarrow> gateway" where
  "gw_close g =
    (let g = clearReconnectTimer (g\<lparr>explicitClose := True\<rparr>);
         g = (if socket_is {OPEN, CONNECTING} g
              then g\<lparr>gw_sockets := (gw_sockets g)[the (ws g) := (gw_sockets g ! the (ws g))\<lparr>gs_ready := CLOSING\<rparr>]\<rparr>
              else g);
         g = setTransportState Disconnected (g\<lparr>ws := None\<rparr>)
     in setRunState Idle g)"

definition rotateSession :: "string \<Rightarrow> gateway \<Rightarrow> gateway" where
  "rotateSession uuid g =
    (let g = gw_close g;
         g = g\<lparr>page_store := clearPicoclawSessionId (page_store g)\<rparr>
     in save_session uuid (g\<lparr>sessionId := uuid\<rparr>))"

section \<open>Steps\<close>

datatype gw_call =
  Connect "string option" bool string string | Chat string send_options string | Stop_chat
| Close_call | Rotate string | Subscribe string nat | Unsubscribe string nat nat
| Sock_open nat | Sock_error nat | Sock_closing nat | Sock_close nat nat string
| Sock_message nat frame_data string | Reconnect nat string string

definition set_ready :: "nat \<Rightarrow> ready_state \<Rightarrow> gateway \<Rightarrow> gateway" where
  "set_ready i r g = g\<lparr>gw_sockets := (gw_sockets g)[i := (gw_sockets g ! i)\<lparr>gs_ready := r\<rparr>]\<rparr>"

fun gw_step :: "gateway \<Rightarrow> gw_call \<Rightarrow> gateway" where
  "gw_step g (Connect s auto u1 u2) = fst (gw_connect s auto u1 u2 g)"
| "gw_step g (Chat c opts u) = fst (sendChatMessage c opts u g)"
| "gw_step g Stop_chat = fst (sendStopMessage g)"
| "gw_step g Close_call = gw_close g"
| "gw_step g (Rotate u) = rotateSession u g"
| "gw_step g (Subscribe n l) = fst (gw_on n l g)"
| "gw_step g (Unsubscribe n l i) = gw_off n l i g"
| "gw_step g (Sock_open i) = onopen i (set_ready i OPEN g)"
| "gw_step g (Sock_error i) = onerror i g"
| "gw_step g (Sock_closing i) = set_ready i CLOSING g"
| "gw_step g (Sock_close i code reason) = onclose i code reason (set_ready i CLOSED g)"
| "gw_step g (Sock_message i d u) = onmessage i d u g"
| "gw_step g (Reconnect t u1 u2) =
    fst (gw_connect (Some (sessionId g)) True u1 u2 (g\<lparr>timers := filter (\<lambda>(u, d). u \<noteq> t) (timers g)\<rparr>))"

text \<open>What the browser guarantees of its events; a set passed to \<^verbatim>\<open>off\<close> is one that \<^verbatim>\<open>on\<close> returned.\<close>

fun gw_possible :: "gateway \<Rightarrow> gw_call \<Rightarrow> bool" where
  "gw_possible g (Sock_open i) = (i < length (gw_sockets g) \<and> gs_ready (gw_sockets g ! i) = CONNECTING)"
| "gw_possible g (Sock_error i) = (i < length (gw_sockets g) \<and> gs_ready (gw_sockets g ! i) \<noteq> CLOSED)"
| "gw_possible g (Sock_closing i) = (i < length (gw_sockets g) \<and> gs_ready (gw_sockets g ! i) = OPEN)"
| "gw_possible g (Sock_close i c r) = (i < length (gw_sockets g) \<and> gs_ready (gw_sockets g ! i) \<noteq> CLOSED)"
| "gw_possible g (Sock_message i d u) = (i < length (gw_sockets g) \<and> gs_ready (gw_sockets g ! i) = OPEN)"
| "gw_possible g (Reconnect t u1 u2) = (t \<in> fst ` set (timers g))"
| "gw_possible g (Unsubscribe n l i) = (i < length (listener_sets g))"
| "gw_possible g _ = True"

section \<open>What only listeners notice\<close>

text \<open>The state without the two logs of events; emitting changes nothing else.\<close>

definition core :: "gateway \<Rightarrow> gateway" where
  "core g = g\<lparr>emitted := [], heard := []\<rparr>"

lemma emit_fields [simp]:
  "ws (emit e g) = ws g" "listeners (emit e g) = listeners g" "connectPromise (emit e g) = connectPromise g"
  "sessionId (emit e g) = sessionId g" "connectionAttemptId (emit e g) = connectionAttemptId g"
  "autoReconnect (emit e g) = autoReconnect g" "reconnectAttempts (emit e g) = reconnectAttempts g"
  "reconnectTimer (emit e g) = reconnectTimer g" "explicitClose (emit e g) = explicitClose g"
  "gw_sockets (emit e g) = gw_sockets g" "listener_sets (emit e g) = listener_sets g"
  "promises (emit e g) = promises g" "timers (emit e g) = timers g" "next_timer (emit e g) = next_timer g"
  "page_store (emit e g) = page_store g" "wire (emit e g) = wire g"
  by (simp_all add: emit_def Let_def split: option.split)

lemma core_emit [simp]: "core (emit e g) = core g"
  by (simp add: core_def emit_def Let_def split: option.split)

lemma core_states [simp]: "core (setTransportState t g) = core g" "core (setRunState r g) = core g"
  by (simp_all add: setTransportState_def setRunState_def)

lemma core_built [simp]: "core (emit_built e g) = core g"
  by (simp add: emit_built_def split: option.split)

lemma core_action [simp]: "core (handle_action m i g) = core g"
  by (simp add: handle_action_def split: option.split prod.split)

lemma core_typed: "core (handle_typed t m u g) = core g"
  by (simp add: handle_typed_def Let_def split: option.split)

lemma core_message: "core (handleMessage d u g) = core g"
  by (simp add: handleMessage_def core_typed split: frame_data.split option.split)

section \<open>Invariant\<close>

definition sockets_ok :: "gateway \<Rightarrow> bool" where
  "sockets_ok g \<longleftrightarrow> length (promises g) = length (gw_sockets g) \<and>
    connectionAttemptId g = length (gw_sockets g) \<and>
    (\<forall>i < length (gw_sockets g). gs_attempt (gw_sockets g ! i) = Suc i \<and>
      (ws g \<noteq> Some i \<longrightarrow> dead (gs_ready (gw_sockets g ! i))))"

definition current_ok :: "gateway \<Rightarrow> bool" where
  "current_ok g \<longleftrightarrow> (\<forall>i. ws g = Some i \<longrightarrow>
    Suc i = length (gw_sockets g) \<and> \<not> explicitClose g \<and> timers g = [] \<and>
    gs_ready (gw_sockets g ! i) \<noteq> CLOSED \<and>
    (gs_ready (gw_sockets g ! i) = CONNECTING \<longrightarrow> promises g ! i = Pending \<and> connectPromise g = Some (Suc i)) \<and>
    (gs_ready (gw_sockets g ! i) = OPEN \<longrightarrow> promises g ! i \<noteq> Pending \<and> connectPromise g = None))"

definition timers_ok :: "gateway \<Rightarrow> bool" where
  "timers_ok g \<longleftrightarrow> (timers g = [] \<or>
    (\<exists>t d. timers g = [(t, d)] \<and> reconnectTimer g = Some t \<and> 1000 \<le> d \<and> d \<le> 5000 \<and>
      autoReconnect g \<and> \<not> explicitClose g))"

definition gw_inv :: "gateway \<Rightarrow> bool" where
  "gw_inv g \<longleftrightarrow> sockets_ok g \<and> current_ok g \<and> timers_ok g"

lemmas gw_inv_defs = gw_inv_def sockets_ok_def current_ok_def timers_ok_def

lemma gw_inv_core: "gw_inv (core g) = gw_inv g"
  by (simp add: gw_inv_defs core_def)

lemma gw_inv_cong: "core g = core h \<Longrightarrow> gw_inv g = gw_inv h"
  using gw_inv_core [of g] gw_inv_core [of h] by simp

lemma gw_inv_emit [simp]:
  "gw_inv (emit e g) = gw_inv g" "gw_inv (setTransportState t g) = gw_inv g" "gw_inv (setRunState r g) = gw_inv g"
  by (rule gw_inv_cong, simp)+

lemma gw_inv_updates [simp]:
  "gw_inv (g\<lparr>sessionId := x\<rparr>) = gw_inv g" "gw_inv (g\<lparr>page_store := y\<rparr>) = gw_inv g"
  "gw_inv (g\<lparr>reconnectAttempts := n\<rparr>) = gw_inv g" "gw_inv (g\<lparr>wire := w\<rparr>) = gw_inv g"
  "gw_inv (g\<lparr>listeners := l\<rparr>) = gw_inv g" "gw_inv (g\<lparr>listener_sets := ls\<rparr>) = gw_inv g"
  by (simp_all add: gw_inv_defs)

lemma clear_timers: "gw_inv g \<Longrightarrow> timers (clearReconnectTimer g) = []"
  by (auto simp: gw_inv_def timers_ok_def clearReconnectTimer_def split: option.split)

lemma gw_clear_fields [simp]:
  "ws (clearReconnectTimer g) = ws g" "connectPromise (clearReconnectTimer g) = connectPromise g"
  "sessionId (clearReconnectTimer g) = sessionId g"
  "connectionAttemptId (clearReconnectTimer g) = connectionAttemptId g"
  "autoReconnect (clearReconnectTimer g) = autoReconnect g"
  "reconnectAttempts (clearReconnectTimer g) = reconnectAttempts g"
  "explicitClose (clearReconnectTimer g) = explicitClose g" "gw_sockets (clearReconnectTimer g) = gw_sockets g"
  "promises (clearReconnectTimer g) = promises g" "wire (clearReconnectTimer g) = wire g"
  "emitted (clearReconnectTimer g) = emitted g" "heard (clearReconnectTimer g) = heard g"
  by (simp_all add: clearReconnectTimer_def split: option.split)

lemma gw_inv_choose: "gw_inv (choose_session sid u g) = gw_inv g"
  by (simp add: choose_session_def save_session_def)

lemma gw_inv_connect: "gw_inv g \<Longrightarrow> gw_inv (fst (gw_connect sid auto u1 u2 g))"
proof -
  assume "gw_inv g"
  then have "gw_inv (choose_session sid u1 g)" by (simp add: gw_inv_choose)
  then show ?thesis
  proof (cases "socket_is {OPEN, CONNECTING} (choose_session sid u1 g)")
    case False
    define h where "h = choose_session sid u1 g"
    have h: "gw_inv h" "\<not> socket_is {OPEN, CONNECTING} h"
      using \<open>gw_inv (choose_session sid u1 g)\<close> False by (simp_all add: h_def)
    have t: "timers (clearReconnectTimer (h\<lparr>autoReconnect := auto, explicitClose := False\<rparr>)) = []"
      using h(1) by (auto simp: gw_inv_def timers_ok_def clearReconnectTimer_def split: option.split)
    have "dead (gs_ready (gw_sockets h ! i))" if "i < length (gw_sockets h)" for i
      using h that by (cases "ws h = Some i"; cases "gs_ready (gw_sockets h ! i)")
        (auto simp: gw_inv_defs socket_is_def)
    with h t show ?thesis
      unfolding gw_connect_def h_def [symmetric] Let_def
      by (auto simp: save_session_def setTransportState_def gw_inv_defs nth_append less_Suc_eq)
  qed (simp add: gw_connect_def Let_def)
qed

lemma set_ready_fields [simp]:
  "ws (set_ready i r g) = ws g" "connectionAttemptId (set_ready i r g) = connectionAttemptId g"
  "promises (set_ready i r g) = promises g" "timers (set_ready i r g) = timers g"
  "explicitClose (set_ready i r g) = explicitClose g" "connectPromise (set_ready i r g) = connectPromise g"
  "autoReconnect (set_ready i r g) = autoReconnect g" "reconnectTimer (set_ready i r g) = reconnectTimer g"
  "length (gw_sockets (set_ready i r g)) = length (gw_sockets g)" "wire (set_ready i r g) = wire g"
  "emitted (set_ready i r g) = emitted g" "heard (set_ready i r g) = heard g"
  "listeners (set_ready i r g) = listeners g" "listener_sets (set_ready i r g) = listener_sets g"
  "next_timer (set_ready i r g) = next_timer g" "sessionId (set_ready i r g) = sessionId g"
  by (simp_all add: set_ready_def)

lemma set_ready_nth:
  "i < length (gw_sockets g) \<Longrightarrow> gs_attempt (gw_sockets (set_ready j r g) ! i) = gs_attempt (gw_sockets g ! i)"
  "i < length (gw_sockets g) \<Longrightarrow> gs_session (gw_sockets (set_ready j r g) ! i) = gs_session (gw_sockets g ! i)"
  "i < length (gw_sockets g) \<Longrightarrow> gs_ready (gw_sockets (set_ready j r g) ! i) =
     (if i = j then r else gs_ready (gw_sockets g ! i))"
  by (cases "i = j"; simp add: set_ready_def)+

lemma current_iff: "gw_inv g \<Longrightarrow> current i (set_ready j r g) \<longleftrightarrow> ws g = Some i"
proof -
  assume g: "gw_inv g"
  have "connectionAttemptId g = gs_attempt (gw_sockets g ! i)" "i < length (gw_sockets g)" if "ws g = Some i"
    using g that by (simp_all add: gw_inv_def sockets_ok_def current_ok_def)
  then show ?thesis by (auto simp: current_def set_ready_nth)
qed

lemma gw_inv_open:
  assumes "gw_inv g" "gw_possible g (Sock_open i)"
  shows "gw_inv (gw_step g (Sock_open i))"
proof -
  have i: "i < length (gw_sockets g)" "ws g = Some i" "gs_attempt (gw_sockets g ! i) - 1 = i"
    "promises g ! i = Pending"
    using assms by (auto simp: gw_inv_defs)
  with assms show ?thesis
    by (auto simp: onopen_def current_iff Let_def settle_def setRunState_def setTransportState_def
        gw_inv_defs set_ready_nth nth_list_update)
qed

lemma emit_close_error_core [simp]: "core (emit_close_error c r g) = core g"
  by (simp add: emit_close_error_def split: option.split)

lemma emit_close_error_fields [simp]:
  "ws (emit_close_error c r g) = ws g" "connectPromise (emit_close_error c r g) = connectPromise g"
  "connectionAttemptId (emit_close_error c r g) = connectionAttemptId g"
  "autoReconnect (emit_close_error c r g) = autoReconnect g"
  "reconnectTimer (emit_close_error c r g) = reconnectTimer g"
  "explicitClose (emit_close_error c r g) = explicitClose g" "gw_sockets (emit_close_error c r g) = gw_sockets g"
  "promises (emit_close_error c r g) = promises g" "timers (emit_close_error c r g) = timers g"
  "next_timer (emit_close_error c r g) = next_timer g" "wire (emit_close_error c r g) = wire g"
  by (simp_all add: emit_close_error_def split: option.split)

lemma gw_inv_schedule:
  "gw_inv g \<Longrightarrow> ws g = None \<Longrightarrow> autoReconnect g \<Longrightarrow> \<not> explicitClose g \<Longrightarrow> gw_inv (scheduleReconnect g)"
  using clear_timers [of g] by (auto simp: scheduleReconnect_def Let_def gw_inv_defs)

lemma gw_inv_closed:
  assumes "gw_inv g" "gw_possible g (Sock_close i code reason)"
  shows "gw_inv (gw_step g (Sock_close i code reason))"
proof (cases "ws g = Some i")
  case False
  with assms show ?thesis
    by (auto simp: onclose_def current_iff gw_inv_defs set_ready_nth)
next
  case True
  define h where "h = setRunState Idle (setTransportState (if code \<in> {1000, 4006, 4007} then Disconnected else Failed)
    (emit (Ev_close code reason) (emit_close_error code reason ((set_ready i CLOSED g)\<lparr>ws := None\<rparr>))))"
  define a where "a = gs_attempt (gw_sockets (set_ready i CLOSED g) ! i)"
  define r where "r = Rejected (if reason \<noteq> [] then reason else ''gateway closed'')"
  have "core h = core ((set_ready i CLOSED g)\<lparr>ws := None\<rparr>)" by (simp add: h_def)
  moreover have "gw_inv ((set_ready i CLOSED g)\<lparr>ws := None\<rparr>)"
    using assms True by (auto simp: gw_inv_defs set_ready_nth)
  ultimately have h: "gw_inv h" using gw_inv_cong by blast
  have f: "ws h = None" "explicitClose h = explicitClose g" "autoReconnect h = autoReconnect g"
    by (simp_all add: h_def setRunState_def setTransportState_def)
  have s: "gw_inv (settle a r h)" "ws (settle a r h) = None" "autoReconnect (settle a r h) = autoReconnect h"
    "explicitClose (settle a r h) = explicitClose h"
    using h f by (auto simp: settle_def gw_inv_defs)
  have "gw_step g (Sock_close i code reason) =
    (if \<not> explicitClose h then
       if autoReconnect (settle a r h) \<and> code \<noteq> 4006 \<and> code \<noteq> 4007 then scheduleReconnect (settle a r h)
       else settle a r h
     else h)"
    using True assms(1) by (simp add: onclose_def current_iff Let_def h_def a_def r_def)
  then show ?thesis using h s gw_inv_schedule [of "settle a r h"] by auto
qed

lemma gw_inv_close: "gw_inv g \<Longrightarrow> gw_inv (gw_close g)"
proof -
  assume g: "gw_inv g"
  have t: "timers (clearReconnectTimer (g\<lparr>explicitClose := True\<rparr>)) = []"
    using g by (auto simp: gw_inv_def timers_ok_def clearReconnectTimer_def split: option.split)
  have "gs_ready (gw_sockets g ! i) = CLOSING" if "ws g = Some i" "\<not> socket_is {OPEN, CONNECTING} g" for i
    using that g by (cases "gs_ready (gw_sockets g ! i)") (auto simp: socket_is_def gw_inv_defs)
  with g t show ?thesis
    by (auto simp: gw_close_def Let_def gw_inv_defs socket_is_def nth_list_update setTransportState_def
        setRunState_def split: option.splits)
qed

lemma gw_inv_message: "gw_inv g \<Longrightarrow> gw_inv (onmessage i d u g)"
  using gw_inv_cong [OF core_message] by (simp add: onmessage_def)

lemma gw_inv_send: "gw_inv (send_json m g) = gw_inv g"
  by (simp add: send_json_def split: option.split)

lemma gw_inv_step: "gw_inv g \<Longrightarrow> gw_possible g e \<Longrightarrow> gw_inv (gw_step g e)"
proof (cases e)
  case (Sock_closing i)
  assume "gw_inv g" "gw_possible g e"
  with Sock_closing show ?thesis by (auto simp: gw_inv_defs set_ready_nth)
next
  case (Reconnect t u1 u2)
  assume "gw_inv g" "gw_possible g e"
  then have "timers g = [(t, d)] \<or> timers g = []" if "(t, d) \<in> set (timers g)" for d
    using that by (auto simp: gw_inv_def timers_ok_def)
  with \<open>gw_possible g e\<close> Reconnect have "filter (\<lambda>(u, d). u \<noteq> t) (timers g) = []" by fastforce
  with \<open>gw_inv g\<close> have "gw_inv (g\<lparr>timers := filter (\<lambda>(u, d). u \<noteq> t) (timers g)\<rparr>)"
    by (simp add: gw_inv_defs)
  with Reconnect show ?thesis by (simp add: gw_inv_connect)
qed (auto simp: gw_inv_connect gw_inv_open gw_inv_closed gw_inv_close gw_inv_message gw_inv_send
    sendChatMessage_def sendStopMessage_def rotateSession_def save_session_def gw_on_def gw_off_def
    onerror_def Let_def simp del: gw_step.simps(8,11) split: option.split)

lemma gw_inv_new: "gw_inv (new_gateway b)"
  by (simp add: gw_inv_defs new_gateway_def)

interpretation gateway: guarded_machine "new_gateway b" gw_possible gw_step gw_inv for b
  by unfold_locales (auto intro: gw_inv_new gw_inv_step)

section \<open>After a close\<close>

fun browser_call :: "gw_call \<Rightarrow> bool" where
  "browser_call (Sock_open i) = True"
| "browser_call (Sock_error i) = True"
| "browser_call (Sock_closing i) = True"
| "browser_call (Sock_close i c r) = True"
| "browser_call (Sock_message i d u) = True"
| "browser_call (Reconnect t u1 u2) = True"
| "browser_call _ = False"

definition same_traffic :: "gateway \<Rightarrow> gateway \<Rightarrow> bool" where
  "same_traffic g h \<longleftrightarrow> ws h = None \<and> timers h = [] \<and> length (gw_sockets h) = length (gw_sockets g) \<and>
    wire h = wire g \<and> promises h = promises g \<and> emitted h = emitted g \<and> heard h = heard g"

lemma quiet_step:
  "ws g = None \<Longrightarrow> timers g = [] \<Longrightarrow> browser_call e \<Longrightarrow> gw_possible g e \<Longrightarrow> same_traffic g (gw_step g e)"
  by (cases e) (auto simp: same_traffic_def onopen_def onerror_def onclose_def onmessage_def current_def)

lemma quiet_run:
  "ws g = None \<Longrightarrow> timers g = [] \<Longrightarrow> list_all browser_call es \<Longrightarrow> run_allowed gw_possible gw_step g es \<Longrightarrow>
    same_traffic g (foldl gw_step g es)"
proof (induction es arbitrary: g)
  case (Cons e es)
  from Cons.prems quiet_step [of g e] have st: "same_traffic g (gw_step g e)" by simp
  with Cons.prems Cons.IH [of "gw_step g e"] show ?case by (simp add: same_traffic_def)
qed (simp add: same_traffic_def)

lemma close_quiet: "gw_inv g \<Longrightarrow> ws (gw_close g) = None \<and> timers (gw_close g) = []"
  using clear_timers [of g]
  by (auto simp: gw_close_def Let_def setRunState_def setTransportState_def clearReconnectTimer_def
      gw_inv_def timers_ok_def split: option.split)

text \<open>The promise of an attempt whose socket is not the current one is never settled.\<close>

definition abandoned :: "nat \<Rightarrow> gateway \<Rightarrow> bool" where
  "abandoned i g \<longleftrightarrow> gw_inv g \<and> i < length (gw_sockets g) \<and> ws g \<noteq> Some i \<and> promises g ! i = Pending"

lemma settle_other:
  "promises (settle a r g) = (promises g)[a - 1 := (if promises g ! (a - 1) = Pending then r else promises g ! (a - 1))]"
  by (simp add: settle_def)

lemma promises_schedule [simp]: "promises (scheduleReconnect g) = promises g" "gw_sockets (scheduleReconnect g) = gw_sockets g"
  "ws (scheduleReconnect g) = ws g"
  by (simp_all add: scheduleReconnect_def Let_def)

lemma core_proj [simp]: "ws (core g) = ws g" "gw_sockets (core g) = gw_sockets g" "promises (core g) = promises g"
  by (simp_all add: core_def)

lemma message_fields [simp]:
  "ws (handleMessage d u g) = ws g" "gw_sockets (handleMessage d u g) = gw_sockets g"
  "promises (handleMessage d u g) = promises g"
  using core_message [of d u g] core_proj by metis+

lemma settle_fields [simp]: "ws (settle a r g) = ws g" "gw_sockets (settle a r g) = gw_sockets g"
  by (simp_all add: settle_def)

lemma abandoned_connect:
  fixes g :: gateway
  assumes "i < length (gw_sockets g)" "length (promises g) = length (gw_sockets g)" "ws g \<noteq> Some i"
    "promises g ! i = Pending"
  shows "i < length (gw_sockets (fst (gw_connect sid auto u1 u2 g))) \<and>
    ws (fst (gw_connect sid auto u1 u2 g)) \<noteq> Some i \<and> promises (fst (gw_connect sid auto u1 u2 g)) ! i = Pending"
proof -
  have "ws (choose_session sid u1 g) = ws g" "gw_sockets (choose_session sid u1 g) = gw_sockets g"
    "promises (choose_session sid u1 g) = promises g"
    by (simp_all add: choose_session_def save_session_def)
  with assms show ?thesis
    unfolding gw_connect_def Let_def
    by (simp add: save_session_def setTransportState_def nth_append)
qed

lemma abandoned_socket:
  assumes "abandoned i g" "gw_possible g e" "e = Sock_open j \<or> e = Sock_close j c r"
  shows "ws (gw_step g e) \<noteq> Some i \<and> length (gw_sockets (gw_step g e)) = length (gw_sockets g) \<and>
    promises (gw_step g e) ! i = Pending"
proof (cases "ws g = Some j")
  case True
  have "gs_attempt (gw_sockets g ! j) = Suc j" "j \<noteq> i" "j < length (gw_sockets g)"
    using assms True by (auto simp: abandoned_def gw_inv_defs)
  with assms True show ?thesis
    by (auto simp: abandoned_def onopen_def onclose_def current_iff Let_def settle_other set_ready_nth
        setRunState_def setTransportState_def cong: if_cong split: if_split_asm)
qed (use assms in \<open>auto simp: abandoned_def onopen_def onclose_def current_iff\<close>)

lemma abandoned_step:
  assumes "abandoned i g" "gw_possible g e"
  shows "abandoned i (gw_step g e)"
proof -
  have g: "gw_inv g" "i < length (gw_sockets g)" "ws g \<noteq> Some i" "promises g ! i = Pending"
    "length (promises g) = length (gw_sockets g)"
    using assms by (auto simp: abandoned_def gw_inv_defs)
  have "i < length (gw_sockets (gw_step g e)) \<and> ws (gw_step g e) \<noteq> Some i \<and> promises (gw_step g e) ! i = Pending"
  proof (cases e)
    case (Sock_open j)
    with abandoned_socket [OF assms] g show ?thesis by simp
  next
    case (Sock_close j c r)
    with abandoned_socket [OF assms] g show ?thesis by simp
  next
    case (Connect sid auto u1 u2)
    with abandoned_connect [OF g(2,5,3,4)] show ?thesis by simp
  next
    case (Reconnect t u1 u2)
    with abandoned_connect [of i "g\<lparr>timers := filter (\<lambda>(u, d). u \<noteq> t) (timers g)\<rparr>"] g show ?thesis by simp
  qed (use g in \<open>auto simp: sendChatMessage_def sendStopMessage_def send_json_def rotateSession_def gw_close_def
      save_session_def gw_on_def gw_off_def onerror_def onmessage_def setRunState_def
      setTransportState_def Let_def split: option.split\<close>)
  with gw_inv_step [OF g(1) assms(2)] show ?thesis by (simp add: abandoned_def)
qed

lemma abandoned_run:
  "abandoned i g \<Longrightarrow> run_allowed gw_possible gw_step g es \<Longrightarrow> abandoned i (foldl gw_step g es)"
  by (induction es arbitrary: g) (auto simp: abandoned_step)

lemma abandoned_close:
  assumes "gw_inv g" "ws g = Some i" "gs_ready (gw_sockets g ! i) = CONNECTING"
  shows "abandoned i (gw_close g)"
proof -
  have "i < length (gw_sockets g)" "promises g ! i = Pending" using assms by (auto simp: gw_inv_defs)
  then show ?thesis
    using gw_inv_close [OF assms(1)] close_quiet [OF assms(1)]
    by (simp add: abandoned_def gw_close_def Let_def setRunState_def setTransportState_def)
qed

section \<open>Properties\<close>

text \<open>
  C25: Whatever the page calls and the browser delivers, at most one socket of the gateway is alive:
  every other is closing or closed. While there is a current socket no reconnect is pending; there is
  never more than one, it comes within one to five seconds, and only for a connection that was asked
  to reconnect and was not closed by the page.
\<close>

theorem gateway_one_connection:
  assumes "run_allowed gw_possible gw_step (new_gateway b) es"
  defines "g \<equiv> foldl gw_step (new_gateway b) es"
  shows "(\<forall>i < length (gw_sockets g). ws g = Some i \<or> dead (gs_ready (gw_sockets g ! i))) \<and>
    (ws g = None \<or> timers g = []) \<and> length (timers g) \<le> 1 \<and>
    list_all (\<lambda>(t, d). 1000 \<le> d \<and> d \<le> 5000 \<and> autoReconnect g \<and> \<not> explicitClose g) (timers g)"
proof -
  have "gw_inv g" unfolding g_def by (rule gateway.inv_run [OF assms(1)])
  then show ?thesis by (auto simp: gw_inv_defs)
qed

definition empty_store :: browser_store where
  "empty_store = \<lparr>session_store = None, local_store = \<lambda>_. None\<rparr>"

definition sample_call :: gw_call where
  "sample_call = Connect (Some ''s1'') True ''u1'' ''u2''"

theorem gateway_one_connection_witness:
  "let g = foldl gw_step (new_gateway empty_store) [sample_call, Sock_open 0, Sock_close 0 1006 []]
   in timers g = [(1, 1000)] \<and> length (timers g) \<le> 1 \<and> autoReconnect g"
proof -
  let ?es = "[sample_call, Sock_open 0, Sock_close 0 1006 []]"
  have "run_allowed gw_possible gw_step (new_gateway empty_store) ?es" by code_simp
  from gateway_one_connection [OF this]
  have "length (timers (foldl gw_step (new_gateway empty_store) ?es)) \<le> 1" by blast
  moreover have "timers (foldl gw_step (new_gateway empty_store) ?es) = [(1, 1000)]" "autoReconnect (foldl gw_step (new_gateway empty_store) ?es)"
    by code_simp+
  ultimately show ?thesis by simp
qed

text \<open>
  C26: Closing is final: after \<^verbatim>\<open>close\<close>, whatever the sockets and timers of the browser still deliver,
  no socket is opened, nothing is sent, and no listener is called until the page connects again.
\<close>

theorem gateway_close_is_final:
  assumes "run_allowed gw_possible gw_step (new_gateway b) es"
  defines "g \<equiv> gw_step (foldl gw_step (new_gateway b) es) Close_call"
  assumes "list_all browser_call bs" "run_allowed gw_possible gw_step g bs"
  defines "h \<equiv> foldl gw_step g bs"
  shows "ws h = None \<and> timers h = [] \<and> length (gw_sockets h) = length (gw_sockets g) \<and> wire h = wire g \<and>
    heard h = heard g"
proof -
  have "gw_inv (foldl gw_step (new_gateway b) es)" by (rule gateway.inv_run [OF assms(1)])
  from close_quiet [OF this] have "ws g = None" "timers g = []" by (simp_all add: g_def)
  from quiet_run [OF this assms(3,4)] show ?thesis by (simp add: h_def same_traffic_def)
qed

theorem gateway_close_is_final_witness:
  "let h = foldl gw_step (new_gateway empty_store)
      ([sample_call, Subscribe ''close'' 7, Sock_open 0, Close_call] @ [Sock_close 0 1000 []])
   in ws h = None \<and> heard h = []"
proof -
  let ?es = "[sample_call, Subscribe ''close'' 7, Sock_open 0]" and ?bs = "[Sock_close 0 1000 []]"
  let ?g = "gw_step (foldl gw_step (new_gateway empty_store) ?es) Close_call"
  have "run_allowed gw_possible gw_step (new_gateway empty_store) ?es" "list_all browser_call ?bs"
    "run_allowed gw_possible gw_step ?g ?bs" by code_simp+
  from gateway_close_is_final [OF this] have "ws (foldl gw_step ?g ?bs) = None" "heard (foldl gw_step ?g ?bs) = heard ?g"
    by blast+
  moreover have "heard ?g = []" by code_simp
  ultimately show ?thesis by simp
qed

text \<open>
  C27: A \<^verbatim>\<open>connect\<close> that is still under way when the page calls \<^verbatim>\<open>close\<close> is never answered: whatever
  happens afterwards, its promise is neither resolved nor rejected, so a caller that awaits it waits
  forever.
\<close>

theorem gateway_close_strands_connect:
  assumes "run_allowed gw_possible gw_step (new_gateway b) es"
  defines "g \<equiv> foldl gw_step (new_gateway b) es"
  assumes "ws g = Some i" "gs_ready (gw_sockets g ! i) = CONNECTING"
    "run_allowed gw_possible gw_step (gw_close g) fs"
  shows "promises (foldl gw_step (gw_close g) fs) ! i = Pending"
proof -
  have "gw_inv g" unfolding g_def by (rule gateway.inv_run [OF assms(1)])
  from abandoned_run [OF abandoned_close [OF this assms(3,4)] assms(5)] show ?thesis by (simp add: abandoned_def)
qed

theorem gateway_close_strands_connect_witness:
  "promises (foldl gw_step (gw_close (foldl gw_step (new_gateway empty_store) [sample_call]))
    [Sock_close 0 1006 [], sample_call, Sock_open 1]) = [Pending, Resolved ''s1'']"
proof -
  let ?g = "foldl gw_step (new_gateway empty_store) [sample_call]" and ?fs = "[Sock_close 0 1006 [], sample_call, Sock_open 1]"
  have "run_allowed gw_possible gw_step (new_gateway empty_store) [sample_call]" "ws ?g = Some 0"
    "gs_ready (gw_sockets ?g ! 0) = CONNECTING" "run_allowed gw_possible gw_step (gw_close ?g) ?fs" by code_simp+
  from gateway_close_strands_connect [OF this]
  have "promises (foldl gw_step (gw_close ?g) ?fs) ! 0 = Pending" .
  moreover have "promises (foldl gw_step (gw_close ?g) ?fs) =
    [promises (foldl gw_step (gw_close ?g) ?fs) ! 0, Resolved ''s1'']" by code_simp
  ultimately show ?thesis by metis
qed

text \<open>
  Calling the function that \<^verbatim>\<open>on\<close> returned twice removes the listeners others have added meanwhile: the
  set it keeps is empty, so it deletes the entry of the event, which by then names another set.
\<close>

lemma unsubscribe_twice_silences_others:
  "let g = foldl gw_step (new_gateway empty_store) [Subscribe ''close'' 1, Unsubscribe ''close'' 1 0, Subscribe ''close'' 2]
   in heard (emit (Ev_close 1000 []) g) = [(2, Ev_close 1000 [])] \<and>
      heard (emit (Ev_close 1000 []) (gw_step g (Unsubscribe ''close'' 1 0))) = []"
  by code_simp

text \<open>
  A \<^verbatim>\<open>connect\<close> with another session while a socket is open keeps the socket but takes over the session:
  the next message names a session the socket was not opened for.
\<close>

lemma connect_open_changes_session:
  "let g = foldl gw_step (new_gateway empty_store) [sample_call, Sock_open 0, Connect (Some ''s2'') False ''u'' ''v'']
   in map gs_session (gw_sockets g) = [''s1''] \<and> sessionId g = ''s2''"
  by code_simp

text \<open>The fallback identifier: hexadecimal digits and hyphens in the shape of a version 4 UUID.\<close>

lemma hex_digit_value: "n < 16 \<Longrightarrow> hex_digit_char n \<in> set ''0123456789abcdef''"
proof -
  have "list_all (\<lambda>n. hex_digit_char n \<in> set ''0123456789abcdef'') [0..<16]" by code_simp
  then show "n < 16 \<Longrightarrow> hex_digit_char n \<in> set ''0123456789abcdef''" by (simp add: list_all_iff)
qed

lemma random_digit:
  assumes "0 \<le> r" "r < (1 :: rat)"
  shows "hex_digit_char (nat \<lfloor>r * 16\<rfloor>) \<in> set ''0123456789abcdef''"
    "hex_digit_char ((nat \<lfloor>r * 16\<rfloor> AND 3) OR 8) \<in> set ''89ab''"
proof -
  have n: "nat \<lfloor>r * 16\<rfloor> < 16" using assms by (simp add: floor_less_iff nat_less_iff)
  then show "hex_digit_char (nat \<lfloor>r * 16\<rfloor>) \<in> set ''0123456789abcdef''" by (rule hex_digit_value)
  have "list_all (\<lambda>n. hex_digit_char ((n AND 3) OR 8) \<in> set ''89ab'') [0..<16]" by code_simp
  with n show "hex_digit_char ((nat \<lfloor>r * 16\<rfloor> AND 3) OR 8) \<in> set ''89ab''" by (simp add: list_all_iff)
qed

definition fits :: "char \<Rightarrow> char \<Rightarrow> bool" where
  "fits p c \<longleftrightarrow> (if p = CHR ''x'' then c \<in> set ''0123456789abcdef''
     else if p = CHR ''y'' then c \<in> set ''89ab'' else c = p)"

lemma uuid_fill_fits:
  assumes "list_all (\<lambda>r. 0 \<le> r \<and> r < 1) rs" "length (filter (\<lambda>c. c \<in> set ''xy'') template) \<le> length rs"
  shows "list_all2 fits template (uuid_fill template rs)"
  using assms
proof (induction template arbitrary: rs)
  case (Cons c cs)
  show ?case
  proof (cases "c \<in> set ''xy''")
    case True
    then obtain r rs' where rs: "rs = r # rs'" using Cons.prems(2) by (cases rs) auto
    with Cons.prems True have "list_all2 fits cs (uuid_fill cs rs')" by (intro Cons.IH) auto
    moreover have "0 \<le> r" "r < 1" using Cons.prems(1) rs by auto
    from random_digit [OF this] True
    have "fits c (hex_digit_char (if c = CHR ''x'' then nat \<lfloor>r * 16\<rfloor> else (nat \<lfloor>r * 16\<rfloor> AND 3) OR 8))"
      by (auto simp: fits_def)
    ultimately show ?thesis using True rs by (simp add: Let_def)
  next
    case False
    with Cons.prems have "list_all2 fits cs (uuid_fill cs rs)" by (intro Cons.IH) auto
    moreover have "fits c c" using False by (simp add: fits_def)
    ultimately show ?thesis using False by simp
  qed
qed simp

lemma fallback_uuid_shape:
  assumes "list_all (\<lambda>r. 0 \<le> r \<and> r < 1) rs" "length rs = 31"
  shows "list_all2 fits ''xxxxxxxx-xxxx-4xxx-yxxx-xxxxxxxxxxxx'' (generateUUIDv4 None rs)"
  unfolding generateUUIDv4_def option.case by (rule uuid_fill_fits [OF assms(1)]) (simp add: assms(2))

end
