(* ===== verification/Picoclaw_View.thy ===== *)
theory Picoclaw_View
  imports Picoclaw_Gateway Async
begin

text \<open>
  What the assistant's panel reads from its state, under \<^verbatim>\<open>web/src\<close>: the control status
  (\<^verbatim>\<open>jotai/ai-control.ts\<close>), the chat messages (\<^verbatim>\<open>pages/desktop/picoclaw/message-utils.ts\<close>), the views of the
  runtime status (\<^verbatim>\<open>runtime-view.ts\<close>) and the model form (\<^verbatim>\<open>model-config.ts\<close>). A runtime status is the
  object the service sent, unchecked, so it is a value of JSON of which any field may be missing.
  Translation is a function of the key.
\<close>

section \<open>Reading a status\<close>

text \<open>\<^verbatim>\<open>v?.k\<close>.\<close>

definition opt_field :: "string \<Rightarrow> json option \<Rightarrow> json option" where
  "opt_field k v = (case v of None \<Rightarrow> None | Some j \<Rightarrow> field k j)"

abbreviation is_true :: "json option \<Rightarrow> bool" where
  "is_true v \<equiv> v = Some (JBool True)"

abbreviation is_false :: "json option \<Rightarrow> bool" where
  "is_false v \<equiv> v = Some (JBool False)"

abbreviation is_text :: "string \<Rightarrow> json option \<Rightarrow> bool" where
  "is_text s v \<equiv> v = Some (JStr s)"

fun mode_string :: "control_mode \<Rightarrow> string" where
  "mode_string Off = ''off''"
| "mode_string Mcp = ''mcp''"
| "mode_string Picoclaw = ''picoclaw''"

lemma nullish_read [simp]:
  "nullish None v = v" "nullish (Some JNull) v = v" "nullish (Some (JStr s)) v = Some (JStr s)"
  "nullish (Some (JBool b)) v = Some (JBool b)" "nullish (Some (JNum r)) v = Some (JNum r)"
  by (simp_all add: nullish_def)

section \<open>Control status\<close>

record ai_control =
  a_mode :: control_mode
  a_transitioning :: bool
  canControlPicoclaw :: bool
  changedAt :: "string option"
  lastError :: "string option"
  a_source :: "string option"

definition asRecord :: "json option \<Rightarrow> json option" where
  "asRecord v = as_object v"

definition parseAIControlMode :: "json option \<Rightarrow> control_mode option" where
  "parseAIControlMode v = (case v of Some (JStr s) \<Rightarrow> mode_named s | _ \<Rightarrow> None)"

definition readBoolean :: "json option \<Rightarrow> bool option" where
  "readBoolean v = as_bool v"

definition readString :: "json option \<Rightarrow> string option" where
  "readString v =
    (case v of Some (JStr s) \<Rightarrow> if js_trim s = [] then None else Some s | _ \<Rightarrow> None)"

definition or_else :: "'a option \<Rightarrow> 'a option \<Rightarrow> 'a option" where
  "or_else a b = (case a of None \<Rightarrow> b | Some x \<Rightarrow> Some x)"

definition normalizeAIControlStatus :: "json option \<Rightarrow> string option \<Rightarrow> ai_control option" where
  "normalizeAIControlStatus value source =
    (case asRecord value of
       None \<Rightarrow> None
     | Some record \<Rightarrow>
         let control = asRecord (field ''control'' record);
             capabilities = asRecord (field ''capabilities'' record)
         in case parseAIControlMode
                (nullish (nullish (nullish (opt_field ''mode'' control) (field ''mode'' record))
                  (field ''controlMode'' record)) (field ''control_mode'' record)) of
              None \<Rightarrow> None
            | Some mode \<Rightarrow>
                let transitioning = (readBoolean (nullish (opt_field ''transitioning'' control)
                      (field ''transitioning'' record)) = Some True);
                    explicitCanControl = readBoolean (nullish (nullish (opt_field ''can_control'' control)
                      (field ''can_control'' record)) (field ''canControlPicoclaw'' record));
                    deviceWrite = readBoolean (opt_field ''device_write'' capabilities)
                in Some
                  \<lparr>a_mode = mode, a_transitioning = transitioning,
                   canControlPicoclaw =
                     (case or_else explicitCanControl deviceWrite of
                        Some b \<Rightarrow> b | None \<Rightarrow> mode = Picoclaw \<and> \<not> transitioning),
                   changedAt = readString (nullish (nullish (opt_field ''changed_at'' control)
                     (opt_field ''changedAt'' control)) (field ''changed_at'' record)),
                   lastError = readString (nullish (nullish (opt_field ''last_error'' control)
                     (opt_field ''lastError'' control)) (field ''last_error'' record)),
                   a_source = or_else source (readString (nullish (opt_field ''source'' control)
                     (field ''source'' record)))\<rparr>)"

section \<open>Views of the runtime status\<close>

definition isPicoclawRuntimeInstalling :: "json option \<Rightarrow> bool" where
  "isPicoclawRuntimeInstalling rs \<longleftrightarrow>
    is_true (opt_field ''installing'' rs) \<or> is_text ''installing'' (opt_field ''status'' rs)"

datatype sidebar_mode = View_loading | View_install | View_model | View_chat

definition getPicoclawSidebarMode :: "json option \<Rightarrow> bool \<Rightarrow> sidebar_mode" where
  "getPicoclawSidebarMode rs isInitializing =
    (if isInitializing \<or> \<not> truthy rs then View_loading
     else if is_false (opt_field ''installed'' rs) then View_install
     else if is_false (opt_field ''model_configured'' rs) then View_model
     else View_chat)"

definition canConnectGateway :: "json option \<Rightarrow> bool" where
  "canConnectGateway rs =
    (if \<not> truthy rs then False
     else if isPicoclawRuntimeInstalling rs \<or> is_true (opt_field ''restoring'' rs) then False
     else if is_false (opt_field ''installed'' rs) \<or> is_false (opt_field ''model_configured'' rs) then False
     else if is_true (opt_field ''transitioning'' rs) \<or>
       is_true (opt_field ''transitioning'' (opt_field ''control'' rs)) then False
     else
       let canChat = nullish (opt_field ''chat'' (opt_field ''capabilities'' rs))
             (Some (JBool (is_true (opt_field ''ready'' rs) \<and> \<not> is_text ''mcp'' (opt_field ''control_mode'' rs))))
       in is_true (opt_field ''ready'' rs) \<and> truthy canChat)"

definition getPicoclawSidebarStatusColor ::
  "json option \<Rightarrow> transport_state \<Rightarrow> run_state \<Rightarrow> bool \<Rightarrow> string" where
  "getPicoclawSidebarStatusColor rs ts rst isInitializing =
    (if isInitializing \<or> \<not> truthy rs then ''#38bdf8''
     else if isPicoclawRuntimeInstalling rs \<or> is_true (opt_field ''restoring'' rs) \<or> ts = Connecting
     then ''#38bdf8''
     else if is_false (opt_field ''installed'' rs) \<or> is_false (opt_field ''model_configured'' rs)
     then ''#f59e0b''
     else if \<not> is_true (opt_field ''ready'' rs) \<or> ts = Failed then ''#ef4444''
     else if ts = Disconnected then ''#f59e0b''
     else if ts = Connected \<and> rst = Busy then ''#38bdf8''
     else ''#22c55e'')"

definition stopped_label :: "json option \<Rightarrow> string" where
  "stopped_label status =
    (if is_text ''restoring'' status then ''picoclaw.connection.runtime.restoring''
     else if is_text ''checking'' status then ''picoclaw.connection.runtime.checking''
     else if is_text ''blocked_by_mcp'' status then ''picoclaw.connection.runtime.blockedByMCP''
     else if is_text ''config_error'' status then ''picoclaw.connection.runtime.configError''
     else if is_text ''unavailable'' status then ''picoclaw.connection.runtime.unavailable''
     else ''picoclaw.connection.runtime.stopped'')"

definition runtimeCanWrite :: "json option \<Rightarrow> json option" where
  "runtimeCanWrite rs = nullish (opt_field ''can_control'' (opt_field ''control'' rs))
    (Some (JBool (is_text ''picoclaw'' (opt_field ''control_mode'' rs) \<and> \<not> is_true (opt_field ''transitioning'' rs))))"

fun run_state_string :: "run_state \<Rightarrow> string" where
  "run_state_string Idle = ''idle''"
| "run_state_string Busy = ''busy''"

definition getPicoclawSidebarConnectionLabel ::
  "json option \<Rightarrow> transport_state \<Rightarrow> run_state \<Rightarrow> bool \<Rightarrow> (string \<Rightarrow> string) \<Rightarrow> string" where
  "getPicoclawSidebarConnectionLabel rs ts rst isInitializing t =
    (if isInitializing \<or> \<not> truthy rs then t ''picoclaw.connection.runtime.checking''
     else if isPicoclawRuntimeInstalling rs then t ''picoclaw.install.installing''
     else if is_false (opt_field ''installed'' rs) then t ''picoclaw.install.requiredTitle''
     else if is_false (opt_field ''model_configured'' rs) then t ''picoclaw.model.requiredTitle''
     else if \<not> is_true (opt_field ''ready'' rs) then t (stopped_label (opt_field ''status'' rs))
     else
       let controlMode = nullish (opt_field ''mode'' (opt_field ''control'' rs)) (opt_field ''control_mode'' rs);
           canControl = truthy (runtimeCanWrite rs)
       in if is_text ''mcp'' controlMode \<and> \<not> canControl then t ''picoclaw.connection.runtime.blockedByMCP''
          else if is_text ''off'' controlMode \<and> \<not> canControl then t ''picoclaw.control.off''
          else case ts of
            Connected \<Rightarrow> t ''picoclaw.connection.transport.connected'' @ [CHR '' '', CHR 0xB7, CHR '' ''] @
              t (''picoclaw.connection.run.'' @ run_state_string rst)
          | Connecting \<Rightarrow> t ''picoclaw.connection.transport.connecting''
          | Failed \<Rightarrow> t ''picoclaw.connection.runtime.unavailable''
          | Disconnected \<Rightarrow> t ''picoclaw.connection.transport.disconnected'')"

datatype primary_action = Do_grant | Do_release | Do_none
datatype severity = Success | Warn | Neutral | Info

record control_view =
  v_mode :: json
  v_label :: string
  v_description :: string
  v_canDeviceWrite :: bool
  v_isTransitioning :: bool
  v_isActionPending :: bool
  primaryAction :: primary_action
  primaryActionLabel :: string
  v_severity :: severity

definition derivePicoclawControlViewModel ::
  "ai_control option \<Rightarrow> json option \<Rightarrow> bool \<Rightarrow> (string \<Rightarrow> string) \<Rightarrow> control_view" where
  "derivePicoclawControlViewModel ai rs releasing t =
    (let control = opt_field ''control'' rs;
         mode = the (nullish (nullish (nullish (opt_field ''mode'' control) (opt_field ''control_mode'' rs))
           (map_option (\<lambda>a. JStr (mode_string (a_mode a))) ai)) (Some (JStr ''off'')));
         backendTransitioning = truthy (nullish (nullish (nullish (opt_field ''transitioning'' control)
           (opt_field ''transitioning'' rs)) (map_option (\<lambda>a. JBool (a_transitioning a)) ai))
           (Some (JBool False)));
         isTransitioning = (releasing \<or> backendTransitioning);
         runtimeCanDeviceWrite = (if truthy rs then runtimeCanWrite rs else None);
         canDeviceWrite = (\<not> releasing \<and> truthy (nullish (nullish runtimeCanDeviceWrite
           (map_option (\<lambda>a. JBool (canControlPicoclaw a)) ai)) (Some (JBool False))));
         action = (if isTransitioning then Do_none else if canDeviceWrite then Do_release else Do_grant);
         label = (if releasing then t ''picoclaw.control.releasing''
           else if backendTransitioning then t ''picoclaw.control.switching''
           else if canDeviceWrite then t ''picoclaw.control.release''
           else t ''picoclaw.control.grant'');
         view = (\<lambda>l d w tr p sv. \<lparr>v_mode = mode, v_label = t l, v_description = t d, v_canDeviceWrite = w,
           v_isTransitioning = tr, v_isActionPending = p, primaryAction = action,
           primaryActionLabel = label, v_severity = sv\<rparr>)
     in if releasing then
          view ''picoclaw.control.releasingLabel'' ''picoclaw.control.releasingDescription'' False True True Info
        else if backendTransitioning then
          view ''picoclaw.control.transitioning'' ''picoclaw.control.transitioningDescription'' False True True Info
        else if mode = JStr ''picoclaw'' then
          view ''picoclaw.control.picoclaw'' ''picoclaw.control.picoclawDescription'' canDeviceWrite False False Success
        else if mode = JStr ''mcp'' then
          view ''picoclaw.control.mcp'' ''picoclaw.control.mcpDescription'' False False False Warn
        else
          view ''picoclaw.control.off'' ''picoclaw.control.offDescription'' False False False Neutral)"

section \<open>Messages\<close>

datatype message_kind = K_user | K_assistant | K_status | K_tool_action | K_observation | K_error

datatype raw_value = Raw_json json | Raw_failure failure

record chat_message =
  m_id :: string
  m_kind :: message_kind
  m_text :: "string option"
  imageBase64 :: "string option"
  createdAt :: int
  m_action :: "string option"
  m_raw :: "raw_value option"

definition plain_message :: "string \<Rightarrow> message_kind \<Rightarrow> string \<Rightarrow> int \<Rightarrow> chat_message" where
  "plain_message i k text now =
    \<lparr>m_id = i, m_kind = k, m_text = Some text, imageBase64 = None, createdAt = now, m_action = None, m_raw = None\<rparr>"

definition createStatusMessage :: "string \<Rightarrow> int \<Rightarrow> string \<Rightarrow> chat_message" where
  "createStatusMessage uuid now text = plain_message uuid K_status text now"

definition createErrorMessage :: "string \<Rightarrow> int \<Rightarrow> string \<Rightarrow> raw_value option \<Rightarrow> chat_message" where
  "createErrorMessage uuid now message raw = (plain_message uuid K_error message now)\<lparr>m_raw := raw\<rparr>"

definition createAssistantMessage :: "int \<Rightarrow> string \<Rightarrow> string \<Rightarrow> json \<Rightarrow> chat_message" where
  "createAssistantMessage now i text raw = (plain_message i K_assistant text now)\<lparr>m_raw := Some (Raw_json raw)\<rparr>"

definition createToolActionMessage :: "int \<Rightarrow> string \<Rightarrow> string \<Rightarrow> json \<Rightarrow> chat_message" where
  "createToolActionMessage now i action raw =
    (plain_message i K_tool_action action now)\<lparr>m_action := Some action, m_raw := Some (Raw_json raw)\<rparr>"

definition createObservationMessage :: "int \<Rightarrow> string \<Rightarrow> string \<Rightarrow> string \<Rightarrow> chat_message" where
  "createObservationMessage now i text picture =
    (plain_message i K_observation text now)\<lparr>imageBase64 := Some picture\<rparr>"

definition has_screenshot :: "chat_message \<Rightarrow> bool" where
  "has_screenshot m \<longleftrightarrow> m_kind m = K_observation \<and> imageBase64 m \<noteq> None \<and> imageBase64 m \<noteq> Some []"

fun latestObservationIndex :: "chat_message list \<Rightarrow> nat \<Rightarrow> nat option" where
  "latestObservationIndex ms 0 = None"
| "latestObservationIndex ms (Suc i) =
    (if has_screenshot (ms ! i) then Some i else latestObservationIndex ms i)"

definition drop_screenshot :: "chat_message \<Rightarrow> chat_message" where
  "drop_screenshot m = m\<lparr>imageBase64 := None, m_raw := None\<rparr>"

definition retainLatestObservationScreenshot :: "chat_message list \<Rightarrow> chat_message list" where
  "retainLatestObservationScreenshot ms =
    (case latestObservationIndex ms (length ms) of
       None \<Rightarrow> ms
     | Some l \<Rightarrow>
         map (\<lambda>(i, m). if \<not> has_screenshot m \<or> i = l then m else drop_screenshot m) (enumerate 0 ms))"

section \<open>The model form\<close>

record model_error =
  e_message :: string
  e_field :: "string option"

definition toModelConfigRequest :: "string \<Rightarrow> string \<Rightarrow> string \<Rightarrow> json" where
  "toModelConfigRequest model apiBase apiKey =
    JObj [(''model'', JStr (js_trim model)), (''api_base'', JStr (js_trim apiBase)), (''api_key'', JStr (js_trim apiKey))]"

definition nonEmptyString :: "json option \<Rightarrow> string option" where
  "nonEmptyString v =
    (case v of Some (JStr s) \<Rightarrow> if js_trim s \<noteq> [] then Some (js_trim s) else None | _ \<Rightarrow> None)"

definition config_fields :: "string list" where
  "config_fields = [''model'', ''api_base'', ''api_key'']"

definition fieldOf :: "json option \<Rightarrow> string option" where
  "fieldOf data =
    (case as_object data of
       None \<Rightarrow> None
     | Some d \<Rightarrow> find (\<lambda>candidate. field ''field'' d = Some (JStr candidate)) config_fields)"

definition modelConfigErrorFromResponse :: "json option \<Rightarrow> string \<Rightarrow> model_error" where
  "modelConfigErrorFromResponse response fallback =
    (case as_object response of
       None \<Rightarrow> \<lparr>e_message = fallback, e_field = None\<rparr>
     | Some r \<Rightarrow>
         \<lparr>e_message = (case or_else (nonEmptyString (field ''message'' r)) (nonEmptyString (field ''msg'' r)) of
            Some m \<Rightarrow> m | None \<Rightarrow> fallback),
          e_field = fieldOf (field ''data'' r)\<rparr>)"

fun failure_body :: "failure \<Rightarrow> json option" where
  "failure_body (Js_error m body) = as_object body"
| "failure_body (Dom_exception n m) = None"
| "failure_body (Capture_unsupported r) = None"
| "failure_body (Thrown_value j) = as_object (opt_field ''data'' (as_object (opt_field ''response'' (as_object (Some j)))))"

definition modelConfigErrorFromException :: "failure \<Rightarrow> string \<Rightarrow> model_error" where
  "modelConfigErrorFromException error fallback =
    (let rest = (case failure_text error of
           Some m \<Rightarrow> if js_trim m \<noteq> [] then \<lparr>e_message = m, e_field = None\<rparr>
             else \<lparr>e_message = fallback, e_field = None\<rparr>
         | None \<Rightarrow> \<lparr>e_message = fallback, e_field = None\<rparr>)
     in case failure_body error of
          None \<Rightarrow> rest
        | Some d \<Rightarrow>
            let fromBody = modelConfigErrorFromResponse (Some d) []
            in if e_message fromBody \<noteq> [] then fromBody else rest)"

section \<open>Properties of the messages\<close>

lemma latest_None: "latestObservationIndex ms n = None \<Longrightarrow> i < n \<Longrightarrow> \<not> has_screenshot (ms ! i)"
  by (induction n) (auto simp: less_Suc_eq split: if_splits)

lemma latest_Some:
  "latestObservationIndex ms n = Some l \<Longrightarrow>
    l < n \<and> has_screenshot (ms ! l) \<and> (\<forall>i. l < i \<and> i < n \<longrightarrow> \<not> has_screenshot (ms ! i))"
  by (induction n) (auto simp: less_Suc_eq split: if_splits)

lemma not_has_dropped [simp]: "\<not> has_screenshot (drop_screenshot m)"
  by (simp add: has_screenshot_def drop_screenshot_def)

lemma length_retain [simp]: "length (retainLatestObservationScreenshot ms) = length ms"
  by (simp add: retainLatestObservationScreenshot_def split: option.split)

lemma nth_retain:
  "i < length ms \<Longrightarrow> retainLatestObservationScreenshot ms ! i =
    (if has_screenshot (ms ! i) \<and> (\<exists>j < length ms. i < j \<and> has_screenshot (ms ! j))
     then drop_screenshot (ms ! i) else ms ! i)"
proof (cases "latestObservationIndex ms (length ms)")
  case None
  assume "i < length ms"
  with None latest_None [OF None] show ?thesis by (simp add: retainLatestObservationScreenshot_def)
next
  case (Some l)
  assume i: "i < length ms"
  note l = latest_Some [OF Some]
  from l have "(\<exists>j < length ms. i < j \<and> has_screenshot (ms ! j)) \<longleftrightarrow> i < l"
    by (metis linorder_neqE_nat order_less_trans)
  with i l Some show ?thesis
    by (auto simp: retainLatestObservationScreenshot_def nth_enumerate_eq dest: linorder_neqE_nat)
qed

lemma one_screenshot: "length (filter has_screenshot (retainLatestObservationScreenshot ms)) \<le> 1"
proof -
  let ?S = "{i. i < length ms \<and> has_screenshot (retainLatestObservationScreenshot ms ! i)}"
  have "i = j" if "i \<in> ?S" "j \<in> ?S" for i j
    using that by (cases i j rule: linorder_cases) (auto simp: nth_retain split: if_splits)
  then have "card ?S \<le> Suc 0" using card_le_Suc0_iff_eq [of ?S] by simp
  then show ?thesis by (simp add: length_filter_conv_card)
qed

lemma no_screenshot_added:
  "length (filter has_screenshot ms) \<le> 1 \<Longrightarrow> \<not> has_screenshot m \<Longrightarrow>
    length (filter has_screenshot (ms @ [m])) \<le> 1"
  by simp

text \<open>
  Screenshots in the chat. Keeping only the latest screenshot takes the picture of an
  observation away exactly when a later observation has one, changes no other message and no
  order, leaves at most one picture, and does nothing the second time.
\<close>

theorem latest_screenshot_kept:
  fixes ms defines "r \<equiv> retainLatestObservationScreenshot ms"
  shows "length r = length ms \<and>
    (\<forall>i < length ms. r ! i =
      (if has_screenshot (ms ! i) \<and> (\<exists>j < length ms. i < j \<and> has_screenshot (ms ! j))
       then drop_screenshot (ms ! i) else ms ! i)) \<and>
    length (filter has_screenshot r) \<le> 1 \<and>
    retainLatestObservationScreenshot r = r"
proof -
  have "retainLatestObservationScreenshot r ! i = r ! i" if "i < length ms" for i
    using that nth_retain [of _ ms] nth_retain [of i r] unfolding r_def
    by (auto split: if_splits)
  then show ?thesis
    using nth_retain [of _ ms] one_screenshot [of ms] by (auto simp: r_def intro: nth_equalityI)
qed

theorem latest_screenshot_kept_witness:
  "let shot = (\<lambda>i. createObservationMessage 0 i ''seen'' ''iVBOR''); r = retainLatestObservationScreenshot
     [shot ''a'', createStatusMessage ''b'' 1 ''connected'', shot ''c'']
   in map has_screenshot r = [False, False, True] \<and> length (filter has_screenshot r) \<le> 1"
  using latest_screenshot_kept [of "[createObservationMessage 0 ''a'' ''seen'' ''iVBOR'',
      createStatusMessage ''b'' 1 ''connected'', createObservationMessage 0 ''c'' ''seen'' ''iVBOR'']"]
  by (simp add: retainLatestObservationScreenshot_def has_screenshot_def createObservationMessage_def
      createStatusMessage_def plain_message_def drop_screenshot_def)

section \<open>Properties of the views\<close>

text \<open>
  The control button. The panel offers an action exactly when none is pending; it claims that the
  assistant may write to the device only in the mode of the assistant and then offers to release
  it; while a release is under way it claims nothing and offers nothing.
\<close>

theorem control_view_consistent:
  fixes ai rs releasing t defines "v \<equiv> derivePicoclawControlViewModel ai rs releasing t"
  shows "(primaryAction v = Do_none) = v_isActionPending v \<and>
    v_isTransitioning v = v_isActionPending v \<and>
    (v_canDeviceWrite v \<longrightarrow> v_mode v = JStr ''picoclaw'' \<and> primaryAction v = Do_release) \<and>
    (v_mode v = JStr ''picoclaw'' \<longrightarrow> v_canDeviceWrite v = (primaryAction v = Do_release)) \<and>
    (releasing \<longrightarrow> \<not> v_canDeviceWrite v \<and> v_isActionPending v)"
  by (simp add: v_def derivePicoclawControlViewModel_def Let_def)

theorem control_view_consistent_witness:
  "let v = derivePicoclawControlViewModel None
      (Some (JObj [(''ready'', JBool True), (''control_mode'', JStr ''picoclaw'')])) False id
   in v_canDeviceWrite v \<and> primaryAction v = Do_release \<and> v_mode v = JStr ''picoclaw''"
  using control_view_consistent [of None
      "Some (JObj [(''ready'', JBool True), (''control_mode'', JStr ''picoclaw'')])" False id]
  by (simp add: derivePicoclawControlViewModel_def Let_def opt_field_def nullish_def runtimeCanWrite_def)

text \<open>
  The two sources of the control status agree: a status with a complete control record gives the
  same view whether the panel reads it or the normalised status made from it.
\<close>

lemma normalized_status_same_view:
  assumes "field ''control'' rs = Some (JObj c)" and "map_of c ''mode'' = Some (JStr (mode_string m))"
    and "map_of c ''transitioning'' = Some (JBool b)" and "map_of c ''can_control'' = Some (JBool w)"
  shows "\<exists>a. normalizeAIControlStatus (Some rs) src = Some a \<and>
    derivePicoclawControlViewModel (Some a) None releasing t =
    derivePicoclawControlViewModel None (Some rs) releasing t"
proof -
  obtain entries where rs: "rs = JObj entries" using assms(1) by (cases rs) auto
  have named: "mode_named (mode_string m) = Some m" by (cases m) auto
  have control: "as_object (field ''control'' rs) = Some (JObj c)" using assms(1) by simp
  have "\<exists>a. normalizeAIControlStatus (Some rs) src = Some a \<and> a_mode a = m \<and> a_transitioning a = b \<and>
    canControlPicoclaw a = w"
    using assms(2-4) named control
    by (simp add: rs normalizeAIControlStatus_def asRecord_def parseAIControlMode_def nullish_def opt_field_def
        readBoolean_def or_else_def Let_def del: mode_named.simps)
  then obtain a where a: "normalizeAIControlStatus (Some rs) src = Some a" "a_mode a = m"
    "a_transitioning a = b" "canControlPicoclaw a = w" by blast
  have fields: "opt_field k (opt_field ''control'' (Some rs)) = map_of c k" "opt_field k None = None" for k
    using assms(1) by (simp_all add: opt_field_def)
  have truthy_rs: "truthy (Some rs) = True" "truthy None = False" "(if True then x else y) = (x :: json option)"
    "(if False then x else y) = y" for x y
    by (simp_all add: rs)
  have "derivePicoclawControlViewModel (Some a) None releasing t =
    derivePicoclawControlViewModel None (Some rs) releasing t"
    unfolding derivePicoclawControlViewModel_def Let_def runtimeCanWrite_def fields a assms(2-4) nullish_read
      option.map option.sel truthy_rs ..
  with a show ?thesis by blast
qed

text \<open>
  When the gateway may be connected, the panel shows the chat, its status light is red only
  after a failed transport, and the status is one in which nothing is being installed, restored or
  switched.
\<close>

theorem connectable_shows_chat:
  assumes "canConnectGateway rs"
  shows "getPicoclawSidebarMode rs False = View_chat \<and>
    (getPicoclawSidebarStatusColor rs ts rst False = ''#ef4444'') = (ts = Failed) \<and>
    \<not> isPicoclawRuntimeInstalling rs \<and> is_true (opt_field ''ready'' rs) \<and>
    \<not> is_true (opt_field ''restoring'' rs) \<and> \<not> is_true (opt_field ''transitioning'' rs)"
  using assms
  by (auto simp: canConnectGateway_def getPicoclawSidebarMode_def getPicoclawSidebarStatusColor_def Let_def
      split: if_splits)

theorem connectable_shows_chat_witness:
  "let rs = Some (JObj [(''ready'', JBool True), (''control_mode'', JStr ''off'')])
   in canConnectGateway rs \<and> getPicoclawSidebarMode rs False = View_chat"
  using connectable_shows_chat [of "Some (JObj [(''ready'', JBool True), (''control_mode'', JStr ''off'')])" Connected Idle]
  by (simp add: canConnectGateway_def isPicoclawRuntimeInstalling_def opt_field_def nullish_def)

section \<open>Properties of the form\<close>

lemma fieldOf_known: "fieldOf d = Some f \<Longrightarrow> f \<in> set config_fields"
  by (auto simp: fieldOf_def find_Some_iff split: option.splits)

text \<open>A failed save always shows a text, and names a field only if the form has it.\<close>

lemma save_error_is_shown:
  assumes "fallback \<noteq> []"
  shows "e_message (modelConfigErrorFromResponse r fallback) \<noteq> []"
    and "e_message (modelConfigErrorFromException e fallback) \<noteq> []"
    and "e_field (modelConfigErrorFromException e fallback) = Some f \<Longrightarrow> f \<in> set config_fields"
proof -
  have shown: "nonEmptyString v \<noteq> Some []" for v
    by (simp add: nonEmptyString_def split: option.split json.split)
  show "e_message (modelConfigErrorFromResponse r fallback) \<noteq> []"
    using assms shown
    by (auto simp: modelConfigErrorFromResponse_def or_else_def split: option.splits)
  show "e_message (modelConfigErrorFromException e fallback) \<noteq> []"
    using assms
    by (auto simp: modelConfigErrorFromException_def Let_def js_trim_def split: option.split)
  show "e_field (modelConfigErrorFromException e fallback) = Some f \<Longrightarrow> f \<in> set config_fields"
    by (auto simp: modelConfigErrorFromException_def modelConfigErrorFromResponse_def Let_def
        split: option.splits if_splits dest: fieldOf_known)
qed

end
