(* ===== verification/Sidebar_Page.thy ===== *)
theory Sidebar_Page
  imports Picoclaw_View
begin

text \<open>
  The state of the assistant's panel, and what the gateway's events do to it: the atoms, states and
  references that \<^verbatim>\<open>use-sidebar.ts\<close> creates and passes around, the composition with the gateway of
  \<^verbatim>\<open>Picoclaw_Gateway\<close>, and the listeners of \<^verbatim>\<open>usePicoclawGatewayEvents\<close> (\<^verbatim>\<open>sidebar-effects.ts\<close>), both in
  \<^verbatim>\<open>web/src/pages/desktop/picoclaw\<close>.

  One mounting of the panel is modelled. The functions the page calls read the state of the last
  rendering; a rendering follows every change. Identifiers and the clock are the page's: the
  \<open>n\<close>-th identifier drawn is \<open>fresh_id p n\<close>. A listener calls nothing of the gateway, so the listeners run
  when the operation of the gateway that emitted the events is done, and an asynchronous function
  a listener starts is started then, by a note in \<open>spawned\<close>.
\<close>

section \<open>State\<close>

datatype mutation =
  No_mutation | Control_grant | Control_release | Runtime_start | Runtime_stop | Runtime_install
| Runtime_uninstall | Agent_switch | Model_save | Session_switch

record takeover_state =
  tk_active :: bool
  tk_session :: "string option"
  tk_reason :: "string option"

record overlay_state =
  ov_visible :: bool
  ov_message :: string
  ov_x :: "rat option"
  ov_y :: "rat option"
  ov_action :: "string option"

definition HIDDEN_OVERLAY :: overlay_state where
  "HIDDEN_OVERLAY = \<lparr>ov_visible = False, ov_message = [], ov_x = None, ov_y = None, ov_action = None\<rparr>"

record refresh_options =
  force :: bool
  preserveRuntimeOnError :: bool
  allowDuringMutation :: bool

datatype spawn =
  Spawn_refresh refresh_options
| Spawn_confirm int string bool  \<comment> \<open>deadline, source, whether a switch is announced\<close>

record panel =
  messages :: "chat_message list"
  transportState :: transport_state
  runState :: run_state
  runtimeStatus :: "json option"
  aiControlStatus :: "ai_control option"
  takeover :: takeover_state
  overlay :: overlay_state
  keyboardLocks :: "string list"
  inputFocused :: bool
  modelApiBase :: string
  modelApiKey :: string
  modelIdentifier :: string
  isInitializing :: bool
  isModelConfigOpen :: bool
  isHistoryOpen :: bool
  isInstallRequestPending :: bool
  isUninstallRequestPending :: bool
  isSavingModelConfig :: bool
  modelConfigError :: "model_error option"
  isSwitchingAgent :: bool
  isSwitchingSession :: bool
  isTogglingRuntime :: bool
  isReleasingControl :: bool
  picoclawMutation :: mutation
  isFreshConversation :: bool
  isLoadingHistory :: bool
  isDeletingSession :: bool
  historySessions :: "json list"
  activeSessionId :: string
  installSnapshot :: "install_snapshot option"
  mutationRef :: mutation
  mutationEpoch :: nat
  refreshRequestSeq :: nat
  refreshStatePromise :: "nat option"
  refresh_results :: "(nat \<times> (failure + json option)) list"
  previousInstalling :: bool
  lastAttemptAt :: int
  config_steps :: rat
  config_runtime :: rat
  gw :: gateway
  mounted :: bool
  spawned :: "spawn list"
  clock :: int
  drawn :: nat
  fresh_id :: "nat \<Rightarrow> string"
  translate :: "string \<Rightarrow> string"

text \<open>The states \<^verbatim>\<open>useSidebar\<close> starts with, over the atoms of an application where the panel was not opened.\<close>

definition new_panel ::
  "gateway \<Rightarrow> (nat \<Rightarrow> string) \<Rightarrow> (string \<Rightarrow> string) \<Rightarrow> rat \<Rightarrow> rat \<Rightarrow> int \<Rightarrow> panel" where
  "new_panel g ids tr steps ms now =
    \<lparr>messages = [], transportState = Disconnected, runState = Idle, runtimeStatus = None,
     aiControlStatus = None, takeover = \<lparr>tk_active = False, tk_session = None, tk_reason = None\<rparr>,
     overlay = HIDDEN_OVERLAY, keyboardLocks = [], inputFocused = False, modelApiBase = [],
     modelApiKey = [], modelIdentifier = [], isInitializing = True, isModelConfigOpen = False,
     isHistoryOpen = False, isInstallRequestPending = False, isUninstallRequestPending = False,
     isSavingModelConfig = False, modelConfigError = None, isSwitchingAgent = False,
     isSwitchingSession = False, isTogglingRuntime = False, isReleasingControl = False,
     picoclawMutation = No_mutation, isFreshConversation = True, isLoadingHistory = False,
     isDeletingSession = False, historySessions = [], activeSessionId = [],
     installSnapshot = getPicoclawRuntimeInstallSnapshot (page_store g), mutationRef = No_mutation,
     mutationEpoch = 0, refreshRequestSeq = 0, refreshStatePromise = None, refresh_results = [],
     previousInstalling = False, lastAttemptAt = 0, config_steps = steps, config_runtime = ms, gw = g,
     mounted = True, spawned = [], clock = now, drawn = 0, fresh_id = ids, translate = tr\<rparr>"

section \<open>Small operations\<close>

definition add_message :: "chat_message \<Rightarrow> panel \<Rightarrow> panel" where
  "add_message m p = p\<lparr>messages := messages p @ [m]\<rparr>"

text \<open>\<^verbatim>\<open>setMessages\<close> with \<^verbatim>\<open>createStatusMessage(t(key))\<close> or \<^verbatim>\<open>createErrorMessage\<close> at the end.\<close>

definition say :: "string \<Rightarrow> panel \<Rightarrow> panel" where
  "say key p =
    add_message (createStatusMessage (fresh_id p (drawn p)) (clock p) (translate p key)) (p\<lparr>drawn := Suc (drawn p)\<rparr>)"

definition show_error :: "string \<Rightarrow> raw_value option \<Rightarrow> panel \<Rightarrow> panel" where
  "show_error message raw p =
    add_message (createErrorMessage (fresh_id p (drawn p)) (clock p) message raw) (p\<lparr>drawn := Suc (drawn p)\<rparr>)"

definition PICOCLAW_INPUT_KEYBOARD_LOCK_SOURCE :: string where
  "PICOCLAW_INPUT_KEYBOARD_LOCK_SOURCE = ''picoclaw-input''"

definition setKeyboardLock :: "string \<Rightarrow> bool \<Rightarrow> panel \<Rightarrow> panel" where
  "setKeyboardLock source locked p =
    p\<lparr>keyboardLocks := (if locked then js_add source (keyboardLocks p) else js_delete source (keyboardLocks p))\<rparr>"

text \<open>Whether the focused element is inside the panel is the field \<open>inputFocused\<close>.\<close>

definition releasePicoclawInputFocus :: "panel \<Rightarrow> panel" where
  "releasePicoclawInputFocus p = p\<lparr>inputFocused := False\<rparr>"

definition release_input :: "panel \<Rightarrow> panel" where
  "release_input p = setKeyboardLock PICOCLAW_INPUT_KEYBOARD_LOCK_SOURCE False (releasePicoclawInputFocus p)"

definition end_takeover :: "string \<Rightarrow> panel \<Rightarrow> panel" where
  "end_takeover reason p = p\<lparr>takeover := (takeover p)\<lparr>tk_active := False, tk_reason := Some reason\<rparr>\<rparr>"

definition set_takeover :: "bool \<Rightarrow> string option \<Rightarrow> string \<Rightarrow> panel \<Rightarrow> panel" where
  "set_takeover active session reason p =
    p\<lparr>takeover := \<lparr>tk_active = active, tk_session = session, tk_reason = Some reason\<rparr>\<rparr>"

text \<open>\<^verbatim>\<open>{...status, k: v}\<close>; a property set to \<^verbatim>\<open>undefined\<close> reads as one that is absent.\<close>

definition spread :: "json \<Rightarrow> (string \<times> json option) list \<Rightarrow> json" where
  "spread j ps =
    JObj (fold (\<lambda>(k, v) m. case v of Some x \<Rightarrow> AList.update k x m | None \<Rightarrow> AList.delete k m) ps
      (case j of JObj m \<Rightarrow> m | _ \<Rightarrow> []))"

text \<open>\<^verbatim>\<open>setRuntimeStatus((current) => current ? f(current) : current)\<close>.\<close>

definition update_status :: "(json \<Rightarrow> json) \<Rightarrow> panel \<Rightarrow> panel" where
  "update_status f p =
    (if truthy (runtimeStatus p) then p\<lparr>runtimeStatus := Some (f (the (runtimeStatus p)))\<rparr> else p)"

definition update_control :: "(ai_control \<Rightarrow> ai_control) \<Rightarrow> panel \<Rightarrow> panel" where
  "update_control f p = p\<lparr>aiControlStatus := map_option f (aiControlStatus p)\<rparr>"

definition syncAIControlStatus :: "json option \<Rightarrow> string \<Rightarrow> panel \<Rightarrow> panel" where
  "syncAIControlStatus v source p =
    (case normalizeAIControlStatus v (Some source) of
       None \<Rightarrow> p
     | Some c \<Rightarrow> p\<lparr>aiControlStatus := Some c\<rparr>)"

definition capabilities_json :: "json option \<Rightarrow> json option \<Rightarrow> bool \<Rightarrow> json" where
  "capabilities_json chat tools write =
    object_literal [(''chat'', chat), (''read_only_tools'', tools), (''device_write'', Some (JBool write))]"

text \<open>The capabilities kept when only the right to write changes.\<close>

definition keep_capabilities :: "json \<Rightarrow> bool \<Rightarrow> json" where
  "keep_capabilities s write =
    (let ready = Some (JBool (is_true (field ''ready'' s))); c = field ''capabilities'' s
     in capabilities_json (nullish (opt_field ''chat'' c) ready) (nullish (opt_field ''read_only_tools'' c) ready) write)"

section \<open>What the gateway's events do\<close>

definition clearDeviceControlUI :: "string \<Rightarrow> panel \<Rightarrow> panel" where
  "clearDeviceControlUI reason p =
    (end_takeover reason (release_input p))\<lparr>overlay := HIDDEN_OVERLAY, runState := Idle\<rparr>"

definition clearActiveGatewayUI :: "string \<Rightarrow> panel \<Rightarrow> panel" where
  "clearActiveGatewayUI reason p =
    (end_takeover reason (release_input p))\<lparr>overlay := HIDDEN_OVERLAY, transportState := Disconnected, runState := Idle\<rparr>"

definition markRuntimeTransportUnavailable :: "string \<Rightarrow> panel \<Rightarrow> panel" where
  "markRuntimeTransportUnavailable reason p =
    (let p = (end_takeover reason (release_input p))\<lparr>overlay := HIDDEN_OVERLAY, runState := Idle\<rparr>
     in p\<lparr>spawned := spawned p @
       [Spawn_refresh \<lparr>force = True, preserveRuntimeOnError = True, allowDuringMutation = False\<rparr>]\<rparr>)"

definition STATUS_CONFIRM_TIMEOUT_MS :: int where "STATUS_CONFIRM_TIMEOUT_MS = 10000"
definition STATUS_CONFIRM_INTERVAL_MS :: int where "STATUS_CONFIRM_INTERVAL_MS = 500"
definition STATUS_REFRESH_INTERVAL_MS :: int where "STATUS_REFRESH_INTERVAL_MS = 3000"

definition spawn_confirm :: "string \<Rightarrow> bool \<Rightarrow> panel \<Rightarrow> panel" where
  "spawn_confirm source announce p =
    p\<lparr>spawned := spawned p @ [Spawn_confirm (clock p + STATUS_CONFIRM_TIMEOUT_MS) source announce]\<rparr>"

fun transport_string :: "transport_state \<Rightarrow> string" where
  "transport_string Disconnected = ''disconnected''"
| "transport_string Connecting = ''connecting''"
| "transport_string Connected = ''connected''"
| "transport_string Failed = ''error''"

definition on_transport_state :: "transport_state \<Rightarrow> panel \<Rightarrow> panel" where
  "on_transport_state s p =
    (let p = p\<lparr>transportState := s\<rparr>
     in if s = Connected then
          let sid = sessionId (gw p)
          in (p\<lparr>activeSessionId := sid\<rparr>)\<lparr>takeover := \<lparr>tk_active = True,
               tk_session = (if tk_session (takeover p) \<noteq> None \<and> tk_session (takeover p) \<noteq> Some []
                 then tk_session (takeover p) else Some sid),
               tk_reason = Some (transport_string s)\<rparr>\<rparr>
        else if s = Failed then markRuntimeTransportUnavailable ''transport_error'' p
        else (end_takeover (transport_string s) p)\<lparr>overlay := HIDDEN_OVERLAY, runState := Idle\<rparr>)"

fun replace_message :: "chat_message \<Rightarrow> chat_message list \<Rightarrow> chat_message list" where
  "replace_message m [] = [m]"
| "replace_message m (x # xs) = (if m_id x = m_id m then m # xs else x # replace_message m xs)"

definition control_json :: "control_status \<Rightarrow> json" where
  "control_json c = object_literal
    [(''mode'', Some (JStr (mode_string (c_mode c)))), (''transitioning'', Some (JBool (c_transitioning c))),
     (''can_control'', Some (JBool (can_control c))), (''last_error'', map_option JStr (c_last_error c)),
     (''changed_at'', map_option JStr (changed_at c)), (''source'', map_option JStr (c_source c))]"

definition on_control_mode_changed :: "control_status \<Rightarrow> panel \<Rightarrow> panel" where
  "on_control_mode_changed c p =
    (let p = syncAIControlStatus (Some (control_json c)) (case c_source c of Some s \<Rightarrow> s | None \<Rightarrow> ''gateway'') p;
         p = update_status (\<lambda>s. spread s
           [(''control_mode'', Some (JStr (mode_string (c_mode c)))),
            (''transitioning'', Some (JBool (c_transitioning c))), (''control'', Some (control_json c)),
            (''capabilities'', Some (keep_capabilities s (can_control c)))]) p
     in if \<not> can_control c then
          if c_mode c = Mcp then clearActiveGatewayUI ''control_mcp'' p
          else clearDeviceControlUI ''control_released'' p
        else p)"

definition no_longer_picoclaw :: "json option \<Rightarrow> json option" where
  "no_longer_picoclaw v = (if is_text ''picoclaw'' v then Some (JStr ''off'') else v)"

definition stopped_status :: "json \<Rightarrow> json" where
  "stopped_status s = spread s
    [(''ready'', Some (JBool False)), (''status'', Some (JStr ''stopped'')), (''current_session'', Some (JStr [])),
     (''control_mode'', no_longer_picoclaw (field ''control_mode'' s)), (''transitioning'', Some (JBool False)),
     (''control'', if truthy (field ''control'' s) then
        Some (spread (the (field ''control'' s))
          [(''mode'', no_longer_picoclaw (opt_field ''mode'' (field ''control'' s))),
           (''transitioning'', Some (JBool False)), (''can_control'', Some (JBool False))])
      else field ''control'' s),
     (''capabilities'', Some (capabilities_json (Some (JBool False)) (Some (JBool False)) False))]"

definition on_close :: "nat \<Rightarrow> panel \<Rightarrow> panel" where
  "on_close code p =
    (if code = 4006 then
       let p = clearActiveGatewayUI ''control_mode_switched'' p;
           p = update_control (\<lambda>a. a\<lparr>a_transitioning := True, canControlPicoclaw := False,
             a_source := Some ''gateway_close''\<rparr>) p;
           p = update_status (\<lambda>s. spread s [(''transitioning'', Some (JBool True))]) p
       in spawn_confirm ''gateway_close'' True p
     else if code = 4007 then
       let p = clearActiveGatewayUI ''runtime_stopped'' p;
           p = update_control (\<lambda>a. a\<lparr>a_mode := (if a_mode a = Picoclaw then Off else a_mode a),
             a_transitioning := False, canControlPicoclaw := False,
             a_source := Some ''gateway_runtime_stopped''\<rparr>) p;
           p = update_status stopped_status p;
           p = spawn_confirm ''gateway_runtime_stopped'' False p
       in if \<not> isTogglingRuntime p then say ''picoclaw.status.runtimeStopped'' p else p
     else if code = 1000 then say ''picoclaw.status.disconnected'' p
     else p)"

fun listen :: "gateway_event \<Rightarrow> panel \<Rightarrow> panel" where
  "listen (Ev_connected sid) p =
    say ''picoclaw.status.connected'' (set_takeover True (Some sid) ''connected'' (p\<lparr>activeSessionId := sid\<rparr>))"
| "listen (Ev_transport s) p = on_transport_state s p"
| "listen (Ev_run s) p = p\<lparr>runState := s\<rparr>"
| "listen (Ev_assistant i text raw) p =
    p\<lparr>messages := replace_message (createAssistantMessage (clock p) i text raw) (messages p)\<rparr>"
| "listen (Ev_tool i action x y raw) p =
    (add_message (createToolActionMessage (clock p) i action raw) p)\<lparr>overlay :=
      \<lparr>ov_visible = True,
       ov_message = translate p ''picoclaw.overlay.locked'' @ [CHR '' '', CHR 0xB7, CHR '' ''] @ action,
       ov_x = x, ov_y = y, ov_action = Some action\<rparr>\<rparr>"
| "listen (Ev_observation i text picture raw) p =
    p\<lparr>messages := retainLatestObservationScreenshot
      (messages p @ [createObservationMessage (clock p) i text picture])\<rparr>"
| "listen (Ev_error code message raw) p = show_error message (map_option Raw_json raw) p"
| "listen (Ev_control c) p = on_control_mode_changed c p"
| "listen (Ev_close code reason) p = on_close code p"

text \<open>An operation of the gateway, and then the listeners, while the panel is mounted.\<close>

definition via_gateway :: "(gateway \<Rightarrow> gateway) \<Rightarrow> panel \<Rightarrow> panel" where
  "via_gateway f p =
    (let g = f (gw p); events = drop (length (emitted (gw p))) (emitted g); p = p\<lparr>gw := g\<rparr>
     in if mounted p then fold listen events p else p)"

end
