(* ===== verification/Sidebar_Actions.thy ===== *)
theory Sidebar_Actions
  imports Sidebar_Page
begin

text \<open>
  The actions of the assistant's panel on the runtime, the functions
  \<^verbatim>\<open>createPicoclawSidebarActions\<close> of \<^verbatim>\<open>web/src/pages/desktop/picoclaw/sidebar-actions.ts\<close> makes, as programs
  of the theory \<^verbatim>\<open>Async\<close>: refreshing the status, starting and stopping the runtime, granting and releasing
  control, installing and uninstalling, saving the model and switching the agent. Timings written
  to the console are left out.
\<close>

section \<open>Requests\<close>

text \<open>
  What a program awaits: an HTTP request (method, path, body), the refresh another caller started,
  the promise of an attempt to connect, or a time. \<open>Answered None\<close> is the value \<^verbatim>\<open>undefined\<close>.
\<close>

datatype page_request =
  Http string string "json option"
| Joined nat
| Connection nat
| Delay int

datatype answer = Answered "json option" | Rejected_with failure

type_synonym 'a program = "(panel, page_request, answer, 'a) async"

definition fetch :: "page_request \<Rightarrow> json option program" where
  "fetch q = Await q (\<lambda>w. case w of Answered v \<Rightarrow> Return v | Rejected_with e \<Rightarrow> Throw e)"

definition attempt :: "'a program \<Rightarrow> (failure + 'a) program" where
  "attempt p = catching (and_then p (\<lambda>x. Return (Inr x))) (\<lambda>e. Return (Inl e))"

definition sleep :: "int \<Rightarrow> unit program" where
  "sleep ms = Get (\<lambda>p. ignoring (fetch (Delay (clock p + ms))))"

text \<open>\<^verbatim>\<open>connectGateway\<close> and \<^verbatim>\<open>closeGateway\<close> of \<^verbatim>\<open>web/src/api/picoclaw.ts\<close>.\<close>

definition start_connect :: "string option \<Rightarrow> panel \<Rightarrow> panel" where
  "start_connect sid p =
    via_gateway (\<lambda>g. fst (gw_connect sid False (fresh_id p (drawn p)) (fresh_id p (Suc (drawn p))) g))
      (p\<lparr>drawn := drawn p + 2\<rparr>)"

definition connectGateway :: "string option \<Rightarrow> json option program" where
  "connectGateway sid = Get (\<lambda>p.
    case snd (gw_connect sid False (fresh_id p (drawn p)) (fresh_id p (Suc (drawn p))) (gw p)) of
      Immediate s \<Rightarrow> Modify (start_connect sid) (Return (Some (JStr s)))
    | Attempt a \<Rightarrow> Modify (start_connect sid) (fetch (Connection a)))"

definition try_connect :: "string option \<Rightarrow> bool program" where
  "try_connect sid = catching (and_then (connectGateway sid) (\<lambda>_. Return True)) (\<lambda>_. Return False)"

text \<open>The part of \<^verbatim>\<open>closeGateway\<close> that runs at once, and the whole of it.\<close>

definition close_now :: "panel \<Rightarrow> panel" where
  "close_now p = via_gateway gw_close p"

definition release_session :: "string \<Rightarrow> unit program" where
  "release_session sid =
    (if sid = [] then Return ()
     else ignoring (attempt (fetch (Http ''DELETE'' ''/api/picoclaw/runtime/session'' (Some (JStr sid))))))"

section \<open>Status\<close>

definition syncRuntimeStatus :: "json option \<Rightarrow> string \<Rightarrow> panel \<Rightarrow> panel" where
  "syncRuntimeStatus status source p = syncAIControlStatus status source (p\<lparr>runtimeStatus := status\<rparr>)"

definition beginMutation :: "mutation \<Rightarrow> panel \<Rightarrow> panel \<times> bool" where
  "beginMutation m p =
    (if mutationRef p \<noteq> No_mutation then (p, False)
     else (p\<lparr>mutationRef := m, mutationEpoch := mutationEpoch p + 1, refreshStatePromise := None,
             picoclawMutation := m\<rparr>, True))"

definition endMutation :: "mutation \<Rightarrow> panel \<Rightarrow> panel" where
  "endMutation m p =
    (if mutationRef p \<noteq> m then p
     else p\<lparr>mutationRef := No_mutation, mutationEpoch := mutationEpoch p + 1, refreshStatePromise := None,
            picoclawMutation := No_mutation\<rparr>)"

definition unavailable_status :: "json \<Rightarrow> json" where
  "unavailable_status s =
    (if truthy (field ''installing'' s) \<or>
       (\<not> is_true (field ''ready'' s) \<and> \<not> is_text ''ready'' (field ''status'' s) \<and>
        \<not> is_true (opt_field ''chat'' (field ''capabilities'' s)))
     then s
     else spread s
       [(''ready'', Some (JBool False)), (''restoring'', Some (JBool False)),
        (''status'', Some (JStr ''unavailable'')), (''current_session'', Some (JStr [])),
        (''control'', if truthy (field ''control'' s)
           then Some (spread (the (field ''control'' s)) [(''can_control'', Some (JBool False))])
           else field ''control'' s),
        (''capabilities'', Some (capabilities_json (Some (JBool False)) (Some (JBool False)) False))])"

definition markRuntimeStatusUnavailable :: "string \<Rightarrow> panel \<Rightarrow> panel" where
  "markRuntimeStatusUnavailable source p =
    (let p = (end_takeover source (release_input p))\<lparr>overlay := HIDDEN_OVERLAY, transportState := Failed,
               runState := Idle\<rparr>;
         p = update_control (\<lambda>a. a\<lparr>canControlPicoclaw := False, a_source := Some source\<rparr>) p
     in update_status unavailable_status p)"

definition STATUS :: page_request where
  "STATUS = Http ''GET'' ''/api/picoclaw/runtime/status'' None"

definition canCommit :: "refresh_options \<Rightarrow> nat \<Rightarrow> nat \<Rightarrow> panel \<Rightarrow> bool" where
  "canCommit opts requestId requestEpoch p \<longleftrightarrow>
    requestId = refreshRequestSeq p \<and> (force opts \<or> requestEpoch = mutationEpoch p) \<and>
    (mutationRef p = No_mutation \<or> allowDuringMutation opts)"

definition refreshPromise :: "refresh_options \<Rightarrow> nat \<Rightarrow> nat \<Rightarrow> json option program" where
  "refreshPromise opts requestId requestEpoch =
    (let failed = (\<lambda>source. Modify
           (\<lambda>p. if \<not> preserveRuntimeOnError opts then markRuntimeStatusUnavailable source p else p)
           (Return None))
     in and_then (attempt (fetch STATUS)) (\<lambda>r. case r of
          Inl e \<Rightarrow> failed ''runtime_status_unavailable''
        | Inr runtimeRsp \<Rightarrow> and_then (member ''code'' runtimeRsp) (\<lambda>code.
            if code = Some (JNum 0) then
              let nextStatus = opt_field ''data'' runtimeRsp
              in Modify (\<lambda>p. if canCommit opts requestId requestEpoch p
                   then syncRuntimeStatus nextStatus ''picoclaw_runtime_status'' p else p) (Return nextStatus)
            else failed ''runtime_status_error'')))"

text \<open>The promise keeps its outcome for those who joined.\<close>

definition note_result :: "nat \<Rightarrow> failure + json option \<Rightarrow> panel \<Rightarrow> panel" where
  "note_result r v p = p\<lparr>refresh_results := (r, v) # refresh_results p\<rparr>"

definition recording :: "nat \<Rightarrow> json option program \<Rightarrow> json option program" where
  "recording r q = catching (and_then q (\<lambda>v. Modify (note_result r (Inr v)) (Return v)))
    (\<lambda>e. Modify (note_result r (Inl e)) (Throw e))"

definition forget_promise :: "refresh_options \<Rightarrow> nat \<Rightarrow> panel \<Rightarrow> panel" where
  "forget_promise opts requestId p =
    (if \<not> force opts \<and> refreshStatePromise p = Some requestId then p\<lparr>refreshStatePromise := None\<rparr> else p)"

definition open_request :: "refresh_options \<Rightarrow> nat \<Rightarrow> panel \<Rightarrow> panel" where
  "open_request opts requestId p =
    (let p = p\<lparr>refreshRequestSeq := requestId\<rparr>
     in if \<not> force opts then p\<lparr>refreshStatePromise := Some requestId\<rparr> else p)"

definition refreshState :: "refresh_options \<Rightarrow> json option program" where
  "refreshState opts = Get (\<lambda>p.
    if \<not> force opts \<and> mutationRef p \<noteq> No_mutation \<and> \<not> allowDuringMutation opts
    then Return (runtimeStatus p)
    else case (if force opts then None else refreshStatePromise p) of
      Some r \<Rightarrow> fetch (Joined r)
    | None \<Rightarrow>
        let requestId = refreshRequestSeq p + 1
        in Modify (open_request opts requestId)
             (finally_do (recording requestId (refreshPromise opts requestId (mutationEpoch p)))
               (forget_promise opts requestId)))"

abbreviation forced :: refresh_options where
  "forced \<equiv> \<lparr>force = True, preserveRuntimeOnError = False, allowDuringMutation = True\<rparr>"

abbreviation forced_preserving :: refresh_options where
  "forced_preserving \<equiv> \<lparr>force = True, preserveRuntimeOnError = True, allowDuringMutation = True\<rparr>"

abbreviation forced_outside :: refresh_options where
  "forced_outside \<equiv> \<lparr>force = True, preserveRuntimeOnError = True, allowDuringMutation = False\<rparr>"

abbreviation ordinary :: refresh_options where
  "ordinary \<equiv> \<lparr>force = False, preserveRuntimeOnError = False, allowDuringMutation = False\<rparr>"

section \<open>Reading answers\<close>

fun isUnexpectedEOFError :: "raw_value \<Rightarrow> bool" where
  "isUnexpectedEOFError (Raw_failure e) =
    (case failure_text e of
       None \<Rightarrow> False
     | Some m \<Rightarrow> js_includes (js_lower m) ''unexpected eof'' \<or> js_lower m = ''eof'')"
| "isUnexpectedEOFError (Raw_json j) = False"

definition isExpectedRuntimeState :: "json option \<Rightarrow> bool \<Rightarrow> bool" where
  "isExpectedRuntimeState status shouldStop \<longleftrightarrow> truthy status \<and>
    (let controlMode = nullish (opt_field ''mode'' (opt_field ''control'' status)) (opt_field ''control_mode'' status);
         isTransitioning = (is_true (opt_field ''transitioning'' (opt_field ''control'' status)) \<or>
           is_true (opt_field ''transitioning'' status));
         desired = opt_field ''desired_running'' (opt_field ''runtime_intent'' status)
     in if shouldStop then
          is_false (opt_field ''ready'' status) \<and> is_text ''stopped'' (opt_field ''status'' status) \<and>
          is_false desired \<and> is_text ''off'' controlMode
        else
          is_true (opt_field ''ready'' status) \<and> is_text ''ready'' (opt_field ''status'' status) \<and>
          \<not> is_false (opt_field ''installed'' status) \<and> \<not> is_true (opt_field ''installing'' status) \<and>
          \<not> is_false (opt_field ''model_configured'' status) \<and> is_text ''picoclaw'' controlMode \<and>
          \<not> isTransitioning \<and> is_true desired)"

definition parseRuntimeStatus :: "json option \<Rightarrow> json option" where
  "parseRuntimeStatus v =
    (case as_object v of
       None \<Rightarrow> None
     | Some j \<Rightarrow>
         if as_bool (field ''ready'' j) = None \<or> as_string (field ''control_mode'' j) = None then None
         else Some j)"

definition runtimeStatusFromResponse :: "json option \<Rightarrow> json option" where
  "runtimeStatusFromResponse response =
    (case as_object (opt_field ''data'' (as_object response)) of
       None \<Rightarrow> None
     | Some d \<Rightarrow> or_else (parseRuntimeStatus (field ''status'' d)) (parseRuntimeStatus (field ''runtime'' d)))"

definition responseCode :: "json option \<Rightarrow> json option" where
  "responseCode response = opt_field ''code'' (as_object response)"

definition text_of :: "json option \<Rightarrow> string" where
  "text_of v = (case v of Some (JStr s) \<Rightarrow> s | _ \<Rightarrow> [])"

definition responseMessage :: "json option \<Rightarrow> string" where
  "responseMessage response =
    (case as_object response of
       None \<Rightarrow> []
     | Some r \<Rightarrow> text_of (js_or (field ''message'' r) (field ''msg'' r)))"

definition runtimeStatusError :: "json option \<Rightarrow> string" where
  "runtimeStatusError status = text_of (js_or (opt_field ''last_error'' status) (opt_field ''config_error'' status))"

definition responseCleanupWarning :: "json option \<Rightarrow> string" where
  "responseCleanupWarning response =
    text_of (opt_field ''cleanup_warning'' (as_object (opt_field ''data'' (as_object response))))"

text \<open>\<^verbatim>\<open>a || b\<close> on strings.\<close>

definition or_text :: "string \<Rightarrow> string \<Rightarrow> string" where
  "or_text a b = (if a \<noteq> [] then a else b)"

definition setRuntimeControlStatus :: "control_mode \<Rightarrow> bool \<Rightarrow> panel \<Rightarrow> panel" where
  "setRuntimeControlStatus mode transitioning p =
    (let m = Some (JStr (mode_string mode)); tr = Some (JBool transitioning);
         can = (mode = Picoclaw \<and> \<not> transitioning)
     in update_status (\<lambda>s. spread s
       [(''control_mode'', m), (''transitioning'', tr),
        (''control'', Some (spread
           (the (nullish (field ''control'' s)
             (Some (object_literal [(''mode'', m), (''transitioning'', tr), (''can_control'', Some (JBool False))]))))
           [(''mode'', m), (''transitioning'', tr), (''can_control'', Some (JBool can))])),
        (''capabilities'', Some (keep_capabilities s can))]) p)"

text \<open>The object the raw value is; of an \<^verbatim>\<open>Error\<close> the property that is read.\<close>

fun error_object :: "raw_value \<Rightarrow> json option" where
  "error_object (Raw_json j) = Some j"
| "error_object (Raw_failure (Thrown_value j)) = Some j"
| "error_object (Raw_failure e) = map_option (\<lambda>m. JObj [(''message'', JStr m)]) (failure_text e)"

fun thrown_text :: "raw_value option \<Rightarrow> string option" where
  "thrown_text (Some (Raw_failure e)) = failure_text e"
| "thrown_text _ = None"

definition runtimeToggleFailureMessage ::
  "(string \<Rightarrow> string) \<Rightarrow> raw_value option \<Rightarrow> json option \<Rightarrow> bool \<Rightarrow> string" where
  "runtimeToggleFailureMessage tr raw status shouldStop =
    (if thrown_text raw \<noteq> None \<and> \<not> isUnexpectedEOFError (the raw) then the (thrown_text raw)
     else or_text (responseMessage (Option.bind raw error_object)) (or_text (runtimeStatusError status)
       (tr (if shouldStop then ''picoclaw.status.runtimeStopFailed'' else ''picoclaw.status.runtimeStartFailed''))))"

section \<open>Starting and stopping\<close>

text \<open>A handler between \<^verbatim>\<open>beginMutation\<close> and \<^verbatim>\<open>endMutation\<close>, with the flag it shows.\<close>

definition guarded :: "mutation \<Rightarrow> (bool \<Rightarrow> panel \<Rightarrow> panel) \<Rightarrow> 'a \<Rightarrow> 'a program \<Rightarrow> 'a program" where
  "guarded m flag refused body = Get (\<lambda>p.
    if \<not> snd (beginMutation m p) then Return refused
    else Modify (\<lambda>p. flag True (fst (beginMutation m p)))
      (finally_do body (\<lambda>p. endMutation m (flag False p))))"

definition applyRuntimeToggleSuccess :: "json option \<Rightarrow> bool \<Rightarrow> transport_state \<Rightarrow> unit program" where
  "applyRuntimeToggleSuccess status shouldStop ts =
    Modify (syncRuntimeStatus status (if shouldStop then ''runtime_stop'' else ''runtime_start''))
    (Modify (say (if shouldStop then ''picoclaw.status.runtimeStopped'' else ''picoclaw.status.runtimeStarted''))
    (if shouldStop then
       Modify close_now
       (act (\<lambda>p. (set_takeover False (Some (sessionId (gw p))) ''runtime_stopped'' p)
         \<lparr>overlay := HIDDEN_OVERLAY, transportState := Disconnected, runState := Idle\<rparr>))
     else if ts \<noteq> Connected then ignoring (try_connect None)
     else Return ()))"

primrec confirm_attempts :: "nat \<Rightarrow> bool \<Rightarrow> transport_state \<Rightarrow> json option program" where
  "confirm_attempts 0 shouldStop ts = Return None"
| "confirm_attempts (Suc n) shouldStop ts =
    and_then (refreshState forced_preserving) (\<lambda>latest.
      if truthy latest \<and> isExpectedRuntimeState latest shouldStop then
        and_then (applyRuntimeToggleSuccess latest shouldStop ts) (\<lambda>_. Return latest)
      else if 0 < n then and_then (sleep 500) (\<lambda>_. confirm_attempts n shouldStop ts)
      else Return None)"

definition confirmRuntimeToggleResult :: "bool \<Rightarrow> transport_state \<Rightarrow> json option program" where
  "confirmRuntimeToggleResult = confirm_attempts 5"

definition toggle_failed :: "raw_value option \<Rightarrow> json option \<Rightarrow> bool \<Rightarrow> panel \<Rightarrow> panel" where
  "toggle_failed raw status shouldStop p =
    show_error (runtimeToggleFailureMessage (translate p) raw status shouldStop) raw p"

definition toggle_body :: "bool \<Rightarrow> transport_state \<Rightarrow> unit program" where
  "toggle_body stop ts =
    and_then (attempt (fetch (Http ''POST''
        (if stop then ''/api/picoclaw/runtime/stop'' else ''/api/picoclaw/runtime/start'') None))) (\<lambda>r.
      case r of
        Inl error \<Rightarrow> and_then (confirmRuntimeToggleResult stop ts) (\<lambda>confirmed.
          if truthy confirmed then Return () else act (toggle_failed (Some (Raw_failure error)) None stop))
      | Inr response \<Rightarrow>
          let responseStatus = runtimeStatusFromResponse response;
              last_refresh = ignoring (refreshState forced)
          in if responseCode response = Some (JNum 0) \<and> responseStatus \<noteq> None \<and>
                isExpectedRuntimeState responseStatus stop
             then and_then (applyRuntimeToggleSuccess responseStatus stop ts) (\<lambda>_. last_refresh)
             else and_then (confirmRuntimeToggleResult stop ts) (\<lambda>confirmed.
               if truthy confirmed then Return ()
               else Modify (\<lambda>p. if responseStatus \<noteq> None
                      then syncRuntimeStatus responseStatus (if stop then ''runtime_stop'' else ''runtime_start'') p
                      else p)
                 (Modify (toggle_failed (map_option Raw_json response) responseStatus stop) last_refresh)))"

definition set_toggling :: "bool \<Rightarrow> panel \<Rightarrow> panel" where
  "set_toggling b p = p\<lparr>isTogglingRuntime := b\<rparr>"

definition handleStartRuntime :: "unit program" where
  "handleStartRuntime = Get (\<lambda>p.
    let isRuntimeReady = is_true (opt_field ''ready'' (runtimeStatus p))
    in guarded (if isRuntimeReady then Runtime_stop else Runtime_start) set_toggling ()
         (toggle_body isRuntimeReady (transportState p)))"

section \<open>Control\<close>

definition control_request :: "string \<Rightarrow> page_request" where
  "control_request mode = Http ''PUT'' ''/api/ai/control/mode'' (Some (JObj [(''mode'', JStr mode)]))"

definition error_text :: "failure \<Rightarrow> string \<Rightarrow> string" where
  "error_text error fallback = (case failure_text error of Some m \<Rightarrow> m | None \<Rightarrow> fallback)"

definition show_failure :: "failure \<Rightarrow> string \<Rightarrow> panel \<Rightarrow> panel" where
  "show_failure error key p = show_error (error_text error (translate p key)) (Some (Raw_failure error)) p"

definition show_response :: "json option \<Rightarrow> string \<Rightarrow> panel \<Rightarrow> panel" where
  "show_response response key p =
    show_error (or_text (responseMessage response) (translate p key)) (map_option Raw_json response) p"

definition no_flag :: "bool \<Rightarrow> panel \<Rightarrow> panel" where
  "no_flag b p = p"

definition grant_body :: "bool program" where
  "grant_body = catching
    (and_then (fetch (control_request ''picoclaw'')) (\<lambda>response. and_then (member ''code'' response) (\<lambda>code.
      if code \<noteq> Some (JNum 0) then
        Modify (show_response response ''picoclaw.control.grantFailed'')
          (and_then (refreshState forced_preserving) (\<lambda>_. Return False))
      else
        Modify (syncAIControlStatus (opt_field ''data'' response) ''ai_control_mode'')
          (and_then (refreshState forced) (\<lambda>_. Modify (say ''picoclaw.control.granted'') (Return True))))))
    (\<lambda>error. Modify (show_failure error ''picoclaw.control.grantFailed'')
      (and_then (refreshState forced_preserving) (\<lambda>_. Return False)))"

definition handleGrantControl :: "bool program" where
  "handleGrantControl = guarded Control_grant no_flag False grant_body"

definition set_releasing :: "bool \<Rightarrow> panel \<Rightarrow> panel" where
  "set_releasing b p = p\<lparr>isReleasingControl := b\<rparr>"

text \<open>What the page shows before the service has answered.\<close>

definition release_requested :: "panel \<Rightarrow> panel" where
  "release_requested p =
    (let p = release_input p;
         p = (set_takeover False (Some (sessionId (gw p))) ''control_release_requested'' p)
           \<lparr>overlay := HIDDEN_OVERLAY, runState := Idle,
            aiControlStatus := Some \<lparr>a_mode = Off, a_transitioning = True, canControlPicoclaw = False,
              changedAt = None, lastError = None, a_source = Some ''control_release_requested''\<rparr>\<rparr>
     in setRuntimeControlStatus Off True p)"

definition release_granted :: "json option \<Rightarrow> panel \<Rightarrow> panel" where
  "release_granted response p =
    (let p = syncAIControlStatus (opt_field ''data'' response) ''ai_control_mode'' p;
         responseStatus = runtimeStatusFromResponse response;
         p = (if responseStatus \<noteq> None then syncRuntimeStatus responseStatus ''ai_control_mode'' p
              else setRuntimeControlStatus Off False p);
         p = (set_takeover False (Some (sessionId (gw p))) ''control_released'' p)
           \<lparr>overlay := HIDDEN_OVERLAY, runState := Idle\<rparr>;
         p = say ''picoclaw.control.released'' p;
         cleanupWarning = responseCleanupWarning response
     in if cleanupWarning \<noteq> [] then show_error cleanupWarning (map_option Raw_json response) p else p)"

definition release_verified :: "json option \<Rightarrow> panel \<Rightarrow> panel" where
  "release_verified latest p =
    (let latestControlMode = nullish (opt_field ''mode'' (opt_field ''control'' latest)) (opt_field ''control_mode'' latest)
     in if truthy latest \<and> \<not> is_text ''off'' latestControlMode
        then show_error (translate p ''picoclaw.control.releaseFailed'') (map_option Raw_json latest) p
        else p)"

definition release_body :: "bool program" where
  "release_body = Modify release_requested (catching
    (and_then (fetch (control_request ''off'')) (\<lambda>response. and_then (member ''code'' response) (\<lambda>code.
      if code \<noteq> Some (JNum 0) then
        Modify (show_response response ''picoclaw.control.releaseFailed'')
          (and_then (refreshState forced_preserving) (\<lambda>_. Return False))
      else
        Modify (release_granted response)
          (and_then (refreshState forced_preserving) (\<lambda>latest. Modify (release_verified latest) (Return True))))))
    (\<lambda>error. Modify (show_failure error ''picoclaw.control.releaseFailed'')
      (and_then (refreshState forced_preserving) (\<lambda>_. Return False))))"

definition handleReleaseControl :: "bool program" where
  "handleReleaseControl = guarded Control_release set_releasing False release_body"

section \<open>Installation, model and agent\<close>

definition set_installing :: "bool \<Rightarrow> panel \<Rightarrow> panel" where
  "set_installing b p = p\<lparr>isInstallRequestPending := b\<rparr>"

definition store_snapshot :: "install_snapshot option \<Rightarrow> panel \<Rightarrow> panel" where
  "store_snapshot x p =
    p\<lparr>installSnapshot := x,
      gw := (gw p)\<lparr>page_store := (case x of
        Some i \<Rightarrow> setPicoclawRuntimeInstallSnapshot i (page_store (gw p))
      | None \<Rightarrow> clearPicoclawRuntimeInstallSnapshot (page_store (gw p)))\<rparr>\<rparr>"

definition pendingSnapshot :: "panel \<Rightarrow> install_snapshot" where
  "pendingSnapshot p =
    \<lparr>is_installing = True,
     installProgress = or_else (as_number (opt_field ''install_progress'' (runtimeStatus p)))
       (or_else (Option.bind (installSnapshot p) installProgress) (Some 0)),
     installStage = or_else (as_string (opt_field ''install_stage'' (runtimeStatus p)))
       (or_else (Option.bind (installSnapshot p) installStage) (Some ''preparing'')),
     is_status = Some ''installing''\<rparr>"

definition install_body :: "install_snapshot \<Rightarrow> unit program" where
  "install_body snapshot = Modify (store_snapshot (Some snapshot)) (catching
    (and_then (fetch (Http ''POST'' ''/api/picoclaw/runtime/install'' None)) (\<lambda>response.
      and_then (member ''code'' response) (\<lambda>code.
      if code = Some (JNum 0) then
        and_then (member ''status'' (opt_field ''data'' response)) (\<lambda>status.
        Modify (syncRuntimeStatus status ''runtime_install'')
        (and_then (member ''status'' status) (\<lambda>name.
          let installFinished = (is_text ''installed'' name \<and> \<not> is_true (opt_field ''installing'' status) \<and>
                is_true (opt_field ''installed'' (opt_field ''data'' response)))
          in Modify (say (if installFinished then ''picoclaw.install.success'' else ''picoclaw.install.installing''))
               (ignoring (refreshState forced)))))
      else act (show_response response ''picoclaw.install.failed''))))
    (\<lambda>error. Modify (store_snapshot None) (act (show_failure error ''picoclaw.install.failed''))))"

definition handleInstallRuntime :: "unit program" where
  "handleInstallRuntime = Get (\<lambda>p. guarded Runtime_install set_installing () (install_body (pendingSnapshot p)))"

definition set_saving :: "bool \<Rightarrow> panel \<Rightarrow> panel" where
  "set_saving b p = p\<lparr>isSavingModelConfig := b\<rparr>"

definition save_failed :: "(string \<Rightarrow> model_error) \<Rightarrow> panel \<Rightarrow> panel" where
  "save_failed f p =
    p\<lparr>isModelConfigOpen := True, modelConfigError := Some (f (translate p ''picoclaw.model.saveFailed''))\<rparr>"

definition save_body :: "json \<Rightarrow> unit program" where
  "save_body config = Modify (\<lambda>p. p\<lparr>modelConfigError := None\<rparr>) (catching
    (and_then (fetch (Http ''POST'' ''/api/picoclaw/model/config'' (Some config))) (\<lambda>response.
      and_then (member ''code'' response) (\<lambda>code.
      if code = Some (JNum 0) then
        and_then (member ''status'' (opt_field ''data'' response)) (\<lambda>status.
        Modify (syncRuntimeStatus status ''model_config'')
        (Modify (\<lambda>p. p\<lparr>isModelConfigOpen := False\<rparr>)
        (Modify (say ''picoclaw.model.saved'') (ignoring (refreshState forced)))))
      else act (save_failed (modelConfigErrorFromResponse response)))))
    (\<lambda>error. act (save_failed (modelConfigErrorFromException error))))"

definition handleSaveModelConfig :: "unit program" where
  "handleSaveModelConfig = Get (\<lambda>p.
    if js_trim (modelIdentifier p) = [] then
      act (\<lambda>p. p\<lparr>modelConfigError := Some \<lparr>e_message = translate p ''picoclaw.model.modelRequired'',
        e_field = Some ''model''\<rparr>\<rparr>)
    else guarded Model_save set_saving ()
      (save_body (toModelConfigRequest (modelIdentifier p) (modelApiBase p) (modelApiKey p))))"

definition set_switching :: "bool \<Rightarrow> panel \<Rightarrow> panel" where
  "set_switching b p = p\<lparr>isSwitchingAgent := b\<rparr>"

definition agent_body :: "string \<Rightarrow> transport_state \<Rightarrow> unit program" where
  "agent_body profile ts = catching
    (and_then (fetch (Http ''POST'' ''/api/picoclaw/agent/profile'' (Some (JObj [(''profile'', JStr profile)])))) (\<lambda>response.
      and_then (member ''code'' response) (\<lambda>code.
      if code = Some (JNum 0) then
        and_then (member ''status'' (opt_field ''data'' response)) (\<lambda>status.
        Modify (syncRuntimeStatus status ''agent_profile'')
        (Modify (say ''picoclaw.agent.switched'')
        (and_then (refreshState forced) (\<lambda>_.
          if is_true (opt_field ''ready'' status) \<and> ts \<noteq> Connected then ignoring (try_connect None)
          else Return ()))))
      else act (show_response response ''picoclaw.agent.switchFailed''))))
    (\<lambda>error. act (show_failure error ''picoclaw.agent.switchFailed''))"

definition handleAgentProfileChange :: "string \<Rightarrow> unit program" where
  "handleAgentProfileChange profile = Get (\<lambda>p.
    if profile = [] \<or> is_text profile (opt_field ''agent_profile'' (runtimeStatus p)) then Return ()
    else guarded Agent_switch set_switching () (agent_body profile (transportState p)))"

definition set_uninstalling :: "bool \<Rightarrow> panel \<Rightarrow> panel" where
  "set_uninstalling b p = p\<lparr>isUninstallRequestPending := b\<rparr>"

definition uninstall_body :: "unit program" where
  "uninstall_body = Modify (say ''picoclaw.install.uninstalling'') (catching
    (and_then (fetch (Http ''POST'' ''/api/picoclaw/runtime/uninstall'' None)) (\<lambda>response.
      and_then (member ''code'' response) (\<lambda>code.
      if code = Some (JNum 0) then
        and_then (member ''status'' (opt_field ''data'' response)) (\<lambda>status.
        Modify (syncRuntimeStatus status ''runtime_uninstall'')
        (Modify (say ''picoclaw.install.uninstalled'') (ignoring (refreshState forced))))
      else act (show_response response ''picoclaw.install.uninstallFailed''))))
    (\<lambda>error. act (show_failure error ''picoclaw.install.uninstallFailed'')))"

definition handleUninstallRuntime :: "unit program" where
  "handleUninstallRuntime = guarded Runtime_uninstall set_uninstalling () uninstall_body"

end
