(* ===== verification/Sidebar_Sessions.thy ===== *)
theory Sidebar_Sessions
  imports Sidebar_Actions
begin

text \<open>
  Chats and lifetime of the assistant's panel, under \<^verbatim>\<open>web/src/pages/desktop/picoclaw\<close>: the functions
  \<^verbatim>\<open>createPicoclawSidebarSessionActions\<close> makes (\<^verbatim>\<open>sidebar-session-actions.ts\<close>), the effects other than the
  gateway's listeners (\<^verbatim>\<open>sidebar-effects.ts\<close>), and what \<^verbatim>\<open>use-sidebar.ts\<close> derives from the state.
\<close>

section \<open>Sending\<close>

definition or_undefined :: "string \<Rightarrow> string option" where
  "or_undefined s = (if s = [] then None else Some s)"

definition send_now :: "string \<Rightarrow> panel \<Rightarrow> panel \<times> bool" where
  "send_now content p =
    (let i = fresh_id p (drawn p); u = fresh_id p (Suc (drawn p));
         opts = \<lparr>o_id = Some i, maxSteps = Some (config_steps p), maxRuntimeMs = Some (config_runtime p), trackState = None\<rparr>;
         p = add_message (plain_message i K_user content (clock p))
           (p\<lparr>drawn := drawn p + 2, isFreshConversation := False\<rparr>);
         task = snd (sendChatMessage content opts u (gw p));
         p = via_gateway (\<lambda>g. fst (sendChatMessage content opts u g)) p
     in if task = None then (p\<lparr>messages := filter (\<lambda>m. m_id m \<noteq> i) (messages p)\<rparr>, False) else (p, True))"

definition handleSend :: "string \<Rightarrow> bool program" where
  "handleSend content = Get (\<lambda>p.
    if picoclawMutation p \<noteq> No_mutation then Return False
    else and_then
      (if transportState p = Connected \<and> runState p = Idle then Return True
       else and_then (refreshState forced_outside) (\<lambda>next.
         if \<not> canConnectGateway next then Return False
         else try_connect (or_undefined (activeSessionId p))))
      (\<lambda>ready. if \<not> ready then Return False
        else Get (\<lambda>p. Modify (\<lambda>p. fst (send_now content p)) (Return (snd (send_now content p))))))"

definition handleReconnectGateway :: "bool program" where
  "handleReconnectGateway = Get (\<lambda>p.
    if picoclawMutation p \<noteq> No_mutation then Return False
    else if transportState p = Connected \<or> transportState p = Connecting then Return True
    else and_then (refreshState forced_outside) (\<lambda>next.
      if \<not> canConnectGateway next then
        Modify (\<lambda>p. show_error (translate p ''picoclaw.connection.transport.reconnectBlocked'')
          (map_option Raw_json next) p) (Return False)
      else try_connect (or_undefined (activeSessionId p))))"

definition handleStop :: "panel \<Rightarrow> panel" where
  "handleStop p = say ''picoclaw.status.stopped'' (via_gateway (\<lambda>g. fst (sendStopMessage g)) p)"

section \<open>Conversations\<close>

text \<open>\<^verbatim>\<open>rotateSession\<close> draws the next identifier.\<close>

definition rotate_session :: "panel \<Rightarrow> panel" where
  "rotate_session p = via_gateway (rotateSession (fresh_id p (drawn p))) (p\<lparr>drawn := Suc (drawn p)\<rparr>)"

definition leave_chat :: "string option \<Rightarrow> string \<Rightarrow> panel \<Rightarrow> panel" where
  "leave_chat session reason p =
    (set_takeover False session reason p)\<lparr>overlay := HIDDEN_OVERLAY, transportState := Disconnected, runState := Idle\<rparr>"

definition new_conversation :: "panel \<Rightarrow> panel" where
  "new_conversation p =
    (let p = close_now p;
         p = leave_chat None ''new_conversation'' (p\<lparr>isHistoryOpen := False, isModelConfigOpen := False, messages := []\<rparr>);
         sid = fresh_id p (drawn p)
     in (rotate_session p)\<lparr>activeSessionId := sid, isFreshConversation := True\<rparr>)"

definition handleNewConversation :: "unit program" where
  "handleNewConversation = Get (\<lambda>p.
    if isFreshConversation p \<or> picoclawMutation p \<noteq> No_mutation then Return ()
    else Modify new_conversation (Get (\<lambda>q.
      and_then (release_session (sessionId (gw p))) (\<lambda>_.
      and_then (refreshState forced_outside) (\<lambda>next.
        if \<not> canConnectGateway next then Return ()
        else Modify (say ''picoclaw.status.connecting'') (ignoring (try_connect (Some (activeSessionId q)))))))))"

definition array_or_empty :: "json option \<Rightarrow> json list" where
  "array_or_empty v = (case v of Some (JArr xs) \<Rightarrow> xs | _ \<Rightarrow> [])"

definition loadHistorySessions :: "unit program" where
  "loadHistorySessions = Modify (\<lambda>p. p\<lparr>isLoadingHistory := True\<rparr>) (finally_do
    (and_then (fetch (Http ''GET'' ''/api/picoclaw/sessions?limit=100'' None)) (\<lambda>response.
      and_then (member ''code'' response) (\<lambda>code.
        if code = Some (JNum 0)
        then act (\<lambda>p. p\<lparr>historySessions := array_or_empty (opt_field ''data'' response)\<rparr>)
        else Return ())))
    (\<lambda>p. p\<lparr>isLoadingHistory := False\<rparr>))"

definition handleOpenHistory :: "unit program" where
  "handleOpenHistory = Modify (\<lambda>p. p\<lparr>isModelConfigOpen := False, isHistoryOpen := True\<rparr>) loadHistorySessions"

definition handleCloseHistory :: "panel \<Rightarrow> panel" where
  "handleCloseHistory p = p\<lparr>isHistoryOpen := False\<rparr>"

text \<open>\<^verbatim>\<open>`${v}`\<close> of an identifier.\<close>

definition template :: "json option \<Rightarrow> string" where
  "template v = (case v of None \<Rightarrow> ''undefined'' | Some j \<Rightarrow> (case js_String j of Some s \<Rightarrow> s | None \<Rightarrow> []))"

definition loaded_message :: "json option \<Rightarrow> int \<Rightarrow> nat \<Rightarrow> json \<Rightarrow> chat_message" where
  "loaded_message sid now index m =
    (plain_message (template sid @ ''-'' @ nat_string index)
      (if is_text ''user'' (field ''role'' m) then K_user else K_assistant) [] (now + int index))
    \<lparr>m_text := as_string (field ''content'' m)\<rparr>"

definition loadedMessages :: "json option \<Rightarrow> int \<Rightarrow> chat_message list" where
  "loadedMessages data now =
    map (\<lambda>(i, m). loaded_message (opt_field ''id'' data) now i m)
      (enumerate 0 (array_or_empty (opt_field ''messages'' data)))"

definition enter_session :: "string \<Rightarrow> json option \<Rightarrow> panel \<Rightarrow> panel" where
  "enter_session sid data p =
    (let p = close_now p
     in leave_chat (Some sid) ''history_selected''
       (p\<lparr>messages := loadedMessages data (clock p), activeSessionId := sid, isFreshConversation := False,
          isHistoryOpen := False\<rparr>))"

definition select_body :: "string \<Rightarrow> unit program" where
  "select_body sid = catching
    (and_then (fetch (Http ''GET'' (''/api/picoclaw/sessions/'' @ sid) None)) (\<lambda>response.
      and_then (member ''code'' response) (\<lambda>code.
      if code \<noteq> Some (JNum 0) then act (show_response response ''picoclaw.history.loadFailed'')
      else and_then (member ''messages'' (opt_field ''data'' response)) (\<lambda>_. Get (\<lambda>p.
        Modify (enter_session sid (opt_field ''data'' response))
        (and_then (release_session (sessionId (gw p))) (\<lambda>_.
        and_then (refreshState forced_outside) (\<lambda>next.
        Modify (update_status (\<lambda>s. spread s [(''current_session'', Some (JStr sid))]))
        (if \<not> canConnectGateway next then Return () else ignoring (try_connect (Some sid)))))))))))
    (\<lambda>error. act (show_failure error ''picoclaw.history.loadFailed''))"

definition handleSelectHistorySession :: "string \<Rightarrow> unit program" where
  "handleSelectHistorySession sid = Get (\<lambda>p.
    if isSwitchingSession p \<or> picoclawMutation p \<noteq> No_mutation then Return ()
    else if sid = activeSessionId p then act handleCloseHistory
    else Modify (\<lambda>p. p\<lparr>isSwitchingSession := True\<rparr>)
      (finally_do (select_body sid) (\<lambda>p. p\<lparr>isSwitchingSession := False\<rparr>)))"

definition handleDeleteHistorySession :: "string \<Rightarrow> unit program" where
  "handleDeleteHistorySession sid = Modify (\<lambda>p. p\<lparr>isDeletingSession := True\<rparr>) (finally_do
    (catching
      (and_then (fetch (Http ''DELETE'' (''/api/picoclaw/sessions/'' @ sid) None)) (\<lambda>response.
        and_then (member ''code'' response) (\<lambda>code.
        if code = Some (JNum 0)
        then act (\<lambda>p. p\<lparr>historySessions := filter (\<lambda>s. \<not> is_text sid (field ''id'' s)) (historySessions p)\<rparr>)
        else act (show_response response ''picoclaw.history.deleteFailed''))))
      (\<lambda>error. act (show_failure error ''picoclaw.history.deleteFailed'')))
    (\<lambda>p. p\<lparr>isDeletingSession := False\<rparr>))"

section \<open>Effects\<close>

text \<open>\<^verbatim>\<open>usePicoclawSidebarLifecycle\<close>: opening and closing the panel.\<close>

definition fresh_session :: "panel \<Rightarrow> panel" where
  "fresh_session p =
    (let sid = fresh_id p (drawn p)
     in (rotate_session p)\<lparr>activeSessionId := sid, isFreshConversation := True, messages := []\<rparr>)"

definition open_body :: "string \<Rightarrow> unit program" where
  "open_body sid =
    and_then (refreshState ordinary) (\<lambda>next. Get (\<lambda>p.
      if \<not> mounted p then Return ()
      else if truthy (opt_field ''installing'' next) then act (say ''picoclaw.install.installing'')
      else if is_false (opt_field ''installed'' next) then act (say ''picoclaw.install.requiredDescription'')
      else if is_false (opt_field ''model_configured'' next) then act (say ''picoclaw.model.requiredDescription'')
      else if \<not> canConnectGateway next then Return ()
      else Modify (say ''picoclaw.status.connecting'') (ignoring (try_connect (Some sid)))))"

definition openSidebar :: "unit program" where
  "openSidebar = Get (\<lambda>p. Modify fresh_session
    (finally_do (open_body (fresh_id p (drawn p))) (\<lambda>p. if mounted p then p\<lparr>isInitializing := False\<rparr> else p)))"

definition close_panel :: "panel \<Rightarrow> panel" where
  "close_panel p =
    (end_takeover ''panel_closed'' (close_now (p\<lparr>mounted := False\<rparr>)))
      \<lparr>overlay := HIDDEN_OVERLAY, transportState := Disconnected, runState := Idle\<rparr>"

text \<open>
  One turn of the loop of \<^verbatim>\<open>confirmRuntimeStatus\<close>, with what its caller does with the status; the next
  turn is a new note in \<open>spawned\<close>.
\<close>

definition announce_switch :: "bool \<Rightarrow> json option \<Rightarrow> panel \<Rightarrow> panel" where
  "announce_switch announce status p =
    (if announce \<and> mounted p \<and> is_text ''mcp'' (opt_field ''control_mode'' status)
     then say ''picoclaw.status.controlSwitchedToMCP'' p else p)"

definition confirmRuntimeStatus :: "int \<Rightarrow> string \<Rightarrow> bool \<Rightarrow> unit program" where
  "confirmRuntimeStatus deadline source announce = Get (\<lambda>p.
    if mounted p \<and> clock p < deadline then
      and_then (refreshState ordinary) (\<lambda>status.
        if truthy status \<and> \<not> is_true (opt_field ''transitioning'' status) then
          Modify (syncAIControlStatus status source) (act (announce_switch announce status))
        else and_then (sleep STATUS_CONFIRM_INTERVAL_MS) (\<lambda>_.
          act (\<lambda>p. p\<lparr>spawned := spawned p @ [Spawn_confirm deadline source announce]\<rparr>)))
    else Return ())"

fun spawn_program :: "spawn \<Rightarrow> unit program" where
  "spawn_program (Spawn_refresh opts) = ignoring (refreshState opts)"
| "spawn_program (Spawn_confirm deadline source announce) = confirmRuntimeStatus deadline source announce"

text \<open>What \<^verbatim>\<open>useSidebar\<close> derives.\<close>

definition isRuntimeInstallActive :: "panel \<Rightarrow> bool" where
  "isRuntimeInstallActive p \<longleftrightarrow> isPicoclawRuntimeInstalling (runtimeStatus p) \<or>
    (\<not> truthy (runtimeStatus p) \<and> (case installSnapshot p of Some x \<Rightarrow> is_installing x | None \<Rightarrow> False))"

definition isInstallingRuntime :: "panel \<Rightarrow> bool" where
  "isInstallingRuntime p \<longleftrightarrow> isInstallRequestPending p \<or> isRuntimeInstallActive p"

definition isRuntimeMutationPending :: "panel \<Rightarrow> bool" where
  "isRuntimeMutationPending p \<longleftrightarrow>
    picoclawMutation p \<in> {Runtime_start, Runtime_stop, Runtime_install, Runtime_uninstall}"

definition isControlMutationPending :: "panel \<Rightarrow> bool" where
  "isControlMutationPending p \<longleftrightarrow> picoclawMutation p \<in> {Control_grant, Control_release}"

definition shown_progress :: "panel \<Rightarrow> rat option" where
  "shown_progress p =
    (if isPicoclawRuntimeInstalling (runtimeStatus p) then
       or_else (as_number (opt_field ''install_progress'' (runtimeStatus p))) (Option.bind (installSnapshot p) installProgress)
     else if isRuntimeInstallActive p then Option.bind (installSnapshot p) installProgress
     else None)"

definition shown_stage :: "panel \<Rightarrow> string option" where
  "shown_stage p =
    (if isPicoclawRuntimeInstalling (runtimeStatus p) then
       or_else (as_string (opt_field ''install_stage'' (runtimeStatus p))) (Option.bind (installSnapshot p) installStage)
     else if isRuntimeInstallActive p then Option.bind (installSnapshot p) installStage
     else None)"

datatype panel_view = Shown sidebar_mode | Shown_history

definition sidebarMode :: "panel \<Rightarrow> panel_view" where
  "sidebarMode p =
    (if isModelConfigOpen p then Shown View_model
     else if isHistoryOpen p then Shown_history
     else Shown (getPicoclawSidebarMode (runtimeStatus p) (isInitializing p)))"

text \<open>The two timers that ask for the status, and the effect that connects.\<close>

definition install_tick :: "unit program" where
  "install_tick = Get (\<lambda>p. if isRuntimeInstallActive p then ignoring (refreshState ordinary) else Return ())"

definition status_tick :: "unit program" where
  "status_tick = Get (\<lambda>p.
    if isRuntimeInstallActive p \<or> picoclawMutation p \<noteq> No_mutation then Return ()
    else ignoring (refreshState ordinary))"

definition auto_connect_due :: "panel \<Rightarrow> bool" where
  "auto_connect_due p \<longleftrightarrow>
    \<not> (picoclawMutation p \<noteq> No_mutation \<or> \<not> canConnectGateway (runtimeStatus p) \<or>
       transportState p = Connected \<or> transportState p = Connecting) \<and>
    \<not> clock p - lastAttemptAt p < STATUS_REFRESH_INTERVAL_MS"

definition autoConnect :: "unit program" where
  "autoConnect = Get (\<lambda>p.
    if \<not> auto_connect_due p then Return ()
    else Modify (\<lambda>p. p\<lparr>lastAttemptAt := clock p\<rparr>) (ignoring (try_connect (or_undefined (activeSessionId p)))))"

definition sync_snapshot :: "panel \<Rightarrow> panel" where
  "sync_snapshot p =
    (if isPicoclawRuntimeInstalling (runtimeStatus p) then
       store_snapshot (Some
         \<lparr>is_installing = True, installProgress = as_number (opt_field ''install_progress'' (runtimeStatus p)),
          installStage = as_string (opt_field ''install_stage'' (runtimeStatus p)),
          is_status = as_string (opt_field ''status'' (runtimeStatus p))\<rparr>) p
     else store_snapshot None p)"

definition installSnapshotSync :: "panel \<Rightarrow> panel" where
  "installSnapshotSync p =
    (if \<not> truthy (runtimeStatus p) then p
     else
       let isInstalling = isPicoclawRuntimeInstalling (runtimeStatus p);
           p = sync_snapshot p;
           p = (if previousInstalling p \<and> \<not> isInstalling then
                  if is_true (opt_field ''installed'' (runtimeStatus p)) then say ''picoclaw.install.success'' p
                  else show_error (or_text (text_of (opt_field ''last_error'' (runtimeStatus p)))
                    (translate p ''picoclaw.install.failed'')) (map_option Raw_json (runtimeStatus p)) p
                else p)
       in p\<lparr>previousInstalling := isInstalling\<rparr>)"

text \<open>The form of the model and the buttons that show it.\<close>

definition handleModelIdentifierChange :: "string \<Rightarrow> panel \<Rightarrow> panel" where
  "handleModelIdentifierChange v p = p\<lparr>modelConfigError := None, modelIdentifier := v\<rparr>"

definition handleModelApiBaseChange :: "string \<Rightarrow> panel \<Rightarrow> panel" where
  "handleModelApiBaseChange v p = p\<lparr>modelConfigError := None, modelApiBase := v\<rparr>"

definition handleModelApiKeyChange :: "string \<Rightarrow> panel \<Rightarrow> panel" where
  "handleModelApiKeyChange v p = p\<lparr>modelConfigError := None, modelApiKey := v\<rparr>"

definition handleOpenModelConfig :: "panel \<Rightarrow> panel" where
  "handleOpenModelConfig p = p\<lparr>modelConfigError := None, isHistoryOpen := False, isModelConfigOpen := True\<rparr>"

definition handleCancelModelConfig :: "panel \<Rightarrow> panel" where
  "handleCancelModelConfig p = p\<lparr>modelConfigError := None, isModelConfigOpen := False\<rparr>"

end
