(* ===== verification/Sidebar_System.thy ===== *)
theory Sidebar_System
  imports Sidebar_Sessions
begin

text \<open>
  The assistant's panel as a whole: the handlers, effects and timers of the page interleaved with
  the answers of the service, the browser's events for the gateway's socket and the clock. An
  invariant of the panel is stated as the locale \<open>panel_invariant\<close>: it survives the small operations
  the code is made of, so every program that does not hold the panel keeps it; \<open>panel_law\<close> adds the
  operations that hold and release the panel, so the whole system keeps it.
\<close>

section \<open>Steps\<close>

text \<open>A suspended function: the mutation it holds, what it awaits and how it goes on.\<close>

record sidebar =
  pg :: panel
  tasks :: "(mutation \<times> page_request \<times> (answer \<Rightarrow> unit program)) list"

datatype ui_action =
  Start_runtime | Grant_control | Release_control | Install_runtime | Save_model | Change_agent string
| Uninstall_runtime | Send string | Reconnect_gateway | New_conversation | Open_history
| Select_session string | Delete_session string | Open_panel | Auto_connect | Install_tick | Status_tick

fun program_of :: "ui_action \<Rightarrow> unit program" where
  "program_of Start_runtime = handleStartRuntime"
| "program_of Grant_control = ignoring handleGrantControl"
| "program_of Release_control = ignoring handleReleaseControl"
| "program_of Install_runtime = handleInstallRuntime"
| "program_of Save_model = handleSaveModelConfig"
| "program_of (Change_agent profile) = handleAgentProfileChange profile"
| "program_of Uninstall_runtime = handleUninstallRuntime"
| "program_of (Send content) = ignoring (handleSend content)"
| "program_of Reconnect_gateway = ignoring handleReconnectGateway"
| "program_of New_conversation = handleNewConversation"
| "program_of Open_history = handleOpenHistory"
| "program_of (Select_session sid) = handleSelectHistorySession sid"
| "program_of (Delete_session sid) = handleDeleteHistorySession sid"
| "program_of Open_panel = openSidebar"
| "program_of Auto_connect = autoConnect"
| "program_of Install_tick = install_tick"
| "program_of Status_tick = status_tick"

fun mutates :: "ui_action \<Rightarrow> bool" where
  "mutates Start_runtime = True"
| "mutates Grant_control = True"
| "mutates Release_control = True"
| "mutates Install_runtime = True"
| "mutates Save_model = True"
| "mutates (Change_agent _) = True"
| "mutates Uninstall_runtime = True"
| "mutates _ = False"

datatype instant =
  Stop_answer | Close_history | Edit_identifier string | Edit_base string | Edit_key string
| Open_model | Cancel_model | Sync_install | Close_panel | Wait_until int | Focus_input bool

fun instant_step :: "instant \<Rightarrow> panel \<Rightarrow> panel" where
  "instant_step Stop_answer p = handleStop p"
| "instant_step Close_history p = handleCloseHistory p"
| "instant_step (Edit_identifier v) p = handleModelIdentifierChange v p"
| "instant_step (Edit_base v) p = handleModelApiBaseChange v p"
| "instant_step (Edit_key v) p = handleModelApiKeyChange v p"
| "instant_step Open_model p = handleOpenModelConfig p"
| "instant_step Cancel_model p = handleCancelModelConfig p"
| "instant_step Sync_install p = installSnapshotSync p"
| "instant_step Close_panel p = close_panel p"
| "instant_step (Wait_until now) p = p\<lparr>clock := max (clock p) now\<rparr>"
| "instant_step (Focus_input b) p =
    setKeyboardLock PICOCLAW_INPUT_KEYBOARD_LOCK_SOURCE b (p\<lparr>inputFocused := b\<rparr>)"

datatype event =
  Ui ui_action
| Instant instant
| Gateway_event gw_call
| Resume nat answer

definition launch :: "bool \<Rightarrow> unit program \<Rightarrow> sidebar \<Rightarrow> sidebar" where
  "launch m q s =
    (case run q (pg s) of
       (p, Finished r) \<Rightarrow> s\<lparr>pg := p\<rparr>
     | (p, Waiting w k) \<Rightarrow>
         s\<lparr>pg := p, tasks := tasks s @ [(if m then mutationRef p else No_mutation, w, k)]\<rparr>)"

definition start_spawned :: "sidebar \<Rightarrow> sidebar" where
  "start_spawned s =
    fold (\<lambda>x. launch False (spawn_program x)) (spawned (pg s)) (s\<lparr>pg := (pg s)\<lparr>spawned := []\<rparr>\<rparr>)"

definition remaining ::
  "mutation \<Rightarrow> (panel, page_request, answer, unit) progress \<Rightarrow> (mutation \<times> page_request \<times> (answer \<Rightarrow> unit program)) list" where
  "remaining m r = (case r of Finished x \<Rightarrow> [] | Waiting q k \<Rightarrow> [(m, q, k)])"

definition resume :: "nat \<Rightarrow> answer \<Rightarrow> sidebar \<Rightarrow> sidebar" where
  "resume i w s =
    (let (m, q, k) = tasks s ! i; (p, r) = run (k w) (pg s)
     in s\<lparr>pg := p, tasks := take i (tasks s) @ remaining m r @ drop (Suc i) (tasks s)\<rparr>)"

fun sidebar_event :: "event \<Rightarrow> sidebar \<Rightarrow> sidebar" where
  "sidebar_event (Ui a) s = launch (mutates a) (program_of a) s"
| "sidebar_event (Instant i) s = s\<lparr>pg := instant_step i (pg s)\<rparr>"
| "sidebar_event (Gateway_event e) s = s\<lparr>pg := via_gateway (\<lambda>g. gw_step g e) (pg s)\<rparr>"
| "sidebar_event (Resume i w) s = resume i w s"

definition sidebar_step :: "sidebar \<Rightarrow> event \<Rightarrow> sidebar" where
  "sidebar_step s e = start_spawned (sidebar_event e s)"

text \<open>
  What can happen: an answer of the service is any; a refresh, a connection and a time answer when
  they are settled. The gateway's events are the browser's; its other operations are called
  by the programs.
\<close>

fun settles :: "page_request \<Rightarrow> answer \<Rightarrow> panel \<Rightarrow> bool" where
  "settles (Http m u b) w p = True"
| "settles (Joined r) w p =
    (case map_of (refresh_results p) r of
       None \<Rightarrow> False
     | Some (Inl e) \<Rightarrow> w = Rejected_with e
     | Some (Inr v) \<Rightarrow> w = Answered v)"
| "settles (Connection a) w p =
    (case promises (gw p) ! (a - 1) of
       Pending \<Rightarrow> False
     | Resolved s \<Rightarrow> w = Answered (Some (JStr s))
     | Rejected m \<Rightarrow> w = Rejected_with (Js_error m None))"
| "settles (Delay d) w p = (d \<le> clock p \<and> w = Answered None)"

fun sidebar_possible :: "sidebar \<Rightarrow> event \<Rightarrow> bool" where
  "sidebar_possible s (Gateway_event e) = (browser_call e \<and> gw_possible (gw (pg s)) e)"
| "sidebar_possible s (Resume i w) = (i < length (tasks s) \<and> settles (fst (snd (tasks s ! i))) w (pg s))"
| "sidebar_possible s _ = True"

definition new_sidebar :: "panel \<Rightarrow> sidebar" where
  "new_sidebar p = \<lparr>pg = p, tasks = []\<rparr>"

section \<open>Invariants of the panel\<close>

text \<open>The calls the page makes of the gateway.\<close>

fun program_call :: "gw_call \<Rightarrow> bool" where
  "program_call (Connect sid auto u1 u2) = (\<not> auto)"
| "program_call (Chat c opts u) = True"
| "program_call Stop_chat = True"
| "program_call Close_call = True"
| "program_call (Rotate u) = True"
| "program_call _ = False"

definition user_message :: "string \<Rightarrow> panel \<Rightarrow> panel" where
  "user_message content p = add_message (plain_message (fresh_id p (drawn p)) K_user content (clock p)) p"

locale panel_invariant =
  fixes I :: "panel \<Rightarrow> bool"
  assumes fields:
    "I p \<Longrightarrow> I (p\<lparr>transportState := b\<rparr>)" "I p \<Longrightarrow> I (p\<lparr>runState := c\<rparr>)" "I p \<Longrightarrow> I (p\<lparr>runtimeStatus := d\<rparr>)"
    "I p \<Longrightarrow> I (p\<lparr>overlay := e\<rparr>)" "I p \<Longrightarrow> I (p\<lparr>takeover := f\<rparr>)" "I p \<Longrightarrow> I (p\<lparr>aiControlStatus := g\<rparr>)"
    "I p \<Longrightarrow> I (p\<lparr>spawned := i\<rparr>)" "I p \<Longrightarrow> I (p\<lparr>drawn := j\<rparr>)" "I p \<Longrightarrow> I (p\<lparr>activeSessionId := k\<rparr>)"
    "I p \<Longrightarrow> I (p\<lparr>clock := l\<rparr>)" "I p \<Longrightarrow> I (p\<lparr>isFreshConversation := m\<rparr>)" "I p \<Longrightarrow> I (p\<lparr>isHistoryOpen := n\<rparr>)"
    "I p \<Longrightarrow> I (p\<lparr>isModelConfigOpen := o'\<rparr>)" "I p \<Longrightarrow> I (p\<lparr>modelConfigError := q\<rparr>)"
    "I p \<Longrightarrow> I (p\<lparr>isInitializing := r\<rparr>)" "I p \<Longrightarrow> I (p\<lparr>isLoadingHistory := s\<rparr>)"
    "I p \<Longrightarrow> I (p\<lparr>isDeletingSession := u\<rparr>)" "I p \<Longrightarrow> I (p\<lparr>isSwitchingSession := v\<rparr>)"
    "I p \<Longrightarrow> I (p\<lparr>historySessions := w\<rparr>)" "I p \<Longrightarrow> I (p\<lparr>installSnapshot := x\<rparr>)"
    "I p \<Longrightarrow> I (p\<lparr>mounted := y\<rparr>)" "I p \<Longrightarrow> I (p\<lparr>lastAttemptAt := z\<rparr>)"
    "I p \<Longrightarrow> I (p\<lparr>refreshRequestSeq := aa\<rparr>)" "I p \<Longrightarrow> I (p\<lparr>refreshStatePromise := ab\<rparr>)"
    "I p \<Longrightarrow> I (p\<lparr>refresh_results := ac\<rparr>)" "I p \<Longrightarrow> I (p\<lparr>previousInstalling := ad\<rparr>)"
    "I p \<Longrightarrow> I (p\<lparr>modelIdentifier := ae\<rparr>)" "I p \<Longrightarrow> I (p\<lparr>modelApiBase := af\<rparr>)"
    "I p \<Longrightarrow> I (p\<lparr>modelApiKey := ag\<rparr>)" "I p \<Longrightarrow> I (p\<lparr>inputFocused := ah\<rparr>)" "I p \<Longrightarrow> I (p\<lparr>keyboardLocks := ai\<rparr>)"
    and chat: "I p \<Longrightarrow> I (say key p)" "I p \<Longrightarrow> I (show_error text raw p)" "I p \<Longrightarrow> I (p\<lparr>messages := []\<rparr>)"
    "I p \<Longrightarrow> I (p\<lparr>messages := loadedMessages data now\<rparr>)" "I p \<Longrightarrow> I (user_message content p)"
    "I p \<Longrightarrow> I (p\<lparr>messages := filter P (messages p)\<rparr>)"
    and store: "I p \<Longrightarrow> I (p\<lparr>gw := (gw p)\<lparr>page_store := st\<rparr>\<rparr>)"
    and calls: "I p \<Longrightarrow> program_call call \<Longrightarrow> I (via_gateway (\<lambda>g. gw_step g call) p)"
begin

lemma small:
  "I p \<Longrightarrow> I (setKeyboardLock src b p)" "I p \<Longrightarrow> I (releasePicoclawInputFocus p)" "I p \<Longrightarrow> I (release_input p)"
  "I p \<Longrightarrow> I (end_takeover x p)" "I p \<Longrightarrow> I (set_takeover b sn x p)" "I p \<Longrightarrow> I (update_status f p)"
  "I p \<Longrightarrow> I (update_control h p)" "I p \<Longrightarrow> I (syncAIControlStatus v x p)"
  by (simp_all add: fields setKeyboardLock_def releasePicoclawInputFocus_def release_input_def end_takeover_def
      set_takeover_def update_status_def update_control_def syncAIControlStatus_def split: option.split)

lemma gateway_calls:
  "I p \<Longrightarrow> I (via_gateway (\<lambda>g. fst (gw_connect sid False u1 u2 g)) p)"
  "I p \<Longrightarrow> I (via_gateway gw_close p)" "I p \<Longrightarrow> I (via_gateway (rotateSession u1) p)"
  "I p \<Longrightarrow> I (via_gateway (\<lambda>g. fst (sendStopMessage g)) p)"
  "I p \<Longrightarrow> I (via_gateway (\<lambda>g. fst (sendChatMessage c opts u1 g)) p)"
  using calls [of p "Connect sid False u1 u2"] calls [of p Close_call] calls [of p "Rotate u1"]
    calls [of p Stop_chat] calls [of p "Chat c opts u1"]
  by simp_all

lemma operations:
  "I p \<Longrightarrow> I (start_connect sid p)" "I p \<Longrightarrow> I (close_now p)" "I p \<Longrightarrow> I (syncRuntimeStatus v x p)"
  "I p \<Longrightarrow> I (markRuntimeStatusUnavailable x p)" "I p \<Longrightarrow> I (note_result n r p)"
  "I p \<Longrightarrow> I (forget_promise opts n p)" "I p \<Longrightarrow> I (open_request opts n p)"
  "I p \<Longrightarrow> I (setRuntimeControlStatus m b p)" "I p \<Longrightarrow> I (toggle_failed raw st stop p)"
  "I p \<Longrightarrow> I (show_failure fl key p)" "I p \<Longrightarrow> I (show_response rsp key p)"
  "I p \<Longrightarrow> I (release_requested p)" "I p \<Longrightarrow> I (release_granted rsp p)"
  "I p \<Longrightarrow> I (release_verified rsp p)" "I p \<Longrightarrow> I (save_failed sf p)"
  by (simp_all add: fields chat small gateway_calls start_connect_def close_now_def syncRuntimeStatus_def Let_def
      markRuntimeStatusUnavailable_def note_result_def forget_promise_def open_request_def
      setRuntimeControlStatus_def toggle_failed_def show_failure_def show_response_def release_requested_def
      release_granted_def release_verified_def save_failed_def)

lemma keeps_store_snapshot: "I p \<Longrightarrow> I (store_snapshot sn p)"
  using store [of "p\<lparr>installSnapshot := sn\<rparr>"] by (simp add: fields store_snapshot_def split: option.split)

lemma keeps_send: "I p \<Longrightarrow> I (fst (send_now c p))"
proof -
  assume "I p"
  then have "I ((user_message c p)\<lparr>drawn := drawn p + 2, isFreshConversation := False\<rparr>)"
    by (intro fields chat)
  moreover have "add_message (plain_message (fresh_id p (drawn p)) K_user c (clock p))
      (p\<lparr>drawn := drawn p + 2, isFreshConversation := False\<rparr>) =
    (user_message c p)\<lparr>drawn := drawn p + 2, isFreshConversation := False\<rparr>"
    by (simp add: user_message_def add_message_def)
  ultimately show ?thesis by (simp add: send_now_def Let_def gateway_calls chat)
qed

lemma session_operations:
  "I p \<Longrightarrow> I (rotate_session p)" "I p \<Longrightarrow> I (leave_chat a b p)" "I p \<Longrightarrow> I (new_conversation p)"
  "I p \<Longrightarrow> I (handleStop p)" "I p \<Longrightarrow> I (handleCloseHistory p)" "I p \<Longrightarrow> I (enter_session sid d p)"
  "I p \<Longrightarrow> I (fresh_session p)" "I p \<Longrightarrow> I (close_panel p)" "I p \<Longrightarrow> I (announce_switch x st p)"
  "I p \<Longrightarrow> I (installSnapshotSync p)"
  by (simp_all add: fields chat small gateway_calls operations keeps_store_snapshot rotate_session_def leave_chat_def
      new_conversation_def handleStop_def handleCloseHistory_def enter_session_def fresh_session_def
      close_panel_def announce_switch_def installSnapshotSync_def sync_snapshot_def Let_def)

lemma instants: "I p \<Longrightarrow> I (instant_step i p)"
  by (cases i) (simp_all add: fields small session_operations handleModelIdentifierChange_def
      handleModelApiBaseChange_def handleModelApiKeyChange_def handleOpenModelConfig_def handleCancelModelConfig_def)

lemmas kept = fields chat small operations keeps_store_snapshot keeps_send session_operations

lemma keeps_fetch: "keeps I (fetch q)"
  by (simp add: fetch_def split: answer.split)

lemma keeps_attempt: "keeps I q \<Longrightarrow> keeps I (attempt q)"
  by (auto simp: attempt_def intro!: keeping_programs)

lemma keeps_sleep: "keeps I (sleep ms)"
  by (simp add: sleep_def keeps_fetch keeping_programs)

lemma keeps_connect: "keeps I (connectGateway sid)"
  by (simp add: connectGateway_def kept keeps_fetch split: promise_ref.split)

lemma keeps_try_connect: "keeps I (try_connect sid)"
  by (auto simp: try_connect_def keeps_connect intro!: keeping_programs)

lemma keeps_release_session: "keeps I (release_session sid)"
  by (simp add: release_session_def keeps_fetch keeps_attempt keeping_programs)

lemma keeps_refresh: "keeps I (refreshState opts)"
proof -
  have "keeps I (refreshPromise opts i e)" for i e
    by (auto simp: refreshPromise_def Let_def kept keeps_fetch intro!: keeping_programs keeps_attempt split: sum.split)
  then have "keeps I (recording i (refreshPromise opts i e))" for i e
    by (auto simp: recording_def kept intro!: keeping_programs)
  then show ?thesis
    by (auto simp: refreshState_def Let_def kept keeps_fetch intro!: keeping_programs split: option.split)
qed

lemma keeps_apply: "keeps I (applyRuntimeToggleSuccess st stop ts)"
  by (auto simp: applyRuntimeToggleSuccess_def kept keeps_try_connect intro!: keeping_programs)

lemma keeps_confirm: "keeps I (confirm_attempts n stop ts)"
  by (induction n) (auto simp: keeps_refresh keeps_apply keeps_sleep intro!: keeping_programs)

lemmas keeps_parts = kept keeps_fetch keeps_attempt keeps_sleep keeps_try_connect keeps_release_session
  keeps_refresh keeps_apply keeps_confirm

lemma keeps_toggle: "keeps I (toggle_body stop ts)"
  by (auto simp: toggle_body_def confirmRuntimeToggleResult_def Let_def keeps_parts
      intro!: keeping_programs split: sum.split)

lemma keeps_bodies:
  "keeps I grant_body" "keeps I release_body" "keeps I (install_body sn)" "keeps I (save_body c)"
  "keeps I (agent_body pr ts)" "keeps I uninstall_body"
  unfolding grant_body_def release_body_def install_body_def save_body_def agent_body_def uninstall_body_def
  by (auto simp: keeps_parts Let_def intro!: keeping_programs)

lemma keeps_others:
  "keeps I (handleSend c)" "keeps I handleReconnectGateway" "keeps I handleNewConversation"
  "keeps I handleOpenHistory" "keeps I (handleSelectHistorySession sid)"
  "keeps I (handleDeleteHistorySession sid)" "keeps I openSidebar" "keeps I autoConnect"
  "keeps I install_tick" "keeps I status_tick" "keeps I (confirmRuntimeStatus d src b)"
  unfolding handleSend_def handleReconnectGateway_def handleNewConversation_def handleOpenHistory_def
    loadHistorySessions_def handleSelectHistorySession_def select_body_def handleDeleteHistorySession_def
    openSidebar_def open_body_def autoConnect_def install_tick_def status_tick_def confirmRuntimeStatus_def
  by (auto simp: keeps_parts Let_def intro!: keeping_programs)

lemma keeps_unlocked: "\<not> mutates a \<Longrightarrow> keeps I (program_of a)"
  by (cases a) (auto simp: keeps_others intro!: keeping_programs)

lemma keeps_spawned: "keeps I (spawn_program x)"
  by (cases x) (auto simp: keeps_others keeps_refresh intro!: keeping_programs)

end

definition tasks_keep :: "(panel \<Rightarrow> bool) \<Rightarrow> sidebar \<Rightarrow> bool" where
  "tasks_keep I s \<longleftrightarrow> (\<forall>(m, q, k) \<in> set (tasks s). \<forall>a. keeps I (k a))"

lemma tasks_keep_launch: "tasks_keep I s \<Longrightarrow> keeps I q \<Longrightarrow> tasks_keep I (launch b q s)"
  using keeps_rest [of I q "pg s"] by (auto simp: tasks_keep_def launch_def split: prod.split progress.split)

lemma task_keeps: "tasks_keep I s \<Longrightarrow> i < length (tasks s) \<Longrightarrow> tasks s ! i = (m, q, k) \<Longrightarrow> keeps I (k w)"
  unfolding tasks_keep_def by (metis (no_types, lifting) case_prod_conv nth_mem)

lemma tasks_keep_resume: "tasks_keep I s \<Longrightarrow> i < length (tasks s) \<Longrightarrow> tasks_keep I (resume i w s)"
proof -
  assume s: "tasks_keep I s" and i: "i < length (tasks s)"
  obtain m q k where x: "tasks s ! i = (m, q, k)" by (metis prod_cases3)
  obtain p r where r: "run (k w) (pg s) = (p, r)" by (cases "run (k w) (pg s)")
  have "\<forall>(m, q, k) \<in> set (remaining m r). \<forall>a. keeps I (k a)"
    using r keeps_rest [OF task_keeps [OF s i x]] by (auto simp: remaining_def split: progress.split)
  with s x r show ?thesis
    by (fastforce simp: tasks_keep_def resume_def dest: in_set_takeD in_set_dropD)
qed

lemma spawned_step:
  "P (s\<lparr>pg := (pg s)\<lparr>spawned := []\<rparr>\<rparr>) \<Longrightarrow> (\<And>x u. P u \<Longrightarrow> P (launch False (spawn_program x) u)) \<Longrightarrow> P (start_spawned s)"
proof -
  assume "P (s\<lparr>pg := (pg s)\<lparr>spawned := []\<rparr>\<rparr>)" and l: "\<And>x u. P u \<Longrightarrow> P (launch False (spawn_program x) u)"
  moreover have "P (fold (\<lambda>x. launch False (spawn_program x)) xs u)" if "P u" for xs u
    using that by (induction xs arbitrary: u) (simp_all add: l)
  ultimately show ?thesis by (simp add: start_spawned_def)
qed

text \<open>An invariant that holding and releasing the panel keeps too, and the browser's events.\<close>

locale panel_law = panel_invariant +
  assumes lock_fields:
    "I p \<Longrightarrow> I (p\<lparr>mutationRef := m1, mutationEpoch := n1, refreshStatePromise := r1, picoclawMutation := m2\<rparr>)"
    "I p \<Longrightarrow> I (p\<lparr>isTogglingRuntime := f1\<rparr>)" "I p \<Longrightarrow> I (p\<lparr>isReleasingControl := f2\<rparr>)"
    "I p \<Longrightarrow> I (p\<lparr>isInstallRequestPending := f3\<rparr>)" "I p \<Longrightarrow> I (p\<lparr>isSavingModelConfig := f4\<rparr>)"
    "I p \<Longrightarrow> I (p\<lparr>isSwitchingAgent := f5\<rparr>)" "I p \<Longrightarrow> I (p\<lparr>isUninstallRequestPending := f6\<rparr>)"
    and browser: "I p \<Longrightarrow> browser_call call \<Longrightarrow> gw_possible (gw p) call \<Longrightarrow> I (via_gateway (\<lambda>g. gw_step g call) p)"
begin

lemma flags_kept:
  "I p \<Longrightarrow> I (set_toggling b p)" "I p \<Longrightarrow> I (no_flag b p)" "I p \<Longrightarrow> I (set_releasing b p)"
  "I p \<Longrightarrow> I (set_installing b p)" "I p \<Longrightarrow> I (set_saving b p)" "I p \<Longrightarrow> I (set_switching b p)"
  "I p \<Longrightarrow> I (set_uninstalling b p)" "I p \<Longrightarrow> I (fst (beginMutation m p))" "I p \<Longrightarrow> I (endMutation m p)"
  by (simp_all add: lock_fields set_toggling_def no_flag_def set_releasing_def set_installing_def set_saving_def
      set_switching_def set_uninstalling_def beginMutation_def endMutation_def)

lemma keeps_guarded:
  "keeps I body \<Longrightarrow> (\<And>b p. I p \<Longrightarrow> I (flag b p)) \<Longrightarrow> keeps I (guarded m flag d body)"
  by (auto simp: guarded_def flags_kept intro!: keeping_programs)

lemma keeps_program: "keeps I (program_of a)"
proof (cases "mutates a")
  case True
  then show ?thesis
    by (cases a) (auto simp: handleStartRuntime_def handleGrantControl_def handleReleaseControl_def
        handleInstallRuntime_def handleSaveModelConfig_def handleAgentProfileChange_def handleUninstallRuntime_def
        Let_def fields flags_kept keeps_bodies keeps_toggle intro!: keeping_programs keeps_guarded)
qed (rule keeps_unlocked)

lemma tasks_keep_step: "tasks_keep I s \<Longrightarrow> sidebar_possible s e \<Longrightarrow> tasks_keep I (sidebar_step s e)"
proof -
  assume s: "tasks_keep I s" and e: "sidebar_possible s e"
  have "tasks_keep I (sidebar_event e s)"
  proof (cases e)
    case (Ui a)
    with s show ?thesis by (simp add: tasks_keep_launch keeps_program)
  next
    case (Resume i w)
    with s e show ?thesis by (simp add: tasks_keep_resume)
  qed (use s in \<open>simp_all add: tasks_keep_def\<close>)
  then have "tasks_keep I ((sidebar_event e s)\<lparr>pg := (pg (sidebar_event e s))\<lparr>spawned := []\<rparr>\<rparr>)"
    by (simp add: tasks_keep_def)
  then show ?thesis unfolding sidebar_step_def
    by (rule spawned_step) (rule tasks_keep_launch [OF _ keeps_spawned])
qed

lemma tasks_keep_run:
  "tasks_keep I s \<Longrightarrow> run_allowed sidebar_possible sidebar_step s es \<Longrightarrow> tasks_keep I (foldl sidebar_step s es)"
  by (induction es arbitrary: s) (auto intro: tasks_keep_step)

lemma kept_step: "I (pg s) \<Longrightarrow> tasks_keep I s \<Longrightarrow> sidebar_possible s e \<Longrightarrow> I (pg (sidebar_step s e))"
proof -
  assume s: "I (pg s)" "tasks_keep I s" and e: "sidebar_possible s e"
  have launched: "I (pg u) \<Longrightarrow> keeps I q \<Longrightarrow> I (pg (launch b q u))" for b q u
    using keeps_now [of I q "pg u"] by (auto simp: launch_def split: prod.split progress.split)
  have "I (pg (sidebar_event e s))"
  proof (cases e)
    case (Resume i w)
    obtain m q k where x: "tasks s ! i = (m, q, k)" by (metis prod_cases3)
    with s(2) e Resume have "keeps I (k w)" by (auto intro: task_keeps)
    from keeps_now [OF this s(1)] x Resume show ?thesis by (auto simp: resume_def split: prod.split)
  qed (use s e in \<open>simp_all add: launched keeps_program instants browser\<close>)
  then have "I (pg ((sidebar_event e s)\<lparr>pg := (pg (sidebar_event e s))\<lparr>spawned := []\<rparr>\<rparr>))"
    by (simp add: fields)
  then show ?thesis unfolding sidebar_step_def
    by (rule spawned_step [where P = "\<lambda>u. I (pg u)"]) (rule launched [OF _ keeps_spawned])
qed

lemma kept_run:
  "I (pg s) \<Longrightarrow> tasks_keep I s \<Longrightarrow> run_allowed sidebar_possible sidebar_step s es \<Longrightarrow>
    I (pg (foldl sidebar_step s es))"
  by (induction es arbitrary: s) (auto intro: kept_step tasks_keep_step)

lemma kept_always:
  "I p \<Longrightarrow> run_allowed sidebar_possible sidebar_step (new_sidebar p) es \<Longrightarrow>
    I (pg (foldl sidebar_step (new_sidebar p) es))"
  by (rule kept_run) (simp_all add: new_sidebar_def tasks_keep_def)

end

end
