(* ===== verification/Sidebar_Lock.thy ===== *)
theory Sidebar_Lock
  imports Sidebar_System
begin

text \<open>
  One action at a time: the lock \<^verbatim>\<open>beginMutation\<close> takes and \<^verbatim>\<open>endMutation\<close> gives back. The lock is the
  reference, the state shown by the page and the flags of the actions; no program but a guarded
  one changes it, a guarded one holds it until it ends, and it ends after at most twelve answers.
\<close>

section \<open>The lock\<close>

definition lock :: "panel \<Rightarrow> mutation \<times> mutation \<times> bool list" where
  "lock p = (mutationRef p, picoclawMutation p,
    [isTogglingRuntime p, isReleasingControl p, isInstallRequestPending p, isSavingModelConfig p,
     isSwitchingAgent p, isUninstallRequestPending p])"

text \<open>What the page shows while a mutation holds it.\<close>

definition lock_of :: "mutation \<Rightarrow> mutation \<times> mutation \<times> bool list" where
  "lock_of m = (m, m,
    [m \<in> {Runtime_start, Runtime_stop}, m = Control_release, m = Runtime_install, m = Model_save,
     m = Agent_switch, m = Runtime_uninstall])"

named_theorems lock_kept \<open>operations that leave the lock alone\<close>

lemma lock_small [lock_kept]:
  "lock (add_message m p) = lock p" "lock (say k p) = lock p" "lock (show_error x r p) = lock p"
  "lock (setKeyboardLock src b p) = lock p" "lock (releasePicoclawInputFocus p) = lock p"
  "lock (release_input p) = lock p" "lock (end_takeover x p) = lock p" "lock (set_takeover b sn x p) = lock p"
  "lock (update_status f p) = lock p" "lock (update_control h p) = lock p"
  "lock (syncAIControlStatus v x p) = lock p"
  by (simp_all add: lock_def add_message_def say_def show_error_def setKeyboardLock_def
      releasePicoclawInputFocus_def release_input_def end_takeover_def set_takeover_def update_status_def
      update_control_def syncAIControlStatus_def split: option.split)

lemma lock_update [lock_kept]:
  "lock (p\<lparr>messages := a\<rparr>) = lock p" "lock (p\<lparr>transportState := b\<rparr>) = lock p" "lock (p\<lparr>runState := c\<rparr>) = lock p"
  "lock (p\<lparr>runtimeStatus := d\<rparr>) = lock p" "lock (p\<lparr>overlay := e\<rparr>) = lock p" "lock (p\<lparr>takeover := f\<rparr>) = lock p"
  "lock (p\<lparr>aiControlStatus := g\<rparr>) = lock p" "lock (p\<lparr>gw := h\<rparr>) = lock p" "lock (p\<lparr>spawned := i\<rparr>) = lock p"
  "lock (p\<lparr>drawn := j\<rparr>) = lock p" "lock (p\<lparr>activeSessionId := k\<rparr>) = lock p" "lock (p\<lparr>clock := l\<rparr>) = lock p"
  "lock (p\<lparr>isFreshConversation := m\<rparr>) = lock p" "lock (p\<lparr>isHistoryOpen := n\<rparr>) = lock p"
  "lock (p\<lparr>isModelConfigOpen := o'\<rparr>) = lock p" "lock (p\<lparr>modelConfigError := q\<rparr>) = lock p"
  "lock (p\<lparr>isInitializing := r\<rparr>) = lock p" "lock (p\<lparr>isLoadingHistory := s\<rparr>) = lock p"
  "lock (p\<lparr>isDeletingSession := u\<rparr>) = lock p" "lock (p\<lparr>isSwitchingSession := v\<rparr>) = lock p"
  "lock (p\<lparr>historySessions := w\<rparr>) = lock p" "lock (p\<lparr>installSnapshot := x\<rparr>) = lock p"
  "lock (p\<lparr>mounted := y\<rparr>) = lock p" "lock (p\<lparr>lastAttemptAt := z\<rparr>) = lock p"
  "lock (p\<lparr>refreshRequestSeq := aa\<rparr>) = lock p" "lock (p\<lparr>refreshStatePromise := ab\<rparr>) = lock p"
  "lock (p\<lparr>refresh_results := ac\<rparr>) = lock p" "lock (p\<lparr>previousInstalling := ad\<rparr>) = lock p"
  "lock (p\<lparr>modelIdentifier := ae\<rparr>) = lock p" "lock (p\<lparr>modelApiBase := af\<rparr>) = lock p"
  "lock (p\<lparr>modelApiKey := ag\<rparr>) = lock p" "lock (p\<lparr>inputFocused := ah\<rparr>) = lock p"
  "lock (p\<lparr>keyboardLocks := ai\<rparr>) = lock p"
  by (simp_all add: lock_def)

lemma lock_listen [lock_kept]: "lock (listen e p) = lock p"
  by (cases e) (simp_all add: lock_kept on_transport_state_def on_control_mode_changed_def on_close_def Let_def
      clearActiveGatewayUI_def clearDeviceControlUI_def markRuntimeTransportUnavailable_def spawn_confirm_def)

lemma lock_via_gateway [lock_kept]: "lock (via_gateway f p) = lock p"
proof -
  have "lock (fold listen es p) = lock p" for es p
    by (induction es arbitrary: p) (simp_all add: lock_kept)
  then show ?thesis by (simp add: via_gateway_def Let_def lock_kept)
qed

lemma lock_user_message [lock_kept]: "lock (user_message c p) = lock p"
  by (simp add: user_message_def lock_kept)

interpretation lock_alone: panel_invariant "\<lambda>p. lock p = c" for c
  by unfold_locales (simp_all add: lock_kept)

lemma frame_lockI: "(\<And>c. keeps (\<lambda>p. lock p = c) q) \<Longrightarrow> frame lock q"
  by (simp add: frame_def)

lemma frame_bodies:
  "frame lock (toggle_body stop ts)" "frame lock grant_body" "frame lock release_body"
  "frame lock (install_body sn)" "frame lock (save_body c)" "frame lock (agent_body pr ts)"
  "frame lock uninstall_body"
  by (rule frame_lockI, rule lock_alone.keeps_toggle lock_alone.keeps_bodies)+

lemma frame_unlocked: "\<not> mutates a \<Longrightarrow> frame lock (program_of a)"
  by (rule frame_lockI) (rule lock_alone.keeps_unlocked)

lemma frame_spawned: "frame lock (spawn_program x)"
  by (rule frame_lockI) (rule lock_alone.keeps_spawned)

lemma lock_instant: "lock (instant_step i p) = lock p"
  using lock_alone.instants [of p "lock p"] by simp

section \<open>Programs that take it\<close>

definition holder :: "mutation \<Rightarrow> unit program \<Rightarrow> bool" where
  "holder m q \<longleftrightarrow> m \<noteq> No_mutation \<and>
    (\<exists>body :: unit program. frame lock body \<and>
      (\<exists>rel. q = finally_do body rel \<and> (\<forall>p. lock p = lock_of m \<longrightarrow> lock (rel p) = lock_of No_mutation)))"

definition takes_lock :: "unit program \<Rightarrow> bool" where
  "takes_lock q \<longleftrightarrow> (\<forall>p p' r. run q p = (p', r) \<longrightarrow> lock p = lock_of (mutationRef p) \<longrightarrow>
    (case r of
       Finished x \<Rightarrow> lock p' = lock p
     | Waiting w k \<Rightarrow> mutationRef p = No_mutation \<and> lock p' = lock_of (mutationRef p') \<and>
         (\<forall>a. holder (mutationRef p') (k a))))"

lemma lock_mutation: "lock p = lock q \<Longrightarrow> mutationRef p = mutationRef q"
  by (simp add: lock_def)

lemma run_holder:
  assumes "holder m q" and "lock p = lock_of m" and "run q p = (p', r)"
  shows "case r of Finished x \<Rightarrow> lock p' = lock_of No_mutation | Waiting w k \<Rightarrow> lock p' = lock_of m \<and> (\<forall>a. holder m (k a))"
proof -
  from assms(1) obtain body rel where b: "frame lock body" "q = finally_do body rel" "m \<noteq> No_mutation"
    "\<And>p. lock p = lock_of m \<Longrightarrow> lock (rel p) = lock_of No_mutation" by (auto simp: holder_def)
  have now: "lock (fst (run body p)) = lock_of m" using frame_now [OF b(1), of p] assms(2) by simp
  show ?thesis
  proof (cases "run body p")
    case (Pair p0 r0)
    with now have l: "lock p0 = lock_of m" by simp
    show ?thesis
    proof (cases r0)
      case (Finished x)
      with Pair assms(3) b(2) have "p' = rel p0" "r = Finished x" by (auto simp: run_finally)
      with b(4) l show ?thesis by simp
    next
      case (Waiting w k)
      with Pair assms(3) b(2) have e: "p' = p0" "r = Waiting w (\<lambda>a. finally_do (k a) rel)"
        by (auto simp: run_finally)
      from b(1) Pair Waiting have "frame lock (k a)" for a by (blast intro: frame_rest)
      with b(3,4) have "holder m (finally_do (k a) rel)" for a unfolding holder_def by blast
      with e l show ?thesis by simp
    qed
  qed
qed

lemma ignoring_finally: "ignoring (finally_do body rel) = finally_do (ignoring body) rel"
  unfolding ignoring_def by (induction body) simp_all

lemma holder_ignoring:
  "frame lock body \<Longrightarrow> m \<noteq> No_mutation \<Longrightarrow> (\<And>p. lock p = lock_of m \<Longrightarrow> lock (rel p) = lock_of No_mutation) \<Longrightarrow>
    holder m (ignoring (finally_do body rel))"
  unfolding ignoring_finally holder_def by (blast intro: frame_ignoring)

text \<open>The flag of a mutation is the one \<^const>\<open>lock_of\<close> names.\<close>

definition flag_of :: "mutation \<Rightarrow> (bool \<Rightarrow> panel \<Rightarrow> panel) \<Rightarrow> bool" where
  "flag_of m flag \<longleftrightarrow> m \<noteq> No_mutation \<and>
    (\<forall>p. lock p = lock_of No_mutation \<longrightarrow> lock (flag True (fst (beginMutation m p))) = lock_of m) \<and>
    (\<forall>p. lock p = lock_of m \<longrightarrow> lock (endMutation m (flag False p)) = lock_of No_mutation)"

lemma flags:
  "flag_of Runtime_start set_toggling" "flag_of Runtime_stop set_toggling" "flag_of Control_grant no_flag"
  "flag_of Control_release set_releasing" "flag_of Runtime_install set_installing"
  "flag_of Model_save set_saving" "flag_of Agent_switch set_switching"
  "flag_of Runtime_uninstall set_uninstalling"
  by (auto simp: flag_of_def lock_def lock_of_def beginMutation_def endMutation_def set_toggling_def no_flag_def
      set_releasing_def set_installing_def set_saving_def set_switching_def set_uninstalling_def)

lemma takes_guarded:
  assumes "flag_of m flag" and "frame lock body"
  shows "takes_lock (ignoring (guarded m flag d body))"
  unfolding takes_lock_def
proof (intro allI impI)
  fix p p' r
  assume r: "run (ignoring (guarded m flag d body)) p = (p', r)" and l: "lock p = lock_of (mutationRef p)"
  let ?rel = "\<lambda>p. endMutation m (flag False p)"
  let ?q = "ignoring (finally_do body ?rel)"
  let ?p = "flag True (fst (beginMutation m p))"
  show "case r of Finished x \<Rightarrow> lock p' = lock p
    | Waiting w k \<Rightarrow> mutationRef p = No_mutation \<and> lock p' = lock_of (mutationRef p') \<and>
        (\<forall>a. holder (mutationRef p') (k a))"
  proof (cases "mutationRef p = No_mutation")
    case False
    with r show ?thesis by (auto simp: guarded_def beginMutation_def ignoring_def)
  next
    case True
    with assms(1) l have b: "lock ?p = lock_of m" by (simp add: flag_of_def)
    have h: "holder m ?q"
      using assms by (intro holder_ignoring) (auto simp: flag_of_def)
    from True r have "run ?q ?p = (p', r)" by (simp add: guarded_def beginMutation_def ignoring_def)
    from run_holder [OF h b this] True l show ?thesis
      by (auto split: progress.splits simp: lock_of_def lock_def)
  qed
qed

lemma ignoring_unit [simp]: "ignoring (q :: unit program) = q"
  by (simp add: ignoring_def)

lemma takes_Get: "(\<And>p. takes_lock (g p)) \<Longrightarrow> takes_lock (Get g)"
  by (fastforce simp: takes_lock_def)

lemma takes_nothing: "takes_lock (Return x)" "(\<And>p. lock (f p) = lock p) \<Longrightarrow> takes_lock (act f)"
  by (auto simp: takes_lock_def)

lemmas takes_unit_guarded = takes_guarded [where d = "()", simplified]

lemma takes_mutations: "mutates a \<Longrightarrow> takes_lock (program_of a)"
  by (cases a) (auto simp: handleStartRuntime_def handleGrantControl_def handleReleaseControl_def
      handleInstallRuntime_def handleSaveModelConfig_def handleAgentProfileChange_def handleUninstallRuntime_def
      Let_def lock_kept intro!: takes_Get takes_nothing takes_guarded takes_unit_guarded flags frame_bodies)

section \<open>One action at a time\<close>

definition holders :: "sidebar \<Rightarrow> mutation list" where
  "holders s = filter (\<lambda>m. m \<noteq> No_mutation) (map fst (tasks s))"

definition task_ok :: "mutation \<times> page_request \<times> (answer \<Rightarrow> unit program) \<Rightarrow> bool" where
  "task_ok x = (case x of (m, q, k) \<Rightarrow> \<forall>a. if m = No_mutation then frame lock (k a) else holder m (k a))"

definition held :: "mutation \<Rightarrow> mutation list" where
  "held m = (if m = No_mutation then [] else [m])"

definition sidebar_inv :: "sidebar \<Rightarrow> bool" where
  "sidebar_inv s \<longleftrightarrow> lock (pg s) = lock_of (mutationRef (pg s)) \<and> holders s = held (mutationRef (pg s)) \<and>
    (\<forall>x \<in> set (tasks s). task_ok x)"

lemma inv_same_lock:
  "sidebar_inv s \<Longrightarrow> lock p = lock (pg s) \<Longrightarrow> sidebar_inv (s\<lparr>pg := p\<rparr>)"
  using lock_mutation [of p "pg s"] by (simp add: sidebar_inv_def holders_def)

lemma inv_launch_framed:
  assumes "sidebar_inv s" "frame lock q"
  shows "sidebar_inv (launch False q s)"
proof (cases "run q (pg s)")
  case (Pair p r)
  with assms(2) have l: "lock p = lock (pg s)" using frame_now [OF assms(2), of "pg s"] by simp
  show ?thesis
  proof (cases r)
    case Finished
    with Pair l assms(1) show ?thesis by (simp add: launch_def inv_same_lock)
  next
    case (Waiting w k)
    with Pair assms(2) have "frame lock (k a)" for a by (blast intro: frame_rest)
    with Pair Waiting l assms(1) lock_mutation [OF l] show ?thesis
      by (auto simp: launch_def sidebar_inv_def holders_def task_ok_def)
  qed
qed

lemma inv_launch_locking:
  assumes "sidebar_inv s" "takes_lock q"
  shows "sidebar_inv (launch True q s)"
proof (cases "run q (pg s)")
  case (Pair p r)
  from assms(1) have l: "lock (pg s) = lock_of (mutationRef (pg s))" by (simp add: sidebar_inv_def)
  note t = assms(2) [unfolded takes_lock_def, rule_format, OF Pair l]
  show ?thesis
  proof (cases r)
    case Finished
    with Pair t assms(1) show ?thesis by (simp add: launch_def inv_same_lock)
  next
    case (Waiting w k)
    with t have n: "mutationRef (pg s) = No_mutation" "lock p = lock_of (mutationRef p)"
      "\<And>a. holder (mutationRef p) (k a)" by simp_all
    then have "mutationRef p \<noteq> No_mutation" by (auto simp: holder_def)
    with n Pair Waiting assms(1) show ?thesis
      by (auto simp: launch_def sidebar_inv_def holders_def held_def task_ok_def)
  qed
qed

lemma inv_spawned: "sidebar_inv s \<Longrightarrow> sidebar_inv (start_spawned s)"
proof -
  assume s: "sidebar_inv s"
  have "sidebar_inv (fold (\<lambda>x. launch False (spawn_program x)) xs u)" if "sidebar_inv u" for xs u
    using that by (induction xs arbitrary: u) (simp_all add: inv_launch_framed frame_spawned)
  with s show ?thesis by (simp add: start_spawned_def inv_same_lock lock_kept)
qed

abbreviation marks :: "(mutation \<times> 'a) list \<Rightarrow> mutation list" where
  "marks ts \<equiv> filter (\<lambda>m. m \<noteq> No_mutation) (map fst ts)"

lemma marks_split:
  "i < length ts \<Longrightarrow> marks ts = marks (take i ts) @ held (fst (ts ! i)) @ marks (drop (Suc i) ts)"
  by (subst id_take_nth_drop [of i ts]) (auto simp: held_def)

lemma inv_replaced:
  assumes "sidebar_inv s" and "lock p = lock_of (mutationRef p)" and "\<forall>y \<in> set ys. task_ok y"
    and "marks (take i (tasks s)) @ marks ys @ marks (drop (Suc i) (tasks s)) = held (mutationRef p)"
  shows "sidebar_inv (s\<lparr>pg := p, tasks := take i (tasks s) @ ys @ drop (Suc i) (tasks s)\<rparr>)"
  using assms by (auto simp: sidebar_inv_def holders_def dest: in_set_takeD in_set_dropD)

lemma inv_resume:
  assumes "sidebar_inv s" and "i < length (tasks s)"
  shows "sidebar_inv (resume i w s)"
proof -
  obtain m q k where x: "tasks s ! i = (m, q, k)" by (metis prod_cases3)
  with assms have ok: "task_ok (m, q, k)" by (metis nth_mem sidebar_inv_def)
  obtain p r where r: "run (k w) (pg s) = (p, r)" by (cases "run (k w) (pg s)")
  have h: "held (mutationRef (pg s)) = marks (take i (tasks s)) @ held m @ marks (drop (Suc i) (tasks s))"
    using assms marks_split [OF assms(2)] x by (simp add: sidebar_inv_def holders_def)
  have "lock p = lock_of (mutationRef p) \<and> (\<forall>y \<in> set (remaining m r). task_ok y) \<and>
    marks (take i (tasks s)) @ marks (remaining m r) @ marks (drop (Suc i) (tasks s)) = held (mutationRef p)"
  proof (cases "m = No_mutation")
    case True
    with ok have f: "frame lock (k w)" by (simp add: task_ok_def)
    have l: "lock p = lock (pg s)" using frame_now [OF f, of "pg s"] r by simp
    from f r have "task_ok (m, q', k')" if "r = Waiting q' k'" for q' k'
      using that True by (auto simp: task_ok_def intro: frame_rest)
    with True l h lock_mutation [OF l] assms(1) show ?thesis
      by (auto simp: remaining_def held_def sidebar_inv_def split: progress.split)
  next
    case False
    with ok have f: "holder m (k w)" by (simp add: task_ok_def)
    from h False have m: "mutationRef (pg s) = m" and e: "marks (take i (tasks s)) = []" "marks (drop (Suc i) (tasks s)) = []"
      by (auto simp: held_def Cons_eq_append_conv split: if_splits)
    from assms(1) m have l: "lock (pg s) = lock_of m" by (simp add: sidebar_inv_def)
    have ref: "mutationRef p = m'" if "lock p = lock_of m'" for m'
      using that by (simp add: lock_def lock_of_def)
    from run_holder [OF f l r] False ref e show ?thesis
      by (cases r) (auto simp: remaining_def held_def task_ok_def)
  qed
  with inv_replaced [OF assms(1)] x r show ?thesis by (simp add: resume_def)
qed

lemma sidebar_inv_step: "sidebar_inv s \<Longrightarrow> sidebar_possible s e \<Longrightarrow> sidebar_inv (sidebar_step s e)"
proof -
  assume s: "sidebar_inv s" and e: "sidebar_possible s e"
  have "sidebar_inv (sidebar_event e s)"
  proof (cases e)
    case (Ui a)
    then show ?thesis
      using s by (cases "mutates a") (simp_all add: inv_launch_framed frame_unlocked inv_launch_locking takes_mutations)
  qed (use s e in \<open>auto simp: inv_same_lock lock_instant lock_kept inv_resume\<close>)
  then show ?thesis by (simp add: sidebar_step_def inv_spawned)
qed

lemma sidebar_inv_new: "lock p = lock_of No_mutation \<Longrightarrow> sidebar_inv (new_sidebar p)"
  by (simp add: sidebar_inv_def new_sidebar_def holders_def held_def lock_def lock_of_def)

lemma lock_new_panel: "lock (new_panel g ids tr a b now) = lock_of No_mutation"
  by (simp add: new_panel_def lock_def lock_of_def)

interpretation sidebar:
  guarded_machine "new_sidebar (new_panel g ids tr a b now)" sidebar_possible sidebar_step sidebar_inv
  for g ids tr a b now
  by unfold_locales (auto intro: sidebar_inv_new lock_new_panel sidebar_inv_step)

text \<open>
  C14: One action at a time. Whatever the user, the service, the socket and the clock do, the panel is
  held by no action or by one suspended action, whose name is in \<^verbatim>\<open>mutationRef\<close> and in the state
  the page shows; the flag of an action (toggling, releasing, installing, saving, switching,
  uninstalling) is set exactly while that action is suspended.
\<close>

theorem one_mutation_at_a_time:
  fixes g ids tr a b now es
  defines "s \<equiv> foldl sidebar_step (new_sidebar (new_panel g ids tr a b now)) es"
  assumes "run_allowed sidebar_possible sidebar_step (new_sidebar (new_panel g ids tr a b now)) es"
  shows "lock (pg s) = lock_of (mutationRef (pg s)) \<and>
    filter (\<lambda>m. m \<noteq> No_mutation) (map fst (tasks s)) =
      (if mutationRef (pg s) = No_mutation then [] else [mutationRef (pg s)])"
  using sidebar.inv_run [OF assms(2)] by (simp add: s_def sidebar_inv_def holders_def held_def)

theorem one_mutation_at_a_time_witness:
  "let s = foldl sidebar_step (new_sidebar (new_panel (new_gateway \<lparr>session_store = None, local_store = Map.empty\<rparr>)
     (\<lambda>n. ''id'') id 20 120000 0)) [Ui Grant_control, Ui Uninstall_runtime]
   in mutationRef (pg s) = Control_grant \<and> map fst (tasks s) = [Control_grant] \<and>
      picoclawMutation (pg s) = Control_grant"
proof -
  let ?p = "new_panel (new_gateway \<lparr>session_store = None, local_store = Map.empty\<rparr>) (\<lambda>n. ''id'') id 20 120000 0"
  let ?es = "[Ui Grant_control, Ui Uninstall_runtime]"
  have e: "mutationRef (pg (foldl sidebar_step (new_sidebar ?p) ?es)) = Control_grant"
    by (simp add: sidebar_step_def start_spawned_def launch_def new_sidebar_def new_panel_def beginMutation_def
        handleGrantControl_def handleUninstallRuntime_def guarded_def grant_body_def fetch_def ignoring_def
        no_flag_def)
  have t: "length (tasks (foldl sidebar_step (new_sidebar ?p) ?es)) = 1"
    by (simp add: sidebar_step_def start_spawned_def launch_def new_sidebar_def new_panel_def beginMutation_def
        handleGrantControl_def handleUninstallRuntime_def guarded_def grant_body_def fetch_def ignoring_def
        no_flag_def)
  have m: "filter (\<lambda>m. m \<noteq> No_mutation) xs = [Control_grant] \<Longrightarrow> length xs = 1 \<Longrightarrow> xs = [Control_grant]" for xs
    by (cases xs) (auto split: if_splits)
  from one_mutation_at_a_time [of "new_gateway \<lparr>session_store = None, local_store = Map.empty\<rparr>" "\<lambda>n. ''id''" id 20 120000 0 ?es]
    e t m [of "map fst (tasks (foldl sidebar_step (new_sidebar ?p) ?es))"]
  show ?thesis by (simp add: lock_def lock_of_def Let_def)
qed

section \<open>Every action ends\<close>

lemma ends_fetch: "ends_within (fetch q) 1"
  by (simp add: fetch_def split: answer.split)

lemma ends_attempt: "ends_within q n \<Longrightarrow> ends_within (attempt q) n"
  unfolding attempt_def by (rule ends_handled [OF ends_last]) simp_all

lemma ends_sleep: "ends_within (sleep ms) 1"
  by (simp only: sleep_def ends_within.simps ends_ignoring ends_fetch simp_thms)

lemma ends_try_connect: "ends_within (try_connect sid) 1"
proof -
  have "ends_within (connectGateway sid) 1"
    using ends_fetch by (simp add: connectGateway_def split: promise_ref.split)
  then show ?thesis unfolding try_connect_def by (rule ends_handled [OF ends_last]) simp_all
qed

lemma ends_refresh: "ends_within (refreshState opts) 1"
proof -
  have p: "ends_within (refreshPromise opts i e) 1" for i e
    unfolding refreshPromise_def Let_def
    by (rule ends_last [OF ends_attempt [OF ends_fetch]])
      (auto split: sum.split intro!: ends_read ends_member)
  have "ends_within (recording i (refreshPromise opts i e)) 1" for i e
    unfolding recording_def
    by (rule ends_handled [OF ends_last [OF p]]) simp_all
  then show ?thesis
    using ends_fetch by (simp add: refreshState_def Let_def ends_finally split: option.split)
qed

lemma ends_release_session: "ends_within (release_session sid) 1"
  using ends_ignoring [OF ends_attempt [OF ends_fetch]] by (simp add: release_session_def)

lemma ends_apply: "ends_within (applyRuntimeToggleSuccess st stop ts) 1"
  using ends_ignoring [OF ends_try_connect] by (simp add: applyRuntimeToggleSuccess_def)

lemma ends_confirm: "ends_within (confirm_attempts n stop ts) (2 * n)"
proof (induction n)
  case (Suc n)
  have "ends_within (if truthy l \<and> isExpectedRuntimeState l stop
      then and_then (applyRuntimeToggleSuccess l stop ts) (\<lambda>_. Return l)
      else if 0 < n then and_then (sleep 500) (\<lambda>_. confirm_attempts n stop ts) else Return None) (Suc (2 * n))" for l
    using ends_step [OF ends_sleep, of "\<lambda>_. confirm_attempts n stop ts"] Suc
      ends_mono [OF ends_last [OF ends_apply, of "\<lambda>_. Return l"], of "Suc (2 * n)"] by auto
  then have "ends_within (confirm_attempts (Suc n) stop ts) (Suc (Suc (2 * n)))"
    unfolding confirm_attempts.simps by (rule ends_step [OF ends_refresh])
  then show ?case by simp
qed simp

lemma ends_toggle: "ends_within (toggle_body stop ts) 12"
proof -
  have c: "ends_within (confirmRuntimeToggleResult stop ts) 10"
    using ends_confirm [of 5] by (simp add: confirmRuntimeToggleResult_def)
  have r: "ends_within (ignoring (refreshState forced)) 1" by (rule ends_ignoring [OF ends_refresh])
  have "ends_within (and_then (confirmRuntimeToggleResult stop ts) f) 11" if "\<And>x. ends_within (f x) 1" for f :: "_ \<Rightarrow> unit program"
    using ends_and_then [OF c that] by simp
  moreover have "ends_within (and_then (applyRuntimeToggleSuccess st stop ts) (\<lambda>_. ignoring (refreshState forced))) 11" for st
    using ends_mono [OF ends_and_then [OF ends_apply r], of 11] by simp
  ultimately have "ends_within (toggle_body stop ts) (Suc 11)"
    unfolding toggle_body_def Let_def using r
    by (intro ends_step ends_attempt ends_fetch) (auto split: sum.split)
  then show ?thesis by simp
qed

lemma ends_two: "ends_within q 1 \<Longrightarrow> ends_within q 2" "ends_within q 0 \<Longrightarrow> ends_within q 1"
  by (auto intro: ends_mono)

lemmas ends_after_refresh = ends_last [OF ends_refresh] ends_two(1) [OF ends_last [OF ends_refresh]]
  ends_ignoring [OF ends_refresh] ends_two(1) [OF ends_ignoring [OF ends_refresh]]
  ends_ignoring [OF ends_try_connect] ends_two(1) [OF ends_ignoring [OF ends_try_connect]]
  ends_read [OF ends_member]

lemma ends_body:
  assumes "\<And>response. ends_within (f response) 2" and "\<And>e. ends_within (h e) 1"
  shows "ends_within (catching (and_then (fetch q) f) h) 12"
  using ends_mono [OF ends_catching [OF ends_step [OF ends_fetch assms(1)] assms(2)], of 12] by simp

lemma ends_bodies:
  "ends_within grant_body 12" "ends_within release_body 12" "ends_within (install_body sn) 12"
  "ends_within (save_body c) 12" "ends_within (agent_body pr ts) 12" "ends_within uninstall_body 12"
proof -
  show "ends_within grant_body 12" "ends_within release_body 12"
    unfolding grant_body_def release_body_def by (auto simp del: One_nat_def intro!: ends_body ends_after_refresh)
  show "ends_within (install_body sn) 12" "ends_within (save_body c) 12" "ends_within uninstall_body 12"
    unfolding install_body_def save_body_def uninstall_body_def Let_def
    by (auto simp del: One_nat_def intro!: ends_body ends_after_refresh)
  have "ends_within (and_then (refreshState forced) f) 2" if "\<And>x. ends_within (f x) 1" for f :: "_ \<Rightarrow> unit program"
    using ends_step [OF ends_refresh that] by (simp add: numeral_2_eq_2)
  then show "ends_within (agent_body pr ts) 12"
    unfolding agent_body_def using ends_ignoring [OF ends_try_connect]
    by (auto simp del: One_nat_def intro!: ends_body ends_read [OF ends_member])
qed

lemma ends_guarded: "ends_within body n \<Longrightarrow> ends_within (guarded m flag d body) n"
  by (simp add: guarded_def ends_finally)

lemma ends_mutations: "mutates a \<Longrightarrow> ends_within (program_of a) 12"
  by (cases a) (auto simp: handleStartRuntime_def handleGrantControl_def handleReleaseControl_def
      handleInstallRuntime_def handleSaveModelConfig_def handleAgentProfileChange_def handleUninstallRuntime_def
      Let_def intro!: ends_guarded ends_bodies ends_toggle ends_ignoring)

text \<open>Interference that leaves the lock to its holder, as every other step does.\<close>

definition leaves_lock :: "(answer \<times> (panel \<Rightarrow> panel)) list \<Rightarrow> bool" where
  "leaves_lock answers \<longleftrightarrow> list_all (\<lambda>(w, f). \<forall>p. lock (f p) = lock p) answers"

lemma leaves_lock_Cons [simp]:
  "leaves_lock ((w, f) # answers) \<longleftrightarrow> (\<forall>p. lock (f p) = lock p) \<and> leaves_lock answers"
  by (simp add: leaves_lock_def)

lemma feed_holder:
  "holder m q \<Longrightarrow> lock p = lock_of m \<Longrightarrow> leaves_lock answers \<Longrightarrow>
    feed q p answers = (p', Finished r) \<Longrightarrow> lock p' = lock_of No_mutation"
proof (induction q p answers rule: feed.induct)
  case (1 q p)
  then show ?case using run_holder [of m q p] by fastforce
next
  case (2 q p w f answers)
  show ?case
  proof (cases "run q p")
    case (Pair u x)
    note h = run_holder [OF 2(2,3) Pair]
    show ?thesis
    proof (cases x)
      case (Finished y)
      with h Pair 2(5) show ?thesis by simp
    next
      case (Waiting z k)
      with h 2(4) have "holder m (k w)" "lock (f u) = lock_of m" by auto
      with 2(1) [OF Pair [symmetric] Waiting] 2(4,5) Pair Waiting show ?thesis by simp
    qed
  qed
qed

text \<open>
  C15: Every action ends. An action on the runtime, the control, the model or the agent is over
  when twelve answers have come, whatever they are and whatever else happened to the page in
  between, and then the panel is as free as before: no answer leaves the lock or a flag behind.
\<close>

theorem actions_end_and_unlock:
  assumes "mutates a" and "lock p = lock_of (mutationRef p)" and "12 \<le> length answers"
    and "leaves_lock answers"
  shows "\<exists>p' r. feed (program_of a) p answers = (p', Finished r) \<and>
    (mutationRef p = No_mutation \<longrightarrow> lock p' = lock_of No_mutation) \<and>
    (mutationRef p \<noteq> No_mutation \<longrightarrow> lock p' = lock p)"
proof -
  from ends_feed [OF ends_mutations [OF assms(1)] assms(3)] obtain p' r
    where f: "feed (program_of a) p answers = (p', Finished r)" by blast
  obtain w g vs where ws: "answers = (w, g) # vs" using assms(3) by (cases answers) auto
  obtain u x where r: "run (program_of a) p = (u, x)" by (cases "run (program_of a) p")
  note t = takes_mutations [OF assms(1), unfolded takes_lock_def, rule_format, OF r assms(2)]
  have "(mutationRef p = No_mutation \<longrightarrow> lock p' = lock_of No_mutation) \<and>
    (mutationRef p \<noteq> No_mutation \<longrightarrow> lock p' = lock p)"
  proof (cases x)
    case (Finished y)
    with t r f ws assms(2) show ?thesis by auto
  next
    case (Waiting q k)
    with t assms(4) ws have h: "holder (mutationRef u) (k w)" "lock (g u) = lock_of (mutationRef u)"
      "mutationRef p = No_mutation" by auto
    from f ws r Waiting have "feed (k w) (g u) vs = (p', Finished r)" by simp
    with feed_holder [OF h(1,2), of vs p' r] assms(4) ws h(3) show ?thesis by simp
  qed
  with f show ?thesis by blast
qed

theorem actions_end_and_unlock_witness:
  "let p = new_panel (new_gateway \<lparr>session_store = None, local_store = Map.empty\<rparr>) (\<lambda>n. ''id'') id 20 120000 0;
       answers = replicate 12 (Rejected_with (Js_error ''Network Error'' None), id)
   in \<exists>p' r. feed (program_of Start_runtime) p answers = (p', Finished r) \<and> lock p' = lock_of No_mutation"
proof -
  let ?p = "new_panel (new_gateway \<lparr>session_store = None, local_store = Map.empty\<rparr>) (\<lambda>n. ''id'') id 20 120000 0"
  let ?answers = "replicate 12 (Rejected_with (Js_error ''Network Error'' None), id)"
  have m: "mutationRef ?p = No_mutation" by (simp add: new_panel_def)
  from actions_end_and_unlock [of Start_runtime ?p ?answers] m lock_new_panel
  show ?thesis unfolding Let_def by (simp add: leaves_lock_def list_all_iff)
qed

end
