(* ===== verification/Sidebar_Safety.thy ===== *)
theory Sidebar_Safety
  imports Sidebar_Lock
begin

text \<open>
  What the assistant's panel guarantees beyond its lock: which status it shows, how many
  screenshots it keeps, how often it connects, and when its lock is lost.
\<close>

section \<open>Answers that come too late\<close>

definition superseded :: "panel \<Rightarrow> panel \<Rightarrow> bool" where
  "superseded p q \<longleftrightarrow> refreshRequestSeq q \<noteq> refreshRequestSeq p + 1 \<or> mutationEpoch q \<noteq> mutationEpoch p \<or>
    mutationRef q \<noteq> No_mutation"

lemmas refresh_defs = refreshState_def recording_def refreshPromise_def attempt_def fetch_def Let_def

lemma sync_shows: "runtimeStatus (syncRuntimeStatus v x p) = v"
  by (simp add: syncRuntimeStatus_def syncAIControlStatus_def split: option.split)

lemma fed_refresh:
  assumes "mutationRef p = No_mutation" and "refreshStatePromise p = None" and "field ''code'' j = Some (JNum 0)"
  shows "fst (feed (refreshState ordinary) p [(Answered (Some j), \<lambda>_. q)]) =
    forget_promise ordinary (refreshRequestSeq p + 1) (note_result (refreshRequestSeq p + 1) (Inr (field ''data'' j))
      (if canCommit ordinary (refreshRequestSeq p + 1) (mutationEpoch p) q
       then syncRuntimeStatus (field ''data'' j) ''picoclaw_runtime_status'' q else q))"
proof -
  obtain m where "j = JObj m" using assms(3) by (cases j) auto
  with assms show ?thesis by (simp add: refresh_defs member_def opt_field_def)
qed

lemma fed_refresh_failure:
  assumes "mutationRef p = No_mutation" and "refreshStatePromise p = None"
  shows "fst (feed (refreshState ordinary) p [(Rejected_with e, \<lambda>_. q)]) =
    forget_promise ordinary (refreshRequestSeq p + 1) (note_result (refreshRequestSeq p + 1) (Inr None)
      (markRuntimeStatusUnavailable ''runtime_status_unavailable'' q))"
  using assms by (simp add: refresh_defs)

lemma noted_fields [simp]:
  "runtimeStatus (forget_promise opts n p) = runtimeStatus p" "runtimeStatus (note_result n r p) = runtimeStatus p"
  "aiControlStatus (forget_promise opts n p) = aiControlStatus p" "aiControlStatus (note_result n r p) = aiControlStatus p"
  "transportState (forget_promise opts n p) = transportState p" "transportState (note_result n r p) = transportState p"
  "takeover (forget_promise opts n p) = takeover p" "takeover (note_result n r p) = takeover p"
  by (simp_all add: forget_promise_def note_result_def)

text \<open>
  C17: A status that comes too late is not shown. The answer to an ordinary request for the status,
  sent from the page \<open>p\<close> and arriving at the page \<open>q\<close>, is shown only if no other request was sent
  since, no action began or ended since, and none is under way; otherwise the page keeps what it
  shows of the runtime and of the control.
\<close>

theorem late_status_not_shown:
  fixes p q :: panel and j :: json
  assumes "mutationRef p = No_mutation" and "refreshStatePromise p = None"
    and "field ''code'' j = Some (JNum 0)"
  defines "q' \<equiv> fst (feed (refreshState ordinary) p [(Answered (Some j), \<lambda>_. q)])"
  shows "if superseded p q then runtimeStatus q' = runtimeStatus q \<and> aiControlStatus q' = aiControlStatus q
    else runtimeStatus q' = field ''data'' j"
  using fed_refresh [OF assms(1-3), of q]
  by (auto simp: q'_def superseded_def canCommit_def sync_shows)

theorem late_status_not_shown_witness:
  "let p = new_panel (new_gateway empty_store) (\<lambda>n. ''id'') id 20 120000 0;
       q = fst (beginMutation Runtime_stop (p\<lparr>refreshRequestSeq := 1, refreshStatePromise := Some 1\<rparr>));
       j = JObj [(''code'', JNum 0), (''data'', JObj [(''ready'', JBool True)])]
   in runtimeStatus (fst (feed (refreshState ordinary) p [(Answered (Some j), \<lambda>_. q)])) = runtimeStatus q"
proof -
  let ?p = "new_panel (new_gateway empty_store) (\<lambda>n. ''id'') id 20 120000 0"
  let ?q = "fst (beginMutation Runtime_stop (?p\<lparr>refreshRequestSeq := 1, refreshStatePromise := Some 1\<rparr>))"
  let ?j = "JObj [(''code'', JNum 0), (''data'', JObj [(''ready'', JBool True)])]"
  have "superseded ?p ?q" by (simp add: superseded_def beginMutation_def new_panel_def)
  with late_status_not_shown [of ?p ?j ?q] show ?thesis by (simp add: Let_def new_panel_def)
qed

text \<open>
  C18: A failure that comes too late is. When the same request fails, the page drops the connection it
  shows and the takeover, whatever was asked or begun since.
\<close>

theorem late_failure_takes_effect:
  fixes p q :: panel and e :: failure
  assumes "mutationRef p = No_mutation" and "refreshStatePromise p = None" and "superseded p q"
  defines "q' \<equiv> fst (feed (refreshState ordinary) p [(Rejected_with e, \<lambda>_. q)])"
  shows "transportState q' = Failed \<and> \<not> tk_active (takeover q')"
  using fed_refresh_failure [OF assms(1,2), of e q]
  by (auto simp: q'_def markRuntimeStatusUnavailable_def update_status_def update_control_def end_takeover_def Let_def)

theorem late_failure_takes_effect_witness:
  "let p = new_panel (new_gateway empty_store) (\<lambda>n. ''id'') id 20 120000 0;
       q = p\<lparr>refreshRequestSeq := 2, transportState := Connected\<rparr>
   in transportState (fst (feed (refreshState ordinary) p [(Rejected_with (Js_error ''timeout'' None), \<lambda>_. q)])) = Failed"
proof -
  let ?p = "new_panel (new_gateway empty_store) (\<lambda>n. ''id'') id 20 120000 0"
  let ?q = "?p\<lparr>refreshRequestSeq := 2, transportState := Connected\<rparr>"
  have "superseded ?p ?q" by (simp add: superseded_def new_panel_def)
  with late_failure_takes_effect [of ?p ?q "Js_error ''timeout'' None"] show ?thesis
    by (simp add: Let_def new_panel_def)
qed

section \<open>Screenshots\<close>

definition one_shot :: "panel \<Rightarrow> bool" where
  "one_shot p \<longleftrightarrow> length (filter has_screenshot (messages p)) \<le> 1"

lemma plain_no_screenshot [simp]:
  "\<not> has_screenshot (plain_message i k x now)" "\<not> has_screenshot (createStatusMessage i now x)"
  "\<not> has_screenshot (createErrorMessage i now x r)" "\<not> has_screenshot (createAssistantMessage now i x w)"
  "\<not> has_screenshot (createToolActionMessage now i x w)" "\<not> has_screenshot (loaded_message sid now n m)"
  by (simp_all add: has_screenshot_def plain_message_def createStatusMessage_def createErrorMessage_def
      createAssistantMessage_def createToolActionMessage_def loaded_message_def)

lemma shots_replaced: "\<not> has_screenshot m \<Longrightarrow>
    length (filter has_screenshot (replace_message m ms)) \<le> length (filter has_screenshot ms)"
  by (induction ms) auto

lemma loaded_no_screenshot: "filter has_screenshot (loadedMessages data now) = []"
  by (auto simp: loadedMessages_def filter_empty_conv)

lemma shot_chat:
  "one_shot p \<Longrightarrow> one_shot (say k p)" "one_shot p \<Longrightarrow> one_shot (show_error x r p)"
  by (simp_all add: one_shot_def say_def show_error_def add_message_def)

lemma shot_listen: "one_shot p \<Longrightarrow> one_shot (listen e p)"
proof (cases e)
  case (Ev_assistant i x raw)
  assume "one_shot p"
  with Ev_assistant shots_replaced [of "createAssistantMessage (clock p) i x raw" "messages p"] show ?thesis
    by (simp add: one_shot_def)
next
  case (Ev_observation i x b raw)
  then show ?thesis using one_screenshot by (simp add: one_shot_def)
qed (auto simp: one_shot_def say_def show_error_def add_message_def on_transport_state_def Let_def end_takeover_def
    markRuntimeTransportUnavailable_def release_input_def setKeyboardLock_def releasePicoclawInputFocus_def
    on_control_mode_changed_def syncAIControlStatus_def update_status_def clearActiveGatewayUI_def
    clearDeviceControlUI_def on_close_def update_control_def spawn_confirm_def set_takeover_def split: option.splits)

lemma shot_gateway: "one_shot p \<Longrightarrow> one_shot (via_gateway f p)"
proof -
  assume p: "one_shot p"
  have "one_shot (fold listen es q)" if "one_shot q" for es q
    using that by (induction es arbitrary: q) (simp_all add: shot_listen)
  with p show ?thesis by (simp add: via_gateway_def Let_def one_shot_def)
qed

interpretation screenshots: panel_law one_shot
proof unfold_locales
  fix p P
  assume "one_shot p"
  moreover have "filter has_screenshot (filter P (messages p)) = filter P (filter has_screenshot (messages p))"
    by (simp add: conj_commute)
  ultimately show "one_shot (p\<lparr>messages := filter P (messages p)\<rparr>)"
    using length_filter_le [of P "filter has_screenshot (messages p)"] by (simp add: one_shot_def)
qed (simp_all add: shot_chat shot_gateway, simp_all add: one_shot_def loaded_no_screenshot user_message_def add_message_def)

text \<open>
  C19: However long the assistant works and whatever chats are opened, the messages of the panel
  hold at most one screenshot at a time.
\<close>

theorem panel_holds_one_screenshot:
  assumes "run_allowed sidebar_possible sidebar_step (new_sidebar (new_panel g ids tr a b now)) es"
  shows "length (filter has_screenshot
    (messages (pg (foldl sidebar_step (new_sidebar (new_panel g ids tr a b now)) es)))) \<le> 1"
  using screenshots.kept_always [OF _ assms] by (simp add: one_shot_def new_panel_def)

text \<open>A run with screenshots: the panel connects and two observations arrive.\<close>

definition observation :: "string \<Rightarrow> frame_data" where
  "observation i = Parsed (JObj [(''type'', JStr ''observation''), (''id'', JStr i), (''image_base64'', JStr ''iVBOR'')])"

definition two_observations :: "event list" where
  "two_observations =
    [Ui Reconnect_gateway, Resume 0 (Answered (Some (JObj [(''code'', JNum 0), (''data'', JObj [(''ready'', JBool True)])]))),
     Gateway_event (Sock_open 0), Gateway_event (Sock_message 0 (observation ''a'') ''u''),
     Gateway_event (Sock_message 0 (observation ''b'') ''u'')]"

abbreviation sample_sidebar :: sidebar where
  "sample_sidebar \<equiv> new_sidebar (new_panel (new_gateway empty_store) (\<lambda>n. ''id'') id 20 120000 0)"

theorem panel_holds_one_screenshot_witness:
  "map has_screenshot (messages (pg (foldl sidebar_step sample_sidebar two_observations))) = [False, False, True] \<and>
   length (filter has_screenshot (messages (pg (foldl sidebar_step sample_sidebar two_observations)))) \<le> 1"
proof
  show "map has_screenshot (messages (pg (foldl sidebar_step sample_sidebar two_observations))) = [False, False, True]"
    by code_simp
  have "run_allowed sidebar_possible sidebar_step sample_sidebar two_observations" by code_simp
  then show "length (filter has_screenshot (messages (pg (foldl sidebar_step sample_sidebar two_observations)))) \<le> 1"
    by (rule panel_holds_one_screenshot)
qed

section \<open>A lock that is lost\<close>

lemma gw_listen [simp]: "gw (listen e p) = gw p"
  by (cases e) (auto simp: say_def show_error_def add_message_def on_transport_state_def Let_def end_takeover_def
    markRuntimeTransportUnavailable_def release_input_def setKeyboardLock_def releasePicoclawInputFocus_def
    on_control_mode_changed_def syncAIControlStatus_def update_status_def clearActiveGatewayUI_def
    clearDeviceControlUI_def on_close_def update_control_def spawn_confirm_def set_takeover_def split: option.splits)

lemma gw_via_gateway [simp]: "gw (via_gateway f p) = f (gw p)"
proof -
  have "gw (fold listen es q) = gw q" for es q by (induction es arbitrary: q) simp_all
  then show ?thesis by (simp add: via_gateway_def Let_def)
qed

lemma gw_chat [simp]:
  "gw (say k p) = gw p" "gw (show_error x r p) = gw p" "gw (user_message c p) = gw p"
  by (simp_all add: say_def show_error_def user_message_def add_message_def)

lemma program_call_possible: "program_call e \<Longrightarrow> gw_possible g e"
  by (cases e) auto

interpretation gateway_sound: panel_law "\<lambda>p. gw_inv (gw p)"
  by unfold_locales (auto intro: gw_inv_step program_call_possible)

lemma abandoned_store: "abandoned i g \<Longrightarrow> abandoned i (g\<lparr>page_store := st\<rparr>)"
  by (simp add: abandoned_def)

interpretation stranded: panel_law "\<lambda>p. abandoned i (gw p)" for i
  by unfold_locales (auto intro: abandoned_step abandoned_store program_call_possible)

lemma kept_launch: "x \<in> set (tasks s) \<Longrightarrow> x \<in> set (tasks (launch b q s))"
  by (auto simp: launch_def split: prod.split progress.split)

lemma kept_spawned: "x \<in> set (tasks s) \<Longrightarrow> x \<in> set (tasks (start_spawned s))"
  using spawned_step [of "\<lambda>u. x \<in> set (tasks u)" s] by (simp add: kept_launch)

lemma kept_resume:
  assumes "x \<in> set (tasks s)" "i < length (tasks s)" "tasks s ! i \<noteq> x"
  shows "x \<in> set (tasks (resume i w s))"
proof -
  have "x \<in> set (take i (tasks s) @ tasks s ! i # drop (Suc i) (tasks s))"
    using assms(1,2) id_take_nth_drop [of i "tasks s"] by simp
  with assms(3) show ?thesis by (auto simp: resume_def split: prod.split)
qed

lemma stranded_task_step:
  assumes "(m, Connection a, k) \<in> set (tasks s)" and "abandoned (a - 1) (gw (pg s))" and "sidebar_possible s e"
  shows "(m, Connection a, k) \<in> set (tasks (sidebar_step s e))"
proof -
  have "(m, Connection a, k) \<in> set (tasks (sidebar_event e s))"
  proof (cases e)
    case (Resume i w)
    have "tasks s ! i \<noteq> (m, Connection a, k)"
      using assms(2,3) Resume by (auto simp: abandoned_def)
    with assms(1,3) Resume show ?thesis by (simp add: kept_resume)
  qed (use assms(1) in \<open>simp_all add: kept_launch\<close>)
  then show ?thesis by (simp add: sidebar_step_def kept_spawned)
qed

lemma stranded_task_run:
  "(m, Connection a, k) \<in> set (tasks s) \<Longrightarrow> abandoned (a - 1) (gw (pg s)) \<Longrightarrow>
    tasks_keep (\<lambda>p. abandoned (a - 1) (gw p)) s \<Longrightarrow> run_allowed sidebar_possible sidebar_step s es \<Longrightarrow>
    (m, Connection a, k) \<in> set (tasks (foldl sidebar_step s es))"
proof (induction es arbitrary: s)
  case (Cons e es)
  from Cons.prems show ?case
    using Cons.IH [OF stranded_task_step [OF Cons.prems(1,2), of e]]
    by (simp add: stranded.kept_step stranded.tasks_keep_step)
qed simp

lemma holder_names_mutation:
  "sidebar_inv s \<Longrightarrow> (m, q, k) \<in> set (tasks s) \<Longrightarrow> m \<noteq> No_mutation \<Longrightarrow> mutationRef (pg s) = m"
proof -
  assume s: "sidebar_inv s" and x: "(m, q, k) \<in> set (tasks s)" "m \<noteq> No_mutation"
  then have "m \<in> set (holders s)" by (force simp: holders_def)
  with s show ?thesis by (auto simp: sidebar_inv_def held_def split: if_splits)
qed

text \<open>
  C16: A lock that is lost. When an action of the panel awaits a connection and the socket of that
  connection is no longer the gateway's, because something else closed it, the action is never
  resumed: whatever happens later, the panel stays held by it, and every other action is refused.
\<close>

theorem abandoned_connection_holds_panel:
  fixes b ids tr n1 n2 now es fs i a
  defines "s \<equiv> foldl sidebar_step (new_sidebar (new_panel (new_gateway b) ids tr n1 n2 now)) es"
  assumes "run_allowed sidebar_possible sidebar_step (new_sidebar (new_panel (new_gateway b) ids tr n1 n2 now)) es"
    and "i < length (tasks s)" and "fst (tasks s ! i) \<noteq> No_mutation" and "fst (snd (tasks s ! i)) = Connection a"
    and "a - 1 < length (gw_sockets (gw (pg s)))" and "ws (gw (pg s)) \<noteq> Some (a - 1)"
    and "promises (gw (pg s)) ! (a - 1) = Pending"
    and "run_allowed sidebar_possible sidebar_step s fs"
  shows "mutationRef (pg (foldl sidebar_step s fs)) = fst (tasks s ! i)"
proof -
  let ?s0 = "new_sidebar (new_panel (new_gateway b) ids tr n1 n2 now)"
  obtain m k where x: "tasks s ! i = (m, Connection a, k)" using assms(5) by (metis fst_conv prod_cases3 snd_conv)
  then have t: "(m, Connection a, k) \<in> set (tasks s)" "m \<noteq> No_mutation"
    using assms(3,4) by (auto intro: nth_mem [of i "tasks s", simplified x])
  have "gw_inv (gw (pg s))" unfolding s_def
    by (rule gateway_sound.kept_always [OF _ assms(2)]) (simp add: new_panel_def gw_inv_new)
  with assms(6-8) have ab: "abandoned (a - 1) (gw (pg s))" by (simp add: abandoned_def)
  have tk: "tasks_keep (\<lambda>p. abandoned (a - 1) (gw p)) s" unfolding s_def
    by (rule stranded.tasks_keep_run [OF _ assms(2)]) (simp add: new_sidebar_def tasks_keep_def)
  have "sidebar_inv s" unfolding s_def by (rule sidebar.inv_run [OF assms(2)])
  then have "sidebar_inv (foldl sidebar_step s fs)" by (rule sidebar.inv_run_from [OF _ assms(9)])
  from holder_names_mutation [OF this stranded_task_run [OF t(1) ab tk assms(9)] t(2)] x show ?thesis by simp
qed

text \<open>
  Such a run: a chat of the history is selected, the runtime is started before the chat has
  loaded, the start succeeds and connects, and then the chat arrives and closes the gateway.
\<close>

definition started_status :: json where
  "started_status = JObj [(''ready'', JBool True), (''status'', JStr ''ready''), (''control_mode'', JStr ''picoclaw''),
    (''runtime_intent'', JObj [(''desired_running'', JBool True)])]"

definition race :: "event list" where
  "race =
    [Ui (Select_session ''s2''), Ui Start_runtime,
     Resume 1 (Answered (Some (JObj [(''code'', JNum 0), (''data'', JObj [(''status'', started_status)])]))),
     Resume 0 (Answered (Some (JObj [(''code'', JNum 0), (''data'', JObj [(''messages'', JArr [])])])))]"

theorem abandoned_connection_holds_panel_witness:
  "mutationRef (pg (foldl sidebar_step (foldl sidebar_step sample_sidebar race)
     [Ui Grant_control, Instant (Wait_until 60000), Ui Uninstall_runtime])) = Runtime_start"
proof -
  let ?s = "foldl sidebar_step sample_sidebar race"
  let ?fs = "[Ui Grant_control, Instant (Wait_until 60000), Ui Uninstall_runtime]"
  have r: "run_allowed sidebar_possible sidebar_step sample_sidebar race" by code_simp
  have t: "1 < length (tasks ?s)" "fst (tasks ?s ! 1) = Runtime_start" "fst (snd (tasks ?s ! 1)) = Connection 1"
    by code_simp+
  have g: "1 - 1 < length (gw_sockets (gw (pg ?s)))" "ws (gw (pg ?s)) \<noteq> Some (1 - 1)"
    "promises (gw (pg ?s)) ! (1 - 1) = Pending"
    by code_simp+
  have "run_allowed sidebar_possible sidebar_step ?s ?fs" by simp
  from abandoned_connection_holds_panel [OF r t(1) _ t(3) g this] t(2) show ?thesis by simp
qed

section \<open>Connecting by itself\<close>

text \<open>The effect that connects waits three seconds between two attempts.\<close>

lemma auto_connect_throttled:
  assumes "auto_connect_due p" and "q = fst (run autoConnect p)"
    and "lastAttemptAt r = lastAttemptAt q" and "auto_connect_due r"
  shows "clock p + STATUS_REFRESH_INTERVAL_MS \<le> clock r"
proof -
  have "frame lastAttemptAt (ignoring (try_connect sid))" for sid
  proof -
    have small: "lastAttemptAt (listen e x) = lastAttemptAt x" for e x
      by (cases e) (auto simp: say_def show_error_def add_message_def on_transport_state_def Let_def end_takeover_def
        markRuntimeTransportUnavailable_def release_input_def setKeyboardLock_def releasePicoclawInputFocus_def
        on_control_mode_changed_def syncAIControlStatus_def update_status_def clearActiveGatewayUI_def
        clearDeviceControlUI_def on_close_def update_control_def spawn_confirm_def set_takeover_def split: option.splits)
    then have "lastAttemptAt (fold listen es x) = lastAttemptAt x" for es x
      by (induction es arbitrary: x) simp_all
    then have "lastAttemptAt (start_connect sid x) = lastAttemptAt x" for x
      by (simp add: start_connect_def via_gateway_def Let_def)
    then show ?thesis
      by (auto simp: try_connect_def connectGateway_def fetch_def split: promise_ref.split answer.split intro!: framed_programs)
  qed
  from frame_now [OF this] have "lastAttemptAt q = clock p"
    using assms(1,2) by (simp add: autoConnect_def)
  with assms(3,4) show ?thesis by (simp add: auto_connect_due_def)
qed

section \<open>What a failure says\<close>

text \<open>
  The text of a failed start or stop: the message of a thrown error is shown even when it is one
  of those \<^verbatim>\<open>isUnexpectedEOFError\<close> is there to hide.
\<close>

lemma eof_error_is_shown:
  "m \<noteq> [] \<Longrightarrow> runtimeToggleFailureMessage tr (Some (Raw_failure (Js_error m b))) status stop = m"
  by (simp add: runtimeToggleFailureMessage_def responseMessage_def js_or_def text_of_def or_text_def)

end
