(* ===== verification/Source_State.thy ===== *)
theory Source_State
  imports Prelude
begin

text \<open>
  The page's copy of the device's media slots,
  \<^verbatim>\<open>web/src/pages/desktop/menu/devices/state.ts\<close>: the reducer over the server's events, the output a
  slot shows, the status line, and the numbering of slots when the panel is saved. Fields that
  are only copied (latency, times, labels of a source) are one field \<open>rest\<close>.
\<close>

section \<open>Types\<close>

datatype source_kind = camera | microphone | speaker | usb_device
datatype binding_state = claimed | streaming_b | orphaned | suspended
datatype output_state = idle | source_out | black | silence

record binding =
  b_sink_id :: string
  b_source_id :: string
  b_stream_id :: string
  b_state :: binding_state
  b_rest :: string

record demand =
  streaming :: bool
  d_width :: "nat option"
  d_height :: "nat option"
  d_fps :: "nat option"
  d_rest :: string

record source_sink =
  sid :: string
  kind :: source_kind
  label :: string
  host_name :: "string option"
  demand :: demand
  shown :: output_state
  bnd :: "binding option"
  s_rest :: string

record media_source =
  src_id :: string
  src_rest :: string

record snapshot =
  sinks :: "source_sink list"
  sources :: "media_source list"
  bindings :: "binding list"

record sources_event =
  ev_type :: string
  ev_snapshot :: "snapshot option"
  ev_sinks :: "source_sink list option"
  ev_source :: "media_source option"
  ev_binding :: "binding option"
  ev_sink_id :: "string option"
  ev_demand :: "demand option"

definition emptySnapshot :: snapshot where
  "emptySnapshot = \<lparr>sinks = [], sources = [], bindings = []\<rparr>"

section \<open>Status\<close>

definition bound_in :: "binding_state \<Rightarrow> source_sink \<Rightarrow> bool" where
  "bound_in st sink = (case bnd sink of None \<Rightarrow> False | Some b \<Rightarrow> b_state b = st)"

definition sourceStatus :: "source_sink \<Rightarrow> bool \<Rightarrow> bool \<Rightarrow> string" where
  "sourceStatus sink active live =
    (if \<not> live then ''devices.stale''
     else if bound_in orphaned sink then ''devices.resuming''
     else if kind sink \<noteq> speaker \<and> kind sink \<noteq> usb_device \<and> \<not> streaming (demand sink) then ''''
     else if shown sink = black then ''devices.black''
     else if shown sink = silence then ''devices.silence''
     else if active then (if kind sink = speaker then ''devices.receiving'' else ''devices.sending'')
     else '''')"

definition output_of :: "source_sink \<Rightarrow> output_state" where
  "output_of sink =
    (if kind sink = speaker then (if bound_in streaming_b sink then source_out else idle)
     else if \<not> streaming (demand sink) then idle
     else if bound_in streaming_b sink then source_out
     else if kind sink = camera then black else silence)"

text \<open>
  The device computes the same thing for the slots it sends,
  \<^verbatim>\<open>server/service/sources/registry.go\<close>; it has a case of its own for a USB device.
\<close>

definition outputState :: "source_sink \<Rightarrow> output_state" where
  "outputState sink =
    (if kind sink = usb_device then (if bound_in streaming_b sink then source_out else idle)
     else if kind sink = speaker then (if bound_in streaming_b sink then source_out else idle)
     else if \<not> streaming (demand sink) then idle
     else if bound_in streaming_b sink then source_out
     else if kind sink = camera then black
     else silence)"

section \<open>Reducer\<close>

definition replaceBinding :: "source_sink list \<Rightarrow> binding option \<Rightarrow> string \<Rightarrow> source_sink list" where
  "replaceBinding ks b sinkID = map (\<lambda>k. if sid k = sinkID then k\<lparr>bnd := b\<rparr> else k) ks"

definition refreshOutputs :: "source_sink list \<Rightarrow> source_sink list" where
  "refreshOutputs ks = map (\<lambda>k. k\<lparr>shown := output_of k\<rparr>) ks"

definition bindingOf :: "source_sink \<Rightarrow> binding list" where
  "bindingOf sink = (case bnd sink of Some b \<Rightarrow> [b] | None \<Rightarrow> [])"

definition present :: "'a option \<Rightarrow> bool" where
  "present x \<longleftrightarrow> x \<noteq> None"

definition reduceSources :: "snapshot \<Rightarrow> sources_event \<Rightarrow> snapshot" where
  "reduceSources s ev =
    (let src = the (ev_source ev); b = the (ev_binding ev) in
     if ev_type ev = ''snapshot'' \<and> present (ev_snapshot ev) then the (ev_snapshot ev)
     else if ev_type ev = ''sinks_changed'' \<and> present (ev_sinks ev)
     then s\<lparr>sinks := the (ev_sinks ev), bindings := concat (map bindingOf (the (ev_sinks ev)))\<rparr>
     else if ev_type ev = ''source_added'' \<and> present (ev_source ev)
     then s\<lparr>sources := filter (\<lambda>x. src_id x \<noteq> src_id src) (sources s) @ [src]\<rparr>
     else if ev_type ev = ''source_removed'' \<and> present (ev_source ev)
     then s\<lparr>sources := filter (\<lambda>x. src_id x \<noteq> src_id src) (sources s)\<rparr>
     else if ev_type ev = ''binding_added'' \<and> present (ev_binding ev)
     then s\<lparr>bindings := filter (\<lambda>x. b_sink_id x \<noteq> b_sink_id b) (bindings s) @ [b],
            sinks := refreshOutputs (replaceBinding (sinks s) (Some b) (b_sink_id b))\<rparr>
     else if ev_type ev = ''binding_state'' \<and> present (ev_binding ev)
     then s\<lparr>bindings := map (\<lambda>x. if b_sink_id x = b_sink_id b then b else x) (bindings s),
            sinks := refreshOutputs (replaceBinding (sinks s) (Some b) (b_sink_id b))\<rparr>
     else if ev_type ev = ''binding_removed'' \<and> present (ev_binding ev)
     then s\<lparr>bindings := filter (\<lambda>x. b_sink_id x \<noteq> b_sink_id b) (bindings s),
            sinks := refreshOutputs (replaceBinding (sinks s) None (b_sink_id b))\<rparr>
     else if ev_type ev = ''demand'' \<and> present (ev_sink_id ev) \<and> the (ev_sink_id ev) \<noteq> '''' \<and>
             present (ev_demand ev)
     then s\<lparr>sinks := refreshOutputs
            (map (\<lambda>k. if sid k = the (ev_sink_id ev) then k\<lparr>demand := the (ev_demand ev)\<rparr> else k) (sinks s))\<rparr>
     else s)"

section \<open>Slots\<close>

record slot_row =
  key :: string
  row_kind :: source_kind
  row_label :: string
  hostName :: string

definition mediaSlotRows :: "source_sink list \<Rightarrow> slot_row list" where
  "mediaSlotRows ks =
    map (\<lambda>k. \<lparr>key = sid k, row_kind = kind k, row_label = label k,
        hostName = (case host_name k of Some h \<Rightarrow> h | None \<Rightarrow> '''')\<rparr>)
      (filter (\<lambda>k. kind k = camera \<or> kind k = microphone \<or> kind k = speaker) ks)"

text \<open>Decimal notation of a counter, as a template literal prints it.\<close>

type_synonym source_slot = "string \<times> source_kind \<times> string"

fun media_slots_from :: "nat \<Rightarrow> nat \<Rightarrow> nat \<Rightarrow> slot_row list \<Rightarrow> source_slot list" where
  "media_slots_from cameras microphones speakers [] = []"
| "media_slots_from cameras microphones speakers (row # rows) =
     (if row_kind row = camera then
        (''uvc.cam'' @ nat_string cameras, camera, row_label row) #
          media_slots_from (Suc cameras) microphones speakers rows
      else if row_kind row = speaker then
        (''uac2.spk'' @ nat_string speakers, speaker, row_label row) #
          media_slots_from cameras microphones (Suc speakers) rows
      else
        (''uac2.mic'' @ nat_string microphones, microphone, row_label row) #
          media_slots_from cameras (Suc microphones) speakers rows)"

definition mediaSlots :: "slot_row list \<Rightarrow> source_slot list" where
  "mediaSlots rows = media_slots_from 0 0 0 rows"

section \<open>Consistency\<close>

text \<open>
  The two places a binding is recorded agree: a slot shows the binding of the list that names it,
  and the list has one binding per slot. The output shown for a camera, microphone or speaker is
  the one the device computes from the slot's demand and binding.
\<close>

definition binding_for :: "binding list \<Rightarrow> string \<Rightarrow> binding option" where
  "binding_for bs i = find (\<lambda>b. b_sink_id b = i) bs"

definition records_agree :: "snapshot \<Rightarrow> bool" where
  "records_agree s \<longleftrightarrow> distinct (map b_sink_id (bindings s)) \<and>
    list_all (\<lambda>k. bnd k = binding_for (bindings s) (sid k)) (sinks s)"

definition outputs_ok :: "source_sink list \<Rightarrow> bool" where
  "outputs_ok ks \<longleftrightarrow> list_all (\<lambda>k. kind k \<noteq> usb_device \<longrightarrow> shown k = outputState k) ks"

definition consistent :: "snapshot \<Rightarrow> bool" where
  "consistent s \<longleftrightarrow> records_agree s \<and> outputs_ok (sinks s)"

definition sinks_ok :: "source_sink list \<Rightarrow> bool" where
  "sinks_ok ks \<longleftrightarrow> distinct (map sid ks) \<and>
    list_all (\<lambda>k. case bnd k of None \<Rightarrow> True | Some b \<Rightarrow> b_sink_id b = sid k) ks \<and>
    list_all (\<lambda>k. shown k = outputState k) ks"

text \<open>
  What the device promises of its events: a snapshot and a list of slots come from its own
  records, with the outputs it computed (\<^verbatim>\<open>snapshotLocked\<close>), and the state of a binding changes
  after the binding was announced.
\<close>

definition event_ok :: "snapshot \<Rightarrow> sources_event \<Rightarrow> bool" where
  "event_ok s ev \<longleftrightarrow>
    (case ev_snapshot ev of Some n \<Rightarrow> consistent n | None \<Rightarrow> True) \<and>
    (case ev_sinks ev of Some ks \<Rightarrow> sinks_ok ks | None \<Rightarrow> True) \<and>
    (ev_type ev = ''binding_state'' \<longrightarrow>
      (case ev_binding ev of Some b \<Rightarrow> binding_for (bindings s) (b_sink_id b) \<noteq> None | None \<Rightarrow> True))"

lemma outputs_refreshed: "outputs_ok (refreshOutputs ks)"
  by (simp add: outputs_ok_def refreshOutputs_def list_all_iff output_of_def outputState_def bound_in_def)

lemma binding_for_filter:
  "binding_for (filter (\<lambda>x. b_sink_id x \<noteq> j) bs) i = (if i = j then None else binding_for bs i)"
  by (induction bs) (auto simp: binding_for_def)

lemma binding_for_append:
  "binding_for (as @ bs) i = (case binding_for as i of None \<Rightarrow> binding_for bs i | Some b \<Rightarrow> Some b)"
  by (induction as) (auto simp: binding_for_def)

lemma binding_for_map:
  "binding_for (map (\<lambda>x. if b_sink_id x = b_sink_id b then b else x) bs) i =
    (if i = b_sink_id b then (if binding_for bs i = None then None else Some b) else binding_for bs i)"
  by (induction bs) (auto simp: binding_for_def)

lemma map_ids_update: "map b_sink_id (map (\<lambda>x. if b_sink_id x = b_sink_id b then b else x) bs) = map b_sink_id bs"
  by (induction bs) auto

lemma distinct_filter_ids: "distinct (map b_sink_id bs) \<Longrightarrow> distinct (map b_sink_id (filter P bs))"
  by (induction bs) auto

lemma binding_for_Cons [simp]:
  "binding_for (b # bs) i = (if b_sink_id b = i then Some b else binding_for bs i)"
  by (simp add: binding_for_def)

lemma bindings_of_sinks:
  "sinks_ok ks \<Longrightarrow> distinct (map b_sink_id (concat (map bindingOf ks))) \<and>
    list_all (\<lambda>k. bnd k = binding_for (concat (map bindingOf ks)) (sid k)) ks"
proof (induction ks)
  case (Cons k ks)
  let ?bs = "concat (map bindingOf ks)"
  have fresh: "sid k \<notin> sid ` set ks" and ok: "sinks_ok ks" using Cons.prems by (auto simp: sinks_ok_def)
  have "b_sink_id b \<in> sid ` set ks" if "b \<in> set ?bs" for b
    using ok that by (auto simp: sinks_ok_def list_all_iff bindingOf_def split: option.splits)
  with fresh have none: "b \<in> set ?bs \<Longrightarrow> b_sink_id b \<noteq> sid k" for b by metis
  then have "binding_for ?bs (sid k) = None" by (auto simp: binding_for_def find_None_iff)
  note rest = this Cons.IH [OF ok]
  show ?case
  proof (cases "bnd k")
    case None
    then have "bindingOf k = []" by (simp add: bindingOf_def)
    with rest None show ?thesis by (simp del: map_map)
  next
    case (Some a)
    then have a: "bindingOf k = [a]" "b_sink_id a = sid k"
      using Cons.prems by (simp_all add: bindingOf_def sinks_ok_def)
    have "list_all (\<lambda>k. bnd k = binding_for (a # ?bs) (sid k)) ks"
      using rest fresh a(2) by (auto simp: list_all_iff)
    moreover have "b_sink_id a \<notin> b_sink_id ` set ?bs" using none a(2) by force
    ultimately show ?thesis using rest Some a by simp
  qed
qed (simp add: sinks_ok_def)

lemma records_reduce:
  assumes "consistent s" and "event_ok s ev"
  shows "records_agree (reduceSources s ev)"
proof -
  have agree: "records_agree s" using assms(1) by (simp add: consistent_def)
  have one: "records_agree (s\<lparr>sinks := ks, bindings := concat (map bindingOf ks)\<rparr>)" if "sinks_ok ks" for ks
    using bindings_of_sinks [OF that] by (simp add: records_agree_def)
  have two: "records_agree (s\<lparr>sources := x\<rparr>)" for x using agree by (simp add: records_agree_def)
  have added: "records_agree (s\<lparr>bindings := filter (\<lambda>x. b_sink_id x \<noteq> b_sink_id b) (bindings s) @ [b],
      sinks := refreshOutputs (replaceBinding (sinks s) (Some b) (b_sink_id b))\<rparr>)" for b
    using agree
    by (auto simp: records_agree_def distinct_filter_ids refreshOutputs_def replaceBinding_def list_all_iff
        binding_for_append binding_for_filter binding_for_def [of "[]"] split: option.split)
  have changed: "records_agree (s\<lparr>bindings := map (\<lambda>x. if b_sink_id x = b_sink_id b then b else x) (bindings s),
      sinks := refreshOutputs (replaceBinding (sinks s) (Some b) (b_sink_id b))\<rparr>)"
    if "binding_for (bindings s) (b_sink_id b) \<noteq> None" for b
    using agree that map_ids_update [of b "bindings s"]
    by (auto simp: records_agree_def refreshOutputs_def replaceBinding_def list_all_iff binding_for_map simp del: map_map)
  have removed: "records_agree (s\<lparr>bindings := filter (\<lambda>x. b_sink_id x \<noteq> b_sink_id b) (bindings s),
      sinks := refreshOutputs (replaceBinding (sinks s) None (b_sink_id b))\<rparr>)" for b
    using agree
    by (auto simp: records_agree_def distinct_filter_ids refreshOutputs_def replaceBinding_def list_all_iff binding_for_filter)
  have demanded: "records_agree (s\<lparr>sinks := refreshOutputs
      (map (\<lambda>k. if sid k = i then k\<lparr>demand := d\<rparr> else k) (sinks s))\<rparr>)" for i d
    using agree by (auto simp: records_agree_def refreshOutputs_def list_all_iff)
  have both: "(c \<Longrightarrow> records_agree x) \<Longrightarrow> (\<not> c \<Longrightarrow> records_agree y) \<Longrightarrow> records_agree (if c then x else y)" for c x y
    by simp
  show ?thesis
    unfolding reduceSources_def Let_def
    by (intro both one two added changed removed demanded)
      (use agree assms(2) in \<open>auto simp: event_ok_def consistent_def present_def\<close>)
qed

lemma outputs_reduce:
  assumes "consistent s" and "event_ok s ev"
  shows "outputs_ok (sinks (reduceSources s ev))"
proof -
  have given: "outputs_ok ks" if "sinks_ok ks" for ks using that by (simp add: sinks_ok_def outputs_ok_def list_all_iff)
  have both: "(c \<Longrightarrow> outputs_ok (sinks x)) \<Longrightarrow> (\<not> c \<Longrightarrow> outputs_ok (sinks y)) \<Longrightarrow> outputs_ok (sinks (if c then x else y))"
    for c x y by simp
  show ?thesis
    unfolding reduceSources_def Let_def
    by (intro both) (use assms in \<open>auto simp: event_ok_def consistent_def present_def outputs_refreshed given\<close>)
qed

lemma consistent_reduce: "consistent s \<Longrightarrow> event_ok s ev \<Longrightarrow> consistent (reduceSources s ev)"
  by (simp add: consistent_def [of "reduceSources s ev"] records_reduce outputs_reduce)

interpretation sources_state:
  guarded_machine emptySnapshot event_ok reduceSources consistent
  by unfold_locales (auto simp: consistent_reduce, simp add: consistent_def records_agree_def outputs_ok_def emptySnapshot_def)

text \<open>
  C34: After any events the device sends (snapshots and slot lists with the outputs it computed, and
  no change of state of a binding that was not announced), the page's two records of a binding
  agree: every slot shows exactly the binding listed for it, and no slot has two. The output the page
  shows for a camera, microphone or speaker is the one the device computes from the slot's demand and
  binding.
\<close>

theorem sources_stay_consistent:
  assumes "run_allowed event_ok reduceSources emptySnapshot evs"
    and s: "s = foldl reduceSources emptySnapshot evs"
  shows "distinct (map b_sink_id (bindings s)) \<and>
    list_all (\<lambda>k. bnd k = binding_for (bindings s) (sid k) \<and>
      (kind k \<noteq> usb_device \<longrightarrow> shown k = outputState k)) (sinks s)"
  using sources_state.inv_run [OF assms(1)] 
  unfolding s consistent_def records_agree_def outputs_ok_def list_all_iff by blast

definition sample_sink :: source_sink where
  "sample_sink =
    \<lparr>sid = ''uvc.cam0'', kind = camera, label = '''', host_name = None,
     demand = \<lparr>streaming = True, d_width = None, d_height = None, d_fps = None, d_rest = ''''\<rparr>, shown = black, bnd = None, s_rest = ''''\<rparr>"

definition sample_binding :: binding where
  "sample_binding = \<lparr>b_sink_id = ''uvc.cam0'', b_source_id = ''s'', b_stream_id = ''t'',
    b_state = streaming_b, b_rest = ''''\<rparr>"

definition blank_event :: sources_event where
  "blank_event = \<lparr>ev_type = '''', ev_snapshot = None, ev_sinks = None, ev_source = None,
    ev_binding = None, ev_sink_id = None, ev_demand = None\<rparr>"

definition sample_events :: "sources_event list" where
  "sample_events =
    [blank_event\<lparr>ev_type := ''sinks_changed'', ev_sinks := Some [sample_sink]\<rparr>,
     blank_event\<lparr>ev_type := ''binding_added'', ev_binding := Some sample_binding\<rparr>]"

theorem sources_stay_consistent_witness:
  "list_all (\<lambda>k. kind k \<noteq> usb_device \<longrightarrow> shown k = outputState k) (sinks (foldl reduceSources emptySnapshot sample_events)) \<and>
    map shown (sinks (foldl reduceSources emptySnapshot sample_events)) = [source_out]"
proof -
  have "run_allowed event_ok reduceSources emptySnapshot sample_events"
    by (simp add: sample_events_def event_ok_def sinks_ok_def blank_event_def sample_sink_def reduceSources_def
        present_def outputState_def bound_in_def)
  note sources_stay_consistent [OF this refl]
  moreover have "map shown (sinks (foldl reduceSources emptySnapshot sample_events)) = [source_out]"
    by (simp add: sample_events_def blank_event_def sample_sink_def sample_binding_def reduceSources_def present_def
        refreshOutputs_def replaceBinding_def output_of_def bound_in_def Let_def)
  ultimately show ?thesis unfolding list_all_iff by blast
qed

text \<open>
  A USB device the browser serves and the host has not opened: the device says it shows its source,
  the page, after any event that refreshes the outputs, that it is idle; when the host has opened
  it with nothing bound, the page says silence.
\<close>

lemma usb_output_differs:
  assumes "kind k = usb_device"
  shows "\<not> streaming (demand k) \<Longrightarrow> bound_in streaming_b k \<Longrightarrow> outputState k = source_out \<and> output_of k = idle"
    and "streaming (demand k) \<Longrightarrow> \<not> bound_in streaming_b k \<Longrightarrow> outputState k = idle \<and> output_of k = silence"
  using assms by (simp_all add: outputState_def output_of_def)

section \<open>Slot numbering\<close>

fun string_nat :: "string \<Rightarrow> nat" where
  "string_nat cs = foldl (\<lambda>a c. a * 10 + (of_char c - 48)) 0 cs"

lemma of_char_digit: "n < 10 \<Longrightarrow> (of_char (digit n) :: nat) = 48 + n"
  by (auto simp: digit_def less_Suc_eq numeral_eq_Suc)

lemma string_nat_nat_string: "string_nat (nat_string n) = n"
proof (induction n rule: nat_string.induct)
  case (1 n)
  show ?case
  proof (cases "n < 10")
    case True
    then show ?thesis by (simp add: nat_string.simps [of n] of_char_digit)
  next
    case False
    with 1 show ?thesis by (simp add: nat_string.simps [of n] of_char_digit)
  qed
qed

lemma nat_string_inj: "nat_string m = nat_string n \<longleftrightarrow> m = n"
  by (metis string_nat_nat_string)

fun slot_prefix :: "source_kind \<Rightarrow> string" where
  "slot_prefix camera = ''uvc.cam''"
| "slot_prefix speaker = ''uac2.spk''"
| "slot_prefix _ = ''uac2.mic''"

lemma slots_bounds:
  "slot \<in> set (media_slots_from c m p rows) \<Longrightarrow> \<exists>k n. fst slot = slot_prefix k @ nat_string n \<and>
    fst (snd slot) = k \<and> k \<noteq> usb_device \<and>
    n \<ge> (case k of camera \<Rightarrow> c | speaker \<Rightarrow> p | _ \<Rightarrow> m)"
  by (induction c m p rows rule: media_slots_from.induct)
    (force split: if_splits source_kind.splits)+

lemma slots_distinct: "distinct (map fst (media_slots_from c m p rows))"
proof (induction c m p rows rule: media_slots_from.induct)
  case (2 c m p row rows)
  have fresh: "slot_prefix k @ nat_string n \<notin> fst ` set (media_slots_from c' m' p' rows)"
    if "k \<noteq> usb_device" "n < (case k of camera \<Rightarrow> c' | speaker \<Rightarrow> p' | _ \<Rightarrow> m')" for k n c' m' p'
  proof
    assume "slot_prefix k @ nat_string n \<in> fst ` set (media_slots_from c' m' p' rows)"
    then obtain slot where "slot \<in> set (media_slots_from c' m' p' rows)"
      "fst slot = slot_prefix k @ nat_string n" by force
    with slots_bounds [of slot c' m' p' rows] that show False
      by (cases k; cases "fst (snd slot)"; auto simp: nat_string_inj)
  qed
  show ?case
    using 2 fresh [of camera c "Suc c" m p] fresh [of speaker p c m "Suc p"] fresh [of microphone m c "Suc m" p]
    by auto
qed simp

definition saved_kind :: "slot_row \<Rightarrow> source_kind" where
  "saved_kind r = (if row_kind r = camera then camera else if row_kind r = speaker then speaker else microphone)"

lemma slots_kinds: "map (fst \<circ> snd) (media_slots_from c m p rows) = map saved_kind rows"
  by (induction c m p rows rule: media_slots_from.induct) (auto simp: saved_kind_def)

lemma slots_labels: "map (snd \<circ> snd) (media_slots_from c m p rows) = map row_label rows"
  by (induction c m p rows rule: media_slots_from.induct) auto

lemma slots_of_kind:
  "k \<noteq> usb_device \<Longrightarrow> n = (case k of camera \<Rightarrow> c | speaker \<Rightarrow> p | _ \<Rightarrow> m) \<Longrightarrow>
    map fst (filter (\<lambda>s. fst (snd s) = k) (media_slots_from c m p rows)) =
      map (\<lambda>i. slot_prefix k @ nat_string i) [n..<n + length (filter (\<lambda>r. saved_kind r = k) rows)]"
proof (induction c m p rows arbitrary: n rule: media_slots_from.induct)
  case (2 c m p row rows)
  have "[n..<n + Suc l] = n # [Suc n..<Suc n + l]" for n l by (simp add: upt_conv_Cons del: upt_Suc)
  with 2 show ?case by (cases k) (auto simp: saved_kind_def simp del: upt_Suc)
qed simp

text \<open>
  Saving the panel numbers the slots of each kind from zero, in their order and without gaps,
  so no two slots share an identifier, and every row keeps its kind and label.
\<close>

theorem media_slots_numbering:
  "distinct (map fst (mediaSlots rows)) \<and>
    map (snd \<circ> snd) (mediaSlots rows) = map row_label rows \<and>
    map (fst \<circ> snd) (mediaSlots rows) = map saved_kind rows \<and>
    list_all (\<lambda>k. map fst (filter (\<lambda>s. fst (snd s) = k) (mediaSlots rows)) =
      map (\<lambda>n. slot_prefix k @ nat_string n) [0..<length (filter (\<lambda>r. saved_kind r = k) rows)])
      [camera, microphone, speaker]"
  unfolding mediaSlots_def
  using slots_distinct [of 0 0 0 rows] slots_labels [of 0 0 0 rows] slots_kinds [of 0 0 0 rows]
    slots_of_kind [of _ 0 0 0 0 rows] by simp

end
