(* ===== verification/Media_Frame.thy ===== *)
theory Media_Frame
  imports Prelude
begin

text \<open>
  The media frames between the browser and the device,
  \<^verbatim>\<open>web/src/pages/desktop/menu/devices/transport.ts\<close>: a 26-byte header, the two identifiers in
  UTF-8 and the payload. Strings are lists of code points; a lone surrogate, which
  \<^verbatim>\<open>TextEncoder\<close> replaces, is a code point of the surrogate range. The time stamp is a whole number;
  reading one back converts 64 bits to a double, which is exact below 2 to the 53.
\<close>

section \<open>UTF-8\<close>

type_synonym code_points = "nat list"

definition surrogate :: "nat \<Rightarrow> bool" where
  "surrogate c \<longleftrightarrow> 0xd800 \<le> c \<and> c \<le> 0xdfff"

definition scalar :: "nat \<Rightarrow> bool" where
  "scalar c \<longleftrightarrow> c \<le> 0x10ffff \<and> \<not> surrogate c"

definition utf8_scalar :: "nat \<Rightarrow> byte list" where
  "utf8_scalar c =
    (if c < 0x80 then [of_nat c]
     else if c < 0x800 then [of_nat (0xc0 + c div 64), of_nat (0x80 + c mod 64)]
     else if c < 0x10000 then
       [of_nat (0xe0 + c div 4096), of_nat (0x80 + c div 64 mod 64), of_nat (0x80 + c mod 64)]
     else
       [of_nat (0xf0 + c div 262144), of_nat (0x80 + c div 4096 mod 64),
        of_nat (0x80 + c div 64 mod 64), of_nat (0x80 + c mod 64)])"

definition textEncoder_encode :: "code_points \<Rightarrow> byte list" where
  "textEncoder_encode s = concat (map (\<lambda>c. utf8_scalar (if surrogate c then 0xfffd else c)) s)"

text \<open>
  The fatal decoder: truncated, overlong, surrogate and out-of-range sequences throw. A leading
  byte order mark is dropped, as \<^verbatim>\<open>TextDecoder\<close> does unless told not to.
\<close>

definition cont :: "byte \<Rightarrow> bool" where
  "cont b \<longleftrightarrow> 0x80 \<le> unat b \<and> unat b < 0xc0"

fun utf8_decode :: "byte list \<Rightarrow> code_points option" where
  "utf8_decode [] = Some []"
| "utf8_decode (a # bs) =
    (let x = unat a
     in if x < 0x80 then map_option (Cons x) (utf8_decode bs)
        else if 0xc2 \<le> x \<and> x < 0xe0 then
          (case bs of
             b # bs' \<Rightarrow>
               if cont b then map_option (Cons ((x - 0xc0) * 64 + (unat b - 0x80))) (utf8_decode bs')
               else None
           | _ \<Rightarrow> None)
        else if 0xe0 \<le> x \<and> x < 0xf0 then
          (case bs of
             b # c # bs' \<Rightarrow>
               let v = (x - 0xe0) * 4096 + (unat b - 0x80) * 64 + (unat c - 0x80)
               in if cont b \<and> cont c \<and> 0x800 \<le> v \<and> \<not> surrogate v
                  then map_option (Cons v) (utf8_decode bs') else None
           | _ \<Rightarrow> None)
        else if 0xf0 \<le> x \<and> x < 0xf5 then
          (case bs of
             b # c # d # bs' \<Rightarrow>
               let v = (x - 0xf0) * 262144 + (unat b - 0x80) * 4096 + (unat c - 0x80) * 64 + (unat d - 0x80)
               in if cont b \<and> cont c \<and> cont d \<and> 0x10000 \<le> v \<and> v \<le> 0x10ffff
                  then map_option (Cons v) (utf8_decode bs') else None
           | _ \<Rightarrow> None)
        else None)"

definition BOM :: nat where "BOM = 0xfeff"

definition textDecoder_decode :: "byte list \<Rightarrow> code_points option" where
  "textDecoder_decode bs =
    map_option (\<lambda>s. case s of c # s' \<Rightarrow> if c = BOM then s' else s | [] \<Rightarrow> []) (utf8_decode bs)"

section \<open>Numbers\<close>

definition MAX_SAFE_INTEGER :: int where "MAX_SAFE_INTEGER = 2 ^ 53 - 1"

function bit_length :: "nat \<Rightarrow> nat" where
  "bit_length n = (if n = 0 then 0 else Suc (bit_length (n div 2)))"
  by pat_completeness auto

termination by (relation "measure id") auto

declare bit_length.simps [simp del]

text \<open>\<^verbatim>\<open>Number(bigint)\<close>: rounding to 53 significant bits, ties to even.\<close>

definition Number_of_nat :: "nat \<Rightarrow> nat" where
  "Number_of_nat n =
    (if n < 2 ^ 53 then n
     else
       let k = bit_length n - 53;
           q = n div 2 ^ k;
           r = n mod 2 ^ k;
           half = 2 ^ (k - 1)
       in (if r > half \<or> (r = half \<and> odd q) then q + 1 else q) * 2 ^ k)"

section \<open>Frames\<close>

datatype media_kind = mjpeg | pcm_s16le_mono_48k

record media_frame =
  kind :: media_kind
  sequence :: "32 word"
  timestampUS :: int
  sinkID :: code_points
  streamID :: code_points
  payload :: "byte list"

datatype media_error = IdLength | PayloadLength | Timestamp

definition headerBytes :: nat where "headerBytes = 26"

fun maxPayload :: "media_kind \<Rightarrow> nat" where
  "maxPayload mjpeg = 2097152"
| "maxPayload pcm_s16le_mono_48k = 3840"

fun frameKind :: "media_kind \<Rightarrow> byte" where
  "frameKind mjpeg = 1"
| "frameKind pcm_s16le_mono_48k = 2"

definition kindNames :: "byte \<Rightarrow> media_kind option" where
  "kindNames b = (if b = 1 then Some mjpeg else if b = 2 then Some pcm_s16le_mono_48k else None)"

definition media_fields :: "media_frame \<Rightarrow> byte list \<Rightarrow> byte list \<Rightarrow> (nat \<times> byte list) list" where
  "media_fields f sink stream =
    [(0, [0x4e, 0x4b, 0x4d, 0x46]), (4, [1]), (5, [frameKind (kind f)]), (6, be_bytes 2 0),
     (8, be_bytes 4 (unat (sequence f))), (12, be_bytes 8 (nat (timestampUS f))),
     (20, [of_nat (length sink)]), (21, [of_nat (length stream)]),
     (22, be_bytes 4 (length (payload f))),
     (headerBytes, sink), (headerBytes + length sink, stream),
     (headerBytes + length sink + length stream, payload f)]"

definition encodeMediaFrame :: "media_frame \<Rightarrow> media_error + byte list" where
  "encodeMediaFrame f =
    (let sink = textEncoder_encode (sinkID f);
         stream = textEncoder_encode (streamID f)
     in if length sink = 0 \<or> length sink > 64 \<or> length stream = 0 \<or> length stream > 64
        then Inl IdLength
        else if length (payload f) = 0 \<or> length (payload f) > maxPayload (kind f)
        then Inl PayloadLength
        else if \<bar>timestampUS f\<bar> > MAX_SAFE_INTEGER \<or> timestampUS f < 0 then Inl Timestamp
        else Inr (build_frame (headerBytes + length sink + length stream + length (payload f))
               (media_fields f sink stream)))"

definition decodeMediaFrame :: "byte list \<Rightarrow> media_frame option" where
  "decodeMediaFrame data =
    (if length data < headerBytes then None
     else if data ! 0 \<noteq> 0x4e \<or> data ! 1 \<noteq> 0x4b \<or> data ! 2 \<noteq> 0x4d \<or> data ! 3 \<noteq> 0x46 then None
     else if data ! 4 \<noteq> 1 \<or> get_u16 data 6 \<noteq> 0 then None
     else case kindNames (data ! 5) of
       None \<Rightarrow> None
     | Some k \<Rightarrow>
         let sinkLength = unat (data ! 20);
             streamLength = unat (data ! 21);
             payloadLength = unat (get_u32 data 22)
         in if sinkLength = 0 \<or> sinkLength > 64 \<or> streamLength = 0 \<or> streamLength > 64 then None
            else if payloadLength = 0 \<or> payloadLength > maxPayload k then None
            else if length data \<noteq> headerBytes + sinkLength + streamLength + payloadLength then None
            else
              let sinkEnd = headerBytes + sinkLength;
                  streamEnd = sinkEnd + streamLength
              in case (textDecoder_decode (buf_read headerBytes sinkLength data),
                       textDecoder_decode (buf_read sinkEnd streamLength data)) of
                   (Some sink, Some stream) \<Rightarrow>
                     Some \<lparr>kind = k, sequence = get_u32 data 8,
                       timestampUS = int (Number_of_nat (get_u64 data 12)),
                       sinkID = sink, streamID = stream, payload = drop streamEnd data\<rparr>
                 | _ \<Rightarrow> None)"

definition mediaTimestampUS :: "rat \<Rightarrow> rat \<Rightarrow> int" where
  "mediaTimestampUS timeOrigin elapsed = js_round ((timeOrigin + elapsed) * 1000)"

section \<open>UTF-8 round trip\<close>

lemma digits64:
  "c div 4096 * 4096 + c div 64 mod 64 * 64 + c mod 64 = c"
  "c div 262144 * 262144 + c div 4096 mod 64 * 4096 + c div 64 mod 64 * 64 + c mod 64 = c" for c :: nat
proof -
  have step: "x div 64 * (64 * k) + x mod 64 * k = x * k" for x k :: nat
    by (metis add_mult_distrib div_mult_mod_eq mult.assoc)
  have d: "c div 64 div 64 = c div 4096" "c div 4096 div 64 = c div 262144"
    using div_mult2_eq [of c 64 64] div_mult2_eq [of c 4096 64] by simp_all
  have "c div 4096 * 4096 + c div 64 mod 64 * 64 = c div 64 * 64"
    using step [of "c div 64" 64] by (simp add: d)
  moreover have "c div 64 * 64 + c mod 64 = c" by (rule div_mult_mod_eq)
  moreover have "c div 262144 * 262144 + c div 4096 mod 64 * 4096 = c div 4096 * 4096"
    using step [of "c div 4096" 4096] by (simp add: d)
  ultimately show "c div 4096 * 4096 + c div 64 mod 64 * 64 + c mod 64 = c"
    "c div 262144 * 262144 + c div 4096 mod 64 * 4096 + c div 64 mod 64 * 64 + c mod 64 = c"
    by (simp_all only:)
qed

lemma utf8_decode_scalar:
  assumes "scalar c"
  shows "utf8_decode (utf8_scalar c @ bs) = map_option (Cons c) (utf8_decode bs)"
proof -
  have tail: "unat (of_nat (0x80 + x mod 64) :: byte) = 0x80 + x mod 64"
    "cont (of_nat (0x80 + x mod 64))" for x :: nat
  proof -
    have "x mod 64 < 64" by simp
    then show "unat (of_nat (0x80 + x mod 64) :: byte) = 0x80 + x mod 64" by (simp only: unat_of_nat_byte) simp
    with \<open>x mod 64 < 64\<close> show "cont (of_nat (0x80 + x mod 64))" unfolding cont_def by simp
  qed
  consider "c < 0x80" | "0x80 \<le> c" "c < 0x800" | "0x800 \<le> c" "c < 0x10000" | "0x10000 \<le> c" "c \<le> 0x10ffff"
    using assms by (auto simp: scalar_def) linarith
  then show ?thesis
  proof cases
    case 1
    then show ?thesis by (simp add: utf8_scalar_def)
  next
    case 2
    then have "unat (of_nat (0xc0 + c div 64) :: byte) = 0xc0 + c div 64" by (simp only: unat_of_nat_byte) simp
    moreover have "2 \<le> c div 64" "c div 64 < 32" using 2 by auto
    moreover have "c div 64 * 64 + c mod 64 = c" by (rule div_mult_mod_eq)
    ultimately show ?thesis using 2 tail [of c] by (simp add: utf8_scalar_def Let_def) linarith
  next
    case 3
    then have "unat (of_nat (0xe0 + c div 4096) :: byte) = 0xe0 + c div 4096" by (simp only: unat_of_nat_byte) simp
    moreover have "c div 4096 < 16" using 3 by auto
    moreover note digits64(1) [of c]
    ultimately show ?thesis using 3 assms tail [of c] tail [of "c div 64"]
      by (simp add: utf8_scalar_def Let_def scalar_def)
  next
    case 4
    then have "unat (of_nat (0xf0 + c div 262144) :: byte) = 0xf0 + c div 262144" by (simp only: unat_of_nat_byte) simp
    moreover have "c div 262144 < 5" using 4 by auto
    moreover note digits64(2) [of c]
    ultimately show ?thesis using 4 tail [of c] tail [of "c div 64"] tail [of "c div 4096"]
      by (simp add: utf8_scalar_def Let_def)
  qed
qed

lemma utf8_round_trip: "list_all scalar s \<Longrightarrow> utf8_decode (textEncoder_encode s) = Some s"
  by (induction s) (auto simp: textEncoder_encode_def utf8_decode_scalar scalar_def)

definition wf_id :: "code_points \<Rightarrow> bool" where
  "wf_id s \<longleftrightarrow> list_all scalar s \<and> s \<noteq> [] \<and> hd s \<noteq> BOM \<and> length (textEncoder_encode s) \<le> 64"

lemma text_round_trip: "wf_id s \<Longrightarrow> textDecoder_decode (textEncoder_encode s) = Some s"
  by (cases s) (auto simp: wf_id_def textDecoder_decode_def utf8_round_trip)

lemma text_nonempty: "wf_id s \<Longrightarrow> textEncoder_encode s \<noteq> []"
  by (cases s) (auto simp: wf_id_def textEncoder_encode_def utf8_scalar_def)

section \<open>Frame round trip\<close>

definition wf_media :: "media_frame \<Rightarrow> bool" where
  "wf_media f \<longleftrightarrow> wf_id (sinkID f) \<and> wf_id (streamID f) \<and> payload f \<noteq> [] \<and>
    length (payload f) \<le> maxPayload (kind f) \<and> 0 \<le> timestampUS f \<and> timestampUS f \<le> MAX_SAFE_INTEGER"

definition media_bytes :: "media_frame \<Rightarrow> byte list" where
  "media_bytes f =
    (let sink = textEncoder_encode (sinkID f); stream = textEncoder_encode (streamID f)
     in build_frame (headerBytes + length sink + length stream + length (payload f))
          (media_fields f sink stream))"

lemma media_layout:
  "layout_ok (headerBytes + length sink + length stream + length (payload f)) (media_fields f sink stream)"
  by (simp add: layout_ok_def media_fields_def headerBytes_def)

lemma maxPayload_bound: "maxPayload k \<le> 2097152"
  by (cases k) simp_all

lemma encode_media: "wf_media f \<Longrightarrow> encodeMediaFrame f = Inr (media_bytes f)"
  using text_nonempty [of "sinkID f"] text_nonempty [of "streamID f"]
  by (auto simp: encodeMediaFrame_def media_bytes_def Let_def wf_media_def wf_id_def)

lemma decode_media:
  assumes wf: "wf_media f"
  shows "decodeMediaFrame (media_bytes f) = Some f"
proof -
  let ?sink = "textEncoder_encode (sinkID f)" and ?stream = "textEncoder_encode (streamID f)"
  let ?n = "headerBytes + length ?sink + length ?stream + length (payload f)"
  let ?fs = "media_fields f ?sink ?stream" and ?b = "media_bytes f"
  have b: "?b = build_frame ?n ?fs" by (simp add: media_bytes_def Let_def)
  note lay = media_layout [of ?sink ?stream f]
  note nth = build_nth [OF lay, folded b] and get = get_build [OF lay, folded b]
    and read = build_read [OF lay, folded b]
  have len: "length ?b = ?n" unfolding b by (rule length_build_frame [OF lay])
  have ids: "0 < length ?sink" "length ?sink \<le> 64" "0 < length ?stream" "length ?stream \<le> 64"
    using wf text_nonempty [of "sinkID f"] text_nonempty [of "streamID f"]
    by (auto simp: wf_media_def wf_id_def)
  have pay: "0 < length (payload f)" "length (payload f) \<le> maxPayload (kind f)"
    "length (payload f) \<le> 2097152"
    using wf maxPayload_bound [of "kind f"] by (auto simp: wf_media_def)
  have "?b ! 0 = 0x4e" "?b ! 1 = 0x4b" "?b ! 2 = 0x4d" "?b ! 3 = 0x46"
    using nth [of 0 "[0x4e, 0x4b, 0x4d, 0x46]" 0] nth [of 0 "[0x4e, 0x4b, 0x4d, 0x46]" 1]
      nth [of 0 "[0x4e, 0x4b, 0x4d, 0x46]" 2] nth [of 0 "[0x4e, 0x4b, 0x4d, 0x46]" 3]
    by (simp_all add: media_fields_def numeral_2_eq_2)
  moreover have "?b ! 4 = 1" "?b ! 5 = frameKind (kind f)" "?b ! 20 = of_nat (length ?sink)"
    "?b ! 21 = of_nat (length ?stream)"
    using nth [of 4 "[1]" 0] nth [of 5 "[frameKind (kind f)]" 0] nth [of 20 "[of_nat (length ?sink)]" 0]
      nth [of 21 "[of_nat (length ?stream)]" 0]
    by (simp_all add: media_fields_def)
  moreover have "unat (of_nat (length ?sink) :: byte) = length ?sink"
    "unat (of_nat (length ?stream) :: byte) = length ?stream" using ids by simp_all
  moreover have "get_u16 ?b 6 = 0" "get_u32 ?b 8 = sequence f" "get_u32 ?b 22 = of_nat (length (payload f))"
    using get(2) [of 6 0] get(1) [of 8 "unat (sequence f)"] get(1) [of 22 "length (payload f)"]
    by (simp_all add: media_fields_def)
  moreover have "unat (of_nat (length (payload f)) :: 32 word) = length (payload f)"
    using pay by (simp add: unat_of_nat)
  moreover have "get_u64 ?b 12 = nat (timestampUS f)"
    using get(3) [of 12 "nat (timestampUS f)"] wf
    by (simp add: media_fields_def wf_media_def MAX_SAFE_INTEGER_def nat_less_iff)
  moreover have "int (Number_of_nat (nat (timestampUS f))) = timestampUS f"
    using wf by (simp add: Number_of_nat_def wf_media_def MAX_SAFE_INTEGER_def nat_less_iff)
  moreover have "buf_read headerBytes (length ?sink) ?b = ?sink"
    "buf_read (headerBytes + length ?sink) (length ?stream) ?b = ?stream"
    using read [of headerBytes ?sink] read [of "headerBytes + length ?sink" ?stream]
    by (simp_all add: media_fields_def)
  moreover have "drop (headerBytes + length ?sink + length ?stream) ?b = payload f"
    using read [of "headerBytes + length ?sink + length ?stream" "payload f"] len
    by (simp add: media_fields_def buf_read_def)
  moreover have "kindNames (frameKind (kind f)) = Some (kind f)" by (cases "kind f") (simp_all add: kindNames_def)
  moreover have "textDecoder_decode ?sink = Some (sinkID f)" "textDecoder_decode ?stream = Some (streamID f)"
    using wf text_round_trip by (auto simp: wf_media_def)
  ultimately show ?thesis
    using ids pay len unfolding decodeMediaFrame_def Let_def
    by (simp add: headerBytes_def)
qed

text \<open>The decoder as one that reports failures on the left.\<close>

definition decode_or_refuse :: "byte list \<Rightarrow> unit + media_frame" where
  "decode_or_refuse bs = (case decodeMediaFrame bs of None \<Rightarrow> Inl () | Some f \<Rightarrow> Inr f)"

interpretation media_codec: frame_codec encodeMediaFrame decode_or_refuse wf_media
  by unfold_locales (auto simp: encode_media decode_media decode_or_refuse_def)

section \<open>Properties\<close>

text \<open>
  C35: A media frame with identifiers of 1 to 64 bytes, a payload within the limit of its kind and a
  safe time stamp is encoded, and decoding gives back kind, sequence, time, identifiers and
  payload; distinct frames differ on the wire.
\<close>

theorem media_frame_round_trip:
  assumes "wf_media f"
  shows "\<exists>bs. encodeMediaFrame f = Inr bs \<and> decodeMediaFrame bs = Some f \<and>
    (\<forall>g. wf_media g \<longrightarrow> encodeMediaFrame g = Inr bs \<longrightarrow> g = f)"
  using assms media_codec.enc_inj [of _ f] by (auto simp: encode_media decode_media)

definition sample_frame :: media_frame where
  "sample_frame =
    \<lparr>kind = pcm_s16le_mono_48k, sequence = 5, timestampUS = 1700000000000000, sinkID = [0x75, 0x20ac],
     streamID = [0x6d, 0x1f600], payload = [1, 2]\<rparr>"

theorem media_frame_round_trip_witness:
  "\<exists>bs. encodeMediaFrame sample_frame = Inr bs \<and> decodeMediaFrame bs = Some sample_frame"
  using media_frame_round_trip [of sample_frame]
  by (auto simp: wf_media_def wf_id_def sample_frame_def scalar_def surrogate_def BOM_def MAX_SAFE_INTEGER_def
      textEncoder_encode_def utf8_scalar_def)

text \<open>
  What the decoder accepts respects every limit of the format: identifiers that came from 1 to
  64 bytes, a nonempty payload within the limit of its kind, and no byte of the frame unread.
\<close>

theorem decoded_media_within_limits:
  assumes "decodeMediaFrame data = Some f"
  shows "0 < length (payload f) \<and> length (payload f) \<le> maxPayload (kind f) \<and>
    headerBytes + 2 \<le> length data - length (payload f) \<and>
    length data - length (payload f) \<le> headerBytes + 128 \<and>
    payload f = drop (length data - length (payload f)) data"
  using assms
  by (auto simp: decodeMediaFrame_def Let_def split: if_splits option.splits)

theorem decoded_media_within_limits_witness:
  "\<exists>bs. decodeMediaFrame bs = Some sample_frame \<and> headerBytes + 2 \<le> length bs - 2"
proof -
  obtain bs where "decodeMediaFrame bs = Some sample_frame"
    using decode_media [of sample_frame]
    by (auto simp: wf_media_def wf_id_def sample_frame_def scalar_def surrogate_def BOM_def
        MAX_SAFE_INTEGER_def textEncoder_encode_def utf8_scalar_def)
  with decoded_media_within_limits [OF this] show ?thesis by (auto simp: sample_frame_def)
qed

end
