(* ===== verification/Source_Client.thy ===== *)
theory Source_Client
  imports Source_State Media_Frame "HOL-Library.List_Lexorder" "HOL-Library.Char_ord"
begin

text \<open>
  The browser's side of the media socket, the class \<^verbatim>\<open>BrowserSourceClient\<close> of
  \<^verbatim>\<open>web/src/pages/desktop/menu/devices/client.ts\<close>: offers, leases, requests to the registry, frames
  in flight with their acknowledgement timers, reconnecting. Calls of the page, socket events
  and timers are steps. An operation that waits is one step per stretch between two waits; when
  the next stretch of a claim or of a resume runs, and after which delay, is left to the
  environment.
\<close>

section \<open>Types\<close>

record offer =
  offer_id :: string
  offer_device :: string
  offer_kind :: source_kind
  offer_usb :: "(string \<times> nat \<times> nat list) option"  \<comment> \<open>profile, configuration, interfaces\<close>

record lease =
  l_sink :: string
  l_stream :: string
  l_token :: string
  l_device :: string
  l_kind :: source_kind

record pending_frame =
  pf_key :: string
  pf_kind :: media_kind
  pf_timer :: nat

datatype timer = ReconnectTimer | AckTimer "32 word" string string  \<comment> \<open>sequence, key, sink\<close>

datatype message =
  Hello "string list" | ClaimMsg string string | ReleaseMsg string | ResumeMsg string string string
| FrameMsg "byte list" | RelayMsg "byte list"

datatype settlement = Resolved string | RejectedReq string string  \<comment> \<open>sink, message\<close>

datatype connection = Idle | Connecting | Connected | Disconnected

datatype callback =
  OnConnection connection | OnOwned "string list" | OnError string string | OnRefused string
| OnRevoked string string | OnAudio media_frame | OnBinary "byte list" | AuthExpired

record source_client =
  socket :: "nat option"
  sock_states :: "ready_state list"
  offers :: "offer list"
  leases :: "lease list"
  owned :: "string list"
  requests :: "string list"  \<comment> \<open>the sinks of the map \<^verbatim>\<open>requests\<close>, in order\<close>
  readyWaiters :: nat
  reconnectTimer :: "nat option"
  timers :: "(nat \<times> timer) list"  \<comment> \<open>timeouts still to fire\<close>
  nextTimer :: nat
  reconnectDelay :: nat
  seqno :: "32 word"
  pendingFrames :: "(32 word \<times> pending_frame) list"
  blockedUntil :: "(string \<times> int) list"
  shouldConnect :: bool
  restarting :: bool
  isReady :: bool
  sourceID :: string
  ackTimeouts :: nat
  wire :: "(nat \<times> message) list"
  settled :: "settlement list"
  calls :: "callback list"

definition mjpegFramesInFlight :: nat where "mjpegFramesInFlight = 2"
definition pcmFramesInFlight :: nat where "pcmFramesInFlight = 8"
definition frameAckTimeout :: int where "frameAckTimeout = 3000"
definition frameAckTimeoutsBeforeRestart :: nat where "frameAckTimeoutsBeforeRestart = 2"
definition maxBufferedBytes :: nat where "maxBufferedBytes = 2097408"

definition window_size :: "media_kind \<Rightarrow> nat" where
  "window_size k = (if k = mjpeg then mjpegFramesInFlight else pcmFramesInFlight)"

definition new_source_client :: "lease list \<Rightarrow> source_client" where
  "new_source_client ls =
    \<lparr>socket = None, sock_states = [], offers = [], leases = ls, owned = [], requests = [],
     readyWaiters = 0, reconnectTimer = None, timers = [], nextTimer = 1, reconnectDelay = 1000,
     seqno = 0, pendingFrames = [], blockedUntil = [], shouldConnect = False, restarting = False,
     isReady = False, sourceID = '''', ackTimeouts = 0, wire = [], settled = [], calls = []\<rparr>"

section \<open>Stored leases\<close>

text \<open>An entry of the stored array; a field that is not a string is \<open>None\<close>.\<close>

record stored =
  st_sink :: "string option"
  st_stream :: "string option"
  st_token :: "string option"
  st_device :: "string option"
  st_kind :: "source_kind option"

definition write_lease :: "lease \<Rightarrow> stored" where
  "write_lease l = \<lparr>st_sink = Some (l_sink l), st_stream = Some (l_stream l),
    st_token = Some (l_token l), st_device = Some (l_device l), st_kind = Some (l_kind l)\<rparr>"

definition readLeases :: "stored list option \<Rightarrow> lease list" where
  "readLeases parsed =
    (case parsed of
       None \<Rightarrow> []
     | Some entries \<Rightarrow>
         map (\<lambda>e. \<lparr>l_sink = the (st_sink e), l_stream = the (st_stream e), l_token = the (st_token e),
               l_device = the (st_device e), l_kind = the (st_kind e)\<rparr>)
           (filter (\<lambda>e. st_sink e \<noteq> None \<and> st_stream e \<noteq> None \<and> st_token e \<noteq> None \<and>
              st_device e \<noteq> None \<and>
              (st_kind e = Some camera \<or> st_kind e = Some microphone \<or> st_kind e = Some usb_device))
            entries))"

section \<open>Helpers\<close>

definition is_open :: "source_client \<Rightarrow> bool" where
  "is_open c = (case socket c of None \<Rightarrow> False | Some i \<Rightarrow> sock_states c ! i = OPEN)"

definition clear_timer :: "nat \<Rightarrow> source_client \<Rightarrow> source_client" where
  "clear_timer t c = c\<lparr>timers := filter (\<lambda>p. fst p \<noteq> t) (timers c)\<rparr>"

definition clear_timer_opt :: "nat option \<Rightarrow> source_client \<Rightarrow> source_client" where
  "clear_timer_opt t c = (case t of None \<Rightarrow> c | Some t \<Rightarrow> clear_timer t c)"

definition set_timeout :: "timer \<Rightarrow> source_client \<Rightarrow> source_client" where
  "set_timeout k c = c\<lparr>timers := timers c @ [(nextTimer c, k)], nextTimer := Suc (nextTimer c)\<rparr>"

definition call :: "callback \<Rightarrow> source_client \<Rightarrow> source_client" where
  "call k c = c\<lparr>calls := calls c @ [k]\<rparr>"

definition emitOwned :: "source_client \<Rightarrow> source_client" where
  "emitOwned c = call (OnOwned (owned c)) c"

definition clearFrames :: "source_client \<Rightarrow> source_client" where
  "clearFrames c =
    (fold (\<lambda>(s, f). clear_timer (pf_timer f)) (pendingFrames c) c)
      \<lparr>pendingFrames := [], blockedUntil := [], ackTimeouts := 0\<rparr>"

definition closeSocket :: "source_client \<Rightarrow> source_client" where
  "closeSocket c =
    (let c' = clear_timer_opt (reconnectTimer c) c;
         c' = c'\<lparr>reconnectTimer := None, socket := None, isReady := False,
                sock_states := (case socket c of None \<Rightarrow> sock_states c
                  | Some i \<Rightarrow> if sock_states c ! i = CLOSED then sock_states c
                              else (sock_states c)[i := CLOSING])\<rparr>
     in clearFrames c')"

definition rejectReady :: "source_client \<Rightarrow> source_client" where
  "rejectReady c = c\<lparr>readyWaiters := 0\<rparr>"

definition resolveReady :: "source_client \<Rightarrow> source_client" where
  "resolveReady c = c\<lparr>readyWaiters := 0\<rparr>"

definition rejectRequests :: "string \<Rightarrow> source_client \<Rightarrow> source_client" where
  "rejectRequests error c =
    c\<lparr>settled := settled c @ map (\<lambda>sink. RejectedReq sink error) (requests c), requests := []\<rparr>"

definition finishRequest :: "string \<Rightarrow> string option \<Rightarrow> source_client \<Rightarrow> source_client" where
  "finishRequest sink error c =
    (if sink \<in> set (requests c)
     then c\<lparr>requests := js_delete sink (requests c),
            settled := settled c @ [case error of Some e \<Rightarrow> RejectedReq sink e | None \<Rightarrow> Resolved sink]\<rparr>
     else c)"

definition finishFrame :: "32 word \<Rightarrow> source_client \<Rightarrow> source_client" where
  "finishFrame s c =
    (case map_of (pendingFrames c) s of
       None \<Rightarrow> c
     | Some f \<Rightarrow>
         (clear_timer (pf_timer f) c)\<lparr>pendingFrames := AList.delete s (pendingFrames c),
           blockedUntil := AList.delete (pf_key f) (blockedUntil c), ackTimeouts := 0\<rparr>)"

definition saveLease :: "lease \<Rightarrow> source_client \<Rightarrow> source_client" where
  "saveLease l c = c\<lparr>leases := filter (\<lambda>x. l_sink x \<noteq> l_sink l) (leases c) @ [l]\<rparr>"

definition removeLease :: "string \<Rightarrow> source_client \<Rightarrow> source_client" where
  "removeLease sink c =
    emitOwned (c\<lparr>leases := filter (\<lambda>x. l_sink x \<noteq> sink) (leases c), owned := js_delete sink (owned c)\<rparr>)"

section \<open>Connecting\<close>

definition sc_connect :: "source_client \<Rightarrow> source_client" where
  "sc_connect c =
    (if \<not> shouldConnect c \<or> socket c \<noteq> None then c
     else (call (OnConnection Connecting) (clear_timer_opt (reconnectTimer c) c))
            \<lparr>socket := Some (length (sock_states c)), sock_states := sock_states c @ [CONNECTING]\<rparr>)"

definition restart :: "source_client \<Rightarrow> source_client" where
  "restart c =
    (let c = c\<lparr>isReady := False, restarting := True\<rparr>;
         c = (closeSocket c)\<lparr>restarting := False\<rparr>
     in sc_connect (rejectRequests ''Media source restarting'' c))"

definition reconnect :: "source_client \<Rightarrow> source_client" where
  "reconnect c =
    (if socket c \<noteq> None then c
     else
       let c = c\<lparr>shouldConnect := offers c \<noteq> [] \<or> leases c \<noteq> []\<rparr>
       in if \<not> shouldConnect c then c else sc_connect (c\<lparr>reconnectDelay := 1000\<rparr>))"

text \<open>\<^verbatim>\<open>offerKey\<close>: the sorted descriptions of the offers in one string.\<close>

fun kind_name :: "source_kind \<Rightarrow> string" where
  "kind_name camera = ''camera''"
| "kind_name microphone = ''microphone''"
| "kind_name speaker = ''speaker''"
| "kind_name usb_device = ''usb_device''"

fun join :: "string \<Rightarrow> string list \<Rightarrow> string" where
  "join sep [] = []"
| "join sep [x] = x"
| "join sep (x # xs) = x @ sep @ join sep xs"

definition describe_offer :: "offer \<Rightarrow> string" where
  "describe_offer f =
    join '':'' (offer_id f # kind_name (offer_kind f) #
      (case offer_usb f of
         None \<Rightarrow> ['''', '''', '''']
       | Some (profile, configuration, interfaces) \<Rightarrow>
           [profile, if configuration = 0 then '''' else nat_string configuration,
            join '','' (map nat_string interfaces)]))"

definition offerKey :: "offer list \<Rightarrow> string" where
  "offerKey fs = join ''|'' (sort (map describe_offer fs))"

text \<open>\<^verbatim>\<open>ready\<close> resolves at once or adds a waiter.\<close>

definition wait_ready :: "source_client \<Rightarrow> source_client" where
  "wait_ready c = (if isReady c then c else c\<lparr>readyWaiters := Suc (readyWaiters c)\<rparr>)"

definition setOffers :: "offer list \<Rightarrow> source_client \<Rightarrow> source_client" where
  "setOffers fs c =
    (let changed = offerKey (offers c) \<noteq> offerKey fs;
         c = c\<lparr>offers := fs, shouldConnect := fs \<noteq> [] \<or> leases c \<noteq> []\<rparr>
     in if \<not> shouldConnect c then call (OnConnection Idle) (closeSocket c)
        else wait_ready (if socket c = None \<or> changed then restart c else c))"

definition sc_close :: "source_client \<Rightarrow> source_client" where
  "sc_close c =
    call (OnConnection Idle) (rejectRequests ''Media source closed''
      (rejectReady (closeSocket (c\<lparr>shouldConnect := False\<rparr>))))"

definition adopt :: "string \<Rightarrow> offer \<Rightarrow> string \<Rightarrow> source_client \<Rightarrow> source_client" where
  "adopt sink f token c =
    (let c = saveLease \<lparr>l_sink = sink, l_stream = offer_id f, l_token = token,
               l_device = offer_device f, l_kind = offer_kind f\<rparr> c
     in emitOwned (c\<lparr>owned := js_add sink (owned c)\<rparr>))"

section \<open>Requests\<close>

definition request :: "string \<Rightarrow> message \<Rightarrow> source_client \<Rightarrow> source_client" where
  "request sink msg c =
    (case socket c of
       None \<Rightarrow> c\<lparr>settled := settled c @ [RejectedReq sink ''Media source disconnected'']\<rparr>
     | Some i \<Rightarrow>
         if \<not> is_open c then c\<lparr>settled := settled c @ [RejectedReq sink ''Media source disconnected'']\<rparr>
         else if sink \<in> set (requests c)
         then c\<lparr>settled := settled c @ [RejectedReq sink ''Media request already pending'']\<rparr>
         else c\<lparr>requests := requests c @ [sink], wire := wire c @ [(i, msg)]\<rparr>)"

text \<open>A claim up to its first wait, and the request it makes once the client is ready.\<close>

definition claim :: "string \<Rightarrow> offer \<Rightarrow> source_client \<Rightarrow> source_client" where
  "claim sink f c =
    (if \<not> list_ex (\<lambda>g. offer_id g = offer_id f) (offers c) then setOffers (offers c @ [f]) c
     else wait_ready c)"

definition claim_request :: "string \<Rightarrow> offer \<Rightarrow> source_client \<Rightarrow> source_client" where
  "claim_request sink f = request sink (ClaimMsg sink (offer_id f))"

definition release :: "string \<Rightarrow> source_client \<Rightarrow> source_client" where
  "release sink c =
    (if \<not> is_open c then c\<lparr>settled := settled c @ [RejectedReq sink ''Media source disconnected'']\<rparr>
     else request sink (ReleaseMsg sink) c)"

section \<open>Frames\<close>

definition in_flight :: "string \<Rightarrow> media_kind \<Rightarrow> source_client \<Rightarrow> nat" where
  "in_flight fk k c =
    length (filter (\<lambda>(s, f). pf_key f = fk \<and> pf_kind f = k) (pendingFrames c))"

definition frame_key :: "string \<Rightarrow> string \<Rightarrow> string" where
  "frame_key sink stream = sink @ [CHR 0x00] @ stream"

datatype sent = Sent | Refused | Threw media_error

text \<open>When \<^verbatim>\<open>encodeMediaFrame\<close> throws, the sequence number is spent and nothing else happens.\<close>

definition sendFrame ::
  "string \<Rightarrow> string \<Rightarrow> media_kind \<Rightarrow> byte list \<Rightarrow> nat \<Rightarrow> int \<Rightarrow> int \<Rightarrow> source_client \<Rightarrow> source_client \<times> sent" where
  "sendFrame sink stream k data buffered t us c =
    (case socket c of
       None \<Rightarrow> (c, Refused)
     | Some i \<Rightarrow>
         if \<not> is_open c \<or> buffered > maxBufferedBytes then (c, Refused)
         else
           let fk = frame_key sink stream
           in if (case map_of (blockedUntil c) fk of None \<Rightarrow> 0 | Some u \<Rightarrow> u) > t then (c, Refused)
              else if in_flight fk k c \<ge> window_size k then (c, Refused)
              else
                let c = c\<lparr>seqno := seqno c + 1\<rparr>; s = seqno c
                in case encodeMediaFrame \<lparr>media_frame.kind = k, sequence = s, timestampUS = us,
                     sinkID = map of_char sink, streamID = map of_char stream, payload = data\<rparr> of
                     Inl e \<Rightarrow> (c, Threw e)
                   | Inr bytes \<Rightarrow>
                       let timer = nextTimer c;
                           c = set_timeout (AckTimer s fk sink) (c\<lparr>wire := wire c @ [(i, FrameMsg bytes)]\<rparr>)
                       in (c\<lparr>pendingFrames := AList.update s \<lparr>pf_key = fk, pf_kind = k, pf_timer = timer\<rparr>
                               (pendingFrames c)\<rparr>, Sent))"

definition ackTimeout :: "32 word \<Rightarrow> string \<Rightarrow> string \<Rightarrow> int \<Rightarrow> source_client \<Rightarrow> source_client" where
  "ackTimeout s fk sink t c =
    (if map_of (pendingFrames c) s = None then c
     else
       let c = c\<lparr>pendingFrames := AList.delete s (pendingFrames c),
                 blockedUntil := AList.update fk (t + frameAckTimeout) (blockedUntil c)\<rparr>;
           c = call (OnError sink ''Media receiver stopped acknowledging frames'') c;
           c = c\<lparr>ackTimeouts := Suc (ackTimeouts c)\<rparr>
       in if ackTimeouts c \<ge> frameAckTimeoutsBeforeRestart then restart c else c)"

text \<open>A timer that fires is no longer scheduled when its callback runs.\<close>

definition timer_fires :: "nat \<Rightarrow> int \<Rightarrow> source_client \<Rightarrow> source_client" where
  "timer_fires n t c =
    (case map_of (timers c) n of
       None \<Rightarrow> c
     | Some k \<Rightarrow>
         let c = clear_timer n c
         in case k of
              ReconnectTimer \<Rightarrow> sc_connect c
            | AckTimer s fk sink \<Rightarrow> ackTimeout s fk sink t c)"

section \<open>Socket events\<close>

definition onOpen :: "nat \<Rightarrow> source_client \<Rightarrow> source_client" where
  "onOpen i c =
    (if socket c \<noteq> Some i then c
     else c\<lparr>wire := wire c @ [(i, Hello (map offer_id (offers c)))]\<rparr>)"

definition onError_event :: "nat \<Rightarrow> source_client \<Rightarrow> source_client" where
  "onError_event i c = (if socket c = Some i then call (OnConnection Disconnected) c else c)"

definition onClose :: "nat \<Rightarrow> nat \<Rightarrow> source_client \<Rightarrow> source_client" where
  "onClose i code c =
    (if socket c \<noteq> Some i then c
     else
       let c = clearFrames (c\<lparr>socket := None, isReady := False, sourceID := ''''\<rparr>);
           c = rejectRequests ''Media source unavailable'' (rejectReady c);
           c = emitOwned (c\<lparr>owned := []\<rparr>)
       in if code = 4401 then call AuthExpired (c\<lparr>shouldConnect := False\<rparr>)
          else if \<not> shouldConnect c \<or> restarting c then c
          else
            let c = call (OnError ''connection'' ''Media source unavailable'') (call (OnConnection Disconnected) c);
                timer = nextTimer c;
                c = set_timeout ReconnectTimer c
            in c\<lparr>reconnectTimer := Some timer, reconnectDelay := min (reconnectDelay c * 2) 10000\<rparr>)"

datatype response =
  SourceReady string | FrameAck "32 word" | FrameError "32 word" string string
| ClaimedMsg string string string | ResumedMsg string | ReleasedMsg string string
| ClaimRefused string string string | ErrorMsg string "string option"

definition on_claimed :: "string \<Rightarrow> string \<Rightarrow> string \<Rightarrow> source_client \<Rightarrow> source_client" where
  "on_claimed sink stream token c =
    (case filter (\<lambda>f. offer_id f = stream) (offers c) of
       [] \<Rightarrow> finishRequest sink (Some ''Claimed device is unavailable'') c
     | f # _ \<Rightarrow>
         let c = saveLease \<lparr>l_sink = sink, l_stream = stream, l_token = token,
                   l_device = offer_device f, l_kind = offer_kind f\<rparr> c
         in finishRequest sink None (emitOwned (c\<lparr>owned := js_add sink (owned c)\<rparr>)))"

definition on_error_message :: "string \<Rightarrow> string option \<Rightarrow> source_client \<Rightarrow> source_client" where
  "on_error_message text given c =
    (let sink = (case given of
         Some s \<Rightarrow> if s = '''' then (case requests c of [] \<Rightarrow> '''' | r # _ \<Rightarrow> r) else s
       | None \<Rightarrow> (case requests c of [] \<Rightarrow> '''' | r # _ \<Rightarrow> r));
       c = (if sink \<noteq> '''' then finishRequest sink (Some text) c else c);
       c = (if sink = ''ffs.hybrid'' then removeLease sink c else c)
     in if sink \<noteq> '''' then call (OnError sink text) c else c)"

definition onResponse :: "response \<Rightarrow> source_client \<Rightarrow> source_client" where
  "onResponse m c =
    (case m of
       SourceReady src \<Rightarrow> (call (OnError ''connection'' '''') (c\<lparr>sourceID := src\<rparr>))\<lparr>reconnectDelay := 1000\<rparr>
     | FrameAck s \<Rightarrow> finishFrame s c
     | FrameError s sink text \<Rightarrow> call (OnError sink text) (finishFrame s c)
     | ClaimedMsg sink stream token \<Rightarrow> on_claimed sink stream token c
     | ResumedMsg sink \<Rightarrow> finishRequest sink None (emitOwned (c\<lparr>owned := js_add sink (owned c)\<rparr>))
     | ReleasedMsg sink reason \<Rightarrow>
         let requested = (sink \<in> set (requests c));
             c = finishRequest sink None (removeLease sink c)
         in if requested then c
            else call (OnRevoked sink (if reason = '''' then ''released'' else reason)) c
     | ClaimRefused sink who source_label \<Rightarrow>
         finishRequest sink (Some (''In use by '' @ who @ '' from '' @ source_label)) (call (OnRefused sink) c)
     | ErrorMsg text given \<Rightarrow> on_error_message text given c)"

datatype inbound = Binary "byte list" | Control response | Unparsable

definition onMessage :: "nat \<Rightarrow> inbound \<Rightarrow> source_client \<Rightarrow> source_client" where
  "onMessage i m c =
    (if socket c \<noteq> Some i then c
     else case m of
       Binary data \<Rightarrow>
         (case decodeMediaFrame data of
            Some f \<Rightarrow> call (OnAudio f) c
          | None \<Rightarrow> call (OnBinary data) c)
     | Control r \<Rightarrow> onResponse r c
     | Unparsable \<Rightarrow> c)"

text \<open>The relay's answer to a transfer that arrived on socket \<open>i\<close>, or its failure.\<close>

definition binary_reply :: "nat \<Rightarrow> string + byte list option \<Rightarrow> source_client \<Rightarrow> source_client" where
  "binary_reply i r c =
    (case r of
       Inl e \<Rightarrow> call (OnError ''ffs.hybrid'' e) c
     | Inr None \<Rightarrow> c
     | Inr (Some bytes) \<Rightarrow>
         if socket c = Some i \<and> is_open c then c\<lparr>wire := wire c @ [(i, RelayMsg bytes)]\<rparr> else c)"

section \<open>Resuming leases\<close>

definition resume_offer :: "offer list \<Rightarrow> lease \<Rightarrow> (offer \<times> bool) option" where
  "resume_offer fs l =
    (case filter (\<lambda>f. offer_kind f = l_kind l \<and> offer_device f = l_device l) fs of
       f # _ \<Rightarrow> Some (f, True)
     | [] \<Rightarrow> (case filter (\<lambda>f. offer_kind f = l_kind l) fs of f # _ \<Rightarrow> Some (f, False) | [] \<Rightarrow> None))"

text \<open>The lease handed to another device of its kind; the lease object is changed in place.\<close>

definition resume_start :: "lease \<Rightarrow> source_client \<Rightarrow> source_client" where
  "resume_start l c =
    (case resume_offer (offers c) l of
       Some (f, False) \<Rightarrow>
         call (OnError (l_sink l) ''Previous device missing; using the current default'')
           (c\<lparr>leases := map (\<lambda>x. if x = l then l\<lparr>l_device := offer_device f, l_stream := offer_id f\<rparr> else x)
              (leases c)\<rparr>)
     | _ \<Rightarrow> c)"

definition resume_attempt :: "nat \<Rightarrow> lease \<Rightarrow> offer \<Rightarrow> source_client \<Rightarrow> source_client" where
  "resume_attempt i l f c =
    (if socket c \<noteq> Some i \<or> \<not> is_open c then c
     else request (l_sink l) (ResumeMsg (l_sink l) (offer_id f) (l_token l)) c)"

definition resume_end :: "nat \<Rightarrow> string \<Rightarrow> string option \<Rightarrow> source_client \<Rightarrow> source_client" where
  "resume_end i sink failure c =
    (if socket c \<noteq> Some i \<or> \<not> is_open c then c
     else case failure of
       Some e \<Rightarrow> call (OnError sink e) (removeLease sink c)
     | None \<Rightarrow> call (OnError sink '''') c)"

text \<open>What follows \<^verbatim>\<open>resumeLeases\<close> in the handler of \<^verbatim>\<open>source_ready\<close>.\<close>

definition resume_done :: "nat \<Rightarrow> source_client \<Rightarrow> source_client" where
  "resume_done i c =
    (if socket c \<noteq> Some i \<or> \<not> is_open c then c
     else resolveReady (call (OnConnection Connected) (c\<lparr>isReady := True\<rparr>)))"

section \<open>Steps\<close>

datatype sc_event =
  SetOffers "offer list" | Reconnect | Adopt string offer string | Claim string offer
| ClaimRequest string offer | Release string | Forget string
| SendFrame string string media_kind "byte list" nat int int | CloseClient | TimerFires nat int
| SockOpen nat | SockClosing nat | SockError nat | SockClosed nat nat | SockMessage nat inbound
| BinaryReply nat "string + byte list option" | ResumeStart lease | ResumeAttempt nat lease offer
| ResumeEnd nat string "string option" | ResumeDone nat

definition set_sock :: "nat \<Rightarrow> ready_state \<Rightarrow> source_client \<Rightarrow> source_client" where
  "set_sock i r c = c\<lparr>sock_states := (sock_states c)[i := r]\<rparr>"

fun sc_step :: "source_client \<Rightarrow> sc_event \<Rightarrow> source_client" where
  "sc_step c (SetOffers fs) = setOffers fs c"
| "sc_step c Reconnect = reconnect c"
| "sc_step c (Adopt sink f token) = adopt sink f token c"
| "sc_step c (Claim sink f) = claim sink f c"
| "sc_step c (ClaimRequest sink f) = claim_request sink f c"
| "sc_step c (Release sink) = release sink c"
| "sc_step c (Forget sink) = removeLease sink c"
| "sc_step c (SendFrame sink stream k data buffered t us) = fst (sendFrame sink stream k data buffered t us c)"
| "sc_step c CloseClient = sc_close c"
| "sc_step c (TimerFires n t) = timer_fires n t c"
| "sc_step c (SockOpen i) = onOpen i (set_sock i OPEN c)"
| "sc_step c (SockClosing i) = set_sock i CLOSING c"
| "sc_step c (SockError i) = onError_event i c"
| "sc_step c (SockClosed i code) = onClose i code (set_sock i CLOSED c)"
| "sc_step c (SockMessage i m) = onMessage i m c"
| "sc_step c (BinaryReply i r) = binary_reply i r c"
| "sc_step c (ResumeStart l) = resume_start l c"
| "sc_step c (ResumeAttempt i l f) = resume_attempt i l f c"
| "sc_step c (ResumeEnd i sink failure) = resume_end i sink failure c"
| "sc_step c (ResumeDone i) = resume_done i c"

text \<open>
  What a browser can deliver, and that a frame still waiting for its acknowledgement is not
  overtaken by 2 to the 32 further frames.
\<close>

fun sc_possible :: "source_client \<Rightarrow> sc_event \<Rightarrow> bool" where
  "sc_possible c (SockOpen i) \<longleftrightarrow> i < length (sock_states c) \<and> sock_states c ! i = CONNECTING"
| "sc_possible c (SockClosing i) \<longleftrightarrow> i < length (sock_states c) \<and> sock_states c ! i \<noteq> CLOSED"
| "sc_possible c (SendFrame sink stream k data buffered t us) \<longleftrightarrow>
    seqno c + 1 \<notin> fst ` set (pendingFrames c)"
| "sc_possible c e \<longleftrightarrow> True"

section \<open>The client's invariant\<close>

definition timers_ok :: "source_client \<Rightarrow> bool" where
  "timers_ok c \<longleftrightarrow>
    distinct (map fst (timers c)) \<and> (\<forall>p \<in> set (timers c). fst p < nextTimer c) \<and>
    (\<forall>n s fk sink. (n, AckTimer s fk sink) \<in> set (timers c) \<longrightarrow>
      (\<exists>f. (s, f) \<in> set (pendingFrames c) \<and> pf_timer f = n \<and> pf_key f = fk)) \<and>
    (\<forall>s f. (s, f) \<in> set (pendingFrames c) \<longrightarrow>
      (\<exists>sink. (pf_timer f, AckTimer s (pf_key f) sink) \<in> set (timers c))) \<and>
    (\<forall>n. (n, ReconnectTimer) \<in> set (timers c) \<longrightarrow> reconnectTimer c = Some n \<and> socket c = None)"

definition frames_ok :: "source_client \<Rightarrow> bool" where
  "frames_ok c \<longleftrightarrow>
    distinct (map fst (pendingFrames c)) \<and> (\<forall>fk k. in_flight fk k c \<le> window_size k) \<and>
    (socket c = None \<longrightarrow> pendingFrames c = [])"

definition sockets_ok :: "source_client \<Rightarrow> bool" where
  "sockets_ok c \<longleftrightarrow>
    (\<forall>i. socket c = Some i \<longrightarrow> i < length (sock_states c)) \<and>
    (\<forall>j < length (sock_states c). socket c \<noteq> Some j \<longrightarrow> dead (sock_states c ! j)) \<and>
    (isReady c \<longrightarrow> socket c \<noteq> None)"

definition sc_inv :: "source_client \<Rightarrow> bool" where
  "sc_inv c \<longleftrightarrow> timers_ok c \<and> frames_ok c \<and> sockets_ok c \<and>
    1000 \<le> reconnectDelay c \<and> reconnectDelay c \<le> 10000 \<and> distinct (requests c) \<and> distinct (owned c)"

lemma sc_inv_cong:
  assumes "sc_inv c" "socket d = socket c" "sock_states d = sock_states c" "timers d = timers c"
    "nextTimer d = nextTimer c" "reconnectTimer d = reconnectTimer c" "pendingFrames d = pendingFrames c"
    "isReady d \<longrightarrow> socket c \<noteq> None" "1000 \<le> reconnectDelay d" "reconnectDelay d \<le> 10000"
    "distinct (requests d)" "distinct (owned d)"
  shows "sc_inv d"
proof -
  have "timers_ok d = timers_ok c" by (simp only: timers_ok_def assms(2-7))
  moreover have "frames_ok d = frames_ok c" by (simp only: frames_ok_def in_flight_def assms(2-7))
  moreover have "sockets_ok c \<Longrightarrow> sockets_ok d" using assms(2,3,8) by (simp add: sockets_ok_def)
  ultimately show ?thesis using assms(1,9-) by (simp add: sc_inv_def)
qed

text \<open>A change of fields the invariant does not read, and of requests and owned sinks.\<close>

lemma sc_inv_same:
  assumes "sc_inv c" "socket d = socket c" "sock_states d = sock_states c" "timers d = timers c"
    "nextTimer d = nextTimer c" "reconnectTimer d = reconnectTimer c" "pendingFrames d = pendingFrames c"
    "isReady d = isReady c" "reconnectDelay d = reconnectDelay c"
    "distinct (requests c) \<Longrightarrow> distinct (requests d)" "distinct (owned c) \<Longrightarrow> distinct (owned d)"
  shows "sc_inv d"
  by (rule sc_inv_cong [OF assms(1-7)]) (use assms(1,8-) in \<open>auto simp: sc_inv_def sockets_ok_def\<close>)

text \<open>A client with no timer and no frame.\<close>

lemma sc_inv_quiet:
  assumes "sc_inv c" "timers d = []" "pendingFrames d = []" "sockets_ok d" "1000 \<le> reconnectDelay d"
    "reconnectDelay d \<le> 10000" "distinct (requests d)" "distinct (owned d)"
  shows "sc_inv d"
  using assms(2-) by (simp add: sc_inv_def timers_ok_def frames_ok_def in_flight_def)

lemma fold_clear_timer:
  "fold (\<lambda>(s, f). clear_timer (pf_timer f)) ps c =
    c\<lparr>timers := filter (\<lambda>p. \<forall>q \<in> set ps. fst p \<noteq> pf_timer (snd q)) (timers c)\<rparr>"
  by (induction ps arbitrary: c) (auto simp: clear_timer_def intro!: filter_cong)

lemma clearFrames_eq:
  "clearFrames c = c\<lparr>timers := filter (\<lambda>p. \<forall>q \<in> set (pendingFrames c). fst p \<noteq> pf_timer (snd q)) (timers c),
     pendingFrames := [], blockedUntil := [], ackTimeouts := 0\<rparr>"
  by (simp add: clearFrames_def fold_clear_timer)

text \<open>With the frames go all timers but a reconnect.\<close>

lemma timers_clearFrames:
  assumes "timers_ok c" and "p \<in> set (timers (clearFrames c))"
  shows "snd p = ReconnectTimer \<and> reconnectTimer c = Some (fst p)"
  using assms by (cases p; cases "snd p") (fastforce simp: clearFrames_eq timers_ok_def)+

lemma timers_ok_filter:
  "timers_ok c \<Longrightarrow> pendingFrames c = [] \<Longrightarrow> timers_ok (c\<lparr>timers := filter P (timers c)\<rparr>)"
  by (auto simp: timers_ok_def intro: distinct_map_filter)

lemma timers_closeSocket:
  assumes "timers_ok c"
  shows "timers (closeSocket c) = []"
proof -
  let ?c = "clear_timer_opt (reconnectTimer c) c"
  have "timers (closeSocket c) = timers (clearFrames ?c)"
    by (simp add: closeSocket_def Let_def clearFrames_eq clear_timer_opt_def clear_timer_def split: option.split)
  moreover have "\<not> p \<in> set (timers (clearFrames ?c))" for p
  proof
    assume "p \<in> set (timers (clearFrames ?c))"
    then have "p \<in> set (timers (clearFrames c))" "reconnectTimer c \<noteq> Some (fst p)"
      by (auto simp: clearFrames_eq clear_timer_opt_def clear_timer_def split: option.splits)
    with timers_clearFrames [OF assms] show False by blast
  qed
  ultimately show ?thesis by (metis list.set_intros(1) neq_Nil_conv)
qed

lemma closeSocket_fields [simp]:
  "socket (closeSocket c) = None" "pendingFrames (closeSocket c) = []" "isReady (closeSocket c) = False"
  "reconnectTimer (closeSocket c) = None" "requests (closeSocket c) = requests c"
  "owned (closeSocket c) = owned c" "reconnectDelay (closeSocket c) = reconnectDelay c"
  "shouldConnect (closeSocket c) = shouldConnect c" "length (sock_states (closeSocket c)) = length (sock_states c)"
  "settled (closeSocket c) = settled c" "readyWaiters (closeSocket c) = readyWaiters c"
  "blockedUntil (closeSocket c) = []" "ackTimeouts (closeSocket c) = 0"
  by (simp_all add: closeSocket_def Let_def clearFrames_eq clear_timer_opt_def clear_timer_def split: option.split)

lemma sock_states_closeSocket:
  "sock_states (closeSocket c) = (case socket c of None \<Rightarrow> sock_states c
     | Some i \<Rightarrow> if sock_states c ! i = CLOSED then sock_states c else (sock_states c)[i := CLOSING])"
  by (simp add: closeSocket_def Let_def clearFrames_eq clear_timer_opt_def clear_timer_def split: option.split)

lemma quiet_closeSocket:
  "sockets_ok c \<Longrightarrow> j < length (sock_states c) \<Longrightarrow> dead (sock_states (closeSocket c) ! j)"
  by (cases "socket c") (auto simp: sockets_ok_def sock_states_closeSocket nth_list_update)

lemma sockets_ok_closeSocket: "sockets_ok c \<Longrightarrow> sockets_ok (closeSocket c)"
  using quiet_closeSocket [of c] by (simp add: sockets_ok_def)

lemma sc_inv_closeSocket: "sc_inv c \<Longrightarrow> sc_inv (closeSocket c)"
  by (rule sc_inv_quiet) (simp_all add: sc_inv_def timers_closeSocket sockets_ok_closeSocket)

lemma timers_connect:
  assumes "sc_inv c" "socket c = None"
  shows "timers (clear_timer_opt (reconnectTimer c) c) = []"
proof -
  have "reconnectTimer c = Some (fst p)" if "p \<in> set (timers c)" for p
  proof (cases p)
    case (Pair n k)
    with assms that show ?thesis by (cases k) (fastforce simp: sc_inv_def timers_ok_def frames_ok_def)+
  qed
  then show ?thesis
    by (cases "timers c"; cases "reconnectTimer c")
      (fastforce simp: clear_timer_opt_def clear_timer_def filter_empty_conv)+
qed

lemma sc_inv_connect:
  assumes "sc_inv c"
  shows "sc_inv (sc_connect c)"
proof (cases "\<not> shouldConnect c \<or> socket c \<noteq> None")
  case False
  let ?d = "clear_timer_opt (reconnectTimer c) c"
  have d: "sc_connect c = (call (OnConnection Connecting) ?d)
      \<lparr>socket := Some (length (sock_states c)), sock_states := sock_states c @ [CONNECTING]\<rparr>"
    using False by (simp add: sc_connect_def)
  have same: "pendingFrames ?d = pendingFrames c" "isReady ?d = isReady c" "reconnectDelay ?d = reconnectDelay c"
    "requests ?d = requests c" "owned ?d = owned c"
    by (simp_all add: clear_timer_opt_def clear_timer_def split: option.split)
  have "sockets_ok (sc_connect c)"
    using assms False by (auto simp: d sc_inv_def sockets_ok_def nth_append less_Suc_eq call_def)
  moreover have "pendingFrames c = []" using assms False by (simp add: sc_inv_def frames_ok_def)
  ultimately show ?thesis
    using assms False same timers_connect [OF assms]
    by (intro sc_inv_quiet [OF assms]) (simp_all add: d call_def sc_inv_def)
qed (use assms in \<open>auto simp: sc_connect_def\<close>)

lemma sc_inv_reject: "sc_inv c \<Longrightarrow> sc_inv (rejectRequests e c)"
  by (erule sc_inv_same) (auto simp: rejectRequests_def)

lemma sc_inv_restart: "sc_inv c \<Longrightarrow> sc_inv (restart c)"
  unfolding restart_def Let_def
  by (intro sc_inv_connect sc_inv_reject, rule sc_inv_cong [OF sc_inv_closeSocket, of "c\<lparr>isReady := False, restarting := True\<rparr>"])
    (auto simp: sc_inv_def timers_ok_def frames_ok_def sockets_ok_def in_flight_def)

lemma restart_fields:
  assumes "sc_inv c" "shouldConnect c"
  shows "socket (restart c) = Some (length (sock_states c))"
    "sock_states (restart c) ! length (sock_states c) = CONNECTING"
    "j < length (sock_states c) \<Longrightarrow> dead (sock_states (restart c) ! j)"
    "pendingFrames (restart c) = []" "timers (restart c) = []" "requests (restart c) = []"
    "leases (restart c) = leases c"
    "settled (restart c) = settled c @ map (\<lambda>r. RejectedReq r ''Media source restarting'') (requests c)"
proof -
  define b where "b = c\<lparr>isReady := False, restarting := True\<rparr>"
  have ok: "timers_ok b" "sockets_ok b"
    using assms(1) by (simp_all add: b_def sc_inv_def timers_ok_def sockets_ok_def)
  note timers_closeSocket [OF ok(1)] quiet_closeSocket [OF ok(2), of j]
  moreover have "leases (closeSocket b) = leases c"
    by (simp add: closeSocket_def Let_def clearFrames_eq clear_timer_opt_def clear_timer_def b_def split: option.split)
  moreover have "restart c = (call (OnConnection Connecting)
      (rejectRequests ''Media source restarting'' ((closeSocket b)\<lparr>restarting := False\<rparr>)))
      \<lparr>socket := Some (length (sock_states c)), sock_states := sock_states (closeSocket b) @ [CONNECTING]\<rparr>"
    using assms(2)
    by (simp add: restart_def Let_def sc_connect_def b_def [symmetric] rejectRequests_def clear_timer_opt_def)
      (simp add: b_def)
  ultimately show "socket (restart c) = Some (length (sock_states c))"
    "sock_states (restart c) ! length (sock_states c) = CONNECTING"
    "j < length (sock_states c) \<Longrightarrow> dead (sock_states (restart c) ! j)"
    "pendingFrames (restart c) = []" "timers (restart c) = []" "requests (restart c) = []"
    "leases (restart c) = leases c"
    "settled (restart c) = settled c @ map (\<lambda>r. RejectedReq r ''Media source restarting'') (requests c)"
    by (simp_all add: call_def rejectRequests_def nth_append) (simp_all add: b_def)
qed

lemma sc_inv_wait: "sc_inv c \<Longrightarrow> sc_inv (wait_ready c)"
  by (erule sc_inv_same) (auto simp: wait_ready_def)

lemma sc_inv_call: "sc_inv c \<Longrightarrow> sc_inv (call k c)"
  by (erule sc_inv_same) (auto simp: call_def)

lemma sc_inv_setOffers:
  assumes "sc_inv c"
  shows "sc_inv (setOffers fs c)"
proof -
  have "sc_inv (c\<lparr>offers := fs, shouldConnect := b\<rparr>)" for b
    using assms by (rule sc_inv_same) auto
  then show ?thesis
    by (auto simp: setOffers_def Let_def intro!: sc_inv_call sc_inv_closeSocket sc_inv_wait sc_inv_restart)
qed

lemma sc_inv_reconnect:
  assumes "sc_inv c"
  shows "sc_inv (reconnect c)"
proof -
  have "sc_inv (c\<lparr>shouldConnect := b, reconnectDelay := 1000\<rparr>)" "sc_inv (c\<lparr>shouldConnect := b\<rparr>)" for b
    by (rule sc_inv_cong [OF assms]; use assms in \<open>auto simp: sc_inv_def sockets_ok_def\<close>)+
  with assms show ?thesis by (auto simp: reconnect_def Let_def intro!: sc_inv_connect)
qed

lemma sc_inv_close: "sc_inv c \<Longrightarrow> sc_inv (sc_close c)"
  unfolding sc_close_def
  by (intro sc_inv_call sc_inv_reject)
    (rule sc_inv_cong [OF sc_inv_closeSocket, of "c\<lparr>shouldConnect := False\<rparr>"],
      auto simp: rejectReady_def sc_inv_def timers_ok_def frames_ok_def sockets_ok_def in_flight_def)

lemma sc_inv_release_lease:
  "sc_inv c \<Longrightarrow> sc_inv (removeLease sink c)" "sc_inv c \<Longrightarrow> sc_inv (adopt sink f token c)"
  "sc_inv c \<Longrightarrow> sc_inv (finishRequest sink e c)"
  "sc_inv c \<Longrightarrow> sc_inv (emitOwned (c\<lparr>owned := js_add sink (owned c)\<rparr>))"
  "sc_inv c \<Longrightarrow> sc_inv (saveLease l c)"
  by (erule sc_inv_same; auto simp: removeLease_def emitOwned_def call_def adopt_def saveLease_def Let_def
      finishRequest_def)+

lemma sc_inv_request: "sc_inv c \<Longrightarrow> sc_inv (request sink m c)"
  by (erule sc_inv_same) (auto simp: request_def  split: option.split)

lemma sc_inv_claim: "sc_inv c \<Longrightarrow> sc_inv (claim sink f c)"
  by (simp add: claim_def sc_inv_setOffers sc_inv_wait)

lemma sc_inv_release: "sc_inv c \<Longrightarrow> sc_inv (release sink c)"
  by (simp add: release_def sc_inv_request)
    (auto elim!: sc_inv_same)

text \<open>Acknowledging a frame takes its timer with it.\<close>

lemma timers_ok_unframe:
  assumes "timers_ok c" "distinct (map fst (pendingFrames c))" "(s, f) \<in> set (pendingFrames c)"
  shows "timers_ok (c\<lparr>timers := filter (\<lambda>p. fst p \<noteq> pf_timer f) (timers c),
    pendingFrames := AList.delete s (pendingFrames c)\<rparr>)"
proof -
  let ?t = "set (timers c)" and ?p = "set (pendingFrames c)"
  have uniq: "k = k'" if "(n, k) \<in> ?t" "(n, k') \<in> ?t" for n k k'
    using assms(1) that eq_key_imp_eq_value [of "timers c" n k k'] by (simp add: timers_ok_def)
  have own: "\<exists>sink. (pf_timer g, AckTimer r (pf_key g) sink) \<in> ?t" if "(r, g) \<in> ?p" for r g
    using assms(1) that by (simp add: timers_ok_def)
  have frame: "g = f" if "(s, g) \<in> ?p" for g
    using assms(2,3) that by (metis eq_key_imp_eq_value)
  have "\<exists>g. (r, g) \<in> ?p \<and> r \<noteq> s \<and> pf_timer g = n \<and> pf_key g = fk"
    if "(n, AckTimer r fk sink) \<in> ?t" "n \<noteq> pf_timer f" for n r fk sink
    using assms(1) that frame unfolding timers_ok_def by blast
  moreover have "pf_timer g \<noteq> pf_timer f" if "(r, g) \<in> ?p" "r \<noteq> s" for r g
    using own [OF that(1)] own [OF assms(3)] uniq that(2) by force
  ultimately show ?thesis
    using assms(1) by (simp add: timers_ok_def set_alist_delete distinct_map_filter) blast
qed

lemma frames_ok_delete: "frames_ok c \<Longrightarrow> frames_ok (c\<lparr>pendingFrames := AList.delete s (pendingFrames c)\<rparr>)"
proof -
  have "in_flight fk k (c\<lparr>pendingFrames := AList.delete s (pendingFrames c)\<rparr>) \<le> in_flight fk k c" for fk k
    using length_filter_le [of "\<lambda>q. s \<noteq> fst q" "filter (\<lambda>(s, f). pf_key f = fk \<and> pf_kind f = k) (pendingFrames c)"]
    by (simp add: in_flight_def AList.delete_eq filter_filter case_prod_unfold conj_commute)
  then have "in_flight fk k (c\<lparr>pendingFrames := AList.delete s (pendingFrames c)\<rparr>) \<le> window_size k"
    if "frames_ok c" for fk k
    using that unfolding frames_ok_def by (meson order_trans)
  then show "frames_ok c \<Longrightarrow> ?thesis"
    by (auto simp: frames_ok_def AList.delete_eq distinct_map_filter)
qed

lemma sc_inv_unframe:
  assumes "sc_inv c" "map_of (pendingFrames c) s = Some f"
  shows "sc_inv (c\<lparr>timers := filter (\<lambda>p. fst p \<noteq> pf_timer f) (timers c),
    pendingFrames := AList.delete s (pendingFrames c)\<rparr>)" (is "sc_inv ?d")
proof -
  have "timers_ok ?d"
    using assms by (intro timers_ok_unframe) (auto simp: sc_inv_def frames_ok_def dest: map_of_SomeD)
  moreover have "frames_ok ?d"
    using assms frames_ok_delete [of c s] by (simp add: sc_inv_def frames_ok_def in_flight_def)
  ultimately show ?thesis using assms by (simp add: sc_inv_def sockets_ok_def)
qed

lemma sc_inv_finishFrame: "sc_inv c \<Longrightarrow> sc_inv (finishFrame s c)"
  unfolding finishFrame_def clear_timer_def
  by (cases "map_of (pendingFrames c) s") (auto intro: sc_inv_same [OF sc_inv_unframe])

lemma pending_of_timer:
  assumes "sc_inv c" "(n, AckTimer s fk sink) \<in> set (timers c)"
  obtains f where "map_of (pendingFrames c) s = Some f" "pf_timer f = n"
  using assms by (auto simp: sc_inv_def timers_ok_def frames_ok_def dest!: spec)

definition drop_frame :: "nat \<Rightarrow> 32 word \<Rightarrow> string \<Rightarrow> string \<Rightarrow> int \<Rightarrow> source_client \<Rightarrow> source_client" where
  "drop_frame n s fk sink t c =
    (call (OnError sink ''Media receiver stopped acknowledging frames'')
      (clear_timer n c\<lparr>pendingFrames := AList.delete s (pendingFrames c),
         blockedUntil := AList.update fk (t + frameAckTimeout) (blockedUntil c)\<rparr>))
      \<lparr>ackTimeouts := Suc (ackTimeouts c)\<rparr>"

lemma sc_inv_drop_frame:
  assumes "sc_inv c" "(n, AckTimer s fk sink) \<in> set (timers c)"
  shows "sc_inv (drop_frame n s fk sink t c)"
proof -
  obtain f where f: "map_of (pendingFrames c) s = Some f" "pf_timer f = n"
    using assms by (rule pending_of_timer)
  have "sc_inv (clear_timer n c\<lparr>pendingFrames := AList.delete s (pendingFrames c)\<rparr>)"
    using sc_inv_unframe [OF assms(1) f(1)] f(2) by (simp add: clear_timer_def)
  then show ?thesis by (rule sc_inv_same) (simp_all add: drop_frame_def call_def)
qed

lemma ackTimeout_eq:
  assumes "sc_inv c" "(n, AckTimer s fk sink) \<in> set (timers c)"
  shows "ackTimeout s fk sink t (clear_timer n c) =
    (let d = drop_frame n s fk sink t c
     in if ackTimeouts c \<ge> 1 then restart d else d)"
proof -
  obtain f where "map_of (pendingFrames c) s = Some f" using assms by (rule pending_of_timer)
  then show ?thesis
    by (simp add: ackTimeout_def Let_def drop_frame_def clear_timer_def call_def frameAckTimeoutsBeforeRestart_def)
qed

lemma sc_inv_ackTimeout:
  "sc_inv c \<Longrightarrow> (n, AckTimer s fk sink) \<in> set (timers c) \<Longrightarrow>
    sc_inv (ackTimeout s fk sink t (clear_timer n c))"
  by (simp add: ackTimeout_eq Let_def sc_inv_restart sc_inv_drop_frame)

lemma sc_inv_timer:
  assumes "sc_inv c"
  shows "sc_inv (timer_fires n t c)"
proof (cases "map_of (timers c) n")
  case (Some k)
  then have k: "(n, k) \<in> set (timers c)" by (rule map_of_SomeD)
  show ?thesis
  proof (cases k)
    case ReconnectTimer
    with assms k have "socket c = None" "reconnectTimer c = Some n" "pendingFrames c = []"
      by (auto simp: sc_inv_def timers_ok_def frames_ok_def)
    moreover from this timers_connect [OF assms] have "timers (clear_timer n c) = []"
      by (simp add: clear_timer_opt_def)
    ultimately have "sc_inv (clear_timer n c)"
      using assms by (intro sc_inv_quiet [OF assms]) (simp_all add: clear_timer_def sc_inv_def sockets_ok_def)
    with Some ReconnectTimer show ?thesis by (simp add: timer_fires_def sc_inv_connect)
  next
    case (AckTimer s fk sink)
    with Some k sc_inv_ackTimeout [OF assms] show ?thesis by (simp add: timer_fires_def)
  qed
qed (use assms in \<open>simp add: timer_fires_def\<close>)

text \<open>A frame that joins the window with a timer of its own.\<close>

lemma sc_inv_frame:
  assumes "sc_inv c" "socket c \<noteq> None" "s \<notin> fst ` set (pendingFrames c)" "in_flight fk k c < window_size k"
  shows "sc_inv (set_timeout (AckTimer s fk sink) c
    \<lparr>pendingFrames := pendingFrames c @ [(s, \<lparr>pf_key = fk, pf_kind = k, pf_timer = nextTimer c\<rparr>)]\<rparr>)"
    (is "sc_inv ?d")
proof -
  have "frames_ok ?d"
    using assms by (auto simp: sc_inv_def frames_ok_def in_flight_def set_timeout_def)
  moreover have "timers_ok c" using assms by (simp add: sc_inv_def)
  then have "timers_ok ?d"
    using assms(2) unfolding timers_ok_def set_timeout_def
    by (simp add: less_Suc_eq) (safe; (fastforce | blast))
  ultimately show ?thesis using assms by (simp add: sc_inv_def sockets_ok_def set_timeout_def)
qed

lemma sc_inv_sendFrame:
  assumes "sc_inv c" "seqno c + 1 \<notin> fst ` set (pendingFrames c)"
  shows "sc_inv (fst (sendFrame sink stream k data buffered t us c))"
proof (cases "socket c = None \<or> \<not> is_open c \<or> buffered > maxBufferedBytes \<or>
    (case map_of (blockedUntil c) (frame_key sink stream) of None \<Rightarrow> 0 | Some u \<Rightarrow> u) > t \<or>
    in_flight (frame_key sink stream) k c \<ge> window_size k")
  case True
  with assms show ?thesis by (auto simp: sendFrame_def Let_def split: option.split)
next
  case False
  then obtain i where i: "socket c = Some i" by auto
  let ?c = "c\<lparr>seqno := seqno c + 1\<rparr>" and ?fk = "frame_key sink stream"
  have c: "sc_inv (?c\<lparr>wire := w\<rparr>)" "sc_inv ?c" for w by (rule sc_inv_same [OF assms(1)]; simp)+
  from sc_inv_frame [OF c(1), where s = "seqno c + 1" and fk = ?fk and k = k] False i assms(2)
  have "sc_inv (set_timeout (AckTimer (seqno c + 1) ?fk sink) (?c\<lparr>wire := w\<rparr>)
      \<lparr>pendingFrames := AList.update (seqno c + 1) \<lparr>pf_key = ?fk, pf_kind = k, pf_timer = nextTimer c\<rparr>
        (pendingFrames c)\<rparr>)" for w
    by (simp add: alist_update_absent in_flight_def)
  with False i c(2) show ?thesis
    by (simp add: sendFrame_def Let_def not_le not_less set_timeout_def split: sum.split)
qed

lemma sockets_ok_set_sock:
  "sockets_ok c \<Longrightarrow> (socket c \<noteq> Some i \<Longrightarrow> i < length (sock_states c) \<Longrightarrow> dead r) \<Longrightarrow> sockets_ok (set_sock i r c)"
  by (cases "i < length (sock_states c)") (auto simp: sockets_ok_def set_sock_def nth_list_update)

lemma sc_inv_set_sock:
  "sc_inv c \<Longrightarrow> (socket c \<noteq> Some i \<Longrightarrow> i < length (sock_states c) \<Longrightarrow> dead r) \<Longrightarrow> sc_inv (set_sock i r c)"
  using sockets_ok_set_sock [of c i r]
  by (simp add: sc_inv_def timers_ok_def frames_ok_def in_flight_def) (simp add: set_sock_def)

lemma sc_inv_onOpen: "sc_inv c \<Longrightarrow> sc_inv (onOpen i c)"
  by (erule sc_inv_same) (simp_all add: onOpen_def)

lemma onClose_core:
  assumes "sc_inv c" "socket c = Some i" "dead (sock_states c ! i)"
  shows "sc_inv (emitOwned ((rejectRequests e (rejectReady
    (clearFrames (c\<lparr>socket := None, isReady := False, sourceID := ''''\<rparr>))))\<lparr>owned := []\<rparr>))" (is "sc_inv ?d")
    and "timers (clearFrames (c\<lparr>socket := None, isReady := False, sourceID := ''''\<rparr>)) = []" (is "?t = []")
proof -
  have "p \<notin> set (timers (clearFrames c))" for p
  proof
    assume p: "p \<in> set (timers (clearFrames c))"
    then have "(fst p, ReconnectTimer) \<in> set (timers c)"
      using assms(1) timers_clearFrames [OF _ p] p
      by (auto simp: sc_inv_def clearFrames_eq) (metis prod.collapse)
    with assms(1,2) show False by (simp add: sc_inv_def timers_ok_def)
  qed
  then show t: "?t = []" by (simp add: clearFrames_eq filter_empty_conv)
  show "sc_inv ?d"
    using assms t by (intro sc_inv_quiet [OF assms(1)])
      (auto simp: emitOwned_def call_def rejectRequests_def rejectReady_def clearFrames_eq sc_inv_def sockets_ok_def)
qed

lemma sc_inv_schedule:
  assumes "sc_inv c" "socket c = None" "timers c = []"
  shows "sc_inv (set_timeout ReconnectTimer c
    \<lparr>reconnectTimer := Some (nextTimer c), reconnectDelay := min (reconnectDelay c * 2) 10000\<rparr>)"
  using assms by (auto simp: sc_inv_def timers_ok_def frames_ok_def in_flight_def sockets_ok_def set_timeout_def)

lemma sc_inv_onClose:
  assumes "sc_inv c" "socket c = Some i \<Longrightarrow> dead (sock_states c ! i)"
  shows "sc_inv (onClose i code c)"
proof (cases "socket c = Some i")
  case True
  define d where "d = emitOwned ((rejectRequests ''Media source unavailable'' (rejectReady
    (clearFrames (c\<lparr>socket := None, isReady := False, sourceID := ''''\<rparr>))))\<lparr>owned := []\<rparr>)"
  have d: "sc_inv d" unfolding d_def using onClose_core(1) assms True by blast
  have t: "timers d = []" "socket d = None"
    using onClose_core(2) [OF assms(1) True assms(2) [OF True]]
    by (simp_all add: d_def emitOwned_def call_def rejectRequests_def rejectReady_def clearFrames_eq)
  have "sc_inv (d\<lparr>shouldConnect := False\<rparr>)" by (rule sc_inv_same [OF d]) simp_all
  with d t True sc_inv_schedule [of "call (OnError e1 e2) (call k d)" for e1 e2 k] show ?thesis
    by (simp add: onClose_def Let_def d_def [symmetric] sc_inv_call)
      (simp add: call_def set_timeout_def sc_inv_call [unfolded call_def])
qed (use assms in \<open>simp add: onClose_def\<close>)

lemma sc_inv_claimed: "sc_inv c \<Longrightarrow> sc_inv (on_claimed sink stream token c)"
  by (auto simp: on_claimed_def Let_def sc_inv_release_lease split: list.split)

lemma sc_inv_error_message: "sc_inv c \<Longrightarrow> sc_inv (on_error_message text given c)"
  by (simp add: on_error_message_def Let_def sc_inv_release_lease sc_inv_call)

lemma sc_inv_response:
  assumes "sc_inv c" "socket c \<noteq> None"
  shows "sc_inv (onResponse m c)"
proof (cases m)
  case (SourceReady src)
  then show ?thesis
    by (simp add: onResponse_def)
      (rule sc_inv_cong [OF assms(1)]; use assms in \<open>simp add: call_def sc_inv_def\<close>)
qed (use assms in \<open>simp_all add: onResponse_def Let_def sc_inv_finishFrame sc_inv_call sc_inv_claimed
  sc_inv_release_lease sc_inv_error_message\<close>)

lemma sc_inv_message: "sc_inv c \<Longrightarrow> sc_inv (onMessage i m c)"
  by (simp add: onMessage_def sc_inv_call sc_inv_response split: inbound.split option.split)

lemma sc_inv_binary: "sc_inv c \<Longrightarrow> sc_inv (binary_reply i r c)"
  by (auto simp: binary_reply_def sc_inv_call elim: sc_inv_same split: sum.split option.split)

lemma sc_inv_resume:
  assumes "sc_inv c"
  shows "sc_inv (resume_start l c)" "sc_inv (resume_attempt i l f c)" "sc_inv (resume_end i sink failure c)"
    "sc_inv (resume_done i c)"
proof -
  show "sc_inv (resume_start l c)"
    by (rule sc_inv_same [OF assms]) (auto simp: resume_start_def call_def split: option.split bool.split)
  show "sc_inv (resume_done i c)"
    by (rule sc_inv_cong [OF assms])
      (use assms in \<open>auto simp: resume_done_def resolveReady_def call_def sc_inv_def sockets_ok_def\<close>)
qed (use assms in \<open>simp_all add: resume_attempt_def resume_end_def sc_inv_request sc_inv_call sc_inv_release_lease
  split: option.split\<close>)

lemma sc_inv_step:
  assumes "sc_inv c" "sc_possible c e"
  shows "sc_inv (sc_step c e)"
proof (cases e)
  case (SockOpen i)
  with assms have "socket c = Some i"
    by (auto simp: sc_inv_def sockets_ok_def)
  with SockOpen assms show ?thesis by (auto intro!: sc_inv_onOpen sc_inv_set_sock)
next
  case (SockClosed i code)
  have "socket (set_sock i CLOSED c) = Some i \<Longrightarrow> dead (sock_states (set_sock i CLOSED c) ! i)"
    using assms by (simp add: set_sock_def sc_inv_def sockets_ok_def)
  with SockClosed assms show ?thesis by (simp add: sc_inv_onClose sc_inv_set_sock)
next
  case (SendFrame sink stream k data buffered t us)
  with assms show ?thesis by (simp add: sc_inv_sendFrame)
qed (use assms in \<open>simp_all add: sc_inv_setOffers sc_inv_reconnect sc_inv_release_lease sc_inv_claim
  claim_request_def sc_inv_request sc_inv_release sc_inv_close sc_inv_timer sc_inv_set_sock onError_event_def
  sc_inv_call sc_inv_message sc_inv_binary sc_inv_resume\<close>)

lemma sc_inv_new: "sc_inv (new_source_client ls)"
  by (simp add: sc_inv_def timers_ok_def frames_ok_def in_flight_def sockets_ok_def new_source_client_def)

interpretation source_client: guarded_machine "new_source_client ls" sc_possible sc_step sc_inv for ls
  by unfold_locales (auto intro: sc_inv_new sc_inv_step)

section \<open>Properties\<close>

text \<open>
  C8: In every state the client reaches, each stream has at most its window of frames
  unacknowledged, each of these has its own timer and every acknowledgement timer belongs to one of
  them, a socket that is connecting or open is the current one, a reconnect is scheduled only while
  there is no socket and can still be cancelled, and the next delay is between one and ten seconds.
\<close>

theorem source_client_invariant:
  assumes "run_allowed sc_possible sc_step (new_source_client ls) es"
    and c: "c = foldl sc_step (new_source_client ls) es"
  shows "in_flight fk k c \<le> window_size k \<and> distinct (map fst (pendingFrames c)) \<and>
    (\<forall>s f. (s, f) \<in> set (pendingFrames c) \<longrightarrow>
      (\<exists>sink. (pf_timer f, AckTimer s (pf_key f) sink) \<in> set (timers c))) \<and>
    (\<forall>n s key sink. (n, AckTimer s key sink) \<in> set (timers c) \<longrightarrow>
      (\<exists>f. (s, f) \<in> set (pendingFrames c) \<and> pf_timer f = n)) \<and>
    (\<forall>j < length (sock_states c). sock_states c ! j \<in> {CONNECTING, OPEN} \<longrightarrow> socket c = Some j) \<and>
    (\<forall>n. (n, ReconnectTimer) \<in> set (timers c) \<longrightarrow> socket c = None \<and> reconnectTimer c = Some n) \<and>
    1000 \<le> reconnectDelay c \<and> reconnectDelay c \<le> 10000"
proof -
  have inv: "sc_inv c" unfolding c by (rule source_client.inv_run [OF assms(1)])
  have "socket c = Some j" if "j < length (sock_states c)" "sock_states c ! j \<in> {CONNECTING, OPEN}" for j
    using inv that by (auto simp: sc_inv_def sockets_ok_def)
  with inv show ?thesis unfolding sc_inv_def frames_ok_def timers_ok_def by blast
qed

definition test_offer :: offer where
  "test_offer = \<lparr>offer_id = ''cam_a'', offer_device = ''camera-a'', offer_kind = camera, offer_usb = None\<rparr>"

definition test_run :: "sc_event list" where
  "test_run = [SetOffers [test_offer], SockOpen 0, SendFrame ''uvc'' ''cam_a'' mjpeg [1] 0 10 10]"

lemmas client_eval = new_source_client_def setOffers_def restart_def closeSocket_def clearFrames_eq
  sc_connect_def wait_ready_def rejectRequests_def call_def clear_timer_opt_def set_sock_def onOpen_def Let_def

lemma test_run_allowed: "run_allowed sc_possible sc_step (new_source_client []) test_run"
  by (simp add: test_run_def client_eval)

theorem source_client_invariant_witness:
  "in_flight (frame_key ''uvc'' ''cam_a'') mjpeg (foldl sc_step (new_source_client []) test_run) \<le> 2"
  using source_client_invariant [OF test_run_allowed refl, of "frame_key ''uvc'' ''cam_a''" mjpeg]
  by (simp add: window_size_def mjpegFramesInFlight_def del: sc_step.simps)

text \<open>
  When the acknowledgement timer of a frame fires, the frame is dropped. The first time the
  stream is refused for three seconds; the second time in a row the socket is replaced: the old one
  is closed, every pending request is rejected, no frame and no timer is left, and the leases are
  kept for the new connection to resume.
\<close>

theorem silent_receiver_restarts:
  assumes "sc_inv c" "(n, AckTimer s fk sink) \<in> set (timers c)" "shouldConnect c"
    and d: "d = sc_step c (TimerFires n t)"
  shows "(ackTimeouts c = 0 \<longrightarrow>
      map_of (pendingFrames d) s = None \<and> socket d = socket c \<and> ackTimeouts d = 1 \<and>
      (\<forall>x stream k data b us u. fk = frame_key x stream \<longrightarrow> u < t + 3000 \<longrightarrow>
        sendFrame x stream k data b u us d = (d, Refused))) \<and>
    (ackTimeouts c \<ge> 1 \<longrightarrow>
      socket d = Some (length (sock_states c)) \<and> sock_states d ! length (sock_states c) = CONNECTING \<and>
      (\<forall>j < length (sock_states c). dead (sock_states d ! j)) \<and> pendingFrames d = [] \<and> timers d = [] \<and>
      requests d = [] \<and> leases d = leases c \<and>
      settled d = settled c @ map (\<lambda>r. RejectedReq r ''Media source restarting'') (requests c))"
proof -
  let ?e = "drop_frame n s fk sink t c"
  have n: "map_of (timers c) n = Some (AckTimer s fk sink)"
    using assms(1,2) by (simp add: sc_inv_def timers_ok_def)
  have de: "d = (if ackTimeouts c \<ge> 1 then restart ?e else ?e)"
    using n assms(1,2) by (simp add: d timer_fires_def ackTimeout_eq Let_def)
  have e: "sock_states ?e = sock_states c" "leases ?e = leases c" "requests ?e = requests c"
    "settled ?e = settled c" "shouldConnect ?e = shouldConnect c"
    by (simp_all add: drop_frame_def call_def clear_timer_def)
  have "ackTimeouts c \<ge> 1 \<longrightarrow> socket d = Some (length (sock_states c)) \<and>
      sock_states d ! length (sock_states c) = CONNECTING \<and>
      (\<forall>j < length (sock_states c). dead (sock_states d ! j)) \<and> pendingFrames d = [] \<and> timers d = [] \<and>
      requests d = [] \<and> leases d = leases c \<and>
      settled d = settled c @ map (\<lambda>r. RejectedReq r ''Media source restarting'') (requests c)"
    using restart_fields [OF sc_inv_drop_frame [OF assms(1,2), of t]] assms(3) by (simp add: de e)
  moreover have "ackTimeouts c = 0 \<longrightarrow> d = ?e" by (simp add: de)
  moreover have "sendFrame x stream k data b u us ?e = (?e, Refused)"
    if "fk = frame_key x stream" "u < t + 3000" for x stream k data b us u
    using that by (auto simp: sendFrame_def Let_def drop_frame_def call_def clear_timer_def update_conv
        frameAckTimeout_def split: option.split)
  ultimately show ?thesis
    by (auto simp: drop_frame_def call_def clear_timer_def delete_conv simp del: One_nat_def)
qed

definition silent_client :: "nat \<Rightarrow> source_client" where
  "silent_client m = (new_source_client [])
    \<lparr>socket := Some 0, sock_states := [OPEN], requests := [''uvc''], shouldConnect := True, ackTimeouts := m,
     timers := [(1, AckTimer 1 ''k'' ''uvc'')], nextTimer := 2,
     pendingFrames := [(1, \<lparr>pf_key = ''k'', pf_kind = mjpeg, pf_timer = 1\<rparr>)]\<rparr>"

theorem silent_receiver_restarts_witness:
  "let d = sc_step (silent_client 1) (TimerFires 1 5000)
   in socket d = Some 1 \<and> settled d = [RejectedReq ''uvc'' ''Media source restarting'']"
proof -
  have "sc_inv (silent_client 1)"
    by (auto simp: silent_client_def new_source_client_def sc_inv_def timers_ok_def frames_ok_def sockets_ok_def
        in_flight_def window_size_def mjpegFramesInFlight_def pcmFramesInFlight_def)
  from silent_receiver_restarts [OF this _ _ refl, of 1 1 "''k''" "''uvc''" 5000] show ?thesis
    by (simp add: silent_client_def new_source_client_def Let_def del: sc_step.simps)
qed

text \<open>A request waits for an answer only while there is a socket.\<close>

definition answerable :: "source_client \<Rightarrow> bool" where
  "answerable c \<longleftrightarrow> (requests c \<noteq> [] \<longrightarrow> socket c \<noteq> None)"

lemma requests_connect [simp]: "requests (sc_connect c) = requests c"
  by (simp add: sc_connect_def call_def clear_timer_opt_def clear_timer_def split: option.split)

lemma requests_restart [simp]: "requests (restart c) = []"
  by (simp add: restart_def Let_def rejectRequests_def)

lemma socket_connect: "socket c \<noteq> None \<Longrightarrow> socket (sc_connect c) \<noteq> None"
  by (simp add: sc_connect_def)

lemma answerable_connect: "answerable c \<Longrightarrow> answerable (sc_connect c)"
  using socket_connect [of c] by (simp add: answerable_def)

lemma answerable_finish:
  "answerable c \<Longrightarrow> answerable (finishRequest sink e c)" "answerable c \<Longrightarrow> answerable (call k c)"
  "answerable c \<Longrightarrow> answerable (removeLease sink c)" "answerable c \<Longrightarrow> answerable (finishFrame s c)"
  "answerable c \<Longrightarrow> answerable (emitOwned c)" "answerable c \<Longrightarrow> answerable (saveLease l c)"
  "answerable c \<Longrightarrow> answerable (wait_ready c)"
  by (auto simp: answerable_def finishRequest_def js_delete_def call_def removeLease_def emitOwned_def
      finishFrame_def clear_timer_def saveLease_def wait_ready_def split: option.split)

lemma socket_kept:
  "socket (finishRequest sink e c) = socket c" "socket (call k c) = socket c" "socket (removeLease sink c) = socket c"
  "socket (finishFrame s c) = socket c" "socket (emitOwned c) = socket c" "socket (saveLease l c) = socket c"
  by (auto simp: finishRequest_def call_def removeLease_def emitOwned_def finishFrame_def clear_timer_def
      saveLease_def split: option.split)

lemma socket_response: "socket (onResponse m c) = socket c"
  by (cases m) (simp_all add: onResponse_def on_claimed_def on_error_message_def Let_def socket_kept
      split: list.split)

lemma answerable_request: "answerable c \<Longrightarrow> answerable (request sink m c)"
  by (auto simp: answerable_def request_def split: option.split)

lemma answerable_message: "answerable c \<Longrightarrow> answerable (onMessage i m c)"
  by (auto simp: onMessage_def answerable_finish answerable_def [of "onResponse r c" for r] socket_response
      split: inbound.split option.split)

lemma answerable_setOffers:
  "answerable c \<Longrightarrow> fs \<noteq> [] \<Longrightarrow> answerable (setOffers fs c)"
  by (auto simp: setOffers_def Let_def intro!: answerable_finish) (auto simp: answerable_def)

lemma answerable_close: "answerable c \<Longrightarrow> answerable (onClose i code c)"
  by (auto simp: onClose_def Let_def answerable_def call_def set_timeout_def emitOwned_def rejectRequests_def)

lemma answerable_timer: "answerable c \<Longrightarrow> answerable (timer_fires n t c)"
proof (cases "map_of (timers c) n")
  case (Some k)
  moreover have "answerable c \<Longrightarrow> answerable (clear_timer n c)" by (simp add: answerable_def clear_timer_def)
  moreover have "answerable d \<Longrightarrow> answerable (ackTimeout s fk sink t d)" for d s fk sink
    by (auto simp: ackTimeout_def Let_def) (auto simp: answerable_def call_def)
  ultimately show "answerable c \<Longrightarrow> ?thesis"
    by (cases k) (simp_all add: timer_fires_def answerable_connect)
qed (simp add: timer_fires_def)

lemma answerable_same:
  "answerable c \<Longrightarrow> requests d = requests c \<Longrightarrow> socket d = socket c \<Longrightarrow> answerable d"
  by (simp add: answerable_def)

lemma answerable_sendFrame:
  "answerable c \<Longrightarrow> answerable (fst (sendFrame sink stream k data b t us c))"
  by (erule answerable_same) (simp_all add: sendFrame_def Let_def set_timeout_def split: option.split sum.split)

lemma answerable_step:
  assumes "answerable c" "e \<noteq> SetOffers []"
  shows "answerable (sc_step c e)"
proof (cases e)
  case Reconnect
  have "answerable (c\<lparr>shouldConnect := b, reconnectDelay := n\<rparr>)" "answerable (c\<lparr>shouldConnect := b\<rparr>)" for b n
    using assms(1) by (auto intro: answerable_same)
  with assms Reconnect show ?thesis by (auto simp: reconnect_def Let_def intro!: answerable_connect)
next
  case (Adopt sink f token)
  with assms show ?thesis by (auto simp: adopt_def emitOwned_def call_def saveLease_def Let_def elim: answerable_same)
next
  case CloseClient
  then show ?thesis by (simp add: sc_close_def answerable_def call_def rejectRequests_def)
next
  case (SockClosed i code)
  have "answerable (set_sock i CLOSED c)" using assms by (auto simp: set_sock_def elim: answerable_same)
  with SockClosed show ?thesis by (simp add: answerable_close)
next
  case (ResumeStart l)
  with assms show ?thesis
    by simp (erule answerable_same; auto simp: resume_start_def call_def split: option.split bool.split)
next
  case (BinaryReply i r)
  with assms show ?thesis
    by simp (erule answerable_same; auto simp: binary_reply_def call_def split: sum.split option.split)
next
  case (ResumeEnd i sink failure)
  with assms show ?thesis by (auto simp: resume_end_def answerable_finish split: option.split)
next
  case (ResumeAttempt i l f)
  with assms show ?thesis by (simp add: resume_attempt_def answerable_request)
next
  case (SetOffers fs)
  with assms show ?thesis by (simp add: answerable_setOffers)
next
  case (Claim sink f)
  with assms show ?thesis by (simp add: claim_def answerable_setOffers answerable_finish)
qed (use assms in \<open>auto simp: answerable_message answerable_sendFrame answerable_timer answerable_finish
  claim_request_def answerable_request release_def onError_event_def set_sock_def onOpen_def
  resume_done_def resolveReady_def call_def elim: answerable_same\<close>)

text \<open>Runs in which the page never withdraws all its offers.\<close>

definition keeps_offers :: "source_client \<Rightarrow> sc_event \<Rightarrow> bool" where
  "keeps_offers c e \<longleftrightarrow> e \<noteq> SetOffers []"

interpretation requests: guarded_machine "new_source_client ls" keeps_offers sc_step answerable for ls
proof unfold_locales
  show "answerable (new_source_client ls)" by (simp add: answerable_def new_source_client_def)
qed (simp add: keeps_offers_def answerable_step)

text \<open>
  As long as the page never sets an empty list of offers, a request that is pending has a socket
  to be answered on: closing, restarting and losing the socket reject every request.
\<close>

theorem pending_requests_have_socket:
  assumes "run_allowed keeps_offers sc_step (new_source_client ls) es"
  shows "socket (foldl sc_step (new_source_client ls) es) = None \<longrightarrow>
    requests (foldl sc_step (new_source_client ls) es) = []"
  using requests.inv_run [OF assms] by (auto simp: answerable_def)

theorem pending_requests_have_socket_witness:
  "requests (foldl sc_step (new_source_client [])
    [SetOffers [test_offer], SockOpen 0, ClaimRequest ''uvc'' test_offer, SockClosed 0 1006]) = []"
  using pending_requests_have_socket [of "[]" "[SetOffers [test_offer], SockOpen 0, ClaimRequest ''uvc'' test_offer, SockClosed 0 1006]"]
  by (simp add: keeps_offers_def client_eval claim_request_def request_def is_open_def onClose_def rejectReady_def
      emitOwned_def set_timeout_def)

text \<open>
  Setting an empty list of offers while no lease is stored closes the socket without rejecting
  what waits: a claim and a caller that awaits the connection are left pending with nothing to
  answer them.
\<close>

theorem empty_offers_strand_requests:
  "let c = foldl sc_step (new_source_client [])
     [SetOffers [test_offer], SockOpen 0, ClaimRequest ''uvc'' test_offer, SetOffers []]
   in socket c = None \<and> requests c = [''uvc''] \<and> readyWaiters c = 1 \<and> settled c = [] \<and> timers c = []"
  by (simp add: client_eval claim_request_def request_def is_open_def)

text \<open>
  Leases written to the session storage are read back after a reload in the same order, except
  those of speakers, which are lost.
\<close>

theorem stored_leases_reload:
  "readLeases (Some (map write_lease ls)) = filter (\<lambda>l. l_kind l \<noteq> speaker) ls"
proof (induction ls)
  case (Cons l ls)
  then show ?case by (cases "l_kind l") (simp_all add: readLeases_def write_lease_def)
qed (simp add: readLeases_def)

end
