(* ===== verification/Sources_Provider.thy ===== *)
theory Sources_Provider
  imports Source_Client Async_System
begin

text \<open>
  The provider that joins the media slots with the browser's devices, \<^verbatim>\<open>SourcesProvider\<close> of
  \<^verbatim>\<open>web/src/pages/desktop/menu/devices/provider.tsx\<close>: which captures run, for which slots, when they are
  stopped and restarted, sharing, taking over and releasing a slot, and the socket that brings
  the snapshot. The client of \<^verbatim>\<open>Source_Client\<close>, the captures of \<^verbatim>\<open>Camera_Capture\<close> and \<^verbatim>\<open>Microphone_Capture\<close>,
  the relay of \<^verbatim>\<open>Usb_Relay\<close> and the browser answer requests and call back: their answers are
  arguments, and what the provider asks of a capture is kept in the state. A capture object is a
  number.
\<close>

section \<open>Names\<close>

definition demandKey :: "demand \<Rightarrow> string" where
  "demandKey d =
    (let n = (\<lambda>v. nat_string (case v of Some x \<Rightarrow> x | None \<Rightarrow> 0))
     in n (d_width d) @ ''x'' @ n (d_height d) @ ''@'' @ n (d_fps d))"

definition deviceKey :: "string \<Rightarrow> string \<Rightarrow> string" where
  "deviceKey owner sink = ''nanokvm-media-device:'' @ owner @ '':'' @ sink"

definition digit36 :: "nat \<Rightarrow> char" where
  "digit36 n = (if n < 10 then char_of (48 + n) else char_of (87 + n))"

function base36 :: "nat \<Rightarrow> string" where
  "base36 n = (if n < 36 then [digit36 n] else base36 (n div 36) @ [digit36 (n mod 36)])"
  by auto
termination by (relation "measure id") auto

declare base36.simps [simp del]

fun fnv :: "32 word \<Rightarrow> string \<Rightarrow> 32 word" where
  "fnv hash [] = hash"
| "fnv hash (c # cs) = fnv ((hash XOR of_nat (of_char c)) * 16777619) cs"

definition streamID :: "source_kind \<Rightarrow> string \<Rightarrow> nat \<Rightarrow> string" where
  "streamID k deviceID index =
    (if k = camera then ''cam'' else ''mic'') @ ''_'' @ base36 (unat (fnv 2166136261 deviceID)) @ ''_'' @ nat_string index"

definition withOffers :: "(source_kind \<Rightarrow> offer list) \<Rightarrow> source_kind \<Rightarrow> offer list \<Rightarrow> offer list" where
  "withOffers devices k available =
    concat (map (\<lambda>candidate. if candidate = k then available else devices candidate)
      [camera, microphone, speaker, usb_device])"

definition mediaError :: "failure \<Rightarrow> (string \<Rightarrow> string) \<Rightarrow> string" where
  "mediaError error tr =
    (case error of
       Capture_unsupported reason \<Rightarrow>
         if reason = ''insecure'' then tr ''devices.permission.insecure'' else tr (''devices.capture.'' @ reason)
     | Dom_exception n m \<Rightarrow>
         if n = ''NotAllowedError'' then ''Permission denied''
         else if n = ''NotFoundError'' then ''Input device not found'' else m
     | _ \<Rightarrow> (case failure_text error of Some m \<Rightarrow> m | None \<Rightarrow> ''Media operation failed''))"

section \<open>State\<close>

record running_capture =
  r_capture :: nat
  r_device :: string
  r_stream :: string
  r_kind :: source_kind
  r_demand :: string

text \<open>
  \<open>told_muted\<close> lists the calls of \<^verbatim>\<open>setMuted\<close>.
  \<open>stops\<close> lists the capture objects that were told to stop. The timers of \<open>stopTimers\<close> are the ones
  the browser still has in \<open>grace\<close>. \<open>effect\<close> counts the runs of the effect that reconciles: a run is
  obsolete when it is not the last. \<open>selections\<close> and \<open>sourceId\<close> are what the client answers.
\<close>

record provider =
  view :: snapshot
  sourceConnection :: connection
  devices :: "source_kind \<Rightarrow> offer list"
  p_owned :: "string list"
  active :: "string list"
  busy :: "string list"
  muted :: "string list"
  errors :: "(string \<times> string) list"
  refusals :: "(string \<times> json) list"
  revoked :: "(string \<times> string) list"
  captures :: "(string \<times> running_capture) list"
  stoppedByUser :: "string list"
  stopTimers :: "(string \<times> nat) list"
  demanded :: "string list"
  dropping :: nat
  told_muted :: "(nat \<times> bool) list"
  usbRelay :: "nat option"
  selections :: "lease list"
  p_sourceId :: "string option"
  effect :: nat
  next_capture :: nat
  stops :: "nat list"
  next_grace :: nat
  grace :: "(nat \<times> string) list"
  saved :: "(string \<times> string) list"
  adopted :: "(string \<times> string) list"
  forgotten :: "string list"
  is_admin :: bool
  username :: string
  tr :: "string \<Rightarrow> string"

definition speakerOffer :: offer where
  "speakerOffer = \<lparr>offer_id = ''spk_browser'', offer_device = ''spk_browser'', offer_kind = speaker, offer_usb = None\<rparr>"

definition new_provider :: "bool \<Rightarrow> string \<Rightarrow> (string \<Rightarrow> string) \<Rightarrow> provider" where
  "new_provider admin user translation =
    \<lparr>view = emptySnapshot, sourceConnection = Idle,
     devices = (\<lambda>k. if k = speaker then [speakerOffer] else []), p_owned = [], active = [], busy = [], muted = [],
     errors = [], refusals = [], revoked = [], captures = [], stoppedByUser = [], stopTimers = [], demanded = [],
     dropping = 0, told_muted = [], usbRelay = None, selections = [], p_sourceId = None, effect = 0, next_capture = 0, stops = [], next_grace = 0,
     grace = [], saved = [], adopted = [], forgotten = [], is_admin = admin, username = user, tr = translation\<rparr>"

definition setError :: "string \<Rightarrow> string \<Rightarrow> provider \<Rightarrow> provider" where
  "setError sink message s = s\<lparr>errors := AList.update sink message (errors s)\<rparr>"

definition clearError :: "string \<Rightarrow> provider \<Rightarrow> provider" where
  "clearError sink s = s\<lparr>errors := AList.delete sink (errors s)\<rparr>"

definition clearAttempt :: "string \<Rightarrow> provider \<Rightarrow> provider" where
  "clearAttempt sink s =
    s\<lparr>refusals := AList.delete sink (refusals s), revoked := AList.delete sink (revoked s)\<rparr>"

definition clear_grace :: "string \<Rightarrow> provider \<Rightarrow> provider" where
  "clear_grace sink s =
    s\<lparr>grace := (case map_of (stopTimers s) sink of
        None \<Rightarrow> grace s | Some timer \<Rightarrow> filter (\<lambda>(n, _). n \<noteq> timer) (grace s)),
      stopTimers := AList.delete sink (stopTimers s)\<rparr>"

definition closeRelay :: "provider \<Rightarrow> provider" where
  "closeRelay s =
    s\<lparr>usbRelay := None, devices := (devices s)(usb_device := []), active := js_delete ''ffs.hybrid'' (active s)\<rparr>"

section \<open>Programs\<close>

datatype media_request =
  Start_capture nat source_kind string demand bool
| Stop_capture nat
| Get_user_media source_kind
| Enumerate
| Set_offers "offer list"
| Claim_slot string offer
| Release_slot string
| Take_over string string string
| Release_on_server string
| Disconnect_all
| Select_usb
| Close_usb nat
| Set_slots "source_slot list"

datatype media_answer =
  Done
| Devices "(source_kind \<times> string \<times> string) list"
| Response int string "json option"
| Relay nat offer
| Failed_media failure

type_synonym 'a media_program = "(provider, media_request, media_answer, 'a) async"

definition asking :: "media_request \<Rightarrow> media_answer media_program" where
  "asking q = Await q (\<lambda>w. case w of Failed_media e \<Rightarrow> Throw e | _ \<Rightarrow> Return w)"

definition take_capture :: "string \<Rightarrow> provider \<Rightarrow> provider" where
  "take_capture sink s =
    (case map_of (captures s) sink of
       None \<Rightarrow> s
     | Some r \<Rightarrow> s\<lparr>captures := AList.delete sink (captures s), stops := stops s @ [r_capture r]\<rparr>)"

definition not_active :: "string \<Rightarrow> provider \<Rightarrow> provider" where
  "not_active sink s =
    (if map_of (captures s) sink \<noteq> None then s else s\<lparr>active := js_delete sink (active s)\<rparr>)"

definition stopCapture :: "string \<Rightarrow> unit media_program" where
  "stopCapture sink = Modify (clear_grace sink) (Get (\<lambda>s.
    case map_of (captures s) sink of
      None \<Rightarrow> Return ()
    | Some r \<Rightarrow> Modify (take_capture sink)
        (and_then (asking (Stop_capture (r_capture r))) (\<lambda>_. act (not_active sink)))))"

definition register :: "source_sink \<Rightarrow> offer \<Rightarrow> provider \<Rightarrow> provider" where
  "register sink f s =
    s\<lparr>captures := AList.update (sid sink) \<lparr>r_capture = next_capture s, r_device = offer_device f,
        r_stream = offer_id f, r_kind = source_sink.kind sink, r_demand = demandKey (demand sink)\<rparr> (captures s),
      next_capture := Suc (next_capture s)\<rparr>"

definition still_registered :: "string \<Rightarrow> nat \<Rightarrow> provider \<Rightarrow> bool" where
  "still_registered sink c s \<longleftrightarrow> map_option r_capture (map_of (captures s) sink) = Some c"

text \<open>\<open>ds\<close> and \<open>ms\<close> are the devices and the muted slots of the rendering the function was made in.\<close>

definition startCapture ::
  "(source_kind \<Rightarrow> offer list) \<Rightarrow> string list \<Rightarrow> source_sink \<Rightarrow> lease \<Rightarrow> unit media_program" where
  "startCapture ds ms sink l = Get (\<lambda>s.
    if map_of (captures s) (sid sink) \<noteq> None then Return ()
    else case find (\<lambda>f. offer_device f = l_device l) (ds (source_sink.kind sink)) of
      None \<Rightarrow> act (setError (sid sink) ''Selected device is unavailable'')
    | Some f \<Rightarrow>
        let c = next_capture s
        in Modify (clearError (sid sink)) (Modify (register sink f) (catching
          (and_then (asking (Start_capture c (source_sink.kind sink) (offer_device f) (demand sink) (sid sink \<in> set ms))) (\<lambda>_.
            act (\<lambda>s. if still_registered (sid sink) c s then s\<lparr>active := js_add (sid sink) (active s)\<rparr> else s)))
          (\<lambda>e. Get (\<lambda>s. if \<not> still_registered (sid sink) c s then Return ()
            else and_then (stopCapture (sid sink)) (\<lambda>_.
              act (\<lambda>s. setError (sid sink) (mediaError e (tr s)) s)))))))"

text \<open>What a running capture does with a frame: it goes to \<^verbatim>\<open>client.sendFrame\<close> while the host reads the slot.\<close>

definition frame_passes :: "string \<Rightarrow> provider \<Rightarrow> bool" where
  "frame_passes sink s \<longleftrightarrow> sink \<in> set (demanded s)"

section \<open>Reconciling\<close>

type_synonym media_system = "(provider, media_request, media_answer) system"

definition lease_for :: "string \<Rightarrow> provider \<Rightarrow> lease option" where
  "lease_for sink s = map_of (rev (map (\<lambda>l. (l_sink l, l)) (selections s))) sink"

definition canRun :: "source_sink \<Rightarrow> provider \<Rightarrow> bool" where
  "canRun sink s \<longleftrightarrow> sourceConnection s = Connected \<and> sid sink \<notin> set (stoppedByUser s) \<and>
    sid sink \<in> set (p_owned s) \<and>
    (case (lease_for (sid sink) s, bnd sink) of
       (Some l, Some b) \<Rightarrow> Some (b_source_id b) = p_sourceId s \<and> b_stream_id b = l_stream l \<and>
         (streaming (demand sink) \<or> source_sink.kind sink = speaker) \<and> b_state b \<noteq> orphaned \<and> b_state b \<noteq> suspended
     | _ \<Rightarrow> False)"

definition note_demand :: "source_sink \<Rightarrow> provider \<Rightarrow> provider" where
  "note_demand sink s =
    s\<lparr>demanded := (if streaming (demand sink) then js_add (sid sink) (demanded s) else js_delete (sid sink) (demanded s))\<rparr>"

definition restart_capture ::
  "nat \<Rightarrow> (source_kind \<Rightarrow> offer list) \<Rightarrow> string list \<Rightarrow> source_sink \<Rightarrow> lease \<Rightarrow> unit media_program" where
  "restart_capture n ds ms sink l = and_then (stopCapture (sid sink)) (\<lambda>_.
    Get (\<lambda>s. if effect s = n then startCapture ds ms sink l else Return ()))"

definition start_grace :: "string \<Rightarrow> provider \<Rightarrow> provider" where
  "start_grace sink s =
    s\<lparr>stopTimers := AList.update sink (next_grace s) (stopTimers s), grace := grace s @ [(next_grace s, sink)],
      next_grace := Suc (next_grace s)\<rparr>"

definition reconcile_sink :: "source_sink \<Rightarrow> media_system \<Rightarrow> media_system" where
  "reconcile_sink sink x =
    (let may = canRun sink (now x); x = x\<lparr>now := note_demand sink (now x)\<rparr>; s = now x
     in if may then
          let x = x\<lparr>now := clear_grace (sid sink) s\<rparr>; l = the (lease_for (sid sink) s)
          in case map_of (captures s) (sid sink) of
               Some r \<Rightarrow> if r_demand r \<noteq> demandKey (demand sink) then begin_job (restart_capture (effect s) (devices s) (muted s) sink l) x
                         else begin_job (startCapture (devices s) (muted s) sink l) x
             | None \<Rightarrow> begin_job (startCapture (devices s) (muted s) sink l) x
        else if map_of (captures s) (sid sink) \<noteq> None then
          if sid sink \<in> set (stoppedByUser s) \<or> sourceConnection s \<noteq> Connected \<or>
             sid sink \<notin> set (p_owned s) \<or> bnd sink = None
          then begin_job (stopCapture (sid sink)) x
          else if map_of (stopTimers s) (sid sink) = None then x\<lparr>now := start_grace (sid sink) s\<rparr>
          else x
        else x)"

definition stop_vanished :: "media_system \<Rightarrow> media_system" where
  "stop_vanished x =
    fold (\<lambda>i. begin_job (stopCapture i))
      (filter (\<lambda>i. i \<notin> set (map sid (sinks (view (now x))))) (map fst (captures (now x)))) x"

definition reconcile :: "media_system \<Rightarrow> media_system" where
  "reconcile x =
    (let x = x\<lparr>now := (now x)\<lparr>effect := Suc (effect (now x))\<rparr>\<rparr>;
         ks = sinks (view (now x));
         x = stop_vanished (fold reconcile_sink ks x)
     in x\<lparr>now := (now x)\<lparr>demanded := filter (\<lambda>i. i \<in> set (map sid ks)) (demanded (now x))\<rparr>\<rparr>)"

section \<open>What the user asks for\<close>

definition set_busy :: "bool \<Rightarrow> string \<Rightarrow> provider \<Rightarrow> provider" where
  "set_busy b sink s = s\<lparr>busy := (if b then js_add sink (busy s) else js_delete sink (busy s))\<rparr>"

definition found_offers :: "source_kind \<Rightarrow> (source_kind \<times> string \<times> string) list \<Rightarrow> offer list" where
  "found_offers k ds =
    map (\<lambda>(i, d). \<lparr>offer_id = streamID k d i, offer_device = d, offer_kind = k, offer_usb = None\<rparr>)
      (enumerate 0 (map (fst \<circ> snd) (filter (\<lambda>d. fst d = k) ds)))"

definition discover :: "(source_kind \<Rightarrow> string) \<Rightarrow> source_kind \<Rightarrow> bool \<Rightarrow> offer list media_program" where
  "discover captureSupport k requestPermission =
    (if k = usb_device then Throw (Js_error ''Use the USB device picker'' None)
     else if captureSupport k \<noteq> [] then Throw (Capture_unsupported (captureSupport k))
     else if k = speaker then Return [speakerOffer]
     else and_then (if requestPermission then asking (Get_user_media k) else Return Done) (\<lambda>_.
       and_then (asking Enumerate) (\<lambda>w.
         let found = found_offers k (case w of Devices ds \<Rightarrow> ds | _ \<Rightarrow> [])
         in if found = [] then Throw (Js_error (''No '' @ (if k = camera then ''camera'' else ''microphone'') @ '' input found'') None)
            else Modify (\<lambda>s. s\<lparr>devices := (devices s)(k := found)\<rparr>) (Return found))))"

text \<open>\<^verbatim>\<open>a || b\<close> of three lookups; \<open>None\<close> when nothing is available.\<close>

definition pickOffer :: "offer list \<Rightarrow> string \<Rightarrow> string option \<Rightarrow> provider \<Rightarrow> offer option" where
  "pickOffer available sink selected s =
    (case find (\<lambda>f. Some (offer_device f) = selected) available of
       Some f \<Rightarrow> Some f
     | None \<Rightarrow>
         (case find (\<lambda>f. Some (offer_device f) = map_of (saved s) (deviceKey (username s) sink)) available of
            Some f \<Rightarrow> Some f
          | None \<Rightarrow> (case available of [] \<Rightarrow> None | f # _ \<Rightarrow> Some f)))"

definition available_offers :: "(source_kind \<Rightarrow> string) \<Rightarrow> source_kind \<Rightarrow> offer list media_program" where
  "available_offers captureSupport k = Get (\<lambda>s.
    if devices s k = [] then discover captureSupport k (k \<noteq> speaker) else Return (devices s k))"

definition remember :: "string \<Rightarrow> offer \<Rightarrow> provider \<Rightarrow> provider" where
  "remember sink f s = s\<lparr>saved := AList.update (deviceKey (username s) sink) (offer_device f) (saved s)\<rparr>"

definition begin_claim :: "string \<Rightarrow> provider \<Rightarrow> provider" where
  "begin_claim sink s = clearError sink (set_busy True sink (s\<lparr>stoppedByUser := js_delete sink (stoppedByUser s)\<rparr>))"

definition report_failure :: "string \<Rightarrow> failure \<Rightarrow> unit media_program" where
  "report_failure sink e = act (\<lambda>s. setError sink (mediaError e (tr s)) s)"

definition share_usb :: "string \<Rightarrow> unit media_program" where
  "share_usb sink = Get (\<lambda>s.
    if \<not> is_admin s then Throw (Js_error ''Administrator access is required'' None)
    else and_then (case usbRelay s of Some r \<Rightarrow> asking (Close_usb r) | None \<Rightarrow> Return Done) (\<lambda>_.
      and_then (asking Select_usb) (\<lambda>w. case w of
        Relay r f \<Rightarrow>
          Modify (\<lambda>s. s\<lparr>usbRelay := Some r, devices := (devices s)(usb_device := [f])\<rparr>)
          (and_then (asking (Set_offers (withOffers (devices s) usb_device [f]))) (\<lambda>_.
            and_then (asking (Claim_slot sink f)) (\<lambda>_.
              act (\<lambda>s. s\<lparr>active := js_add sink (active s)\<rparr>))))
      | _ \<Rightarrow> Return ())))"

definition share_media :: "(source_kind \<Rightarrow> string) \<Rightarrow> source_sink \<Rightarrow> string option \<Rightarrow> unit media_program" where
  "share_media captureSupport sink selected = Get (\<lambda>s0.
    and_then (available_offers captureSupport (source_sink.kind sink)) (\<lambda>available. Get (\<lambda>s.
      case pickOffer available (sid sink) selected s of
        None \<Rightarrow> Throw (Js_error ''offer is undefined'' None)  \<comment> \<open>not reached: offers are found or it has thrown\<close>
      | Some f \<Rightarrow>
          and_then (asking (Set_offers (withOffers (devices s0) (source_sink.kind sink) available))) (\<lambda>_.
            and_then (asking (Claim_slot (sid sink) f)) (\<lambda>_. act (remember (sid sink) f))))))"

definition share :: "(source_kind \<Rightarrow> string) \<Rightarrow> source_sink \<Rightarrow> string option \<Rightarrow> unit media_program" where
  "share captureSupport sink selected =
    Modify (\<lambda>s. clearAttempt (sid sink) (begin_claim (sid sink) s))
      (finally_do
        (catching (if source_sink.kind sink = usb_device then share_usb (sid sink) else share_media captureSupport sink selected)
          (report_failure (sid sink)))
        (set_busy False (sid sink)))"

definition takeover_body :: "(source_kind \<Rightarrow> string) \<Rightarrow> source_sink \<Rightarrow> string option \<Rightarrow> unit media_program" where
  "takeover_body captureSupport sink selected = Get (\<lambda>s0.
    and_then (available_offers captureSupport (source_sink.kind sink)) (\<lambda>available. Get (\<lambda>s.
      case pickOffer available (sid sink) selected s of
        None \<Rightarrow> Throw (Js_error ''offer is undefined'' None)  \<comment> \<open>not reached: offers are found or it has thrown\<close>
      | Some f \<Rightarrow>
          and_then (asking (Set_offers (withOffers (devices s0) (source_sink.kind sink) available))) (\<lambda>_. Get (\<lambda>s.
            if p_sourceId s = None \<or> p_sourceId s = Some [] then Throw (Js_error ''Media source disconnected'' None)
            else and_then (asking (Take_over (sid sink) (the (p_sourceId s)) (offer_id f))) (\<lambda>w. case w of
              Response code msg data \<Rightarrow>
                if code = -3 \<and> truthy data then
                  act (\<lambda>s. s\<lparr>refusals := AList.update (sid sink) (the data) (refusals s)\<rparr>)
                else if code \<noteq> 0 then Throw (Js_error msg None)
                else and_then (member ''token'' data) (\<lambda>token.
                  act (\<lambda>s. clearAttempt (sid sink) (remember (sid sink) f
                    (s\<lparr>adopted := adopted s @ [(sid sink, offer_id f)]\<rparr>))))
            | _ \<Rightarrow> Return ()))))))"

definition takeover_slot :: "(source_kind \<Rightarrow> string) \<Rightarrow> source_sink \<Rightarrow> string option \<Rightarrow> unit media_program" where
  "takeover_slot captureSupport sink selected =
    Modify (begin_claim (sid sink))
      (finally_do (catching (takeover_body captureSupport sink selected) (report_failure (sid sink)))
        (set_busy False (sid sink)))"

definition begin_release :: "string \<Rightarrow> provider \<Rightarrow> provider" where
  "begin_release sink s =
    clearAttempt sink (clearError sink (set_busy True sink (s\<lparr>stoppedByUser := js_add sink (stoppedByUser s)\<rparr>)))"

definition release_slot_body :: "string \<Rightarrow> bool \<Rightarrow> unit media_program" where
  "release_slot_body sink online =
    (if online then ignoring (asking (Release_slot sink))
     else and_then (asking (Release_on_server sink)) (\<lambda>w. case w of
       Response code msg data \<Rightarrow>
         if code \<noteq> 0 then Throw (Js_error msg None)
         else act (\<lambda>s. s\<lparr>forgotten := forgotten s @ [sink]\<rparr>)
     | _ \<Rightarrow> Return ()))"

definition release_slot :: "string \<Rightarrow> unit media_program" where
  "release_slot sink = Get (\<lambda>s0. Modify (begin_release sink)
    (and_then (stopCapture sink) (\<lambda>_.
      Modify (\<lambda>s. if sink = ''ffs.hybrid'' then closeRelay s else s)
      (finally_do
        (catching (release_slot_body sink (sourceConnection s0 = Connected \<and> sink \<in> set (p_owned s0))) (report_failure sink))
        (set_busy False sink)))))"

text \<open>
  The loop over \<^verbatim>\<open>captures.current.keys()\<close> waits in every turn, and the iterator reaches the captures that
  are added meanwhile; what it has passed is deleted. So each turn takes the first that is left,
  and the loop ends when none is: \<open>dropping\<close> counts the loops that have a turn to take.
\<close>

definition drop_turn :: "unit media_program" where
  "drop_turn = Get (\<lambda>s. case captures s of
     [] \<Rightarrow> act closeRelay
   | (i, r) # _ \<Rightarrow> and_then (stopCapture i) (\<lambda>_. act (\<lambda>s. s\<lparr>dropping := Suc (dropping s)\<rparr>)))"

definition disconnectAll :: "unit media_program" where
  "disconnectAll = and_then (asking Disconnect_all) (\<lambda>w. case w of
    Response code msg data \<Rightarrow> if code \<noteq> 0 then Throw (Js_error msg None) else drop_turn
  | _ \<Rightarrow> Return ())"

definition next_drop :: "media_system \<Rightarrow> media_system" where
  "next_drop x =
    (if dropping (now x) = 0 then x
     else begin_job drop_turn (x\<lparr>now := (now x)\<lparr>dropping := dropping (now x) - 1\<rparr>\<rparr>))"

text \<open>The browser takes the forwarded USB device away.\<close>

definition relay_lost :: "unit media_program" where
  "relay_lost = Modify closeRelay (catching (ignoring (asking (Release_slot ''ffs.hybrid'')))
    (\<lambda>_. act (\<lambda>s. s\<lparr>forgotten := forgotten s @ [''ffs.hybrid'']\<rparr>)))"

definition setSlots :: "source_slot list \<Rightarrow> unit media_program" where
  "setSlots slots = and_then (asking (Set_slots slots)) (\<lambda>w. case w of
     Response code msg data \<Rightarrow> if code \<noteq> 0 then Throw (Js_error msg None) else Return ()
   | _ \<Rightarrow> Return ())"

section \<open>Steps\<close>

datatype media_event =
  Snapshot_is snapshot | Connection_is connection | Owned_are "string list"
| Client_is "lease list" "string option" | Client_error string string | Client_refused string json
| Client_revoked string string | Reconcile | Share source_sink "string option"
| Take source_sink "string option" | Give_up string | Drop_all | Drop_turn | Grace_over nat | Mute string bool
| Choose string string | Muted_changed | Answer nat media_answer | Relay_lost | Save_slots "source_slot list" | Page_hidden

definition on_client_error :: "string \<Rightarrow> string \<Rightarrow> provider \<Rightarrow> provider" where
  "on_client_error sink message s =
    (let s = setError sink message s in if sink = ''ffs.hybrid'' then closeRelay s else s)"

definition on_refused :: "string \<Rightarrow> json \<Rightarrow> provider \<Rightarrow> provider" where
  "on_refused sink refusal s = s\<lparr>refusals := AList.update sink refusal (refusals s)\<rparr>"

definition on_revoked :: "string \<Rightarrow> string \<Rightarrow> media_system \<Rightarrow> media_system" where
  "on_revoked sink reason x =
    (let x = begin_job (stopCapture sink) (x\<lparr>now := (now x)\<lparr>revoked := AList.update sink reason (revoked (now x))\<rparr>\<rparr>)
     in if sink = ''ffs.hybrid'' then x\<lparr>now := closeRelay (now x)\<rparr> else x)"

definition grace_over :: "nat \<Rightarrow> media_system \<Rightarrow> media_system" where
  "grace_over n x =
    (case map_of (grace (now x)) n of
       None \<Rightarrow> x
     | Some sink \<Rightarrow> begin_job (stopCapture sink) (x\<lparr>now := (now x)\<lparr>grace := filter (\<lambda>(m, _). m \<noteq> n) (grace (now x))\<rparr>\<rparr>))"

definition setSinkMuted :: "string \<Rightarrow> bool \<Rightarrow> provider \<Rightarrow> provider" where
  "setSinkMuted sink b s = s\<lparr>muted := (if b then js_add sink (muted s) else js_delete sink (muted s))\<rparr>"

definition mute_captures :: "provider \<Rightarrow> provider" where
  "mute_captures s =
    s\<lparr>told_muted := told_muted s @ map (\<lambda>(sink, r). (r_capture r, sink \<in> set (muted s)))
        (filter (\<lambda>(_, r). r_kind r = microphone \<or> r_kind r = speaker) (captures s))\<rparr>"

definition choose_device :: "string \<Rightarrow> string \<Rightarrow> provider \<Rightarrow> provider" where
  "choose_device sink device s = s\<lparr>saved := AList.update (deviceKey (username s) sink) device (saved s)\<rparr>"

definition leave_page :: "media_system \<Rightarrow> media_system" where
  "leave_page x = fold (\<lambda>i. begin_job (stopCapture i)) (map fst (captures (now x))) x"

fun media_step :: "(source_kind \<Rightarrow> string) \<Rightarrow> media_system \<Rightarrow> media_event \<Rightarrow> media_system" where
  "media_step cs x (Snapshot_is v) = x\<lparr>now := (now x)\<lparr>view := v\<rparr>\<rparr>"
| "media_step cs x (Connection_is c) = x\<lparr>now := (now x)\<lparr>sourceConnection := c\<rparr>\<rparr>"
| "media_step cs x (Owned_are os) = x\<lparr>now := (now x)\<lparr>p_owned := os\<rparr>\<rparr>"
| "media_step cs x (Client_is ls i) = x\<lparr>now := (now x)\<lparr>selections := ls, p_sourceId := i\<rparr>\<rparr>"
| "media_step cs x (Client_error sink m) = x\<lparr>now := on_client_error sink m (now x)\<rparr>"
| "media_step cs x (Client_refused sink r) = x\<lparr>now := on_refused sink r (now x)\<rparr>"
| "media_step cs x (Client_revoked sink r) = on_revoked sink r x"
| "media_step cs x Reconcile = reconcile x"
| "media_step cs x (Share sink d) = begin_job (share cs sink d) x"
| "media_step cs x (Take sink d) = begin_job (takeover_slot cs sink d) x"
| "media_step cs x (Give_up sink) = begin_job (release_slot sink) x"
| "media_step cs x Drop_all = begin_job disconnectAll x"
| "media_step cs x Drop_turn = next_drop x"
| "media_step cs x (Grace_over n) = grace_over n x"
| "media_step cs x (Mute sink b) = x\<lparr>now := setSinkMuted sink b (now x)\<rparr>"
| "media_step cs x Muted_changed = x\<lparr>now := mute_captures (now x)\<rparr>"
| "media_step cs x (Choose sink d) = x\<lparr>now := choose_device sink d (now x)\<rparr>"
| "media_step cs x (Answer i w) = continue_job i w x"
| "media_step cs x Relay_lost = begin_job relay_lost x"
| "media_step cs x (Save_slots slots) = begin_job (setSlots slots) x"
| "media_step cs x Page_hidden = leave_page x"

text \<open>\<open>may\<close> restricts the slots that are claimed in a run.\<close>

fun allowed :: "(string \<Rightarrow> bool) \<Rightarrow> media_event \<Rightarrow> bool" where
  "allowed may (Share k d) = may (sid k)"
| "allowed may (Take k d) = may (sid k)"
| "allowed may _ = True"

inductive media_trace ::
  "(source_kind \<Rightarrow> string) \<Rightarrow> (string \<Rightarrow> bool) \<Rightarrow> media_system \<Rightarrow> media_event list \<Rightarrow> media_system \<Rightarrow> bool"
  for cs may where
  nothing: "media_trace cs may x [] x"
| more: "media_trace cs may x (e # es) z"
    if "allowed may e" "media_trace cs may (media_step cs x e) es z"

section \<open>Invariants\<close>

text \<open>
  An invariant of the provider: it survives the small changes, starting a capture for a slot that
  may run, and a claim of the slots \<open>may\<close> allows.
\<close>

locale provider_invariant =
  fixes I :: "provider \<Rightarrow> bool" and may :: "string \<Rightarrow> bool"
  assumes fields:
    "I s \<Longrightarrow> I (s\<lparr>view := v\<rparr>)" "I s \<Longrightarrow> I (s\<lparr>sourceConnection := c\<rparr>)" "I s \<Longrightarrow> I (s\<lparr>p_owned := os\<rparr>)"
    "I s \<Longrightarrow> I (s\<lparr>devices := ds\<rparr>)" "I s \<Longrightarrow> I (s\<lparr>active := as\<rparr>)" "I s \<Longrightarrow> I (s\<lparr>busy := bs\<rparr>)"
    "I s \<Longrightarrow> I (s\<lparr>muted := ms\<rparr>)" "I s \<Longrightarrow> I (s\<lparr>errors := es\<rparr>)" "I s \<Longrightarrow> I (s\<lparr>refusals := rs\<rparr>)"
    "I s \<Longrightarrow> I (s\<lparr>revoked := vs\<rparr>)" "I s \<Longrightarrow> I (s\<lparr>stopTimers := ts\<rparr>)" "I s \<Longrightarrow> I (s\<lparr>demanded := xs\<rparr>)"
    "I s \<Longrightarrow> I (s\<lparr>dropping := n\<rparr>)" "I s \<Longrightarrow> I (s\<lparr>told_muted := tm\<rparr>)" "I s \<Longrightarrow> I (s\<lparr>usbRelay := ur\<rparr>)" "I s \<Longrightarrow> I (s\<lparr>selections := ls\<rparr>)" "I s \<Longrightarrow> I (s\<lparr>p_sourceId := i\<rparr>)"
    "I s \<Longrightarrow> I (s\<lparr>effect := n\<rparr>)" "I s \<Longrightarrow> I (s\<lparr>next_grace := m\<rparr>)" "I s \<Longrightarrow> I (s\<lparr>grace := gs\<rparr>)"
    "I s \<Longrightarrow> I (s\<lparr>saved := ss\<rparr>)" "I s \<Longrightarrow> I (s\<lparr>adopted := ad\<rparr>)" "I s \<Longrightarrow> I (s\<lparr>forgotten := fo\<rparr>)"
    and stopping: "I s \<Longrightarrow> I (take_capture sink s)"
    and giving_up: "I s \<Longrightarrow> I (s\<lparr>stoppedByUser := js_add sink (stoppedByUser s)\<rparr>)"
    and claiming: "I s \<Longrightarrow> may sink \<Longrightarrow> I (s\<lparr>stoppedByUser := js_delete sink (stoppedByUser s)\<rparr>)"
    and starting: "I s \<Longrightarrow> canRun k s \<Longrightarrow> I u \<Longrightarrow> map_of (captures u) (sid k) = None \<Longrightarrow> I (register k f u)"
begin

lemma small:
  "I s \<Longrightarrow> I (setError sink m s)" "I s \<Longrightarrow> I (clearError sink s)" "I s \<Longrightarrow> I (clearAttempt sink s)"
  "I s \<Longrightarrow> I (clear_grace sink s)" "I s \<Longrightarrow> I (closeRelay s)" "I s \<Longrightarrow> I (not_active sink s)"
  "I s \<Longrightarrow> I (set_busy b sink s)" "I s \<Longrightarrow> I (remember sink f s)" "I s \<Longrightarrow> I (note_demand k s)"
  "I s \<Longrightarrow> I (start_grace sink s)" "I s \<Longrightarrow> I (setSinkMuted sink b s)" "I s \<Longrightarrow> I (choose_device sink d s)" "I s \<Longrightarrow> I (mute_captures s)"
  "I s \<Longrightarrow> I (on_refused sink j s)" "I s \<Longrightarrow> I (on_client_error sink m s)" "I s \<Longrightarrow> I (begin_release sink s)"
  "I s \<Longrightarrow> may sink \<Longrightarrow> I (begin_claim sink s)"
  by (simp_all add: fields giving_up claiming setError_def clearError_def clearAttempt_def clear_grace_def closeRelay_def
      not_active_def set_busy_def remember_def note_demand_def start_grace_def setSinkMuted_def choose_device_def mute_captures_def
      on_refused_def on_client_error_def begin_release_def begin_claim_def Let_def)

lemma sound_asking: "sound I (asking q)"
  by (auto simp: asking_def intro!: sound_Await split: media_answer.split)

lemma sound_stop: "sound I (stopCapture sink)"
  unfolding stopCapture_def
  by (auto intro!: sound_programs sound_asking simp: small stopping split: option.split)

lemma sound_report: "sound I (report_failure sink e)"
  by (auto simp: report_failure_def small intro!: sound_programs)

lemma sound_discover: "sound I (discover cs k b)"
  by (auto simp: discover_def Let_def fields intro!: sound_programs sound_asking)

lemma sound_available: "sound I (available_offers cs k)"
  by (auto simp: available_offers_def intro!: sound_programs sound_discover)

lemma sound_share: "may (sid k) \<Longrightarrow> sound I (share cs k d)"
  unfolding share_def share_usb_def share_media_def
  by (auto simp: small fields intro!: sound_programs sound_asking sound_report sound_available
      split: option.split media_answer.split)

lemma sound_takeover: "may (sid k) \<Longrightarrow> sound I (takeover_slot cs k d)"
  unfolding takeover_slot_def takeover_body_def
  by (auto simp: small fields intro!: sound_programs sound_asking sound_report sound_available
      split: option.split media_answer.split)

lemma sound_release: "sound I (release_slot sink)"
  unfolding release_slot_def release_slot_body_def
  by (auto simp: small fields intro!: sound_programs sound_asking sound_report sound_stop split: media_answer.split)

lemma sound_drop: "sound I drop_turn"
  unfolding drop_turn_def
  by (auto simp: small fields intro!: sound_programs sound_stop split: list.split)

lemma sound_disconnect: "sound I disconnectAll"
  unfolding disconnectAll_def
  by (auto intro!: sound_programs sound_asking sound_drop split: media_answer.split)

lemma sound_lost: "sound I relay_lost"
  unfolding relay_lost_def by (auto simp: small fields intro!: sound_programs sound_asking)

lemma sound_slots: "sound I (setSlots slots)"
  unfolding setSlots_def by (auto intro!: sound_programs sound_asking split: media_answer.split)

lemma sound_start:
  assumes "I s" and "canRun k s"
  shows "sound I (startCapture ds ms k l)"
proof -
  have begun: "safe I q (register k f u)" if "sound I q" "I u" "map_of (captures u) (sid k) = None"
    for q :: "unit media_program" and f u
    using that starting [OF assms] by (simp add: sound_def)
  have tail: "sound I (catching (and_then (asking q) (\<lambda>_. act (\<lambda>s. if still_registered j c s
      then s\<lparr>active := js_add j (active s)\<rparr> else s)))
      (\<lambda>e. Get (\<lambda>s. if \<not> still_registered j c s then Return ()
        else and_then (stopCapture j) (\<lambda>_. act (\<lambda>s. setError j (mediaError e (tr s)) s)))))" for q j c
    by (auto simp: small fields intro!: sound_programs sound_asking sound_stop)
  show ?thesis
    unfolding startCapture_def sound_def Let_def
    by (auto simp: small clearError_def fields intro!: begun [OF tail] split: option.split)
qed

lemma sound_restart: "I s \<Longrightarrow> canRun k s \<Longrightarrow> sound I (restart_capture n ds ms k l)"
  unfolding restart_capture_def by (auto intro!: sound_programs sound_stop sound_start)

lemmas now_held = held_now [of I]

lemmas change_held = held_change [of I]

lemma held_reconcile_sink: "held I x \<Longrightarrow> held I (reconcile_sink k x)"
  unfolding reconcile_sink_def
  by (auto simp: Let_def small now_held intro!: held_begin change_held sound_stop
      intro: sound_restart [OF now_held] sound_start [OF now_held] split: option.split)

lemma held_stops: "held I x \<Longrightarrow> held I (fold (\<lambda>i. begin_job (stopCapture i)) is x)"
  by (induction "is" arbitrary: x) (auto intro: held_begin sound_stop)

lemma held_sinks: "held I x \<Longrightarrow> held I (fold reconcile_sink ks x)"
  by (induction ks arbitrary: x) (auto intro: held_reconcile_sink)

lemma held_reconcile: "held I x \<Longrightarrow> held I (reconcile x)"
  unfolding reconcile_def stop_vanished_def Let_def
  by (intro change_held held_stops held_sinks fields now_held)

lemma held_revoked: "held I x \<Longrightarrow> held I (on_revoked sink r x)"
  unfolding on_revoked_def Let_def
  by (auto intro!: change_held small(5) fields(10) held_begin sound_stop intro: now_held)

lemma held_grace: "held I x \<Longrightarrow> held I (grace_over n x)"
  by (auto simp: grace_over_def fields now_held intro!: change_held held_begin sound_stop split: option.split)

lemma held_drop: "held I x \<Longrightarrow> held I (next_drop x)"
  by (auto simp: next_drop_def fields now_held intro!: change_held held_begin sound_drop)

lemma held_step: "held I x \<Longrightarrow> allowed may e \<Longrightarrow> held I (media_step cs x e)"
  by (cases e)
    (auto simp: now_held small fields leave_page_def
      intro!: change_held held_revoked held_reconcile held_grace held_drop held_continue held_stops held_begin
        sound_share sound_takeover sound_release sound_disconnect sound_lost sound_slots)

lemma held_steps: "held I x \<Longrightarrow> media_trace cs may x es y \<Longrightarrow> held I y"
  by (rotate_tac, induction rule: media_trace.induct) (auto intro: held_step)

end

section \<open>Every capture is accounted for\<close>

definition accounted :: "provider \<Rightarrow> bool" where
  "accounted s \<longleftrightarrow> distinct (map fst (captures s)) \<and> distinct (map (r_capture \<circ> snd) (captures s) @ stops s) \<and>
    set (map (r_capture \<circ> snd) (captures s) @ stops s) = {..<next_capture s}"

lemma update_new: "map_of xs k = None \<Longrightarrow> AList.update k v xs = xs @ [(k, v)]"
  by (induction xs) (auto split: if_splits)

lemma delete_split: "distinct (map fst (ps @ (i, r) # qs)) \<Longrightarrow> AList.delete i (ps @ (i, r) # qs) = ps @ qs"
  by (induction ps) auto

lemma accounted_take: "accounted s \<Longrightarrow> accounted (take_capture sink s)"
proof (cases "map_of (captures s) sink")
  case (Some r)
  assume *: "accounted s"
  obtain ps qs where split: "captures s = ps @ (sink, r) # qs"
    using Some by (meson map_of_SomeD split_list)
  with * have "AList.delete sink (captures s) = ps @ qs"
    by (metis accounted_def delete_split)
  with * Some split show ?thesis
    by (auto simp: accounted_def take_capture_def)
qed (simp add: take_capture_def)

lemma accounted_register: "accounted s \<Longrightarrow> map_of (captures s) (sid k) = None \<Longrightarrow> accounted (register k f s)"
  by (auto simp: accounted_def register_def update_new map_of_eq_None_iff)

interpretation acc: provider_invariant accounted "\<lambda>_. True"
  by unfold_locales (auto simp: accounted_take accounted_register, simp_all add: accounted_def)

section \<open>Stop means stop\<close>

definition given_up :: "string \<Rightarrow> provider \<Rightarrow> bool" where
  "given_up i s \<longleftrightarrow> i \<in> set (stoppedByUser s) \<and> map_of (captures s) i = None"

interpretation gone: provider_invariant "given_up i" "\<lambda>j. j \<noteq> i" for i
  by unfold_locales
    (auto simp: given_up_def canRun_def register_def take_capture_def update_conv' delete_conv' split: option.splits)

lemma given_up_release: "safe (given_up i) (release_slot i) s"
proof -
  have stop: "safe (given_up i) (stopCapture i) (begin_release i s)"
    by (auto simp: stopCapture_def asking_def given_up_def begin_release_def clear_grace_def clearAttempt_def clearError_def
        set_busy_def take_capture_def delete_conv' not_active_def split: option.split media_answer.split)
  show ?thesis
    unfolding release_slot_def release_slot_body_def
    by (auto intro!: safe_and_then [OF stop] sound_programs gone.sound_asking gone.sound_report
        simp: gone.small gone.fields split: media_answer.split)
qed

lemma held_release: "jobs x = [] \<Longrightarrow> held (given_up i) (begin_job (release_slot i) x)"
  using safe_now [OF given_up_release, of i "now x"] safe_rest [OF given_up_release, of i "now x"]
  by (cases "run (release_slot i) (now x)"; cases "snd (run (release_slot i) (now x))") (auto simp: begin_job_def held_def)

section \<open>What reconciling leaves\<close>

definition stable :: "provider \<Rightarrow> snapshot \<times> connection \<times> string list \<times> string list" where
  "stable s = (view s, sourceConnection s, p_owned s, stoppedByUser s)"

definition capture_of :: "string \<Rightarrow> provider \<Rightarrow> running_capture option" where
  "capture_of i s = map_of (captures s) i"

lemma frame_asking: "frame v (asking q)"
  by (simp add: asking_def split: media_answer.split)

lemmas provider_changes = setError_def clearError_def clear_grace_def take_capture_def not_active_def register_def
  note_demand_def start_grace_def

lemma frame_stop:
  "frame stable (stopCapture i)" "frame demanded (stopCapture i)"
  "j \<noteq> i \<Longrightarrow> frame (capture_of j) (stopCapture i)"
  unfolding stopCapture_def
  by (auto intro!: framed_programs frame_asking simp: provider_changes stable_def capture_of_def delete_conv' split: option.split)

lemma frame_start:
  "frame stable (startCapture ds ms k l)" "frame demanded (startCapture ds ms k l)"
  "j \<noteq> sid k \<Longrightarrow> frame (capture_of j) (startCapture ds ms k l)"
  unfolding startCapture_def Let_def
  by (auto intro!: framed_programs frame_asking frame_stop
      simp: provider_changes stable_def capture_of_def update_conv' split: option.split)

lemma frame_restart:
  "frame stable (restart_capture n ds ms k l)" "frame demanded (restart_capture n ds ms k l)"
  "j \<noteq> sid k \<Longrightarrow> frame (capture_of j) (restart_capture n ds ms k l)"
  unfolding restart_capture_def by (auto intro!: framed_programs frame_stop frame_start)

declare begun [simp]

lemmas framed_runs = frame_now [OF frame_stop(1)] frame_now [OF frame_start(1)] frame_now [OF frame_restart(1)]
  frame_now [OF frame_stop(2)] frame_now [OF frame_start(2)] frame_now [OF frame_restart(2)]
  frame_now [OF frame_stop(3)] frame_now [OF frame_start(3)] frame_now [OF frame_restart(3)]

lemma small_frames:
  "stable (note_demand k s) = stable s" "stable (clear_grace i s) = stable s" "stable (start_grace i s) = stable s"
  "demanded (clear_grace i s) = demanded s" "demanded (start_grace i s) = demanded s"
  "capture_of j (note_demand k s) = capture_of j s" "capture_of j (clear_grace i s) = capture_of j s"
  "capture_of j (start_grace i s) = capture_of j s"
  by (auto simp: provider_changes stable_def capture_of_def)

lemma sink_frame:
  "stable (now (reconcile_sink k x)) = stable (now x)"
  "demanded (now (reconcile_sink k x)) = demanded (note_demand k (now x))"
  "j \<noteq> sid k \<Longrightarrow> capture_of j (now (reconcile_sink k x)) = capture_of j (now x)"
  by (auto simp: reconcile_sink_def Let_def framed_runs small_frames split: option.split)

lemma sinks_frame:
  "stable (now (fold reconcile_sink ks x)) = stable (now x)"
  "j \<notin> sid ` set ks \<Longrightarrow> capture_of j (now (fold reconcile_sink ks x)) = capture_of j (now x)"
  by (induction ks arbitrary: x) (auto simp: sink_frame)

lemma sinks_demand:
  "distinct (map sid ks) \<Longrightarrow> i \<in> set (demanded (now (fold reconcile_sink ks x))) \<longleftrightarrow>
    (if i \<in> sid ` set ks then \<exists>k \<in> set ks. sid k = i \<and> streaming (demand k) else i \<in> set (demanded (now x)))"
  by (induction ks arbitrary: x) (auto simp: sink_frame note_demand_def, metis imageI)

text \<open>A slot that keeps its capture is one this browser serves.\<close>

definition served :: "source_sink \<Rightarrow> provider \<Rightarrow> bool" where
  "served k s \<longleftrightarrow> sourceConnection s = Connected \<and> sid k \<notin> set (stoppedByUser s) \<and> sid k \<in> set (p_owned s) \<and> bnd k \<noteq> None"

lemma served_stable: "stable s = stable u \<Longrightarrow> served k s = served k u"
  by (auto simp: stable_def served_def)

lemma stopped_now: "capture_of i (fst (run (stopCapture i) s)) = None"
  by (auto simp: stopCapture_def asking_def capture_of_def provider_changes delete_conv' split: option.split)

lemma canRun_served: "canRun k s \<Longrightarrow> served k s"
  by (auto simp: canRun_def served_def split: option.splits)

lemma sink_served:
  assumes "capture_of (sid k) (now (reconcile_sink k x)) \<noteq> None"
  shows "served k (now x)"
proof (rule ccontr)
  let ?s = "note_demand k (now x)"
  assume "\<not> served k (now x)"
  moreover from this have "\<not> canRun k (now x)" using canRun_served by blast
  moreover have "served k ?s = served k (now x)" by (rule served_stable) (simp add: small_frames)
  ultimately have *: "\<not> canRun k (now x)" and not: "\<not> served k ?s" by simp_all
  have "reconcile_sink k x =
      (if capture_of (sid k) ?s \<noteq> None then begin_job (stopCapture (sid k)) (x\<lparr>now := ?s\<rparr>) else x\<lparr>now := ?s\<rparr>)"
    using * not unfolding reconcile_sink_def Let_def served_def capture_of_def by (simp del: not_None_eq)
  then show False using assms stopped_now [of "sid k" ?s] by (simp split: if_splits)
qed

lemma sinks_served:
  "distinct (map sid ks) \<Longrightarrow> k \<in> set ks \<Longrightarrow> capture_of (sid k) (now (fold reconcile_sink ks x)) \<noteq> None \<Longrightarrow> served k (now x)"
proof (induction ks arbitrary: x)
  case (Cons a ks)
  show ?case
  proof (cases "k = a")
    case True
    with Cons.prems sinks_frame(2) [of "sid a" ks "reconcile_sink a x"] show ?thesis
      by (auto intro: sink_served)
  next
    case False
    with Cons show ?thesis using served_stable [OF sink_frame(1)] by auto
  qed
qed simp

lemma stops_frame:
  "stable (now (fold (\<lambda>i. begin_job (stopCapture i)) is x)) = stable (now x)"
  "demanded (now (fold (\<lambda>i. begin_job (stopCapture i)) is x)) = demanded (now x)"
  "j \<notin> set is \<Longrightarrow> capture_of j (now (fold (\<lambda>i. begin_job (stopCapture i)) is x)) = capture_of j (now x)"
  by (induction "is" arbitrary: x) (auto simp: framed_runs)

lemma stops_stop: "j \<in> set is \<Longrightarrow> capture_of j (now (fold (\<lambda>i. begin_job (stopCapture i)) is x)) = None"
proof (induction "is" arbitrary: x)
  case (Cons a js)
  then show ?case
    by (cases "j \<in> set js") (auto simp: stops_frame(3) stopped_now)
qed simp

lemma vanished_captures:
  "capture_of i (now (stop_vanished x)) = (if i \<in> sid ` set (sinks (view (now x))) then capture_of i (now x) else None)"
proof -
  let ?is = "filter (\<lambda>i. i \<notin> set (map sid (sinks (view (now x))))) (map fst (captures (now x)))"
  show ?thesis
  proof (cases "i \<in> set ?is")
    case True
    then show ?thesis by (auto simp: stop_vanished_def stops_stop)
  next
    case False
    then have "i \<in> sid ` set (sinks (view (now x))) \<or> capture_of i (now x) = None"
      by (auto simp: capture_of_def map_of_eq_None_iff)
    with False show ?thesis unfolding stop_vanished_def stops_frame(3) [OF False] by auto
  qed
qed

section \<open>The offers of one kind\<close>

text \<open>The part of a stream name after the last underscore is the index of the device.\<close>

lemma nat_string_no_underscore: "CHR ''_'' \<notin> set (nat_string n)"
proof (induction n rule: nat_string.induct)
  case (1 n)
  have "CHR ''_'' \<noteq> digit m" if "m < 10" for m
  proof
    assume "CHR ''_'' = digit m"
    from arg_cong [OF this, of "of_char :: char \<Rightarrow> nat"] that show False by (simp add: of_char_digit)
  qed
  with 1 show ?case by (subst nat_string.simps) simp
qed

lemma streamID_index: "takeWhile (\<lambda>c. c \<noteq> CHR ''_'') (rev (streamID k d i)) = rev (nat_string i)"
proof -
  have *: "takeWhile (\<lambda>c. c \<noteq> x) (rev (ys @ [x] @ zs)) = rev zs" if "x \<notin> set zs" for x :: char and ys zs
    using that by (simp add: takeWhile_append2 takeWhile_tail) (metis takeWhile_eq_all_conv set_rev takeWhile_append2)
  show ?thesis
    using * [OF nat_string_no_underscore, of _ i] unfolding streamID_def by (metis append_assoc append_Cons append_Nil)
qed

lemma streamID_inj: "streamID k d i = streamID k e j \<Longrightarrow> i = j"
  by (metis streamID_index nat_string_inj rev_rev_ident)

lemma enumerate_fst_inj: "inj_on (\<lambda>(i, d). streamID k d i) (set (enumerate n xs))"
  by (induction xs arbitrary: n) (auto simp: inj_on_def in_set_enumerate_eq dest!: streamID_inj)

lemma stream_ids_distinct: "distinct (map offer_id (found_offers k ds))"
proof -
  have "map offer_id (found_offers k ds) =
      map (\<lambda>(i, d). streamID k d i) (enumerate 0 (map (fst \<circ> snd) (filter (\<lambda>d. fst d = k) ds)))"
    by (auto simp: found_offers_def)
  then show ?thesis using enumerate_fst_inj distinct_enumerate by (metis distinct_map)
qed

lemma offers_kept:
  "\<forall>f \<in> set (withOffers ds k found). f \<in> set found \<or> (\<exists>c. c \<noteq> k \<and> f \<in> set (ds c))"
  "c \<noteq> k \<Longrightarrow> set (ds c) \<subseteq> set (withOffers ds k found)" "set found \<subseteq> set (withOffers ds k found)"
  by (cases k; cases c; auto simp: withOffers_def)+

section \<open>Properties\<close>

text \<open>
  C20: Whatever the server, the media classes and the user do, and in whatever order the answers come:
  every capture the provider ever made is the registered capture of exactly one slot or was told to
  stop exactly once, and no slot has two.
\<close>

theorem captures_accounted:
  assumes "media_trace cs (\<lambda>_. True) (idle_system (new_provider admin user translation)) es x"
  defines "created \<equiv> map (r_capture \<circ> snd) (captures (now x)) @ stops (now x)"
  shows "distinct (map fst (captures (now x))) \<and> distinct created \<and> set created = {..<next_capture (now x)}"
proof -
  have "held accounted (idle_system (new_provider admin user translation))"
    by (simp add: held_def idle_system_def new_provider_def accounted_def)
  from held_now [OF acc.held_steps [OF this assms(1)]] show ?thesis
    by (simp add: accounted_def created_def)
qed

text \<open>
  C21: Stop means stop: once a slot is given up while no other call is suspended, no event, effect, timer or late
  answer opens a capture for it, until it is shared or taken over again.
\<close>

theorem stop_means_stop:
  assumes "jobs x = []" and "media_trace cs (\<lambda>j. j \<noteq> i) (media_step cs x (Give_up i)) es y"
  shows "map_of (captures (now y)) i = None \<and> i \<in> set (stoppedByUser (now y))"
proof -
  have "held (given_up i) (media_step cs x (Give_up i))" using held_release [OF assms(1)] by simp
  from held_now [OF gone.held_steps [OF this assms(2)]] show ?thesis by (simp add: given_up_def)
qed

text \<open>
  C22: After the provider has reconciled with a snapshot, a capture is left only for a slot of the
  snapshot that is bound, owned by this browser, not given up by the user, while the socket is
  connected; and frames pass for exactly the slots the host reads.
\<close>

theorem reconcile_serves_snapshot:
  assumes "distinct (map sid (sinks (view (now x))))"
  shows "(map_of (captures (now (reconcile x))) i \<noteq> None \<longrightarrow>
      sourceConnection (now x) = Connected \<and> i \<notin> set (stoppedByUser (now x)) \<and> i \<in> set (p_owned (now x)) \<and>
      (\<exists>k \<in> set (sinks (view (now x))). sid k = i \<and> bnd k \<noteq> None)) \<and>
    (frame_passes i (now (reconcile x)) \<longleftrightarrow> (\<exists>k \<in> set (sinks (view (now x))). sid k = i \<and> streaming (demand k)))"
proof -
  let ?ks = "sinks (view (now x))" and ?x = "x\<lparr>now := (now x)\<lparr>effect := Suc (effect (now x))\<rparr>\<rparr>"
  let ?y = "fold reconcile_sink ?ks ?x"
  have view: "sinks (view (now ?y)) = ?ks" using sinks_frame(1) [of ?ks ?x] by (simp add: stable_def)
  have left: "capture_of i (now (reconcile x)) = (if i \<in> sid ` set ?ks then capture_of i (now ?y) else None)"
    using vanished_captures [of i ?y] by (simp add: reconcile_def Let_def view capture_of_def)
  then have "capture_of i (now (reconcile x)) \<noteq> None \<Longrightarrow> \<exists>k \<in> set ?ks. sid k = i \<and> served k (now ?x)"
    using sinks_served [OF assms, of _ ?x] by (auto split: if_splits)
  moreover have "i \<in> set (demanded (now (reconcile x))) \<longleftrightarrow> (\<exists>k \<in> set ?ks. sid k = i \<and> streaming (demand k))"
    using sinks_demand [OF assms, of i ?x]
    by (auto simp: reconcile_def Let_def stop_vanished_def stops_frame(2) split: if_splits)
  ultimately show ?thesis
    by (auto simp: served_def capture_of_def frame_passes_def)
qed

section \<open>A run\<close>

definition sample_speaker :: "nat \<Rightarrow> source_sink" where
  "sample_speaker fps =
    \<lparr>sid = ''uac2.spk0'', kind = speaker, label = [], host_name = None,
     demand = \<lparr>streaming = True, d_width = None, d_height = None, d_fps = Some fps, d_rest = []\<rparr>, shown = silence,
     bnd = Some \<lparr>b_sink_id = ''uac2.spk0'', b_source_id = ''s'', b_stream_id = ''spk_browser'',
       b_state = streaming_b, b_rest = []\<rparr>, s_rest = []\<rparr>"

definition sample_view :: "nat \<Rightarrow> snapshot" where
  "sample_view fps = emptySnapshot\<lparr>sinks := [sample_speaker fps]\<rparr>"

definition sample_lease :: lease where
  "sample_lease = \<lparr>l_sink = ''uac2.spk0'', l_stream = ''spk_browser'', l_token = ''t'', l_device = ''spk_browser'', l_kind = speaker\<rparr>"

text \<open>The slot is owned and bound, and its capture starts.\<close>

definition sample_start :: "media_event list" where
  "sample_start = [Connection_is Connected, Owned_are [''uac2.spk0''], Client_is [sample_lease] (Some ''s''),
    Snapshot_is (sample_view 0), Reconcile, Answer 0 Done]"

definition sample_page :: media_system where
  "sample_page = foldl (media_step (\<lambda>_. [])) (idle_system (new_provider True ''u'' id)) sample_start"

lemmas sample_defs = sample_start_def sample_view_def sample_speaker_def sample_lease_def emptySnapshot_def idle_system_def
  new_provider_def speakerOffer_def

lemmas running_defs = reconcile_def reconcile_sink_def stop_vanished_def Let_def canRun_def lease_for_def begin_job_def
  startCapture_def restart_capture_def stopCapture_def asking_def continue_job_def still_registered_def setError_def clearError_def
  clear_grace_def take_capture_def not_active_def register_def note_demand_def js_add_def js_delete_def demandKey_def
  nat_string.simps digit_def

lemma sample_page_value:
  "sample_page = \<lparr>now = (new_provider True ''u'' id)
      \<lparr>view := sample_view 0, sourceConnection := Connected, p_owned := [''uac2.spk0''], active := [''uac2.spk0''],
       captures := [(''uac2.spk0'', \<lparr>r_capture = 0, r_device = ''spk_browser'', r_stream = ''spk_browser'', r_kind = speaker,
         r_demand = ''0x0@0''\<rparr>)], demanded := [''uac2.spk0''], selections := [sample_lease], p_sourceId := Some ''s'',
       effect := 1, next_capture := 1\<rparr>, jobs = []\<rparr>"
  by (simp add: sample_page_def sample_defs running_defs)

fun all_possible :: "(source_kind \<Rightarrow> string) \<Rightarrow> (string \<Rightarrow> bool) \<Rightarrow> media_system \<Rightarrow> media_event list \<Rightarrow> bool" where
  "all_possible cs may x [] = True"
| "all_possible cs may x (e # es) = (allowed may e \<and> all_possible cs may (media_step cs x e) es)"

lemma trace_of: "all_possible cs may x es \<Longrightarrow> media_trace cs may x es (foldl (media_step cs) x es)"
  by (induction es arbitrary: x) (auto intro: media_trace.intros)

text \<open>The host then changes what it wants: the capture is stopped, and a new one is started.\<close>

definition sample_restart :: "media_event list" where
  "sample_restart = [Snapshot_is (sample_view 1), Reconcile, Answer 0 Done]"

definition sample_restarted :: media_system where
  "sample_restarted =
    foldl (media_step (\<lambda>_. [])) (idle_system (new_provider True ''u'' id)) (sample_start @ sample_restart)"

theorem captures_accounted_witness:
  "set (map (r_capture \<circ> snd) (captures (now sample_restarted)) @ stops (now sample_restarted)) =
     {..<next_capture (now sample_restarted)} \<and>
   stops (now sample_restarted) = [0] \<and> next_capture (now sample_restarted) = 2"
proof -
  have "all_possible (\<lambda>_. []) (\<lambda>_. True) (idle_system (new_provider True ''u'' id)) (sample_start @ sample_restart)"
    by (simp add: sample_restart_def sample_defs running_defs)
  from captures_accounted [OF trace_of [OF this]]
  have "set (map (r_capture \<circ> snd) (captures (now sample_restarted)) @ stops (now sample_restarted)) =
     {..<next_capture (now sample_restarted)}"
    by (simp only: sample_restarted_def)
  moreover have "stops (now sample_restarted) = [0] \<and> next_capture (now sample_restarted) = 2"
    by (simp add: sample_restarted_def sample_restart_def sample_defs running_defs)
  ultimately show ?thesis by simp
qed

lemmas release_defs = release_slot_def release_slot_body_def begin_release_def set_busy_def clearAttempt_def ignoring_def report_failure_def

theorem stop_means_stop_witness:
  "jobs sample_page = [] \<and> map_of (captures (now sample_page)) ''uac2.spk0'' \<noteq> None \<and>
   map_of (captures (now (foldl (media_step (\<lambda>_. [])) (media_step (\<lambda>_. []) sample_page (Give_up ''uac2.spk0''))
     [Reconcile, Answer 0 Done, Snapshot_is (sample_view 1), Reconcile]))) ''uac2.spk0'' = None"
proof -
  have "all_possible (\<lambda>_. []) (\<lambda>j. j \<noteq> ''uac2.spk0'') (media_step (\<lambda>_. []) sample_page (Give_up ''uac2.spk0''))
      [Reconcile, Answer 0 Done, Snapshot_is (sample_view 1), Reconcile]"
    by (simp add: sample_page_value sample_defs running_defs release_defs)
  note trace_of [OF this]
  moreover have idle: "jobs sample_page = []" and "map_of (captures (now sample_page)) ''uac2.spk0'' \<noteq> None"
    by (simp_all add: sample_page_value sample_defs running_defs)
  ultimately show ?thesis using stop_means_stop [OF idle] by blast
qed

theorem reconcile_serves_snapshot_witness:
  "map_of (captures (now (reconcile sample_page))) ''uac2.spk0'' \<noteq> None \<and> frame_passes ''uac2.spk0'' (now (reconcile sample_page)) \<and>
   sourceConnection (now sample_page) = Connected"
proof -
  have d: "distinct (map sid (sinks (view (now sample_page))))" and here: "sinks (view (now sample_page)) = [sample_speaker 0]"
    and kept: "map_of (captures (now (reconcile sample_page))) ''uac2.spk0'' \<noteq> None"
    by (simp_all add: sample_page_value sample_defs running_defs)
  from kept here show ?thesis
    using reconcile_serves_snapshot [OF d, of "''uac2.spk0''"] by (auto simp: sample_speaker_def)
qed

text \<open>
  A slot that the user gives up while its capture is being restarted is opened again: the restart
  that was waiting for the old audio context starts a new capture, although the slot is marked as
  stopped by the user, and only the next reconciling closes it.
\<close>

theorem given_up_slot_reopens:
  fixes x
  defines "x \<equiv> foldl (media_step (\<lambda>_. [])) sample_page
    [Snapshot_is (sample_view 1), Reconcile, Give_up ''uac2.spk0'', Answer 0 Done]"
  shows "''uac2.spk0'' \<in> set (stoppedByUser (now x)) \<and> map_of (captures (now x)) ''uac2.spk0'' \<noteq> None \<and>
    map_of (captures (now (reconcile x))) ''uac2.spk0'' = None"
  by (simp add: x_def sample_page_value sample_defs running_defs release_defs)

end
