(* ===== verification/Source_Events.thy ===== *)
theory Source_Events
  imports Source_State
begin

text \<open>
  The socket that brings the media snapshot, in \<^verbatim>\<open>SourcesProvider\<close> of
  \<^verbatim>\<open>web/src/pages/desktop/menu/devices/provider.tsx\<close>: connecting, the messages, the retries and their
  delay, the end of the login, leaving the page and coming back. A socket is a number; the browser
  calls back for any of them at any time. \<open>over\<close> lists the sockets that were closed by the page or
  reported closed.
\<close>

datatype events_state = Ev_connecting | Ev_connected | Ev_disconnected

record events =
  eventsConnection :: events_state
  eventsSocket :: "nat option"
  eventsRetry :: "nat option"
  retryDelay :: nat
  mounted :: bool
  snapshot_now :: snapshot
  next_socket :: nat
  over :: "nat list"
  expired :: nat

definition ev_connect :: "events \<Rightarrow> events" where
  "ev_connect s =
    s\<lparr>eventsRetry := None, eventsConnection := Ev_connecting, eventsSocket := Some (next_socket s),
      next_socket := Suc (next_socket s)\<rparr>"

definition ev_mount :: "events" where
  "ev_mount = ev_connect
    \<lparr>eventsConnection = Ev_connecting, eventsSocket = None, eventsRetry = None, retryDelay = 1000, mounted = True,
     snapshot_now = emptySnapshot, next_socket = 0, over = [], expired = 0\<rparr>"

definition ev_onopen :: "events \<Rightarrow> events" where
  "ev_onopen s = s\<lparr>retryDelay := 1000\<rparr>"

text \<open>What a message holds: no text, text that is not JSON, or an event.\<close>

datatype ev_data = Not_text | Not_json | Event sources_event

definition ev_onmessage :: "nat \<Rightarrow> ev_data \<Rightarrow> events \<Rightarrow> events" where
  "ev_onmessage i d s =
    (if eventsSocket s \<noteq> Some i \<or> \<not> mounted s then s
     else case d of
       Not_text \<Rightarrow> s
     | Not_json \<Rightarrow> s\<lparr>eventsConnection := Ev_disconnected, over := over s @ [i]\<rparr>
     | Event e \<Rightarrow>
         let s = s\<lparr>snapshot_now := reduceSources (snapshot_now s) e\<rparr>
         in if ev_type e = ''snapshot'' then s\<lparr>eventsConnection := Ev_connected\<rparr> else s)"

definition ev_onclose :: "nat \<Rightarrow> nat \<Rightarrow> events \<Rightarrow> events" where
  "ev_onclose i code s =
    (let s = s\<lparr>over := over s @ [i]\<rparr>
     in if eventsSocket s \<noteq> Some i \<or> \<not> mounted s then s
        else
          let s = s\<lparr>eventsSocket := None, eventsConnection := Ev_disconnected\<rparr>
          in if code = 4401 then s\<lparr>expired := Suc (expired s)\<rparr>
             else s\<lparr>eventsRetry := Some (retryDelay s), retryDelay := min (retryDelay s * 2) 10000\<rparr>)"

definition ev_onerror :: "nat \<Rightarrow> events \<Rightarrow> events" where
  "ev_onerror i s = (if eventsSocket s = Some i then s\<lparr>eventsConnection := Ev_disconnected\<rparr> else s)"

definition ev_retry :: "events \<Rightarrow> events" where
  "ev_retry s = (if eventsRetry s = None then s else ev_connect s)"

definition ev_refresh :: "events \<Rightarrow> events" where
  "ev_refresh s = (if eventsSocket s = None then ev_connect s else s)"

definition ev_leave :: "events \<Rightarrow> events" where
  "ev_leave s =
    s\<lparr>eventsRetry := None, over := over s @ (case eventsSocket s of Some i \<Rightarrow> [i] | None \<Rightarrow> []), eventsSocket := None\<rparr>"

definition ev_unmount :: "events \<Rightarrow> events" where
  "ev_unmount s = ev_leave (s\<lparr>mounted := False\<rparr>)"

datatype ev_event = Opened nat | Message nat ev_data | Closed nat nat | Errored nat | Retry_due | Refresh | Page_hide | Unmount

text \<open>Retries and refreshes come while the provider is mounted; a callback is one of a socket that was made.\<close>

fun ev_step :: "events \<Rightarrow> ev_event \<Rightarrow> events" where
  "ev_step s (Opened i) = ev_onopen s"
| "ev_step s (Message i d) = ev_onmessage i d s"
| "ev_step s (Closed i code) = (if i < next_socket s then ev_onclose i code s else s)"
| "ev_step s (Errored i) = ev_onerror i s"
| "ev_step s Retry_due = ev_retry s"
| "ev_step s Refresh = (if mounted s then ev_refresh s else s)"
| "ev_step s Page_hide = ev_leave s"
| "ev_step s Unmount = ev_unmount s"

definition ev_inv :: "events \<Rightarrow> bool" where
  "ev_inv s \<longleftrightarrow> 1000 \<le> retryDelay s \<and> retryDelay s \<le> 10000 \<and>
    (case eventsRetry s of None \<Rightarrow> True | Some d \<Rightarrow> eventsSocket s = None \<and> 1000 \<le> d \<and> d \<le> 10000) \<and>
    (case eventsSocket s of None \<Rightarrow> True | Some i \<Rightarrow> i < next_socket s \<and> mounted s) \<and>
    {..<next_socket s} \<subseteq> set (over s) \<union> set_option (eventsSocket s) \<and> (\<not> mounted s \<longrightarrow> eventsRetry s = None)"

lemmas ev_defs = ev_connect_def ev_onopen_def ev_onmessage_def ev_onclose_def ev_onerror_def ev_retry_def ev_refresh_def
  ev_leave_def ev_unmount_def Let_def

lemma ev_inv_connect: "ev_inv s \<Longrightarrow> mounted s \<Longrightarrow> eventsSocket s = None \<Longrightarrow> ev_inv (ev_connect s)"
  by (auto simp: ev_inv_def ev_connect_def lessThan_Suc)

lemma ev_inv_step: "ev_inv s \<Longrightarrow> ev_inv (ev_step s e)"
proof (cases e)
  case Retry_due
  assume "ev_inv s"
  with Retry_due ev_inv_connect [of s] show ?thesis by (auto simp: ev_inv_def ev_retry_def split: option.splits)
next
  case Refresh
  assume "ev_inv s"
  with Refresh ev_inv_connect [of s] show ?thesis by (simp add: ev_refresh_def)
qed (auto simp: ev_inv_def ev_defs split: option.splits ev_data.splits if_splits)

lemma ev_inv_run: "ev_inv s \<Longrightarrow> ev_inv (foldl ev_step s es)"
  by (induction es arbitrary: s) (simp_all add: ev_inv_step)

lemma ev_inv_mount: "ev_inv ev_mount"
  by (simp add: ev_inv_def ev_mount_def ev_connect_def lessThan_Suc)

text \<open>
  C24: Whatever the network, the user and the browser do, at most one socket brings the media snapshot: every
  socket but the current one is closed; a retry is only scheduled while there is none, after one to ten
  seconds; and once the provider is unmounted there is neither a socket nor a retry.
\<close>

theorem one_events_socket:
  fixes es
  defines "s \<equiv> foldl ev_step ev_mount es"
  shows "{..<next_socket s} \<subseteq> set (over s) \<union> set_option (eventsSocket s) \<and>
    eventsRetry s \<in> insert None (Some ` {1000..10000}) \<and>
    (eventsSocket s = None \<or> eventsRetry s = None) \<and>
    (mounted s \<or> eventsSocket s = None \<and> eventsRetry s = None)"
  using ev_inv_run [OF ev_inv_mount, of es]
  by (auto simp: ev_inv_def s_def [symmetric] split: option.splits)

end
