(* ===== verification/Keyboard_Input.thy ===== *)
theory Keyboard_Input
  imports Keyboard_Report
begin

text \<open>
  The keyboard of the desktop page, \<^verbatim>\<open>web/src/pages/desktop/keyboard\<close>: normalisation of browser
  codes (\<^verbatim>\<open>utils.ts\<close>), recovery from lost events (\<^verbatim>\<open>input-state.ts\<close>), the leader key
  (\<^verbatim>\<open>useLeaderKey.ts\<close>), AltGr on Windows (\<^verbatim>\<open>useAltGr.ts\<close>) and the component that composes them
  (\<^verbatim>\<open>index.tsx\<close>). Browser events are steps of one state; what is handed to \<^verbatim>\<open>client.send\<close> is
  the log \<open>sent\<close>.
\<close>

section \<open>Browser events\<close>

record kbd_event =
  ev_code :: string
  ev_key :: string
  location :: nat
  ctrlKey :: bool
  shiftKey :: bool
  altKey :: bool
  metaKey :: bool
  altGraph :: bool  \<comment> \<open>\<^verbatim>\<open>getModifierState('AltGraph')\<close>\<close>
  composing_flag :: bool  \<comment> \<open>\<^verbatim>\<open>isComposing\<close>\<close>
  keyCode :: nat
  repeat_flag :: bool
  timeStamp :: rat
  now :: int  \<comment> \<open>\<^verbatim>\<open>Date.now()\<close> while the event is handled\<close>

definition normalizeKeyCode :: "kbd_event \<Rightarrow> string \<Rightarrow> string" where
  "normalizeKeyCode ev os =
    (if ev_code ev \<noteq> '''' then ev_code ev
     else if ev_key ev = ''Shift'' then
       (if location ev = 0 \<and> os = ''Windows'' then ''ShiftRight''
        else if location ev = 2 then ''ShiftRight'' else ''ShiftLeft'')
     else if ev_key ev = ''Control'' then
       (if location ev = 2 then ''ControlRight'' else ''ControlLeft'')
     else if ev_key ev = ''Alt'' then (if location ev = 2 then ''AltRight'' else ''AltLeft'')
     else if ev_key ev = ''Meta'' then (if location ev = 2 then ''MetaRight'' else ''MetaLeft'')
     else ev_code ev)"

definition MODIFIER_FAMILIES :: "(string list \<times> (kbd_event \<Rightarrow> bool)) list" where
  "MODIFIER_FAMILIES =
    [([''ControlLeft'', ''ControlRight''], ctrlKey),
     ([''ShiftLeft'', ''ShiftRight''], shiftKey),
     ([''AltLeft'', ''AltRight''], \<lambda>ev. altKey ev \<or> altGraph ev),
     ([''MetaLeft'', ''MetaRight''], metaKey)]"

definition releasedModifiers :: "string list \<Rightarrow> kbd_event \<Rightarrow> string \<Rightarrow> string list" where
  "releasedModifiers pressed ev eventCode =
    concat (map (\<lambda>(codes, held).
        if eventCode \<in> set codes \<or> held ev then [] else filter (\<lambda>c. c \<in> set pressed) codes)
      MODIFIER_FAMILIES)"

definition IME_KEY_CODE :: nat where
  "IME_KEY_CODE = 229"

definition isCompositionKey :: "bool \<Rightarrow> kbd_event \<Rightarrow> bool" where
  "isCompositionKey compositionStarted ev =
    (if composing_flag ev then True
     else if \<not> compositionStarted then False
     else keyCode ev = IME_KEY_CODE \<or> ev_key ev = ''Process'')"

section \<open>State\<close>

record altgr_state =
  active :: bool
  ctrlLeftTimestamp :: rat

record leader_state =
  leader_code :: string
  startTime :: int
  recordMode :: bool
  recordModifiers :: "string list"
  recordedKeys :: "string list"  \<comment> \<open>the React state shown by the recorder\<close>

record keyboard_ui =
  report :: keyboard_report
  pressed :: "string list"
  isComposing :: bool
  leader :: leader_state
  altgr :: "altgr_state option"
  enabled :: bool
  sent :: "byte list list"

text \<open>\<^verbatim>\<open>useAltGr\<close> has a state only on Windows.\<close>

definition init_keyboard :: "string \<Rightarrow> keyboard_ui" where
  "init_keyboard os =
    \<lparr>report = new_keyboard_report, pressed = [], isComposing = False,
     leader = \<lparr>leader_code = '''', startTime = 0, recordMode = False, recordModifiers = [],
       recordedKeys = []\<rparr>,
     altgr = (if os = ''Windows'' then Some \<lparr>active = False, ctrlLeftTimestamp = 0\<rparr> else None),
     enabled = True, sent = []\<rparr>"

definition KEYBOARD_MESSAGE :: byte where
  "KEYBOARD_MESSAGE = 1"

definition sendReport :: "byte list \<Rightarrow> keyboard_ui \<Rightarrow> keyboard_ui" where
  "sendReport r s = s\<lparr>sent := sent s @ [KEYBOARD_MESSAGE # r]\<rparr>"

definition sendKeydown :: "string \<Rightarrow> keyboard_ui \<Rightarrow> keyboard_ui" where
  "sendKeydown code s =
    (let (kb, r) = keyDown (report s) code in sendReport r (s\<lparr>report := kb\<rparr>))"

definition sendKeyup :: "string \<Rightarrow> keyboard_ui \<Rightarrow> keyboard_ui" where
  "sendKeyup code s =
    (let (kb, r) = keyUp (report s) code in sendReport r (s\<lparr>report := kb\<rparr>))"

definition press_add :: "string \<Rightarrow> keyboard_ui \<Rightarrow> keyboard_ui" where
  "press_add code s = s\<lparr>pressed := js_add code (pressed s)\<rparr>"

definition press_delete :: "string \<Rightarrow> keyboard_ui \<Rightarrow> keyboard_ui" where
  "press_delete code s = s\<lparr>pressed := js_delete code (pressed s)\<rparr>"

section \<open>Leader key\<close>

definition RECORD_MODE_THRESHOLD_MS :: int where
  "RECORD_MODE_THRESHOLD_MS = 350"

definition leader_handleKeyDown :: "string \<Rightarrow> int \<Rightarrow> keyboard_ui \<Rightarrow> keyboard_ui \<times> bool" where
  "leader_handleKeyDown code t s =
    (let l = leader s in
     if leader_code l \<noteq> '''' \<and> code = leader_code l then
       (press_add code
         (if \<not> recordMode l then s\<lparr>leader := l\<lparr>startTime := t, recordMode := True\<rparr>\<rparr> else s), True)
     else if recordMode l then
       (press_add code
         (if isModifier code then
            (if code \<notin> set (recordModifiers l) then
               sendKeydown code
                 (s\<lparr>leader := l\<lparr>recordModifiers := recordModifiers l @ [code],
                    recordedKeys := recordModifiers l @ [code]\<rparr>\<rparr>)
             else s)
          else sendKeyup code (sendKeydown code s)), True)
     else (s, False))"

definition leader_reset :: "keyboard_ui \<Rightarrow> keyboard_ui" where
  "leader_reset s =
    (let s' = fold sendKeyup (recordModifiers (leader s)) s
     in s'\<lparr>leader := (leader s')\<lparr>startTime := 0, recordMode := False, recordModifiers := [],
          recordedKeys := []\<rparr>\<rparr>)"

definition leader_handleKeyUp :: "string \<Rightarrow> int \<Rightarrow> keyboard_ui \<Rightarrow> keyboard_ui \<times> bool" where
  "leader_handleKeyUp code t s =
    (let l = leader s in
     if leader_code l \<noteq> '''' \<and> code = leader_code l then
       (press_delete code
         (if recordMode l \<and> t - startTime l > RECORD_MODE_THRESHOLD_MS then leader_reset s else s),
        True)
     else if recordMode l \<and> code \<noteq> leader_code l then (press_delete code s, True)
     else (s, False))"

section \<open>AltGr\<close>

definition ALTGR_THRESHOLD_MS :: rat where
  "ALTGR_THRESHOLD_MS = 10"

definition altgr_handleKeyDown :: "string \<Rightarrow> rat \<Rightarrow> keyboard_ui \<Rightarrow> keyboard_ui" where
  "altgr_handleKeyDown code t s =
    (case altgr s of
       None \<Rightarrow> s
     | Some a \<Rightarrow>
         if code = ''ControlLeft'' then s\<lparr>altgr := Some (a\<lparr>ctrlLeftTimestamp := t\<rparr>)\<rparr>
         else if code = ''AltRight'' \<and> t - ctrlLeftTimestamp a < ALTGR_THRESHOLD_MS
                \<and> ''ControlLeft'' \<in> set (pressed s)
         then (sendKeyup ''ControlLeft'' (press_delete ''ControlLeft'' s))
                \<lparr>altgr := Some (a\<lparr>active := True\<rparr>)\<rparr>
         else s)"

definition altgr_handleKeyUp :: "string \<Rightarrow> keyboard_ui \<Rightarrow> keyboard_ui \<times> bool" where
  "altgr_handleKeyUp code s =
    (case altgr s of
       None \<Rightarrow> (s, False)
     | Some a \<Rightarrow>
         if \<not> active a then (s, False)
         else if code = ''ControlLeft'' then (press_delete ''ControlLeft'' s, True)
         else if code = ''AltRight''
         then ((press_delete ''ControlLeft'' s)\<lparr>altgr := Some (a\<lparr>active := False\<rparr>)\<rparr>, False)
         else (s, False))"

definition altgr_reset :: "keyboard_ui \<Rightarrow> keyboard_ui" where
  "altgr_reset s =
    s\<lparr>altgr := map_option (\<lambda>a. a\<lparr>active := False, ctrlLeftTimestamp := 0\<rparr>) (altgr s)\<rparr>"

definition altgr_isActive :: "keyboard_ui \<Rightarrow> bool" where
  "altgr_isActive s = (case altgr s of None \<Rightarrow> False | Some a \<Rightarrow> active a)"

section \<open>The component\<close>

definition releaseStaleModifiers :: "kbd_event \<Rightarrow> string \<Rightarrow> keyboard_ui \<Rightarrow> keyboard_ui" where
  "releaseStaleModifiers ev code s =
    fold (\<lambda>m s. sendKeyup m (press_delete m s)) (releasedModifiers (pressed s) ev code) s"

definition releaseMetaCombinations :: "keyboard_ui \<Rightarrow> keyboard_ui" where
  "releaseMetaCombinations s =
    fold (\<lambda>key s. press_delete key (sendKeyup key s))
      (filter (\<lambda>c. \<not> isModifier c) (pressed s)) s"

definition reset_report :: "keyboard_ui \<Rightarrow> keyboard_ui" where
  "reset_report s = (let (kb, r) = reset_keys (report s) in sendReport r (s\<lparr>report := kb\<rparr>))"

definition releaseKeys :: "keyboard_ui \<Rightarrow> keyboard_ui" where
  "releaseKeys s =
    (let s = fold sendKeyup (pressed s) s;
         s = s\<lparr>pressed := []\<rparr>
     in reset_report (altgr_reset (leader_reset s)))"

definition takeover :: "keyboard_ui \<Rightarrow> keyboard_ui" where
  "takeover s = reset_report (altgr_reset (leader_reset (s\<lparr>pressed := []\<rparr>)))"

definition handleKeyDown :: "string \<Rightarrow> kbd_event \<Rightarrow> keyboard_ui \<Rightarrow> keyboard_ui" where
  "handleKeyDown os ev s =
    (if \<not> enabled s then s
     else if isCompositionKey (isComposing s) ev then s
     else
       let s = s\<lparr>isComposing := False\<rparr>;
           code = normalizeKeyCode ev os
       in if code = '''' then s
          else
            let s = releaseStaleModifiers ev code s
            in if code \<in> set (pressed s) \<and> repeat_flag ev then s
               else
                 let s = (if code \<in> set (pressed s) then sendKeyup code (press_delete code s) else s);
                     (s, handled) = leader_handleKeyDown code (now ev) s
                 in if handled then s
                    else sendKeydown code (press_add code (altgr_handleKeyDown code (timeStamp ev) s)))"

definition handleKeyUp :: "string \<Rightarrow> kbd_event \<Rightarrow> keyboard_ui \<Rightarrow> keyboard_ui" where
  "handleKeyUp os ev s =
    (if \<not> enabled s then s
     else if isComposing s \<or> composing_flag ev then s
     else
       let code = normalizeKeyCode ev os
       in if code = '''' then s
          else
            let s = releaseStaleModifiers ev code s;
                (s, handled) = leader_handleKeyUp code (now ev) s
            in if handled then s
               else
                 let (s, handled) = altgr_handleKeyUp code s
                 in if handled then s
                    else
                      let s = (if code = ''MetaLeft'' \<or> code = ''MetaRight''
                               then releaseMetaCombinations s else s)
                      in sendKeyup code (press_delete code s))"

definition handleCompositionStart :: "keyboard_ui \<Rightarrow> keyboard_ui" where
  "handleCompositionStart s = s\<lparr>isComposing := True\<rparr>"

definition handleCompositionEnd :: "keyboard_ui \<Rightarrow> keyboard_ui" where
  "handleCompositionEnd s = s\<lparr>isComposing := False\<rparr>"

definition handleBlur :: "keyboard_ui \<Rightarrow> keyboard_ui" where
  "handleBlur s = releaseKeys (s\<lparr>isComposing := False\<rparr>)"

definition handleFocus :: "keyboard_ui \<Rightarrow> keyboard_ui" where
  "handleFocus s = releaseKeys (s\<lparr>isComposing := False\<rparr>)"

definition handleVisibilityChange :: "bool \<Rightarrow> keyboard_ui \<Rightarrow> keyboard_ui" where
  "handleVisibilityChange hidden s =
    (let s = s\<lparr>isComposing := False\<rparr> in if hidden then releaseKeys s else s)"

text \<open>
  A change of \<^verbatim>\<open>isKeyboardEnabled\<close> runs the effect's cleanup, which releases the keys, and
  registers the handlers again; leaving the page runs the cleanup alone.
\<close>

definition setEnabled :: "bool \<Rightarrow> keyboard_ui \<Rightarrow> keyboard_ui" where
  "setEnabled b s = (if b = enabled s then s else (releaseKeys s)\<lparr>enabled := b\<rparr>)"

definition setLeaderKey :: "string \<Rightarrow> keyboard_ui \<Rightarrow> keyboard_ui" where
  "setLeaderKey code s = s\<lparr>leader := (leader s)\<lparr>leader_code := code\<rparr>\<rparr>"

datatype ui_event =
  Down kbd_event | Up kbd_event | CompositionStart | CompositionEnd | Blur | Focus
| Visibility bool | Enable bool | LeaderKey string | Takeover | Unmount

fun ui_step :: "string \<Rightarrow> keyboard_ui \<Rightarrow> ui_event \<Rightarrow> keyboard_ui" where
  "ui_step os s (Down ev) = handleKeyDown os ev s"
| "ui_step os s (Up ev) = handleKeyUp os ev s"
| "ui_step os s CompositionStart = handleCompositionStart s"
| "ui_step os s CompositionEnd = handleCompositionEnd s"
| "ui_step os s Blur = handleBlur s"
| "ui_step os s Focus = handleFocus s"
| "ui_step os s (Visibility hidden) = handleVisibilityChange hidden s"
| "ui_step os s (Enable b) = setEnabled b s"
| "ui_step os s (LeaderKey c) = setLeaderKey c s"
| "ui_step os s Takeover = takeover s"
| "ui_step os s Unmount = releaseKeys s"

section \<open>Effect of the senders\<close>

lemma sendKeyup_fields [simp]:
  "report (sendKeyup c s) = fst (keyUp (report s) c)"
  "pressed (sendKeyup c s) = pressed s" "leader (sendKeyup c s) = leader s"
  "altgr (sendKeyup c s) = altgr s" "enabled (sendKeyup c s) = enabled s"
  "isComposing (sendKeyup c s) = isComposing s"
  "sent (sendKeyup c s) = sent s @ [KEYBOARD_MESSAGE # buildReport (fst (keyUp (report s) c))]"
  by (simp_all add: sendKeyup_def sendReport_def split_beta snd_report)

lemma sendKeydown_fields [simp]:
  "report (sendKeydown c s) = fst (keyDown (report s) c)"
  "pressed (sendKeydown c s) = pressed s" "leader (sendKeydown c s) = leader s"
  "altgr (sendKeydown c s) = altgr s" "enabled (sendKeydown c s) = enabled s"
  "isComposing (sendKeydown c s) = isComposing s"
  "sent (sendKeydown c s) = sent s @ [KEYBOARD_MESSAGE # buildReport (fst (keyDown (report s) c))]"
  by (simp_all add: sendKeydown_def sendReport_def split_beta snd_report)

lemma reset_report_fields [simp]:
  "report (reset_report s) = new_keyboard_report"
  "pressed (reset_report s) = pressed s" "leader (reset_report s) = leader s"
  "altgr (reset_report s) = altgr s" "enabled (reset_report s) = enabled s"
  "isComposing (reset_report s) = isComposing s"
  "sent (reset_report s) = sent s @ [KEYBOARD_MESSAGE # buildReport new_keyboard_report]"
  by (simp_all add: reset_report_def sendReport_def split_beta snd_report reset_keys_new)

lemma press_fields [simp]:
  "report (press_add c s) = report s" "report (press_delete c s) = report s"
  "pressed (press_add c s) = js_add c (pressed s)"
  "pressed (press_delete c s) = js_delete c (pressed s)"
  "leader (press_add c s) = leader s" "leader (press_delete c s) = leader s"
  "altgr (press_add c s) = altgr s" "altgr (press_delete c s) = altgr s"
  "enabled (press_add c s) = enabled s" "enabled (press_delete c s) = enabled s"
  "isComposing (press_add c s) = isComposing s" "isComposing (press_delete c s) = isComposing s"
  "sent (press_add c s) = sent s" "sent (press_delete c s) = sent s"
  by (simp_all add: press_add_def press_delete_def)

lemma fold_keyup_fields [simp]:
  "pressed (fold sendKeyup cs s) = pressed s" "leader (fold sendKeyup cs s) = leader s"
  "altgr (fold sendKeyup cs s) = altgr s" "enabled (fold sendKeyup cs s) = enabled s"
  "isComposing (fold sendKeyup cs s) = isComposing s"
  by (induction cs arbitrary: s) simp_all

lemma leader_reset_fields [simp]:
  "pressed (leader_reset s) = pressed s" "altgr (leader_reset s) = altgr s"
  "enabled (leader_reset s) = enabled s" "isComposing (leader_reset s) = isComposing s"
  "leader (leader_reset s) = (leader s)\<lparr>startTime := 0, recordMode := False,
     recordModifiers := [], recordedKeys := []\<rparr>"
  by (simp_all add: leader_reset_def Let_def)

lemma altgr_reset_fields [simp]:
  "pressed (altgr_reset s) = pressed s" "leader (altgr_reset s) = leader s"
  "report (altgr_reset s) = report s" "sent (altgr_reset s) = sent s"
  "enabled (altgr_reset s) = enabled s" "isComposing (altgr_reset s) = isComposing s"
  "altgr (altgr_reset s) =
     map_option (\<lambda>a. a\<lparr>active := False, ctrlLeftTimestamp := 0\<rparr>) (altgr s)"
  by (simp_all add: altgr_reset_def)

section \<open>The host sees the report\<close>

definition host_view :: "keyboard_ui \<Rightarrow> byte list" where
  "host_view s = last ((KEYBOARD_MESSAGE # replicate 8 0) # sent s)"

definition synced :: "keyboard_ui \<Rightarrow> bool" where
  "synced s \<longleftrightarrow> host_view s = KEYBOARD_MESSAGE # buildReport (report s)"

lemma synced_senders [simp]:
  "synced (sendKeyup c s)" "synced (sendKeydown c s)" "synced (reset_report s)"
  by (simp_all add: synced_def host_view_def)

lemma synced_cong: "sent s = sent t \<Longrightarrow> report s = report t \<Longrightarrow> synced s = synced t"
  by (simp add: synced_def host_view_def)

lemma synced_updates [simp]:
  "synced (press_add c s) = synced s" "synced (press_delete c s) = synced s"
  "synced (altgr_reset s) = synced s" "synced (s\<lparr>pressed := ps\<rparr>) = synced s"
  "synced (s\<lparr>leader := l\<rparr>) = synced s" "synced (s\<lparr>altgr := a\<rparr>) = synced s"
  "synced (s\<lparr>isComposing := b\<rparr>) = synced s" "synced (s\<lparr>enabled := b\<rparr>) = synced s"
  by (rule synced_cong; simp)+

lemma synced_fold_keyup: "synced s \<Longrightarrow> synced (fold sendKeyup cs s)"
  by (induction cs arbitrary: s) simp_all

lemma synced_leader_reset: "synced s \<Longrightarrow> synced (leader_reset s)"
  by (simp add: leader_reset_def Let_def synced_fold_keyup)

lemma synced_stale: "synced s \<Longrightarrow> synced (releaseStaleModifiers ev c s)"
proof -
  have "synced s \<Longrightarrow> synced (fold (\<lambda>m s. sendKeyup m (press_delete m s)) ms s)" for ms s
    by (induction ms arbitrary: s) simp_all
  then show "synced s \<Longrightarrow> synced (releaseStaleModifiers ev c s)"
    by (simp add: releaseStaleModifiers_def)
qed

lemma synced_handleKeyDown: "synced s \<Longrightarrow> synced (handleKeyDown os ev s)"
  by (auto simp: handleKeyDown_def leader_handleKeyDown_def Let_def synced_stale)

lemma synced_handleKeyUp: "synced s \<Longrightarrow> synced (handleKeyUp os ev s)"
  by (auto simp: handleKeyUp_def leader_handleKeyUp_def altgr_handleKeyUp_def Let_def synced_stale
      synced_leader_reset split: option.split)

lemma synced_step: "synced s \<Longrightarrow> synced (ui_step os s e)"
  by (cases e) (auto simp: synced_handleKeyDown synced_handleKeyUp handleCompositionStart_def
      handleCompositionEnd_def handleBlur_def handleFocus_def handleVisibilityChange_def
      setEnabled_def setLeaderKey_def takeover_def releaseKeys_def Let_def)

lemma synced_init: "synced (init_keyboard os)"
  by (simp add: synced_def host_view_def init_keyboard_def buildReport_eq new_keyboard_report_def
      numeral_eq_Suc)

interpretation keyboard: free_machine "init_keyboard os" "ui_step os" synced for os
  by unfold_locales (auto intro: synced_init synced_step)

section \<open>Frames\<close>

lemma framed_senders [simp]:
  "framed KEYBOARD_MESSAGE 8 (sent (sendKeyup c s)) = framed KEYBOARD_MESSAGE 8 (sent s)"
  "framed KEYBOARD_MESSAGE 8 (sent (sendKeydown c s)) = framed KEYBOARD_MESSAGE 8 (sent s)"
  "framed KEYBOARD_MESSAGE 8 (sent (reset_report s)) = framed KEYBOARD_MESSAGE 8 (sent s)"
  by (simp_all add: length_buildReport)

lemma framed_folds [simp]:
  "framed KEYBOARD_MESSAGE 8 (sent (fold sendKeyup cs s)) = framed KEYBOARD_MESSAGE 8 (sent s)"
  "framed KEYBOARD_MESSAGE 8 (sent (fold (\<lambda>m s. sendKeyup m (press_delete m s)) cs s)) =
    framed KEYBOARD_MESSAGE 8 (sent s)"
  "framed KEYBOARD_MESSAGE 8 (sent (fold (\<lambda>m s. press_delete m (sendKeyup m s)) cs s)) =
    framed KEYBOARD_MESSAGE 8 (sent s)"
  by (induction cs arbitrary: s) (simp_all del: sendKeyup_fields(7))

lemma framed_key_helpers [simp]:
  "framed KEYBOARD_MESSAGE 8 (sent (releaseStaleModifiers ev c s)) = framed KEYBOARD_MESSAGE 8 (sent s)"
  "framed KEYBOARD_MESSAGE 8 (sent (releaseMetaCombinations s)) = framed KEYBOARD_MESSAGE 8 (sent s)"
  "framed KEYBOARD_MESSAGE 8 (sent (leader_reset s)) = framed KEYBOARD_MESSAGE 8 (sent s)"
  "framed KEYBOARD_MESSAGE 8 (sent (releaseKeys s)) = framed KEYBOARD_MESSAGE 8 (sent s)"
  by (simp_all add: releaseStaleModifiers_def releaseMetaCombinations_def leader_reset_def
      releaseKeys_def Let_def del: reset_report_fields(7))

lemma framed_keys:
  "framed KEYBOARD_MESSAGE 8 (sent s) \<Longrightarrow> framed KEYBOARD_MESSAGE 8 (sent (handleKeyDown os ev s))"
  "framed KEYBOARD_MESSAGE 8 (sent s) \<Longrightarrow> framed KEYBOARD_MESSAGE 8 (sent (handleKeyUp os ev s))"
  by (auto simp: handleKeyDown_def leader_handleKeyDown_def altgr_handleKeyDown_def handleKeyUp_def
      leader_handleKeyUp_def altgr_handleKeyUp_def Let_def split: option.split
      simp del: sendKeyup_fields(7) sendKeydown_fields(7))

interpretation keyboard_device:
  input_device "init_keyboard os" "ui_step os" sent KEYBOARD_MESSAGE 8 for os
proof
  show "framed KEYBOARD_MESSAGE 8 (sent (init_keyboard os))" by (simp add: init_keyboard_def)
next
  fix s :: keyboard_ui and e :: ui_event
  assume "framed KEYBOARD_MESSAGE 8 (sent s)"
  then show "framed KEYBOARD_MESSAGE 8 (sent (ui_step os s e))"
    by (cases e) (auto simp: framed_keys handleCompositionStart_def handleCompositionEnd_def
        handleBlur_def handleFocus_def handleVisibilityChange_def setEnabled_def setLeaderKey_def
        takeover_def Let_def length_buildReport)
qed

section \<open>No key is held on the host unknown to the page\<close>

definition tracked :: "keyboard_ui \<Rightarrow> bool" where
  "tracked s \<longleftrightarrow> (\<forall>c. hid_held (report s) c \<longrightarrow> c \<in> set (pressed s))"

definition plain_leader :: "keyboard_ui \<Rightarrow> bool" where
  "plain_leader s \<longleftrightarrow>
    leader_code (leader s) = '''' \<and> \<not> recordMode (leader s) \<and> recordModifiers (leader s) = []"

definition plain_inv :: "keyboard_ui \<Rightarrow> bool" where
  "plain_inv s \<longleftrightarrow> tracked s \<and> plain_leader s \<and> altgr s = None"

fun no_leader_key :: "ui_event \<Rightarrow> bool" where
  "no_leader_key (LeaderKey c) \<longleftrightarrow> c = ''''"
| "no_leader_key _ \<longleftrightarrow> True"

lemma tracked_release: "tracked s \<Longrightarrow> tracked (sendKeyup c (press_delete c s))"
  by (auto simp: tracked_def hid_held_keyUp)

lemma tracked_keyup: "tracked s \<Longrightarrow> tracked (sendKeyup c s)"
  by (auto simp: tracked_def hid_held_keyUp)

lemma tracked_release': "tracked s \<Longrightarrow> tracked (press_delete c (sendKeyup c s))"
  by (auto simp: tracked_def hid_held_keyUp)

lemma tracked_press: "tracked s \<Longrightarrow> tracked (sendKeydown c (press_add c s))"
  by (auto simp: tracked_def dest!: hid_held_keyDown)

lemma tracked_updates [simp]:
  "tracked (s\<lparr>isComposing := b\<rparr>) = tracked s" "tracked (s\<lparr>enabled := b\<rparr>) = tracked s"
  "tracked (s\<lparr>leader := l\<rparr>) = tracked s" "tracked (s\<lparr>altgr := a\<rparr>) = tracked s"
  "tracked (reset_report s)"
  by (simp_all add: tracked_def)

lemma plain_inv_simps [simp]:
  "plain_leader (sendKeyup c s) = plain_leader s" "plain_leader (sendKeydown c s) = plain_leader s"
  "plain_leader (press_add c s) = plain_leader s" "plain_leader (press_delete c s) = plain_leader s"
  "plain_leader (s\<lparr>isComposing := b\<rparr>) = plain_leader s"
  "plain_leader (s\<lparr>enabled := b\<rparr>) = plain_leader s"
  by (simp_all add: plain_leader_def)

text \<open>The two loops that release several keys.\<close>

lemma stale_fold:
  fixes ms :: "string list"
  defines "rel \<equiv> fold (\<lambda>m s. sendKeyup m (press_delete m s)) ms"
  shows "tracked s \<Longrightarrow> tracked (rel s)"
    and "leader (rel s) = leader s" and "altgr (rel s) = altgr s"
    and "set (pressed (rel s)) = set (pressed s) - set ms"
  unfolding rel_def by (induction ms arbitrary: s) (auto simp: tracked_release)

lemma meta_fold:
  "plain_inv s \<Longrightarrow> plain_inv (fold (\<lambda>m s. press_delete m (sendKeyup m s)) ms s) \<and>
    set (pressed (fold (\<lambda>m s. press_delete m (sendKeyup m s)) ms s)) = set (pressed s) - set ms"
  by (induction ms arbitrary: s) (auto simp: plain_inv_def tracked_release')

lemma plain_stale:
  "plain_inv s \<Longrightarrow> plain_inv (releaseStaleModifiers ev c s)"
  "plain_inv s \<Longrightarrow> set (pressed (releaseStaleModifiers ev c s)) =
     set (pressed s) - set (releasedModifiers (pressed s) ev c)"
  using stale_fold [where s = s and ms = "releasedModifiers (pressed s) ev c"]
  by (simp_all add: releaseStaleModifiers_def plain_inv_def plain_leader_def)

lemma plain_meta:
  "plain_inv s \<Longrightarrow> plain_inv (releaseMetaCombinations s)"
  "plain_inv s \<Longrightarrow> set (pressed (releaseMetaCombinations s)) \<subseteq> set (pressed s)"
  using meta_fold by (auto simp: releaseMetaCombinations_def)

lemma plain_leader_idle:
  "plain_inv s \<Longrightarrow> leader_handleKeyDown c t s = (s, False)"
  "plain_inv s \<Longrightarrow> leader_handleKeyUp c t s = (s, False)"
  "plain_inv s \<Longrightarrow> altgr_handleKeyDown c u s = s"
  "plain_inv s \<Longrightarrow> altgr_handleKeyUp c s = (s, False)"
  by (simp_all add: plain_inv_def plain_leader_def leader_handleKeyDown_def leader_handleKeyUp_def
      altgr_handleKeyDown_def altgr_handleKeyUp_def)

lemma plain_press: "plain_inv s \<Longrightarrow> plain_inv (sendKeydown c (press_add c s))"
  by (simp add: plain_inv_def tracked_press)

lemma plain_release: "plain_inv s \<Longrightarrow> plain_inv (sendKeyup c (press_delete c s))"
  by (simp add: plain_inv_def tracked_release)

lemma plain_composing: "plain_inv s \<Longrightarrow> plain_inv (s\<lparr>isComposing := b\<rparr>)"
  by (simp add: plain_inv_def)

lemma plain_releaseKeys: "plain_inv s \<Longrightarrow> plain_inv (releaseKeys s)"
  by (simp add: plain_inv_def releaseKeys_def Let_def plain_leader_def)

lemma plain_takeover: "plain_inv s \<Longrightarrow> plain_inv (takeover s)"
  by (simp add: plain_inv_def takeover_def plain_leader_def)

text \<open>What a processed key event does to the keys the page holds.\<close>

lemma plain_handleKeyDown:
  assumes "plain_inv s"
  shows "plain_inv (handleKeyDown os ev s)"
  using plain_composing [OF assms, of False]
  by (auto simp: handleKeyDown_def Let_def assms plain_stale plain_leader_idle plain_press plain_release)

lemma plain_handleKeyUp:
  assumes "plain_inv s"
  shows "plain_inv (handleKeyUp os ev s)"
  by (auto simp: handleKeyUp_def Let_def assms plain_stale plain_leader_idle plain_release plain_meta)

lemma plain_step: "plain_inv s \<Longrightarrow> no_leader_key e \<Longrightarrow> plain_inv (ui_step os s e)"
proof (cases e)
  case (LeaderKey c)
  assume "plain_inv s" "no_leader_key e"
  with LeaderKey show ?thesis by (simp add: plain_inv_def plain_leader_def setLeaderKey_def)
next
  case (Enable b)
  assume "plain_inv s"
  with Enable plain_releaseKeys [of s] show ?thesis by (simp add: setEnabled_def plain_inv_def)
qed (auto simp: plain_handleKeyDown plain_handleKeyUp handleCompositionStart_def
      handleCompositionEnd_def handleBlur_def handleFocus_def handleVisibilityChange_def Let_def
      plain_composing plain_releaseKeys plain_takeover)

lemma plain_init: "os \<noteq> ''Windows'' \<Longrightarrow> plain_inv (init_keyboard os)"
  by (simp add: plain_inv_def init_keyboard_def tracked_def plain_leader_def)

interpretation plain_keyboard:
  guarded_machine "init_keyboard os" "\<lambda>_. no_leader_key" "ui_step os"
    "\<lambda>s. os \<noteq> ''Windows'' \<longrightarrow> plain_inv s" for os
  by unfold_locales (auto intro: plain_step plain_init)

section \<open>Properties\<close>

text \<open>
  C2: Whatever the browser delivers, in any order and with any leader key, the last keyboard
  frame handed to the connection is the message type followed by the report of the current
  keyboard state: the host is never behind the page.
\<close>

theorem host_sees_current_report:
  "host_view (foldl (ui_step os) (init_keyboard os) es) =
    KEYBOARD_MESSAGE # buildReport (report (foldl (ui_step os) (init_keyboard os) es))"
  using keyboard.inv_always [of os es] by (simp add: synced_def)

fun releasing :: "keyboard_ui \<Rightarrow> ui_event \<Rightarrow> bool" where
  "releasing s Blur = True"
| "releasing s Focus = True"
| "releasing s (Visibility hidden) = hidden"
| "releasing s (Enable b) = (b \<noteq> enabled s)"
| "releasing s Takeover = True"
| "releasing s Unmount = True"
| "releasing s _ = False"

lemma releaseKeys_fields [simp]:
  "report (releaseKeys s) = new_keyboard_report" "pressed (releaseKeys s) = []"
  "recordMode (leader (releaseKeys s)) = False" "recordModifiers (leader (releaseKeys s)) = []"
  "altgr_isActive (releaseKeys s) = False"
  "isComposing (releaseKeys s) = isComposing s" "enabled (releaseKeys s) = enabled s"
  "host_view (releaseKeys s) = KEYBOARD_MESSAGE # buildReport new_keyboard_report"
  by (simp_all add: releaseKeys_def Let_def altgr_isActive_def host_view_def split: option.split)

lemma host_view_enabled [simp]: "host_view (s\<lparr>enabled := b\<rparr>) = host_view s"
  by (simp add: host_view_def)

lemma altgr_isActive_enabled [simp]: "altgr_isActive (s\<lparr>enabled := b\<rparr>) = altgr_isActive s"
  by (simp add: altgr_isActive_def)

lemma blank_report: "buildReport new_keyboard_report = replicate 8 0"
  by (simp add: buildReport_eq new_keyboard_report_def numeral_eq_Suc)

text \<open>
  C3: Losing the focus, regaining it, hiding the page, disabling or enabling the keyboard, a
  takeover by the assistant and leaving the page each end with nothing held: no code recorded as
  pressed, no record mode, no AltGr, and an all-zero report as the last frame sent to the host.
\<close>

theorem releasing_event_clears_host:
  fixes s :: keyboard_ui and os :: string
  assumes "releasing s e"
  defines "s' \<equiv> ui_step os s e"
  shows "pressed s' = [] \<and> report s' = new_keyboard_report \<and>
    \<not> recordMode (leader s') \<and> recordModifiers (leader s') = [] \<and> \<not> altgr_isActive s' \<and>
    host_view s' = KEYBOARD_MESSAGE # replicate 8 0"
proof (cases "e = Takeover")
  case True
  then show ?thesis
    by (simp add: s'_def takeover_def altgr_isActive_def host_view_def blank_report split: option.split)
next
  case False
  with assms(1) show ?thesis
    by (cases e) (simp_all add: s'_def handleBlur_def handleFocus_def handleVisibilityChange_def
        setEnabled_def Let_def blank_report)
qed

theorem releasing_event_clears_host_witness:
  "host_view (ui_step ''Linux'' (sendKeydown ''KeyA'' (init_keyboard ''Linux'')) Blur) =
    KEYBOARD_MESSAGE # replicate 8 0"
  using releasing_event_clears_host
    [of "sendKeydown ''KeyA'' (init_keyboard ''Linux'')" Blur "''Linux''"] by simp

text \<open>
  C29: Without a leader key and without the AltGr workaround of Windows, every code the host
  sees held is recorded as pressed by the page, after any sequence of events, so every
  release path of the page reaches it.
\<close>

theorem host_keys_are_tracked:
  assumes "os \<noteq> ''Windows''"
    and "run_allowed (\<lambda>_. no_leader_key) (ui_step os) (init_keyboard os) es"
    and "hid_held (report (foldl (ui_step os) (init_keyboard os) es)) c"
  shows "c \<in> set (pressed (foldl (ui_step os) (init_keyboard os) es))"
  using plain_keyboard.inv_run [OF assms(2)] assms(1,3)
  by (auto simp: plain_inv_def tracked_def)

definition sample_event :: "string \<Rightarrow> kbd_event" where
  "sample_event c =
    \<lparr>ev_code = c, ev_key = '''', location = 0, ctrlKey = False, shiftKey = False, altKey = False,
     metaKey = False, altGraph = False, composing_flag = False, keyCode = 0, repeat_flag = False,
     timeStamp = 0, now = 0\<rparr>"

theorem host_keys_are_tracked_witness:
  "''KeyA'' \<in> set (pressed (foldl (ui_step ''Linux'') (init_keyboard ''Linux'')
    [Down (sample_event ''KeyA'')]))"
  by (rule host_keys_are_tracked) (simp, simp, code_simp)

lemma releasedModifiers_iff:
  "m \<in> set (releasedModifiers ps ev code) \<longleftrightarrow>
    m \<in> set ps \<and> (\<exists>(codes, held) \<in> set MODIFIER_FAMILIES.
      m \<in> set codes \<and> code \<notin> set codes \<and> \<not> held ev)"
  by (auto simp: releasedModifiers_def split: if_splits)

lemma handleKeyDown_pressed:
  assumes "plain_inv s" "enabled s" "\<not> isCompositionKey (isComposing s) ev"
    "normalizeKeyCode ev os \<noteq> ''''"
  shows "set (pressed (handleKeyDown os ev s)) \<subseteq> insert (normalizeKeyCode ev os)
    (set (pressed s) - set (releasedModifiers (pressed s) ev (normalizeKeyCode ev os)))"
proof -
  let ?c = "normalizeKeyCode ev os"
  define t where "t = releaseStaleModifiers ev ?c (s\<lparr>isComposing := False\<rparr>)"
  have inv: "plain_inv t" and set: "set (pressed t) =
      set (pressed s) - set (releasedModifiers (pressed s) ev ?c)"
    using plain_stale [OF plain_composing [OF assms(1), of False], of ev ?c] by (auto simp: t_def)
  define u where "u = (if ?c \<in> set (pressed t) then sendKeyup ?c (press_delete ?c t) else t)"
  have "plain_inv u" "set (pressed u) \<subseteq> set (pressed t)"
    using inv by (auto simp: u_def plain_release)
  moreover have "handleKeyDown os ev s =
      (if ?c \<in> set (pressed t) \<and> repeat_flag ev then t else sendKeydown ?c (press_add ?c u))"
    using assms(2-4) plain_leader_idle [OF \<open>plain_inv u\<close>]
    by (cases "?c \<in> set (pressed t)")
      (simp_all add: handleKeyDown_def Let_def t_def [symmetric] u_def)
  ultimately show ?thesis using set by auto
qed

text \<open>
  A lost release of a modifier is repaired by the next key press: after a press is
  processed, a modifier whose family the browser reports as up is not held on the host, unless
  the press is of that family itself.
\<close>

theorem stale_modifier_released:
  assumes "plain_inv s" and "enabled s" and "\<not> isCompositionKey (isComposing s) ev"
    and "normalizeKeyCode ev os \<noteq> ''''"
    and "(codes, held) \<in> set MODIFIER_FAMILIES" and "\<not> held ev"
    and "normalizeKeyCode ev os \<notin> set codes" and "m \<in> set codes"
  shows "\<not> hid_held (report (handleKeyDown os ev s)) m"
proof
  assume "hid_held (report (handleKeyDown os ev s)) m"
  then have "m \<in> set (pressed (handleKeyDown os ev s))"
    using plain_handleKeyDown [OF assms(1), of os ev] by (simp add: plain_inv_def tracked_def)
  then have "m \<in> set (pressed s) - set (releasedModifiers (pressed s) ev (normalizeKeyCode ev os))"
    using handleKeyDown_pressed [OF assms(1-4)] assms(7,8) by auto
  then show False
    using assms(5-8) by (auto simp: releasedModifiers_iff)
qed

theorem stale_modifier_released_witness:
  "\<not> hid_held (report (handleKeyDown ''Linux'' (sample_event ''KeyA'')
      (ui_step ''Linux'' (init_keyboard ''Linux'') (Down (sample_event ''ShiftLeft''))))) ''ShiftLeft''"
proof -
  let ?s = "ui_step ''Linux'' (init_keyboard ''Linux'') (Down (sample_event ''ShiftLeft''))"
  have "plain_inv ?s" by (rule plain_step [OF plain_init]) simp_all
  moreover have "enabled ?s" "\<not> isCompositionKey (isComposing ?s) (sample_event ''KeyA'')"
    by code_simp+
  moreover have "normalizeKeyCode (sample_event ''KeyA'') ''Linux'' = ''KeyA''" by code_simp
  moreover have "([''ShiftLeft'', ''ShiftRight''], shiftKey) \<in> set MODIFIER_FAMILIES"
    by (simp add: MODIFIER_FAMILIES_def)
  ultimately show ?thesis
    using stale_modifier_released [of ?s "sample_event ''KeyA''" "''Linux''"
        "[''ShiftLeft'', ''ShiftRight'']" shiftKey "''ShiftLeft''"]
    by (simp add: sample_event_def del: ui_step.simps)
qed

section \<open>AltGr\<close>

lemma hid_held_keyDown_self: "isModifier c \<Longrightarrow> getModifierBit c \<noteq> 0 \<Longrightarrow> hid_held (fst (keyDown kb c)) c"
  by (simp add: hid_held_def keyDown_def Let_def bit.conj_disj_distrib2)

text \<open>
  On Windows, where a browser announces AltGr as a left Control followed within ten
  milliseconds by a right Alt, a recorded left Control is taken back: after the press of the
  right Alt the host sees the right Alt held and the left Control not.
\<close>

theorem altgr_hides_control:
  assumes "altgr s = Some a" and "timeStamp ev - ctrlLeftTimestamp a < ALTGR_THRESHOLD_MS"
    and "tracked s" and "plain_leader s" and "enabled s"
    and "\<not> isCompositionKey (isComposing s) ev"
    and "normalizeKeyCode ev os = ''AltRight''" and "''AltRight'' \<notin> set (pressed s)"
  defines "s' \<equiv> handleKeyDown os ev s"
  shows "hid_held (report s') ''AltRight'' \<and> \<not> hid_held (report s') ''ControlLeft''"
proof -
  define t where "t = releaseStaleModifiers ev ''AltRight'' (s\<lparr>isComposing := False\<rparr>)"
  have t: "tracked t" "leader t = leader s" "altgr t = Some a" "''AltRight'' \<notin> set (pressed t)"
    using assms(1,3,8) stale_fold [where s = "s\<lparr>isComposing := False\<rparr>"]
    by (auto simp: t_def releaseStaleModifiers_def)
  define u where "u = altgr_handleKeyDown ''AltRight'' (timeStamp ev) t"
  have u: "tracked u" "''ControlLeft'' \<notin> set (pressed u)"
    using t(1,3) assms(2) by (auto simp: u_def altgr_handleKeyDown_def tracked_release)
  have "s' = sendKeydown ''AltRight'' (press_add ''AltRight'' u)"
    using assms(4-7) t(2,4)
    by (simp add: s'_def handleKeyDown_def Let_def t_def [symmetric] u_def leader_handleKeyDown_def
        plain_leader_def)
  moreover have "hid_held (fst (keyDown (report u) ''AltRight'')) ''AltRight''"
    by (rule hid_held_keyDown_self) code_simp+
  ultimately show ?thesis
    using u by (auto simp: tracked_def dest!: hid_held_keyDown)
qed

theorem altgr_hides_control_witness:
  "\<not> hid_held (report (handleKeyDown ''Windows'' (sample_event ''AltRight'')
      (ui_step ''Windows'' (init_keyboard ''Windows'') (Down (sample_event ''ControlLeft'')))))
    ''ControlLeft''"
proof -
  let ?s = "ui_step ''Windows'' (init_keyboard ''Windows'') (Down (sample_event ''ControlLeft''))"
  let ?a = "\<lparr>active = False, ctrlLeftTimestamp = 0\<rparr>"
  have s: "?s = sendKeydown ''ControlLeft'' (press_add ''ControlLeft'' (init_keyboard ''Windows''))"
    by (simp add: handleKeyDown_def sample_event_def init_keyboard_def isCompositionKey_def Let_def
        normalizeKeyCode_def releaseStaleModifiers_def releasedModifiers_def MODIFIER_FAMILIES_def
        leader_handleKeyDown_def altgr_handleKeyDown_def)
  have "tracked ?s"
    unfolding s by (rule tracked_press) (simp add: tracked_def init_keyboard_def)
  moreover have "altgr ?s = Some ?a" "plain_leader ?s" "enabled ?s" "\<not> isComposing ?s"
    "''AltRight'' \<notin> set (pressed ?s)"
    unfolding s by (simp_all add: init_keyboard_def plain_leader_def js_add_def)
  ultimately show ?thesis
    using altgr_hides_control [of ?s ?a "sample_event ''AltRight''" "''Windows''"]
    by (simp add: isCompositionKey_def sample_event_def normalizeKeyCode_def ALTGR_THRESHOLD_MS_def
        del: ui_step.simps)
qed

section \<open>Stuck keys\<close>

text \<open>
  With a leader key set, a key that is held when the leader is pressed and released before
  the leader is swallowed by the record mode: every key has been released in the browser, the
  page records none as pressed, and the host still holds the key.
\<close>

theorem leader_swallows_release:
  "let s = foldl (ui_step ''Linux'') (init_keyboard ''Linux'')
     [LeaderKey ''ControlRight'', Down (sample_event ''KeyA''),
      Down (sample_event ''ControlRight''), Up (sample_event ''KeyA''),
      Up ((sample_event ''ControlRight'')\<lparr>now := 400\<rparr>)]
   in pressed s = [] \<and> \<not> recordMode (leader s) \<and> hid_held (report s) ''KeyA'' \<and>
      host_view s = [KEYBOARD_MESSAGE, 0, 0, 4, 0, 0, 0, 0, 0]"
  by code_simp

text \<open>
  On Windows a left Control pressed while AltGr is down is forwarded, and its release is
  swallowed: after every key has been released in the browser the page records none as pressed
  and the host still holds the left Control.
\<close>

theorem altgr_swallows_control_release:
  "let s = foldl (ui_step ''Windows'') (init_keyboard ''Windows'')
     [Down ((sample_event ''ControlLeft'')\<lparr>ctrlKey := True\<rparr>),
      Down ((sample_event ''AltRight'')\<lparr>ctrlKey := True, altKey := True\<rparr>),
      Down ((sample_event ''ControlLeft'')\<lparr>ctrlKey := True, altKey := True, timeStamp := 500\<rparr>),
      Up ((sample_event ''ControlLeft'')\<lparr>altKey := True\<rparr>), Up (sample_event ''AltRight'')]
   in pressed s = [] \<and> \<not> altgr_isActive s \<and> hid_held (report s) ''ControlLeft''"
  by code_simp

end
