(* ===== verification/Mouse_Report.thy ===== *)
theory Mouse_Report
  imports Prelude
begin

text \<open>
  The HID mouse reports of \<^verbatim>\<open>web/src/lib/mouse.ts\<close>: the button byte, the relative report of
  four bytes and the absolute report of six. Operands of \<^verbatim>\<open>|\<close>, \<^verbatim>\<open>&\<close>, \<^verbatim>\<open>~\<close> and \<^verbatim>\<open>>>\<close> are 32-bit words,
  coordinates and deltas rationals.
\<close>

section \<open>Model\<close>

datatype mouse_bit = Left | Right | Middle | Back | Forward

fun MouseButtons :: "mouse_bit \<Rightarrow> int32" where
  "MouseButtons Left = push_bit 0 1"
| "MouseButtons Right = push_bit 1 1"
| "MouseButtons Middle = push_bit 2 1"
| "MouseButtons Back = push_bit 3 1"
| "MouseButtons Forward = push_bit 4 1"

definition getMouseButtonBit :: "nat \<Rightarrow> int32" where
  "getMouseButtonBit button =
    (if button = 0 then MouseButtons Left
     else if button = 1 then MouseButtons Middle
     else if button = 2 then MouseButtons Right
     else if button = 3 then MouseButtons Back
     else if button = 4 then MouseButtons Forward
     else 0)"

text \<open>Both report classes keep the buttons in one field and update it alike.\<close>

definition buttonDown :: "int32 \<Rightarrow> nat \<Rightarrow> int32" where
  "buttonDown buttons button = buttons OR getMouseButtonBit button"

definition buttonUp :: "int32 \<Rightarrow> nat \<Rightarrow> int32" where
  "buttonUp buttons button = buttons AND NOT (getMouseButtonBit button)"

definition clamp :: "int \<Rightarrow> int \<Rightarrow> int \<Rightarrow> int" where
  "clamp value lo hi = max lo (min hi value)"

definition delta_byte :: "rat \<Rightarrow> byte" where
  "delta_byte d = ucast ((word_of_int (clamp (js_round d) (-127) 127) :: int32) AND 255)"

definition rel_buildReport :: "int32 \<Rightarrow> rat \<Rightarrow> rat \<Rightarrow> rat \<Rightarrow> byte list" where
  "rel_buildReport buttons deltaX deltaY wheel =
    [ucast buttons, delta_byte deltaX, delta_byte deltaY, delta_byte wheel]"

definition rel_buildButtonReport :: "int32 \<Rightarrow> byte list" where
  "rel_buildButtonReport buttons = rel_buildReport buttons 0 0 0"

definition rel_reset :: "int32 \<Rightarrow> int32 \<times> byte list" where
  "rel_reset buttons = (0, rel_buildReport 0 0 0 0)"

definition abs_buildReport :: "int32 \<Rightarrow> rat \<Rightarrow> rat \<Rightarrow> rat \<Rightarrow> byte list" where
  "abs_buildReport buttons x y wheel =
    [ucast buttons,
     ucast (to_int32 x AND 255), ucast (signed_drop_bit 8 (to_int32 x) AND 255),
     ucast (to_int32 y AND 255), ucast (signed_drop_bit 8 (to_int32 y) AND 255),
     delta_byte wheel]"

definition abs_buildButtonReport :: "int32 \<Rightarrow> rat \<Rightarrow> rat \<Rightarrow> byte list" where
  "abs_buildButtonReport buttons lastX lastY = abs_buildReport buttons lastX lastY 0"

definition abs_reset :: "int32 \<Rightarrow> rat \<Rightarrow> rat \<Rightarrow> int32 \<times> byte list" where
  "abs_reset buttons x y = (0, abs_buildReport 0 x y 0)"

section \<open>Buttons\<close>

definition button_held :: "int32 \<Rightarrow> nat \<Rightarrow> bool" where
  "button_held buttons button \<longleftrightarrow> buttons AND getMouseButtonBit button \<noteq> 0"

lemma getMouseButtonBit_disjoint:
  "getMouseButtonBit a AND getMouseButtonBit b \<noteq> 0 \<Longrightarrow> a = b"
  by (auto simp: getMouseButtonBit_def split: if_splits)

lemma button_held_zero [simp]: "\<not> button_held 0 b"
  by (simp add: button_held_def)

lemma button_held_down:
  "button_held (buttonDown bs a) b \<longleftrightarrow> button_held bs b \<or> (a = b \<and> getMouseButtonBit a \<noteq> 0)"
proof -
  have "(bs OR getMouseButtonBit a) AND getMouseButtonBit b =
      (bs AND getMouseButtonBit b) OR (getMouseButtonBit a AND getMouseButtonBit b)"
    by (simp add: bit.conj_disj_distrib2)
  then show ?thesis
    using getMouseButtonBit_disjoint [of a b]
    by (auto simp: button_held_def buttonDown_def or_eq_0_iff)
qed

lemma button_held_up: "button_held (buttonUp bs a) b \<longleftrightarrow> button_held bs b \<and> a \<noteq> b"
proof (cases "a = b")
  case True
  then show ?thesis by (simp add: button_held_def buttonUp_def and.assoc)
next
  case False
  then have "getMouseButtonBit b AND getMouseButtonBit a = 0"
    using getMouseButtonBit_disjoint by blast
  then have "NOT (getMouseButtonBit a) AND getMouseButtonBit b = getMouseButtonBit b"
    by (auto simp: bit_eq_iff bit_simps)
  with False show ?thesis by (simp add: button_held_def buttonUp_def and.assoc)
qed

section \<open>Report fields\<close>

lemma int32_low_byte:
  "unat (ucast (w AND 255 :: int32) :: byte) = unat w mod 256"
proof -
  have "(255 :: int32) = mask 8" by (simp add: mask_eq_exp_minus_1)
  then have "w AND 255 = take_bit 8 w" by (simp add: take_bit_eq_mask and.commute)
  then show ?thesis by (simp add: unsigned_ucast_eq unsigned_take_bit_eq take_bit_eq_mod unat_mod)
qed

lemma to_int32_nat:
  "unat (to_int32 (of_nat n)) = n mod 2 ^ 32"
proof -
  have "js_trunc (of_nat n) = int n" by (simp add: js_trunc_def)
  then show ?thesis by (simp add: to_int32_def unat_of_nat flip: word_of_nat_eq_0_iff)
qed

lemma int32_second_byte:
  "unat (ucast (signed_drop_bit 8 w AND 255 :: int32) :: byte) = unat w div 256 mod 256"
proof -
  have mask: "(255 :: int32) = mask 8" by (simp add: mask_eq_exp_minus_1)
  have "signed_drop_bit 8 w AND 255 = drop_bit 8 w AND 255"
    unfolding mask by (rule bit_word_eqI) (auto simp: bit_simps)
  then show ?thesis
    unfolding int32_low_byte [of "drop_bit 8 w", symmetric]
    by (simp add: int32_low_byte unsigned_drop_bit_eq drop_bit_eq_div unat_div)
qed

lemma unat_signed_drop: "unat (signed_drop_bit 8 w :: int32) mod 256 = unat w div 256 mod 256"
  using int32_second_byte [of w] by (simp add: int32_low_byte)

lemma clamp_bounds: "lo \<le> hi \<Longrightarrow> lo \<le> clamp v lo hi \<and> clamp v lo hi \<le> hi"
  by (simp add: clamp_def)

lemma sint_delta_byte: "sint (delta_byte d) = clamp (js_round d) (-127) 127"
proof -
  let ?c = "clamp (js_round d) (-127) 127"
  have mask: "(255 :: int32) = mask 8" by (simp add: mask_eq_exp_minus_1)
  have "delta_byte d = word_of_int ?c"
    unfolding delta_byte_def mask by (rule bit_word_eqI) (simp add: bit_simps)
  moreover have "-127 \<le> ?c" "?c \<le> 127" using clamp_bounds [of "-127" 127 "js_round d"] by auto
  ultimately show ?thesis by (simp add: sint_sbintrunc' signed_take_bit_int_eq_self)
qed

section \<open>Properties\<close>

text \<open>
  The relative report carries the buttons and, as signed bytes, the rounded movement and
  wheel limited to -127..127: the value -128, which HID mice do not define, never occurs.
\<close>

theorem relative_report_fields:
  "map sint (tl (rel_buildReport buttons dx dy w)) =
      [clamp (js_round dx) (-127) 127, clamp (js_round dy) (-127) 127, clamp (js_round w) (-127) 127]
    \<and> (\<forall>b \<in> set (tl (rel_buildReport buttons dx dy w)). b \<noteq> 128)"
proof -
  have "delta_byte d \<noteq> 128" for d
  proof
    assume "delta_byte d = 128"
    then have "sint (delta_byte d) = -128" by simp
    with clamp_bounds [of "-127" 127 "js_round d"] show False by (simp add: sint_delta_byte)
  qed
  then show ?thesis by (simp add: rel_buildReport_def sint_delta_byte)
qed

theorem relative_report_fields_witness:
  "map sint (tl (rel_buildReport 1 300 (-5 / 2) 3)) = [127, -2, 3]"
proof -
  have "js_round 300 = 300" "js_round 3 = 3" "js_round (-5 / 2) = -2"
    using js_round_of_int [of 300] js_round_of_int [of 3] by (simp_all add: js_round_def)
  then show ?thesis
    using conjunct1 [OF relative_report_fields [of 1 300 "-5 / 2" 3]] by (simp add: clamp_def)
qed

text \<open>
  The absolute report is little endian: the two byte pairs give back every whole
  coordinate below 65536.
\<close>

theorem absolute_report_little_endian:
  fixes x y :: nat and buttons :: int32 and w :: rat
  assumes "x < 65536" and "y < 65536"
  defines "r \<equiv> abs_buildReport buttons (of_nat x) (of_nat y) w"
  shows "length r = 6 \<and> unat (r ! 1) + 256 * unat (r ! 2) = x \<and>
    unat (r ! 3) + 256 * unat (r ! 4) = y \<and> sint (r ! 5) = clamp (js_round w) (-127) 127"
proof -
  have "n mod 256 + 256 * (n div 256 mod 256) = n" if "n < 65536" for n :: nat
  proof -
    from that have "n div 256 < 256" by (simp add: less_mult_imp_div_less)
    then show ?thesis by simp
  qed
  then show ?thesis using assms(1,2)
    by (simp add: r_def abs_buildReport_def int32_low_byte unat_signed_drop to_int32_nat
      sint_delta_byte)
qed

theorem absolute_report_little_endian_witness:
  "unat (abs_buildReport 1 32768 513 0 ! 3) + 256 * unat (abs_buildReport 1 32768 513 0 ! 4) = 513"
  using absolute_report_little_endian [of 32768 513 1 0] by simp

end
