(* ===== verification/Screen_Geometry.thy ===== *)
theory Screen_Geometry
  imports Prelude
begin

text \<open>
  Where the captured picture lies on the page, \<^verbatim>\<open>web/src/pages/desktop/screen/geometry.ts\<close>: the
  size of the medium, the letterboxed rectangle it is drawn in, the black borders found in a
  sampled frame, and the input region an operator configures. Pixels and sizes are exact
  rationals. The canvas is the browser's: what drawing and reading it back gives is the
  argument \<open>drawn\<close>.
\<close>

section \<open>Types\<close>

record media_size =
  m_width :: rat
  m_height :: rat

record frame_content =
  left :: rat
  top :: rat
  width :: rat
  height :: rat

record input_region =
  frameWidth :: rat
  frameHeight :: rat
  r_left :: rat
  r_top :: rat
  r_width :: rat
  r_height :: rat

text \<open>
  The element of the page: its kind with the kind's own size and the numbers read from the two
  size attributes (\<open>None\<close> for an attribute that is not a number; a missing one reads as 0).
\<close>

datatype screen_kind =
  HTMLVideoElement rat rat nat  \<comment> \<open>\<^verbatim>\<open>videoWidth\<close>, \<^verbatim>\<open>videoHeight\<close>, \<^verbatim>\<open>readyState\<close>\<close>
| HTMLImageElement rat rat  \<comment> \<open>\<^verbatim>\<open>naturalWidth\<close>, \<^verbatim>\<open>naturalHeight\<close>\<close>
| HTMLCanvasElement
| OtherElement

record screen_element =
  dataWidth :: "rat option"
  dataHeight :: "rat option"
  kind :: screen_kind

datatype drawn =
  NoContext
| DrawThrows
| ReadThrows
| Pixels "nat list"

definition aspectRatioTolerance :: rat where
  "aspectRatioTolerance = 1 / 100"

definition blackPixelThreshold :: nat where
  "blackPixelThreshold = 32"

definition darkSampleRatio :: rat where
  "darkSampleRatio = 3 / 4"

section \<open>Media size\<close>

definition fullFrameContent :: "media_size \<Rightarrow> frame_content" where
  "fullFrameContent m = \<lparr>left = 0, top = 0, width = m_width m, height = m_height m\<rparr>"

definition positive_opt :: "rat option \<Rightarrow> bool" where
  "positive_opt v = (case v of None \<Rightarrow> False | Some x \<Rightarrow> x > 0)"

definition getMediaSize :: "screen_element \<Rightarrow> media_size option \<Rightarrow> media_size option" where
  "getMediaSize screen fallback =
    (if positive_opt (dataWidth screen) \<and> positive_opt (dataHeight screen)
     then Some \<lparr>m_width = the (dataWidth screen), m_height = the (dataHeight screen)\<rparr>
     else
       let rest = (case fallback of
             Some f \<Rightarrow> if m_width f > 0 \<and> m_height f > 0 then Some f else None
           | None \<Rightarrow> None)
       in case kind screen of
            HTMLVideoElement vw vh _ \<Rightarrow>
              if vw > 0 \<and> vh > 0 then Some \<lparr>m_width = vw, m_height = vh\<rparr> else rest
          | HTMLImageElement nw nh \<Rightarrow>
              if nw > 0 \<and> nh > 0 then Some \<lparr>m_width = nw, m_height = nh\<rparr> else rest
          | _ \<Rightarrow> rest)"

definition isMediaReady :: "screen_element \<Rightarrow> bool" where
  "isMediaReady screen =
    (case kind screen of
       HTMLVideoElement _ _ readyState \<Rightarrow> readyState \<ge> 2 \<and> getMediaSize screen None \<noteq> None
     | HTMLImageElement _ _ \<Rightarrow> getMediaSize screen None \<noteq> None
     | HTMLCanvasElement \<Rightarrow> getMediaSize screen None \<noteq> None
     | OtherElement \<Rightarrow> False)"

section \<open>Black borders\<close>

datatype axis = horizontal | vertical

text \<open>A read beyond the pixel data is \<^verbatim>\<open>undefined\<close>, which no comparison accepts.\<close>

definition dark :: "nat list \<Rightarrow> int \<Rightarrow> bool" where
  "dark pixels i \<longleftrightarrow>
    0 \<le> i \<and> nat i < length pixels \<and> pixels ! nat i \<le> blackPixelThreshold"

definition sample_lines :: "int \<Rightarrow> int \<Rightarrow> int list" where
  "sample_lines sampleStart sampleSize =
    map (\<lambda>ratio. sampleStart + js_round (of_int (sampleSize - 1) * ratio))
      [1 / 10, 2 / 10, 3 / 10, 4 / 10, 5 / 10, 6 / 10, 7 / 10, 8 / 10, 9 / 10]"

definition black_line ::
  "nat list \<Rightarrow> int \<Rightarrow> int \<Rightarrow> bool \<Rightarrow> axis \<Rightarrow> int list \<Rightarrow> int \<Rightarrow> bool" where
  "black_line pixels w h fromStart ax ls offset =
    (let darkSamples = length (filter (\<lambda>line.
           let x = (if ax = horizontal then (if fromStart then offset else w - offset - 1) else line);
               y = (if ax = horizontal then line else if fromStart then offset else h - offset - 1);
               index = (y * w + x) * 4
           in dark pixels index \<and> dark pixels (index + 1) \<and> dark pixels (index + 2)) ls)
     in rat_of_nat darkSamples / rat_of_nat (length ls) \<ge> darkSampleRatio)"

text \<open>The scan of \<^verbatim>\<open>findBorderInset\<close>: it runs at most \<open>limit\<close> times and stops at a bright line.\<close>

fun scan_border :: "(int \<Rightarrow> bool) \<Rightarrow> nat \<Rightarrow> int \<Rightarrow> int \<Rightarrow> int" where
  "scan_border black 0 offset inset = inset"
| "scan_border black (Suc n) offset inset =
     (if \<not> black offset then inset else scan_border black n (offset + 1) (offset + 1))"

definition findBorderInset ::
  "nat list \<Rightarrow> int \<Rightarrow> int \<Rightarrow> bool \<Rightarrow> axis \<Rightarrow> int \<Rightarrow> int \<Rightarrow> int" where
  "findBorderInset pixels w h fromStart ax sampleStart sampleEnd =
    (let scanSize = (if ax = horizontal then w else h);
         sampleSize = max 1 (sampleEnd - sampleStart);
         ls = sample_lines sampleStart sampleSize;
         limit = \<lfloor>rat_of_int scanSize * (45 / 100)\<rfloor>
     in scan_border (black_line pixels w h fromStart ax ls) (nat limit) 0 0)"

definition isSymmetricBorder :: "int \<Rightarrow> int \<Rightarrow> int \<Rightarrow> bool" where
  "isSymmetricBorder s e sz \<longleftrightarrow>
    s \<ge> max 4 (js_round (of_int sz * (2 / 100))) \<and>
    e \<ge> max 4 (js_round (of_int sz * (2 / 100))) \<and>
    \<bar>s - e\<bar> \<le> max 4 (js_round (of_int sz * (5 / 100)))"

text \<open>\<^verbatim>\<open>drawMediaFrame\<close> draws only the three media elements and reports a throw as false.\<close>

definition drawMediaFrame :: "screen_element \<Rightarrow> drawn \<Rightarrow> bool" where
  "drawMediaFrame screen d =
    (case kind screen of OtherElement \<Rightarrow> False | _ \<Rightarrow> d \<noteq> DrawThrows)"

definition detect_in_pixels :: "nat list \<Rightarrow> int \<Rightarrow> int \<Rightarrow> media_size \<Rightarrow> frame_content" where
  "detect_in_pixels pixels w h m =
    (let top0 = findBorderInset pixels w h True vertical 0 w;
         bottom0 = findBorderInset pixels w h False vertical 0 w;
         vertical0 = isSymmetricBorder top0 bottom0 h;
         from = (if vertical0 then top0 else 0);
         to = (if vertical0 then h - bottom0 else h);
         lft = findBorderInset pixels w h True horizontal from to;
         rgt = findBorderInset pixels w h False horizontal from to;
         horizontalBorder = isSymmetricBorder lft rgt w;
         top1 = (if horizontalBorder
                 then findBorderInset pixels w h True vertical lft (w - rgt) else top0);
         bottom1 = (if horizontalBorder
                    then findBorderInset pixels w h False vertical lft (w - rgt) else bottom0);
         verticalBorder = (if horizontalBorder then isSymmetricBorder top1 bottom1 h else vertical0);
         frameLeft = (if horizontalBorder then of_int lft / of_int w * m_width m else 0);
         frameRight = (if horizontalBorder then of_int rgt / of_int w * m_width m else 0);
         frameTop = (if verticalBorder then of_int top1 / of_int h * m_height m else 0);
         frameBottom = (if verticalBorder then of_int bottom1 / of_int h * m_height m else 0)
     in \<lparr>left = frameLeft, top = frameTop, width = m_width m - frameLeft - frameRight,
         height = m_height m - frameTop - frameBottom\<rparr>)"

definition detectFrameContent :: "screen_element \<Rightarrow> drawn \<Rightarrow> media_size \<Rightarrow> frame_content" where
  "detectFrameContent screen d m =
    (let sampleScale = min 1 (min (640 / m_width m) (360 / m_height m));
         w = max 1 (js_round (m_width m * sampleScale));
         h = max 1 (js_round (m_height m * sampleScale))
     in if d = NoContext \<or> \<not> drawMediaFrame screen d then fullFrameContent m
        else (case d of
                Pixels pixels \<Rightarrow> detect_in_pixels pixels w h m
              | _ \<Rightarrow> fullFrameContent m))"

section \<open>Placement\<close>

definition getRenderedMediaRect :: "frame_content \<Rightarrow> media_size \<Rightarrow> frame_content" where
  "getRenderedMediaRect elementRect m =
    (let mediaRatio = m_width m / m_height m;
         elementRatio = width elementRect / height elementRect
     in if mediaRatio > elementRatio
        then let h = width elementRect / mediaRatio;
                 offsetY = (height elementRect - h) / 2
             in \<lparr>left = left elementRect + 0, top = top elementRect + offsetY,
                 width = width elementRect, height = h\<rparr>
        else let w = height elementRect * mediaRatio;
                 offsetX = (width elementRect - w) / 2
             in \<lparr>left = left elementRect + offsetX, top = top elementRect + 0,
                 width = w, height = height elementRect\<rparr>)"

section \<open>Input region\<close>

definition isInteger :: "rat \<Rightarrow> bool" where
  "isInteger x \<longleftrightarrow> of_int \<lfloor>x\<rfloor> = x"

definition isValidInputRegion :: "input_region option \<Rightarrow> bool" where
  "isValidInputRegion region =
    (case region of
       None \<Rightarrow> False
     | Some r \<Rightarrow>
         list_all isInteger
           [frameWidth r, frameHeight r, r_left r, r_top r, r_width r, r_height r] \<and>
         frameWidth r > 0 \<and> frameHeight r > 0 \<and> r_left r \<ge> 0 \<and> r_top r \<ge> 0 \<and>
         r_width r > 0 \<and> r_height r > 0 \<and>
         r_left r + r_width r \<le> frameWidth r \<and> r_top r + r_height r \<le> frameHeight r)"

definition isInputRegionCompatible :: "input_region \<Rightarrow> media_size \<Rightarrow> bool" where
  "isInputRegionCompatible r m \<longleftrightarrow>
    \<bar>frameWidth r / frameHeight r - m_width m / m_height m\<bar> \<le> aspectRatioTolerance"

definition getConfiguredFrameContent :: "input_region \<Rightarrow> media_size \<Rightarrow> frame_content option" where
  "getConfiguredFrameContent r m =
    (if \<not> isValidInputRegion (Some r) then None
     else if \<not> isInputRegionCompatible r m then None
     else
       let scaleX = m_width m / frameWidth r;
           scaleY = m_height m / frameHeight r;
           c = \<lparr>left = r_left r * scaleX, top = r_top r * scaleY,
                width = r_width r * scaleX, height = r_height r * scaleY\<rparr>
       in if left c < 0 \<or> top c < 0 \<or> width c \<le> 0 \<or> height c \<le> 0 \<or>
             left c + width c > m_width m + 1 / 1000 \<or> top c + height c > m_height m + 1 / 1000
          then None else Some c)"

definition getCenteredInputRegionByAspectRatio ::
  "rat \<Rightarrow> rat \<Rightarrow> media_size \<Rightarrow> input_region option" where
  "getCenteredInputRegionByAspectRatio w h m =
    (if \<not> isInteger w \<or> \<not> isInteger h \<or> w \<le> 0 \<or> h \<le> 0 then None
     else
       let targetRatio = w / h;
           frameRatio = m_width m / m_height m;
           regionWidth = of_int (js_round
             (if targetRatio < frameRatio then m_height m * targetRatio else m_width m));
           regionHeight = of_int (js_round
             (if targetRatio < frameRatio then m_height m else m_width m / targetRatio))
       in Some \<lparr>frameWidth = m_width m, frameHeight = m_height m,
                r_left = of_int \<lfloor>(m_width m - regionWidth) / 2\<rfloor>,
                r_top = of_int \<lfloor>(m_height m - regionHeight) / 2\<rfloor>,
                r_width = regionWidth, r_height = regionHeight\<rparr>)"

section \<open>Properties\<close>

text \<open>Rectangles inside one another.\<close>

definition inside :: "frame_content \<Rightarrow> frame_content \<Rightarrow> bool" where
  "inside r outer \<longleftrightarrow> left outer \<le> left r \<and> top outer \<le> top r \<and>
    left r + width r \<le> left outer + width outer \<and> top r + height r \<le> top outer + height outer"

text \<open>
  The picture is drawn inside the element, centred, with the aspect ratio of the medium,
  as large as the element allows.
\<close>

theorem rendered_rect_fits:
  assumes "m_width m > 0" and "m_height m > 0" and "width e > 0" and "height e > 0"
  defines "q \<equiv> getRenderedMediaRect e m"
  shows "inside q e \<and> width q * m_height m = height q * m_width m \<and>
    width q > 0 \<and> height q > 0 \<and> (width q = width e \<or> height q = height e) \<and>
    left q - left e = left e + width e - (left q + width q) \<and>
    top q - top e = top e + height e - (top q + height q)"
  using assms(1-4)
  by (auto simp: q_def getRenderedMediaRect_def inside_def Let_def field_simps)

theorem rendered_rect_fits_witness:
  "inside (getRenderedMediaRect \<lparr>left = 10, top = 0, width = 800, height = 800\<rparr>
      \<lparr>m_width = 1920, m_height = 1080\<rparr>) \<lparr>left = 10, top = 0, width = 800, height = 800\<rparr>"
  using rendered_rect_fits [of "\<lparr>m_width = 1920, m_height = 1080\<rparr>"
      "\<lparr>left = 10, top = 0, width = 800, height = 800\<rparr>"] by simp

lemma scan_border_bounds:
  "inset = offset \<Longrightarrow> offset \<le> scan_border black n offset inset \<and>
    scan_border black n offset inset \<le> offset + int n"
proof (induction n arbitrary: offset inset)
  case (Suc n)
  from Suc.IH [of "offset + 1" "offset + 1"] Suc.prems show ?case by auto
qed simp

lemma findBorderInset_bounds:
  assumes "0 \<le> w" and "0 \<le> h"
  shows "0 \<le> findBorderInset px w h fs ax a b"
    and "100 * findBorderInset px w h fs ax a b \<le> 45 * (if ax = horizontal then w else h)"
proof -
  let ?s = "if ax = horizontal then w else h"
  let ?l = "\<lfloor>rat_of_int ?s * (45 / 100)\<rfloor>"
  have "0 \<le> ?l" using assms by simp
  moreover have "rat_of_int ?l \<le> rat_of_int ?s * (45 / 100)" by (rule of_int_floor_le)
  then have "rat_of_int (100 * ?l) \<le> rat_of_int (45 * ?s)" by simp
  then have "100 * ?l \<le> 45 * ?s" by linarith
  moreover have "findBorderInset px w h fs ax a b \<le> int (nat ?l)"
    "0 \<le> findBorderInset px w h fs ax a b"
    using scan_border_bounds [OF refl, of 0 _ "nat ?l"]
    by (simp_all only: findBorderInset_def Let_def) (simp_all del: int_nat_eq)
  ultimately show "0 \<le> findBorderInset px w h fs ax a b"
    "100 * findBorderInset px w h fs ax a b \<le> 45 * ?s" by auto
qed

definition small :: "rat \<Rightarrow> rat \<Rightarrow> bool" where
  "small x d \<longleftrightarrow> 0 \<le> x \<and> 20 * x \<le> 9 * d"

lemma small_zero: "0 < d \<Longrightarrow> small 0 d"
  by (simp add: small_def)

lemma small_inset:
  assumes "0 < w" and "0 < h" and "0 < d"
  shows "small (rat_of_int (findBorderInset px w h fs horizontal a b) / rat_of_int w * d) d"
    and "small (rat_of_int (findBorderInset px w h fs vertical a b) / rat_of_int h * d) d"
proof -
  have share: "small (rat_of_int i / rat_of_int s * d) d"
    if "0 \<le> i" "100 * i \<le> 45 * s" "0 < s" for i s :: int
  proof -
    have "rat_of_int (100 * i) \<le> rat_of_int (45 * s)" using that(2) by (simp only: of_int_le_iff)
    then have "20 * (rat_of_int i / rat_of_int s) \<le> 9" using that(3) by (simp add: field_simps)
    then have "20 * (rat_of_int i / rat_of_int s) * d \<le> 9 * d"
      using assms(3) by (intro mult_right_mono) auto
    with that assms(3) show ?thesis by (simp add: small_def mult.assoc)
  qed
  show "small (rat_of_int (findBorderInset px w h fs horizontal a b) / rat_of_int w * d) d"
    "small (rat_of_int (findBorderInset px w h fs vertical a b) / rat_of_int h * d) d"
    using share [OF findBorderInset_bounds [of w h px fs horizontal a b]]
      share [OF findBorderInset_bounds [of w h px fs vertical a b]] assms by simp_all
qed

definition proper_content :: "frame_content \<Rightarrow> media_size \<Rightarrow> bool" where
  "proper_content c m \<longleftrightarrow> 0 \<le> left c \<and> 0 \<le> top c \<and>
    left c + width c \<le> m_width m \<and> top c + height c \<le> m_height m \<and>
    m_width m \<le> 10 * width c \<and> m_height m \<le> 10 * height c"

lemma proper_full: "m_width m > 0 \<Longrightarrow> m_height m > 0 \<Longrightarrow> proper_content (fullFrameContent m) m"
  by (simp add: proper_content_def fullFrameContent_def)

lemma proper_of_small:
  assumes "small l (m_width m)" "small r (m_width m)" "small t (m_height m)" "small b (m_height m)"
  shows "proper_content \<lparr>left = l, top = t, width = m_width m - l - r,
    height = m_height m - t - b\<rparr> m"
proof -
  have "d \<le> 10 * (d - x - y)" if "small x d" "small y d" for x y d
    using that by (simp add: small_def algebra_simps)
  with assms show ?thesis by (simp add: proper_content_def small_def)
qed

lemma proper_detect:
  "0 < w \<Longrightarrow> 0 < h \<Longrightarrow> m_width m > 0 \<Longrightarrow> m_height m > 0 \<Longrightarrow>
    proper_content (detect_in_pixels px w h m) m"
  unfolding detect_in_pixels_def Let_def
  by (rule proper_of_small) (simp_all add: small_zero small_inset
      del: times_divide_eq_left times_divide_eq_right)

text \<open>
  Whatever the sampled pixels are, and when drawing or reading the canvas fails, the
  detected content lies inside the frame and keeps at least a tenth of it in each direction.
\<close>

theorem detected_content_inside_frame:
  assumes "m_width m > 0" and "m_height m > 0"
  shows "proper_content (detectFrameContent screen d m) m"
  using assms
  by (auto simp: detectFrameContent_def Let_def proper_full intro!: proper_detect split: drawn.split)

theorem detected_content_inside_frame_witness:
  "proper_content (detectFrameContent \<lparr>dataWidth = None, dataHeight = None, kind = HTMLCanvasElement\<rparr>
     (Pixels []) \<lparr>m_width = 1920, m_height = 1080\<rparr>) \<lparr>m_width = 1920, m_height = 1080\<rparr>"
  by (rule detected_content_inside_frame) simp_all

text \<open>
  A valid input region of a matching aspect ratio is never rejected: it gives a nonempty
  content that lies inside the frame exactly, so the tolerance of the final test is not needed.
\<close>

theorem configured_content_inside_frame:
  assumes "isValidInputRegion (Some r)" and "isInputRegionCompatible r m"
    and "m_width m > 0" and "m_height m > 0"
  shows "\<exists>c. getConfiguredFrameContent r m = Some c \<and> 0 \<le> left c \<and> 0 \<le> top c \<and>
    0 < width c \<and> 0 < height c \<and> left c + width c \<le> m_width m \<and> top c + height c \<le> m_height m"
proof -
  have fit: "a * (s / f) + b * (s / f) \<le> s" if "a + b \<le> f" "0 < f" "0 < s" for a b f s :: rat
  proof -
    have "(a + b) * s \<le> f * s" using that by (intro mult_right_mono) auto
    with that show ?thesis by (simp add: field_simps)
  qed
  have v: "frameWidth r > 0" "frameHeight r > 0" "r_left r \<ge> 0" "r_top r \<ge> 0" "r_width r > 0"
    "r_height r > 0" "r_left r + r_width r \<le> frameWidth r" "r_top r + r_height r \<le> frameHeight r"
    using assms(1) by (auto simp: isValidInputRegion_def)
  show ?thesis
    using v assms mult_nonneg_nonneg [of "r_left r" "m_width m / frameWidth r"]
      mult_nonneg_nonneg [of "r_top r" "m_height m / frameHeight r"]
      mult_pos_pos [of "r_width r" "m_width m / frameWidth r"]
      mult_pos_pos [of "r_height r" "m_height m / frameHeight r"]
      fit [of "r_left r" "r_width r" "frameWidth r" "m_width m"]
      fit [of "r_top r" "r_height r" "frameHeight r" "m_height m"]
    by (simp add: getConfiguredFrameContent_def Let_def not_less not_le
        del: times_divide_eq_right times_divide_eq_left)
qed

theorem configured_content_inside_frame_witness:
  "\<exists>c. getConfiguredFrameContent
     \<lparr>frameWidth = 1920, frameHeight = 1080, r_left = 240, r_top = 0, r_width = 1440, r_height = 1080\<rparr>
     \<lparr>m_width = 1280, m_height = 720\<rparr> = Some c \<and> left c + width c \<le> 1280"
  using configured_content_inside_frame [of
     "\<lparr>frameWidth = 1920, frameHeight = 1080, r_left = 240, r_top = 0, r_width = 1440, r_height = 1080\<rparr>"
     "\<lparr>m_width = 1280, m_height = 720\<rparr>"]
  by (auto simp: isValidInputRegion_def isInteger_def isInputRegionCompatible_def aspectRatioTolerance_def)

text \<open>The centred region of a requested aspect ratio, on a frame of whole pixels.\<close>

lemma js_round_fit:
  assumes "0 \<le> x" and "x \<le> of_int n"
  shows "0 \<le> js_round x" and "js_round x \<le> n"
    and "0 \<le> \<lfloor>(of_int n - rat_of_int (js_round x)) / 2\<rfloor>"
    and "\<lfloor>(of_int n - rat_of_int (js_round x)) / 2\<rfloor> + js_round x \<le> n"
proof -
  show lo: "0 \<le> js_round x" using js_round_mono [OF assms(1)] js_round_of_int [of 0] by simp
  show hi: "js_round x \<le> n" using js_round_mono [OF assms(2)] by simp
  then have diff: "0 \<le> rat_of_int n - rat_of_int (js_round x)" by simp
  then show "0 \<le> \<lfloor>(of_int n - rat_of_int (js_round x)) / 2\<rfloor>" by simp
  have "\<lfloor>(rat_of_int n - rat_of_int (js_round x)) / 2\<rfloor> \<le> \<lfloor>rat_of_int n - rat_of_int (js_round x)\<rfloor>"
    using diff by (intro floor_mono) simp
  also have "\<dots> = n - js_round x" by (metis floor_of_int of_int_diff)
  finally show "\<lfloor>(of_int n - rat_of_int (js_round x)) / 2\<rfloor> + js_round x \<le> n" by simp
qed

lemma isInteger_of_int [simp]: "isInteger (of_int n)"
  by (simp add: isInteger_def)

text \<open>
  On a frame of whole pixels the region proposed for an aspect ratio lies inside the frame,
  and it is a valid input region unless rounding makes it empty.
\<close>

theorem centered_region_valid:
  assumes "isInteger w" and "isInteger h" and "w > 0" and "h > 0"
    and "m = \<lparr>m_width = of_int fw, m_height = of_int fh\<rparr>" and "fw > 0" and "fh > 0"
  shows "\<exists>r. getCenteredInputRegionByAspectRatio w h m = Some r \<and>
    0 \<le> r_left r \<and> 0 \<le> r_top r \<and> r_left r + r_width r \<le> of_int fw \<and>
    r_top r + r_height r \<le> of_int fh \<and>
    (isValidInputRegion (Some r) \<longleftrightarrow> r_width r > 0 \<and> r_height r > 0)"
proof -
  define x where "x = (if w / h < of_int fw / of_int fh then of_int fh * (w / h) else rat_of_int fw)"
  define y where "y = (if w / h < of_int fw / of_int fh then rat_of_int fh else of_int fw / (w / h))"
  have x: "0 \<le> x" "x \<le> of_int fw" and y: "0 \<le> y" "y \<le> of_int fh"
    using assms(3,4,6,7) by (auto simp: x_def y_def field_simps)
  let ?r = "\<lparr>frameWidth = rat_of_int fw, frameHeight = rat_of_int fh,
    r_left = of_int \<lfloor>(of_int fw - rat_of_int (js_round x)) / 2\<rfloor>,
    r_top = of_int \<lfloor>(of_int fh - rat_of_int (js_round y)) / 2\<rfloor>,
    r_width = of_int (js_round x), r_height = of_int (js_round y)\<rparr>"
  have "getCenteredInputRegionByAspectRatio w h m = Some ?r"
    using assms(1-5) by (simp add: getCenteredInputRegionByAspectRatio_def Let_def x_def y_def)
  moreover have "r_left ?r + r_width ?r \<le> of_int fw" "r_top ?r + r_height ?r \<le> of_int fh"
    using js_round_fit(4) [OF x] js_round_fit(4) [OF y]
    by (simp_all flip: of_int_add)
  moreover have "0 \<le> r_left ?r" "0 \<le> r_top ?r"
    using js_round_fit(3) [OF x] js_round_fit(3) [OF y] by simp_all
  ultimately show ?thesis
    using assms(6,7) by (intro exI [of _ ?r]) (auto simp: isValidInputRegion_def)
qed

theorem centered_region_valid_witness:
  "\<exists>r. getCenteredInputRegionByAspectRatio 4 3 \<lparr>m_width = of_int 1920, m_height = of_int 1080\<rparr> = Some r \<and>
    r_left r + r_width r \<le> of_int 1920"
  using centered_region_valid [of 4 3 "\<lparr>m_width = of_int 1920, m_height = of_int 1080\<rparr>" 1920 1080]
  by (auto simp: isInteger_def)

end
