(* ===== verification/Mouse_Absolute.thy ===== *)
theory Mouse_Absolute
  imports Mouse_Report Screen_Geometry
begin

text \<open>
  The absolute pointer of the desktop page, \<^verbatim>\<open>web/src/pages/desktop/mouse/absolute.tsx\<close>: from a
  position on the page to a HID coordinate, and from mouse and touch events to reports. Moves
  are queued for the next animation frame; a long press is a timer. What is handed to
  \<^verbatim>\<open>client.send\<close> is the log \<open>sent\<close>.
\<close>

section \<open>Coordinates\<close>

text \<open>What the page shows when an event is handled.\<close>

record view =
  cropped :: "frame_content option"  \<comment> \<open>rectangle of a cropped \<^verbatim>\<open>screen-viewport\<close> parent\<close>
  rect :: frame_content  \<comment> \<open>of the target element\<close>
  element :: screen_element
  resolution :: "media_size option"
  inputRegion :: "input_region option"

definition getEffectiveFrameContent :: "view \<Rightarrow> media_size \<Rightarrow> frame_content" where
  "getEffectiveFrameContent v m =
    (case inputRegion v of
       None \<Rightarrow> fullFrameContent m
     | Some r \<Rightarrow> (case getConfiguredFrameContent r m of Some c \<Rightarrow> c | None \<Rightarrow> fullFrameContent m))"

definition media_of :: "view \<Rightarrow> media_size option" where
  "media_of v =
    (case getMediaSize (element v) None of
       Some m \<Rightarrow> Some m
     | None \<Rightarrow>
         (case resolution v of
            Some r \<Rightarrow> if m_width r > 0 \<and> m_height r > 0 then Some r else None
          | None \<Rightarrow> None))"

definition getCorrectedCoords :: "view \<Rightarrow> rat \<Rightarrow> rat \<Rightarrow> (rat \<times> rat) option" where
  "getCorrectedCoords v clientX clientY =
    (case cropped v of
       Some vr \<Rightarrow>
         if width vr \<le> 0 \<or> height vr \<le> 0 \<or> clientX < left vr \<or> clientX > left vr + width vr \<or>
            clientY < top vr \<or> clientY > top vr + height vr
         then None
         else Some ((clientX - left vr) / width vr, (clientY - top vr) / height vr)
     | None \<Rightarrow>
         if width (rect v) \<le> 0 \<or> height (rect v) \<le> 0 then None
         else case media_of v of
           None \<Rightarrow> Some ((clientX - left (rect v)) / width (rect v),
                          (clientY - top (rect v)) / height (rect v))
         | Some m \<Rightarrow>
             let q = getRenderedMediaRect (rect v) m;
                 c = getEffectiveFrameContent v m;
                 frameScaleX = width q / m_width m;
                 frameScaleY = height q / m_height m;
                 contentLeft = left q + left c * frameScaleX;
                 contentTop = top q + top c * frameScaleY;
                 contentWidth = width c * frameScaleX;
                 contentHeight = height c * frameScaleY
             in if clientX < contentLeft \<or> clientX > contentLeft + contentWidth \<or>
                   clientY < contentTop \<or> clientY > contentTop + contentHeight
                then None
                else Some ((clientX - contentLeft) / contentWidth,
                           (clientY - contentTop) / contentHeight))"

definition hid_coordinate :: "rat \<Rightarrow> int" where
  "hid_coordinate x = \<lfloor>32767 * max 0 (min 1 x)\<rfloor> + 1"

definition getCoordinate :: "view \<Rightarrow> rat \<Rightarrow> rat \<Rightarrow> (int \<times> int) option" where
  "getCoordinate v clientX clientY =
    (case getCorrectedCoords v clientX clientY of
       None \<Rightarrow> None
     | Some (x, y) \<Rightarrow> Some (hid_coordinate x, hid_coordinate y))"

section \<open>State\<close>

definition MOUSE_MESSAGE :: byte where "MOUSE_MESSAGE = 2"
definition BTN_LEFT :: nat where "BTN_LEFT = 0"
definition BTN_RIGHT :: nat where "BTN_RIGHT = 2"
definition TAP_THRESHOLD :: rat where "TAP_THRESHOLD = 8"
definition DRAG_THRESHOLD :: rat where "DRAG_THRESHOLD = 10"
definition DOUBLE_TAP_DELAY :: int where "DOUBLE_TAP_DELAY = 400"
definition DOUBLE_TAP_DRAG_WINDOW :: int where "DOUBLE_TAP_DRAG_WINDOW = 800"
definition DOUBLE_TAP_DISTANCE :: rat where "DOUBLE_TAP_DISTANCE = 24"

text \<open>
  The refs of the component and the variables of its effect. A timer is a number: the ref
  \<open>longPressTimer\<close> keeps the one set last (also after it fired), \<open>scheduled\<close> those the browser
  will still fire; \<open>moveFrame\<close> is a requested animation frame.
\<close>

record abs_mouse =
  buttons :: int32
  lastPos :: "rat \<times> rat"
  lastScrollTime :: int
  lastTouchY :: rat
  longPressTimer :: "nat option"
  scheduled :: "nat list"
  nextTimer :: nat
  isLongPress :: bool
  hasMove :: bool
  isDragging :: bool
  isMultiTouch :: bool
  isTouchActive :: bool
  pressedButton :: "nat option"
  touchStartPos :: "rat \<times> rat"
  lastTapTime :: int
  lastTapPos :: "rat \<times> rat"
  isDoubleTapCandidate :: bool
  doubleTapDragArmedUntil :: int
  pressedMouseButtons :: "nat list"
  pendingMove :: "(rat \<times> rat) option"
  moveFrame :: bool
  sent :: "byte list list"

definition init_abs_mouse :: abs_mouse where
  "init_abs_mouse =
    \<lparr>buttons = 0, lastPos = (1 / 2, 1 / 2), lastScrollTime = 0, lastTouchY = 0,
     longPressTimer = None, scheduled = [], nextTimer = 1, isLongPress = False, hasMove = False,
     isDragging = False, isMultiTouch = False, isTouchActive = False, pressedButton = None,
     touchStartPos = (0, 0), lastTapTime = 0, lastTapPos = (0, 0), isDoubleTapCandidate = False,
     doubleTapDragArmedUntil = 0, pressedMouseButtons = [], pendingMove = None, moveFrame = False,
     sent = []\<rparr>"

section \<open>Reports\<close>

datatype mouse_event = Mousedown nat | Mouseup nat | Wheel rat | Move rat rat

definition sendReport :: "byte list \<Rightarrow> abs_mouse \<Rightarrow> abs_mouse" where
  "sendReport r s = s\<lparr>sent := sent s @ [MOUSE_MESSAGE # r]\<rparr>"

fun handleMouseEvent :: "mouse_event \<Rightarrow> abs_mouse \<Rightarrow> abs_mouse" where
  "handleMouseEvent (Mousedown b) s =
     (let s = s\<lparr>buttons := buttonDown (buttons s) b\<rparr>
      in sendReport (abs_buildButtonReport (buttons s) (fst (lastPos s)) (snd (lastPos s))) s)"
| "handleMouseEvent (Mouseup b) s =
     (let s = s\<lparr>buttons := buttonUp (buttons s) b\<rparr>
      in sendReport (abs_buildButtonReport (buttons s) (fst (lastPos s)) (snd (lastPos s))) s)"
| "handleMouseEvent (Wheel d) s =
     sendReport (abs_buildReport (buttons s) (fst (lastPos s)) (snd (lastPos s)) d) s"
| "handleMouseEvent (Move x y) s =
     sendReport (abs_buildReport (buttons s) x y 0) (s\<lparr>lastPos := (x, y)\<rparr>)"

definition flushMouseMove :: "abs_mouse \<Rightarrow> abs_mouse" where
  "flushMouseMove s =
    (let s = s\<lparr>moveFrame := False\<rparr>
     in case pendingMove s of
          None \<Rightarrow> s
        | Some (x, y) \<Rightarrow> handleMouseEvent (Move x y) (s\<lparr>pendingMove := None\<rparr>))"

definition queueMouseMove :: "rat \<Rightarrow> rat \<Rightarrow> abs_mouse \<Rightarrow> abs_mouse" where
  "queueMouseMove x y s = s\<lparr>pendingMove := Some (x, y), moveFrame := True\<rparr>"

definition animationFrame :: "abs_mouse \<Rightarrow> abs_mouse" where
  "animationFrame s = (if moveFrame s then flushMouseMove (s\<lparr>moveFrame := False\<rparr>) else s)"

definition clearLongPressTimer :: "abs_mouse \<Rightarrow> abs_mouse" where
  "clearLongPressTimer s =
    (case longPressTimer s of
       None \<Rightarrow> s
     | Some t \<Rightarrow> s\<lparr>scheduled := js_delete t (scheduled s), longPressTimer := None\<rparr>)"

definition releasePressedButton :: "abs_mouse \<Rightarrow> abs_mouse" where
  "releasePressedButton s =
    (case pressedButton s of
       None \<Rightarrow> s
     | Some b \<Rightarrow>
         (handleMouseEvent (Mouseup b) (flushMouseMove s))
           \<lparr>pressedButton := None, isDragging := False, isLongPress := False\<rparr>)"

section \<open>Mouse handlers\<close>

definition handleMouseDown :: "view \<Rightarrow> nat \<Rightarrow> rat \<Rightarrow> rat \<Rightarrow> abs_mouse \<Rightarrow> abs_mouse" where
  "handleMouseDown v button clientX clientY s =
    (if getCorrectedCoords v clientX clientY = None then s
     else
       let s = flushMouseMove s;
           s = s\<lparr>pressedMouseButtons := js_add button (pressedMouseButtons s)\<rparr>
       in handleMouseEvent (Mousedown button) s)"

definition handleMouseUp :: "view \<Rightarrow> nat \<Rightarrow> rat \<Rightarrow> rat \<Rightarrow> abs_mouse \<Rightarrow> abs_mouse" where
  "handleMouseUp v button clientX clientY s =
    (if getCorrectedCoords v clientX clientY = None \<and> button \<notin> set (pressedMouseButtons s) then s
     else
       let s = flushMouseMove s;
           s = s\<lparr>pressedMouseButtons := js_delete button (pressedMouseButtons s)\<rparr>
       in handleMouseEvent (Mouseup button) s)"

definition handleMouseMove :: "view \<Rightarrow> rat \<Rightarrow> rat \<Rightarrow> abs_mouse \<Rightarrow> abs_mouse" where
  "handleMouseMove v clientX clientY s =
    (case getCoordinate v clientX clientY of
       None \<Rightarrow> s
     | Some (x, y) \<Rightarrow> queueMouseMove (of_int x) (of_int y) s)"

text \<open>\<open>dir\<close> and \<open>interval\<close> are the atoms \<^verbatim>\<open>scrollDirection\<close> and \<^verbatim>\<open>scrollInterval\<close>.\<close>

definition handleWheel ::
  "view \<Rightarrow> rat \<Rightarrow> int \<Rightarrow> rat \<Rightarrow> rat \<Rightarrow> rat \<Rightarrow> int \<Rightarrow> abs_mouse \<Rightarrow> abs_mouse" where
  "handleWheel v dir interval deltaY clientX clientY t s =
    (if \<lfloor>deltaY\<rfloor> = 0 \<or> getCorrectedCoords v clientX clientY = None then s
     else if t - lastScrollTime s < interval then s
     else
       let s = flushMouseMove s;
           d = (if deltaY > 0 then 1 else -1) * dir
       in (handleMouseEvent (Wheel d) s)\<lparr>lastScrollTime := t\<rparr>)"

section \<open>Touch handlers\<close>

text \<open>Squared distances stand for \<^verbatim>\<open>Math.hypot\<close>, compared with squared thresholds.\<close>

definition dist2 :: "rat \<times> rat \<Rightarrow> rat \<times> rat \<Rightarrow> rat" where
  "dist2 p q = (fst p - fst q) ^ 2 + (snd p - snd q) ^ 2"

definition startLongPress :: "abs_mouse \<Rightarrow> abs_mouse" where
  "startLongPress s =
    s\<lparr>longPressTimer := Some (nextTimer s), scheduled := js_add (nextTimer s) (scheduled s),
      nextTimer := Suc (nextTimer s)\<rparr>"

text \<open>The part of \<^verbatim>\<open>handleTouchStart\<close> that begins a gesture with one finger.\<close>

definition begin_gesture :: "view \<Rightarrow> rat \<Rightarrow> rat \<Rightarrow> int \<Rightarrow> abs_mouse \<Rightarrow> abs_mouse" where
  "begin_gesture v cx cy t s =
    (let near = dist2 (cx, cy) (lastTapPos s) \<le> DOUBLE_TAP_DISTANCE ^ 2;
         s = s\<lparr>isDoubleTapCandidate :=
             (t - lastTapTime s \<le> DOUBLE_TAP_DELAY \<and> near) \<or>
             (t \<le> doubleTapDragArmedUntil s \<and> near),
           lastTouchY := cy, isLongPress := False, hasMove := False,
           isDragging := False, isMultiTouch := False\<rparr>;
         s = releasePressedButton s;
         s = clearLongPressTimer (s\<lparr>touchStartPos := (cx, cy)\<rparr>);
         s = (case getCoordinate v cx cy of
                Some (x, y) \<Rightarrow> handleMouseEvent (Move (of_int x) (of_int y)) s
              | None \<Rightarrow> s)
     in if \<not> isDoubleTapCandidate s then startLongPress s else s)"

definition handleTouchStart ::
  "view \<Rightarrow> (rat \<times> rat) list \<Rightarrow> int \<Rightarrow> abs_mouse \<Rightarrow> abs_mouse" where
  "handleTouchStart v touches t s =
    (case touches of
       [] \<Rightarrow> s
     | (cx, cy) # others \<Rightarrow>
         if getCorrectedCoords v cx cy = None then
           let s = s\<lparr>isTouchActive := False, isMultiTouch := others \<noteq> [], hasMove := True\<rparr>;
               s = releasePressedButton (clearLongPressTimer s)
           in s\<lparr>isDoubleTapCandidate := False, doubleTapDragArmedUntil := 0, lastTouchY := cy\<rparr>
         else
           let s = s\<lparr>isTouchActive := True\<rparr>
           in if others \<noteq> [] then
                let s = s\<lparr>isMultiTouch := True, hasMove := True\<rparr>;
                    s = releasePressedButton (clearLongPressTimer s)
                in s\<lparr>isDoubleTapCandidate := False, lastTouchY := cy\<rparr>
              else begin_gesture v cx cy t s)"

definition longPressFires :: "nat \<Rightarrow> abs_mouse \<Rightarrow> abs_mouse" where
  "longPressFires timer s =
    (if timer \<in> set (scheduled s) then
       handleMouseEvent (Mousedown BTN_RIGHT)
         (s\<lparr>scheduled := js_delete timer (scheduled s), isLongPress := True,
            pressedButton := Some BTN_RIGHT\<rparr>)
     else s)"

definition touch_scroll :: "rat \<Rightarrow> int \<Rightarrow> rat \<Rightarrow> int \<Rightarrow> abs_mouse \<Rightarrow> abs_mouse" where
  "touch_scroll dir interval cy t s =
    (let s = releasePressedButton (clearLongPressTimer (s\<lparr>isMultiTouch := True, hasMove := True\<rparr>))
     in if t - lastScrollTime s < interval then s
        else
          let d = (if cy - lastTouchY s > 0 then 1 else -1) * dir
          in (handleMouseEvent (Wheel d) s)\<lparr>lastTouchY := cy, lastScrollTime := t\<rparr>)"

definition touch_drag :: "rat \<times> rat \<Rightarrow> int \<times> int \<Rightarrow> abs_mouse \<Rightarrow> abs_mouse" where
  "touch_drag p xy s =
    (let d = dist2 p (touchStartPos s);
         s = (if d > TAP_THRESHOLD ^ 2 then clearLongPressTimer (s\<lparr>hasMove := True\<rparr>) else s);
         s = (if isDoubleTapCandidate s \<and> d > DRAG_THRESHOLD ^ 2 \<and> \<not> isDragging s \<and> \<not> isLongPress s
              then handleMouseEvent (Mousedown BTN_LEFT)
                     (s\<lparr>isDragging := True, pressedButton := Some BTN_LEFT\<rparr>)
              else s)
     in if \<not> isDoubleTapCandidate s \<or> isDragging s \<or> isLongPress s
        then handleMouseEvent (Move (of_int (fst xy)) (of_int (snd xy))) s
        else s)"

definition handleTouchMove ::
  "view \<Rightarrow> rat \<Rightarrow> int \<Rightarrow> (rat \<times> rat) list \<Rightarrow> int \<Rightarrow> abs_mouse \<Rightarrow> abs_mouse" where
  "handleTouchMove v dir interval touches t s =
    (case touches of
       [] \<Rightarrow> s
     | (cx, cy) # others \<Rightarrow>
         if \<not> isTouchActive s then s
         else case getCoordinate v cx cy of
           None \<Rightarrow>
             (releasePressedButton (clearLongPressTimer (s\<lparr>hasMove := True\<rparr>)))
               \<lparr>isDoubleTapCandidate := False\<rparr>
         | Some xy \<Rightarrow>
             if others \<noteq> [] then touch_scroll dir interval cy t s
             else if isMultiTouch s then s
             else touch_drag (cx, cy) xy s)"

definition touch_idle :: "abs_mouse \<Rightarrow> abs_mouse" where
  "touch_idle s =
    s\<lparr>isLongPress := False, hasMove := False, isDragging := False, isMultiTouch := False,
      isTouchActive := False, isDoubleTapCandidate := False\<rparr>"

text \<open>\<open>remaining\<close> is \<^verbatim>\<open>e.touches.length\<close>, \<open>changed\<close> the list \<^verbatim>\<open>e.changedTouches\<close>.\<close>

definition handleTouchEnd ::
  "view \<Rightarrow> nat \<Rightarrow> (rat \<times> rat) list \<Rightarrow> int \<Rightarrow> abs_mouse \<Rightarrow> abs_mouse" where
  "handleTouchEnd v remaining changed t s =
    (if \<not> isTouchActive s then
       (if remaining = 0 then s\<lparr>isTouchActive := False, isMultiTouch := False\<rparr> else s)
     else if remaining > 0 then s\<lparr>isMultiTouch := True\<rparr>
     else
       let s = clearLongPressTimer s;
           isTap = (\<not> isMultiTouch s \<and> \<not> hasMove s \<and> \<not> isLongPress s \<and> \<not> isDragging s \<and>
             changed \<noteq> [] \<and> getCorrectedCoords v (fst (hd changed)) (snd (hd changed)) \<noteq> None);
           s = (if isTap then
                  let s = handleMouseEvent (Mouseup BTN_LEFT) (handleMouseEvent (Mousedown BTN_LEFT) s);
                      s = s\<lparr>lastTapTime := t, lastTapPos := hd changed\<rparr>
                  in if isDoubleTapCandidate s
                     then s\<lparr>doubleTapDragArmedUntil := t + DOUBLE_TAP_DRAG_WINDOW\<rparr> else s
                else if pressedButton s \<noteq> None then
                  (releasePressedButton (flushMouseMove s))\<lparr>doubleTapDragArmedUntil := 0\<rparr>
                else s)
       in touch_idle s)"

definition handleTouchCancel :: "abs_mouse \<Rightarrow> abs_mouse" where
  "handleTouchCancel s =
    (touch_idle (releasePressedButton (clearLongPressTimer s)))
      \<lparr>pressedButton := None, doubleTapDragArmedUntil := 0, lastTapTime := 0\<rparr>"

text \<open>The cleanup of the effect, run before it is set up again and when the page is left.\<close>

definition cleanup_effect :: "abs_mouse \<Rightarrow> abs_mouse" where
  "cleanup_effect s =
    (let (bs, r) = abs_reset (buttons s) (fst (lastPos s)) (snd (lastPos s));
         s = sendReport r (s\<lparr>buttons := bs\<rparr>);
         s = s\<lparr>moveFrame := False, pendingMove := None, pressedMouseButtons := []\<rparr>
     in case longPressTimer s of
          None \<Rightarrow> s
        | Some t \<Rightarrow> s\<lparr>scheduled := js_delete t (scheduled s)\<rparr>)"

section \<open>Steps\<close>

datatype abs_event =
  MDown view nat rat rat | MUp view nat rat rat | MMove view rat rat
| MWheel view rat int rat rat rat int | Frame | LongPress nat
| TStart view "(rat \<times> rat) list" int | TMove view rat int "(rat \<times> rat) list" int
| TEnd view nat "(rat \<times> rat) list" int | TCancel | Cleanup

fun abs_step :: "abs_mouse \<Rightarrow> abs_event \<Rightarrow> abs_mouse" where
  "abs_step s (MDown v b x y) = handleMouseDown v b x y s"
| "abs_step s (MUp v b x y) = handleMouseUp v b x y s"
| "abs_step s (MMove v x y) = handleMouseMove v x y s"
| "abs_step s (MWheel v dir iv d x y t) = handleWheel v dir iv d x y t s"
| "abs_step s Frame = animationFrame s"
| "abs_step s (LongPress n) = longPressFires n s"
| "abs_step s (TStart v ts t) = handleTouchStart v ts t s"
| "abs_step s (TMove v dir iv ts t) = handleTouchMove v dir iv ts t s"
| "abs_step s (TEnd v n ch t) = handleTouchEnd v n ch t s"
| "abs_step s TCancel = handleTouchCancel s"
| "abs_step s Cleanup = cleanup_effect s"

section \<open>Effect of the helpers\<close>

lemma handleMouseEvent_fields [simp]:
  "pressedButton (handleMouseEvent ev s) = pressedButton s"
  "scheduled (handleMouseEvent ev s) = scheduled s"
  "longPressTimer (handleMouseEvent ev s) = longPressTimer s"
  "isLongPress (handleMouseEvent ev s) = isLongPress s"
  "isDragging (handleMouseEvent ev s) = isDragging s"
  "isTouchActive (handleMouseEvent ev s) = isTouchActive s"
  "isDoubleTapCandidate (handleMouseEvent ev s) = isDoubleTapCandidate s"
  "pressedMouseButtons (handleMouseEvent ev s) = pressedMouseButtons s"
  "pendingMove (handleMouseEvent ev s) = pendingMove s"
  "moveFrame (handleMouseEvent ev s) = moveFrame s"
  by (cases ev; simp add: sendReport_def Let_def)+

lemma handleMouseEvent_buttons [simp]:
  "buttons (handleMouseEvent ev s) =
    (case ev of Mousedown b \<Rightarrow> buttonDown (buttons s) b | Mouseup b \<Rightarrow> buttonUp (buttons s) b
     | _ \<Rightarrow> buttons s)"
  by (cases ev) (simp_all add: sendReport_def Let_def)

lemma flushMouseMove_fields [simp]:
  "buttons (flushMouseMove s) = buttons s"
  "pressedButton (flushMouseMove s) = pressedButton s"
  "scheduled (flushMouseMove s) = scheduled s"
  "longPressTimer (flushMouseMove s) = longPressTimer s"
  "isLongPress (flushMouseMove s) = isLongPress s"
  "isDragging (flushMouseMove s) = isDragging s"
  "isTouchActive (flushMouseMove s) = isTouchActive s"
  "isDoubleTapCandidate (flushMouseMove s) = isDoubleTapCandidate s"
  "pressedMouseButtons (flushMouseMove s) = pressedMouseButtons s"
  "pendingMove (flushMouseMove s) = None"
  "moveFrame (flushMouseMove s) = False"
  by (simp_all add: flushMouseMove_def Let_def split: option.split prod.split
      del: handleMouseEvent.simps)

section \<open>Invariant\<close>

text \<open>
  A button the report holds was pressed by a mouse button that is still down or by a touch that
  is still recorded; a long press can only be pending while a touch is active and no button is
  held by it; a queued move always has its animation frame; the last report sent shows the
  current buttons.
\<close>

definition explained :: "abs_mouse \<Rightarrow> bool" where
  "explained s \<longleftrightarrow> (\<forall>b. button_held (buttons s) b \<longrightarrow>
    b \<in> set (pressedMouseButtons s) \<or> pressedButton s = Some b)"

definition timer_inv :: "abs_mouse \<Rightarrow> bool" where
  "timer_inv s \<longleftrightarrow> set (scheduled s) \<subseteq> set_option (longPressTimer s) \<and>
    (scheduled s \<noteq> [] \<longrightarrow> pressedButton s = None \<and> isTouchActive s)"

definition touch_inv :: "abs_mouse \<Rightarrow> bool" where
  "touch_inv s \<longleftrightarrow>
    (pressedButton s \<noteq> None \<longrightarrow> (isLongPress s \<or> isDragging s) \<and> isTouchActive s)"

definition frame_inv :: "abs_mouse \<Rightarrow> bool" where
  "frame_inv s \<longleftrightarrow> (pendingMove s = None \<longleftrightarrow> \<not> moveFrame s)"

definition host_buttons :: "abs_mouse \<Rightarrow> byte" where
  "host_buttons s = last ([MOUSE_MESSAGE, 0] # sent s) ! 1"

definition buttons_synced :: "abs_mouse \<Rightarrow> bool" where
  "buttons_synced s \<longleftrightarrow> host_buttons s = ucast (buttons s)"

definition abs_inv :: "abs_mouse \<Rightarrow> bool" where
  "abs_inv s \<longleftrightarrow> explained s \<and> timer_inv s \<and> touch_inv s \<and> frame_inv s \<and> buttons_synced s"

lemma buttons_synced_event [simp]: "buttons_synced (handleMouseEvent ev s)"
  by (cases ev) (simp_all add: buttons_synced_def host_buttons_def sendReport_def Let_def
      abs_buildReport_def abs_buildButtonReport_def)

lemma buttons_synced_cong: "sent s = sent t \<Longrightarrow> buttons s = buttons t \<Longrightarrow> buttons_synced s = buttons_synced t"
  by (simp add: buttons_synced_def host_buttons_def)

lemma buttons_synced_updates [simp]:
  "buttons_synced (s\<lparr>lastPos := x0\<rparr>) = buttons_synced s"
  "buttons_synced (s\<lparr>lastScrollTime := x1\<rparr>) = buttons_synced s"
  "buttons_synced (s\<lparr>lastTouchY := x2\<rparr>) = buttons_synced s"
  "buttons_synced (s\<lparr>longPressTimer := x3\<rparr>) = buttons_synced s"
  "buttons_synced (s\<lparr>scheduled := x4\<rparr>) = buttons_synced s"
  "buttons_synced (s\<lparr>nextTimer := x5\<rparr>) = buttons_synced s"
  "buttons_synced (s\<lparr>isLongPress := x6\<rparr>) = buttons_synced s"
  "buttons_synced (s\<lparr>hasMove := x7\<rparr>) = buttons_synced s"
  "buttons_synced (s\<lparr>isDragging := x8\<rparr>) = buttons_synced s"
  "buttons_synced (s\<lparr>isMultiTouch := x9\<rparr>) = buttons_synced s"
  "buttons_synced (s\<lparr>isTouchActive := x10\<rparr>) = buttons_synced s"
  "buttons_synced (s\<lparr>pressedButton := x11\<rparr>) = buttons_synced s"
  "buttons_synced (s\<lparr>touchStartPos := x12\<rparr>) = buttons_synced s"
  "buttons_synced (s\<lparr>lastTapTime := x13\<rparr>) = buttons_synced s"
  "buttons_synced (s\<lparr>lastTapPos := x14\<rparr>) = buttons_synced s"
  "buttons_synced (s\<lparr>isDoubleTapCandidate := x15\<rparr>) = buttons_synced s"
  "buttons_synced (s\<lparr>doubleTapDragArmedUntil := x16\<rparr>) = buttons_synced s"
  "buttons_synced (s\<lparr>pressedMouseButtons := x17\<rparr>) = buttons_synced s"
  "buttons_synced (s\<lparr>pendingMove := x18\<rparr>) = buttons_synced s"
  "buttons_synced (s\<lparr>moveFrame := x19\<rparr>) = buttons_synced s"
  by (rule buttons_synced_cong; simp)+

lemma buttons_synced_flush: "buttons_synced s \<Longrightarrow> buttons_synced (flushMouseMove s)"
  by (simp add: flushMouseMove_def Let_def split: option.split prod.split del: handleMouseEvent.simps)

lemma clear_fields [simp]:
  "buttons (clearLongPressTimer s) = buttons s"
  "sent (clearLongPressTimer s) = sent s"
  "pressedButton (clearLongPressTimer s) = pressedButton s"
  "isLongPress (clearLongPressTimer s) = isLongPress s"
  "isDragging (clearLongPressTimer s) = isDragging s"
  "isTouchActive (clearLongPressTimer s) = isTouchActive s"
  "isDoubleTapCandidate (clearLongPressTimer s) = isDoubleTapCandidate s"
  "pressedMouseButtons (clearLongPressTimer s) = pressedMouseButtons s"
  "pendingMove (clearLongPressTimer s) = pendingMove s"
  "moveFrame (clearLongPressTimer s) = moveFrame s"
  "longPressTimer (clearLongPressTimer s) = None"
  by (simp_all add: clearLongPressTimer_def split: option.split)

lemma clear_scheduled:
  "set (scheduled s) \<subseteq> set_option (longPressTimer s) \<Longrightarrow> scheduled (clearLongPressTimer s) = []"
  by (auto simp: clearLongPressTimer_def js_delete_def filter_empty_conv split: option.split)

lemma release_fields [simp]:
  "pressedButton (releasePressedButton s) = None"
  "scheduled (releasePressedButton s) = scheduled s"
  "longPressTimer (releasePressedButton s) = longPressTimer s"
  "isTouchActive (releasePressedButton s) = isTouchActive s"
  "isDoubleTapCandidate (releasePressedButton s) = isDoubleTapCandidate s"
  "pressedMouseButtons (releasePressedButton s) = pressedMouseButtons s"
  by (simp_all add: releasePressedButton_def split: option.split del: handleMouseEvent.simps)

lemma release_frame: "frame_inv s \<Longrightarrow> frame_inv (releasePressedButton s)"
  by (simp add: frame_inv_def releasePressedButton_def split: option.split del: handleMouseEvent.simps)

lemma release_explained: "explained s \<Longrightarrow> explained (releasePressedButton s)"
  by (auto simp: explained_def releasePressedButton_def button_held_up split: option.splits
      simp del: handleMouseEvent.simps)

lemma release_synced: "buttons_synced s \<Longrightarrow> buttons_synced (releasePressedButton s)"
  by (simp add: releasePressedButton_def split: option.split del: handleMouseEvent.simps)

lemma clear_synced [simp]: "buttons_synced (clearLongPressTimer s) = buttons_synced s"
  by (rule buttons_synced_cong) simp_all

lemmas abs_inv_defs = abs_inv_def explained_def timer_inv_def touch_inv_def frame_inv_def

text \<open>
  A release and a cleared timer leave nothing of a touch behind, whatever the touch flags were:
  the part of the invariant that does not mention them is enough.
\<close>

definition base_inv :: "abs_mouse \<Rightarrow> bool" where
  "base_inv s \<longleftrightarrow> explained s \<and> frame_inv s \<and> buttons_synced s \<and>
    set (scheduled s) \<subseteq> set_option (longPressTimer s)"

lemma abs_inv_base: "abs_inv s \<Longrightarrow> base_inv s"
  by (simp add: abs_inv_def base_inv_def timer_inv_def)

lemma base_inv_idle: "base_inv s \<Longrightarrow> scheduled s = [] \<Longrightarrow> pressedButton s = None \<Longrightarrow> abs_inv s"
  by (simp add: abs_inv_def base_inv_def timer_inv_def touch_inv_def)

lemma base_inv_clear: "base_inv s \<Longrightarrow> base_inv (clearLongPressTimer s) \<and> scheduled (clearLongPressTimer s) = []"
  by (auto simp: base_inv_def explained_def frame_inv_def clear_scheduled)

lemma base_inv_release: "base_inv s \<Longrightarrow> base_inv (releasePressedButton s)"
  by (simp add: base_inv_def release_explained release_frame release_synced)

lemma base_inv_updates [simp]:
  "base_inv (s\<lparr>isTouchActive := x1\<rparr>) = base_inv s" "base_inv (s\<lparr>isMultiTouch := x2\<rparr>) = base_inv s"
  "base_inv (s\<lparr>hasMove := x3\<rparr>) = base_inv s" "base_inv (s\<lparr>isDoubleTapCandidate := x4\<rparr>) = base_inv s"
  "base_inv (s\<lparr>lastTouchY := x5\<rparr>) = base_inv s" "base_inv (s\<lparr>isLongPress := x6\<rparr>) = base_inv s"
  "base_inv (s\<lparr>isDragging := x7\<rparr>) = base_inv s" "base_inv (s\<lparr>touchStartPos := x8\<rparr>) = base_inv s"
  "base_inv (s\<lparr>doubleTapDragArmedUntil := x9\<rparr>) = base_inv s"
  by (simp_all add: base_inv_def explained_def frame_inv_def)

lemma abs_inv_abandon: "base_inv s \<Longrightarrow> abs_inv (releasePressedButton (clearLongPressTimer s))"
  by (intro base_inv_idle base_inv_release) (simp_all add: base_inv_clear)

lemma abs_inv_mouseDown: "abs_inv s \<Longrightarrow> abs_inv (handleMouseDown v b x y s)"
  by (auto simp: abs_inv_defs handleMouseDown_def Let_def button_held_down simp del: handleMouseEvent.simps)

lemma abs_inv_mouseUp: "abs_inv s \<Longrightarrow> abs_inv (handleMouseUp v b x y s)"
  by (auto simp: abs_inv_defs handleMouseUp_def Let_def button_held_up simp del: handleMouseEvent.simps)

lemma abs_inv_mouseMove: "abs_inv s \<Longrightarrow> abs_inv (handleMouseMove v x y s)"
  by (auto simp: abs_inv_defs handleMouseMove_def queueMouseMove_def split: option.split)

lemma abs_inv_wheel: "abs_inv s \<Longrightarrow> abs_inv (handleWheel v dir iv d x y t s)"
  by (auto simp: abs_inv_defs handleWheel_def Let_def simp del: handleMouseEvent.simps)

lemma abs_inv_frame: "abs_inv s \<Longrightarrow> abs_inv (animationFrame s)"
  by (auto simp: abs_inv_defs animationFrame_def buttons_synced_flush)

lemma abs_inv_longPress: "abs_inv s \<Longrightarrow> abs_inv (longPressFires n s)"
proof (cases "n \<in> set (scheduled s)")
  case True
  assume inv: "abs_inv s"
  with True have "js_delete n (scheduled s) = []"
    by (cases "longPressTimer s") (auto simp: abs_inv_defs js_delete_def filter_empty_conv)
  moreover have "pressedButton s = None" "isTouchActive s"
    using inv True by (auto simp: abs_inv_defs)
  ultimately show ?thesis using inv True
    by (auto simp: abs_inv_defs longPressFires_def button_held_down simp del: handleMouseEvent.simps)
qed (simp add: longPressFires_def)

lemma abs_inv_cleanup: "abs_inv s \<Longrightarrow> abs_inv (cleanup_effect s)"
proof -
  assume inv: "abs_inv s"
  have "set (scheduled s) \<subseteq> set_option (longPressTimer s)" using inv by (simp add: abs_inv_defs)
  then have "\<And>t. longPressTimer s = Some t \<Longrightarrow> js_delete t (scheduled s) = []"
    "longPressTimer s = None \<Longrightarrow> scheduled s = []"
    by (auto simp: js_delete_def filter_empty_conv)
  with inv show ?thesis
    by (auto simp: abs_inv_defs cleanup_effect_def Let_def abs_reset_def sendReport_def buttons_synced_def
        host_buttons_def abs_buildReport_def split: option.split)
qed

lemma abs_inv_cancel: "abs_inv s \<Longrightarrow> abs_inv (handleTouchCancel s)"
  using abs_inv_abandon [OF abs_inv_base, of s] clear_scheduled [of s]
  by (auto simp: abs_inv_defs handleTouchCancel_def touch_idle_def)

lemma abs_inv_touch_scroll: "abs_inv s \<Longrightarrow> abs_inv (touch_scroll dir iv cy t s)"
proof -
  assume "abs_inv s"
  then have "base_inv (s\<lparr>isMultiTouch := True, hasMove := True\<rparr>)" by (simp add: abs_inv_base)
  from abs_inv_abandon [OF this] show ?thesis
    by (auto simp: abs_inv_defs touch_scroll_def Let_def simp del: handleMouseEvent.simps)
qed

lemma abs_inv_touch_drag:
  assumes "abs_inv s" and "isTouchActive s"
  shows "abs_inv (touch_drag p xy s)"
proof -
  let ?d = "dist2 p (touchStartPos s)"
  define a where "a = (if ?d > TAP_THRESHOLD ^ 2 then clearLongPressTimer (s\<lparr>hasMove := True\<rparr>) else s)"
  have a: "abs_inv a" "isTouchActive a"
    using assms clear_scheduled [of "s\<lparr>hasMove := True\<rparr>"]
    by (auto simp: a_def abs_inv_defs)
  define c where "c = (isDoubleTapCandidate a \<and> ?d > DRAG_THRESHOLD ^ 2 \<and> \<not> isDragging a \<and> \<not> isLongPress a)"
  define b where "b = (if c then handleMouseEvent (Mousedown BTN_LEFT)
      (a\<lparr>isDragging := True, pressedButton := Some BTN_LEFT\<rparr>) else a)"
  have "scheduled a = []" if c
  proof -
    have "?d > TAP_THRESHOLD ^ 2"
      using that by (simp add: c_def TAP_THRESHOLD_def DRAG_THRESHOLD_def power2_eq_square)
    then show ?thesis using assms by (simp add: a_def abs_inv_defs clear_scheduled)
  qed
  moreover have "pressedButton a = None" if c
    using a that by (auto simp: c_def abs_inv_defs)
  ultimately have "abs_inv b"
    using a by (auto simp: b_def abs_inv_defs button_held_down simp del: handleMouseEvent.simps)
  moreover have "touch_drag p xy s =
      (if \<not> isDoubleTapCandidate b \<or> isDragging b \<or> isLongPress b
       then handleMouseEvent (Move (of_int (fst xy)) (of_int (snd xy))) b else b)"
    by (simp only: touch_drag_def Let_def a_def b_def c_def)
  ultimately show ?thesis by (auto simp: abs_inv_defs simp del: handleMouseEvent.simps)
qed

lemma abs_inv_touchMove: "abs_inv s \<Longrightarrow> abs_inv (handleTouchMove v dir iv ts t s)"
proof -
  assume inv: "abs_inv s"
  then have "base_inv (s\<lparr>hasMove := True\<rparr>)" by (simp add: abs_inv_base)
  from abs_inv_abandon [OF this]
  have "abs_inv ((releasePressedButton (clearLongPressTimer (s\<lparr>hasMove := True\<rparr>)))
      \<lparr>isDoubleTapCandidate := False\<rparr>)" by (simp add: abs_inv_defs)
  with inv show ?thesis
    by (simp add: handleTouchMove_def abs_inv_touch_scroll abs_inv_touch_drag split: list.split option.split)
qed

lemma base_inv_move: "base_inv s \<Longrightarrow> base_inv (handleMouseEvent (Move x y) s)"
  by (simp add: base_inv_def explained_def frame_inv_def del: handleMouseEvent.simps)

lemma abs_inv_gesture:
  assumes "base_inv s" and "isTouchActive s" and "scheduled s = []" and "pressedButton s = None"
  shows "abs_inv (if \<not> isDoubleTapCandidate s then startLongPress s else s)"
  using assms base_inv_idle [of s]
  by (auto simp: abs_inv_defs startLongPress_def js_add_def)

lemma abs_inv_begin:
  assumes "base_inv s" and "isTouchActive s"
  shows "abs_inv (begin_gesture v cx cy t s)"
proof -
  define near where "near = (dist2 (cx, cy) (lastTapPos s) \<le> DOUBLE_TAP_DISTANCE ^ 2)"
  define u where "u = clearLongPressTimer ((releasePressedButton
    (s\<lparr>isDoubleTapCandidate :=
         (t - lastTapTime s \<le> DOUBLE_TAP_DELAY \<and> near) \<or> (t \<le> doubleTapDragArmedUntil s \<and> near),
       lastTouchY := cy, isLongPress := False, hasMove := False,
       isDragging := False, isMultiTouch := False\<rparr>))\<lparr>touchStartPos := (cx, cy)\<rparr>)"
  have u: "base_inv u" "scheduled u = []" "pressedButton u = None" "isTouchActive u"
    using assms by (simp_all add: u_def base_inv_clear base_inv_release)
  define w where "w = (case getCoordinate v cx cy of
      Some (x, y) \<Rightarrow> handleMouseEvent (Move (of_int x) (of_int y)) u | None \<Rightarrow> u)"
  have "base_inv w" "scheduled w = []" "pressedButton w = None" "isTouchActive w"
    using u by (simp_all add: w_def base_inv_move split: option.split prod.split
        del: handleMouseEvent.simps)
  from abs_inv_gesture [OF this(1) this(4) this(2) this(3)]
  show ?thesis
    unfolding begin_gesture_def Let_def near_def [symmetric] u_def [symmetric] w_def [symmetric] .
qed

lemma abs_inv_touchStart: "abs_inv s \<Longrightarrow> abs_inv (handleTouchStart v ts t s)"
  using abs_inv_base [of s]
  by (auto simp: handleTouchStart_def Let_def base_inv_clear abs_inv_begin split: list.split
      intro!: base_inv_idle base_inv_release)

lemma abs_inv_touchEnd: "abs_inv s \<Longrightarrow> abs_inv (handleTouchEnd v n ch t s)"
proof -
  assume inv: "abs_inv s"
  define u where "u = clearLongPressTimer s"
  have u: "base_inv u" "scheduled u = []" using inv by (simp_all add: u_def abs_inv_base base_inv_clear)
  have touch: "touch_inv u" using inv by (simp add: u_def abs_inv_defs)
  have idle: "abs_inv (touch_idle w)" if "base_inv w" "scheduled w = []" "pressedButton w = None" for w
    using that by (intro base_inv_idle) (simp_all add: touch_idle_def)
  define tap where "tap = (\<not> isMultiTouch u \<and> \<not> hasMove u \<and> \<not> isLongPress u \<and> \<not> isDragging u \<and>
    ch \<noteq> [] \<and> getCorrectedCoords v (fst (hd ch)) (snd (hd ch)) \<noteq> None)"
  define c where "c = (handleMouseEvent (Mouseup BTN_LEFT) (handleMouseEvent (Mousedown BTN_LEFT) u))
    \<lparr>lastTapTime := t, lastTapPos := hd ch\<rparr>"
  have "abs_inv (touch_idle (if isDoubleTapCandidate c
      then c\<lparr>doubleTapDragArmedUntil := t + DOUBLE_TAP_DRAG_WINDOW\<rparr> else c))" if tap
  proof -
    have "pressedButton u = None" using that touch by (auto simp: tap_def touch_inv_def)
    with u show ?thesis
      by (auto intro!: idle simp: c_def base_inv_def explained_def frame_inv_def button_held_up
          button_held_down simp del: handleMouseEvent.simps)
  qed
  moreover have "abs_inv (touch_idle ((releasePressedButton (flushMouseMove u))
      \<lparr>doubleTapDragArmedUntil := 0\<rparr>))"
  proof -
    have "base_inv (flushMouseMove u)"
      using u by (simp add: base_inv_def explained_def frame_inv_def buttons_synced_flush)
    with u show ?thesis by (intro idle) (simp_all add: base_inv_release)
  qed
  moreover have "abs_inv (touch_idle u)" if "pressedButton u = None"
    using u that by (intro idle)
  moreover have "abs_inv (s\<lparr>isTouchActive := False, isMultiTouch := False\<rparr>)" if "\<not> isTouchActive s"
    using inv that by (auto simp: abs_inv_defs)
  moreover have "abs_inv (s\<lparr>isMultiTouch := True\<rparr>)" using inv by (simp add: abs_inv_defs)
  ultimately show ?thesis
    using inv unfolding handleTouchEnd_def Let_def u_def [symmetric] tap_def [symmetric] c_def [symmetric]
    by simp
qed

lemma abs_inv_step: "abs_inv s \<Longrightarrow> abs_inv (abs_step s e)"
  by (cases e) (simp_all add: abs_inv_mouseDown abs_inv_mouseUp abs_inv_mouseMove abs_inv_wheel
      abs_inv_frame abs_inv_longPress abs_inv_touchStart abs_inv_touchMove abs_inv_touchEnd
      abs_inv_cancel abs_inv_cleanup)

lemma abs_inv_init: "abs_inv init_abs_mouse"
  by (simp add: abs_inv_defs init_abs_mouse_def buttons_synced_def host_buttons_def)

interpretation abs_mouse: free_machine init_abs_mouse abs_step abs_inv
  by unfold_locales (auto intro: abs_inv_init abs_inv_step)

section \<open>Frames\<close>

lemma framed_event [simp]:
  "framed MOUSE_MESSAGE 6 (sent (handleMouseEvent ev s)) = framed MOUSE_MESSAGE 6 (sent s)"
  by (cases ev) (simp_all add: sendReport_def abs_buildReport_def abs_buildButtonReport_def Let_def)

lemma framed_helpers [simp]:
  "framed MOUSE_MESSAGE 6 (sent (flushMouseMove s)) = framed MOUSE_MESSAGE 6 (sent s)"
  "framed MOUSE_MESSAGE 6 (sent (clearLongPressTimer s)) = framed MOUSE_MESSAGE 6 (sent s)"
  "framed MOUSE_MESSAGE 6 (sent (releasePressedButton s)) = framed MOUSE_MESSAGE 6 (sent s)"
  by (simp_all add: flushMouseMove_def clearLongPressTimer_def releasePressedButton_def Let_def
      split: option.split prod.split del: handleMouseEvent.simps)

lemma framed_touches:
  "framed MOUSE_MESSAGE 6 (sent s) \<Longrightarrow> framed MOUSE_MESSAGE 6 (sent (handleTouchStart v ts t s))"
  "framed MOUSE_MESSAGE 6 (sent s) \<Longrightarrow> framed MOUSE_MESSAGE 6 (sent (handleTouchMove v dir iv ts t s))"
  "framed MOUSE_MESSAGE 6 (sent s) \<Longrightarrow> framed MOUSE_MESSAGE 6 (sent (handleTouchEnd v n ts t s))"
  "framed MOUSE_MESSAGE 6 (sent s) \<Longrightarrow> framed MOUSE_MESSAGE 6 (sent (handleTouchCancel s))"
  by (auto simp: handleTouchStart_def begin_gesture_def startLongPress_def handleTouchMove_def
      touch_scroll_def touch_drag_def handleTouchEnd_def handleTouchCancel_def touch_idle_def Let_def
      split: list.split option.split prod.split simp del: handleMouseEvent.simps)

interpretation abs_device: input_device init_abs_mouse abs_step sent MOUSE_MESSAGE 6
proof
  show "framed MOUSE_MESSAGE 6 (sent init_abs_mouse)" by (simp add: init_abs_mouse_def)
next
  fix s :: abs_mouse and e :: abs_event
  assume "framed MOUSE_MESSAGE 6 (sent s)"
  then show "framed MOUSE_MESSAGE 6 (sent (abs_step s e))"
    by (cases e) (auto simp: framed_touches handleMouseDown_def handleMouseUp_def handleMouseMove_def
        queueMouseMove_def handleWheel_def animationFrame_def longPressFires_def cleanup_effect_def
        sendReport_def abs_reset_def abs_buildReport_def Let_def split: option.split
        simp del: handleMouseEvent.simps)
qed

section \<open>Properties\<close>

lemma unit_ratio:
  "0 < w \<Longrightarrow> l \<le> x \<Longrightarrow> x \<le> l + w \<Longrightarrow> 0 \<le> (x - l) / w \<and> (x - l) / w \<le> 1" for x l w :: rat
  by (simp add: field_simps)

lemma media_of_positive: "media_of v = Some m \<Longrightarrow> 0 < m_width m \<and> 0 < m_height m"
  by (auto simp: media_of_def getMediaSize_def positive_opt_def Let_def
      split: option.splits if_splits screen_kind.splits)

lemma effective_content_positive:
  "0 < m_width m \<Longrightarrow> 0 < m_height m \<Longrightarrow>
    0 < width (getEffectiveFrameContent v m) \<and> 0 < height (getEffectiveFrameContent v m)"
  by (auto simp: getEffectiveFrameContent_def getConfiguredFrameContent_def fullFrameContent_def
      Let_def not_le split: option.split)

lemma corrected_in_unit_square:
  assumes "getCorrectedCoords v cx cy = Some (x, y)" and "cropped v \<noteq> None \<or> media_of v \<noteq> None"
  shows "0 \<le> x \<and> x \<le> 1 \<and> 0 \<le> y \<and> y \<le> 1"
proof (cases "cropped v")
  case (Some vr)
  with assms(1) show ?thesis
    using unit_ratio [of "width vr" "left vr" cx] unit_ratio [of "height vr" "top vr" cy]
    by (auto simp: getCorrectedCoords_def split: if_splits)
next
  case None
  with assms(2) obtain m where m: "media_of v = Some m" by blast
  have pos: "0 < m_width m" "0 < m_height m" using media_of_positive [OF m] by auto
  have rect: "0 < width (rect v)" "0 < height (rect v)"
    using assms(1) None by (auto simp: getCorrectedCoords_def not_le split: if_splits)
  let ?q = "getRenderedMediaRect (rect v) m"
  let ?c = "getEffectiveFrameContent v m"
  have q: "0 < width ?q" "0 < height ?q"
    using pos rect by (auto simp: getRenderedMediaRect_def Let_def)
  have "0 < width ?c * (width ?q / m_width m)" "0 < height ?c * (height ?q / m_height m)"
    using effective_content_positive [OF pos] q pos by simp_all
  then show ?thesis
    using assms(1) None m rect
      unit_ratio [of "width ?c * (width ?q / m_width m)" "left ?q + left ?c * (width ?q / m_width m)" cx]
      unit_ratio [of "height ?c * (height ?q / m_height m)" "top ?q + top ?c * (height ?q / m_height m)" cy]
    by (auto simp: getCorrectedCoords_def Let_def not_less
        simp del: times_divide_eq_right times_divide_eq_left split: if_splits)
qed

lemma hid_coordinate_bounds: "1 \<le> hid_coordinate x \<and> hid_coordinate x \<le> 32768"
proof -
  have "0 \<le> 32767 * max 0 (min 1 x)" "32767 * max 0 (min 1 x) \<le> 32767" by simp_all
  then have "0 \<le> \<lfloor>32767 * max 0 (min 1 x)\<rfloor>" "\<lfloor>32767 * max 0 (min 1 x)\<rfloor> \<le> 32767"
    by (simp, metis floor_mono floor_numeral)
  then show ?thesis by (simp add: hid_coordinate_def)
qed

text \<open>
  A position the page accepts, in a picture whose size is known (or a cropped viewport), maps to coordinates between
  1 and 32768, where the report's documentation in \<^verbatim>\<open>lib/mouse.ts\<close> and the HID descriptor allow 0 to 32767:
  exactly a position on the right or lower edge gives the value 32768 that is out of their range.
\<close>

theorem coordinate_range:
  assumes "getCorrectedCoords v cx cy = Some (x, y)" and "cropped v \<noteq> None \<or> media_of v \<noteq> None"
  shows "\<exists>a b. getCoordinate v cx cy = Some (a, b) \<and> 1 \<le> a \<and> a \<le> 32768 \<and> 1 \<le> b \<and> b \<le> 32768 \<and>
    (a = 32768 \<longleftrightarrow> x = 1) \<and> (b = 32768 \<longleftrightarrow> y = 1)"
proof -
  have edge: "hid_coordinate z = 32768 \<longleftrightarrow> z = 1" if "0 \<le> z" "z \<le> 1" for z
  proof -
    have "\<lfloor>32767 * z\<rfloor> = 32767 \<longleftrightarrow> 32767 \<le> 32767 * z"
      using that by (simp add: floor_eq_iff)
    with that show ?thesis by (auto simp: hid_coordinate_def max_def min_def)
  qed
  have "0 \<le> x \<and> x \<le> 1 \<and> 0 \<le> y \<and> y \<le> 1" by (rule corrected_in_unit_square [OF assms])
  with assms(1) hid_coordinate_bounds edge show ?thesis by (simp add: getCoordinate_def)
qed

definition sample_view :: view where
  "sample_view =
    \<lparr>cropped = None, rect = \<lparr>left = 0, top = 0, width = 960, height = 540\<rparr>,
     element = \<lparr>dataWidth = Some 1920, dataHeight = Some 1080, kind = HTMLCanvasElement\<rparr>,
     resolution = None, inputRegion = None\<rparr>"

lemma sample_view_coords:
  "getCorrectedCoords sample_view 960 270 = Some (1, 1 / 2)" "media_of sample_view \<noteq> None"
  by (simp_all add: sample_view_def getCorrectedCoords_def media_of_def getMediaSize_def
      positive_opt_def getRenderedMediaRect_def getEffectiveFrameContent_def fullFrameContent_def Let_def)

theorem coordinate_range_witness:
  "\<exists>a b. getCoordinate sample_view 960 270 = Some (a, b) \<and> a = 32768 \<and> b \<le> 32768"
  using coordinate_range [OF sample_view_coords(1)] sample_view_coords(2) by auto

lemma ucast_button:
  "(ucast (ucast w :: byte) :: int32) AND getMouseButtonBit b = w AND getMouseButtonBit b"
proof -
  have "getMouseButtonBit b AND mask 8 = getMouseButtonBit b"
    by (auto simp: getMouseButtonBit_def mask_eq_exp_minus_1)
  then have small: "bit (getMouseButtonBit b) i \<Longrightarrow> i < 8" for i
    by (metis bit_and_iff bit_mask_iff)
  show ?thesis by (rule bit_word_eqI) (auto simp: bit_simps dest: small)
qed

definition host_holds :: "abs_mouse \<Rightarrow> nat \<Rightarrow> bool" where
  "host_holds s b \<longleftrightarrow> button_held (ucast (host_buttons s)) b"

lemma host_holds_iff: "abs_inv s \<Longrightarrow> host_holds s b \<longleftrightarrow> button_held (buttons s) b"
  by (simp add: host_holds_def abs_inv_def buttons_synced_def button_held_def ucast_button)



lemma touchEnd_idle:
  assumes "abs_inv s"
  shows "pressedButton (handleTouchEnd v 0 ch t s) = None \<and> \<not> isTouchActive (handleTouchEnd v 0 ch t s)"
proof -
  have "\<not> isLongPress s \<Longrightarrow> \<not> isDragging s \<Longrightarrow> pressedButton s = None"
    "\<not> isTouchActive s \<Longrightarrow> pressedButton s = None"
    using assms by (auto simp: abs_inv_defs)
  then show ?thesis
    by (simp add: handleTouchEnd_def Let_def touch_idle_def del: handleMouseEvent.simps)
qed

text \<open>
  When the last finger is lifted or the touch is cancelled, no long press stays pending and
  the host holds no button, other than those of a mouse that is pressed too.
\<close>

theorem touch_end_releases:
  fixes es :: "abs_event list"
  assumes "e = TCancel \<or> (\<exists>v ch t. e = TEnd v 0 ch t)"
  defines "s \<equiv> foldl abs_step init_abs_mouse (es @ [e])"
  shows "scheduled s = [] \<and> pressedButton s = None \<and>
    (host_holds s b \<longrightarrow> b \<in> set (pressedMouseButtons s))"
proof -
  let ?s = "foldl abs_step init_abs_mouse es"
  have inv: "abs_inv ?s" by (rule abs_mouse.inv_always)
  have s: "s = abs_step ?s e" by (simp add: s_def)
  have "\<not> isTouchActive s \<and> pressedButton s = None"
    using assms(1) touchEnd_idle [OF inv]
    by (auto simp: s handleTouchCancel_def touch_idle_def)
  moreover have "abs_inv s" by (simp add: s abs_inv_step inv)
  ultimately show ?thesis using host_holds_iff [of s b] by (auto simp: abs_inv_defs)
qed

theorem touch_end_releases_witness:
  "scheduled (foldl abs_step init_abs_mouse ([TStart sample_view [(10, 10)] 1000] @ [TCancel])) = []"
  using touch_end_releases [of TCancel "[TStart sample_view [(10, 10)] 1000]" 0] by blast



end
