(* ===== verification/Mouse_Relative.thy ===== *)
theory Mouse_Relative
  imports Mouse_Report
begin

text \<open>
  The relative pointer of the desktop page, \<^verbatim>\<open>web/src/pages/desktop/mouse/relative.tsx\<close>: mouse
  movement under pointer lock, and a touch pad with tap, long press, double-tap drag and
  two-finger scroll. What is handed to \<^verbatim>\<open>client.send\<close> is the log \<open>sent\<close>.
\<close>

section \<open>State\<close>

definition MOUSE_MESSAGE :: byte where "MOUSE_MESSAGE = 2"
definition TAP_THRESHOLD :: rat where "TAP_THRESHOLD = 8"
definition DRAG_THRESHOLD :: rat where "DRAG_THRESHOLD = 10"
definition DOUBLE_TAP_DELAY :: int where "DOUBLE_TAP_DELAY = 400"
definition DOUBLE_TAP_DRAG_WINDOW :: int where "DOUBLE_TAP_DRAG_WINDOW = 800"
definition DOUBLE_TAP_DISTANCE :: rat where "DOUBLE_TAP_DISTANCE = 24"

text \<open>As in the absolute mode, \<open>touchTimer\<close> is the ref and \<open>scheduled\<close> the timers still to fire.\<close>

record rel_mouse =
  buttons :: int32
  isLocked :: bool
  lockRequests :: nat
  lastScrollTime :: int
  lastTouchPos :: "rat \<times> rat"
  touchStartPos :: "rat \<times> rat"
  touchIdentifier :: "int option"
  pendingTouchDelta :: "rat \<times> rat"
  touchTimer :: "nat option"
  scheduled :: "nat list"
  nextTimer :: nat
  isTouchLongPress :: bool
  hasTouchMove :: bool
  isMultiTouch :: bool
  pressedTouchButton :: "nat option"
  lastTouchEndTime :: int
  lastTapTime :: int
  lastTapPos :: "rat \<times> rat"
  isDoubleTapCandidate :: bool
  doubleTapDragArmedUntil :: int
  sent :: "byte list list"

definition init_rel_mouse :: rel_mouse where
  "init_rel_mouse =
    \<lparr>buttons = 0, isLocked = False, lockRequests = 0, lastScrollTime = 0, lastTouchPos = (0, 0),
     touchStartPos = (0, 0), touchIdentifier = None, pendingTouchDelta = (0, 0), touchTimer = None,
     scheduled = [], nextTimer = 1, isTouchLongPress = False, hasTouchMove = False,
     isMultiTouch = False, pressedTouchButton = None, lastTouchEndTime = 0, lastTapTime = 0,
     lastTapPos = (0, 0), isDoubleTapCandidate = False, doubleTapDragArmedUntil = 0, sent = []\<rparr>"

section \<open>Reports\<close>

datatype mouse_event = Mousedown nat | Mouseup nat | Wheel rat | Move rat rat

definition sendReport :: "byte list \<Rightarrow> rel_mouse \<Rightarrow> rel_mouse" where
  "sendReport r s = s\<lparr>sent := sent s @ [MOUSE_MESSAGE # r]\<rparr>"

fun handleMouseEvent :: "mouse_event \<Rightarrow> rel_mouse \<Rightarrow> rel_mouse" where
  "handleMouseEvent (Mousedown b) s =
     (let s = s\<lparr>buttons := buttonDown (buttons s) b\<rparr>
      in sendReport (rel_buildButtonReport (buttons s)) s)"
| "handleMouseEvent (Mouseup b) s =
     (let s = s\<lparr>buttons := buttonUp (buttons s) b\<rparr>
      in sendReport (rel_buildButtonReport (buttons s)) s)"
| "handleMouseEvent (Wheel d) s = sendReport (rel_buildReport (buttons s) 0 0 d) s"
| "handleMouseEvent (Move dx dy) s = sendReport (rel_buildReport (buttons s) dx dy 0) s"

definition scaleTouchMovement :: "rat \<Rightarrow> rat \<Rightarrow> rat" where
  "scaleTouchMovement dpr value = (if \<bar>value * dpr\<bar> < 10 then value * 2 else value)"

definition clearTouchLongPressTimer :: "rel_mouse \<Rightarrow> rel_mouse" where
  "clearTouchLongPressTimer s =
    (case touchTimer s of
       None \<Rightarrow> s
     | Some t \<Rightarrow> s\<lparr>scheduled := js_delete t (scheduled s), touchTimer := None\<rparr>)"

definition resetTouchState :: "rel_mouse \<Rightarrow> rel_mouse" where
  "resetTouchState s =
    s\<lparr>touchIdentifier := None, pendingTouchDelta := (0, 0), isTouchLongPress := False,
      hasTouchMove := False, isMultiTouch := False, pressedTouchButton := None\<rparr>"

definition releasePressedTouchButton :: "rel_mouse \<Rightarrow> rel_mouse" where
  "releasePressedTouchButton s =
    (case pressedTouchButton s of
       None \<Rightarrow> s
     | Some b \<Rightarrow>
         (handleMouseEvent (Mouseup b) s)\<lparr>pressedTouchButton := None, isTouchLongPress := False\<rparr>)"

section \<open>Mouse handlers\<close>

definition handleMouseClick :: "int \<Rightarrow> bool \<Rightarrow> rel_mouse \<Rightarrow> rel_mouse" where
  "handleMouseClick t supported s =
    (if t - lastTouchEndTime s < 500 then s
     else if \<not> isLocked s \<and> supported then s\<lparr>lockRequests := Suc (lockRequests s)\<rparr>
     else s)"

definition handleMouseMove :: "rat \<Rightarrow> rat \<Rightarrow> rat \<Rightarrow> rel_mouse \<Rightarrow> rel_mouse" where
  "handleMouseMove dpr x y s =
    (if x = 0 \<and> y = 0 then s
     else
       let deltaX = (if \<bar>x * dpr\<bar> < 10 then x * 2 else x);
           deltaY = (if \<bar>y * dpr\<bar> < 10 then y * 2 else y)
       in handleMouseEvent (Move deltaX deltaY) s)"

definition handleMouseWheel :: "rat \<Rightarrow> int \<Rightarrow> rat \<Rightarrow> int \<Rightarrow> rel_mouse \<Rightarrow> rel_mouse" where
  "handleMouseWheel dir interval deltaY t s =
    (if \<lfloor>deltaY\<rfloor> = 0 then s
     else if t - lastScrollTime s < interval then s
     else
       let d = (if deltaY > 0 then 1 else -1) * dir
       in (handleMouseEvent (Wheel d) s)\<lparr>lastScrollTime := t\<rparr>)"

section \<open>Touch handlers\<close>

record touch =
  touch_id :: int
  pos :: "rat \<times> rat"

definition dist2 :: "rat \<times> rat \<Rightarrow> rat \<times> rat \<Rightarrow> rat" where
  "dist2 p q = (fst p - fst q) ^ 2 + (snd p - snd q) ^ 2"

definition startTouchLongPress :: "rel_mouse \<Rightarrow> rel_mouse" where
  "startTouchLongPress s =
    s\<lparr>touchTimer := Some (nextTimer s), scheduled := js_add (nextTimer s) (scheduled s),
      nextTimer := Suc (nextTimer s)\<rparr>"

text \<open>The flags \<^verbatim>\<open>handleTouchStart\<close> sets when a gesture with one finger begins.\<close>

definition touch_begin :: "touch \<Rightarrow> int \<Rightarrow> rel_mouse \<Rightarrow> rel_mouse" where
  "touch_begin touch t s =
    (let near = dist2 (pos touch) (lastTapPos s) \<le> DOUBLE_TAP_DISTANCE ^ 2;
         s = s\<lparr>isDoubleTapCandidate := t - lastTapTime s \<le> DOUBLE_TAP_DELAY \<and> near\<rparr>;
         s = (if t \<le> doubleTapDragArmedUntil s \<and> near
              then s\<lparr>isDoubleTapCandidate := True\<rparr> else s);
         s = (if \<not> isDoubleTapCandidate s then s\<lparr>doubleTapDragArmedUntil := 0\<rparr> else s)
     in s\<lparr>touchIdentifier := Some (touch_id touch), lastTouchPos := pos touch,
          touchStartPos := pos touch, pendingTouchDelta := (0, 0),
          isTouchLongPress := False, hasTouchMove := False, isMultiTouch := False\<rparr>)"

definition handleTouchStart :: "touch list \<Rightarrow> int \<Rightarrow> rel_mouse \<Rightarrow> rel_mouse" where
  "handleTouchStart touches t s =
    (case touches of
       [] \<Rightarrow> s
     | touch # others \<Rightarrow>
         if others \<noteq> [] then
           let s = s\<lparr>isMultiTouch := True, hasTouchMove := True\<rparr>;
               s = releasePressedTouchButton (clearTouchLongPressTimer s)
           in s\<lparr>isDoubleTapCandidate := False, lastTouchPos := pos touch\<rparr>
         else
           let s = (releasePressedTouchButton (touch_begin touch t s))\<lparr>pressedTouchButton := None\<rparr>;
               s = clearTouchLongPressTimer s
           in if \<not> isDoubleTapCandidate s then startTouchLongPress s else s)"

definition touchLongPressFires :: "nat \<Rightarrow> rel_mouse \<Rightarrow> rel_mouse" where
  "touchLongPressFires timer s =
    (if timer \<in> set (scheduled s) then
       handleMouseEvent (Mousedown 2)
         (s\<lparr>scheduled := js_delete timer (scheduled s), isTouchLongPress := True,
            pressedTouchButton := Some 2\<rparr>)
     else s)"

text \<open>The tracked finger, or the first one when it is not among the touches. The browser lists at
  least one touch in \<^verbatim>\<open>changedTouches\<close> of a \<^verbatim>\<open>touchend\<close>, so \<open>hd\<close> below is defined.\<close>

definition find_touch :: "int option \<Rightarrow> touch list \<Rightarrow> touch" where
  "find_touch ident touches =
    (case filter (\<lambda>i. Some (touch_id i) = ident) touches of
       item # _ \<Rightarrow> item
     | [] \<Rightarrow> hd touches)"

definition touch_pad_move :: "rat \<Rightarrow> rat \<times> rat \<Rightarrow> rat \<times> rat \<Rightarrow> rel_mouse \<Rightarrow> rel_mouse" where
  "touch_pad_move dpr p delta s =
    (let d = dist2 p (touchStartPos s);
         s = s\<lparr>pendingTouchDelta := (fst (pendingTouchDelta s) + fst delta,
               snd (pendingTouchDelta s) + snd delta)\<rparr>;
         s = (if d > TAP_THRESHOLD ^ 2
              then clearTouchLongPressTimer (s\<lparr>hasTouchMove := True\<rparr>) else s);
         s = (if isDoubleTapCandidate s \<and> d > DRAG_THRESHOLD ^ 2 \<and> pressedTouchButton s = None
              then handleMouseEvent (Mousedown 0) (s\<lparr>pressedTouchButton := Some 0\<rparr>) else s)
     in if (\<not> isDoubleTapCandidate s \<or> pressedTouchButton s \<noteq> None \<or> isTouchLongPress s) \<and>
           (fst (pendingTouchDelta s) \<noteq> 0 \<or> snd (pendingTouchDelta s) \<noteq> 0)
        then (handleMouseEvent (Move (scaleTouchMovement dpr (fst (pendingTouchDelta s)))
               (scaleTouchMovement dpr (snd (pendingTouchDelta s)))) s)
               \<lparr>pendingTouchDelta := (0, 0)\<rparr>
        else s)"

definition handleTouchMove :: "rat \<Rightarrow> rat \<Rightarrow> int \<Rightarrow> touch list \<Rightarrow> int \<Rightarrow> rel_mouse \<Rightarrow> rel_mouse" where
  "handleTouchMove dpr dir interval touches t s =
    (if touches = [] then s
     else
       let s = (if length touches > 1
                then releasePressedTouchButton (clearTouchLongPressTimer
                  (s\<lparr>isMultiTouch := True, hasTouchMove := True, pendingTouchDelta := (0, 0)\<rparr>))
                else s);
           touch = find_touch (touchIdentifier s) touches;
           delta = (fst (pos touch) - fst (lastTouchPos s), snd (pos touch) - snd (lastTouchPos s));
           s = s\<lparr>lastTouchPos := pos touch\<rparr>
       in if length touches > 1 then
            (if t - lastScrollTime s \<ge> interval \<and> snd delta \<noteq> 0
             then (handleMouseEvent (Wheel ((if snd delta > 0 then 1 else -1) * dir)) s)
                    \<lparr>lastScrollTime := t\<rparr>
             else s)
          else if isMultiTouch s then s
          else touch_pad_move dpr (pos touch) delta s)"

definition handleTouchEnd :: "nat \<Rightarrow> touch list \<Rightarrow> int \<Rightarrow> rel_mouse \<Rightarrow> rel_mouse" where
  "handleTouchEnd remaining changed t s =
    (let s = s\<lparr>lastTouchEndTime := t\<rparr>
     in if remaining > 0 then s\<lparr>isMultiTouch := True\<rparr>
        else
          let s = clearTouchLongPressTimer s;
              isTap = (\<not> isMultiTouch s \<and> \<not> hasTouchMove s \<and> \<not> isTouchLongPress s \<and>
                pressedTouchButton s = None);
              s = (if isTap then
                     let s = handleMouseEvent (Mouseup 0) (handleMouseEvent (Mousedown 0) s);
                         s = s\<lparr>lastTapTime := t, lastTapPos := pos (hd changed)\<rparr>
                     in if isDoubleTapCandidate s
                        then s\<lparr>doubleTapDragArmedUntil := t + DOUBLE_TAP_DRAG_WINDOW\<rparr> else s
                   else if pressedTouchButton s \<noteq> None
                   then (releasePressedTouchButton s)\<lparr>doubleTapDragArmedUntil := 0\<rparr>
                   else s)
          in (resetTouchState s)\<lparr>isDoubleTapCandidate := False\<rparr>)"

definition handleTouchCancel :: "rel_mouse \<Rightarrow> rel_mouse" where
  "handleTouchCancel s =
    (resetTouchState (releasePressedTouchButton (clearTouchLongPressTimer s)))
      \<lparr>isDoubleTapCandidate := False\<rparr>"

definition cleanup_effect :: "rel_mouse \<Rightarrow> rel_mouse" where
  "cleanup_effect s =
    (let (bs, r) = rel_reset (buttons s)
     in clearTouchLongPressTimer (sendReport r (s\<lparr>buttons := bs\<rparr>)))"

section \<open>Steps\<close>

datatype rel_event =
  Click int bool | MDown nat | MUp nat | MMove rat rat rat | MWheel rat int rat int
| PointerLock bool | LongPress nat | TStart "touch list" int
| TMove rat rat int "touch list" int | TEnd nat "touch list" int | TCancel | Cleanup

fun rel_step :: "rel_mouse \<Rightarrow> rel_event \<Rightarrow> rel_mouse" where
  "rel_step s (Click t ok) = handleMouseClick t ok s"
| "rel_step s (MDown b) = handleMouseEvent (Mousedown b) s"
| "rel_step s (MUp b) = handleMouseEvent (Mouseup b) s"
| "rel_step s (MMove dpr x y) = handleMouseMove dpr x y s"
| "rel_step s (MWheel dir iv d t) = handleMouseWheel dir iv d t s"
| "rel_step s (PointerLock b) = s\<lparr>isLocked := b\<rparr>"
| "rel_step s (LongPress n) = touchLongPressFires n s"
| "rel_step s (TStart ts t) = handleTouchStart ts t s"
| "rel_step s (TMove dpr dir iv ts t) = handleTouchMove dpr dir iv ts t s"
| "rel_step s (TEnd n ch t) = handleTouchEnd n ch t s"
| "rel_step s TCancel = handleTouchCancel s"
| "rel_step s Cleanup = cleanup_effect s"

section \<open>Invariant\<close>

lemma rel_event_fields [simp]:
  "isLocked (handleMouseEvent ev s) = isLocked s"
  "lockRequests (handleMouseEvent ev s) = lockRequests s"
  "lastScrollTime (handleMouseEvent ev s) = lastScrollTime s"
  "lastTouchPos (handleMouseEvent ev s) = lastTouchPos s"
  "touchStartPos (handleMouseEvent ev s) = touchStartPos s"
  "touchIdentifier (handleMouseEvent ev s) = touchIdentifier s"
  "pendingTouchDelta (handleMouseEvent ev s) = pendingTouchDelta s"
  "touchTimer (handleMouseEvent ev s) = touchTimer s"
  "scheduled (handleMouseEvent ev s) = scheduled s"
  "nextTimer (handleMouseEvent ev s) = nextTimer s"
  "isTouchLongPress (handleMouseEvent ev s) = isTouchLongPress s"
  "hasTouchMove (handleMouseEvent ev s) = hasTouchMove s"
  "isMultiTouch (handleMouseEvent ev s) = isMultiTouch s"
  "pressedTouchButton (handleMouseEvent ev s) = pressedTouchButton s"
  "lastTouchEndTime (handleMouseEvent ev s) = lastTouchEndTime s"
  "lastTapTime (handleMouseEvent ev s) = lastTapTime s"
  "lastTapPos (handleMouseEvent ev s) = lastTapPos s"
  "isDoubleTapCandidate (handleMouseEvent ev s) = isDoubleTapCandidate s"
  "doubleTapDragArmedUntil (handleMouseEvent ev s) = doubleTapDragArmedUntil s"
  by (cases ev; simp add: sendReport_def Let_def)+

lemma rel_event_buttons [simp]:
  "buttons (handleMouseEvent ev s) =
    (case ev of Mousedown b \<Rightarrow> buttonDown (buttons s) b | Mouseup b \<Rightarrow> buttonUp (buttons s) b
     | _ \<Rightarrow> buttons s)"
  by (cases ev) (simp_all add: sendReport_def Let_def)

definition host_buttons :: "rel_mouse \<Rightarrow> byte" where
  "host_buttons s = last ([MOUSE_MESSAGE, 0] # sent s) ! 1"

definition rel_synced :: "rel_mouse \<Rightarrow> bool" where
  "rel_synced s \<longleftrightarrow> host_buttons s = ucast (buttons s)"

lemma rel_synced_event [simp]: "rel_synced (handleMouseEvent ev s)"
  by (cases ev) (simp_all add: rel_synced_def host_buttons_def sendReport_def Let_def
      rel_buildReport_def rel_buildButtonReport_def)

lemma rel_synced_cong: "sent s = sent t \<Longrightarrow> buttons s = buttons t \<Longrightarrow> rel_synced s = rel_synced t"
  by (simp add: rel_synced_def host_buttons_def)

lemma rel_synced_updates [simp]:
  "rel_synced (s\<lparr>isLocked := x0\<rparr>) = rel_synced s"
  "rel_synced (s\<lparr>lockRequests := x1\<rparr>) = rel_synced s"
  "rel_synced (s\<lparr>lastScrollTime := x2\<rparr>) = rel_synced s"
  "rel_synced (s\<lparr>lastTouchPos := x3\<rparr>) = rel_synced s"
  "rel_synced (s\<lparr>touchStartPos := x4\<rparr>) = rel_synced s"
  "rel_synced (s\<lparr>touchIdentifier := x5\<rparr>) = rel_synced s"
  "rel_synced (s\<lparr>pendingTouchDelta := x6\<rparr>) = rel_synced s"
  "rel_synced (s\<lparr>touchTimer := x7\<rparr>) = rel_synced s"
  "rel_synced (s\<lparr>scheduled := x8\<rparr>) = rel_synced s"
  "rel_synced (s\<lparr>nextTimer := x9\<rparr>) = rel_synced s"
  "rel_synced (s\<lparr>isTouchLongPress := x10\<rparr>) = rel_synced s"
  "rel_synced (s\<lparr>hasTouchMove := x11\<rparr>) = rel_synced s"
  "rel_synced (s\<lparr>isMultiTouch := x12\<rparr>) = rel_synced s"
  "rel_synced (s\<lparr>pressedTouchButton := x13\<rparr>) = rel_synced s"
  "rel_synced (s\<lparr>lastTouchEndTime := x14\<rparr>) = rel_synced s"
  "rel_synced (s\<lparr>lastTapTime := x15\<rparr>) = rel_synced s"
  "rel_synced (s\<lparr>lastTapPos := x16\<rparr>) = rel_synced s"
  "rel_synced (s\<lparr>isDoubleTapCandidate := x17\<rparr>) = rel_synced s"
  "rel_synced (s\<lparr>doubleTapDragArmedUntil := x18\<rparr>) = rel_synced s"
  by (rule rel_synced_cong; simp)+

text \<open>
  While no mouse button is used, every button held is the one the touch recorded; a pending long
  press excludes a held button.
\<close>

definition touch_explained :: "rel_mouse \<Rightarrow> bool" where
  "touch_explained s \<longleftrightarrow>
    (\<forall>b. button_held (buttons s) b \<longrightarrow> pressedTouchButton s = Some b) \<and> rel_synced s \<and>
    set (scheduled s) \<subseteq> set_option (touchTimer s)"

definition rel_inv :: "rel_mouse \<Rightarrow> bool" where
  "rel_inv s \<longleftrightarrow> touch_explained s \<and> (scheduled s \<noteq> [] \<longrightarrow> pressedTouchButton s = None)"

fun no_mouse_button :: "rel_event \<Rightarrow> bool" where
  "no_mouse_button (MDown b) = False"
| "no_mouse_button _ = True"

lemma rel_clear_fields [simp]:
  "buttons (clearTouchLongPressTimer s) = buttons s"
  "sent (clearTouchLongPressTimer s) = sent s"
  "pressedTouchButton (clearTouchLongPressTimer s) = pressedTouchButton s"
  "isDoubleTapCandidate (clearTouchLongPressTimer s) = isDoubleTapCandidate s"
  "touchTimer (clearTouchLongPressTimer s) = None"
  by (simp_all add: clearTouchLongPressTimer_def split: option.split)

lemma rel_clear_scheduled:
  "set (scheduled s) \<subseteq> set_option (touchTimer s) \<Longrightarrow> scheduled (clearTouchLongPressTimer s) = []"
  by (auto simp: clearTouchLongPressTimer_def js_delete_def filter_empty_conv split: option.split)

lemma rel_clear_synced [simp]: "rel_synced (clearTouchLongPressTimer s) = rel_synced s"
  by (rule rel_synced_cong) simp_all

lemma rel_release_fields [simp]:
  "pressedTouchButton (releasePressedTouchButton s) = None"
  "scheduled (releasePressedTouchButton s) = scheduled s"
  "touchTimer (releasePressedTouchButton s) = touchTimer s"
  "isDoubleTapCandidate (releasePressedTouchButton s) = isDoubleTapCandidate s"
  by (simp_all add: releasePressedTouchButton_def split: option.split del: handleMouseEvent.simps)

lemma explained_release: "touch_explained s \<Longrightarrow> touch_explained (releasePressedTouchButton s)"
  by (auto simp: touch_explained_def releasePressedTouchButton_def button_held_up split: option.split
      simp del: handleMouseEvent.simps)

lemma explained_clear:
  "touch_explained s \<Longrightarrow>
    touch_explained (clearTouchLongPressTimer s) \<and> scheduled (clearTouchLongPressTimer s) = []"
  by (simp add: touch_explained_def rel_clear_scheduled)

lemma rel_inv_idle: "touch_explained s \<Longrightarrow> scheduled s = [] \<Longrightarrow> rel_inv s"
  by (simp add: rel_inv_def)

lemma explained_updates [simp]:
  "touch_explained (s\<lparr>isMultiTouch := x1\<rparr>) = touch_explained s"
  "touch_explained (s\<lparr>hasTouchMove := x2\<rparr>) = touch_explained s"
  "touch_explained (s\<lparr>isDoubleTapCandidate := x3\<rparr>) = touch_explained s"
  "touch_explained (s\<lparr>lastTouchPos := x4\<rparr>) = touch_explained s"
  "touch_explained (s\<lparr>touchStartPos := x5\<rparr>) = touch_explained s"
  "touch_explained (s\<lparr>touchIdentifier := x6\<rparr>) = touch_explained s"
  "touch_explained (s\<lparr>pendingTouchDelta := x7\<rparr>) = touch_explained s"
  "touch_explained (s\<lparr>isTouchLongPress := x8\<rparr>) = touch_explained s"
  "touch_explained (s\<lparr>doubleTapDragArmedUntil := x9\<rparr>) = touch_explained s"
  "touch_explained (s\<lparr>lastTouchEndTime := x10\<rparr>) = touch_explained s"
  "touch_explained (s\<lparr>lastTapTime := x11\<rparr>) = touch_explained s"
  "touch_explained (s\<lparr>lastTapPos := x12\<rparr>) = touch_explained s"
  "touch_explained (s\<lparr>lastScrollTime := x13\<rparr>) = touch_explained s"
  by (simp_all add: touch_explained_def)

lemma explained_motion:
  "touch_explained s \<Longrightarrow> touch_explained (handleMouseEvent (Move x y) s)"
  "touch_explained s \<Longrightarrow> touch_explained (handleMouseEvent (Wheel d) s)"
  by (simp_all add: touch_explained_def del: handleMouseEvent.simps)

lemma explained_begin [simp]: "touch_explained (touch_begin p t s) = touch_explained s"
  by (simp add: touch_begin_def Let_def)

lemma rel_inv_touchStart: "rel_inv s \<Longrightarrow> rel_inv (handleTouchStart ts t s)"
proof (cases ts)
  case (Cons p others)
  assume "rel_inv s"
  then have e: "touch_explained s" by (simp add: rel_inv_def)
  show ?thesis
  proof (cases "others = []")
    case False
    with Cons e show ?thesis
      by (auto simp: handleTouchStart_def Let_def explained_clear intro!: rel_inv_idle explained_release)
  next
    case True
    define u where "u = clearTouchLongPressTimer
      ((releasePressedTouchButton (touch_begin p t s))\<lparr>pressedTouchButton := None\<rparr>)"
    have "touch_explained ((releasePressedTouchButton (touch_begin p t s))\<lparr>pressedTouchButton := None\<rparr>)"
      using explained_release [OF explained_begin [THEN iffD2, OF e, of p t]]
      by (simp add: touch_explained_def)
    then have "touch_explained u" "scheduled u = []" "pressedTouchButton u = None"
      by (simp_all add: u_def explained_clear)
    then have "rel_inv (if \<not> isDoubleTapCandidate u then startTouchLongPress u else u)"
      by (auto simp: rel_inv_def touch_explained_def startTouchLongPress_def js_add_def)
    moreover have "isDoubleTapCandidate u = isDoubleTapCandidate (touch_begin p t s)"
      by (simp add: u_def)
    ultimately show ?thesis using True
      by (simp add: handleTouchStart_def Let_def Cons split: if_splits flip: u_def)
  qed
qed (simp add: handleTouchStart_def)

lemma rel_inv_longPress: "rel_inv s \<Longrightarrow> rel_inv (touchLongPressFires n s)"
proof (cases "n \<in> set (scheduled s)")
  case True
  assume inv: "rel_inv s"
  with True have "js_delete n (scheduled s) = []"
    by (cases "touchTimer s") (auto simp: rel_inv_def touch_explained_def js_delete_def filter_empty_conv)
  moreover have "pressedTouchButton s = None"
    using inv True by (auto simp: rel_inv_def)
  ultimately show ?thesis using inv True
    by (auto simp: rel_inv_def touch_explained_def touchLongPressFires_def button_held_down
        simp del: handleMouseEvent.simps)
qed (simp add: touchLongPressFires_def)

lemma rel_inv_pad_move:
  assumes "rel_inv s"
  shows "rel_inv (touch_pad_move dpr p delta s)"
proof -
  let ?d = "dist2 p (touchStartPos s)"
  let ?s = "s\<lparr>pendingTouchDelta := (fst (pendingTouchDelta s) + fst delta,
      snd (pendingTouchDelta s) + snd delta)\<rparr>"
  define a where "a = (if ?d > TAP_THRESHOLD ^ 2
    then clearTouchLongPressTimer (?s\<lparr>hasTouchMove := True\<rparr>) else ?s)"
  have a: "rel_inv a" "?d > TAP_THRESHOLD ^ 2 \<Longrightarrow> scheduled a = []"
    using assms explained_clear [of "?s\<lparr>hasTouchMove := True\<rparr>"] by (auto simp: a_def rel_inv_def)
  define c where "c = (isDoubleTapCandidate a \<and> ?d > DRAG_THRESHOLD ^ 2 \<and> pressedTouchButton a = None)"
  define b where "b = (if c then handleMouseEvent (Mousedown 0) (a\<lparr>pressedTouchButton := Some 0\<rparr>) else a)"
  have "scheduled a = []" if c
    using a(2) that by (simp add: c_def TAP_THRESHOLD_def DRAG_THRESHOLD_def power2_eq_square)
  with a have "rel_inv b"
    by (auto simp: b_def c_def rel_inv_def touch_explained_def button_held_down
        simp del: handleMouseEvent.simps)
  moreover have "touch_pad_move dpr p delta s =
      (if (\<not> isDoubleTapCandidate b \<or> pressedTouchButton b \<noteq> None \<or> isTouchLongPress b) \<and>
          (fst (pendingTouchDelta b) \<noteq> 0 \<or> snd (pendingTouchDelta b) \<noteq> 0)
       then (handleMouseEvent (Move (scaleTouchMovement dpr (fst (pendingTouchDelta b)))
              (scaleTouchMovement dpr (snd (pendingTouchDelta b)))) b)\<lparr>pendingTouchDelta := (0, 0)\<rparr>
       else b)"
    by (simp only: touch_pad_move_def Let_def a_def b_def c_def)
  ultimately show ?thesis
    by (simp add: rel_inv_def explained_motion del: handleMouseEvent.simps)
qed

lemma rel_inv_touchMove: "rel_inv s \<Longrightarrow> rel_inv (handleTouchMove dpr dir iv ts t s)"
proof (cases "length ts > 1")
  case True
  assume "rel_inv s"
  let ?u = "releasePressedTouchButton (clearTouchLongPressTimer
    (s\<lparr>isMultiTouch := True, hasTouchMove := True, pendingTouchDelta := (0, 0)\<rparr>))"
  have "touch_explained ?u" "scheduled ?u = []"
    using \<open>rel_inv s\<close> by (auto simp: rel_inv_def explained_clear intro!: explained_release)
  with True show ?thesis
    by (auto simp: handleTouchMove_def Let_def explained_motion simp del: handleMouseEvent.simps
        intro!: rel_inv_idle)
next
  case False
  assume inv: "rel_inv s"
  then have "rel_inv (s\<lparr>lastTouchPos := p\<rparr>)" for p by (simp add: rel_inv_def)
  with False inv show ?thesis
    by (simp add: handleTouchMove_def Let_def rel_inv_pad_move)
qed

lemma rel_inv_touchEnd: "rel_inv s \<Longrightarrow> rel_inv (handleTouchEnd n ch t s)"
proof -
  assume inv: "rel_inv s"
  define u where "u = clearTouchLongPressTimer (s\<lparr>lastTouchEndTime := t\<rparr>)"
  have u: "touch_explained u" "scheduled u = []"
    using inv explained_clear [of "s\<lparr>lastTouchEndTime := t\<rparr>"] by (simp_all add: u_def rel_inv_def)
  have idle: "rel_inv ((resetTouchState w)\<lparr>isDoubleTapCandidate := False\<rparr>)"
    if "touch_explained w" "scheduled w = []" "pressedTouchButton w = None" for w
    using that by (simp add: rel_inv_def touch_explained_def resetTouchState_def)
  define c where "c = (handleMouseEvent (Mouseup 0) (handleMouseEvent (Mousedown 0) u))
    \<lparr>lastTapTime := t, lastTapPos := pos (hd ch)\<rparr>"
  have c: "touch_explained c" "scheduled c = []" "pressedTouchButton c = pressedTouchButton u"
    using u by (auto simp: c_def touch_explained_def button_held_up button_held_down
        simp del: handleMouseEvent.simps)
  have "rel_inv ((resetTouchState (if isDoubleTapCandidate c
      then c\<lparr>doubleTapDragArmedUntil := t + DOUBLE_TAP_DRAG_WINDOW\<rparr> else c))
        \<lparr>isDoubleTapCandidate := False\<rparr>)" if "pressedTouchButton u = None"
    using c that by (auto intro!: idle)
  moreover have "rel_inv ((resetTouchState ((releasePressedTouchButton u)
      \<lparr>doubleTapDragArmedUntil := 0\<rparr>))\<lparr>isDoubleTapCandidate := False\<rparr>)"
    using u by (auto intro!: idle explained_release)
  moreover have "rel_inv ((resetTouchState u)\<lparr>isDoubleTapCandidate := False\<rparr>)"
    if "pressedTouchButton u = None" using u that by (rule idle)
  moreover have "rel_inv (s\<lparr>lastTouchEndTime := t, isMultiTouch := True\<rparr>)"
    using inv by (simp add: rel_inv_def)
  ultimately show ?thesis
    unfolding handleTouchEnd_def Let_def u_def [symmetric] c_def [symmetric] by simp
qed

lemma rel_inv_cancel: "rel_inv s \<Longrightarrow> rel_inv (handleTouchCancel s)"
proof -
  assume "rel_inv s"
  then have "touch_explained (releasePressedTouchButton (clearTouchLongPressTimer s))"
    "scheduled (releasePressedTouchButton (clearTouchLongPressTimer s)) = []"
    by (auto simp: rel_inv_def explained_clear intro!: explained_release)
  then show ?thesis by (simp add: handleTouchCancel_def resetTouchState_def rel_inv_def touch_explained_def)
qed

lemma rel_inv_cleanup: "rel_inv s \<Longrightarrow> rel_inv (cleanup_effect s)"
  using rel_clear_scheduled [of "(s\<lparr>buttons := 0\<rparr>)\<lparr>sent := sent s @ [MOUSE_MESSAGE # rel_buildReport 0 0 0 0]\<rparr>"]
  by (simp add: cleanup_effect_def rel_reset_def sendReport_def rel_inv_def touch_explained_def
      rel_synced_def host_buttons_def rel_buildReport_def)

lemma rel_inv_mouse:
  assumes "rel_inv s"
  shows "rel_inv (handleMouseClick u ok s)" "rel_inv (handleMouseMove dpr x y s)"
    "rel_inv (handleMouseWheel dir iv d u s)" "rel_inv (s\<lparr>isLocked := l\<rparr>)"
    "rel_inv (handleMouseEvent (Mouseup b) s)"
  using assms
  by (auto simp: handleMouseClick_def handleMouseMove_def handleMouseWheel_def rel_inv_def Let_def
      touch_explained_def button_held_up simp del: handleMouseEvent.simps)

lemma rel_inv_step: "rel_inv s \<Longrightarrow> no_mouse_button e \<Longrightarrow> rel_inv (rel_step s e)"
  by (cases e) (simp_all add: rel_inv_touchStart rel_inv_touchMove rel_inv_touchEnd rel_inv_cancel
      rel_inv_cleanup rel_inv_longPress rel_inv_mouse del: handleMouseEvent.simps)

lemma rel_inv_init: "rel_inv init_rel_mouse"
  by (simp add: rel_inv_def touch_explained_def init_rel_mouse_def rel_synced_def host_buttons_def)

interpretation touch_pad: guarded_machine init_rel_mouse "\<lambda>_. no_mouse_button" rel_step rel_inv
  by unfold_locales (auto intro: rel_inv_init rel_inv_step)

section \<open>Frames\<close>

lemma framed_pad_event [simp]:
  "framed MOUSE_MESSAGE 4 (sent (handleMouseEvent ev s)) = framed MOUSE_MESSAGE 4 (sent s)"
  by (cases ev) (simp_all add: sendReport_def rel_buildReport_def rel_buildButtonReport_def Let_def)

lemma framed_pad_release [simp]:
  "framed MOUSE_MESSAGE 4 (sent (releasePressedTouchButton s)) = framed MOUSE_MESSAGE 4 (sent s)"
  by (simp add: releasePressedTouchButton_def split: option.split del: handleMouseEvent.simps)

lemma framed_pad_touches:
  "framed MOUSE_MESSAGE 4 (sent s) \<Longrightarrow> framed MOUSE_MESSAGE 4 (sent (handleTouchStart ts t s))"
  "framed MOUSE_MESSAGE 4 (sent s) \<Longrightarrow> framed MOUSE_MESSAGE 4 (sent (handleTouchMove dpr dir iv ts t s))"
  "framed MOUSE_MESSAGE 4 (sent s) \<Longrightarrow> framed MOUSE_MESSAGE 4 (sent (handleTouchEnd n ts t s))"
  "framed MOUSE_MESSAGE 4 (sent s) \<Longrightarrow> framed MOUSE_MESSAGE 4 (sent (handleTouchCancel s))"
  by (auto simp: handleTouchStart_def touch_begin_def startTouchLongPress_def handleTouchMove_def
      touch_pad_move_def handleTouchEnd_def handleTouchCancel_def resetTouchState_def Let_def
      split: list.split simp del: handleMouseEvent.simps)

interpretation rel_device: input_device init_rel_mouse rel_step sent MOUSE_MESSAGE 4
proof
  show "framed MOUSE_MESSAGE 4 (sent init_rel_mouse)" by (simp add: init_rel_mouse_def)
next
  fix s :: rel_mouse and e :: rel_event
  assume "framed MOUSE_MESSAGE 4 (sent s)"
  then show "framed MOUSE_MESSAGE 4 (sent (rel_step s e))"
    by (cases e) (auto simp: framed_pad_touches handleMouseClick_def handleMouseMove_def
        handleMouseWheel_def touchLongPressFires_def cleanup_effect_def sendReport_def rel_reset_def
        rel_buildReport_def Let_def simp del: handleMouseEvent.simps)
qed

section \<open>Properties\<close>

text \<open>
  On the touch pad, while no mouse button is used, lifting the last finger or a cancelled
  touch leaves the host with no button held and no long press pending, after any gestures.
\<close>

theorem touch_pad_end_releases:
  fixes es :: "rel_event list"
  assumes "run_allowed (\<lambda>_. no_mouse_button) rel_step init_rel_mouse es"
    and "e = TCancel \<or> (\<exists>ch t. e = TEnd 0 ch t)"
  defines "s \<equiv> foldl rel_step init_rel_mouse (es @ [e])"
  shows "scheduled s = [] \<and> pressedTouchButton s = None \<and> (\<forall>b. \<not> button_held (buttons s) b) \<and>
    host_buttons s = ucast (buttons s)"
proof -
  let ?s = "foldl rel_step init_rel_mouse es"
  have inv: "rel_inv ?s" by (rule touch_pad.inv_run [OF assms(1)])
  have s: "s = rel_step ?s e" by (simp add: s_def)
  have "set (scheduled ?s) \<subseteq> set_option (touchTimer ?s)" using inv by (simp add: rel_inv_def touch_explained_def)
  then have "scheduled s = [] \<and> pressedTouchButton s = None"
    using assms(2) rel_clear_scheduled [of ?s] rel_clear_scheduled [of "?s\<lparr>lastTouchEndTime := _\<rparr>"]
    by (auto simp: s handleTouchCancel_def handleTouchEnd_def Let_def resetTouchState_def
        simp del: handleMouseEvent.simps)
  moreover have "rel_inv s" unfolding s by (rule rel_inv_step [OF inv]) (use assms(2) in auto)
  ultimately show ?thesis by (auto simp: rel_inv_def touch_explained_def rel_synced_def)
qed

theorem touch_pad_end_releases_witness:
  "scheduled (foldl rel_step init_rel_mouse
    ([TStart [\<lparr>touch_id = 0, pos = (10, 10)\<rparr>] 1000] @ [TEnd 0 [\<lparr>touch_id = 0, pos = (10, 10)\<rparr>] 1100])) = []"
  using touch_pad_end_releases [of "[TStart [\<lparr>touch_id = 0, pos = (10, 10)\<rparr>] 1000]"
      "TEnd 0 [\<lparr>touch_id = 0, pos = (10, 10)\<rparr>] 1100"] by simp

end
