(* ===== verification/Ws_Client.thy ===== *)
theory Ws_Client
  imports Prelude
begin

text \<open>
  The console's connection, the class \<^verbatim>\<open>WsClient\<close> of \<^verbatim>\<open>web/src/lib/websocket.ts\<close>, with the sockets
  and timers the browser keeps for it, and the rate limit of account refreshes in
  \<^verbatim>\<open>web/src/lib/auth-events.ts\<close>. Calls of the page, events of the sockets and timer ticks are the
  steps; the environment's part is what the browser guarantees (a socket opens once, delivers
  messages only while open, and closes once; a cleared timer does not fire).
\<close>

section \<open>Types\<close>

record socket =
  ready :: ready_state
  live :: bool  \<comment> \<open>\<^verbatim>\<open>onclose\<close> is still the client's handler\<close>

datatype send_data = Numbers "int list" | Buffer "byte list" | Bytes "byte list"

definition INPUT_EVENTS :: "int list" where
  "INPUT_EVENTS = [1, 2]"

definition isInputReport :: "send_data \<Rightarrow> bool" where
  "isInputReport data =
    (let first = (case data of
          Numbers xs \<Rightarrow> (case xs of [] \<Rightarrow> None | x # _ \<Rightarrow> Some x)
        | Buffer bs \<Rightarrow> (case bs of [] \<Rightarrow> None | b # _ \<Rightarrow> Some (uint b))
        | Bytes bs \<Rightarrow> (case bs of [] \<Rightarrow> None | b # _ \<Rightarrow> Some (uint b)))
     in case first of None \<Rightarrow> False | Some x \<Rightarrow> x \<in> set INPUT_EVENTS)"

text \<open>
  The client's fields, and the browser's: \<open>sockets\<close> by number, running intervals, timeouts still
  to fire, and what happened: bytes put on a socket, handlers called, account notifications.
\<close>

record ws_client =
  maxReconnectAttempts :: "nat option"  \<comment> \<open>\<open>None\<close> is \<^verbatim>\<open>Number.POSITIVE_INFINITY\<close>\<close>
  inst :: "nat option"
  heartbeatTimer :: "nat option"
  reconnectTimer :: "nat option"
  reconnectAttempts :: nat
  shouldReconnect :: bool
  viewOnly :: bool
  eventHandlers :: "(string \<times> nat list) list"
  sockets :: "socket list"
  intervals :: "nat list"
  timeouts :: "nat list"
  nextTimer :: nat
  out :: "(nat \<times> send_data) list"
  called :: "(nat \<times> string) list"
  expired :: nat
  refreshes :: nat

definition new_client :: "nat option \<Rightarrow> ws_client" where
  "new_client limit =
    \<lparr>maxReconnectAttempts = limit, inst = None, heartbeatTimer = None, reconnectTimer = None,
     reconnectAttempts = 0, shouldReconnect = True, viewOnly = False, eventHandlers = [],
     sockets = [], intervals = [], timeouts = [], nextTimer = 1, out = [], called = [],
     expired = 0, refreshes = 0\<rparr>"

section \<open>Sending\<close>

definition isConnected :: "ws_client \<Rightarrow> bool" where
  "isConnected c = (case inst c of None \<Rightarrow> False | Some i \<Rightarrow> ready (sockets c ! i) = OPEN)"

definition ws_send :: "send_data \<Rightarrow> ws_client \<Rightarrow> ws_client \<times> bool" where
  "ws_send data c =
    (case inst c of
       None \<Rightarrow> (c, False)
     | Some i \<Rightarrow>
         if \<not> isConnected c then (c, False)
         else if viewOnly c \<and> isInputReport data then (c, False)
         else (c\<lparr>out := out c @ [(i, data)]\<rparr>, True))"

definition setViewOnly :: "bool \<Rightarrow> ws_client \<Rightarrow> ws_client" where
  "setViewOnly b c = c\<lparr>viewOnly := b\<rparr>"

section \<open>Timers\<close>

definition stopHeartbeat :: "ws_client \<Rightarrow> ws_client" where
  "stopHeartbeat c =
    (case heartbeatTimer c of
       None \<Rightarrow> c
     | Some t \<Rightarrow> c\<lparr>intervals := js_delete t (intervals c), heartbeatTimer := None\<rparr>)"

definition startHeartbeat :: "ws_client \<Rightarrow> ws_client" where
  "startHeartbeat c =
    (let c = stopHeartbeat c
     in c\<lparr>heartbeatTimer := Some (nextTimer c), intervals := js_add (nextTimer c) (intervals c),
          nextTimer := Suc (nextTimer c)\<rparr>)"

definition cleanup :: "ws_client \<Rightarrow> ws_client" where
  "cleanup c =
    (let c = stopHeartbeat c
     in case reconnectTimer c of
          None \<Rightarrow> c
        | Some t \<Rightarrow> c\<lparr>timeouts := js_delete t (timeouts c), reconnectTimer := None\<rparr>)"

definition scheduleReconnect :: "ws_client \<Rightarrow> ws_client" where
  "scheduleReconnect c =
    (if \<not> shouldReconnect c then c
     else if (case maxReconnectAttempts c of None \<Rightarrow> False | Some m \<Rightarrow> reconnectAttempts c \<ge> m) then c
     else c\<lparr>reconnectAttempts := Suc (reconnectAttempts c), reconnectTimer := Some (nextTimer c),
            timeouts := js_add (nextTimer c) (timeouts c), nextTimer := Suc (nextTimer c)\<rparr>)"

section \<open>Connections\<close>

text \<open>\<^verbatim>\<open>previous.onclose = () => undefined; previous.close()\<close>\<close>

definition abandon_socket :: "nat \<Rightarrow> ws_client \<Rightarrow> ws_client" where
  "abandon_socket i c =
    c\<lparr>sockets := (sockets c)[i := (sockets c ! i)\<lparr>live := False, ready := CLOSING\<rparr>]\<rparr>"

definition createConnection :: "ws_client \<Rightarrow> ws_client" where
  "createConnection c =
    (let c = cleanup c;
         c = (case inst c of
                Some i \<Rightarrow> if ready (sockets c ! i) \<noteq> CLOSED then abandon_socket i c else c
              | None \<Rightarrow> c)
     in c\<lparr>inst := Some (length (sockets c)),
          sockets := sockets c @ [\<lparr>ready = CONNECTING, live = True\<rparr>]\<rparr>)"

definition connect :: "ws_client \<Rightarrow> ws_client" where
  "connect c = createConnection (c\<lparr>shouldReconnect := True, reconnectAttempts := 0\<rparr>)"

definition ws_close :: "ws_client \<Rightarrow> ws_client" where
  "ws_close c =
    (let c = cleanup (c\<lparr>shouldReconnect := False\<rparr>);
         previous = inst c;
         c = c\<lparr>inst := None\<rparr>
     in case previous of
          None \<Rightarrow> c
        | Some i \<Rightarrow>
            if ready (sockets c ! i) = OPEN \<or> ready (sockets c ! i) = CONNECTING
            then abandon_socket i c else c)"

definition handleOpen :: "ws_client \<Rightarrow> ws_client" where
  "handleOpen c = startHeartbeat (c\<lparr>reconnectAttempts := 0\<rparr>)"

definition handleClose :: "nat \<Rightarrow> ws_client \<Rightarrow> ws_client" where
  "handleClose code c =
    (let c = stopHeartbeat c
     in if code = 4401 then
          (cleanup (c\<lparr>shouldReconnect := False\<rparr>))\<lparr>expired := Suc (expired c)\<rparr>
        else
          scheduleReconnect (if code = 4403 then c\<lparr>refreshes := Suc (refreshes c)\<rparr> else c))"

section \<open>Handlers\<close>

definition ws_on :: "string \<Rightarrow> nat \<Rightarrow> ws_client \<Rightarrow> ws_client" where
  "ws_on type h c =
    (let m = (if map_of (eventHandlers c) type = None
              then AList.update type [] (eventHandlers c) else eventHandlers c)
     in c\<lparr>eventHandlers := AList.update type (js_add h (the (map_of m type))) m\<rparr>)"

definition ws_off :: "string \<Rightarrow> nat option \<Rightarrow> ws_client \<Rightarrow> ws_client" where
  "ws_off type h c =
    (case h of
       Some h \<Rightarrow>
         (case map_of (eventHandlers c) type of
            None \<Rightarrow> c
          | Some hs \<Rightarrow>
              let hs = js_delete h hs
              in if hs = [] then c\<lparr>eventHandlers := AList.delete type (eventHandlers c)\<rparr>
                 else c\<lparr>eventHandlers := AList.update type hs (eventHandlers c)\<rparr>)
     | None \<Rightarrow> c\<lparr>eventHandlers := AList.delete type (eventHandlers c)\<rparr>)"

text \<open>\<open>type\<close> is the field \<^verbatim>\<open>type\<close> of the parsed message, \<open>None\<close> when parsing or reading it fails.\<close>

definition handleMessage :: "string option \<Rightarrow> ws_client \<Rightarrow> ws_client" where
  "handleMessage type c =
    (case type of
       None \<Rightarrow> c
     | Some ty \<Rightarrow>
         if ty = ''auth'' then c\<lparr>refreshes := Suc (refreshes c)\<rparr>
         else (case map_of (eventHandlers c) ty of
                 None \<Rightarrow> c
               | Some hs \<Rightarrow> c\<lparr>called := called c @ map (\<lambda>h. (h, ty)) hs\<rparr>))"

section \<open>Steps\<close>

datatype ws_event =
  Connect | Close | Send send_data | ViewOnly bool | On string nat | Off string "nat option"
| SockOpen nat | SockMessage nat "string option" | SockClosing nat | SockClose nat nat
| HeartbeatTick nat | ReconnectFires nat

definition set_ready :: "nat \<Rightarrow> ready_state \<Rightarrow> ws_client \<Rightarrow> ws_client" where
  "set_ready i r c = c\<lparr>sockets := (sockets c)[i := (sockets c ! i)\<lparr>ready := r\<rparr>]\<rparr>"

text \<open>What the browser may deliver.\<close>

fun possible :: "ws_client \<Rightarrow> ws_event \<Rightarrow> bool" where
  "possible c (SockOpen i) \<longleftrightarrow> i < length (sockets c) \<and> ready (sockets c ! i) = CONNECTING"
| "possible c (SockMessage i m) \<longleftrightarrow> i < length (sockets c) \<and> ready (sockets c ! i) = OPEN"
| "possible c (SockClosing i) \<longleftrightarrow> i < length (sockets c) \<and> ready (sockets c ! i) = OPEN"
| "possible c (SockClose i code) \<longleftrightarrow> i < length (sockets c) \<and> ready (sockets c ! i) \<noteq> CLOSED"
| "possible c (HeartbeatTick t) \<longleftrightarrow> t \<in> set (intervals c)"
| "possible c (ReconnectFires t) \<longleftrightarrow> t \<in> set (timeouts c)"
| "possible c _ \<longleftrightarrow> True"

fun ws_step :: "ws_client \<Rightarrow> ws_event \<Rightarrow> ws_client" where
  "ws_step c Connect = connect c"
| "ws_step c Close = ws_close c"
| "ws_step c (Send d) = fst (ws_send d c)"
| "ws_step c (ViewOnly b) = setViewOnly b c"
| "ws_step c (On ty h) = ws_on ty h c"
| "ws_step c (Off ty h) = ws_off ty h c"
| "ws_step c (SockOpen i) = handleOpen (set_ready i OPEN c)"
| "ws_step c (SockMessage i m) = handleMessage m c"
| "ws_step c (SockClosing i) = set_ready i CLOSING c"
| "ws_step c (SockClose i code) =
     (let was_live = live (sockets c ! i); c = set_ready i CLOSED c
      in if was_live then handleClose code c else c)"
| "ws_step c (HeartbeatTick t) = fst (ws_send (Bytes [0]) c)"
| "ws_step c (ReconnectFires t) = createConnection (c\<lparr>timeouts := js_delete t (timeouts c)\<rparr>)"

section \<open>Invariant\<close>

lemma stopHeartbeat_fields [simp]:
  "maxReconnectAttempts (stopHeartbeat c) = maxReconnectAttempts c"
  "inst (stopHeartbeat c) = inst c"
  "reconnectAttempts (stopHeartbeat c) = reconnectAttempts c"
  "shouldReconnect (stopHeartbeat c) = shouldReconnect c"
  "viewOnly (stopHeartbeat c) = viewOnly c"
  "eventHandlers (stopHeartbeat c) = eventHandlers c"
  "sockets (stopHeartbeat c) = sockets c"
  "nextTimer (stopHeartbeat c) = nextTimer c"
  "out (stopHeartbeat c) = out c"
  "called (stopHeartbeat c) = called c"
  "expired (stopHeartbeat c) = expired c"
  "refreshes (stopHeartbeat c) = refreshes c"
  "timeouts (stopHeartbeat c) = timeouts c"
  "reconnectTimer (stopHeartbeat c) = reconnectTimer c"
  "heartbeatTimer (stopHeartbeat c) = None"
  by (simp_all add: stopHeartbeat_def split: option.split)

lemma cleanup_fields [simp]:
  "maxReconnectAttempts (cleanup c) = maxReconnectAttempts c"
  "inst (cleanup c) = inst c"
  "reconnectAttempts (cleanup c) = reconnectAttempts c"
  "shouldReconnect (cleanup c) = shouldReconnect c"
  "viewOnly (cleanup c) = viewOnly c"
  "eventHandlers (cleanup c) = eventHandlers c"
  "sockets (cleanup c) = sockets c"
  "nextTimer (cleanup c) = nextTimer c"
  "out (cleanup c) = out c"
  "called (cleanup c) = called c"
  "expired (cleanup c) = expired c"
  "refreshes (cleanup c) = refreshes c"
  "heartbeatTimer (cleanup c) = None" "reconnectTimer (cleanup c) = None"
  by (simp_all add: cleanup_def Let_def split: option.split)

text \<open>
  Every timer the browser keeps is the one the client would clear; a socket whose close the
  client would hear is the current one; a reconnect is only pending when the current socket is
  closed and reconnecting is wanted; the heartbeat only runs on a socket that has been open.
\<close>

definition timers_held :: "ws_client \<Rightarrow> bool" where
  "timers_held c \<longleftrightarrow> set (intervals c) \<subseteq> set_option (heartbeatTimer c) \<and>
    set (timeouts c) \<subseteq> set_option (reconnectTimer c)"

definition quiet :: "socket \<Rightarrow> bool" where
  "quiet k \<longleftrightarrow> (live k \<longrightarrow> ready k = CLOSED) \<and> ready k \<noteq> CONNECTING \<and> ready k \<noteq> OPEN"

definition held_ok :: "socket list \<Rightarrow> nat option \<Rightarrow> bool" where
  "held_ok ks cur \<longleftrightarrow>
    (\<forall>i. cur = Some i \<longrightarrow> i < length ks \<and> live (ks ! i)) \<and>
    (\<forall>j < length ks. cur \<noteq> Some j \<longrightarrow> quiet (ks ! j))"

definition timers_timely :: "ws_client \<Rightarrow> bool" where
  "timers_timely c \<longleftrightarrow>
    (timeouts c \<noteq> [] \<longrightarrow> shouldReconnect c \<and> (\<exists>i. inst c = Some i \<and> ready (sockets c ! i) = CLOSED)) \<and>
    (intervals c \<noteq> [] \<longrightarrow> (\<exists>i. inst c = Some i \<and> ready (sockets c ! i) \<in> {OPEN, CLOSING}))"

definition ws_inv :: "ws_client \<Rightarrow> bool" where
  "ws_inv c \<longleftrightarrow> timers_held c \<and> held_ok (sockets c) (inst c) \<and> timers_timely c"

lemma stopHeartbeat_intervals: "timers_held c \<Longrightarrow> intervals (stopHeartbeat c) = []"
  by (auto simp: timers_held_def stopHeartbeat_def js_delete_def filter_empty_conv split: option.split)

lemma cleanup_timers: "timers_held c \<Longrightarrow> intervals (cleanup c) = [] \<and> timeouts (cleanup c) = []"
  using stopHeartbeat_intervals [of c]
  by (auto simp: timers_held_def cleanup_def Let_def js_delete_def filter_empty_conv split: option.split)

lemma timers_held_cleanup: "timers_held c \<Longrightarrow> timers_held (cleanup c)"
  by (simp add: timers_held_def [of "cleanup c"] cleanup_timers)

lemma held_ok_current:
  "held_ok ks cur \<Longrightarrow> j < length ks \<Longrightarrow> live (ks ! j) \<Longrightarrow> ready (ks ! j) \<noteq> CLOSED \<Longrightarrow> cur = Some j"
  "held_ok ks cur \<Longrightarrow> j < length ks \<Longrightarrow> ready (ks ! j) = CONNECTING \<or> ready (ks ! j) = OPEN \<Longrightarrow>
    cur = Some j \<and> live (ks ! j)"
  by (auto simp: held_ok_def quiet_def)

lemma held_ok_ready:
  assumes "held_ok ks cur"
    and "r \<noteq> CLOSED \<Longrightarrow> ready (ks ! i) = CONNECTING \<or> ready (ks ! i) = OPEN"
  shows "held_ok (ks[i := (ks ! i)\<lparr>ready := r\<rparr>]) cur"
proof (cases "i < length ks")
  case True
  with assms show ?thesis by (cases cur) (auto simp: held_ok_def quiet_def nth_list_update)
next
  case False
  with assms(1) show ?thesis by (simp add: list_update_beyond)
qed

lemma held_ok_quiet:
  "held_ok ks (Some i) \<Longrightarrow> quiet (ks ! i) \<Longrightarrow> held_ok ks None"
  "held_ok ks (Some i) \<Longrightarrow> held_ok (ks[i := (ks ! i)\<lparr>live := False, ready := CLOSING\<rparr>]) None"
  by (auto simp: held_ok_def quiet_def nth_list_update)

lemma held_ok_closed: "held_ok ks (Some i) \<Longrightarrow> ready (ks ! i) = CLOSED \<Longrightarrow> held_ok ks None"
  by (rule held_ok_quiet) (auto simp: quiet_def)

lemma held_ok_new:
  "held_ok ks None \<Longrightarrow> held_ok (ks @ [\<lparr>ready = CONNECTING, live = True\<rparr>]) (Some (length ks))"
  by (auto simp: held_ok_def nth_append less_Suc_eq)

text \<open>A new connection, and closing, start from no timers.\<close>

lemma ws_inv_createConnection:
  assumes "timers_held c" and "held_ok (sockets c) (inst c)"
  shows "ws_inv (createConnection c)"
proof -
  define d where "d = (case inst c of
      Some i \<Rightarrow> if ready (sockets c ! i) \<noteq> CLOSED then abandon_socket i (cleanup c) else cleanup c
    | None \<Rightarrow> cleanup c)"
  have d: "intervals d = []" "timeouts d = []"
    using cleanup_timers [OF assms(1)] by (simp_all add: d_def abandon_socket_def split: option.split)
  have "held_ok (sockets d) None"
    using assms(2) by (cases "inst c") (simp_all add: d_def abandon_socket_def held_ok_quiet held_ok_closed)
  moreover have "createConnection c = d\<lparr>inst := Some (length (sockets d)),
      sockets := sockets d @ [\<lparr>ready = CONNECTING, live = True\<rparr>]\<rparr>"
    by (simp add: createConnection_def Let_def d_def split: option.split)
  ultimately show ?thesis
    using d by (simp add: ws_inv_def timers_held_def timers_timely_def held_ok_new)
qed

text \<open>
  A restriction of the page rather than a promise of the browser: \<^verbatim>\<open>close\<close> is not called while the
  current socket is in its closing handshake, where the code would leave its handler in place.
\<close>

fun tame :: "ws_client \<Rightarrow> ws_event \<Rightarrow> bool" where
  "tame c Close \<longleftrightarrow> (\<forall>i. inst c = Some i \<longrightarrow> ready (sockets c ! i) \<noteq> CLOSING)"
| "tame c e \<longleftrightarrow> possible c e"

lemma ws_inv_close:
  assumes "ws_inv c" and "tame c Close"
  shows "ws_inv (ws_close c)"
proof -
  have "intervals (cleanup (c\<lparr>shouldReconnect := False\<rparr>)) = []" "timeouts (cleanup (c\<lparr>shouldReconnect := False\<rparr>)) = []"
    using assms(1) cleanup_timers [of "c\<lparr>shouldReconnect := False\<rparr>"]
    by (simp_all add: ws_inv_def timers_held_def)
  moreover have "held_ok (sockets (ws_close c)) (inst (ws_close c))"
  proof (cases "inst c")
    case (Some i)
    with assms have "held_ok (sockets c) (Some i)" "ready (sockets c ! i) \<noteq> CLOSING"
      by (simp_all add: ws_inv_def)
    with Some show ?thesis
      by (cases "ready (sockets c ! i)")
        (simp_all add: ws_close_def Let_def abandon_socket_def held_ok_quiet held_ok_closed)
  qed (use assms in \<open>simp add: ws_close_def Let_def ws_inv_def\<close>)
  ultimately show ?thesis
    by (cases "inst c")
      (simp_all add: ws_inv_def timers_held_def timers_timely_def ws_close_def Let_def abandon_socket_def)
qed

lemma ws_inv_sockOpen:
  assumes "ws_inv c" and "possible c (SockOpen i)"
  shows "ws_inv (ws_step c (SockOpen i))"
proof -
  have i: "inst c = Some i" "i < length (sockets c)" "timeouts c = []"
    using assms held_ok_current(2) [of "sockets c" "inst c" i]
    by (auto simp: ws_inv_def timers_timely_def)
  define d where "d = (set_ready i OPEN c)\<lparr>reconnectAttempts := 0\<rparr>"
  have "timers_held d" using assms(1) by (simp add: d_def set_ready_def ws_inv_def timers_held_def)
  then have "intervals (stopHeartbeat d) = []" by (rule stopHeartbeat_intervals)
  moreover have "held_ok (sockets d) (inst d)"
    using assms held_ok_ready [of "sockets c" "inst c" OPEN i] by (simp add: d_def set_ready_def ws_inv_def)
  moreover have "timeouts d = []" "inst d = Some i" "ready (sockets d ! i) = OPEN"
    using i by (simp_all add: d_def set_ready_def)
  moreover have "ws_step c (SockOpen i) = startHeartbeat d" by (simp add: handleOpen_def d_def)
  ultimately show ?thesis
    by (simp add: ws_inv_def startHeartbeat_def Let_def js_add_def timers_held_def timers_timely_def)
qed

lemma ws_inv_schedule:
  assumes "intervals e = []" "timeouts e = []" "inst e = Some i" "held_ok (sockets e) (inst e)"
    "ready (sockets e ! i) = CLOSED"
  shows "ws_inv (scheduleReconnect e)"
  using assms by (simp add: scheduleReconnect_def ws_inv_def timers_held_def timers_timely_def js_add_def
      split: option.split)

lemma ws_inv_sockClose:
  assumes "ws_inv c" and "possible c (SockClose i code)"
  shows "ws_inv (ws_step c (SockClose i code))"
proof -
  define c' where "c' = set_ready i CLOSED c"
  have held: "held_ok (sockets c') (inst c')" and th: "timers_held c'"
    using assms(1) held_ok_ready [of "sockets c" "inst c" CLOSED i]
    by (simp_all add: c'_def set_ready_def ws_inv_def timers_held_def)
  show ?thesis
  proof (cases "live (sockets c ! i)")
    case True
    then have i: "inst c = Some i" "timeouts c = []" "i < length (sockets c)"
      using assms held_ok_current(1) [of "sockets c" "inst c" i]
      by (auto simp: ws_inv_def timers_timely_def)
    define d where "d = stopHeartbeat c'"
    have d: "intervals d = []" "timeouts d = []" "inst d = Some i" "held_ok (sockets d) (inst d)"
      "ready (sockets d ! i) = CLOSED"
      using i held th by (simp_all add: d_def stopHeartbeat_intervals c'_def set_ready_def)
    have "intervals (cleanup (d\<lparr>shouldReconnect := False\<rparr>)) = []"
      "timeouts (cleanup (d\<lparr>shouldReconnect := False\<rparr>)) = []"
      using cleanup_timers [of "d\<lparr>shouldReconnect := False\<rparr>"] d(1,2) by (simp_all add: timers_held_def)
    then have "ws_inv ((cleanup (d\<lparr>shouldReconnect := False\<rparr>))\<lparr>expired := Suc (expired d)\<rparr>)"
      using d(4) by (simp add: ws_inv_def timers_held_def timers_timely_def)
    moreover have "ws_inv (scheduleReconnect d)" "ws_inv (scheduleReconnect (d\<lparr>refreshes := n\<rparr>))" for n
      using d by (auto intro!: ws_inv_schedule [where i = i])
    ultimately show ?thesis
      using True by (simp add: handleClose_def Let_def c'_def [symmetric] d_def [symmetric])
  next
    case False
    have "timers_timely c'" using assms False
      by (auto simp: ws_inv_def timers_timely_def c'_def set_ready_def nth_list_update held_ok_def split: if_splits)
    with False held th show ?thesis by (simp add: ws_inv_def c'_def [symmetric])
  qed
qed

lemma ws_inv_same:
  "ws_inv c \<Longrightarrow> ws_inv (fst (ws_send d c))" "ws_inv c \<Longrightarrow> ws_inv (setViewOnly b c)"
  "ws_inv c \<Longrightarrow> ws_inv (ws_on ty h c)" "ws_inv c \<Longrightarrow> ws_inv (ws_off ty k c)"
  "ws_inv c \<Longrightarrow> ws_inv (handleMessage m c)"
  by (auto simp: ws_inv_def timers_held_def timers_timely_def ws_send_def
      setViewOnly_def ws_on_def ws_off_def handleMessage_def Let_def split: option.splits)

lemma ws_inv_step:
  assumes "ws_inv c" and "tame c e"
  shows "ws_inv (ws_step c e)"
proof (cases e)
  case Connect
  with assms show ?thesis
    by (simp add: connect_def) (rule ws_inv_createConnection; simp add: ws_inv_def timers_held_def)
next
  case Close
  with assms ws_inv_close show ?thesis by simp
next
  case (SockClosing i)
  with assms show ?thesis
    using held_ok_ready [of "sockets c" "inst c" CLOSING i]
      held_ok_current(2) [of "sockets c" "inst c" i]
    by (auto simp: ws_inv_def set_ready_def timers_held_def timers_timely_def nth_list_update)
next
  case (ReconnectFires t)
  with assms show ?thesis
    by simp (rule ws_inv_createConnection; auto simp: ws_inv_def timers_held_def)
next
  case (SockOpen i)
  with assms ws_inv_sockOpen [of c i] show ?thesis by simp
next
  case (SockClose i code)
  with assms ws_inv_sockClose [of c i code] show ?thesis by simp
qed (use assms in \<open>simp_all add: ws_inv_same\<close>)

lemma ws_inv_new: "ws_inv (new_client limit)"
  by (simp add: ws_inv_def new_client_def timers_held_def held_ok_def timers_timely_def)

interpretation connection: guarded_machine "new_client limit" tame ws_step ws_inv for limit
  by unfold_locales (auto intro: ws_inv_new ws_inv_step)

section \<open>Properties\<close>

text \<open>
  C32: In a run in which every call of close finds the current socket not in its closing handshake
  (what happens otherwise is \<open>stale_close_disturbs_new_connection\<close>), the
  browser keeps no timer the client has lost track of, a socket that is connecting or open is
  the current one, and a pending reconnect means that the current socket is closed and that
  reconnecting is wanted.
\<close>

theorem connection_invariant:
  fixes es :: "ws_event list"
  assumes "run_allowed tame ws_step (new_client limit) es"
  defines "c \<equiv> foldl ws_step (new_client limit) es"
  shows "set (intervals c) \<subseteq> set_option (heartbeatTimer c) \<and>
    set (timeouts c) \<subseteq> set_option (reconnectTimer c) \<and>
    (\<forall>j < length (sockets c). ready (sockets c ! j) \<in> {CONNECTING, OPEN} \<longrightarrow> inst c = Some j) \<and>
    (timeouts c \<noteq> [] \<longrightarrow> shouldReconnect c \<and> \<not> isConnected c) \<and>
    (intervals c \<noteq> [] \<longrightarrow> timeouts c = [])"
proof -
  have inv: "ws_inv c" unfolding c_def by (rule connection.inv_run [OF assms(1)])
  have "j < length (sockets c) \<Longrightarrow> ready (sockets c ! j) \<in> {CONNECTING, OPEN} \<Longrightarrow> inst c = Some j" for j
    using inv held_ok_current(2) [of "sockets c" "inst c" j] by (auto simp: ws_inv_def)
  with inv show ?thesis
    by (auto simp: ws_inv_def timers_held_def timers_timely_def isConnected_def)
qed

theorem connection_invariant_witness:
  "set (timeouts (foldl ws_step (new_client None) [Connect, SockOpen 0, SockClose 0 1006])) \<subseteq>
    set_option (reconnectTimer (foldl ws_step (new_client None) [Connect, SockOpen 0, SockClose 0 1006]))"
  using connection_invariant [of None "[Connect, SockOpen 0, SockClose 0 1006]"]
  by (simp add: new_client_def connect_def createConnection_def cleanup_def stopHeartbeat_def
      handleOpen_def startHeartbeat_def set_ready_def Let_def js_add_def)

lemma ws_send_out:
  "\<exists>added. out (fst (ws_send d c)) = out c @ added \<and> (\<forall>(i, x) \<in> set added.
    x = d \<and> inst c = Some i \<and> isConnected c \<and> (viewOnly c \<longrightarrow> \<not> isInputReport x))"
  by (auto simp: ws_send_def split: option.split)

lemma out_unchanged:
  "out (startHeartbeat c) = out c" "out (scheduleReconnect c) = out c" "out (createConnection c) = out c"
  "out (handleClose n c) = out c" "out (ws_close c) = out c"
  by (auto simp: startHeartbeat_def scheduleReconnect_def createConnection_def handleClose_def ws_close_def
      abandon_socket_def Let_def split: option.split)

text \<open>
  C7: Whatever happens, bytes only go out on the current socket while it is open, and while the
  console is view-only none of them is a keyboard or mouse report.
\<close>

theorem view_only_gate:
  "\<exists>added. out (ws_step c e) = out c @ added \<and> (\<forall>(i, x) \<in> set added.
    inst c = Some i \<and> isConnected c \<and> (viewOnly c \<longrightarrow> \<not> isInputReport x))"
proof -
  have "out (ws_step c e) = out c \<or> (\<exists>d. ws_step c e = fst (ws_send d c))"
    by (cases e) (auto simp: connect_def out_unchanged setViewOnly_def ws_on_def ws_off_def handleOpen_def
        set_ready_def handleMessage_def Let_def split: option.split)
  then show ?thesis
  proof
    assume "out (ws_step c e) = out c"
    then show ?thesis by (intro exI [of _ "[]"]) simp
  next
    assume "\<exists>d. ws_step c e = fst (ws_send d c)"
    then obtain d where "ws_step c e = fst (ws_send d c)" ..
    with ws_send_out [of d c] show ?thesis by fastforce
  qed
qed

theorem view_only_gate_witness:
  "list_all (\<lambda>(i, x). \<not> isInputReport x)
    (out (ws_step (foldl ws_step (new_client None) [Connect, SockOpen 0, ViewOnly True])
      (Send (Bytes [1, 0]))))"
proof -
  let ?c = "foldl ws_step (new_client None) [Connect, SockOpen 0, ViewOnly True]"
  have "out ?c = []" "viewOnly ?c" by code_simp+
  with view_only_gate [of ?c "Send (Bytes [1, 0])"] show ?thesis
    by (auto simp: list_all_iff simp del: ws_step.simps)
qed

lemma ws_close_fields:
  "shouldReconnect (ws_close c) = False" "length (sockets (ws_close c)) = length (sockets c)"
  "timeouts (ws_close c) = timeouts (cleanup (c\<lparr>shouldReconnect := False\<rparr>))"
  by (simp_all add: ws_close_def Let_def abandon_socket_def split: option.split)

lemma no_reconnect_step:
  assumes "\<not> shouldReconnect c" "timeouts c = []" "possible c e" "e \<noteq> Connect"
  shows "\<not> shouldReconnect (ws_step c e) \<and> timeouts (ws_step c e) = [] \<and>
    length (sockets (ws_step c e)) = length (sockets c)"
proof -
  have "timeouts (cleanup d) = []" if "timeouts d = []" for d
    using that by (simp add: cleanup_def Let_def js_delete_def split: option.split)
  with assms show ?thesis
    by (cases e) (auto simp: ws_close_def ws_send_def setViewOnly_def ws_on_def ws_off_def handleOpen_def
        startHeartbeat_def set_ready_def handleMessage_def handleClose_def scheduleReconnect_def
        abandon_socket_def Let_def split: option.split)
qed

lemma no_reconnect_run:
  "\<not> shouldReconnect c \<Longrightarrow> timeouts c = [] \<Longrightarrow> run_allowed possible ws_step c es \<Longrightarrow> Connect \<notin> set es \<Longrightarrow>
    length (sockets (foldl ws_step c es)) = length (sockets c)"
proof (induction es arbitrary: c)
  case (Cons e es)
  from Cons.prems no_reconnect_step [of c e] Cons.IH [of "ws_step c e"] show ?case by auto
qed simp

text \<open>
  C33: After a run in which no close was called during a closing handshake, once close is called, or
  the server ends the login by closing the current socket with code 4401, no new socket is created
  until the page calls connect again, whatever sockets and timers still deliver. (A run with a close
  during a closing handshake may lose track of a timer that close then does not cancel:
  \<open>stale_close_outlives_close\<close>.)
\<close>

theorem no_reconnect_after_close:
  assumes "run_allowed tame ws_step (new_client limit) es" and c: "c = foldl ws_step (new_client limit) es"
    and "c' = ws_step c Close \<or> (\<exists>i. inst c = Some i \<and> c' = ws_step c (SockClose i 4401))"
    and "run_allowed possible ws_step c' es'" and "Connect \<notin> set es'"
  shows "length (sockets (foldl ws_step c' es')) = length (sockets c)"
proof -
  have inv: "ws_inv c" unfolding c by (rule connection.inv_run [OF assms(1)])
  then have held: "timers_held c" and live: "inst c = Some i \<Longrightarrow> live (sockets c ! i)" for i
    by (simp_all add: ws_inv_def held_ok_def)
  have "timers_held (stopHeartbeat (set_ready i CLOSED c))" for i
    using held stopHeartbeat_intervals [of "set_ready i CLOSED c"]
    by (simp add: timers_held_def set_ready_def)
  then have "timeouts (cleanup ((stopHeartbeat (set_ready i CLOSED c))\<lparr>shouldReconnect := False\<rparr>)) = []"
    "timeouts (cleanup (c\<lparr>shouldReconnect := False\<rparr>)) = []" for i
    using cleanup_timers held by (simp_all add: timers_held_def)
  then have "\<not> shouldReconnect c' \<and> timeouts c' = [] \<and> length (sockets c') = length (sockets c)"
    using assms(3) live by (auto simp: ws_close_fields handleClose_def set_ready_def Let_def)
  with no_reconnect_run [of c' es'] assms(4,5) show ?thesis by simp
qed

theorem no_reconnect_after_close_witness:
  "length (sockets (foldl ws_step (ws_step (foldl ws_step (new_client None) [Connect, SockOpen 0]) (SockClose 0 4401))
      [Send (Bytes [0])])) = 1"
proof -
  let ?c = "foldl ws_step (new_client None) [Connect, SockOpen 0]"
  have "run_allowed tame ws_step (new_client None) [Connect, SockOpen 0]"
    by (simp add: new_client_def connect_def createConnection_def cleanup_def stopHeartbeat_def Let_def)
  moreover have "inst ?c = Some 0" "length (sockets ?c) = 1" by code_simp+
  ultimately show ?thesis
    using no_reconnect_after_close [of None "[Connect, SockOpen 0]" ?c "ws_step ?c (SockClose 0 4401)" "[Send (Bytes [0])]"]
    by (simp del: ws_step.simps)
qed

text \<open>
  A close called while the current socket is in its closing handshake leaves the socket's
  handler in place: when connect is called before the socket is gone, its late close stops the
  heartbeat of the new connection and schedules a reconnect although the new connection is open.
\<close>

theorem stale_close_disturbs_new_connection:
  "let c = foldl ws_step (new_client None)
     [Connect, SockOpen 0, SockClosing 0, Close, Connect, SockOpen 1, SockClose 0 1001]
   in isConnected c \<and> heartbeatTimer c = None \<and> intervals c = [] \<and> timeouts c \<noteq> []"
  by code_simp

lemma stale_close_outlives_close:
  "let c = foldl ws_step (new_client None)
     [Connect, SockOpen 0, SockClosing 0, Close, Connect, SockOpen 1, SockClose 0 1001, SockClose 1 1006, Close]
   in possible c (ReconnectFires 3) \<and> length (sockets (ws_step c (ReconnectFires 3))) = Suc (length (sockets c))"
  by code_simp

end
