(* ===== verification/Usb_Wire.thy ===== *)
theory Usb_Wire
  imports Prelude
begin

text \<open>
  The frames of the USB relay, \<^verbatim>\<open>web/src/pages/desktop/menu/devices/webusb-wire.ts\<close>: a 32-byte
  header with big-endian fields and a payload of at most 64 KiB, and the choice of the
  interfaces of a configuration descriptor that may be forwarded.
\<close>

section \<open>Frames\<close>

definition webUSBHeaderBytes :: nat where "webUSBHeaderBytes = 32"
definition webUSBMaxPayload :: nat where "webUSBMaxPayload = 65536"

record wire_packet =
  p_type :: byte
  p_status :: byte
  p_id :: "32 word"
  p_endpoint :: byte
  p_requestType :: byte
  p_request :: byte
  p_transfer :: byte
  p_value :: "16 word"
  p_index :: "16 word"
  declaredLength :: "32 word"
  timeoutMS :: "32 word"
  payload :: "byte list"

datatype wire_error =
  ShortFrame | InvalidFrame | InvalidFrameLength | FrameTooLarge
| MalformedDescriptor nat | AlternateSettings byte

definition decodeWebUSBFrame :: "byte list \<Rightarrow> wire_error + wire_packet" where
  "decodeWebUSBFrame buffer =
    (if length buffer < webUSBHeaderBytes then Inl ShortFrame
     else if take 4 buffer \<noteq> [0x4e, 0x4b, 0x55, 0x46] \<or> buffer ! 4 \<noteq> 1 then Inl InvalidFrame
     else
       let len = unat (get_u32 buffer 24)
       in if len > webUSBMaxPayload \<or> webUSBHeaderBytes + len \<noteq> length buffer
          then Inl InvalidFrameLength
          else Inr \<lparr>p_type = buffer ! 5, p_status = buffer ! 6, p_id = get_u32 buffer 8,
            p_endpoint = buffer ! 12, p_requestType = buffer ! 13, p_request = buffer ! 14,
            p_transfer = buffer ! 15, p_value = get_u16 buffer 16, p_index = get_u16 buffer 18,
            declaredLength = get_u32 buffer 20, timeoutMS = get_u32 buffer 28,
            payload = drop webUSBHeaderBytes buffer\<rparr>)"

text \<open>The writes of \<^verbatim>\<open>encodeWebUSBFrame\<close>, in its order, as offsets and bytes.\<close>

definition frame_fields :: "wire_packet \<Rightarrow> (nat \<times> byte list) list" where
  "frame_fields p =
    [(0, [0x4e, 0x4b, 0x55, 0x46, 1, p_type p, p_status p, 0]),
     (8, be_bytes 4 (unat (p_id p))),
     (12, [p_endpoint p]), (13, [p_requestType p]), (14, [p_request p]), (15, [p_transfer p]),
     (16, be_bytes 2 (unat (p_value p))), (18, be_bytes 2 (unat (p_index p))),
     (20, be_bytes 4 (unat (declaredLength p))),
     (24, be_bytes 4 (length (payload p))), (28, be_bytes 4 (unat (timeoutMS p))),
     (webUSBHeaderBytes, payload p)]"

definition encodeWebUSBFrame :: "wire_packet \<Rightarrow> wire_error + byte list" where
  "encodeWebUSBFrame p =
    (if length (payload p) > webUSBMaxPayload \<or> unat (declaredLength p) > webUSBMaxPayload
     then Inl FrameTooLarge
     else Inr (build_frame (webUSBHeaderBytes + length (payload p)) (frame_fields p)))"

section \<open>Configuration descriptors\<close>

definition protectedClasses :: "byte list" where
  "protectedClasses = [0x01, 0x03, 0x08, 0x09, 0x0b, 0x0d, 0x0e, 0x10, 0xe0]"

definition supportedClasses :: "byte list" where
  "supportedClasses = [0x02, 0x07, 0x0a, 0xff]"

text \<open>The descriptors \<^verbatim>\<open>walk\<close> hands to its callback, in order.\<close>

function walk :: "byte list \<Rightarrow> nat \<Rightarrow> wire_error + byte list list" where
  "walk config offset =
    (if offset < length config then
       let len = unat (config ! offset)
       in if len < 2 \<or> offset + len > length config then Inl (MalformedDescriptor offset)
          else (case walk config (offset + len) of
                  Inl e \<Rightarrow> Inl e
                | Inr items \<Rightarrow> Inr (take len (drop offset config) # items))
     else Inr [])"
  by pat_completeness auto

termination
  by (relation "measure (\<lambda>(config, offset). length config - offset)") auto

declare walk.simps [simp del]

definition classify_item :: "byte list \<Rightarrow> byte list \<times> byte list \<Rightarrow> byte list \<times> byte list" where
  "classify_item item st =
    (let (selected, alternates) = st
     in if length item < 9 \<or> item ! 1 \<noteq> 4 then (selected, alternates)
        else if item ! 3 \<noteq> 0 then (selected, js_add (item ! 2) alternates)
        else if item ! 5 \<notin> set protectedClasses \<and> item ! 5 \<in> set supportedClasses
        then (js_add (item ! 2) selected, alternates)
        else (selected, alternates))"

definition classifyWebUSBConfiguration :: "byte list \<Rightarrow> wire_error + byte list" where
  "classifyWebUSBConfiguration config =
    (case walk config 0 of
       Inl e \<Rightarrow> Inl e
     | Inr items \<Rightarrow>
         let (selected, alternates) = fold classify_item items ([], [])
         in case filter (\<lambda>n. n \<in> set alternates) selected of
              n # _ \<Rightarrow> Inl (AlternateSettings n)
            | [] \<Rightarrow> Inr (sort selected))"

section \<open>Reading back what was written\<close>

lemma fields_layout: "layout_ok (32 + length (payload p)) (frame_fields p)"
  by (simp add: layout_ok_def frame_fields_def webUSBHeaderBytes_def)

definition frame_bytes :: "wire_packet \<Rightarrow> byte list" where
  "frame_bytes p = build_frame (32 + length (payload p)) (frame_fields p)"

lemmas frame_read = build_read [OF fields_layout, folded frame_bytes_def]
lemmas frame_nth = build_nth [OF fields_layout, folded frame_bytes_def]
lemmas get_frame = get_build [OF fields_layout, folded frame_bytes_def]

lemma length_frame_bytes: "length (frame_bytes p) = 32 + length (payload p)"
  unfolding frame_bytes_def by (rule length_build_frame [OF fields_layout])

definition wf_packet :: "wire_packet \<Rightarrow> bool" where
  "wf_packet p \<longleftrightarrow>
    length (payload p) \<le> webUSBMaxPayload \<and> unat (declaredLength p) \<le> webUSBMaxPayload"

lemma decode_frame_bytes:
  assumes "wf_packet p"
  shows "decodeWebUSBFrame (frame_bytes p) = Inr p"
proof -
  let ?magic = "[0x4e, 0x4b, 0x55, 0x46, 1, p_type p, p_status p, 0]"
  have magic: "(0, ?magic) \<in> set (frame_fields p)" by (simp add: frame_fields_def)
  have "take 8 (frame_bytes p) = ?magic"
    using frame_read [OF magic] by (simp add: buf_read_def numeral_eq_Suc)
  then have "take 4 (take 8 (frame_bytes p)) = [0x4e, 0x4b, 0x55, 0x46]" by simp
  then have "take 4 (frame_bytes p) = [0x4e, 0x4b, 0x55, 0x46]" by simp
  moreover have "frame_bytes p ! 4 = 1" "frame_bytes p ! 5 = p_type p" "frame_bytes p ! 6 = p_status p"
    using frame_nth [OF magic, of 4] frame_nth [OF magic, of 5] frame_nth [OF magic, of 6] by simp_all
  moreover have "frame_bytes p ! 12 = p_endpoint p" "frame_bytes p ! 13 = p_requestType p"
    "frame_bytes p ! 14 = p_request p" "frame_bytes p ! 15 = p_transfer p"
    using frame_nth [of 12 "[p_endpoint p]" p 0] frame_nth [of 13 "[p_requestType p]" p 0]
      frame_nth [of 14 "[p_request p]" p 0] frame_nth [of 15 "[p_transfer p]" p 0]
    by (simp_all add: frame_fields_def)
  moreover have "get_u32 (frame_bytes p) 8 = p_id p" "get_u16 (frame_bytes p) 16 = p_value p"
    "get_u16 (frame_bytes p) 18 = p_index p" "get_u32 (frame_bytes p) 20 = declaredLength p"
    "get_u32 (frame_bytes p) 24 = of_nat (length (payload p))" "get_u32 (frame_bytes p) 28 = timeoutMS p"
    using get_frame(1) [of 8 "unat (p_id p)" p] get_frame(2) [of 16 "unat (p_value p)" p]
      get_frame(2) [of 18 "unat (p_index p)" p] get_frame(1) [of 20 "unat (declaredLength p)" p]
      get_frame(1) [of 24 "length (payload p)" p] get_frame(1) [of 28 "unat (timeoutMS p)" p]
    by (simp_all add: frame_fields_def)
  moreover have "unat (of_nat (length (payload p)) :: 32 word) = length (payload p)"
    using assms by (simp add: wf_packet_def webUSBMaxPayload_def unat_of_nat)
  moreover have "drop 32 (frame_bytes p) = payload p"
    using frame_read [of 32 "payload p" p]
    by (simp add: frame_fields_def webUSBHeaderBytes_def buf_read_def length_frame_bytes)
  ultimately show ?thesis
    using assms
    by (simp add: decodeWebUSBFrame_def length_frame_bytes webUSBHeaderBytes_def Let_def wf_packet_def)
qed

lemma encode_frame_bytes: "wf_packet p \<Longrightarrow> encodeWebUSBFrame p = Inr (frame_bytes p)"
  by (simp add: encodeWebUSBFrame_def frame_bytes_def wf_packet_def webUSBHeaderBytes_def)

interpretation usb_codec: frame_codec encodeWebUSBFrame decodeWebUSBFrame wf_packet
  by unfold_locales (auto simp: encode_frame_bytes decode_frame_bytes)

section \<open>Properties\<close>

text \<open>
  C36: Every USB frame whose payload and declared length are at most 64 KiB is encoded, and decoding
  gives the packet back; distinct packets have distinct frames, and any other packet is refused.
\<close>

theorem usb_frame_round_trip:
  assumes "wf_packet p"
  shows "\<exists>bs. encodeWebUSBFrame p = Inr bs \<and> decodeWebUSBFrame bs = Inr p \<and>
    (\<forall>q. wf_packet q \<longrightarrow> encodeWebUSBFrame q = Inr bs \<longrightarrow> q = p)"
proof -
  from usb_codec.round_trip [OF assms] obtain bs
    where bs: "encodeWebUSBFrame p = Inr bs" "decodeWebUSBFrame bs = Inr p" by blast
  with usb_codec.enc_inj [OF _ assms] show ?thesis by auto
qed

definition sample_packet :: wire_packet where
  "sample_packet =
    \<lparr>p_type = 1, p_status = 0, p_id = 7, p_endpoint = 0, p_requestType = 0x80, p_request = 6,
     p_transfer = 0, p_value = 0x0100, p_index = 0, declaredLength = 18, timeoutMS = 1000,
     payload = [1, 2, 3]\<rparr>"

theorem usb_frame_round_trip_witness:
  "\<exists>bs. encodeWebUSBFrame sample_packet = Inr bs \<and> decodeWebUSBFrame bs = Inr sample_packet"
  using usb_frame_round_trip [of sample_packet]
  by (auto simp: wf_packet_def sample_packet_def webUSBMaxPayload_def)

lemma walk_covers: "walk config offset = Inr items \<Longrightarrow> offset \<le> length config \<Longrightarrow> concat items = drop offset config"
proof (induction config offset arbitrary: items rule: walk.induct)
  case (1 config offset)
  show ?case
  proof (cases "offset < length config")
    case False
    with 1 show ?thesis by (auto simp: walk.simps [of config offset])
  next
    case True
    let ?len = "unat (config ! offset)"
    from True 1(2) have ok: "\<not> (?len < 2 \<or> length config < offset + ?len)"
      by (auto simp: walk.simps [of config offset] Let_def split: if_splits)
    with True 1(2) obtain rest where rest: "walk config (offset + ?len) = Inr rest"
      "items = take ?len (drop offset config) # rest"
      by (auto simp: walk.simps [of config offset] Let_def split: sum.splits)
    from 1(1) [OF True refl ok rest(1)] ok have "concat rest = drop (offset + ?len) config" by simp
    with rest(2) show ?thesis
      by simp (metis append_take_drop_id drop_drop add.commute)
  qed
qed

definition forwardable :: "byte list \<Rightarrow> bool" where
  "forwardable item \<longleftrightarrow> length item \<ge> 9 \<and> item ! 1 = 4 \<and> item ! 3 = 0 \<and>
    item ! 5 \<notin> set protectedClasses \<and> item ! 5 \<in> set supportedClasses"

definition alternate :: "byte list \<Rightarrow> bool" where
  "alternate item \<longleftrightarrow> length item \<ge> 9 \<and> item ! 1 = 4 \<and> item ! 3 \<noteq> 0"

lemma classify_fold:
  "set (fst (fold classify_item items st)) =
     set (fst st) \<union> (\<lambda>i. i ! 2) ` {i \<in> set items. forwardable i}"
  "set (snd (fold classify_item items st)) =
     set (snd st) \<union> (\<lambda>i. i ! 2) ` {i \<in> set items. alternate i}"
  "distinct (fst st) \<Longrightarrow> distinct (fst (fold classify_item items st))"
  by (induction items arbitrary: st)
    (auto simp: classify_item_def forwardable_def alternate_def Let_def split_beta)

text \<open>
  The interfaces chosen for forwarding are, in ascending order and without repetition, exactly
  those whose setting 0 has a supported class and no protected one; every byte of the
  configuration was read, and none of the chosen interfaces has an alternate setting.
\<close>

theorem classify_selects_supported:
  assumes "classifyWebUSBConfiguration config = Inr numbers"
  shows "\<exists>items. walk config 0 = Inr items \<and> concat items = config \<and>
    sorted numbers \<and> distinct numbers \<and>
    set numbers = (\<lambda>i. i ! 2) ` {i \<in> set items. forwardable i} \<and>
    set numbers \<inter> (\<lambda>i. i ! 2) ` {i \<in> set items. alternate i} = {}"
proof -
  from assms obtain items where items: "walk config 0 = Inr items"
    by (auto simp: classifyWebUSBConfiguration_def split: sum.splits)
  obtain sel alt where st: "fold classify_item items ([], []) = (sel, alt)" by (cases "fold classify_item items ([], [])")
  have sel: "set sel = (\<lambda>i. i ! 2) ` {i \<in> set items. forwardable i}"
    "set alt = (\<lambda>i. i ! 2) ` {i \<in> set items. alternate i}" "distinct sel"
    using classify_fold [where items = items and st = "([], [])"] st by auto
  have "filter (\<lambda>n. n \<in> set alt) sel = []" "numbers = sort sel"
    using assms items st by (auto simp: classifyWebUSBConfiguration_def split: list.splits)
  then show ?thesis
    using items sel walk_covers [OF items] by (auto simp: filter_empty_conv)
qed

theorem classify_selects_supported_witness:
  "sorted [3 :: byte] \<and> classifyWebUSBConfiguration [9, 4, 3, 0, 0, 0xff, 0, 0, 0] = Inr [3]"
proof -
  have "classifyWebUSBConfiguration [9, 4, 3, 0, 0, 0xff, 0, 0, 0] = Inr [3]"
    by (simp add: classifyWebUSBConfiguration_def walk.simps Let_def classify_item_def
        protectedClasses_def supportedClasses_def js_add_def)
  with classify_selects_supported [OF this] show ?thesis by blast
qed

end
