(* ===== verification/Usb_Relay.thy ===== *)
theory Usb_Relay
  imports Usb_Wire
begin

text \<open>
  The relay that lets the host use a USB device of the browser,
  \<^verbatim>\<open>web/src/pages/desktop/menu/devices/webusb.ts\<close>. WebUSB is the browser's: a call of the device is
  a value of type \<open>device_call\<close> that the relay starts, and its outcome an event that comes later,
  so requests interleave as promises do. Between a call and its outcome only other requests,
  cancellations, closing and unplugging happen.
\<close>

section \<open>Types\<close>

datatype request_kind = standard | class_req | vendor
datatype recipient = to_device | to_interface | to_endpoint | to_other

record usb_setup =
  s_requestType :: request_kind
  s_recipient :: recipient
  s_request :: byte
  s_value :: "16 word"
  s_index :: "16 word"

datatype transfer_status = ok | stall | babble

record usb_endpoint =
  endpointNumber :: nat
  direction_in :: bool
  isochronous :: bool

record usb_alternate =
  alternateSetting :: nat
  alt_endpoints :: "usb_endpoint list"

record usb_interface =
  interfaceNumber :: byte
  alternates :: "usb_alternate list"

text \<open>The device as the browser presents it, with what its promises will do.\<close>

record usb_device =
  opened :: bool
  current :: "byte option"  \<comment> \<open>\<^verbatim>\<open>configuration?.configurationValue\<close>\<close>
  configs :: "(byte \<times> usb_interface list) list"
  open_ok :: bool
  select_ok :: bool
  claim_ok :: "byte \<Rightarrow> bool"

datatype device_call =
  ControlTransferIn usb_setup nat
| ControlTransferOut usb_setup "byte list"
| TransferIn nat nat
| TransferOut nat "byte list"
| ClearHalt bool nat
| ResetDevice

datatype call_result =
  InResult transfer_status "byte list option"
| OutResult transfer_status
| Resolved usb_device
| Rejected bool  \<comment> \<open>whether it is a \<^verbatim>\<open>NetworkError\<close>\<close>

datatype relay_error = NetworkError | OtherError

record relay =
  configuration :: byte
  interfaces :: "byte list"
  endpoints :: "(byte \<times> usb_endpoint) list"
  pending :: "(32 word \<times> wire_packet) list"
  canceled :: "32 word list"
  closed :: bool

definition new_relay :: "byte \<Rightarrow> byte list \<Rightarrow> relay" where
  "new_relay cfg ifs =
    \<lparr>configuration = cfg, interfaces = ifs, endpoints = [], pending = [], canceled = [], closed = False\<rparr>"

section \<open>Preparing the device\<close>

definition endpoint_address :: "usb_endpoint \<Rightarrow> byte" where
  "endpoint_address e = of_nat (endpointNumber e) OR (if direction_in e then 0x80 else 0)"

fun prepare_endpoints :: "usb_endpoint list \<Rightarrow> relay \<Rightarrow> relay \<times> bool" where
  "prepare_endpoints [] r = (r, True)"
| "prepare_endpoints (e # es) r =
     (if isochronous e then (r, False)
      else prepare_endpoints es (r\<lparr>endpoints := AList.update (endpoint_address e) e (endpoints r)\<rparr>))"

fun prepare_interfaces :: "(byte \<Rightarrow> bool) \<Rightarrow> usb_interface list \<Rightarrow> relay \<Rightarrow> relay \<times> bool" where
  "prepare_interfaces claim [] r = (r, True)"
| "prepare_interfaces claim (i # is) r =
     (if interfaceNumber i \<notin> set (interfaces r) then prepare_interfaces claim is r
      else case filter (\<lambda>a. alternateSetting a = 0) (alternates i) of
        [] \<Rightarrow> (r, False)
      | a # _ \<Rightarrow>
          if \<not> claim (interfaceNumber i) then (r, False)
          else
            let (r, good) = prepare_endpoints (alt_endpoints a) r
            in if good then prepare_interfaces claim is r else (r, False))"

text \<open>The flag tells whether \<^verbatim>\<open>prepare\<close> returned; it throws otherwise.\<close>

definition prepare :: "usb_device \<Rightarrow> relay \<Rightarrow> relay \<times> bool" where
  "prepare d r =
    (if \<not> opened d \<and> \<not> open_ok d then (r, False)
     else if current d \<noteq> Some (configuration r) \<and> \<not> select_ok d then (r, False)
     else
       prepare_interfaces (claim_ok d)
         (case map_of (configs d) (configuration r) of Some is \<Rightarrow> is | None \<Rightarrow> []) r)"

section \<open>Requests\<close>

definition controlSetup :: "wire_packet \<Rightarrow> usb_setup option" where
  "controlSetup p =
    (let requestType = unat (drop_bit 5 (p_requestType p) AND 3);
         recipient = unat (p_requestType p AND 0x1f)
     in if requestType > 2 \<or> recipient > 3 then None
        else Some \<lparr>s_requestType = [standard, class_req, vendor] ! requestType,
                   s_recipient = [to_device, to_interface, to_endpoint, to_other] ! recipient,
                   s_request = p_request p, s_value = p_value p, s_index = p_index p\<rparr>)"

definition low_byte :: "16 word \<Rightarrow> byte" where
  "low_byte w = ucast (w AND 0xff)"

definition validateControl :: "relay \<Rightarrow> wire_packet \<Rightarrow> usb_setup \<Rightarrow> bool" where
  "validateControl r p s \<longleftrightarrow>
    \<not> (s_requestType s = standard \<and> p_requestType p AND 0x80 = 0) \<and>
    \<not> (s_requestType s = standard \<and> p_request p \<notin> {0, 6, 8, 10, 12}) \<and>
    \<not> (s_requestType s \<noteq> standard \<and> s_recipient s = to_device) \<and>
    \<not> (s_recipient s = to_interface \<and> low_byte (p_index p) \<notin> set (interfaces r)) \<and>
    \<not> (s_recipient s = to_endpoint \<and> map_of (endpoints r) (low_byte (p_index p)) = None) \<and>
    s_recipient s \<noteq> to_other"

text \<open>\<^verbatim>\<open>execute\<close> up to its call of the device; \<open>None\<close> is a throw before any call.\<close>

definition execute_call :: "relay \<Rightarrow> wire_packet \<Rightarrow> device_call option" where
  "execute_call r p =
    (if unat (declaredLength p) > webUSBMaxPayload then None
     else if p_type p = 1 then
       (case controlSetup p of
          None \<Rightarrow> None
        | Some s \<Rightarrow>
            if \<not> validateControl r p s then None
            else if p_requestType p AND 0x80 \<noteq> 0
            then Some (ControlTransferIn s (unat (declaredLength p)))
            else Some (ControlTransferOut s (payload p)))
     else
       let e = map_of (endpoints r) (p_endpoint p)
       in if (p_type p = 2 \<or> p_type p = 3) \<and> e = None then None
          else if p_type p = 2
          then Some (TransferIn (endpointNumber (the e)) (unat (declaredLength p)))
          else if p_type p = 3 then Some (TransferOut (endpointNumber (the e)) (payload p))
          else if p_type p = 4 then
            (if e = None then None
             else Some (ClearHalt (p_endpoint p AND 0x80 \<noteq> 0) (unat (p_endpoint p AND 0x0f))))
          else if p_type p = 5 then Some ResetDevice
          else None)"

definition transferData :: "transfer_status \<Rightarrow> byte list option \<Rightarrow> nat \<Rightarrow> relay_error + byte list" where
  "transferData status data limit =
    (case data of
       None \<Rightarrow> Inl NetworkError
     | Some bs \<Rightarrow>
         if status \<noteq> ok then Inl NetworkError
         else if length bs > limit then Inl OtherError
         else Inr bs)"

text \<open>The rest of \<^verbatim>\<open>execute\<close>, once the call has settled.\<close>

definition execute_result :: "wire_packet \<Rightarrow> call_result \<Rightarrow> relay \<Rightarrow> relay \<times> (relay_error + byte list)" where
  "execute_result p res r =
    (case res of
       Rejected network \<Rightarrow> (r, Inl (if network then NetworkError else OtherError))
     | InResult status data \<Rightarrow> (r, transferData status data (unat (declaredLength p)))
     | OutResult status \<Rightarrow> (r, if status \<noteq> ok then Inl NetworkError else Inr [])
     | Resolved d \<Rightarrow>
         if p_type p = 5 then
           (if closed r then (r, Inl OtherError)
            else let (r, good) = prepare d r in (r, if good then Inr [] else Inl OtherError))
         else (r, Inr []))"

section \<open>The handler\<close>

datatype outcome = Throws | NoReply | Reply "byte list" | Started device_call

definition reply :: "wire_packet \<Rightarrow> byte \<Rightarrow> byte list \<Rightarrow> outcome" where
  "reply p status data =
    (case encodeWebUSBFrame
        (p\<lparr>p_type := p_type p OR 0x80, p_status := status, payload := data\<rparr>) of
       Inr bs \<Rightarrow> Reply bs
     | Inl _ \<Rightarrow> Throws)"

text \<open>The tail of \<^verbatim>\<open>handle\<close>: the result, unless canceled, and the request is no longer pending.\<close>

definition settle :: "wire_packet \<Rightarrow> relay_error + byte list \<Rightarrow> relay \<Rightarrow> relay \<times> outcome" where
  "settle p result r =
    (let was = p_id p \<in> set (canceled r);
         r = r\<lparr>canceled := js_delete (p_id p) (canceled r),
               pending := AList.delete (p_id p) (pending r)\<rparr>;
         failed = (\<lambda>e. reply p (if e = NetworkError then 1 else 5) [])
     in (r, if was then NoReply
            else case result of
              Inl e \<Rightarrow> failed e
            | Inr data \<Rightarrow> (case reply p 0 data of Throws \<Rightarrow> failed OtherError | out \<Rightarrow> out)))"

definition close_relay :: "relay \<Rightarrow> relay" where
  "close_relay r = r\<lparr>closed := True\<rparr>"

definition handle :: "byte list \<Rightarrow> relay \<Rightarrow> relay \<times> outcome" where
  "handle data r =
    (case decodeWebUSBFrame data of
       Inl _ \<Rightarrow> (r, Throws)
     | Inr p \<Rightarrow>
         if p_type p AND 0x80 \<noteq> 0 then (r, Throws)
         else if p_type p = 7 then (close_relay r, NoReply)
         else if p_id p = 0 then (r, Throws)
         else if p_type p = 6 then
           (if p_id p \<in> fst ` set (pending r)
            then r\<lparr>canceled := js_add (p_id p) (canceled r)\<rparr> else r, NoReply)
         else if closed r then (r, reply p 3 [])
         else if p_id p \<in> fst ` set (pending r) \<or> length (pending r) \<ge> 8 then (r, reply p 5 [])
         else
           let r = r\<lparr>pending := AList.update (p_id p) p (pending r)\<rparr>
           in case execute_call r p of
                None \<Rightarrow> settle p (Inl OtherError) r
              | Some call \<Rightarrow> (r, Started call))"

definition call_settles :: "32 word \<Rightarrow> call_result \<Rightarrow> relay \<Rightarrow> relay \<times> outcome" where
  "call_settles i res r =
    (case map_of (pending r) i of
       None \<Rightarrow> (r, NoReply)
     | Some p \<Rightarrow> let (r, result) = execute_result p res r in settle p result r)"

definition disconnected :: "relay \<Rightarrow> relay" where
  "disconnected r = r\<lparr>closed := True\<rparr>"

datatype relay_event = Request "byte list" | Settles "32 word" call_result | Unplugged | CloseCall

fun relay_step :: "relay \<Rightarrow> relay_event \<Rightarrow> relay" where
  "relay_step r (Request data) = fst (handle data r)"
| "relay_step r (Settles i res) = fst (call_settles i res r)"
| "relay_step r Unplugged = disconnected r"
| "relay_step r CloseCall = close_relay r"

section \<open>Invariant\<close>

text \<open>
  At most eight requests are under way, each under its own number and small enough to be answered;
  only such requests can be canceled; every endpoint the relay uses was prepared.
\<close>

definition endpoints_ok :: "relay \<Rightarrow> bool" where
  "endpoints_ok r \<longleftrightarrow> (\<forall>(a, e) \<in> set (endpoints r). \<not> isochronous e \<and> a = endpoint_address e)"

definition relay_inv :: "relay \<Rightarrow> bool" where
  "relay_inv r \<longleftrightarrow> length (pending r) \<le> 8 \<and> distinct (map fst (pending r)) \<and>
    (\<forall>(i, p) \<in> set (pending r). p_id p = i \<and> unat (declaredLength p) \<le> webUSBMaxPayload) \<and>
    set (canceled r) \<subseteq> fst ` set (pending r) \<and> endpoints_ok r"

lemma prepare_endpoints_fields [simp]:
  "pending (fst (prepare_endpoints es r)) = pending r"
  "canceled (fst (prepare_endpoints es r)) = canceled r"
  "closed (fst (prepare_endpoints es r)) = closed r"
  "interfaces (fst (prepare_endpoints es r)) = interfaces r"
  by (induction es arbitrary: r) simp_all

lemma prepare_interfaces_fields [simp]:
  "pending (fst (prepare_interfaces claim is r)) = pending r"
  "canceled (fst (prepare_interfaces claim is r)) = canceled r"
  "closed (fst (prepare_interfaces claim is r)) = closed r"
  "interfaces (fst (prepare_interfaces claim is r)) = interfaces r"
  by (induction "is" arbitrary: r) (simp_all add: split_beta Let_def split: list.split)

lemma prepare_fields [simp]:
  "pending (fst (prepare d r)) = pending r" "canceled (fst (prepare d r)) = canceled r"
  "closed (fst (prepare d r)) = closed r" "interfaces (fst (prepare d r)) = interfaces r"
  by (simp_all add: prepare_def)

lemma set_alist_update_sub: "set (AList.update k v m) \<subseteq> insert (k, v) (set m)"
  by (induction m) auto

lemma endpoints_ok_prepare_endpoints:
  "endpoints_ok r \<Longrightarrow> endpoints_ok (fst (prepare_endpoints es r))"
proof (induction es arbitrary: r)
  case (Cons e es)
  have "endpoints_ok (r\<lparr>endpoints := AList.update (endpoint_address e) e (endpoints r)\<rparr>)"
    if "\<not> isochronous e"
    using Cons.prems that set_alist_update_sub [of "endpoint_address e" e "endpoints r"]
    by (fastforce simp: endpoints_ok_def)
  with Cons show ?case by simp
qed simp

lemma endpoints_ok_prepare_interfaces:
  "endpoints_ok r \<Longrightarrow> endpoints_ok (fst (prepare_interfaces claim is r))"
  by (induction "is" arbitrary: r)
    (simp_all add: split_beta Let_def endpoints_ok_prepare_endpoints split: list.split)

lemma endpoints_ok_prepare: "endpoints_ok r \<Longrightarrow> endpoints_ok (fst (prepare d r))"
  by (simp add: prepare_def endpoints_ok_prepare_interfaces)

lemma relay_inv_settle: "relay_inv r \<Longrightarrow> relay_inv (fst (settle p result r))"
  by (auto simp: relay_inv_def settle_def Let_def endpoints_ok_def distinct_delete set_alist_delete
      intro: le_trans [OF length_alist_delete_le])

lemma relay_inv_execute_result: "relay_inv r \<Longrightarrow> relay_inv (fst (execute_result p res r))"
  by (auto simp: relay_inv_def execute_result_def split_beta Let_def endpoints_ok_prepare split: call_result.split)

lemma relay_inv_call_settles: "relay_inv r \<Longrightarrow> relay_inv (fst (call_settles i res r))"
  by (auto simp: call_settles_def split_beta Let_def relay_inv_settle relay_inv_execute_result split: option.split)

lemma execute_call_small: "execute_call r p = Some c \<Longrightarrow> unat (declaredLength p) \<le> webUSBMaxPayload"
  by (auto simp: execute_call_def split: if_splits)

lemma settle_fresh:
  assumes "relay_inv r" and "p_id p \<notin> fst ` set (pending r)"
  shows "fst (settle p result (r\<lparr>pending := AList.update (p_id p) p (pending r)\<rparr>)) = r"
proof -
  have "p_id p \<notin> set (canceled r)" using assms by (auto simp: relay_inv_def)
  then show ?thesis using assms(2) by (simp add: settle_def Let_def alist_delete_update_absent)
qed

lemma relay_inv_add:
  assumes "relay_inv r" and "p_id p \<notin> fst ` set (pending r)" and "length (pending r) < 8"
    and "unat (declaredLength p) \<le> webUSBMaxPayload"
  shows "relay_inv (r\<lparr>pending := AList.update (p_id p) p (pending r)\<rparr>)"
  using assms by (auto simp: relay_inv_def alist_update_absent endpoints_ok_def)

lemma relay_inv_handle: "relay_inv r \<Longrightarrow> relay_inv (fst (handle data r))"
proof (cases "decodeWebUSBFrame data")
  case (Inr p)
  assume inv: "relay_inv r"
  let ?r = "r\<lparr>pending := AList.update (p_id p) p (pending r)\<rparr>"
  have start: "relay_inv (fst (case execute_call ?r p of
      None \<Rightarrow> settle p (Inl OtherError) ?r | Some call \<Rightarrow> (?r, Started call)))"
    if "p_id p \<notin> fst ` set (pending r)" "length (pending r) < 8"
    using that inv settle_fresh [OF inv that(1)] relay_inv_add [OF inv that] execute_call_small [of ?r p]
    by (simp split: option.split)
  have "relay_inv (close_relay r)" "p_id p \<in> fst ` set (pending r) \<Longrightarrow>
      relay_inv (r\<lparr>canceled := js_add (p_id p) (canceled r)\<rparr>)"
    using inv by (auto simp: relay_inv_def close_relay_def endpoints_ok_def)
  with Inr inv start show ?thesis by (simp add: handle_def Let_def)
qed (simp add: handle_def)

lemma relay_inv_step: "relay_inv r \<Longrightarrow> relay_inv (relay_step r e)"
  by (cases e) (simp_all add: relay_inv_handle relay_inv_call_settles,
      simp_all add: relay_inv_def disconnected_def close_relay_def endpoints_ok_def)

lemma relay_inv_new: "relay_inv (new_relay cfg ifs)"
  by (simp add: relay_inv_def new_relay_def endpoints_ok_def)

interpretation relay: free_machine "new_relay cfg ifs" relay_step relay_inv for cfg ifs
  by unfold_locales (auto intro: relay_inv_new relay_inv_step)

section \<open>Properties\<close>

text \<open>
  Whatever frames arrive, and in whatever order calls settle, are canceled or the device goes
  away, at most eight requests are under way, under distinct numbers, and only requests under
  way are marked as canceled.
\<close>

theorem relay_pending_bounded:
  fixes es :: "relay_event list" and cfg :: byte and ifs :: "byte list"
  defines "r \<equiv> foldl relay_step (new_relay cfg ifs) es"
  shows "length (pending r) \<le> 8 \<and> distinct (map fst (pending r)) \<and>
    set (canceled r) \<subseteq> fst ` set (pending r)"
  using relay.inv_always [of cfg ifs es] by (simp add: r_def relay_inv_def)

text \<open>What a call of the device may touch.\<close>

fun setup_allowed :: "relay \<Rightarrow> bool \<Rightarrow> usb_setup \<Rightarrow> bool" where
  "setup_allowed r inward s \<longleftrightarrow>
    (s_requestType s = standard \<longrightarrow> inward \<and> s_request s \<in> {0, 6, 8, 10, 12}) \<and>
    (case s_recipient s of
       to_device \<Rightarrow> s_requestType s = standard
     | to_interface \<Rightarrow> low_byte (s_index s) \<in> set (interfaces r)
     | to_endpoint \<Rightarrow> low_byte (s_index s) \<in> fst ` set (endpoints r)
     | to_other \<Rightarrow> False)"

text \<open>
  Transfers go to the endpoint selected under the address in the packet. The device is given only its number: a packet
  that asks to read from the address of an outgoing endpoint is not refused, as the lemma
  \<open>transfer_against_direction\<close> below shows.
\<close>

fun call_allowed :: "relay \<Rightarrow> wire_packet \<Rightarrow> device_call \<Rightarrow> bool" where
  "call_allowed r p (ControlTransferIn s n) \<longleftrightarrow> setup_allowed r True s \<and> n \<le> webUSBMaxPayload"
| "call_allowed r p (ControlTransferOut s bs) \<longleftrightarrow> setup_allowed r False s \<and> length bs \<le> webUSBMaxPayload"
| "call_allowed r p (TransferIn n len) \<longleftrightarrow>
     map_option endpointNumber (map_of (endpoints r) (p_endpoint p)) = Some n \<and> len \<le> webUSBMaxPayload"
| "call_allowed r p (TransferOut n bs) \<longleftrightarrow>
     map_option endpointNumber (map_of (endpoints r) (p_endpoint p)) = Some n \<and> length bs \<le> webUSBMaxPayload"
| "call_allowed r p (ClearHalt inward n) \<longleftrightarrow>
     map_of (endpoints r) (p_endpoint p) \<noteq> None \<and> inward = (p_endpoint p AND 0x80 \<noteq> 0) \<and> n = unat (p_endpoint p AND 0x0f)"
| "call_allowed r p ResetDevice \<longleftrightarrow> True"

lemma controlSetup_fields:
  "controlSetup p = Some s \<Longrightarrow> s_request s = p_request p \<and> s_index s = p_index p"
  by (auto simp: controlSetup_def Let_def split: if_splits)

lemma validate_allowed:
  assumes "controlSetup p = Some s" and "validateControl r p s"
  shows "setup_allowed r (p_requestType p AND 0x80 \<noteq> 0) s"
  using assms controlSetup_fields [OF assms(1)]
  by (cases "s_recipient s") (auto simp: validateControl_def map_of_eq_None_iff)

lemma decoded_payload: "decodeWebUSBFrame data = Inr p \<Longrightarrow> length (payload p) \<le> webUSBMaxPayload"
  by (auto simp: decodeWebUSBFrame_def Let_def split: if_splits)

lemma execute_call_allowed:
  assumes "execute_call r p = Some call" and "length (payload p) \<le> webUSBMaxPayload"
  shows "call_allowed r p call"
proof (cases "p_type p = 1")
  case True
  with assms validate_allowed [of p _ r] show ?thesis
    by (auto simp: execute_call_def split: if_splits option.splits simp del: setup_allowed.simps)
next
  case False
  have "unat (declaredLength p) \<le> webUSBMaxPayload" using assms(1) by (rule execute_call_small)
  with False assms show ?thesis
    by (auto simp: execute_call_def Let_def split: if_splits)
qed

text \<open>
  C11: The relay starts a call only while it is open and fewer than eight requests are under way, and only calls it may
  make: standard control requests that read one of five kinds of data, class and vendor requests never to the
  device as a whole, control requests to an interface or an endpoint only to a selected one; transfers and
  clearing a halt only for an address under which an endpoint was selected, with the number of that endpoint; at
  most 64 KiB, read or written. (That the endpoint has the direction of the transfer is not checked.)
\<close>

theorem relay_calls_allowed:
  assumes "handle data r = (r', Started call)"
  shows "\<not> closed r \<and> length (pending r) < 8 \<and> (\<exists>p. decodeWebUSBFrame data = Inr p \<and> call_allowed r p call)"
proof -
  obtain p where p: "decodeWebUSBFrame data = Inr p"
    using assms by (auto simp: handle_def split: sum.splits)
  let ?r = "r\<lparr>pending := AList.update (p_id p) p (pending r)\<rparr>"
  have "\<not> closed r" "length (pending r) < 8" "execute_call ?r p = Some call"
    using assms p
    by (auto simp: handle_def Let_def reply_def settle_def split: if_splits option.splits sum.splits
        relay_error.splits outcome.splits)
  moreover have "call_allowed ?r p call"
    using \<open>execute_call ?r p = Some call\<close> decoded_payload [OF p] by (rule execute_call_allowed)
  moreover have "call_allowed ?r p call = call_allowed r p call"
    by (cases call) (auto split: recipient.split)
  ultimately show ?thesis using p by blast
qed

theorem relay_calls_allowed_witness:
  "\<exists>bs. decodeWebUSBFrame bs = Inr sample_packet \<and> call_allowed (new_relay 1 [0]) sample_packet (ControlTransferIn
     \<lparr>s_requestType = standard, s_recipient = to_device, s_request = 6, s_value = 0x0100, s_index = 0\<rparr> 18)"
proof -
  let ?s = "\<lparr>s_requestType = standard, s_recipient = to_device, s_request = 6, s_value = 0x0100, s_index = 0\<rparr>"
  obtain bs where bs: "decodeWebUSBFrame bs = Inr sample_packet"
    using usb_codec.round_trip [of sample_packet]
    by (auto simp: wf_packet_def sample_packet_def webUSBMaxPayload_def)
  then have "\<exists>r'. handle bs (new_relay 1 [0]) = (r', Started (ControlTransferIn ?s 18))"
    by (simp add: handle_def sample_packet_def new_relay_def Let_def execute_call_def controlSetup_def
        validateControl_def webUSBMaxPayload_def)
  with relay_calls_allowed bs show ?thesis by fastforce
qed

text \<open>
  The direction of the endpoint is not compared with that of the transfer: a packet that asks to read from the address
  of a selected outgoing endpoint makes the device read from the endpoint of that number, which may belong to
  an interface that was not selected.
\<close>

lemma transfer_against_direction:
  assumes "map_of (endpoints r) (p_endpoint p) = Some e" and "\<not> direction_in e"
    and "p_type p = 2" and "unat (declaredLength p) \<le> webUSBMaxPayload"
  shows "execute_call r p = Some (TransferIn (endpointNumber e) (unat (declaredLength p)))"
  using assms by (simp add: execute_call_def Let_def)

definition is_answer :: "wire_packet \<Rightarrow> byte list \<Rightarrow> bool" where
  "is_answer p bs =
    (case decodeWebUSBFrame bs of
       Inl _ \<Rightarrow> False
     | Inr q \<Rightarrow> q\<lparr>p_status := p_status p, payload := payload p\<rparr> = p\<lparr>p_type := p_type p OR 0x80\<rparr>)"

lemma reply_answers:
  assumes "unat (declaredLength p) \<le> webUSBMaxPayload" and "length data \<le> webUSBMaxPayload"
  shows "\<exists>bs. reply p status data = Reply bs \<and> is_answer p bs"
  using assms usb_codec.round_trip [of "p\<lparr>p_type := p_type p OR 0x80, p_status := status, payload := data\<rparr>"]
  by (auto simp: reply_def wf_packet_def is_answer_def)

lemma settle_answers:
  assumes "unat (declaredLength p) \<le> webUSBMaxPayload"
    and "\<And>data. result = Inr data \<Longrightarrow> length data \<le> webUSBMaxPayload" and "p_id p \<notin> set (canceled r)"
  shows "\<exists>bs. snd (settle p result r) = Reply bs \<and> is_answer p bs"
proof (cases result)
  case (Inl e)
  with assms(3) reply_answers [OF assms(1), of "[]" "if e = NetworkError then 1 else 5"] show ?thesis
    by (auto simp: settle_def Let_def)
next
  case (Inr data)
  with assms(2,3) reply_answers [OF assms(1), of data 0] show ?thesis
    by (auto simp: settle_def Let_def)
qed

lemma execute_result_small:
  "unat (declaredLength p) \<le> webUSBMaxPayload \<Longrightarrow> snd (execute_result p res r) = Inr data \<Longrightarrow>
    length data \<le> webUSBMaxPayload"
  by (auto simp: execute_result_def transferData_def split_beta Let_def
      split: call_result.splits option.splits if_splits)

text \<open>
  When the call of a request under way settles, with whatever result, the host gets exactly
  one answer, a frame of the same request with the answer bit, unless the request was canceled;
  the request is then no longer under way.
\<close>

theorem relay_answers_once:
  fixes r :: relay and res :: call_result
  assumes "relay_inv r" and "map_of (pending r) i = Some p"
  defines "res' \<equiv> call_settles i res r"
  shows "i \<notin> fst ` set (pending (fst res')) \<and>
    (if i \<in> set (canceled r) then snd res' = NoReply
     else \<exists>bs. snd res' = Reply bs \<and> is_answer p bs)"
proof -
  have p: "p_id p = i" "unat (declaredLength p) \<le> webUSBMaxPayload"
    using assms(1) map_of_SomeD [OF assms(2)] by (auto simp: relay_inv_def)
  let ?x = "execute_result p res r"
  have eq: "res' = settle p (snd ?x) (fst ?x)"
    by (simp add: res'_def call_settles_def assms(2) split_beta Let_def)
  have "canceled (fst ?x) = canceled r"
    by (auto simp: execute_result_def split_beta Let_def split: call_result.split)
  moreover have "i \<notin> fst ` set (pending (fst res'))"
    using p(1) by (auto simp: eq settle_def Let_def set_alist_delete)
  moreover have "i \<in> set (canceled (fst ?x)) \<Longrightarrow> snd res' = NoReply"
    using p(1) by (simp add: eq settle_def Let_def)
  ultimately show ?thesis
    using p(1) settle_answers [OF p(2), of "snd ?x" "fst ?x"] execute_result_small [OF p(2), of res r]
    by (auto simp: eq)
qed

theorem relay_answers_once_witness:
  "snd (call_settles 7 (Rejected True)
     (new_relay 1 [0]\<lparr>pending := [(7, sample_packet)], canceled := [7]\<rparr>)) = NoReply"
  using relay_answers_once [of "new_relay 1 [0]\<lparr>pending := [(7, sample_packet)], canceled := [7]\<rparr>" 7
      sample_packet "Rejected True"]
  by (simp add: relay_inv_def new_relay_def endpoints_ok_def sample_packet_def webUSBMaxPayload_def)

text \<open>
  A request whose declared length exceeds 64 KiB is a valid frame, but neither its refusal nor
  any other answer can be encoded: the handler throws and the host gets no answer.
\<close>

theorem oversized_request_unanswered:
  assumes "relay_inv r" and "decodeWebUSBFrame data = Inr p"
    and "unat (declaredLength p) > webUSBMaxPayload" and "p_type p \<noteq> 6" and "p_type p \<noteq> 7"
  shows "snd (handle data r) = Throws"
proof -
  have "reply p st d = Throws" for st d
    using assms(3) by (simp add: reply_def encodeWebUSBFrame_def)
  moreover have "execute_call r' p = None" for r'
    using assms(3) by (simp add: execute_call_def)
  moreover have "p_id p \<notin> fst ` set (pending r) \<Longrightarrow> p_id p \<notin> set (canceled r)"
    using assms(1) by (auto simp: relay_inv_def)
  ultimately show ?thesis
    using assms(2,4,5) by (simp add: handle_def Let_def settle_def)
qed

definition oversized_frame :: "byte list" where
  "oversized_frame =
    [0x4e, 0x4b, 0x55, 0x46, 1, 2, 0, 0, 0, 0, 0, 9, 0x81, 0, 0, 0, 0, 0, 0, 0,
     0, 1, 0, 1, 0, 0, 0, 0, 0, 0, 0, 0]"

theorem oversized_request_unanswered_witness:
  "snd (handle oversized_frame (new_relay 1 [0])) = Throws"
proof -
  have "\<exists>p. decodeWebUSBFrame oversized_frame = Inr p \<and> p_type p = 2 \<and> unat (declaredLength p) = 65537"
    by (simp add: decodeWebUSBFrame_def oversized_frame_def webUSBHeaderBytes_def get_u32_def buf_read_def
        be_val_def webUSBMaxPayload_def Let_def)
  then show ?thesis
    using oversized_request_unanswered [OF relay_inv_new, of oversized_frame]
    by (auto simp: webUSBMaxPayload_def)
qed

end
