(* ===== verification/Exit_State.thy ===== *)
theory Exit_State
  imports Text_Tools
begin

text \<open>
  The exit extension's page logic, \<^verbatim>\<open>web/src/pages/desktop/menu/settings/exit/state.ts\<close>: rewriting
  the commands of the server to the address the browser reached, the polling of the status, the
  formats shown and the check of a resolver. The browser's \<^verbatim>\<open>URL\<close> parser is the argument
  \<open>hostname\<close> of the definitions that read an IPv6 address.
\<close>

section \<open>Commands\<close>

datatype exit_way = native_way | nexit_way | wstunnel_way

record origin =
  scheme :: string
  host :: string

definition wsScheme :: "string \<Rightarrow> string" where
  "wsScheme s = (if s = ''https'' then ''wss'' else ''ws'')"

text \<open>The first occurrence of a string, as \<^verbatim>\<open>indexOf\<close> finds it.\<close>

fun index_of :: "string \<Rightarrow> string \<Rightarrow> nat option" where
  "index_of t [] = (if t = [] then Some 0 else None)"
| "index_of t (c # cs) = (if prefix t (c # cs) then Some 0 else map_option Suc (index_of t cs))"

definition parseOrigin :: "string \<Rightarrow> origin" where
  "parseOrigin baseUrl =
    (case index_of ''://'' baseUrl of
       None \<Rightarrow> \<lparr>scheme = '''', host = baseUrl\<rparr>
     | Some separator \<Rightarrow>
         \<lparr>scheme = take separator baseUrl,
          host = rev (dropWhile (\<lambda>c. c = CHR ''/'') (rev (drop (separator + 3) baseUrl)))\<rparr>)"

definition url_boundary :: "string \<Rightarrow> bool" where
  "url_boundary after =
    (case after of
       [] \<Rightarrow> True
     | c # _ \<Rightarrow> c = CHR ''/'' \<or> is_ws c \<or> c \<in> {CHR 0x27, CHR 0x22, CHR 0x60, CHR '')'', CHR '']''})"

text \<open>The scan of \<^verbatim>\<open>replaceUrl\<close> for a string that is not empty; for an empty one the loop does not end.\<close>

function replace_scan :: "string \<Rightarrow> string \<Rightarrow> string \<Rightarrow> string" where
  "replace_scan from to [] = []"
| "replace_scan from to (c # cs) =
    (if from \<noteq> [] \<and> prefix from (c # cs)
     then (let rest = drop (length from) (c # cs)
           in (if url_boundary rest then to else from) @ replace_scan from to rest)
     else c # replace_scan from to cs)"
  by pat_completeness auto

termination
  by (relation "measure (\<lambda>(f, t, s). length s)") (auto simp: less_Suc_eq_le Suc_le_eq neq_Nil_conv)

definition replaceUrl :: "string \<Rightarrow> string \<Rightarrow> string \<Rightarrow> string option" where
  "replaceUrl command from to = (if from = [] then None else Some (replace_scan from to command))"

record command_view =
  cv_text :: string
  cv_scheme :: string
  rewritten :: bool
  schemeMismatch :: bool
  cleartext :: bool
  trustsTransport :: bool

definition url :: "string \<Rightarrow> string \<Rightarrow> string" where
  "url s h = s @ ''://'' @ h"

definition presentCommand :: "exit_way \<Rightarrow> string option \<Rightarrow> origin \<Rightarrow> origin \<Rightarrow> command_view" where
  "presentCommand way command server local =
    (let known = (scheme server \<noteq> '''' \<and> host server \<noteq> '''');
         mismatch = (known \<and> scheme local \<noteq> '''' \<and> scheme server \<noteq> scheme local);
         rew = (known \<and> \<not> mismatch \<and> host server \<noteq> host local);
         s = (if known then scheme server else scheme local);
         text = (case command of None \<Rightarrow> '''' | Some c \<Rightarrow> c);
         text = (if rew
                 then the (replaceUrl (the (replaceUrl text (url s (host server)) (url s (host local))))
                        (url (wsScheme s) (host server)) (url (wsScheme s) (host local)))
                 else text);
         clear = (s \<noteq> ''https'')
     in \<lparr>cv_text = text, cv_scheme = s, rewritten = rew, schemeMismatch = mismatch, cleartext = clear,
         trustsTransport = (case command of
             None \<Rightarrow> False
           | Some c \<Rightarrow> \<not> clear \<and>
               (if way = wstunnel_way then \<not> js_includes c ''--tls-verify''
                else js_includes c ''-fsSLk'' \<or> js_includes c ''NanoKVMExitTrust''))\<rparr>)"

section \<open>Polling\<close>

text \<open>The two flags of \<^verbatim>\<open>serialRefresher\<close>, and the number of requests started so far.\<close>

record refresher =
  inFlight :: bool
  queued :: bool
  started :: nat

definition new_refresher :: refresher where
  "new_refresher = \<lparr>inFlight = False, queued = False, started = 0\<rparr>"

definition start :: "refresher \<Rightarrow> refresher" where
  "start r = r\<lparr>inFlight := True, started := Suc (started r)\<rparr>"

definition poll :: "refresher \<Rightarrow> refresher" where
  "poll r = (if \<not> inFlight r then start r else r)"

definition refresh :: "refresher \<Rightarrow> refresher" where
  "refresh r = (if inFlight r then r\<lparr>queued := True\<rparr> else start r)"

definition run_settles :: "refresher \<Rightarrow> refresher" where
  "run_settles r =
    (let r = r\<lparr>inFlight := False\<rparr>
     in if queued r then start (r\<lparr>queued := False\<rparr>) else r)"

section \<open>Forms and formats\<close>

record advanced =
  dns :: "string list"
  mtu :: int
  allowPrivate :: bool
  pinPeer :: bool

record exit_config =
  cfg_slot :: string
  cfg_mode :: string
  cfg_adv :: advanced

definition mergeSaved :: "exit_config option \<Rightarrow> advanced \<Rightarrow> exit_config option" where
  "mergeSaved current saved = map_option (\<lambda>c. c\<lparr>cfg_adv := saved\<rparr>) current"

definition formatUptime :: "rat \<Rightarrow> string" where
  "formatUptime seconds =
    (let total = nat \<lfloor>seconds\<rfloor>;
         days = total div 86400;
         hours = total mod 86400 div 3600;
         minutes = total mod 3600 div 60;
         secs = total mod 60
     in if days > 0 then nat_string days @ ''d '' @ nat_string hours @ ''h''
        else if hours > 0 then nat_string hours @ ''h '' @ nat_string minutes @ ''m''
        else if minutes > 0 then nat_string minutes @ ''m '' @ nat_string secs @ ''s''
        else nat_string secs @ ''s'')"

definition formatBytes :: "nat \<Rightarrow> string" where
  "formatBytes bytes =
    (if bytes < 1024 then nat_string bytes @ '' B''
     else
       let kib = of_nat bytes / 1024
       in if kib < 1024 then js_toFixed 1 kib @ '' KiB''
          else
            let mib = kib / 1024
            in if mib < 1024 then js_toFixed 1 mib @ '' MiB''
               else js_toFixed 2 (mib / 1024) @ '' GiB'')"

datatype exit_platform = windows | macos | linux

definition detectPlatform :: "string \<Rightarrow> exit_platform" where
  "detectPlatform userAgent =
    (let u = js_lower userAgent
     in if js_includes u ''windows'' then windows
        else if js_includes u ''mac os x'' \<or> js_includes u ''macintosh'' then macos
        else linux)"

section \<open>Resolvers\<close>

text \<open>One part of the pattern \<^verbatim>\<open>ipv4\<close>: 0 to 255 without leading zeros.\<close>

definition octet :: "string \<Rightarrow> bool" where
  "octet s =
    (case s of
       [d] \<Rightarrow> is_digit d
     | [a, d] \<Rightarrow> is_digit a \<and> a \<noteq> CHR ''0'' \<and> is_digit d
     | [a, b, d] \<Rightarrow>
         a = CHR ''1'' \<and> is_digit b \<and> is_digit d \<or>
         a = CHR ''2'' \<and> is_digit b \<and> digit_value b \<le> 4 \<and> is_digit d \<or>
         a = CHR ''2'' \<and> b = CHR ''5'' \<and> is_digit d \<and> digit_value d \<le> 5
     | _ \<Rightarrow> False)"

definition parseIPv4 :: "string \<Rightarrow> nat list option" where
  "parseIPv4 address =
    (let parts = split_char (CHR ''.'') address
     in if length parts = 4 \<and> list_all octet parts then Some (map number_of parts) else None)"

fun split_double :: "string \<Rightarrow> string list" where
  "split_double (a # b # cs) =
    (if a = CHR '':'' \<and> b = CHR '':'' then [] # split_double cs
     else case split_double (b # cs) of p # ps \<Rightarrow> (a # p) # ps | [] \<Rightarrow> [[a]])"
| "split_double s = [s]"

definition hex_value :: "char \<Rightarrow> nat option" where
  "hex_value c =
    (let n = of_char c :: nat
     in if is_digit c then Some (n - 48)
        else if 97 \<le> n \<and> n \<le> 102 then Some (n - 87)
        else if 65 \<le> n \<and> n \<le> 70 then Some (n - 55)
        else None)"

text \<open>\<^verbatim>\<open>parseInt(part, 16)\<close> of a group of an address; \<open>None\<close> is not a number.\<close>

definition parse_hex :: "string \<Rightarrow> nat option" where
  "parse_hex s =
    (let hs = takeWhile (\<lambda>c. hex_value c \<noteq> None) s
     in if hs = [] then None else Some (foldl (\<lambda>n c. n * 16 + the (hex_value c)) 0 hs))"

definition parseIPv6 :: "(string \<Rightarrow> string option) \<Rightarrow> string \<Rightarrow> nat option list option" where
  "parseIPv6 hostname address =
    (if CHR '':'' \<notin> set address \<or> CHR ''%'' \<in> set address then None
     else case hostname (''http://['' @ address @ '']'') of
       None \<Rightarrow> None
     | Some canonical \<Rightarrow>
         if \<not> prefix ''['' canonical \<or> \<not> suffix '']'' canonical then None
         else
           let parts = split_double (butlast (tl canonical));
               head = hd parts;
               tail = (case parts of _ # t # _ \<Rightarrow> t | _ \<Rightarrow> []);
               left = (if head = [] then [] else split_char (CHR '':'') head);
               right = (if tail = [] then [] else split_char (CHR '':'') tail)
           in if length left + length right > 8 then None
              else Some (map parse_hex (left @ replicate (8 - length left - length right) ''0'' @ right)))"

definition isValidDNS :: "(string \<Rightarrow> string option) \<Rightarrow> string \<Rightarrow> bool" where
  "isValidDNS hostname value =
    (let address = js_trim value in parseIPv4 address \<noteq> None \<or> parseIPv6 hostname address \<noteq> None)"

type_synonym prefix4 = "nat list \<times> nat"

definition alwaysDenied4 :: "prefix4 list" where
  "alwaysDenied4 =
    [([0, 0, 0, 0], 8), ([127, 0, 0, 0], 8), ([169, 254, 0, 0], 16), ([198, 18, 0, 0], 15), ([224, 0, 0, 0], 3)]"

definition privateDenied4 :: "prefix4 list" where
  "privateDenied4 =
    [([10, 0, 0, 0], 8), ([100, 64, 0, 0], 10), ([172, 16, 0, 0], 12), ([192, 168, 0, 0], 16)]"

definition address_word :: "nat list \<Rightarrow> int32" where
  "address_word xs =
    push_bit 24 (of_nat (xs ! 0)) OR push_bit 16 (of_nat (xs ! 1)) OR push_bit 8 (of_nat (xs ! 2)) OR of_nat (xs ! 3)"

definition inPrefix4 :: "nat list \<Rightarrow> prefix4 \<Rightarrow> bool" where
  "inPrefix4 octets p =
    (let m = (if snd p = 0 then 0 else push_bit (32 - snd p) (0xffffffff :: int32))
     in address_word octets AND m = address_word (fst p) AND m)"

text \<open>A number as an operand of a bitwise operator.\<close>

definition bits16 :: "nat option \<Rightarrow> int32" where
  "bits16 x = (case x of None \<Rightarrow> 0 | Some n \<Rightarrow> of_nat n)"

definition isMapped6 :: "nat option list \<Rightarrow> bool" where
  "isMapped6 h \<longleftrightarrow> list_all (\<lambda>p. p = Some 0) (take 5 h) \<and> h ! 5 = Some 0xffff"

definition alwaysDenied6 :: "nat option list \<Rightarrow> bool" where
  "alwaysDenied6 h \<longleftrightarrow>
    list_all (\<lambda>p. p = Some 0) h \<or>
    list_all (\<lambda>p. p = Some 0) (take 7 h) \<and> h ! 7 = Some 1 \<or>
    bits16 (h ! 0) AND 0xffc0 = 0xfe80 \<or> bits16 (h ! 0) AND 0xff00 = 0xff00"

definition privateDenied6 :: "nat option list \<Rightarrow> bool" where
  "privateDenied6 h \<longleftrightarrow> bits16 (h ! 0) AND 0xfe00 = 0xfc00"

datatype resolver_problem = fine | dnsInvalid | dnsDenied | dnsPrivate

definition judge4 :: "nat list \<Rightarrow> bool \<Rightarrow> resolver_problem" where
  "judge4 octets allow =
    (if list_ex (inPrefix4 octets) alwaysDenied4 then dnsDenied
     else if \<not> allow \<and> list_ex (inPrefix4 octets) privateDenied4 then dnsPrivate
     else fine)"

definition resolverProblem :: "(string \<Rightarrow> string option) \<Rightarrow> string \<Rightarrow> bool \<Rightarrow> resolver_problem" where
  "resolverProblem hostname value allow =
    (let address = js_trim value
     in case parseIPv4 address of
          Some octets \<Rightarrow> judge4 octets allow
        | None \<Rightarrow>
            (case parseIPv6 hostname address of
               None \<Rightarrow> dnsInvalid
             | Some h \<Rightarrow>
                 if isMapped6 h
                 then judge4 [unat (drop_bit 8 (bits16 (h ! 6))), unat (bits16 (h ! 6) AND 0xff),
                        unat (drop_bit 8 (bits16 (h ! 7))), unat (bits16 (h ! 7) AND 0xff)] allow
                 else if alwaysDenied6 h then dnsDenied
                 else if \<not> allow \<and> privateDenied6 h then dnsPrivate
                 else fine))"

section \<open>Downloads\<close>

definition nexitDownloads :: "(string \<times> string \<times> string) list" where
  "nexitDownloads =
    [(''x64'', ''nexit-windows-amd64.exe'', ''nexit.exe''),
     (''arm64'', ''nexit-windows-arm64.exe'', ''nexit.exe''),
     (''config'', ''nexit.json'', ''nexit.json'')]"

record download_request =
  dl_url :: string
  authorization :: string
  cache :: string

definition nexitDownloadRequest :: "string \<Rightarrow> string \<Rightarrow> string \<Rightarrow> string \<Rightarrow> download_request" where
  "nexitDownloadRequest baseUrl slot token asset =
    \<lparr>dl_url = rev (dropWhile (\<lambda>c. c = CHR ''/'') (rev baseUrl)) @ ''/exit/'' @ slot @ ''/'' @ asset,
     authorization = ''Bearer '' @ token, cache = ''no-store''\<rparr>"

section \<open>Rewriting\<close>

lemma replace_scan_no_boundary:
  assumes "from \<noteq> []" "\<And>pre post. s = pre @ from @ post \<Longrightarrow> \<not> url_boundary post"
  shows "replace_scan from to s = s"
  using assms
proof (induction "from" to s rule: replace_scan.induct)
  case (2 "from" to c cs)
  show ?case
  proof (cases "prefix from (c # cs)")
    case True
    then obtain rest where rest: "c # cs = from @ rest" by (auto elim: prefixE)
    have "\<not> url_boundary post" if "rest = pre @ from @ post" for pre post
      using 2(4) [of "from @ pre" post] that by (simp add: rest)
    moreover have "\<not> url_boundary rest" using 2(4) [of "[]" rest] rest by simp
    ultimately have "replace_scan from to rest = rest" "\<not> url_boundary rest"
      using 2(1) [OF _ refl] 2(3) True rest by auto
    moreover have "drop (length from) (c # cs) = rest" by (simp add: rest)
    ultimately show ?thesis using 2(3) True by (simp add: Let_def) (simp add: rest)
  next
    case False
    have "\<not> url_boundary post" if "cs = pre @ from @ post" for pre post
      using 2(4) [of "c # pre" post] that by simp
    with False 2(2,3) show ?thesis by simp
  qed
qed simp

section \<open>Arithmetic of addresses\<close>

definition quad :: "nat list \<Rightarrow> nat" where
  "quad xs = ((xs ! 0 * 256 + xs ! 1) * 256 + xs ! 2) * 256 + xs ! 3"

lemma or_low_bits:
  fixes x y :: int32
  assumes "unat y < 2 ^ k"
  shows "push_bit k x OR y = push_bit k x + y"
proof -
  have "unat (take_bit k y) = unat y" using assms by (simp add: unsigned_take_bit_eq take_bit_nat_eq_self)
  then have "y = take_bit k y" by (simp add: word_unat_eq_iff)
  then have "push_bit k x AND y = push_bit k x AND take_bit k y" by simp
  also have "\<dots> = 0" by (rule bit_eqI) (auto simp: bit_simps)
  finally show ?thesis by (simp add: disjunctive_add_eq_or)
qed

lemma unat_of_nat_32: "n < 2 ^ 32 \<Longrightarrow> unat (of_nat n :: int32) = n"
  by (simp add: unat_of_nat take_bit_nat_eq_self)

lemma unat_address_word:
  assumes "length xs = 4" "list_all (\<lambda>x. x < 256) xs"
  shows "unat (address_word xs) = quad xs"
proof -
  obtain a b c d where xs: "xs = [a, b, c, d]" and lt: "a < 256" "b < 256" "c < 256" "d < 256"
    using assms by (auto simp: numeral_eq_Suc length_Suc_conv)
  let ?w = "\<lambda>n. of_nat n :: int32"
  have small: "unat (?w (c * 256 + d)) < 2 ^ 16" "unat (?w (b * 65536 + c * 256 + d)) < 2 ^ 24"
    using lt unat_of_nat_32 [of "c * 256 + d"] unat_of_nat_32 [of "b * 65536 + c * 256 + d"]
    by (simp_all del: of_nat_add of_nat_mult)
  have "push_bit 8 (?w c) OR ?w d = ?w (c * 256 + d)"
    using lt by (subst or_low_bits) (simp_all add: unat_of_nat_32 push_bit_eq_mult)
  moreover have "push_bit 16 (?w b) OR ?w (c * 256 + d) = ?w (b * 65536 + c * 256 + d)"
    using or_low_bits [OF small(1)] by (simp add: push_bit_eq_mult add.assoc)
  moreover have "push_bit 24 (?w a) OR ?w (b * 65536 + c * 256 + d) = ?w (quad xs)"
    using or_low_bits [OF small(2)] by (simp add: push_bit_eq_mult quad_def xs algebra_simps)
  ultimately have "address_word xs = ?w (quad xs)" by (simp add: address_word_def xs or.assoc)
  moreover have "quad xs < 2 ^ 32" using lt by (simp add: quad_def xs)
  ultimately show ?thesis by (simp add: unat_of_nat_32)
qed

lemma unat_32: "take_bit 32 (unat (v :: int32)) = unat v"
  using unsigned_less [of v] by (simp add: take_bit_nat_eq_self_iff)

lemma and_high_bits_eq:
  fixes v w :: int32
  assumes "n < 32"
  shows "v AND push_bit n 0xffffffff = w AND push_bit n 0xffffffff \<longleftrightarrow> unat v div 2 ^ n = unat w div 2 ^ n"
proof -
  have "v AND push_bit n 0xffffffff = push_bit n (drop_bit n v)" for v :: int32
  proof (rule bit_eqI)
    fix i
    assume "possible_bit TYPE(int32) i"
    moreover have "push_bit n (0xffffffff :: int32) = push_bit n (- 1)"
      by (rule arg_cong [of _ _ "push_bit n"]) simp
    ultimately show "bit (v AND push_bit n 0xffffffff) i = bit (push_bit n (drop_bit n v)) i"
      by (simp only:) (auto simp: bit_simps)
  qed
  moreover have "push_bit n (drop_bit n v) = push_bit n (drop_bit n w) \<longleftrightarrow> drop_bit n v = drop_bit n w"
  proof
    assume eq: "push_bit n (drop_bit n v) = push_bit n (drop_bit n w)"
    show "drop_bit n v = drop_bit n w"
    proof (rule bit_eqI)
      fix i
      have "bit (push_bit n (drop_bit n v)) (n + i) = bit (push_bit n (drop_bit n w)) (n + i)" by (simp only: eq)
      then show "bit (drop_bit n v) i = bit (drop_bit n w) i"
        by (auto simp: bit_simps dest: bit_imp_le_length)
    qed
  qed simp
  moreover have "drop_bit n v = drop_bit n w \<longleftrightarrow> unat v div 2 ^ n = unat w div 2 ^ n"
    by (simp only: word_unat_eq_iff unsigned_drop_bit_eq) (simp add: drop_bit_eq_div unat_32)
  ultimately show ?thesis by simp
qed

lemma quad_div:
  assumes "b < 256" "c < 256" "d < 256"
  shows "quad [a, b, c, d] div 2 ^ (16 + j) = (a * 256 + b) div 2 ^ j"
proof -
  have "quad [a, b, c, d] = (a * 256 + b) * 2 ^ 16 + (c * 256 + d)" by (simp add: quad_def algebra_simps)
  moreover have "c * 256 + d < 2 ^ 16" using assms by simp
  ultimately have "quad [a, b, c, d] div 2 ^ 16 = a * 256 + b" by simp
  then show ?thesis by (simp add: power_add div_mult2_eq)
qed

lemma inPrefix4_iff:
  assumes "a < 256" "b < 256" "c < 256" "d < 256" "a' < 256" "b' < 256" "k + j = 16" "0 < k"
  shows "inPrefix4 [a, b, c, d] ([a', b', 0, 0], k) \<longleftrightarrow> (a * 256 + b) div 2 ^ j = (a' * 256 + b') div 2 ^ j"
proof -
  have k: "32 - k = 16 + j" "32 - k < 32" "k \<noteq> 0" using assms by simp_all
  show ?thesis
    using and_high_bits_eq [OF k(2), of "address_word [a, b, c, d]" "address_word [a', b', 0, 0]"] assms k(3)
    by (simp add: inPrefix4_def Let_def unat_address_word quad_div k(1))
qed

definition denied_range :: "nat \<Rightarrow> nat \<Rightarrow> bool" where
  "denied_range a b \<longleftrightarrow> a = 0 \<or> a = 127 \<or> a = 169 \<and> b = 254 \<or> a = 198 \<and> (b = 18 \<or> b = 19) \<or> 224 \<le> a"

definition private_range :: "nat \<Rightarrow> nat \<Rightarrow> bool" where
  "private_range a b \<longleftrightarrow> a = 10 \<or> a = 100 \<and> 64 \<le> b \<and> b < 128 \<or> a = 172 \<and> 16 \<le> b \<and> b < 32 \<or> a = 192 \<and> b = 168"

lemma div_eq_range: "0 < (m :: nat) \<Longrightarrow> n div m = k \<longleftrightarrow> k * m \<le> n \<and> n < (k + 1) * m"
  by (auto intro: div_nat_eqI simp: mult.commute dividend_less_times_div)

lemma range_arith:
  fixes a b :: nat
  assumes "a < 256" "b < 256"
  shows "a * 256 + b = 43518 \<longleftrightarrow> a = 169 \<and> b = 254"
    "(a * 256 + b) div 2 = 25353 \<longleftrightarrow> a = 198 \<and> (b = 18 \<or> b = 19)"
    "(a * 256 + b) div 8192 = 7 \<longleftrightarrow> 224 \<le> a"
    "(a * 256 + b) div 64 = 401 \<longleftrightarrow> a = 100 \<and> 64 \<le> b \<and> b < 128"
    "(a * 256 + b) div 16 = 2753 \<longleftrightarrow> a = 172 \<and> 16 \<le> b \<and> b < 32"
    "a * 256 + b = 49320 \<longleftrightarrow> a = 192 \<and> b = 168"
  subgoal using assms by (cases a "169 :: nat" rule: linorder_cases) (auto simp: div_eq_range)
  subgoal using assms by (cases a "198 :: nat" rule: linorder_cases) (auto simp: div_eq_range)
  subgoal using assms by (cases a "224 :: nat" rule: linorder_cases) (auto simp: div_eq_range)
  subgoal using assms by (cases a "100 :: nat" rule: linorder_cases) (auto simp: div_eq_range)
  subgoal using assms by (cases a "172 :: nat" rule: linorder_cases) (auto simp: div_eq_range)
  subgoal using assms by (cases a "192 :: nat" rule: linorder_cases) (auto simp: div_eq_range)
  done

lemma judge4_iff:
  assumes "a < 256" "b < 256" "c < 256" "d < 256"
  shows "judge4 [a, b, c, d] allow =
    (if denied_range a b then dnsDenied else if \<not> allow \<and> private_range a b then dnsPrivate else fine)"
proof -
  let ?in = "inPrefix4 [a, b, c, d]"
  note pre = inPrefix4_iff [OF assms]
  have "?in ([0, 0, 0, 0], 8) \<longleftrightarrow> a = 0"
    "?in ([127, 0, 0, 0], 8) \<longleftrightarrow> a = 127"
    "?in ([169, 254, 0, 0], 16) \<longleftrightarrow> a = 169 \<and> b = 254"
    "?in ([198, 18, 0, 0], 15) \<longleftrightarrow> a = 198 \<and> (b = 18 \<or> b = 19)"
    "?in ([224, 0, 0, 0], 3) \<longleftrightarrow> 224 \<le> a"
    "?in ([10, 0, 0, 0], 8) \<longleftrightarrow> a = 10"
    "?in ([100, 64, 0, 0], 10) \<longleftrightarrow> a = 100 \<and> 64 \<le> b \<and> b < 128"
    "?in ([172, 16, 0, 0], 12) \<longleftrightarrow> a = 172 \<and> 16 \<le> b \<and> b < 32"
    "?in ([192, 168, 0, 0], 16) \<longleftrightarrow> a = 192 \<and> b = 168"
    using pre [of 0 0 8 8] pre [of 127 0 8 8] pre [of 169 254 16 0] 
      pre [of 198 18 15 1] pre [of 224 0 3 13] pre [of 10 0 8 8] 
      pre [of 100 64 10 6] pre [of 172 16 12 4] pre [of 192 168 16 0]
      
    using assms by (simp_all add: range_arith [OF assms(1,2)])
  then show ?thesis
    by (auto simp: judge4_def alwaysDenied4_def privateDenied4_def denied_range_def private_range_def)
qed

lemma octet_three:
  assumes "t < 10" "u < 10" "h = 1 \<or> h = 2 \<and> t \<le> 4 \<or> h = 2 \<and> t = 5 \<and> u \<le> 5"
  shows "octet [digit h, digit t, digit u]"
proof -
  have "digit 1 = CHR ''1''" "digit 2 = CHR ''2''" "digit 5 = CHR ''5''" by (simp_all add: digit_def)
  with assms show ?thesis by (auto simp: octet_def digit_props)
qed

lemma octet_nat_string:
  assumes "n < 256"
  shows "octet (nat_string n)"
proof -
  consider "n < 10" | "10 \<le> n" "n < 100" | "100 \<le> n" by linarith
  then show ?thesis
  proof cases
    case 1
    then show ?thesis by (subst nat_string.simps) (simp add: octet_def digit_props)
  next
    case 2
    then have "nat_string n = [digit (n div 10), digit (n mod 10)]"
      by (simp add: nat_string.simps [of n] nat_string.simps [of "n div 10"] div_less_iff_less_mult)
    moreover have "digit (n div 10) \<noteq> CHR ''0''"
    proof
      assume "digit (n div 10) = CHR ''0''"
      then have "of_char (digit (n div 10)) = (48 :: nat)" by simp
      with 2 digit_props(3) [of "n div 10"] show False by (simp add: div_less_iff_less_mult)
    qed
    ultimately show ?thesis using 2 by (auto simp: octet_def digit_props div_less_iff_less_mult)
  next
    case 3
    have q: "n div 10 div 10 = n div 100" by (simp add: div_mult2_eq [symmetric])
    have r: "\<not> n div 10 < 10" "n div 100 < 10" using 3 assms
      by (simp_all add: not_less less_eq_div_iff_mult_less_eq div_less_iff_less_mult)
    from 3 r have "nat_string n = [digit (n div 100), digit (n div 10 mod 10), digit (n mod 10)]"
      by (simp add: nat_string.simps [of n] nat_string.simps [of "n div 10"] nat_string.simps [of "n div 100"] q)
    moreover have "(n div 100 * 10 + n div 10 mod 10) * 10 + n mod 10 = n"
      using div_mult_mod_eq [of "n div 10" 10] by (simp add: q)
    then obtain h t u where d: "n div 100 = h" "n div 10 mod 10 = t" "n mod 10 = u" "(h * 10 + t) * 10 + u = n"
      by blast
    have "t < 10" "u < 10" using d(2,3) by auto
    with d(4) 3 assms have "1 \<le> h" "h \<le> 2" "h = 2 \<Longrightarrow> t \<le> 5" "h = 2 \<Longrightarrow> t = 5 \<Longrightarrow> u \<le> 5" by auto
    then have "h = 1 \<or> h = 2 \<and> t \<le> 4 \<or> h = 2 \<and> t = 5 \<and> u \<le> 5"
      by (cases "h = 1"; cases "t = 5") auto
    ultimately show ?thesis
      using octet_three [OF \<open>t < 10\<close> \<open>u < 10\<close>] d(1-3) by simp
  qed
qed

definition dotted :: "nat \<Rightarrow> nat \<Rightarrow> nat \<Rightarrow> nat \<Rightarrow> string" where
  "dotted a b c d = nat_string a @ ''.'' @ nat_string b @ ''.'' @ nat_string c @ ''.'' @ nat_string d"

lemma split_dotted:
  "split_char (CHR ''.'') (dotted a b c d) = [nat_string a, nat_string b, nat_string c, nat_string d]"
proof -
  have "CHR ''.'' \<notin> set (nat_string n)" for n
    using nat_string_plain [of "CHR ''.''" n] by (auto simp: is_digit_def)
  then show ?thesis by (simp add: dotted_def split_char_append split_char_plain)
qed

lemma parse_dotted:
  "a < 256 \<Longrightarrow> b < 256 \<Longrightarrow> c < 256 \<Longrightarrow> d < 256 \<Longrightarrow> parseIPv4 (dotted a b c d) = Some [a, b, c, d]"
  by (simp add: parseIPv4_def split_dotted octet_nat_string number_nat_string)

lemma trim_dotted: "js_trim (dotted a b c d) = dotted a b c d"
proof (rule js_trim_plain)
  have h: "hd (dotted a b c d) = hd (nat_string a)" "last (dotted a b c d) = last (nat_string d)"
    by (simp_all add: dotted_def)
  show "\<not> is_ws (hd (dotted a b c d))" "\<not> is_ws (last (dotted a b c d))"
    unfolding h by (rule not_ws_digit, rule nat_string_plain, rule hd_in_set last_in_set, simp)+
qed (simp add: dotted_def)

section \<open>Polling, one request at a time\<close>

datatype refresher_event = Poll | Refresh | Settled

fun refresher_step :: "refresher \<Rightarrow> refresher_event \<Rightarrow> refresher" where
  "refresher_step r Poll = poll r"
| "refresher_step r Refresh = refresh r"
| "refresher_step r Settled = run_settles r"

fun refresher_possible :: "refresher \<Rightarrow> refresher_event \<Rightarrow> bool" where
  "refresher_possible r Settled \<longleftrightarrow> inFlight r"
| "refresher_possible r e \<longleftrightarrow> True"

definition refresher_inv :: "refresher \<Rightarrow> bool" where
  "refresher_inv r \<longleftrightarrow> (queued r \<longrightarrow> inFlight r)"

interpretation refresher: guarded_machine new_refresher refresher_possible refresher_step refresher_inv
proof unfold_locales
  fix r e assume "refresher_inv r"
  then show "refresher_inv (refresher_step r e)"
    by (cases e) (auto simp: refresher_inv_def poll_def refresh_def run_settles_def start_def Let_def)
qed (simp add: refresher_inv_def new_refresher_def)

lemma started_step: "started r \<le> started (refresher_step r e)"
  by (cases e) (auto simp: poll_def refresh_def run_settles_def start_def Let_def)

lemma started_run: "started r \<le> started (foldl refresher_step r es)"
proof (induction es arbitrary: r)
  case (Cons e es)
  show ?case using Cons.IH [of "refresher_step r e"] started_step [of r e] by simp
qed simp

text \<open>After a refresh a request that is started later is certain once the one in flight settles.\<close>

lemma refresh_owed:
  assumes "refresher_inv r" "run_allowed refresher_possible refresher_step r es"
    and "n < started r \<or> queued r \<and> n \<le> started r"
  shows "n < started (foldl refresher_step r es) \<or>
    queued (foldl refresher_step r es) \<and> n \<le> started (foldl refresher_step r es) \<and> Settled \<notin> set es"
  using assms
proof (induction es arbitrary: r)
  case (Cons e es)
  let ?r = "refresher_step r e"
  have inv: "refresher_inv ?r" using Cons.prems refresher.inv_step by simp
  have "n < started ?r \<or> queued ?r \<and> n \<le> started ?r \<and> e \<noteq> Settled"
    using Cons.prems(1,3)
    by (cases e) (auto simp: refresher_inv_def poll_def refresh_def run_settles_def start_def Let_def)
  then show ?case
  proof
    assume "n < started ?r"
    then have "n < started (foldl refresher_step ?r es) \<or> queued (foldl refresher_step ?r es)
      \<and> n \<le> started (foldl refresher_step ?r es) \<and> Settled \<notin> set es"
      using Cons.IH [OF inv] Cons.prems(2) by simp
    then show ?thesis using started_run [of ?r es] \<open>n < started ?r\<close> by simp
  next
    assume "queued ?r \<and> n \<le> started ?r \<and> e \<noteq> Settled"
    then show ?thesis using Cons.IH [OF inv] Cons.prems(2) by auto
  qed
qed auto

section \<open>Properties\<close>

text \<open>
  C12: The check of a resolver agrees with the address ranges it stands for, for every IPv4 address: this
  network, loopback, link-local, the benchmark range and everything from 224 on are denied, the
  private and the carrier-grade ranges only without the permission, and nothing else.
\<close>

theorem resolver_matches_ranges:
  assumes "a < 256" "b < 256" "c < 256" "d < 256"
  shows "resolverProblem hostname (dotted a b c d) allow =
    (if a = 0 \<or> a = 127 \<or> a = 169 \<and> b = 254 \<or> a = 198 \<and> (b = 18 \<or> b = 19) \<or> 224 \<le> a then dnsDenied
     else if \<not> allow \<and> (a = 10 \<or> a = 100 \<and> 64 \<le> b \<and> b < 128 \<or> a = 172 \<and> 16 \<le> b \<and> b < 32 \<or> a = 192 \<and> b = 168)
     then dnsPrivate
     else fine)"
  unfolding resolverProblem_def Let_def trim_dotted parse_dotted [OF assms] option.case judge4_iff [OF assms]
    denied_range_def private_range_def ..

theorem resolver_matches_ranges_witness:
  "resolverProblem (\<lambda>_. None) (dotted 100 100 1 1) False = dnsPrivate"
  using resolver_matches_ranges [of 100 100 1 1 "\<lambda>_. None" False] by simp

text \<open>
  A refresh is never lost: once the request that was in flight has settled, a request that was started
  after the refresh exists, whatever polls, refreshes and answers come in between.
\<close>

theorem refresh_is_not_lost:
  assumes "run_allowed refresher_possible refresher_step new_refresher (es @ Refresh # es')"
    and "\<not> inFlight (foldl refresher_step new_refresher es) \<or> Settled \<in> set es'"
  shows "started (foldl refresher_step new_refresher es) <
    started (foldl refresher_step new_refresher (es @ Refresh # es'))"
proof -
  let ?r = "foldl refresher_step new_refresher es"
  have all: "run_allowed refresher_possible refresher_step new_refresher es"
    "run_allowed refresher_possible refresher_step (refresh ?r) es'"
    using assms(1) by (simp_all add: run_allowed_append)
  have inv: "refresher_inv ?r" by (rule refresher.inv_run [OF all(1)])
  then have "refresher_inv (refresh ?r)" using refresher.inv_step [of ?r Refresh] by simp
  moreover have "started ?r < started (refresh ?r) \<or> queued (refresh ?r) \<and> started ?r \<le> started (refresh ?r)"
    by (auto simp: refresh_def start_def)
  ultimately have "started ?r < started (foldl refresher_step (refresh ?r) es') \<or>
      queued (foldl refresher_step (refresh ?r) es') \<and> Settled \<notin> set es'"
    using refresh_owed [OF _ all(2)] by blast
  moreover have "\<not> inFlight ?r \<Longrightarrow> started ?r < started (foldl refresher_step (refresh ?r) es')"
    using started_run [of "refresh ?r" es'] by (simp add: refresh_def start_def)
  ultimately show ?thesis using assms(2) by auto
qed

theorem refresh_is_not_lost_witness:
  "started (foldl refresher_step new_refresher [Poll]) <
    started (foldl refresher_step new_refresher [Poll, Refresh, Poll, Settled])"
  using refresh_is_not_lost [of "[Poll]" "[Poll, Settled]"]
  by (simp add: new_refresher_def poll_def refresh_def run_settles_def start_def)

text \<open>
  Rewriting the address of a command changes nothing unless the address stands there as a whole, that
  is, followed by a path, a blank, a quote or a bracket or at the end: a host whose name only starts
  with the server's is left alone.
\<close>

theorem replaceUrl_needs_boundary:
  assumes "from \<noteq> []" and "\<And>pre post. command = pre @ from @ post \<Longrightarrow> \<not> url_boundary post"
  shows "replaceUrl command from to = Some command"
  using replace_scan_no_boundary [OF assms] assms(1) by (simp add: replaceUrl_def)

theorem replaceUrl_needs_boundary_witness:
  "replaceUrl ''hx'' ''h'' ''k'' = Some ''hx''"
proof (rule replaceUrl_needs_boundary)
  fix pre post
  assume "''hx'' = pre @ ''h'' @ post"
  then have "post = ''x''" by (auto simp: Cons_eq_append_conv)
  then show "\<not> url_boundary post" by (simp add: url_boundary_def is_ws_def)
qed simp

end
