(* ===== verification/Video_Worker.thy ===== *)
theory Video_Worker
  imports Media_Frame "HOL-Library.Multiset"
begin

text \<open>
  The worker that shows the direct H.264 stream,
  \<^verbatim>\<open>web/src/pages/desktop/screen/direct.worker.ts\<close>: the socket and its reconnects, the decoder and its
  backpressure, the queue of decoded pictures, the watch on a stream that stalls. Messages of
  the page, events of the socket, callbacks of the decoder, timers and the message channel that
  drains the queue are the steps. What the browser decides (whether a socket or a decoder can be
  created, how full the decoder is, whether a picture can be drawn, what time it is) is an argument
  of the step. A picture is its identity and its size; a \<^verbatim>\<open>send\<close> on an open socket does not throw.
\<close>

section \<open>State\<close>

record picture =
  pic :: nat
  displayWidth :: nat
  displayHeight :: nat

record video =
  canvas :: "(nat \<times> nat) option"
  ctx :: bool  \<comment> \<open>whether \<^verbatim>\<open>getContext\<close> gave a context\<close>
  rendering :: bool
  flushScheduled :: bool
  decoder :: "nat option"
  decoders :: "bool list"  \<comment> \<open>which decoders are configured, the others are closed\<close>
  streamUrl :: "string option"
  vsocket :: "nat option"
  vsockets :: "ready_state list"
  reconnectTimer :: "nat option"
  reconnectDelayMs :: nat
  stopped :: bool
  resyncRequested :: bool
  pendingAckTimestamp :: "nat option"
  decodeBackpressured :: bool
  reportedFrame :: "nat \<times> nat"
  lastFrameAt :: int
  stallStrikes :: nat
  stallTimer :: "nat option"
  timeouts :: "nat list"  \<comment> \<open>the time-outs that will fire: reconnects\<close>
  intervals :: "nat list"  \<comment> \<open>the intervals that tick: stall checks\<close>
  next_timer :: nat
  frameQueue :: "picture list"
  posted :: nat  \<comment> \<open>messages on the channel\<close>
  received :: "nat list"  \<comment> \<open>every picture a decoder delivered\<close>
  released :: "nat list"  \<comment> \<open>every call of \<^verbatim>\<open>close\<close> on a picture\<close>
  sent :: "(nat \<times> byte list) list"
  sizes :: "(nat \<times> nat) list"  \<comment> \<open>frame sizes posted to the page\<close>

definition maxQueuedFrames :: nat where "maxQueuedFrames = 1"
definition maxReconnectDelayMs :: nat where "maxReconnectDelayMs = 5000"
definition frameStallTimeoutMs :: int where "frameStallTimeoutMs = 4000"
definition frameAckMessage :: byte where "frameAckMessage = 2"
definition streamResyncMessage :: byte where "streamResyncMessage = 3"
definition decoderHighWatermark :: nat where "decoderHighWatermark = 6"
definition decoderLowWatermark :: nat where "decoderLowWatermark = 3"

definition new_video :: video where
  "new_video =
    \<lparr>canvas = None, ctx = False, rendering = False, flushScheduled = False, decoder = None, decoders = [],
     streamUrl = None, vsocket = None, vsockets = [], reconnectTimer = None, reconnectDelayMs = 250,
     stopped = False, resyncRequested = False, pendingAckTimestamp = None, decodeBackpressured = False,
     reportedFrame = (0, 0), lastFrameAt = 0, stallStrikes = 0, stallTimer = None, timeouts = [],
     intervals = [], next_timer = 0, frameQueue = [],
     posted = 0, received = [], released = [], sent = [], sizes = []\<rparr>"

section \<open>Socket\<close>

definition socket_open :: "video \<Rightarrow> bool" where
  "socket_open v = (case vsocket v of None \<Rightarrow> False | Some i \<Rightarrow> vsockets v ! i = OPEN)"

definition close_socket :: "nat \<Rightarrow> video \<Rightarrow> video" where
  "close_socket i v =
    (if vsockets v ! i = CLOSED then v else v\<lparr>vsockets := (vsockets v)[i := CLOSING]\<rparr>)"

definition scheduleReconnect :: "video \<Rightarrow> video" where
  "scheduleReconnect v =
    (if stopped v \<or> reconnectTimer v \<noteq> None \<or> streamUrl v = None then v
     else v\<lparr>reconnectDelayMs := min (reconnectDelayMs v * 2) maxReconnectDelayMs,
            reconnectTimer := Some (next_timer v), timeouts := timeouts v @ [next_timer v],
            next_timer := Suc (next_timer v)\<rparr>)"

definition connect :: "bool \<Rightarrow> video \<Rightarrow> video" where
  "connect created v =
    (if stopped v \<or> streamUrl v = None \<or> vsocket v \<noteq> None then v
     else if \<not> created then scheduleReconnect v
     else v\<lparr>vsocket := Some (length (vsockets v)), vsockets := vsockets v @ [CONNECTING]\<rparr>)"

definition disconnect :: "video \<Rightarrow> video" where
  "disconnect v =
    (case vsocket v of
       None \<Rightarrow> v
     | Some i \<Rightarrow> close_socket i (v\<lparr>vsocket := None\<rparr>))"

definition clearReconnectTimer :: "video \<Rightarrow> video" where
  "clearReconnectTimer v =
    (case reconnectTimer v of
       None \<Rightarrow> v
     | Some k \<Rightarrow> v\<lparr>timeouts := removeAll k (timeouts v), reconnectTimer := None\<rparr>)"

definition requestStreamResync :: "video \<Rightarrow> video" where
  "requestStreamResync v =
    (if resyncRequested v then v
     else case vsocket v of
       None \<Rightarrow> v
     | Some i \<Rightarrow>
         if \<not> socket_open v then v
         else v\<lparr>sent := sent v @ [(i, [streamResyncMessage])], resyncRequested := True\<rparr>)"

definition acknowledgeFrame :: "nat \<Rightarrow> video \<Rightarrow> video" where
  "acknowledgeFrame timestamp v =
    (case vsocket v of
       None \<Rightarrow> v
     | Some i \<Rightarrow>
         if \<not> socket_open v then v
         else v\<lparr>sent := sent v @ [(i, frameAckMessage # rev (be_bytes 8 timestamp))]\<rparr>)"

section \<open>Decoder\<close>

definition resetDecoder :: "video \<Rightarrow> video" where
  "resetDecoder v =
    v\<lparr>decoders := (case decoder v of None \<Rightarrow> decoders v | Some d \<Rightarrow> (decoders v)[d := False]),
      decoder := None, pendingAckTimestamp := None, decodeBackpressured := False, rendering := False,
      flushScheduled := False, released := released v @ map pic (frameQueue v), frameQueue := []\<rparr>"

definition releaseDecodeBackpressure :: "nat \<Rightarrow> nat \<Rightarrow> video \<Rightarrow> video" where
  "releaseDecodeBackpressure source queueSize v =
    (case pendingAckTimestamp v of
       None \<Rightarrow> v
     | Some timestamp \<Rightarrow>
         if decoder v \<noteq> Some source then v
         else if decodeBackpressured v \<and> queueSize > decoderLowWatermark then v
         else (acknowledgeFrame timestamp (v\<lparr>decodeBackpressured := False\<rparr>))\<lparr>pendingAckTimestamp := None\<rparr>)"

text \<open>
  What becomes of \<^verbatim>\<open>target.decode\<close>: the size of its queue afterwards, an exception that asks for a new
  decoder, or another exception. A time stamp that is not a safe integer is refused when the
  chunk is made.
\<close>

datatype decoded = Accepted nat | Refused bool

definition decode :: "nat \<Rightarrow> nat \<Rightarrow> decoded \<Rightarrow> video \<Rightarrow> video" where
  "decode target timestamp outcome v =
    (if int timestamp > MAX_SAFE_INTEGER then v
     else case outcome of
       Accepted queueSize \<Rightarrow>
         let v = v\<lparr>pendingAckTimestamp := Some timestamp\<rparr>;
             v = (if queueSize \<ge> decoderHighWatermark then v\<lparr>decodeBackpressured := True\<rparr> else v)
         in releaseDecodeBackpressure target queueSize v
     | Refused reset \<Rightarrow> if reset then resetDecoder (requestStreamResync v) else v)"

definition createDecoder :: "bool \<Rightarrow> video \<Rightarrow> video" where
  "createDecoder created v =
    (if created then v\<lparr>decoder := Some (length (decoders v)), decoders := decoders v @ [True], resyncRequested := False\<rparr>
     else requestStreamResync v)"

definition message_timestamp :: "byte list \<Rightarrow> nat" where
  "message_timestamp message = Number_of_nat (be_val (rev (buf_read 1 8 message)))"

definition handleWsMessage :: "byte list \<Rightarrow> bool \<Rightarrow> decoded \<Rightarrow> video \<Rightarrow> video" where
  "handleWsMessage message created outcome v =
    (if length message < 9 then v
     else
       let isKeyFrame = (message ! 0 = 1);
           decode_now = (\<lambda>v. case decoder v of
             None \<Rightarrow> v
           | Some d \<Rightarrow> if decoders v ! d then decode d (message_timestamp message) outcome v else v)
       in if decoder v \<noteq> None then decode_now v
          else if \<not> isKeyFrame then requestStreamResync v
          else decode_now (createDecoder created (v\<lparr>resyncRequested := False\<rparr>)))"

section \<open>Pictures\<close>

definition scheduleFrameQueue :: "video \<Rightarrow> video" where
  "scheduleFrameQueue v = (if flushScheduled v then v else v\<lparr>flushScheduled := True, posted := Suc (posted v)\<rparr>)"

definition close_pictures :: "picture list \<Rightarrow> video \<Rightarrow> video" where
  "close_pictures ps v = v\<lparr>released := released v @ map pic ps\<rparr>"

definition handleDecodedFrame :: "nat \<Rightarrow> picture \<Rightarrow> video \<Rightarrow> video" where
  "handleDecodedFrame source p v =
    (let v = v\<lparr>received := received v @ [pic p]\<rparr>
     in if decoder v \<noteq> Some source then close_pictures [p] v
        else
          let q = frameQueue v @ [p];
              excess = length q - maxQueuedFrames;
              v = close_pictures (take excess q) (v\<lparr>frameQueue := drop excess q\<rparr>)
          in if rendering v then v else scheduleFrameQueue (v\<lparr>rendering := True\<rparr>))"

text \<open>The picture is closed whether or not it could be drawn.\<close>

definition renderFrame :: "picture \<Rightarrow> bool \<Rightarrow> int \<Rightarrow> video \<Rightarrow> video \<times> bool" where
  "renderFrame p drawn t v =
    (case canvas v of
       None \<Rightarrow> (close_pictures [p] v, True)
     | Some _ \<Rightarrow>
         if \<not> ctx v then (close_pictures [p] v, True)
         else let s = (displayWidth p, displayHeight p);
             v = close_pictures [p] (v\<lparr>canvas := Some s\<rparr>)
         in if \<not> drawn then (v, False)
            else
              let v = v\<lparr>lastFrameAt := t\<rparr>
              in (if reportedFrame v = s then v else v\<lparr>reportedFrame := s, sizes := sizes v @ [s]\<rparr>, True))"

definition processFrameQueue :: "bool \<Rightarrow> int \<Rightarrow> video \<Rightarrow> video" where
  "processFrameQueue drawn t v =
    (let (v, ok) = (case frameQueue v of
         [] \<Rightarrow> (v, True)
       | p # ps \<Rightarrow> renderFrame p drawn t (v\<lparr>frameQueue := ps\<rparr>))
     in if \<not> ok then resetDecoder (requestStreamResync v)
        else if frameQueue v \<noteq> [] then scheduleFrameQueue v
        else v\<lparr>rendering := False\<rparr>)"

section \<open>Stalls\<close>

definition startStallWatch :: "int \<Rightarrow> video \<Rightarrow> video" where
  "startStallWatch t v =
    (if stallTimer v \<noteq> None then v
     else v\<lparr>lastFrameAt := t, stallStrikes := 0, stallTimer := Some (next_timer v),
            intervals := intervals v @ [next_timer v], next_timer := Suc (next_timer v)\<rparr>)"

definition stopStallWatch :: "video \<Rightarrow> video" where
  "stopStallWatch v =
    (case stallTimer v of
       None \<Rightarrow> v
     | Some k \<Rightarrow> v\<lparr>intervals := removeAll k (intervals v), stallTimer := None\<rparr>)"

definition checkFrameStall :: "int \<Rightarrow> video \<Rightarrow> video" where
  "checkFrameStall t v =
    (case vsocket v of
       None \<Rightarrow> v
     | Some i \<Rightarrow>
         if stopped v \<or> \<not> socket_open v then v
         else if t - lastFrameAt v < frameStallTimeoutMs then v\<lparr>stallStrikes := 0\<rparr>
         else
           let v = v\<lparr>lastFrameAt := t, stallStrikes := Suc (stallStrikes v)\<rparr>
           in if stallStrikes v = 1 then requestStreamResync (v\<lparr>resyncRequested := False\<rparr>)
              else close_socket i v)"

section \<open>Events\<close>

definition onStart :: "(nat \<times> nat) option \<Rightarrow> string option \<Rightarrow> bool \<Rightarrow> bool \<Rightarrow> int \<Rightarrow> video \<Rightarrow> video" where
  "onStart c u drawable created t v =
    (if c = None \<or> u = None \<or> u = Some '''' then v
     else connect created
       ((startStallWatch t (v\<lparr>canvas := c\<rparr>))\<lparr>reportedFrame := (0, 0), ctx := drawable, streamUrl := u, stopped := False\<rparr>))"

definition onStop :: "video \<Rightarrow> video" where
  "onStop v = resetDecoder (disconnect (clearReconnectTimer (stopStallWatch (v\<lparr>stopped := True\<rparr>))))"

definition onopen :: "nat \<Rightarrow> int \<Rightarrow> video \<Rightarrow> video" where
  "onopen i t v =
    (if vsocket v \<noteq> Some i \<or> stopped v then v
     else v\<lparr>reconnectDelayMs := 250, resyncRequested := False, pendingAckTimestamp := None,
            decodeBackpressured := False, lastFrameAt := t, stallStrikes := 0\<rparr>)"

definition onmessage :: "nat \<Rightarrow> byte list \<Rightarrow> bool \<Rightarrow> decoded \<Rightarrow> video \<Rightarrow> video" where
  "onmessage i message created outcome v =
    (if vsocket v \<noteq> Some i \<or> stopped v then v else handleWsMessage message created outcome v)"

definition onerror :: "nat \<Rightarrow> video \<Rightarrow> video" where
  "onerror i v = (if vsocket v = Some i then close_socket i v else v)"

definition onclose :: "nat \<Rightarrow> video \<Rightarrow> video" where
  "onclose i v =
    (if vsocket v \<noteq> Some i then v
     else scheduleReconnect (resetDecoder (v\<lparr>vsocket := None, resyncRequested := False,
       pendingAckTimestamp := None, decodeBackpressured := False\<rparr>)))"

definition decoder_error :: "nat \<Rightarrow> video \<Rightarrow> video" where
  "decoder_error d v =
    (let v = v\<lparr>decoders := (decoders v)[d := False]\<rparr>
     in if decoder v = Some d then resetDecoder (requestStreamResync v) else v)"

definition set_vsocket :: "nat \<Rightarrow> ready_state \<Rightarrow> video \<Rightarrow> video" where
  "set_vsocket i r v = v\<lparr>vsockets := (vsockets v)[i := r]\<rparr>"

datatype video_event =
  Start "(nat \<times> nat) option" "string option" bool bool int | Stop | SockOpens nat int
| SockMessage nat "byte list" bool decoded | SockFails nat | SockCloses nat | ReconnectFires nat bool
| StallTick nat int | Decoded nat picture | DecoderFails nat | Dequeued nat nat | Flush bool int

fun video_step :: "video \<Rightarrow> video_event \<Rightarrow> video" where
  "video_step v (Start c u drawable created t) = onStart c u drawable created t v"
| "video_step v Stop = onStop v"
| "video_step v (SockOpens i t) = onopen i t (set_vsocket i OPEN v)"
| "video_step v (SockMessage i m created outcome) = onmessage i m created outcome v"
| "video_step v (SockFails i) = onerror i v"
| "video_step v (SockCloses i) = onclose i (set_vsocket i CLOSED v)"
| "video_step v (ReconnectFires k created) =
    connect created (v\<lparr>timeouts := removeAll k (timeouts v), reconnectTimer := None\<rparr>)"
| "video_step v (StallTick k t) = checkFrameStall t v"
| "video_step v (Decoded d p) = handleDecodedFrame d p v"
| "video_step v (DecoderFails d) = decoder_error d v"
| "video_step v (Dequeued d queueSize) = releaseDecodeBackpressure d queueSize v"
| "video_step v (Flush drawn t) =
    processFrameQueue drawn t (v\<lparr>posted := posted v - 1, flushScheduled := False\<rparr>)"

fun video_possible :: "video \<Rightarrow> video_event \<Rightarrow> bool" where
  "video_possible v (SockOpens i t) \<longleftrightarrow> i < length (vsockets v) \<and> vsockets v ! i = CONNECTING"
| "video_possible v (ReconnectFires k created) \<longleftrightarrow> k \<in> set (timeouts v)"
| "video_possible v (StallTick k t) \<longleftrightarrow> k \<in> set (intervals v)"
| "video_possible v (Flush drawn t) \<longleftrightarrow> posted v > 0"
| "video_possible v e \<longleftrightarrow> True"

section \<open>Invariant\<close>

definition queue_ok :: "video \<Rightarrow> bool" where
  "queue_ok v \<longleftrightarrow> length (frameQueue v) \<le> 1 \<and> (frameQueue v \<noteq> [] \<longrightarrow> rendering v) \<and>
    (rendering v \<longrightarrow> posted v > 0) \<and> (flushScheduled v \<longrightarrow> posted v > 0) \<and>
    (decoder v = None \<longrightarrow> frameQueue v = []) \<and>
    mset (received v) = mset (map pic (frameQueue v)) + mset (released v)"

definition conn_ok :: "video \<Rightarrow> bool" where
  "conn_ok v \<longleftrightarrow> (\<forall>i. vsocket v = Some i \<longrightarrow> i < length (vsockets v)) \<and>
    (\<forall>j < length (vsockets v). vsocket v \<noteq> Some j \<longrightarrow> dead (vsockets v ! j)) \<and>
    250 \<le> reconnectDelayMs v \<and> reconnectDelayMs v \<le> 5000"

definition decoder_ok :: "video \<Rightarrow> bool" where
  "decoder_ok v \<longleftrightarrow> (\<forall>d. decoder v = Some d \<longrightarrow> d < length (decoders v)) \<and>
    (\<forall>d < length (decoders v). decoder v \<noteq> Some d \<longrightarrow> \<not> decoders v ! d) \<and>
    (decoder v = None \<longrightarrow> pendingAckTimestamp v = None)"

definition stop_ok :: "video \<Rightarrow> bool" where
  "stop_ok v \<longleftrightarrow> (stopped v \<longrightarrow> vsocket v = None \<and> reconnectTimer v = None \<and> decoder v = None \<and> stallTimer v = None)"

text \<open>The timers that are scheduled are the ones the worker remembers and can clear.\<close>

fun remembered :: "nat option \<Rightarrow> nat list" where
  "remembered None = []"
| "remembered (Some k) = [k]"

definition timer_ok :: "video \<Rightarrow> bool" where
  "timer_ok v \<longleftrightarrow> timeouts v = remembered (reconnectTimer v) \<and> intervals v = remembered (stallTimer v)"

definition video_inv :: "video \<Rightarrow> bool" where
  "video_inv v \<longleftrightarrow> queue_ok v \<and> conn_ok v \<and> decoder_ok v \<and> stop_ok v \<and> timer_ok v"

text \<open>Each part of the invariant reads a few fields only.\<close>

lemma queue_ok_cong:
  "queue_ok v \<Longrightarrow> frameQueue w = frameQueue v \<Longrightarrow> rendering w = rendering v \<Longrightarrow> posted w = posted v \<Longrightarrow>
    flushScheduled w = flushScheduled v \<Longrightarrow> (decoder w = None \<Longrightarrow> decoder v = None) \<Longrightarrow>
    received w = received v \<Longrightarrow> released w = released v \<Longrightarrow> queue_ok w"
  by (auto simp: queue_ok_def)

lemma conn_ok_cong:
  "conn_ok v \<Longrightarrow> vsocket w = vsocket v \<Longrightarrow> vsockets w = vsockets v \<Longrightarrow>
    250 \<le> reconnectDelayMs w \<Longrightarrow> reconnectDelayMs w \<le> 5000 \<Longrightarrow> conn_ok w"
  by (simp add: conn_ok_def)

lemma decoder_ok_cong:
  "decoder_ok v \<Longrightarrow> decoder w = decoder v \<Longrightarrow> decoders w = decoders v \<Longrightarrow>
    (pendingAckTimestamp w = pendingAckTimestamp v \<or> decoder v \<noteq> None \<or> pendingAckTimestamp w = None) \<Longrightarrow> decoder_ok w"
  by (auto simp: decoder_ok_def)

lemma stop_ok_cong:
  "stop_ok v \<Longrightarrow> stopped w = stopped v \<Longrightarrow> vsocket w = vsocket v \<Longrightarrow> reconnectTimer w = reconnectTimer v \<Longrightarrow>
    decoder w = decoder v \<Longrightarrow> stallTimer w = stallTimer v \<Longrightarrow> stop_ok w"
  by (simp add: stop_ok_def)

lemma video_inv_cong:
  assumes "video_inv v" "frameQueue w = frameQueue v" "rendering w = rendering v" "posted w = posted v"
    "flushScheduled w = flushScheduled v" "decoder w = decoder v" "received w = received v" "released w = released v"
    "vsocket w = vsocket v" "vsockets w = vsockets v" "reconnectDelayMs w = reconnectDelayMs v"
    "decoders w = decoders v" "pendingAckTimestamp w = pendingAckTimestamp v \<or> decoder v \<noteq> None \<or> pendingAckTimestamp w = None"
    "stopped w = stopped v" "reconnectTimer w = reconnectTimer v" "stallTimer w = stallTimer v"
    "timeouts w = timeouts v" "intervals w = intervals v"
  shows "video_inv w"
  using assms queue_ok_cong [of v w] conn_ok_cong [of v w] decoder_ok_cong [of v w] stop_ok_cong [of v w]
  by (auto simp: video_inv_def conn_ok_def timer_ok_def)

lemma video_inv_resync: "video_inv v \<Longrightarrow> video_inv (requestStreamResync v)"
  by (erule video_inv_cong) (simp_all add: requestStreamResync_def split: option.split)

lemma video_inv_ack: "video_inv v \<Longrightarrow> video_inv (acknowledgeFrame t v)"
  by (erule video_inv_cong) (simp_all add: acknowledgeFrame_def split: option.split)

lemma acknowledge_fields:
  "decoder (acknowledgeFrame t v) = decoder v" "pendingAckTimestamp (acknowledgeFrame t v) = pendingAckTimestamp v"
  by (simp_all add: acknowledgeFrame_def split: option.split)

lemma resync_fields:
  "decoder (requestStreamResync v) = decoder v" "vsocket (requestStreamResync v) = vsocket v"
  "vsockets (requestStreamResync v) = vsockets v" "stopped (requestStreamResync v) = stopped v"
  "decoders (requestStreamResync v) = decoders v"
  by (simp_all add: requestStreamResync_def split: option.split)

lemma video_inv_release: "video_inv v \<Longrightarrow> video_inv (releaseDecodeBackpressure d n v)"
proof -
  assume v: "video_inv v"
  have "video_inv (acknowledgeFrame t (v\<lparr>decodeBackpressured := False\<rparr>)\<lparr>pendingAckTimestamp := None\<rparr>)" for t
    by (rule video_inv_cong [OF video_inv_ack [OF video_inv_cong [OF v, of "v\<lparr>decodeBackpressured := False\<rparr>"]]]) simp_all
  with v show ?thesis by (simp add: releaseDecodeBackpressure_def split: option.split)
qed

lemma video_inv_reset: "video_inv v \<Longrightarrow> video_inv (resetDecoder v)"
  by (auto simp: video_inv_def queue_ok_def conn_ok_def decoder_ok_def stop_ok_def timer_ok_def resetDecoder_def nth_list_update
      split: option.split)

lemma video_inv_decode:
  assumes "video_inv v" "decoder v = Some d"
  shows "video_inv (decode d ts outcome v)"
proof -
  have "video_inv (v\<lparr>pendingAckTimestamp := Some ts\<rparr>)"
    "video_inv (v\<lparr>pendingAckTimestamp := Some ts, decodeBackpressured := True\<rparr>)"
    by (rule video_inv_cong [OF assms(1)]; use assms(2) in simp)+
  with assms show ?thesis
    by (simp add: decode_def Let_def video_inv_release video_inv_reset video_inv_resync split: decoded.split)
qed

lemma video_inv_create:
  assumes "video_inv v" "decoder v = None" "\<not> stopped v"
  shows "video_inv (createDecoder created v)"
proof (cases created)
  case True
  with assms show ?thesis
    by (auto simp: createDecoder_def video_inv_def queue_ok_def conn_ok_def decoder_ok_def stop_ok_def timer_ok_def
        nth_append less_Suc_eq)
qed (use assms in \<open>simp add: createDecoder_def video_inv_resync\<close>)

lemma video_inv_message:
  assumes "video_inv v" "\<not> stopped v"
  shows "video_inv (handleWsMessage m created outcome v)"
proof -
  have now: "video_inv (case decoder w of None \<Rightarrow> w
      | Some d \<Rightarrow> if decoders w ! d then decode d ts outcome w else w)" if "video_inv w" for w ts
    using that video_inv_decode by (simp split: option.split)
  have "video_inv (v\<lparr>resyncRequested := False\<rparr>)" by (rule video_inv_cong [OF assms(1)]) simp_all
  then have "decoder v = None \<Longrightarrow> video_inv (createDecoder created (v\<lparr>resyncRequested := False\<rparr>))"
    using assms(2) by (simp add: video_inv_create)
  with assms(1) now show ?thesis
    by (simp add: handleWsMessage_def Let_def video_inv_resync)
qed

lemma video_inv_decoded: "video_inv v \<Longrightarrow> video_inv (handleDecodedFrame d p v)"
proof (cases "decoder v = Some d")
  case True
  assume v: "video_inv v"
  then have "length (frameQueue v) \<le> 1" by (simp add: video_inv_def queue_ok_def)
  then have q: "frameQueue v = [] \<or> (\<exists>x. frameQueue v = [x])" by (cases "frameQueue v") auto
  from v True q show ?thesis
    by (elim disjE exE) (auto simp: handleDecodedFrame_def Let_def close_pictures_def scheduleFrameQueue_def
        maxQueuedFrames_def video_inv_def queue_ok_def conn_ok_def decoder_ok_def stop_ok_def timer_ok_def)
qed (auto simp: handleDecodedFrame_def Let_def close_pictures_def video_inv_def queue_ok_def conn_ok_def
    decoder_ok_def stop_ok_def timer_ok_def)

lemma renderFrame_fields:
  assumes "renderFrame p drawn t v = (w, ok)"
  shows "frameQueue w = frameQueue v" "rendering w = rendering v" "posted w = posted v"
    "flushScheduled w = flushScheduled v" "decoder w = decoder v" "received w = received v"
    "released w = released v @ [pic p]" "vsocket w = vsocket v" "vsockets w = vsockets v"
    "reconnectDelayMs w = reconnectDelayMs v" "decoders w = decoders v"
    "pendingAckTimestamp w = pendingAckTimestamp v" "stopped w = stopped v"
    "reconnectTimer w = reconnectTimer v" "stallTimer w = stallTimer v"
    "timeouts w = timeouts v" "intervals w = intervals v"
  using assms by (auto simp: renderFrame_def close_pictures_def Let_def split: option.splits if_splits)

text \<open>
  The queue is drained by the message that is being handled: at that moment the worker may be
  rendering with no further message under way.
\<close>

lemma video_inv_process:
  assumes "video_inv v" "posted v > 0"
  shows "video_inv (processFrameQueue drawn t (v\<lparr>posted := posted v - 1, flushScheduled := False\<rparr>))"
proof (cases "frameQueue v")
  case Nil
  with assms show ?thesis
    by (simp add: processFrameQueue_def video_inv_def queue_ok_def conn_ok_def decoder_ok_def stop_ok_def timer_ok_def)
next
  case (Cons p ps)
  with assms have ps: "ps = []" by (simp add: video_inv_def queue_ok_def)
  let ?v = "v\<lparr>posted := posted v - 1, flushScheduled := False, frameQueue := []\<rparr>"
  obtain w ok where w: "renderFrame p drawn t ?v = (w, ok)" by (cases "renderFrame p drawn t ?v")
  note f = renderFrame_fields [OF w]
  have inv: "video_inv (w\<lparr>rendering := False\<rparr>)"
    using assms Cons ps f by (auto simp: video_inv_def queue_ok_def conn_ok_def decoder_ok_def stop_ok_def timer_ok_def)
  have "resetDecoder (requestStreamResync w) = resetDecoder (requestStreamResync (w\<lparr>rendering := False\<rparr>))"
    by (simp add: resetDecoder_def requestStreamResync_def socket_open_def split: option.split)
  then have "video_inv (resetDecoder (requestStreamResync w))"
    using inv by (simp add: video_inv_reset video_inv_resync)
  with inv w f Cons ps show ?thesis by (simp add: processFrameQueue_def)
qed

lemma video_inv_schedule: "video_inv v \<Longrightarrow> video_inv (scheduleReconnect v)"
  using conn_ok_cong [of v "scheduleReconnect v"] queue_ok_cong [of v "scheduleReconnect v"]
    decoder_ok_cong [of v "scheduleReconnect v"]
  by (auto simp: video_inv_def scheduleReconnect_def conn_ok_def stop_ok_def timer_ok_def maxReconnectDelayMs_def)

lemma conn_ok_new:
  "conn_ok v \<Longrightarrow> vsocket v = None \<Longrightarrow>
    conn_ok (v\<lparr>vsocket := Some (length (vsockets v)), vsockets := vsockets v @ [CONNECTING]\<rparr>)"
  by (auto simp: conn_ok_def nth_append less_Suc_eq)

lemma video_inv_connect: "video_inv v \<Longrightarrow> video_inv (connect created v)"
proof (cases "stopped v \<or> streamUrl v = None \<or> vsocket v \<noteq> None \<or> \<not> created")
  case False
  let ?w = "v\<lparr>vsocket := Some (length (vsockets v)), vsockets := vsockets v @ [CONNECTING]\<rparr>"
  assume v: "video_inv v"
  have "conn_ok ?w" using v False by (simp add: video_inv_def conn_ok_new)
  moreover have "queue_ok ?w" using v by (auto simp: video_inv_def intro: queue_ok_cong)
  moreover have "decoder_ok ?w" using v by (auto simp: video_inv_def intro: decoder_ok_cong)
  ultimately show ?thesis using v False by (auto simp: connect_def video_inv_def stop_ok_def timer_ok_def)
qed (auto simp: connect_def video_inv_schedule)

lemma video_inv_socket_state:
  "video_inv v \<Longrightarrow> (i < length (vsockets v) \<Longrightarrow> vsocket v \<noteq> Some i \<Longrightarrow> dead r) \<Longrightarrow> video_inv (set_vsocket i r v)"
  by (cases "i < length (vsockets v)")
    (auto simp: set_vsocket_def video_inv_def queue_ok_def conn_ok_def decoder_ok_def stop_ok_def timer_ok_def nth_list_update)

lemma video_inv_close_socket: "video_inv v \<Longrightarrow> video_inv (close_socket i v)"
  using video_inv_socket_state [of v i CLOSING] by (simp add: close_socket_def set_vsocket_def)

lemma video_inv_onopen: "video_inv v \<Longrightarrow> video_inv (onopen i t v)"
  by (auto simp: onopen_def video_inv_def queue_ok_def conn_ok_def decoder_ok_def stop_ok_def timer_ok_def)

lemma video_inv_onclose:
  assumes "video_inv v" "vsocket v = Some i \<Longrightarrow> dead (vsockets v ! i)"
  shows "video_inv (onclose i v)"
proof (cases "vsocket v = Some i")
  case True
  with assms have "video_inv (v\<lparr>vsocket := None, resyncRequested := False, pendingAckTimestamp := None,
      decodeBackpressured := False\<rparr>)"
    by (auto simp: video_inv_def queue_ok_def conn_ok_def decoder_ok_def stop_ok_def timer_ok_def)
  with True show ?thesis by (simp add: onclose_def video_inv_schedule video_inv_reset)
qed (use assms in \<open>simp add: onclose_def\<close>)

lemma video_inv_start:
  assumes "video_inv v"
  shows "video_inv (onStart c u drawable created t v)"
proof -
  let ?w = "(startStallWatch t (v\<lparr>canvas := c\<rparr>))\<lparr>reportedFrame := (0, 0), ctx := drawable, streamUrl := u, stopped := False\<rparr>"
  have "queue_ok ?w" using assms by (auto simp: video_inv_def startStallWatch_def intro: queue_ok_cong)
  moreover have "conn_ok ?w" using assms by (auto simp: video_inv_def conn_ok_def startStallWatch_def)
  moreover have "decoder_ok ?w" using assms by (auto simp: video_inv_def startStallWatch_def intro: decoder_ok_cong)
  moreover have "timer_ok ?w" using assms by (auto simp: video_inv_def timer_ok_def startStallWatch_def)
  ultimately have "video_inv ?w" by (simp add: video_inv_def stop_ok_def)
  with assms show ?thesis by (simp add: onStart_def video_inv_connect)
qed

lemma timer_ok_clear:
  "timer_ok v \<Longrightarrow> timer_ok (clearReconnectTimer v)" "timer_ok v \<Longrightarrow> timer_ok (stopStallWatch v)"
  by (auto simp: timer_ok_def clearReconnectTimer_def stopStallWatch_def split: option.split)

lemma timers_cleared:
  "reconnectTimer (clearReconnectTimer v) = None" "stallTimer (stopStallWatch v) = None"
  "stallTimer (clearReconnectTimer v) = stallTimer v"
  by (simp_all add: clearReconnectTimer_def stopStallWatch_def split: option.split)

lemma clear_parts:
  "queue_ok v \<Longrightarrow> queue_ok (clearReconnectTimer (stopStallWatch (v\<lparr>stopped := b\<rparr>)))"
  "conn_ok v \<Longrightarrow> conn_ok (clearReconnectTimer (stopStallWatch (v\<lparr>stopped := b\<rparr>)))"
  "decoder_ok v \<Longrightarrow> decoder_ok (clearReconnectTimer (stopStallWatch (v\<lparr>stopped := b\<rparr>)))"
  by (auto simp: clearReconnectTimer_def stopStallWatch_def conn_ok_def elim!: queue_ok_cong decoder_ok_cong
      split: option.split)

lemma stop_parts:
  assumes "conn_ok v" "decoder_ok v" "queue_ok v" "timer_ok v"
  shows "queue_ok (resetDecoder (disconnect v))" "conn_ok (resetDecoder (disconnect v))"
    "decoder_ok (resetDecoder (disconnect v))" "timer_ok (resetDecoder (disconnect v))"
  using assms
  by (auto simp: disconnect_def close_socket_def resetDecoder_def queue_ok_def conn_ok_def decoder_ok_def
      timer_ok_def nth_list_update split: option.split)

lemma video_inv_stop:
  assumes "video_inv v"
  shows "video_inv (onStop v)"
proof -
  let ?w = "clearReconnectTimer (stopStallWatch (v\<lparr>stopped := True\<rparr>))"
  have "timer_ok (v\<lparr>stopped := True\<rparr>)" using assms by (simp add: video_inv_def timer_ok_def)
  then have "timer_ok ?w" by (intro timer_ok_clear)
  then have "queue_ok (onStop v)" "conn_ok (onStop v)" "decoder_ok (onStop v)" "timer_ok (onStop v)"
    using assms clear_parts unfolding onStop_def video_inv_def by (simp_all add: stop_parts)
  moreover have "vsocket (resetDecoder (disconnect w)) = None" "decoder (resetDecoder (disconnect w)) = None"
    "reconnectTimer (resetDecoder (disconnect w)) = reconnectTimer w"
    "stallTimer (resetDecoder (disconnect w)) = stallTimer w" for w
    by (simp_all add: disconnect_def close_socket_def resetDecoder_def split: option.split)
  ultimately show ?thesis by (simp add: video_inv_def stop_ok_def onStop_def timers_cleared)
qed

lemma video_inv_stall: "video_inv v \<Longrightarrow> video_inv (checkFrameStall t v)"
proof -
  assume v: "video_inv v"
  have "video_inv (v\<lparr>lastFrameAt := a, stallStrikes := n, resyncRequested := b\<rparr>)" "video_inv (v\<lparr>stallStrikes := n\<rparr>)"
    "video_inv (v\<lparr>lastFrameAt := a, stallStrikes := n\<rparr>)" for a n b
    by (rule video_inv_cong [OF v]; simp)+
  with v show ?thesis
    by (auto simp: checkFrameStall_def Let_def video_inv_resync video_inv_close_socket split: option.split)
qed

lemma video_inv_decoder_error: "video_inv v \<Longrightarrow> video_inv (decoder_error d v)"
proof -
  assume v: "video_inv v"
  have "decoder_ok (v\<lparr>decoders := (decoders v)[d := False]\<rparr>)"
    using v by (cases "d < length (decoders v)") (auto simp: video_inv_def decoder_ok_def nth_list_update)
  with v have "video_inv (v\<lparr>decoders := (decoders v)[d := False]\<rparr>)"
    by (simp add: video_inv_def queue_ok_def conn_ok_def stop_ok_def timer_ok_def)
  then show ?thesis by (simp add: decoder_error_def Let_def video_inv_reset video_inv_resync)
qed

lemma video_inv_step:
  assumes "video_inv v" "video_possible v e"
  shows "video_inv (video_step v e)"
proof (cases e)
  case (SockOpens i t)
  with assms have "vsocket v = Some i" by (auto simp: video_inv_def conn_ok_def)
  with SockOpens assms show ?thesis by (auto intro!: video_inv_onopen video_inv_socket_state)
next
  case (SockCloses i)
  have "vsocket v = Some i \<Longrightarrow> i < length (vsockets v)" using assms(1) by (simp add: video_inv_def conn_ok_def)
  then have "vsocket (set_vsocket i CLOSED v) = Some i \<Longrightarrow> dead (vsockets (set_vsocket i CLOSED v) ! i)"
    by (simp add: set_vsocket_def)
  with SockCloses assms show ?thesis by (simp add: video_inv_onclose video_inv_socket_state)
next
  case (ReconnectFires k created)
  with assms have "reconnectTimer v = Some k"
    by (cases "reconnectTimer v") (auto simp: video_inv_def timer_ok_def)
  then have "video_inv (v\<lparr>timeouts := removeAll k (timeouts v), reconnectTimer := None\<rparr>)"
    using assms(1) by (auto simp: video_inv_def queue_ok_def conn_ok_def decoder_ok_def stop_ok_def timer_ok_def)
  with ReconnectFires show ?thesis by (simp add: video_inv_connect)
next
  case (SockMessage i m created outcome)
  with assms show ?thesis by (simp add: onmessage_def video_inv_message)
next
  case (Flush drawn t)
  with assms video_inv_process [of v drawn t] show ?thesis by simp
qed (use assms in \<open>simp_all add: video_inv_start video_inv_stop onerror_def video_inv_close_socket video_inv_stall
  video_inv_decoded video_inv_decoder_error video_inv_release\<close>)

lemma video_inv_new: "video_inv new_video"
  by (simp add: video_inv_def queue_ok_def conn_ok_def decoder_ok_def stop_ok_def timer_ok_def new_video_def)

interpretation video_worker: guarded_machine new_video video_possible video_step video_inv
  by unfold_locales (auto intro: video_inv_new video_inv_step)

section \<open>Properties\<close>

text \<open>
  C10: Every picture the decoders delivered is closed exactly once or is the one picture waiting to be
  drawn; a waiting picture has a message under way that will take it from the queue; only the
  current socket is connecting or open, only the current decoder is configured; the time-outs and
  intervals that are scheduled are the reconnect timer and the stall timer the worker remembers,
  hence at most one of each; and the reconnect delay stays between a quarter of a second and five
  seconds.
\<close>

theorem video_pictures_accounted:
  assumes "run_allowed video_possible video_step new_video es" and v: "v = foldl video_step new_video es"
  shows "mset (received v) = mset (map pic (frameQueue v)) + mset (released v) \<and>
    length (frameQueue v) \<le> 1 \<and>
    (frameQueue v \<noteq> [] \<longrightarrow> posted v > 0 \<and> frameQueue (video_step v (Flush drawn t)) = []) \<and>
    (\<forall>j < length (vsockets v). vsockets v ! j \<in> {CONNECTING, OPEN} \<longrightarrow> vsocket v = Some j) \<and>
    (\<forall>d < length (decoders v). decoders v ! d \<longrightarrow> decoder v = Some d) \<and>
    timeouts v = remembered (reconnectTimer v) \<and> length (timeouts v) \<le> 1 \<and>
    intervals v = remembered (stallTimer v) \<and> length (intervals v) \<le> 1 \<and>
    250 \<le> reconnectDelayMs v \<and> reconnectDelayMs v \<le> 5000"
proof -
  have inv: "video_inv v" unfolding v by (rule video_worker.inv_run [OF assms(1)])
  have "frameQueue (video_step v (Flush drawn t)) = []" if "frameQueue v \<noteq> []"
  proof -
    from inv that obtain p where p: "frameQueue v = [p]"
      by (cases "frameQueue v") (auto simp: video_inv_def queue_ok_def)
    let ?v = "v\<lparr>posted := posted v - 1, flushScheduled := False, frameQueue := []\<rparr>"
    obtain w ok where w: "renderFrame p drawn t ?v = (w, ok)" by (cases "renderFrame p drawn t ?v")
    with p renderFrame_fields(1) [OF w] show ?thesis
      by (simp add: processFrameQueue_def resetDecoder_def)
  qed
  moreover have "vsocket v = Some j" if "j < length (vsockets v)" "vsockets v ! j \<in> {CONNECTING, OPEN}" for j
    using inv that by (auto simp: video_inv_def conn_ok_def)
  moreover have "decoder v = Some d" if "d < length (decoders v)" "decoders v ! d" for d
    using inv that by (auto simp: video_inv_def decoder_ok_def)
  moreover have "frameQueue v \<noteq> [] \<longrightarrow> posted v > 0" using inv by (simp add: video_inv_def queue_ok_def)
  moreover have "timeouts v = remembered (reconnectTimer v)" "intervals v = remembered (stallTimer v)"
    using inv by (simp_all add: video_inv_def timer_ok_def)
  moreover have "length (remembered x) \<le> 1" for x by (cases x) simp_all
  ultimately show ?thesis using inv unfolding video_inv_def queue_ok_def conn_ok_def by metis
qed

definition video_session :: "video_event list" where
  "video_session = [Start (Some (0, 0)) (Some ''ws'') True True 0, SockOpens 0 10,
    SockMessage 0 [1, 7, 0, 0, 0, 0, 0, 0, 0, 42] True (Accepted 1),
    Decoded 0 \<lparr>pic = 1, displayWidth = 640, displayHeight = 480\<rparr>,
    Decoded 0 \<lparr>pic = 2, displayWidth = 640, displayHeight = 480\<rparr>]"

lemmas video_eval = video_session_def new_video_def onStart_def startStallWatch_def connect_def onopen_def set_vsocket_def
  onmessage_def handleWsMessage_def createDecoder_def decode_def message_timestamp_def Number_of_nat_def
  be_val_def buf_read_def MAX_SAFE_INTEGER_def releaseDecodeBackpressure_def acknowledgeFrame_def socket_open_def
  decoderHighWatermark_def handleDecodedFrame_def close_pictures_def scheduleFrameQueue_def maxQueuedFrames_def
  frameAckMessage_def Let_def

theorem video_pictures_accounted_witness:
  "length (frameQueue (foldl video_step new_video video_session)) \<le> 1 \<and>
    released (foldl video_step new_video video_session) = [1]"
proof -
  have "run_allowed video_possible video_step new_video video_session" by (simp add: video_eval)
  note video_pictures_accounted [OF this refl]
  moreover have "released (foldl video_step new_video video_session) = [1]" by (simp add: video_eval)
  ultimately show ?thesis by blast
qed

lemma stopped_kept:
  "stopped (requestStreamResync v) = stopped v" "stopped (acknowledgeFrame ts v) = stopped v"
  "stopped (resetDecoder v) = stopped v" "stopped (close_socket i v) = stopped v"
  "stopped (releaseDecodeBackpressure d n v) = stopped v" "stopped (scheduleFrameQueue v) = stopped v"
  "stopped (scheduleReconnect v) = stopped v" "stopped (connect created v) = stopped v"
  "stopped (fst (renderFrame p drawn t v)) = stopped v"
  by (simp_all add: requestStreamResync_def acknowledgeFrame_def resetDecoder_def close_socket_def
      releaseDecodeBackpressure_def scheduleFrameQueue_def scheduleReconnect_def connect_def renderFrame_def
      close_pictures_def Let_def split: option.split)

lemma stopped_process: "stopped (processFrameQueue drawn t v) = stopped v"
  by (simp add: processFrameQueue_def case_prod_unfold Let_def stopped_kept split: list.split)

fun is_start :: "video_event \<Rightarrow> bool" where
  "is_start (Start c u d b t) = True"
| "is_start e = False"

lemma stopped_step:
  "stopped v \<Longrightarrow> \<not> is_start e \<Longrightarrow> stopped (video_step v e)"
  by (cases e) (simp_all add: onStop_def disconnect_def clearReconnectTimer_def stopStallWatch_def onopen_def
      set_vsocket_def onmessage_def onerror_def onclose_def checkFrameStall_def handleDecodedFrame_def
      close_pictures_def decoder_error_def Let_def stopped_kept stopped_process split: option.split)

lemma stopped_run:
  "stopped v \<Longrightarrow> list_all (\<lambda>e. \<not> is_start e) es \<Longrightarrow> stopped (foldl video_step v es)"
 by (induction es arbitrary: v) (simp_all del: video_step.simps add: stopped_step)

lemma stopped_quiet:
  "video_inv v \<Longrightarrow> stopped v \<Longrightarrow> vsocket v = None \<and> reconnectTimer v = None \<and> timeouts v = [] \<and> stallTimer v = None \<and>
    intervals v = [] \<and> decoder v = None \<and>
    (\<forall>j < length (vsockets v). dead (vsockets v ! j)) \<and> mset (released v) = mset (received v)"
  by (auto simp: video_inv_def stop_ok_def timer_ok_def conn_ok_def queue_ok_def)

text \<open>
  C37: Once the page has stopped the worker, and until it starts it again, there is no socket that is
  connecting or open, no reconnect or stall timer held or scheduled, no decoder, and every picture that was or still
  is delivered has been closed.
\<close>

theorem video_stop_releases:
  assumes "run_allowed video_possible video_step new_video (es @ Stop # es')" "list_all (\<lambda>e. \<not> is_start e) es'"
    and v: "v = foldl video_step new_video (es @ Stop # es')"
  shows "vsocket v = None \<and> reconnectTimer v = None \<and> timeouts v = [] \<and> stallTimer v = None \<and>
    intervals v = [] \<and> decoder v = None \<and>
    (\<forall>j < length (vsockets v). dead (vsockets v ! j)) \<and> mset (released v) = mset (received v)"
proof (rule stopped_quiet)
  show "video_inv v" unfolding v by (rule video_worker.inv_run [OF assms(1)])
  have "stopped (video_step w Stop)" for w
    by (simp add: onStop_def resetDecoder_def disconnect_def close_socket_def clearReconnectTimer_def
        stopStallWatch_def split: option.split)
  then show "stopped v" unfolding v using stopped_run [OF _ assms(2)] by simp
qed

theorem video_stop_releases_witness:
  "mset (released (foldl video_step new_video (video_session @ [Stop, Decoded 0 \<lparr>pic = 3, displayWidth = 1, displayHeight = 1\<rparr>])))
    = mset (received (foldl video_step new_video (video_session @ [Stop, Decoded 0 \<lparr>pic = 3, displayWidth = 1, displayHeight = 1\<rparr>])))"
proof -
  let ?p = "\<lparr>pic = 3, displayWidth = 1, displayHeight = 1\<rparr>"
  have "run_allowed video_possible video_step new_video (video_session @ [Stop, Decoded 0 ?p])"
    by (simp add: video_eval)
  from video_stop_releases [OF this _ refl] show ?thesis by simp
qed

text \<open>
  The clock: the time an event carries does not run backwards, and the stall check runs at least
  every four seconds (its interval is one second).
\<close>

fun event_time :: "video_event \<Rightarrow> int option" where
  "event_time (Start c u d b t) = Some t"
| "event_time (SockOpens i t) = Some t"
| "event_time (StallTick k t) = Some t"
| "event_time (Flush drawn t) = Some t"
| "event_time e = None"

fun is_tick :: "video_event \<Rightarrow> bool" where
  "is_tick (StallTick k t) = True"
| "is_tick e = False"

fun timely :: "int \<Rightarrow> int \<Rightarrow> video_event list \<Rightarrow> bool" where
  "timely now tick [] = True"
| "timely now tick (e # es) =
    (case event_time e of
       None \<Rightarrow> timely now tick es
     | Some t \<Rightarrow> now \<le> t \<and> (if is_tick e then t - tick < 4000 \<and> timely t t es else timely t tick es))"

text \<open>While the socket is open, the last remedy was tried no earlier than the last check.\<close>

definition one_strike :: "int \<Rightarrow> int \<Rightarrow> video \<Rightarrow> bool" where
  "one_strike now tick v \<longleftrightarrow> tick \<le> now \<and> stallStrikes v \<le> 1 \<and> (stallStrikes v = 1 \<longrightarrow> socket_open v \<longrightarrow> tick \<le> lastFrameAt v)"

lemma clock_kept:
  "lastFrameAt (requestStreamResync v) = lastFrameAt v" "stallStrikes (requestStreamResync v) = stallStrikes v"
  "lastFrameAt (acknowledgeFrame ts v) = lastFrameAt v" "stallStrikes (acknowledgeFrame ts v) = stallStrikes v"
  "lastFrameAt (resetDecoder v) = lastFrameAt v" "stallStrikes (resetDecoder v) = stallStrikes v"
  "lastFrameAt (close_socket i v) = lastFrameAt v" "stallStrikes (close_socket i v) = stallStrikes v"
  "lastFrameAt (releaseDecodeBackpressure d n v) = lastFrameAt v"
  "stallStrikes (releaseDecodeBackpressure d n v) = stallStrikes v"
  "lastFrameAt (scheduleFrameQueue v) = lastFrameAt v" "stallStrikes (scheduleFrameQueue v) = stallStrikes v"
  "lastFrameAt (scheduleReconnect v) = lastFrameAt v" "stallStrikes (scheduleReconnect v) = stallStrikes v"
  "lastFrameAt (connect created v) = lastFrameAt v" "stallStrikes (connect created v) = stallStrikes v"
  by (simp_all add: requestStreamResync_def acknowledgeFrame_def resetDecoder_def close_socket_def
      releaseDecodeBackpressure_def scheduleFrameQueue_def scheduleReconnect_def connect_def split: option.split)

lemma clock_decode:
  "lastFrameAt (decode d ts outcome v) = lastFrameAt v" "stallStrikes (decode d ts outcome v) = stallStrikes v"
  "lastFrameAt (createDecoder b v) = lastFrameAt v" "stallStrikes (createDecoder b v) = stallStrikes v"
  by (simp_all add: decode_def createDecoder_def Let_def clock_kept split: decoded.split)

lemma clock_message:
  "lastFrameAt (handleWsMessage m b outcome v) = lastFrameAt v"
  "stallStrikes (handleWsMessage m b outcome v) = stallStrikes v"
  by (simp_all add: handleWsMessage_def Let_def clock_kept clock_decode split: option.split)

lemma clock_process:
  "stallStrikes (processFrameQueue drawn t v) = stallStrikes v"
  "lastFrameAt (processFrameQueue drawn t v) = lastFrameAt v \<or> lastFrameAt (processFrameQueue drawn t v) = t"
  by (auto simp: processFrameQueue_def renderFrame_def close_pictures_def Let_def clock_kept
      split: list.split option.split)

lemma open_fields [simp]:
  "socket_open (v\<lparr>pendingAckTimestamp := x0\<rparr>) = socket_open v" "socket_open (v\<lparr>decodeBackpressured := x1\<rparr>) = socket_open v"
  "socket_open (v\<lparr>resyncRequested := x2\<rparr>) = socket_open v" "socket_open (v\<lparr>decoder := x3\<rparr>) = socket_open v"
  "socket_open (v\<lparr>decoders := x4\<rparr>) = socket_open v" "socket_open (v\<lparr>frameQueue := x5\<rparr>) = socket_open v"
  "socket_open (v\<lparr>lastFrameAt := x6\<rparr>) = socket_open v" "socket_open (v\<lparr>stallStrikes := x7\<rparr>) = socket_open v"
  "socket_open (v\<lparr>canvas := x8\<rparr>) = socket_open v" "socket_open (v\<lparr>rendering := x9\<rparr>) = socket_open v"
  "socket_open (v\<lparr>flushScheduled := x10\<rparr>) = socket_open v" "socket_open (v\<lparr>posted := x11\<rparr>) = socket_open v"
  "socket_open (v\<lparr>released := x12\<rparr>) = socket_open v" "socket_open (v\<lparr>received := x13\<rparr>) = socket_open v"
  "socket_open (v\<lparr>reportedFrame := x14\<rparr>) = socket_open v" "socket_open (v\<lparr>sizes := x15\<rparr>) = socket_open v"
  "socket_open (v\<lparr>sent := x16\<rparr>) = socket_open v" "socket_open (v\<lparr>streamUrl := x17\<rparr>) = socket_open v"
  "socket_open (v\<lparr>stopped := x18\<rparr>) = socket_open v" "socket_open (v\<lparr>reconnectDelayMs := x19\<rparr>) = socket_open v"
  "socket_open (v\<lparr>timeouts := x22\<rparr>) = socket_open v" "socket_open (v\<lparr>intervals := x23\<rparr>) = socket_open v"
  "socket_open (v\<lparr>next_timer := x24\<rparr>) = socket_open v" "socket_open (v\<lparr>ctx := x25\<rparr>) = socket_open v"
  "socket_open (v\<lparr>reconnectTimer := x20\<rparr>) = socket_open v" "socket_open (v\<lparr>stallTimer := x21\<rparr>) = socket_open v"
  by (simp_all add: socket_open_def cong: option.case_cong)

lemma open_kept:
  "socket_open (requestStreamResync v) = socket_open v" "socket_open (acknowledgeFrame ts v) = socket_open v"
  "socket_open (resetDecoder v) = socket_open v" "socket_open (scheduleFrameQueue v) = socket_open v"
  "socket_open (releaseDecodeBackpressure d n v) = socket_open v" "socket_open (scheduleReconnect v) = socket_open v"
  by (simp_all add: requestStreamResync_def acknowledgeFrame_def resetDecoder_def scheduleFrameQueue_def
      releaseDecodeBackpressure_def scheduleReconnect_def socket_open_def split: option.split)

lemma open_decode:
  "socket_open (decode d ts outcome v) = socket_open v" "socket_open (createDecoder b v) = socket_open v"
  by (simp_all add: decode_def createDecoder_def Let_def open_kept split: decoded.split)

lemma open_message: "socket_open (handleWsMessage m b outcome v) = socket_open v"
  by (simp add: handleWsMessage_def Let_def open_kept open_decode split: option.split)

lemma open_process: "socket_open (processFrameQueue drawn t v) = socket_open v"
  by (auto simp: processFrameQueue_def renderFrame_def close_pictures_def Let_def open_kept
      split: list.split option.split)

lemma open_close: "socket_open (close_socket i v) \<Longrightarrow> socket_open v"
  by (cases "vsocket v"; cases "i < length (vsockets v)")
    (auto simp: socket_open_def close_socket_def nth_list_update list_update_beyond split: if_splits)

lemma open_connect: "socket_open (connect b v) \<Longrightarrow> socket_open v"
  by (simp add: connect_def open_kept split: if_splits) (simp add: socket_open_def)

lemma one_strikeI:
  "one_strike now tick v \<Longrightarrow> now \<le> now' \<Longrightarrow> stallStrikes w = stallStrikes v \<Longrightarrow> (socket_open w \<Longrightarrow> socket_open v) \<Longrightarrow>
    lastFrameAt w = lastFrameAt v \<or> lastFrameAt w = now' \<Longrightarrow> one_strike now' tick w"
  by (auto simp: one_strike_def)

lemma one_strike_tick:
  assumes "one_strike now tick v" "now \<le> t" "t - tick < 4000" "video_inv v"
  shows "one_strike t t (checkFrameStall t v)" "vsockets (checkFrameStall t v) = vsockets v"
proof -
  have s: "stallStrikes v = 0 \<or> stallStrikes v = 1 \<and> (socket_open v \<longrightarrow> t - lastFrameAt v < 4000)"
    using assms by (auto simp: one_strike_def)
  show "vsockets (checkFrameStall t v) = vsockets v"
    using s by (auto simp: checkFrameStall_def Let_def frameStallTimeoutMs_def resync_fields split: option.split)
  show "one_strike t t (checkFrameStall t v)"
    using s assms(4) by (auto simp: checkFrameStall_def Let_def frameStallTimeoutMs_def one_strike_def clock_kept
        socket_open_def video_inv_def stop_ok_def timer_ok_def split: option.split)
qed

lemma one_strike_opens:
  assumes "one_strike now tick v" "now \<le> t" "video_inv v"
  shows "one_strike t tick (onopen i t (set_vsocket i OPEN v))"
proof (cases "vsocket v = Some i")
  case True
  with assms have "\<not> stopped v" by (auto simp: video_inv_def stop_ok_def timer_ok_def)
  with True assms show ?thesis by (simp add: onopen_def set_vsocket_def one_strike_def)
next
  case False
  then have "socket_open (set_vsocket i OPEN v) = socket_open v"
    by (auto simp: socket_open_def set_vsocket_def split: option.split)
  with False assms(1,2) show ?thesis
    by (auto simp: onopen_def set_vsocket_def elim!: one_strikeI)
qed

lemma one_strike_other:
  assumes "one_strike now tick v" "event_time e = None"
  shows "one_strike now tick (video_step v e)"
proof (cases e)
  case Stop
  have "vsocket (onStop v) = None" "stallStrikes (onStop v) = stallStrikes v" "lastFrameAt (onStop v) = lastFrameAt v"
    by (simp_all add: onStop_def disconnect_def clearReconnectTimer_def stopStallWatch_def clock_kept
        resetDecoder_def close_socket_def split: option.split)
  with Stop assms(1) show ?thesis by (auto elim!: one_strikeI simp: socket_open_def)
next
  case (SockCloses i)
  have "socket_open (onclose i (set_vsocket i CLOSED v)) \<Longrightarrow> socket_open v"
    by (cases "vsocket v = Some i"; cases "vsocket v")
      (simp_all add: onclose_def open_kept set_vsocket_def, simp_all add: socket_open_def)
  with SockCloses assms(1) show ?thesis
    by (auto elim!: one_strikeI simp: onclose_def clock_kept set_vsocket_def)
next
  case (Decoded d p)
  with assms(1) show ?thesis
    by (auto elim!: one_strikeI simp: handleDecodedFrame_def Let_def close_pictures_def clock_kept open_kept)
next
  case (ReconnectFires k b)
  with assms(1) open_connect [of b "v\<lparr>timeouts := removeAll k (timeouts v), reconnectTimer := None\<rparr>"] show ?thesis
    by (auto elim!: one_strikeI simp: clock_kept)
qed (use assms in \<open>auto elim!: one_strikeI simp: onmessage_def clock_message open_message onerror_def clock_kept
  decoder_error_def Let_def open_kept dest: open_close\<close>)

lemma stall_run:
  assumes "one_strike now tick v" "video_inv v" "timely now tick (es @ [StallTick h t])"
    "run_allowed video_possible video_step v (es @ [StallTick h t])"
  shows "vsockets (foldl video_step v (es @ [StallTick h t])) = vsockets (foldl video_step v es)"
  using assms
proof (induction es arbitrary: now tick v)
  case Nil
  then show ?case by (simp add: one_strike_tick(2))
next
  case (Cons e es)
  have inv: "video_inv (video_step v e)" using Cons.prems by (simp add: video_inv_step)
  have rest: "run_allowed video_possible video_step (video_step v e) (es @ [StallTick h t])"
    using Cons.prems(4) by simp
  have "\<exists>n k. one_strike n k (video_step v e) \<and> timely n k (es @ [StallTick h t])"
  proof (cases "event_time e")
    case None
    with Cons.prems one_strike_other [of now tick v e] show ?thesis by auto
  next
    case (Some u)
    with Cons.prems(3) have u: "now \<le> u" by simp
    show ?thesis
    proof (cases e)
      case (StallTick j x)
      with Some Cons.prems u one_strike_tick(1) [of now tick v u] show ?thesis by auto
    next
      case (SockOpens i x)
      with Some Cons.prems u one_strike_opens [of now tick v u i] show ?thesis by auto
    next
      case (Flush drawn x)
      let ?v = "v\<lparr>posted := posted v - 1, flushScheduled := False\<rparr>"
      have "one_strike u tick (processFrameQueue drawn u ?v)"
        by (rule one_strikeI [OF Cons.prems(1) u]) (use clock_process [of drawn u ?v] in \<open>auto simp: open_process\<close>)
      with Flush Some Cons.prems show ?thesis by auto
    next
      case (Start c url d b x)
      let ?w = "(startStallWatch u (v\<lparr>canvas := c\<rparr>))\<lparr>reportedFrame := (0, 0), ctx := d, streamUrl := url, stopped := False\<rparr>"
      have "one_strike u tick ?w" using Cons.prems(1) u by (auto simp: startStallWatch_def one_strike_def)
      then have "one_strike u tick (connect b ?w)"
        by (rule one_strikeI) (simp_all only: clock_kept order_refl simp_thms open_connect)
      moreover have "one_strike u tick v" using Cons.prems(1) u by (auto elim: one_strikeI)
      ultimately have "one_strike u tick (onStart c url d b u v)" by (simp add: onStart_def)
      with Start Some Cons.prems show ?thesis by auto
    qed (use Some in simp_all)
  qed
  then obtain n k where "one_strike n k (video_step v e)" "timely n k (es @ [StallTick h t])" by blast
  from Cons.IH [OF this(1) inv this(2) rest] show ?case by simp
qed

text \<open>
  The stall check never closes the socket of a stream that has stopped, as long as it runs at least
  every four seconds: the check after the one that asked for a key frame finds the time it has just
  reset and takes the strike back, so the second strike is never counted. (The interval is one second.)
\<close>

theorem stall_check_never_closes:
  assumes "run_allowed video_possible video_step new_video (es @ [StallTick h t])"
    and "timely t0 t0 (es @ [StallTick h t])"
  shows "vsockets (foldl video_step new_video (es @ [StallTick h t])) = vsockets (foldl video_step new_video es)"
  using stall_run [OF _ video_inv_new assms(2,1)] by (simp add: one_strike_def new_video_def)

definition stalled :: "video_event list" where
  "stalled = Start (Some (0, 0)) (Some ''ws'') True True 0 # SockOpens 0 0 #
    map (StallTick 0) [1000, 2000, 3000, 4000, 5000, 6000, 7000, 8000, 9000]"

theorem stall_check_never_closes_witness:
  "vsockets (foldl video_step new_video (stalled @ [StallTick 0 10000])) = vsockets (foldl video_step new_video stalled)"
  by (rule stall_check_never_closes [where ?t0.0 = 0]) (simp_all add: stalled_def video_eval checkFrameStall_def frameStallTimeoutMs_def
      requestStreamResync_def streamResyncMessage_def)

lemma ack_bytes:
  assumes "length m \<ge> 9" "int (be_val (rev (buf_read 1 8 m))) \<le> MAX_SAFE_INTEGER"
  shows "int (message_timestamp m) \<le> MAX_SAFE_INTEGER" "rev (be_bytes 8 (message_timestamp m)) = buf_read 1 8 m"
proof -
  have n: "message_timestamp m = be_val (rev (buf_read 1 8 m))"
    using assms(2) by (simp add: message_timestamp_def Number_of_nat_def MAX_SAFE_INTEGER_def)
  with assms(2) show "int (message_timestamp m) \<le> MAX_SAFE_INTEGER" by simp
  have "length (rev (buf_read 1 8 m)) = 8" using assms(1) by (simp add: buf_read_def)
  with be_bytes_be_val [of "rev (buf_read 1 8 m)"] have "be_bytes 8 (message_timestamp m) = rev (buf_read 1 8 m)"
    unfolding n by simp
  then show "rev (be_bytes 8 (message_timestamp m)) = buf_read 1 8 m" by simp
qed

text \<open>
  A picture the decoder accepts is acknowledged with the eight time stamp bytes it came with. When the
  decoder's queue has reached six entries the acknowledgement waits, and is sent by the first
  dequeue that leaves at most three.
\<close>

theorem acknowledgement_backpressure:
  assumes "vsocket v = Some i" "vsockets v ! i = OPEN" "\<not> stopped v" "decoder v = Some d" "decoders v ! d"
    and "length m \<ge> 9" "int (be_val (rev (buf_read 1 8 m))) \<le> MAX_SAFE_INTEGER" "\<not> decodeBackpressured v"
    and w: "w = video_step v (SockMessage i m b (Accepted n))"
  shows "(n < 6 \<longrightarrow> sent w = sent v @ [(i, 2 # buf_read 1 8 m)] \<and> pendingAckTimestamp w = None) \<and>
    (n \<ge> 6 \<longrightarrow> sent w = sent v \<and>
      sent (video_step w (Dequeued d k)) = (if k > 3 then sent v else sent v @ [(i, 2 # buf_read 1 8 m)]))"
  using assms ack_bytes [OF assms(6,7)]
  by (simp add: w onmessage_def handleWsMessage_def Let_def decode_def releaseDecodeBackpressure_def
      acknowledgeFrame_def socket_open_def decoderHighWatermark_def decoderLowWatermark_def frameAckMessage_def)

definition decoding :: video where
  "decoding = new_video\<lparr>vsocket := Some 0, vsockets := [OPEN], decoder := Some 0, decoders := [True]\<rparr>"

theorem acknowledgement_backpressure_witness:
  "sent (video_step decoding (SockMessage 0 [0, 7, 0, 0, 0, 0, 0, 0, 0, 42] True (Accepted 1))) =
    [(0, [2, 7, 0, 0, 0, 0, 0, 0, 0])]"
proof -
  have "int (be_val (rev (buf_read 1 8 [0, 7, 0, 0, 0, 0, 0, 0, 0, 42]))) \<le> MAX_SAFE_INTEGER"
    by (simp add: be_val_def buf_read_def MAX_SAFE_INTEGER_def)
  from acknowledgement_backpressure [OF _ _ _ _ _ _ this _ refl, where v = decoding and i = 0 and d = 0 and b = True and n = 1] show ?thesis
    by (simp add: decoding_def new_video_def buf_read_def del: video_step.simps)
qed

end
