(* ===== verification/Serial_Port.thy ===== *)
theory Serial_Port
  imports Text_Tools
begin

text \<open>
  The check of the serial terminal's parameters before they reach a command line,
  \<^verbatim>\<open>web/src/pages/terminal/validater.ts\<close>.
\<close>

record picocom_parameters =
  port :: "string option"
  baud :: "string option"
  parity :: "string option"
  flowControl :: "string option"
  dataBits :: "string option"
  stopBits :: "string option"

definition ALLOWED_BAUD_RATES :: "string list" where
  "ALLOWED_BAUD_RATES =
    [''50'', ''75'', ''110'', ''134'', ''150'', ''200'', ''300'', ''600'', ''1200'', ''1800'', ''2400'', ''4800'',
     ''9600'', ''19200'', ''38400'', ''57600'', ''115200'', ''230400'', ''460800'', ''500000'', ''576000'',
     ''921600'', ''1000000'', ''1152000'', ''1500000'', ''2000000'', ''2500000'', ''3000000'', ''3500000'',
     ''4000000'']"

definition ALLOWED_PARITIES :: "string list" where
  "ALLOWED_PARITIES = [''n'', ''o'', ''e'', ''m'', ''s'', ''none'', ''even'', ''odd'']"

definition ALLOWED_FLOW_CONTROLS :: "string list" where
  "ALLOWED_FLOW_CONTROLS = [''n'', ''h'', ''s'', ''x'', ''none'', ''soft'', ''hard'']"

definition ALLOWED_DATA_BITS :: "string list" where
  "ALLOWED_DATA_BITS = [''5'', ''6'', ''7'', ''8'']"

definition ALLOWED_STOP_BITS :: "string list" where
  "ALLOWED_STOP_BITS = [''1'', ''2'']"

definition prohibited :: "char \<Rightarrow> bool" where
  "prohibited c \<longleftrightarrow> is_ws c \<or> c \<in> set '';&|`$()<>!*?'' \<or> c = CHR 0x22 \<or> c = CHR 0x27 \<or> c = CHR 0x5C"

text \<open>
  The class \<^verbatim>\<open>[a-zA-Z0-9.-_]\<close> as a regular expression reads it: \<^verbatim>\<open>.-_\<close> is the range of the characters
  from the full stop to the underscore.
\<close>

definition port_char :: "char \<Rightarrow> bool" where
  "port_char c \<longleftrightarrow>
    (let n = of_char c :: nat
     in 97 \<le> n \<and> n \<le> 122 \<or> 65 \<le> n \<and> n \<le> 90 \<or> 48 \<le> n \<and> n \<le> 57 \<or> 0x2E \<le> n \<and> n \<le> 0x5F)"

definition port_pattern :: "string \<Rightarrow> bool" where
  "port_pattern s \<longleftrightarrow> prefix ''/dev/'' s \<and> drop 5 s \<noteq> [] \<and> list_all port_char (drop 5 s)"

text \<open>A parameter that is missing or blank is not checked.\<close>

definition optional_in :: "string list \<Rightarrow> (string \<Rightarrow> string) \<Rightarrow> string option \<Rightarrow> bool" where
  "optional_in allowed f p =
    (case p of None \<Rightarrow> True | Some s \<Rightarrow> js_trim s = [] \<or> f (js_trim s) \<in> set allowed)"

definition validatePicocomParameters :: "picocom_parameters \<Rightarrow> bool" where
  "validatePicocomParameters params =
    (case port params of
       None \<Rightarrow> False
     | Some p \<Rightarrow>
         let port = js_trim p
         in if port = [] then False
            else if \<not> prefix ''/'' port then False
            else if js_includes port ''..'' then False
            else if list_ex prohibited port then False
            else if \<not> port_pattern port then False
            else if \<not> optional_in ALLOWED_BAUD_RATES id (baud params) then False
            else if \<not> optional_in ALLOWED_PARITIES js_lower (parity params) then False
            else if \<not> optional_in ALLOWED_FLOW_CONTROLS js_lower (flowControl params) then False
            else if \<not> optional_in ALLOWED_DATA_BITS id (dataBits params) then False
            else optional_in ALLOWED_STOP_BITS id (stopBits params))"

lemma valid_port:
  assumes "validatePicocomParameters params"
  obtains p where "port params = Some p" "prefix ''/dev/'' (js_trim p)" "drop 5 (js_trim p) \<noteq> []"
    "list_all port_char (drop 5 (js_trim p))" "\<not> list_ex prohibited (js_trim p)" "\<not> sublist ''..'' (js_trim p)"
proof (cases "port params")
  case None
  with assms show ?thesis by (simp add: validatePicocomParameters_def)
next
  case (Some p)
  from assms Some have "\<not> js_includes (js_trim p) ''..''" "\<not> list_ex prohibited (js_trim p)" "port_pattern (js_trim p)"
    unfolding validatePicocomParameters_def Let_def option.case Some by metis+
  with Some that [of p] show ?thesis by (auto simp: port_pattern_def js_includes_def)
qed

lemma valid_port_chars:
  assumes "validatePicocomParameters params" "port params = Some p" "c \<in> set (js_trim p)"
  shows "c \<in> set ''/dev/'' \<or> port_char c"
proof -
  from assms(1,2) have q: "prefix ''/dev/'' (js_trim p)" "list_all port_char (drop 5 (js_trim p))"
    using valid_port [of params] by force+
  then obtain rest where "js_trim p = ''/dev/'' @ rest" by (auto elim: prefixE)
  with q(2) assms(3) show ?thesis by (auto simp: list_all_iff)
qed

text \<open>
  A port the check accepts is a path below \<^verbatim>\<open>/dev/\<close> that cannot climb out of it and that contains no
  character a shell gives a meaning to: no blank, quote, backslash, semicolon, pipe, ampersand,
  dollar, parenthesis, angle bracket or wildcard, and no hyphen that could start an option.
\<close>

theorem accepted_port_is_safe:
  assumes "validatePicocomParameters params" "port params = Some p"
  shows "prefix ''/dev/'' (js_trim p) \<and> length (js_trim p) > 5 \<and> \<not> sublist ''..'' (js_trim p) \<and>
    (\<forall>c \<in> set (js_trim p). \<not> is_ws c \<and> c \<notin> set '';&|`$()<>!*?-#~{}%+,'' \<and>
      c \<noteq> CHR 0x22 \<and> c \<noteq> CHR 0x27 \<and> c \<noteq> CHR 0x5C)"
proof -
  from assms obtain q where q: "prefix ''/dev/'' (js_trim p)" "drop 5 (js_trim p) \<noteq> []"
    "list_all port_char (drop 5 (js_trim p))" "\<not> list_ex prohibited (js_trim p)" "\<not> sublist ''..'' (js_trim p)"
    using valid_port [of params] by force
  have "c \<in> set ''/dev/'' \<or> port_char c" if "c \<in> set (js_trim p)" for c
    using valid_port_chars [OF assms that] .
  moreover have "c \<notin> set ''-#~{}%+,''" if "c \<in> set ''/dev/'' \<or> port_char c" for c
    using that by (auto simp: port_char_def)
  ultimately show ?thesis
    using q by (auto simp: list_ex_iff prohibited_def)
qed

definition console_port :: picocom_parameters where
  "console_port = \<lparr>port = Some '' /dev/ttyS1'', baud = Some ''115200'', parity = Some ''None'', flowControl = None,
    dataBits = Some ''8'', stopBits = Some ''''\<rparr>"

theorem accepted_port_is_safe_witness:
  "prefix ''/dev/'' (js_trim '' /dev/ttyS1'') \<and> length (js_trim '' /dev/ttyS1'') > 5"
proof -
  have "validatePicocomParameters console_port" by code_simp
  from accepted_port_is_safe [OF this, of "'' /dev/ttyS1''"] show ?thesis by (simp add: console_port_def)
qed

text \<open>
  A port whose name contains a hyphen is always refused, although the class of allowed characters
  names the hyphen: every stable name under \<^verbatim>\<open>/dev/serial/by-id\<close> is one.
\<close>

theorem hyphen_port_refused:
  assumes "port params = Some p" "CHR ''-'' \<in> set (js_trim p)"
  shows "\<not> validatePicocomParameters params"
proof
  assume v: "validatePicocomParameters params"
  with valid_port_chars [OF v assms] show False by (simp add: port_char_def)
qed

theorem hyphen_port_refused_witness:
  "\<not> validatePicocomParameters (console_port\<lparr>port := Some ''/dev/serial/by-id/usb0''\<rparr>)"
  by (rule hyphen_port_refused [of _ "''/dev/serial/by-id/usb0''"]) (simp, code_simp)

end
