(* ===== verification/Permissions.thy ===== *)
theory Permissions
  imports Text_Tools
begin

text \<open>
  The permissions of an account as the editor shows them, \<^verbatim>\<open>web/src/lib/permissions.ts\<close>: the names of
  the grants and the grants a set implies. A permission is its identifier; the catalogue comes from
  the server and may repeat an identifier or imply one it does not describe.
\<close>

record descriptor =
  pid :: string
  implies :: "string list"  \<comment> \<open>a missing list is the empty one\<close>

definition PERMISSION_KEYS :: "(string \<times> string) list" where
  "PERMISSION_KEYS =
    [(''console.view'', ''consoleView''), (''console.control'', ''consoleControl''), (''power'', ''power''),
     (''medium.attach'', ''mediumAttach''), (''library.read'', ''libraryRead''), (''library.write'', ''libraryWrite''),
     (''terminal'', ''terminal''), (''device'', ''device''), (''network'', ''network''), (''update'', ''update''),
     (''mcp'', ''mcp''), (''tailscale'', ''tailscale''), (''ai'', ''ai'')]"

definition GROUP_ORDER :: "string list" where
  "GROUP_ORDER = [''console'', ''target'', ''library'', ''host'', ''services'']"

definition DEFAULT_PERMISSIONS :: "string list" where
  "DEFAULT_PERMISSIONS = [''console.view'']"

text \<open>The label of a permission; an identifier every object inherits has no text of its own.\<close>

definition permissionLabelKey :: "string \<Rightarrow> string option" where
  "permissionLabelKey p =
    (case js_lookup PERMISSION_KEYS p of
       Own k \<Rightarrow> Some (''settings.account.permissions.'' @ k)
     | Absent \<Rightarrow> Some p
     | Inherited \<Rightarrow> None)"

definition upper_char :: "char \<Rightarrow> char" where
  "upper_char c = (let n = of_char c :: nat in if 97 \<le> n \<and> n \<le> 122 then char_of (n - 32) else c)"

definition permissionEffectKey :: "string \<Rightarrow> string option" where
  "permissionEffectKey p =
    (case js_lookup PERMISSION_KEYS p of
       Own k \<Rightarrow> Some (''settings.account.permissions.effect'' @ (case k of [] \<Rightarrow> [] | c # cs \<Rightarrow> upper_char c # cs))
     | Absent \<Rightarrow> Some ''''
     | Inherited \<Rightarrow> None)"

section \<open>Closure\<close>

text \<open>A map built from pairs keeps the last value of a key.\<close>

definition implied :: "descriptor list \<Rightarrow> string \<Rightarrow> string list" where
  "implied catalog p =
    (case map_of (rev (map (\<lambda>d. (pid d, implies d)) catalog)) p of None \<Rightarrow> [] | Some ps \<Rightarrow> ps)"

definition mentioned :: "descriptor list \<Rightarrow> string set" where
  "mentioned catalog = (\<Union>d \<in> set catalog. set (implies d))"

lemma finite_mentioned [simp]: "finite (mentioned catalog)"
  by (simp add: mentioned_def)

lemma implied_mentioned: "set (implied catalog p) \<subseteq> mentioned catalog"
proof (cases "map_of (rev (map (\<lambda>d. (pid d, implies d)) catalog)) p")
  case (Some ps)
  then have "(p, ps) \<in> set (map (\<lambda>d. (pid d, implies d)) catalog)" by (auto dest: map_of_SomeD)
  with Some show ?thesis by (auto simp: implied_def mentioned_def)
qed (simp add: implied_def)

lemma add_decreases:
  assumes "p \<notin> set resolved"
  shows "card ((set (implied catalog p @ ps) \<union> mentioned catalog) - set (js_add p resolved)) <
    card ((set (p # ps) \<union> mentioned catalog) - set resolved)"
  by (rule psubset_card_mono) (use assms implied_mentioned [of catalog p] in auto)

text \<open>
  The calls of \<^verbatim>\<open>add\<close> still to be made, in the order the code makes them: the grants a permission
  implies come before its siblings.
\<close>

function add :: "descriptor list \<Rightarrow> string list \<Rightarrow> string list \<Rightarrow> string list" where
  "add catalog [] resolved = resolved"
| "add catalog (p # ps) resolved =
    (if p \<in> set resolved then add catalog ps resolved
     else add catalog (implied catalog p @ ps) (js_add p resolved))"
  by pat_completeness auto

termination
proof (relation "measures [\<lambda>(cat, ps, res). card ((set ps \<union> mentioned cat) - set res), \<lambda>(cat, ps, res). length ps]")
  fix catalog :: "descriptor list" and p ps and resolved :: "string list"
  assume "p \<in> set resolved"
  then have "(set (p # ps) \<union> mentioned catalog) - set resolved = (set ps \<union> mentioned catalog) - set resolved" by auto
  then show "((catalog, ps, resolved), (catalog, p # ps, resolved)) \<in>
      measures [\<lambda>(cat, ps, res). card ((set ps \<union> mentioned cat) - set res), \<lambda>(cat, ps, res). length ps]"
    by simp
next
  fix catalog :: "descriptor list" and p ps and resolved :: "string list"
  assume "p \<notin> set resolved"
  from add_decreases [OF this, of catalog ps]
  show "((catalog, implied catalog p @ ps, js_add p resolved), (catalog, p # ps, resolved)) \<in>
      measures [\<lambda>(cat, ps, res). card ((set ps \<union> mentioned cat) - set res), \<lambda>(cat, ps, res). length ps]"
    by simp
qed simp

definition closureOf :: "string list \<Rightarrow> descriptor list \<Rightarrow> string list" where
  "closureOf granted catalog = add catalog granted []"

text \<open>The grants that follow from a set, as a relation.\<close>

definition grants :: "descriptor list \<Rightarrow> (string \<times> string) set" where
  "grants catalog = {(p, q). q \<in> set (implied catalog p)}"

lemma distinct_add: "distinct resolved \<Longrightarrow> distinct (add catalog ps resolved)"
  by (induction catalog ps resolved rule: add.induct) auto

lemma add_keeps: "set resolved \<union> set ps \<subseteq> set (add catalog ps resolved)"
  by (induction catalog ps resolved rule: add.induct) auto

lemma add_sound:
  "set (add catalog ps resolved) \<subseteq> set resolved \<union> (grants catalog)\<^sup>* `` set ps"
proof (induction catalog ps resolved rule: add.induct)
  case (2 catalog p ps resolved)
  have "set (implied catalog p) = grants catalog `` {p}" by (auto simp: grants_def)
  then have "(grants catalog)\<^sup>* `` set (implied catalog p) \<subseteq> (grants catalog)\<^sup>* `` {p}"
    by (auto intro: converse_rtrancl_into_rtrancl)
  then have sub: "(grants catalog)\<^sup>* `` set (implied catalog p @ ps) \<subseteq> (grants catalog)\<^sup>* `` set (p # ps)" by auto
  show ?case
  proof (cases "p \<in> set resolved")
    case True
    with 2(1) [OF True] show ?thesis by auto
  next
    case False
    have "p \<in> (grants catalog)\<^sup>* `` set (p # ps)" by auto
    with 2(2) [OF False] sub False show ?thesis by auto
  qed
qed auto

text \<open>Everything resolved is either followed up or still to be called.\<close>

lemma add_closed:
  assumes "\<And>p q. p \<in> set resolved \<Longrightarrow> q \<in> set (implied catalog p) \<Longrightarrow> q \<in> set resolved \<union> set ps"
    and "p \<in> set (add catalog ps resolved)" "q \<in> set (implied catalog p)"
  shows "q \<in> set (add catalog ps resolved)"
  using assms
proof (induction catalog ps resolved rule: add.induct)
  case (2 catalog r ps resolved)
  show ?case
  proof (cases "r \<in> set resolved")
    case True
    with 2(1) [OF True] 2(3,4,5) show ?thesis by auto
  next
    case False
    have "q' \<in> set (js_add r resolved) \<union> set (implied catalog r @ ps)"
      if "p' \<in> set (js_add r resolved)" "q' \<in> set (implied catalog p')" for p' q'
      using that 2(3) [of p' q'] by auto
    from 2(2) [OF False this] 2(4,5) False show ?thesis by auto
  qed
qed auto

lemma add_complete:
  "(g, q) \<in> (grants catalog)\<^sup>* \<Longrightarrow> g \<in> set ps \<Longrightarrow> q \<in> set (add catalog ps [])"
proof (induction rule: rtrancl_induct)
  case base
  then show ?case using add_keeps [of "[]" ps catalog] by auto
next
  case (step p q)
  then show ?case using add_closed [of "[]" catalog ps p q] by (auto simp: grants_def)
qed

text \<open>
  C13: The grants the editor shows as held are exactly those that follow from the granted ones by any
  number of implications, each listed once, also when implications run in a circle.
\<close>

theorem closure_is_reachability:
  "set (closureOf granted catalog) = {q. \<exists>g \<in> set granted. (g, q) \<in> {(p, q). q \<in> set (implied catalog p)}\<^sup>*} \<and>
    distinct (closureOf granted catalog)"
proof
  show "set (closureOf granted catalog) = {q. \<exists>g \<in> set granted. (g, q) \<in> {(p, q). q \<in> set (implied catalog p)}\<^sup>*}"
    using add_sound [of catalog granted "[]"] add_complete [of _ _ catalog granted]
    by (auto simp: closureOf_def grants_def)
qed (simp add: closureOf_def distinct_add)

end
