(* ===== verification/Profile_Editor.thy ===== *)
theory Profile_Editor
  imports Text_Tools
begin

text \<open>
  Editing a USB presentation profile: identity, presets and HID roles
  (\<^verbatim>\<open>web/src/pages/desktop/menu/settings/presentation/editor.ts\<close>) and the largest mode of a camera
  (\<^verbatim>\<open>web/src/pages/desktop/menu/devices/modes.ts\<close>). Parts of a profile the page only carries along
  are fields named \<open>rest\<close>.
\<close>

section \<open>Profiles\<close>

datatype hid_role = keyboard | relative | absolute

record camera_frame =
  width :: nat
  height :: nat
  intervals :: "nat list option"

record video_format =
  frames :: "camera_frame list option"
  format_rest :: string

record usb_function =
  fkind :: string
  finstance :: string
  roles :: "hid_role list option"  \<comment> \<open>\<^verbatim>\<open>hid?.roles\<close>\<close>
  fvideo :: "video_format list option option"  \<comment> \<open>\<^verbatim>\<open>video\<close> and its \<^verbatim>\<open>formats\<close>\<close>
  function_rest :: string

record usb_identity =
  vendor_id :: string
  product_id :: string
  bcd_usb :: "string option"
  bcd_device :: "string option"
  serial :: "string option"
  manufacturer :: string
  product_name :: string

record descriptor_set =
  ds_device :: "string option"
  ds_configurations :: "string list option"
  ds_bos :: "string option"
  ds_strings :: "(string \<times> string) list option"
  ds_hid_reports :: "(string \<times> string) list option"

record profile =
  device :: usb_identity
  configuration :: string
  fns :: "usb_function list"
  descriptors :: "descriptor_set option"
  profile_rest :: string

section \<open>Identity\<close>

record identity_fields =
  f_vendorId :: string
  f_productId :: string
  f_bcdUSB :: string
  f_bcdDevice :: string
  f_manufacturer :: string
  f_product :: string
  f_serial :: string
  f_configuration :: string

definition name_start :: "char \<Rightarrow> bool" where
  "name_start c \<longleftrightarrow> (let n = of_char c :: nat in 97 \<le> n \<and> n \<le> 122) \<or> is_digit c"

definition isProfileName :: "string \<Rightarrow> bool" where
  "isProfileName name =
    (case js_trim name of
       [] \<Rightarrow> False
     | c # cs \<Rightarrow> name_start c \<and> length cs \<le> 63 \<and> list_all (\<lambda>x. name_start x \<or> x \<in> set ''._-'') cs)"

definition text_of :: "string option \<Rightarrow> string" where
  "text_of s = (case s of None \<Rightarrow> '''' | Some t \<Rightarrow> t)"

definition text_or_none :: "string \<Rightarrow> string option" where
  "text_or_none s = (if s = '''' then None else Some s)"

definition identityFields :: "profile \<Rightarrow> identity_fields" where
  "identityFields p =
    \<lparr>f_vendorId = vendor_id (device p), f_productId = product_id (device p), f_bcdUSB = text_of (bcd_usb (device p)),
     f_bcdDevice = text_of (bcd_device (device p)), f_manufacturer = manufacturer (device p),
     f_product = product_name (device p), f_serial = text_of (serial (device p)), f_configuration = configuration p\<rparr>"

definition editIdentity :: "profile \<Rightarrow> identity_fields \<Rightarrow> profile" where
  "editIdentity p f =
    p\<lparr>device := (device p)\<lparr>vendor_id := js_trim (f_vendorId f), product_id := js_trim (f_productId f),
        bcd_usb := text_or_none (js_trim (f_bcdUSB f)), bcd_device := text_or_none (js_trim (f_bcdDevice f)),
        manufacturer := js_trim (f_manufacturer f), product_name := js_trim (f_product f),
        serial := text_or_none (js_trim (f_serial f))\<rparr>,
      configuration := js_trim (f_configuration f)\<rparr>"

record preset =
  p_vendor :: string
  p_product :: string
  p_manufacturer :: string
  p_name :: string

definition applyPreset :: "identity_fields \<Rightarrow> preset \<Rightarrow> identity_fields" where
  "applyPreset f x = f\<lparr>f_vendorId := p_vendor x, f_productId := p_product x, f_manufacturer := p_manufacturer x,
     f_product := p_name x\<rparr>"

definition preset_matches :: "identity_fields \<Rightarrow> preset \<Rightarrow> bool" where
  "preset_matches f x \<longleftrightarrow>
    js_lower (p_vendor x) = js_lower (js_trim (f_vendorId f)) \<and>
    js_lower (p_product x) = js_lower (js_trim (f_productId f)) \<and>
    p_manufacturer x = js_trim (f_manufacturer f) \<and> p_name x = js_trim (f_product f)"

definition matchPreset :: "preset list \<Rightarrow> identity_fields \<Rightarrow> preset option" where
  "matchPreset presets f = List.find (preset_matches f) presets"

definition fields_of :: "identity_fields \<Rightarrow> string list" where
  "fields_of f = [f_vendorId f, f_productId f, f_bcdUSB f, f_bcdDevice f, f_manufacturer f, f_product f, f_serial f,
     f_configuration f]"

definition identityChanged :: "profile \<Rightarrow> identity_fields \<Rightarrow> bool" where
  "identityChanged p f \<longleftrightarrow> list_ex (\<lambda>(saved, field). saved \<noteq> js_trim field) (zip (fields_of (identityFields p)) (fields_of f))"

definition count_present :: "string option \<Rightarrow> nat" where
  "count_present s = (case s of None \<Rightarrow> 0 | Some t \<Rightarrow> if t = '''' then 0 else 1)"

definition list_size :: "'a list option \<Rightarrow> nat" where
  "list_size x = (case x of None \<Rightarrow> 0 | Some xs \<Rightarrow> length xs)"

definition descriptorCount :: "profile \<Rightarrow> nat" where
  "descriptorCount p =
    (case descriptors p of
       None \<Rightarrow> 0
     | Some s \<Rightarrow> count_present (ds_device s) + list_size (ds_configurations s) + count_present (ds_bos s) +
         list_size (ds_strings s) + list_size (ds_hid_reports s))"

definition recoveryKey :: "string \<Rightarrow> string" where
  "recoveryKey action =
    (if action = ''power-cycle'' then ''settings.presentation.recoveryPowerCycle''
     else if action = ''host-reboot'' then ''settings.presentation.recoveryReboot''
     else if action = ''hdmi-reset'' then ''settings.presentation.recoveryHdmiReset''
     else ''settings.presentation.recoveryReconnect'')"

section \<open>HID roles\<close>

definition HID_ROLES :: "hid_role list" where
  "HID_ROLES = [keyboard, relative, absolute]"

type_synonym hid_assignment = "hid_role \<Rightarrow> int option"

fun assign_functions :: "usb_function list \<Rightarrow> int \<Rightarrow> hid_assignment \<Rightarrow> hid_assignment" where
  "assign_functions [] slot a = a"
| "assign_functions (f # fs) slot a =
    (if fkind f \<noteq> ''hid'' then assign_functions fs slot a
     else assign_functions fs (slot + 1)
       (fold (\<lambda>r a. a(r := Some slot)) (case roles f of None \<Rightarrow> [] | Some rs \<Rightarrow> rs) a))"

definition hidAssignment :: "profile \<Rightarrow> hid_assignment" where
  "hidAssignment p = assign_functions (fns p) 0 (\<lambda>_. None)"

text \<open>The slots in use, each once, in ascending order.\<close>

definition used_slots :: "hid_assignment \<Rightarrow> int list" where
  "used_slots a = sort (remdups (map the (filter (\<lambda>s. s \<noteq> None) (map a HID_ROLES))))"

definition hidGroups :: "hid_assignment \<Rightarrow> hid_role list list" where
  "hidGroups a = map (\<lambda>s. filter (\<lambda>r. a r = Some s) HID_ROLES) (used_slots a)"

definition hidSlotCount :: "hid_assignment \<Rightarrow> nat" where
  "hidSlotCount a = length (hidGroups a)"

fun indexOf :: "int list \<Rightarrow> int \<Rightarrow> int" where
  "indexOf [] x = - 1"
| "indexOf (y # ys) x = (if x = y then 0 else let i = indexOf ys x in if i < 0 then i else i + 1)"

definition setHidSlot :: "hid_assignment \<Rightarrow> hid_role \<Rightarrow> int option \<Rightarrow> hid_assignment" where
  "setHidSlot a r s =
    (let next = a(r := s); used = used_slots next
     in (\<lambda>x. map_option (indexOf used) (next x)))"

definition hidRoleKey :: "hid_role \<Rightarrow> string" where
  "hidRoleKey r =
    (case r of
       keyboard \<Rightarrow> ''settings.presentation.hidRoleKeyboard''
     | relative \<Rightarrow> ''settings.presentation.hidRoleRelative''
     | absolute \<Rightarrow> ''settings.presentation.hidRoleAbsolute'')"

definition hidKeyboardShares :: "hid_assignment \<Rightarrow> bool" where
  "hidKeyboardShares a =
    (case a keyboard of None \<Rightarrow> False | Some s \<Rightarrow> list_ex (\<lambda>r. r \<noteq> keyboard \<and> a r = Some s) HID_ROLES)"

section \<open>Camera modes\<close>

type_synonym camera_mode = "nat \<times> nat"

definition cameraModes :: "camera_mode list" where
  "cameraModes = [(1280, 720), (640, 480), (320, 240), (160, 120)]"

definition modeKey :: "camera_mode \<Rightarrow> string" where
  "modeKey m = nat_string (fst m) @ ''x'' @ nat_string (snd m)"

definition pixels :: "camera_mode \<Rightarrow> nat" where
  "pixels m = fst m * snd m"

definition mode_of :: "camera_frame \<Rightarrow> camera_mode" where
  "mode_of f = (width f, height f)"

definition is_camera :: "string \<Rightarrow> usb_function \<Rightarrow> bool" where
  "is_camera i f \<longleftrightarrow> fkind f = ''uvc'' \<and> finstance f = i"

definition cameraFunction :: "profile \<Rightarrow> string \<Rightarrow> usb_function option" where
  "cameraFunction p i = List.find (is_camera i) (fns p)"

definition first_format :: "usb_function \<Rightarrow> video_format option" where
  "first_format f = (case fvideo f of Some (Some (x # _)) \<Rightarrow> Some x | _ \<Rightarrow> None)"

definition camera_format :: "profile \<Rightarrow> string \<Rightarrow> video_format option" where
  "camera_format p i = (case cameraFunction p i of None \<Rightarrow> None | Some f \<Rightarrow> first_format f)"

definition frame_list :: "video_format \<Rightarrow> camera_frame list" where
  "frame_list x = (case frames x of None \<Rightarrow> [] | Some fs \<Rightarrow> fs)"

definition framesOf :: "profile \<Rightarrow> string \<Rightarrow> camera_mode list" where
  "framesOf p i = (case camera_format p i of None \<Rightarrow> [] | Some x \<Rightarrow> map mode_of (frame_list x))"

definition cameraCap :: "profile \<Rightarrow> string \<Rightarrow> string option" where
  "cameraCap p i =
    (case framesOf p i of
       [] \<Rightarrow> None
     | m # ms \<Rightarrow> Some (modeKey (foldl (\<lambda>a b. if pixels b > pixels a then b else a) m ms)))"

definition cameraOptions :: "profile \<Rightarrow> string \<Rightarrow> camera_mode list" where
  "cameraOptions p i =
    sort_key (\<lambda>m. - int (pixels m))
      (cameraModes @ filter (\<lambda>m. modeKey m \<notin> set (map modeKey cameraModes)) (framesOf p i))"

definition capped_frames :: "camera_mode \<Rightarrow> string \<Rightarrow> video_format \<Rightarrow> camera_frame list" where
  "capped_frames target cap x =
    (let kept = filter (\<lambda>f. pixels (mode_of f) \<le> pixels target) (frame_list x);
         ivs = (case frame_list x of
             [] \<Rightarrow> [333333, 666666]
           | f # _ \<Rightarrow> (case intervals f of None \<Rightarrow> [333333, 666666] | Some us \<Rightarrow> us))
     in if list_ex (\<lambda>f. modeKey (mode_of f) = cap) kept then kept
        else kept @ [\<lparr>width = fst target, height = snd target, intervals = Some ivs\<rparr>])"

text \<open>The frames replace those of the first format of every camera with that name that has a video part.\<close>

definition set_frames :: "string \<Rightarrow> camera_frame list \<Rightarrow> usb_function \<Rightarrow> usb_function" where
  "set_frames i fs f =
    (if is_camera i f
     then f\<lparr>fvideo := map_option (map_option (\<lambda>xs. case xs of [] \<Rightarrow> [] | x # xs \<Rightarrow> x\<lparr>frames := Some fs\<rparr> # xs)) (fvideo f)\<rparr>
     else f)"

definition withCameraCap :: "profile \<Rightarrow> string \<Rightarrow> string \<Rightarrow> profile" where
  "withCameraCap p i cap =
    (case List.find (\<lambda>m. modeKey m = cap) (cameraModes @ framesOf p i) of
       None \<Rightarrow> p
     | Some target \<Rightarrow>
         (case camera_format p i of
            None \<Rightarrow> p
          | Some x \<Rightarrow> p\<lparr>fns := map (set_frames i (capped_frames target cap x)) (fns p)\<rparr>))"

section \<open>Lemmas\<close>

lemma text_of_or_none [simp]: "text_of (text_or_none s) = s"
  by (simp add: text_of_def text_or_none_def)

lemma saved_identity_unchanged: "\<not> identityChanged (editIdentity p f) f"
  by (simp add: identityChanged_def editIdentity_def identityFields_def fields_of_def)

lemma set_used_slots: "set (used_slots a) = {s. \<exists>r. a r = Some s}"
proof -
  have "r \<in> set HID_ROLES" for r by (cases r) (simp_all add: HID_ROLES_def)
  then show ?thesis by (force simp: used_slots_def)
qed

lemma strict_used_slots: "sorted_wrt (<) (used_slots a)"
  by (simp add: used_slots_def strict_sorted_iff)

lemma indexOf_nth:
  assumes "distinct xs" "i < length xs"
  shows "indexOf xs (xs ! i) = int i"
  using assms by (induction xs arbitrary: i) (auto simp: nth_Cons nth_equal_first_eq Let_def split: nat.splits)

lemma indexOf_image:
  assumes "distinct xs"
  shows "indexOf xs ` set xs = {0..<int (length xs)}"
proof -
  have "indexOf xs ` set xs = (\<lambda>i. indexOf xs (xs ! i)) ` {0..<length xs}"
    by (force simp: in_set_conv_nth image_iff)
  also have "\<dots> = int ` {0..<length xs}" using assms by (intro image_cong) (auto simp: indexOf_nth)
  finally show ?thesis by (simp add: image_int_atLeastLessThan)
qed

lemma indexOf_less:
  assumes "sorted_wrt (<) xs" "x \<in> set xs" "y \<in> set xs"
  shows "indexOf xs x < indexOf xs y \<longleftrightarrow> x < y"
proof -
  from assms(2,3) obtain i j where ij: "i < length xs" "x = xs ! i" "j < length xs" "y = xs ! j"
    by (auto simp: in_set_conv_nth)
  from assms(1) have d: "distinct xs" by (simp add: strict_sorted_iff)
  have "i < j \<Longrightarrow> xs ! i < xs ! j" "j < i \<Longrightarrow> xs ! j < xs ! i"
    using assms(1) ij by (auto simp: sorted_wrt_iff_nth_less)
  then show ?thesis using ij d by (cases i j rule: linorder_cases) (auto simp: indexOf_nth)
qed

lemma length_groups: "hidSlotCount a = length (used_slots a)"
  by (simp add: hidSlotCount_def hidGroups_def)

lemma card_used_slots: "card (set (used_slots a)) = length (used_slots a)"
  using strict_used_slots [of a] by (simp add: strict_sorted_iff distinct_card)

lemma setHidSlot_slots:
  "set (used_slots (setHidSlot a r s)) = {0..<int (length (used_slots (a(r := s))))}"
proof -
  let ?u = "used_slots (a(r := s))"
  have "set (used_slots (setHidSlot a r s)) = indexOf ?u ` set ?u"
    by (auto simp: set_used_slots setHidSlot_def Let_def image_iff simp del: fun_upd_apply)
  also have "\<dots> = {0..<int (length ?u)}"
    using strict_used_slots [of "a(r := s)"] by (intro indexOf_image) (simp add: strict_sorted_iff)
  finally show ?thesis .
qed

lemma setHidSlot_count: "hidSlotCount (setHidSlot a r s) = length (used_slots (a(r := s)))"
  using card_used_slots [of "setHidSlot a r s"] by (simp add: length_groups setHidSlot_slots)

lemma setHidSlot_order:
  assumes "(a(r := s)) x = Some m" "(a(r := s)) y = Some n"
  obtains i j where "setHidSlot a r s x = Some i" "setHidSlot a r s y = Some j" "i < j \<longleftrightarrow> m < n"
    "j < i \<longleftrightarrow> n < m"
proof -
  let ?u = "used_slots (a(r := s))"
  have "m \<in> set ?u" "n \<in> set ?u" using assms by (auto simp: set_used_slots simp del: fun_upd_apply)
  with strict_used_slots have "indexOf ?u m < indexOf ?u n \<longleftrightarrow> m < n" "indexOf ?u n < indexOf ?u m \<longleftrightarrow> n < m"
    by (simp_all add: indexOf_less)
  moreover have "setHidSlot a r s x = Some (indexOf ?u m)" "setHidSlot a r s y = Some (indexOf ?u n)"
    using assms by (simp_all add: setHidSlot_def Let_def del: fun_upd_apply)
  ultimately show ?thesis by (intro that)
qed

lemma setHidSlot_None: "setHidSlot a r s x = None \<longleftrightarrow> (a(r := s)) x = None"
  by (simp add: setHidSlot_def Let_def)

subsection \<open>Capping a camera\<close>

lemma modeKey_inj: "modeKey m = modeKey n \<longleftrightarrow> m = n"
proof
  have x: "CHR ''x'' \<notin> set (nat_string k)" for k
    using nat_string_plain [of "CHR ''x''" k] by (auto simp: is_digit_def)
  have split: "split_char (CHR ''x'') (modeKey k) = [nat_string (fst k), nat_string (snd k)]" for k
    using x by (simp add: modeKey_def split_char_append split_char_plain)
  assume "modeKey m = modeKey n"
  with split [of m] split [of n] have "nat_string (fst m) = nat_string (fst n)" "nat_string (snd m) = nat_string (snd n)"
    by simp_all
  with nat_string_value show "m = n" by (metis prod.expand)
qed simp

lemma find_map_camera:
  "List.find (is_camera i) (map (set_frames i fs) xs) = map_option (set_frames i fs) (List.find (is_camera i) xs)"
proof (induction xs)
  case (Cons f xs)
  moreover have "is_camera i (set_frames i fs f) = is_camera i f" by (simp add: set_frames_def is_camera_def)
  ultimately show ?case by simp
qed simp

lemma find_camera_some: "List.find (is_camera i) xs = Some f \<Longrightarrow> is_camera i f"
  by (auto simp: find_Some_iff)

lemma first_format_set_frames:
  "is_camera i f \<Longrightarrow> first_format (set_frames i fs f) = map_option (\<lambda>x. x\<lparr>frames := Some fs\<rparr>) (first_format f)"
  by (auto simp: set_frames_def first_format_def split: option.splits list.splits)

lemma camera_format_set:
  "camera_format (p\<lparr>fns := map (set_frames i fs) (fns p)\<rparr>) i = map_option (\<lambda>x. x\<lparr>frames := Some fs\<rparr>) (camera_format p i)"
  by (auto simp: camera_format_def cameraFunction_def find_map_camera first_format_set_frames
      dest: find_camera_some split: option.splits)

lemma largest_mode:
  fixes m ms
  defines "b \<equiv> foldl (\<lambda>a b. if pixels b > pixels a then b else a) m ms"
  shows "b \<in> set (m # ms) \<and> list_all (\<lambda>c. pixels c \<le> pixels b) (m # ms)"
  unfolding b_def
  by (induction ms rule: rev_induct) (auto simp: list_all_iff)

lemma capped_frames_props:
  assumes "modeKey target = cap"
  shows "target \<in> mode_of ` set (capped_frames target cap x)"
    and "f \<in> set (capped_frames target cap x) \<Longrightarrow> pixels (mode_of f) \<le> pixels target"
proof -
  show "target \<in> mode_of ` set (capped_frames target cap x)"
    using assms by (auto simp: capped_frames_def Let_def list_ex_iff modeKey_inj mode_of_def)
  show "f \<in> set (capped_frames target cap x) \<Longrightarrow> pixels (mode_of f) \<le> pixels target"
    by (auto simp: capped_frames_def Let_def mode_of_def split: if_splits)
qed

lemma cap_modes:
  assumes "camera_format p i = Some x" "target \<in> set (cameraModes @ framesOf p i)"
  shows "framesOf (withCameraCap p i (modeKey target)) i = map mode_of (capped_frames target (modeKey target) x)"
proof -
  have "List.find (\<lambda>m. modeKey m = modeKey target) (cameraModes @ framesOf p i) = Some target"
  proof (cases "List.find (\<lambda>m. modeKey m = modeKey target) (cameraModes @ framesOf p i)")
    case None
    with assms(2) show ?thesis unfolding find_None_iff by blast
  next
    case (Some m)
    then have "modeKey m = modeKey target" by (auto simp: find_Some_iff)
    with Some show ?thesis by (simp add: modeKey_inj)
  qed
  with assms(1) show ?thesis by (simp add: withCameraCap_def framesOf_def camera_format_set frame_list_def)
qed

section \<open>Properties\<close>

text \<open>
  After any change of a role's slot the slots in use are exactly \<open>0, \<dots>, n - 1\<close>, with \<open>n\<close> the number of
  interfaces of the assignment; two roles share an interface after the change exactly when the edited assignment gives
  them the same slot, a role is absent exactly when it was left without one, and the interfaces keep their order.
\<close>

theorem hid_slots_contiguous:
  "set (used_slots (setHidSlot a r s)) = {0..<int (hidSlotCount (setHidSlot a r s))} \<and>
   (setHidSlot a r s x = setHidSlot a r s y \<longleftrightarrow> (a(r := s)) x = (a(r := s)) y) \<and>
   (case (setHidSlot a r s x, setHidSlot a r s y) of
      (Some i, Some j) \<Rightarrow> i < j \<longleftrightarrow> the ((a(r := s)) x) < the ((a(r := s)) y)
    | (None, _) \<Rightarrow> (a(r := s)) x = None
    | (_, None) \<Rightarrow> (a(r := s)) y = None)"
proof (cases "(a(r := s)) x = None \<or> (a(r := s)) y = None")
  case True
  with setHidSlot_None [of a r s x] setHidSlot_None [of a r s y] show ?thesis
    by (auto simp: setHidSlot_slots setHidSlot_count simp del: fun_upd_apply split: option.splits)
next
  case False
  then obtain m n where mn: "(a(r := s)) x = Some m" "(a(r := s)) y = Some n"
    by (auto simp del: fun_upd_apply)
  from mn obtain i j where "setHidSlot a r s x = Some i" "setHidSlot a r s y = Some j" "i < j \<longleftrightarrow> m < n"
    "j < i \<longleftrightarrow> n < m"
    by (rule setHidSlot_order)
  with mn show ?thesis
    by (auto simp: setHidSlot_slots setHidSlot_count simp del: fun_upd_apply)
qed

text \<open>
  Capping a camera that the profile has to a mode of the menu. The largest mode of the result is the chosen number
  of pixels and no mode exceeds it, the chosen mode is on offer, every mode that was on offer within the cap is still
  there, and every function that is not this camera is left as it was.
\<close>

theorem camera_cap_respected:
  assumes "camera_format p i = Some x" "target \<in> set (cameraOptions p i)"
  defines "q \<equiv> withCameraCap p i (modeKey target)"
  shows "target \<in> set (framesOf q i) \<and>
    (\<exists>m. cameraCap q i = Some (modeKey m) \<and> m \<in> set (framesOf q i) \<and> pixels m = pixels target) \<and>
    list_all (\<lambda>m. pixels m \<le> pixels target) (framesOf q i) \<and>
    {m \<in> set (framesOf p i). pixels m \<le> pixels target} \<subseteq> set (framesOf q i) \<and>
    map (\<lambda>f. if is_camera i f then None else Some f) (fns q) =
      map (\<lambda>f. if is_camera i f then None else Some f) (fns p)"
proof -
  from assms(2) have t: "target \<in> set (cameraModes @ framesOf p i)" by (auto simp: cameraOptions_def)
  note fr = cap_modes [OF assms(1) t, folded q_def]
  let ?fs = "capped_frames target (modeKey target) x"
  have has: "target \<in> set (framesOf q i)" using capped_frames_props(1) [OF refl] by (simp add: fr)
  have le: "list_all (\<lambda>m. pixels m \<le> pixels target) (framesOf q i)"
    using capped_frames_props(2) [OF refl] by (auto simp: fr list_all_iff)
  have kept: "{m \<in> set (framesOf p i). pixels m \<le> pixels target} \<subseteq> set (framesOf q i)"
    using assms(1) unfolding fr by (auto simp: framesOf_def capped_frames_def Let_def)
  from has obtain m ms where f: "framesOf q i = m # ms" by (cases "framesOf q i") auto
  let ?b = "foldl (\<lambda>a b. if pixels b > pixels a then b else a) m ms"
  have b: "?b \<in> set (framesOf q i)" "list_all (\<lambda>c. pixels c \<le> pixels ?b) (framesOf q i)"
    using largest_mode [of m ms] by (simp_all add: f)
  with has le have "pixels ?b = pixels target" by (auto simp: list_all_iff intro: antisym)
  moreover have "cameraCap q i = Some (modeKey ?b)" by (simp add: cameraCap_def f)
  ultimately have "\<exists>m. cameraCap q i = Some (modeKey m) \<and> m \<in> set (framesOf q i) \<and> pixels m = pixels target"
    using b(1) by blast
  moreover have "map (\<lambda>f. if is_camera i f then None else Some f) (fns q) =
      map (\<lambda>f. if is_camera i f then None else Some f) (fns p)"
    by (auto simp: q_def withCameraCap_def set_frames_def is_camera_def split: option.split)
  ultimately show ?thesis using has le kept by blast
qed

definition webcam_profile :: profile where
  "webcam_profile =
    \<lparr>device = \<lparr>vendor_id = ''0x1d6b'', product_id = ''0x0104'', bcd_usb = None, bcd_device = None, serial = None,
       manufacturer = ''sipeed'', product_name = ''NanoKVM''\<rparr>,
     configuration = ''NanoKVM'',
     fns = [\<lparr>fkind = ''hid'', finstance = ''GS0'', roles = Some [keyboard], fvideo = None, function_rest = ''''\<rparr>,
       \<lparr>fkind = ''uvc'', finstance = ''cam'', roles = None,
        fvideo = Some (Some [\<lparr>frames = Some [\<lparr>width = 1280, height = 720, intervals = Some [333333]\<rparr>,
            \<lparr>width = 320, height = 240, intervals = None\<rparr>], format_rest = ''mjpeg''\<rparr>]),
        function_rest = ''''\<rparr>],
     descriptors = None, profile_rest = ''''\<rparr>"

theorem camera_cap_respected_witness:
  "(640, 480) \<in> set (framesOf (withCameraCap webcam_profile ''cam'' (modeKey (640, 480))) ''cam'')"
proof -
  have x: "camera_format webcam_profile ''cam'' =
      Some \<lparr>frames = Some [\<lparr>width = 1280, height = 720, intervals = Some [333333]\<rparr>,
        \<lparr>width = 320, height = 240, intervals = None\<rparr>], format_rest = ''mjpeg''\<rparr>"
    by (simp add: camera_format_def cameraFunction_def webcam_profile_def is_camera_def first_format_def)
  have "(640, 480) \<in> set (cameraOptions webcam_profile ''cam'')"
    unfolding cameraOptions_def set_sort by (simp add: cameraModes_def)
  from camera_cap_respected [OF x this] show ?thesis by blast
qed

end
