(* ===== verification/Audio_Pcm.thy ===== *)
theory Audio_Pcm
  imports Prelude
begin

text \<open>
  Sound between the browser and the target host, under
  \<^verbatim>\<open>web/src/pages/desktop/menu/devices\<close>: the worklet that collects microphone samples
  (\<^verbatim>\<open>audio.worklet.ts\<close>), the packets of 20 ms sent to the device (\<^verbatim>\<open>pcm.ts\<close>), the samples of a
  received packet (\<^verbatim>\<open>push\<close> of \<^verbatim>\<open>playback.ts\<close>) and the jitter buffer that plays them
  (\<^verbatim>\<open>playback.worklet.ts\<close>). Samples, rates and read positions are exact rationals.
\<close>

section \<open>Collecting microphone samples\<close>

record chunker =
  chunkFrames :: nat
  chunk :: "rat list"
  filled :: nat
  posted :: "rat list list"

definition new_chunker :: "rat \<Rightarrow> chunker" where
  "new_chunker rate =
    (let n = nat (js_round (rate / 50))
     in \<lparr>chunkFrames = n, chunk = replicate n 0, filled = 0, posted = []\<rparr>)"

text \<open>One round of the loop copies what fits and posts a chunk that is full.\<close>

definition chunk_round :: "rat list \<Rightarrow> chunker \<Rightarrow> nat \<times> chunker" where
  "chunk_round rest w =
    (let count = min (length rest) (length (chunk w) - filled w);
         w = w\<lparr>chunk := take (filled w) (chunk w) @ take count rest @ drop (filled w + count) (chunk w),
               filled := filled w + count\<rparr>
     in (count, if filled w = length (chunk w)
                then w\<lparr>posted := posted w @ [chunk w], chunk := replicate (chunkFrames w) 0, filled := 0\<rparr>
                else w))"

partial_function (option) chunk_loop :: "rat list \<Rightarrow> chunker \<Rightarrow> chunker option" where
  "chunk_loop rest w =
    (if rest = [] then Some w
     else let (count, w) = chunk_round rest w in chunk_loop (drop count rest) w)"

definition audio_process :: "rat list option \<Rightarrow> chunker \<Rightarrow> chunker option" where
  "audio_process inp w = (case inp of None \<Rightarrow> Some w | Some samples \<Rightarrow> chunk_loop samples w)"

section \<open>Packets\<close>

definition targetRate :: rat where "targetRate = 48000"
definition packetSamples :: nat where "packetSamples = 960"
definition maxInputSamples :: nat where "maxInputSamples = 4096"

record packetizer =
  pstep :: rat
  pinput :: "rat list"
  pread :: rat
  packet :: "byte list"
  packetLength :: nat

definition blank_packet :: "byte list" where
  "blank_packet = replicate (packetSamples * 2) 0"

definition new_packetizer :: "rat \<Rightarrow> string + packetizer" where
  "new_packetizer rate =
    (if rate < 8000 \<or> rate > 192000 then Inl ''audio sample rate''
     else Inr \<lparr>pstep = rate / targetRate, pinput = [], pread = 0, packet = blank_packet, packetLength = 0\<rparr>)"

definition packetizer_reset :: "packetizer \<Rightarrow> packetizer" where
  "packetizer_reset p = p\<lparr>pinput := [], pread := 0, packet := blank_packet, packetLength := 0\<rparr>"

text \<open>\<^verbatim>\<open>setInt16(\<dots>, true)\<close> and \<^verbatim>\<open>getInt16(\<dots>, true)\<close>: two bytes, the low one first.\<close>

definition le16 :: "int \<Rightarrow> byte list" where
  "le16 k = [word_of_int k, word_of_int (k div 256)]"

definition get_i16_le :: "byte list \<Rightarrow> nat \<Rightarrow> int" where
  "get_i16_le bs off =
    (let n = uint (bs ! off) + 256 * uint (bs ! (off + 1)) in if n < 32768 then n else n - 65536)"

definition pcm_word :: "rat \<Rightarrow> int" where
  "pcm_word x = (let bounded = max (- 1) (min 1 x) in js_round (bounded * (if bounded < 0 then 32768 else 32767)))"

definition interpolate :: "rat list \<Rightarrow> rat \<Rightarrow> rat" where
  "interpolate xs r = (let i = nat \<lfloor>r\<rfloor>; part = r - of_int \<lfloor>r\<rfloor> in xs ! i + (xs ! (i + 1) - xs ! i) * part)"

definition emit :: "packetizer \<Rightarrow> packetizer \<times> byte list list" where
  "emit p =
    (let k = pcm_word (interpolate (pinput p) (pread p));
         p = p\<lparr>packet := buf_write (packetLength p * 2) (le16 k) (packet p), packetLength := packetLength p + 1,
               pread := pread p + pstep p\<rparr>
     in if packetLength p = packetSamples then (p\<lparr>packet := blank_packet, packetLength := 0\<rparr>, [packet p])
        else (p, []))"

partial_function (option) push_loop :: "packetizer \<Rightarrow> byte list list \<Rightarrow> (packetizer \<times> byte list list) option" where
  "push_loop p packets =
    (if pread p + 1 < of_nat (length (pinput p))
     then let (p, full) = emit p in push_loop p (packets @ full)
     else Some (p, packets))"

definition accept :: "rat list \<Rightarrow> packetizer \<Rightarrow> packetizer" where
  "accept samples p =
    (let inp = pinput p @ samples; dropped = length inp - maxInputSamples
     in if length inp > maxInputSamples
        then p\<lparr>pinput := drop dropped inp, pread := max 0 (pread p - of_nat dropped)\<rparr>
        else p\<lparr>pinput := inp\<rparr>)"

definition consume :: "packetizer \<Rightarrow> packetizer" where
  "consume p =
    (let consumed = \<lfloor>pread p\<rfloor>
     in if consumed > 0 then p\<lparr>pinput := drop (nat consumed) (pinput p), pread := pread p - of_int consumed\<rparr> else p)"

definition push :: "rat list \<Rightarrow> packetizer \<Rightarrow> (packetizer \<times> byte list list) option" where
  "push samples p = map_option (\<lambda>(p, packets). (consume p, packets)) (push_loop (accept samples p) [])"

fun push_all :: "rat list list \<Rightarrow> packetizer \<Rightarrow> (packetizer \<times> byte list list) option" where
  "push_all [] p = Some (p, [])"
| "push_all (b # bs) p =
    (case push b p of
       None \<Rightarrow> None
     | Some (p, packets) \<Rightarrow> map_option (\<lambda>(p, more). (p, packets @ more)) (push_all bs p))"

section \<open>Playing\<close>

definition speaker_sample :: "int \<Rightarrow> rat" where
  "speaker_sample k = of_int k / (if k < 0 then 32768 else 32767)"

definition speaker_samples :: "byte list \<Rightarrow> rat list" where
  "speaker_samples payload = map (\<lambda>i. speaker_sample (get_i16_le payload (i * 2))) [0..<length payload div 2]"

definition prefillFrames :: rat where "prefillFrames = 48000 * 0.06"
definition maxFrames :: nat where "maxFrames = 19200"

record playback =
  pbuffer :: "rat list"
  position :: rat
  playing :: bool

definition new_playback :: playback where
  "new_playback = \<lparr>pbuffer = [], position = 0, playing = False\<rparr>"

definition playback_message :: "rat list option \<Rightarrow> bool \<Rightarrow> playback \<Rightarrow> playback" where
  "playback_message samples reset_flag w =
    (if reset_flag then new_playback
     else case samples of
       None \<Rightarrow> w
     | Some xs \<Rightarrow>
         (let merged = drop (nat \<lfloor>position w\<rfloor>) (pbuffer w) @ xs;
              w = w\<lparr>position := position w - of_int \<lfloor>position w\<rfloor>\<rparr>
          in if length merged > maxFrames
             then w\<lparr>pbuffer := drop (length merged - maxFrames) merged, position := 0\<rparr>
             else w\<lparr>pbuffer := merged\<rparr>))"

text \<open>The loop over the output: \<open>n\<close> frames still to fill, at \<open>rate\<close> source samples for each.\<close>

fun play_frames :: "rat \<Rightarrow> nat \<Rightarrow> playback \<Rightarrow> rat list \<times> playback" where
  "play_frames rate 0 w = ([], w)"
| "play_frames rate (Suc n) w =
    (if nat \<lfloor>position w\<rfloor> + 1 \<ge> length (pbuffer w) then (replicate (Suc n) 0, new_playback)
     else let (out, w') = play_frames rate n (w\<lparr>position := position w + rate\<rparr>)
          in (interpolate (pbuffer w) (position w) # out, w'))"

definition playback_process :: "rat \<Rightarrow> nat option \<Rightarrow> playback \<Rightarrow> rat list \<times> playback" where
  "playback_process rate out w =
    (case out of
       None \<Rightarrow> ([], w)
     | Some n \<Rightarrow>
         if \<not> playing w \<and> of_nat (length (pbuffer w)) - position w < prefillFrames then (replicate n 0, w)
         else play_frames rate n (w\<lparr>playing := True\<rparr>))"

section \<open>The reference: resampling a whole recording\<close>

definition ticks :: "rat \<Rightarrow> nat \<Rightarrow> nat" where
  "ticks s n = nat \<lceil>(of_nat n - 1) / s\<rceil>"

definition resampled :: "rat \<Rightarrow> rat list \<Rightarrow> nat \<Rightarrow> int list" where
  "resampled s xs k = map (\<lambda>j. pcm_word (interpolate xs (of_nat j * s))) [0..<k]"

lemma less_ticks:
  assumes "s > 0"
  shows "k < ticks s n \<longleftrightarrow> of_nat k * s + 1 < of_nat n"
proof -
  have "k < ticks s n \<longleftrightarrow> int k < \<lceil>(of_nat n - 1) / s\<rceil>" unfolding ticks_def by linarith
  also have "\<dots> \<longleftrightarrow> of_nat k < (of_nat n - 1) / s" by (simp add: less_ceiling_iff)
  also have "\<dots> \<longleftrightarrow> of_nat k * s + 1 < of_nat n" using assms by (simp add: pos_less_divide_eq algebra_simps)
  finally show ?thesis .
qed

lemma ticks_mono: "s > 0 \<Longrightarrow> m \<le> n \<Longrightarrow> ticks s m \<le> ticks s n"
  by (simp add: ticks_def nat_mono ceiling_mono divide_right_mono)

lemma nat_floor_less:
  fixes r :: rat
  assumes "0 \<le> r" "r + 1 < of_nat n"
  shows "nat \<lfloor>r\<rfloor> + 1 < n"
proof -
  have "of_int \<lfloor>r\<rfloor> \<le> r" by simp
  with assms(2) have "of_int \<lfloor>r\<rfloor> + 1 < (of_nat n :: rat)" by linarith
  then have "\<lfloor>r\<rfloor> + 1 < int n" by (metis of_int_add of_int_less_iff of_int_of_nat_eq of_int_1)
  with assms(1) show ?thesis by linarith
qed

lemma interpolate_append:
  assumes "0 \<le> r" "r + 1 < of_nat (length xs)"
  shows "interpolate (xs @ ys) r = interpolate xs r"
  using nat_floor_less [OF assms] by (simp add: interpolate_def nth_append)

lemma interpolate_drop:
  assumes "0 \<le> r" "r + of_nat b + 1 < of_nat (length xs)"
  shows "interpolate (drop b xs) r = interpolate xs (r + of_nat b)"
proof -
  have f: "\<lfloor>r + of_nat b\<rfloor> = \<lfloor>r\<rfloor> + int b" by (metis floor_add_int of_int_of_nat_eq)
  then have "nat \<lfloor>r + of_nat b\<rfloor> = b + nat \<lfloor>r\<rfloor>" using assms(1) by (simp add: nat_add_distrib)
  moreover from this have "b + nat \<lfloor>r\<rfloor> + 1 < length xs"
    using nat_floor_less [of "r + of_nat b" "length xs"] assms by simp
  moreover have "r + of_nat b - of_int \<lfloor>r + of_nat b\<rfloor> = r - of_int \<lfloor>r\<rfloor>" by (simp add: f)
  ultimately show ?thesis by (simp add: interpolate_def Let_def)
qed

lemma resampled_append:
  assumes "s > 0" "k \<le> ticks s (length xs)"
  shows "resampled s (xs @ ys) k = resampled s xs k"
proof -
  have "interpolate (xs @ ys) (of_nat j * s) = interpolate xs (of_nat j * s)" if "j < k" for j
    using assms that less_ticks [of s j "length xs"] by (intro interpolate_append) auto
  then show ?thesis by (simp add: resampled_def)
qed

lemma length_resampled: "length (resampled s xs k) = k"
  by (simp add: resampled_def)

lemma resampled_Suc: "resampled s xs (Suc k) = resampled s xs k @ [pcm_word (interpolate xs (of_nat k * s))]"
  by (simp add: resampled_def)

section \<open>The packets hold the reference\<close>

text \<open>
  After \<open>k\<close> samples of the recording \<open>xs\<close>: the first \<open>b\<close> input samples are gone, and the packets sent with
  the written part of the current one are the reference.
\<close>

definition packed :: "packetizer \<Rightarrow> byte list list \<Rightarrow> int list \<Rightarrow> bool" where
  "packed p packets ks \<longleftrightarrow>
    length (packet p) = packetSamples * 2 \<and> packetLength p < packetSamples \<and>
    list_all (\<lambda>b. length b = packetSamples * 2) packets \<and>
    concat packets @ take (packetLength p * 2) (packet p) = concat (map le16 ks)"

definition reads :: "rat \<Rightarrow> rat list \<Rightarrow> nat \<Rightarrow> nat \<Rightarrow> packetizer \<Rightarrow> bool" where
  "reads s xs b k p \<longleftrightarrow> pstep p = s \<and> pinput p = drop b xs \<and> b \<le> length xs \<and> of_nat b \<le> of_nat k * s \<and>
    pread p = of_nat k * s - of_nat b"

lemma packed_new [simp]: "packed \<lparr>pstep = s, pinput = xs, pread = r, packet = blank_packet, packetLength = 0\<rparr> [] []"
  by (simp add: packed_def blank_packet_def packetSamples_def)

lemma packed_emit:
  assumes "packed p packets ks" "emit p = (q, full)"
  shows "packed q (packets @ full) (ks @ [pcm_word (interpolate (pinput p) (pread p))])"
    "pstep q = pstep p" "pinput q = pinput p" "pread q = pread p + pstep p"
proof -
  let ?w = "le16 (pcm_word (interpolate (pinput p) (pread p)))"
  have len: "length ?w = 2" by (simp add: le16_def)
  from assms(1) have fit: "packetLength p * 2 + 2 \<le> length (packet p)" by (simp add: packed_def)
  let ?b = "buf_write (packetLength p * 2) ?w (packet p)"
  have b: "length ?b = length (packet p)" using fit len by simp
  have t: "take (packetLength p * 2 + 2) ?b = take (packetLength p * 2) (packet p) @ ?w"
    using fit len by (simp add: buf_write_def)
  show "packed q (packets @ full) (ks @ [pcm_word (interpolate (pinput p) (pread p))])"
  proof (cases "packetLength p + 1 = packetSamples")
    case True
    with b t assms have "take (packetLength p * 2 + 2) ?b = ?b" by (simp add: packed_def)
    with True assms b t show ?thesis by (auto simp: packed_def emit_def Let_def blank_packet_def packetSamples_def)
  next
    case False
    with assms b t show ?thesis by (auto simp: packed_def emit_def Let_def)
  qed
  show "pstep q = pstep p" "pinput q = pinput p" "pread q = pread p + pstep p"
    using assms(2) by (auto simp: emit_def Let_def split: if_splits)
qed

lemma push_loop_reference:
  assumes "s > 0" "k \<le> ticks s (length xs)" "reads s xs b k p" "packed p (sent @ packets) (resampled s xs k)"
  shows "\<exists>q out. push_loop p packets = Some (q, out) \<and> reads s xs b (ticks s (length xs)) q \<and>
    packed q (sent @ out) (resampled s xs (ticks s (length xs)))"
  using assms(2-)
proof (induction "ticks s (length xs) - k" arbitrary: k p packets)
  case 0
  then have k: "k = ticks s (length xs)" by simp
  then have "\<not> of_nat k * s + 1 < of_nat (length xs)" using less_ticks [OF assms(1), of k] by blast
  with 0 have "\<not> pread p + 1 < of_nat (length (pinput p))" by (auto simp: reads_def)
  then have "push_loop p packets = Some (p, packets)" by (simp add: push_loop.simps)
  with 0 k show ?case by auto
next
  case (Suc m)
  then have k: "k < ticks s (length xs)" by simp
  then have cond: "of_nat k * s + 1 < of_nat (length xs)" using less_ticks [OF assms(1)] by blast
  from Suc.prems have p: "pinput p = drop b xs" "b \<le> length xs" "of_nat b \<le> of_nat k * s"
      "pread p = of_nat k * s - of_nat b" "pstep p = s"
    by (simp_all add: reads_def)
  obtain q full where e: "emit p = (q, full)" by fastforce
  note q = packed_emit [OF Suc.prems(3) e]
  have "interpolate (pinput p) (pread p) = interpolate xs (of_nat k * s)"
    using interpolate_drop [of "pread p" b xs] p cond by simp
  with q(1) have "packed q (sent @ packets @ full) (resampled s xs (Suc k))" by (simp add: resampled_Suc)
  moreover have "reads s xs b (Suc k) q" using q p assms(1) by (simp add: reads_def algebra_simps add_increasing2)
  moreover have "m = ticks s (length xs) - Suc k" "Suc k \<le> ticks s (length xs)" using Suc k by simp_all
  ultimately obtain r out where "push_loop q (packets @ full) = Some (r, out)" "reads s xs b (ticks s (length xs)) r"
      "packed r (sent @ out) (resampled s xs (ticks s (length xs)))"
    using Suc.hyps(1) by blast
  moreover have "pread p + 1 < of_nat (length (pinput p))" using p cond by (simp add: of_nat_diff)
  then have "push_loop p packets = push_loop q (packets @ full)" using e by (simp add: push_loop.simps [of p])
  ultimately show ?case by auto
qed

text \<open>At up to 96 kHz the position never runs past the input, and at most one sample is left over.\<close>

lemma ticks_end:
  assumes "s > 0"
  shows "of_nat (length xs) \<le> of_nat (ticks s (length xs)) * s + 1"
    "s \<le> 2 \<Longrightarrow> of_nat (ticks s (length xs)) * s < of_nat (length xs) + 1"
proof -
  let ?k = "ticks s (length xs)"
  show "of_nat (length xs) \<le> of_nat ?k * s + 1" using less_ticks [OF assms, of ?k "length xs"] by simp
  show "of_nat ?k * s < of_nat (length xs) + 1" if "s \<le> 2"
  proof (cases ?k)
    case (Suc j)
    then have "of_nat j * s + 1 < of_nat (length xs)" using less_ticks [OF assms, of j "length xs"] by simp
    moreover have "of_nat ?k * s = of_nat j * s + s" by (simp add: Suc algebra_simps)
    ultimately show ?thesis using that by linarith
  qed simp
qed

lemma consume_reads:
  assumes "s > 0" "s \<le> 2" "reads s xs b k p" "k = ticks s (length xs)"
  shows "\<exists>b. reads s xs b k (consume p) \<and> length (drop b xs) \<le> 1"
proof -
  let ?c = "\<lfloor>pread p\<rfloor>"
  let ?b = "b + nat ?c"
  from assms(3) have r: "pread p = of_nat k * s - of_nat b" "0 \<le> pread p" "pinput p = drop b xs" "pstep p = s"
    by (auto simp: reads_def)
  have c: "(of_nat ?b :: rat) = of_nat b + of_int ?c" using r(2) by simp
  have f: "of_int ?c \<le> pread p" "pread p < of_int ?c + 1" by linarith+
  have lo: "(of_nat ?b :: rat) \<le> of_nat k * s" using f r c by linarith
  have "(of_nat ?b :: rat) < of_nat (length xs + 1)" using lo ticks_end(2) [OF assms(1,2), of xs] assms(4) by simp
  then have hi: "?b \<le> length xs" unfolding of_nat_less_iff by simp
  have "(of_nat (length xs) :: rat) < of_nat (?b + 2)"
    using f r c ticks_end(1) [OF assms(1), of xs] assms(4) by simp
  then have "length xs < ?b + 2" unfolding of_nat_less_iff .
  then have "length (drop ?b xs) \<le> 1" by simp
  moreover have "reads s xs ?b k (consume p)"
  proof (cases "?c > 0")
    case True
    with lo hi r c show ?thesis by (simp add: reads_def consume_def Let_def add.commute)
  next
    case False
    with r(2) have "?c = 0" by linarith
    with lo hi r c False show ?thesis by (simp add: reads_def consume_def Let_def)
  qed
  ultimately show ?thesis by blast
qed

lemma consume_packed [simp]: "packed (consume p) packets ks = packed p packets ks"
  by (simp add: packed_def consume_def Let_def)

lemma accept_reads:
  assumes "reads s xs b k p" "length (drop b xs) \<le> 1" "length ys \<le> 4095"
  shows "reads s (xs @ ys) b k (accept ys p)"
  using assms by (auto simp: reads_def accept_def Let_def maxInputSamples_def)

lemma accept_packed [simp]: "packed (accept ys p) packets ks = packed p packets ks"
  by (simp add: packed_def accept_def Let_def)

lemma push_reference:
  assumes "0 < s" "s \<le> 2" "reads s xs b (ticks s (length xs)) p" "length (drop b xs) \<le> 1" "length ys \<le> 4095"
    "packed p sent (resampled s xs (ticks s (length xs)))"
  shows "\<exists>q out b. push ys p = Some (q, out) \<and> reads s (xs @ ys) b (ticks s (length (xs @ ys))) q \<and>
    length (drop b (xs @ ys)) \<le> 1 \<and> packed q (sent @ out) (resampled s (xs @ ys) (ticks s (length (xs @ ys))))"
proof -
  let ?k = "ticks s (length xs)" and ?n = "ticks s (length (xs @ ys))"
  have le: "?k \<le> ?n" using assms(1) by (intro ticks_mono) simp_all
  have "reads s (xs @ ys) b ?k (accept ys p)" using assms by (intro accept_reads)
  moreover have "packed (accept ys p) (sent @ []) (resampled s (xs @ ys) ?k)"
    using assms by (simp add: resampled_append)
  ultimately obtain q out where l: "push_loop (accept ys p) [] = Some (q, out)"
      "reads s (xs @ ys) b ?n q" "packed q (sent @ out) (resampled s (xs @ ys) ?n)"
    using push_loop_reference [OF assms(1) le] by blast
  from consume_reads [OF assms(1,2) l(2) refl] obtain c
    where "reads s (xs @ ys) c ?n (consume q)" "length (drop c (xs @ ys)) \<le> 1" by blast
  with l show ?thesis by (intro exI [of _ "consume q"] exI [of _ out] exI [of _ c]) (simp add: push_def)
qed

lemma push_all_reference:
  assumes "0 < s" "s \<le> 2" "reads s xs b (ticks s (length xs)) p" "length (drop b xs) \<le> 1"
    "packed p sent (resampled s xs (ticks s (length xs)))" "list_all (\<lambda>ys. length ys \<le> 4095) blocks"
  shows "\<exists>q out. push_all blocks p = Some (q, out) \<and>
    packed q (sent @ out) (resampled s (xs @ concat blocks) (ticks s (length (xs @ concat blocks))))"
  using assms(3-)
proof (induction blocks arbitrary: xs b p sent)
  case (Cons ys blocks)
  then have "length ys \<le> 4095" by simp
  from push_reference [OF assms(1,2) Cons.prems(1,2) this Cons.prems(3)] obtain q out c
    where q: "push ys p = Some (q, out)" "reads s (xs @ ys) c (ticks s (length (xs @ ys))) q"
      "length (drop c (xs @ ys)) \<le> 1" "packed q (sent @ out) (resampled s (xs @ ys) (ticks s (length (xs @ ys))))"
    by blast
  from Cons.prems have "list_all (\<lambda>ys. length ys \<le> 4095) blocks" by simp
  from Cons.IH [OF q(2-4) this] q(1) show ?case by auto
qed auto

lemma packed_prefix:
  assumes "packed p packets ks"
  shows "list_all (\<lambda>b. length b = 1920) packets" "length packets = length ks div 960"
    "concat packets = take (1920 * length packets) (concat (map le16 ks))"
proof -
  from assms show l: "list_all (\<lambda>b. length b = 1920) packets" by (simp add: packed_def packetSamples_def)
  have n: "length (concat packets) = 1920 * length packets"
    using l by (induction packets) auto
  have k: "length (concat (map le16 ks)) = 2 * length ks" by (induction ks) (auto simp: le16_def)
  from assms have eq: "concat packets @ take (packetLength p * 2) (packet p) = concat (map le16 ks)"
      "packetLength p < 960" "length (packet p) = 1920"
    by (simp_all add: packed_def packetSamples_def)
  from arg_cong [OF eq(1), of length] eq(2,3) have "1920 * length packets + packetLength p * 2 = 2 * length ks"
    by (simp add: n k)
  then have "length ks = 960 * length packets + packetLength p" by simp
  with eq(2) show "length packets = length ks div 960" by simp
  from n eq(1) show "concat packets = take (1920 * length packets) (concat (map le16 ks))"
    by (metis append_eq_conv_conj)
qed

section \<open>Collecting loses nothing\<close>

definition chunker_ok :: "rat list \<Rightarrow> chunker \<Rightarrow> bool" where
  "chunker_ok xs w \<longleftrightarrow> 0 < chunkFrames w \<and> length (chunk w) = chunkFrames w \<and> filled w < chunkFrames w \<and>
    list_all (\<lambda>c. length c = chunkFrames w) (posted w) \<and> concat (posted w) @ take (filled w) (chunk w) = xs"

lemma chunk_round_ok:
  assumes "chunker_ok xs w" "rest \<noteq> []" "chunk_round rest w = (count, w')"
  shows "0 < count" "count \<le> length rest" "chunker_ok (xs @ take count rest) w'" "chunkFrames w' = chunkFrames w"
proof -
  from assms(3) have c: "count = min (length rest) (length (chunk w) - filled w)"
    by (auto simp: chunk_round_def Let_def)
  with assms(1,2) show pos: "0 < count" and le: "count \<le> length rest" by (auto simp: chunker_ok_def)
  let ?c = "take (filled w) (chunk w) @ take count rest @ drop (filled w + count) (chunk w)"
  from assms(1) c have fit: "filled w + count \<le> length (chunk w)" by (auto simp: chunker_ok_def)
  have len: "length ?c = length (chunk w)" using fit le assms(1) by (simp add: chunker_ok_def)
  have tk: "take (filled w + count) ?c = take (filled w) (chunk w) @ take count rest"
    using fit le by simp
  have full: "take (filled w) (chunk w) @ take count rest = ?c" if "filled w + count = length (chunk w)"
    using tk len that by (metis order_refl take_all)
  show "chunkFrames w' = chunkFrames w" using assms(3) by (auto simp: chunk_round_def Let_def)
  from assms(1) have w: "0 < chunkFrames w" "length (chunk w) = chunkFrames w"
      "list_all (\<lambda>c. length c = chunkFrames w) (posted w)" "xs = concat (posted w) @ take (filled w) (chunk w)"
    by (simp_all add: chunker_ok_def)
  show "chunker_ok (xs @ take count rest) w'"
  proof (cases "filled w + count = length (chunk w)")
    case True
    then have "w' = w\<lparr>posted := posted w @ [?c], chunk := replicate (chunkFrames w) 0, filled := 0\<rparr>"
      using assms(3) len by (simp add: chunk_round_def Let_def c [symmetric])
    with w len full [OF True] show ?thesis by (simp add: chunker_ok_def)
  next
    case False
    then have "w' = w\<lparr>chunk := ?c, filled := filled w + count\<rparr>"
      using assms(3) len by (simp add: chunk_round_def Let_def c [symmetric])
    with w len tk fit False show ?thesis by (simp add: chunker_ok_def)
  qed
qed

lemma chunk_loop_ok:
  assumes "chunker_ok xs w"
  shows "\<exists>w'. chunk_loop rest w = Some w' \<and> chunker_ok (xs @ rest) w' \<and> chunkFrames w' = chunkFrames w"
  using assms
proof (induction rest arbitrary: xs w rule: length_induct)
  case (1 rest)
  show ?case
  proof (cases "rest = []")
    case True
    with 1 show ?thesis by (simp add: chunk_loop.simps)
  next
    case False
    obtain count w1 where r: "chunk_round rest w = (count, w1)" by fastforce
    note round = chunk_round_ok [OF 1(2) False r]
    from round(1,2) have "length (drop count rest) < length rest" by simp
    with 1(1) round(3) obtain w' where w': "chunk_loop (drop count rest) w1 = Some w'"
        "chunker_ok ((xs @ take count rest) @ drop count rest) w'" "chunkFrames w' = chunkFrames w1"
      by blast
    have "chunk_loop rest w = chunk_loop (drop count rest) w1" using False r by (simp add: chunk_loop.simps [of rest])
    with w' round(4) show ?thesis by simp
  qed
qed

section \<open>Samples and words\<close>

lemma js_round_between: "of_int m \<le> x \<Longrightarrow> x \<le> of_int n \<Longrightarrow> m \<le> js_round x \<and> js_round x \<le> n"
  by (metis js_round_mono js_round_of_int)

lemma pcm_word_range: "- 32768 \<le> pcm_word x \<and> pcm_word x \<le> 32767"
proof -
  define b where "b = max (- 1) (min 1 x)"
  have b: "- 1 \<le> b" "b \<le> 1" by (simp_all add: b_def)
  have w: "pcm_word x = js_round (b * (if b < 0 then 32768 else 32767))" by (simp add: pcm_word_def b_def Let_def)
  have "of_int (- 32768) \<le> b * (if b < 0 then 32768 else 32767)" "b * (if b < 0 then 32768 else 32767) \<le> of_int 32767"
    using b by auto
  then show ?thesis unfolding w by (rule js_round_between)
qed

lemma uint_byte_of_int [simp]: "uint (word_of_int k :: byte) = k mod 256"
  by (simp add: unsigned_of_int take_bit_eq_mod)

lemma get_le16:
  assumes "- 32768 \<le> k" "k \<le> 32767"
  shows "get_i16_le (pre @ le16 k @ post) (length pre) = k"
proof -
  have "k mod 256 + 256 * (k div 256 mod 256) = k mod 65536"
    using zmod_zmult2_eq [of 256 k 256] by simp
  moreover have "k mod 65536 = (if 0 \<le> k then k else k + 65536)"
    using assms mod_pos_pos_trivial [of "k + 65536" 65536] by auto
  ultimately show ?thesis using assms by (simp add: get_i16_le_def le16_def nth_append Let_def)
qed

lemma get_i16_shift: "get_i16_le (a # b # bs) (Suc (Suc off)) = get_i16_le bs off"
  by (simp add: get_i16_le_def)

lemma speaker_samples_le16:
  assumes "- 32768 \<le> k" "k \<le> 32767"
  shows "speaker_samples (le16 k @ bs) = speaker_sample k # speaker_samples bs"
proof -
  have "length (le16 k @ bs) div 2 = Suc (length bs div 2)" by (simp add: le16_def)
  moreover have "get_i16_le (le16 k @ bs) 0 = k" using get_le16 [OF assms, of "[]" bs] by simp
  moreover have "get_i16_le (le16 k @ bs) (2 + i) = get_i16_le bs i" for i by (simp add: le16_def get_i16_shift)
  ultimately show ?thesis by (simp add: speaker_samples_def upt_rec [of 0] map_Suc_upt [symmetric] comp_def del: upt_Suc)
qed

lemma js_round_near: "\<bar>of_int (js_round x) - x\<bar> \<le> 1 / 2"
  unfolding js_round_def by linarith

lemma pcm_word_near: "\<bar>speaker_sample (pcm_word x) - max (- 1) (min 1 x)\<bar> \<le> 1 / 65534"
proof -
  define b where "b = max (- 1) (min 1 x)"
  define m :: rat where "m = (if b < 0 then 32768 else 32767)"
  have w: "pcm_word x = js_round (b * m)" by (simp add: pcm_word_def b_def m_def Let_def)
  have near: "\<bar>of_int (pcm_word x) - b * m\<bar> \<le> 1 / 2" unfolding w by (rule js_round_near)
  have sg: "pcm_word x \<le> 0" if "b < 0" using that js_round_mono [of "b * m" "of_int 0"] unfolding js_round_of_int by (simp add: w m_def)
  have sp: "pcm_word x \<ge> 0" if "\<not> b < 0" using that js_round_mono [of "of_int 0" "b * m"] unfolding js_round_of_int by (simp add: w m_def)
  have m: "speaker_sample (pcm_word x) = of_int (pcm_word x) / m"
    using sg sp by (cases "pcm_word x = 0"; cases "b < 0") (simp_all add: speaker_sample_def m_def)
  have "\<bar>of_int (pcm_word x) / m - b\<bar> = \<bar>of_int (pcm_word x) - b * m\<bar> / m"
    by (auto simp: m_def abs_if field_simps)
  also have "\<dots> \<le> (1 / 2) / m" using near by (intro divide_right_mono) (auto simp: m_def)
  also have "\<dots> \<le> 1 / 65534" by (simp add: m_def)
  finally show ?thesis unfolding m b_def .
qed

section \<open>The jitter buffer\<close>

abbreviation in_range :: "rat list \<Rightarrow> bool" where
  "in_range \<equiv> list_all (\<lambda>x. - 1 \<le> x \<and> x \<le> 1)"

definition playback_ok :: "playback \<Rightarrow> bool" where
  "playback_ok w \<longleftrightarrow> in_range (pbuffer w) \<and> length (pbuffer w) \<le> maxFrames \<and> 0 \<le> position w"

lemma convex_bounds:
  fixes x y t :: rat
  assumes "- 1 \<le> x" "x \<le> 1" "- 1 \<le> y" "y \<le> 1" "0 \<le> t" "t \<le> 1"
  shows "- 1 \<le> x + (y - x) * t" "x + (y - x) * t \<le> 1"
proof -
  have eq: "x + (y - x) * t = (1 - t) * x + t * y" by (simp add: algebra_simps)
  have "(1 - t) * (- 1) + t * (- 1) \<le> (1 - t) * x + t * y" "(1 - t) * x + t * y \<le> (1 - t) * 1 + t * 1"
    using assms by (intro add_mono mult_left_mono; simp)+
  then show "- 1 \<le> x + (y - x) * t" "x + (y - x) * t \<le> 1" unfolding eq by simp_all
qed

lemma interpolate_range:
  assumes "in_range xs" "0 \<le> r" "nat \<lfloor>r\<rfloor> + 1 < length xs"
  shows "- 1 \<le> interpolate xs r \<and> interpolate xs r \<le> 1"
proof -
  have "- 1 \<le> xs ! nat \<lfloor>r\<rfloor>" "xs ! nat \<lfloor>r\<rfloor> \<le> 1" "- 1 \<le> xs ! (nat \<lfloor>r\<rfloor> + 1)" "xs ! (nat \<lfloor>r\<rfloor> + 1) \<le> 1"
    using assms by (auto simp: list_all_length)
  moreover have "0 \<le> r - of_int \<lfloor>r\<rfloor>" "r - of_int \<lfloor>r\<rfloor> \<le> 1" by linarith+
  ultimately show ?thesis unfolding interpolate_def Let_def using convex_bounds by blast
qed

lemma play_frames_ok:
  assumes "playback_ok w" "0 \<le> rate"
  shows "length (fst (play_frames rate n w)) = n \<and> in_range (fst (play_frames rate n w)) \<and>
    playback_ok (snd (play_frames rate n w))"
  using assms
proof (induction rate n w rule: play_frames.induct)
  case (2 rate n w)
  show ?case
  proof (cases "nat \<lfloor>position w\<rfloor> + 1 \<ge> length (pbuffer w)")
    case True
    then show ?thesis by (simp add: playback_ok_def new_playback_def list_all_iff)
  next
    case False
    from 2 False have "playback_ok (w\<lparr>position := position w + rate\<rparr>)" by (simp add: playback_ok_def)
    moreover have "- 1 \<le> interpolate (pbuffer w) (position w) \<and> interpolate (pbuffer w) (position w) \<le> 1"
      using 2 False by (intro interpolate_range) (auto simp: playback_ok_def)
    ultimately show ?thesis using 2(1) [OF False] 2(3) False by (simp add: split_beta)
  qed
qed simp

lemma in_range_drop: "in_range xs \<Longrightarrow> in_range (drop n xs)"
  by (auto simp: list_all_iff dest: in_set_dropD)

lemma message_ok:
  assumes "playback_ok w" "in_range xs"
  shows "playback_ok (playback_message (Some xs) reset_flag w)"
proof -
  let ?m = "drop (nat \<lfloor>position w\<rfloor>) (pbuffer w) @ xs"
  have "in_range ?m" using assms in_range_drop by (simp add: playback_ok_def)
  moreover have "0 \<le> position w - of_int \<lfloor>position w\<rfloor>" by linarith
  moreover note in_range_drop [of ?m "length ?m - maxFrames"]
  ultimately show ?thesis
    by (simp add: playback_ok_def playback_message_def Let_def new_playback_def del: drop_append length_append)
qed

lemma speaker_sample_range: "- 32768 \<le> k \<Longrightarrow> k \<le> 32767 \<Longrightarrow> - 1 \<le> speaker_sample k \<and> speaker_sample k \<le> 1"
  by (auto simp: speaker_sample_def)

lemma get_i16_range: "- 32768 \<le> get_i16_le bs off \<and> get_i16_le bs off \<le> 32767"
proof -
  have "0 \<le> uint (b :: byte)" "uint b < 256" for b using uint_lt2p [of b] by simp_all
  from this [of "bs ! off"] this [of "bs ! (off + 1)"] show ?thesis
    unfolding get_i16_le_def Let_def by (simp only: split: if_split) linarith
qed

lemma speaker_samples_range: "in_range (speaker_samples payload)"
  by (simp add: speaker_samples_def list_all_iff speaker_sample_range get_i16_range)

lemma speaker_samples_ok: "playback_ok w \<Longrightarrow> playback_ok (playback_message (Some (speaker_samples payload)) r w)"
  by (simp add: message_ok speaker_samples_range)

datatype playback_event = Packet "byte list" | Reset_message | Quantum "nat option"

fun playback_step :: "rat \<Rightarrow> playback \<times> rat list list \<Rightarrow> playback_event \<Rightarrow> playback \<times> rat list list" where
  "playback_step rate (w, outs) (Packet payload) = (playback_message (Some (speaker_samples payload)) False w, outs)"
| "playback_step rate (w, outs) Reset_message = (playback_message None True w, outs)"
| "playback_step rate (w, outs) (Quantum n) = (let (out, w) = playback_process rate n w in (w, outs @ [out]))"

definition playback_inv :: "playback \<times> rat list list \<Rightarrow> bool" where
  "playback_inv s \<longleftrightarrow> playback_ok (fst s) \<and> list_all in_range (snd s)"

lemma process_ok:
  assumes "playback_ok w" "0 \<le> rate"
  shows "playback_ok (snd (playback_process rate n w))" "in_range (fst (playback_process rate n w))"
    "length (fst (playback_process rate n w)) = (case n of None \<Rightarrow> 0 | Some k \<Rightarrow> k)"
  using assms play_frames_ok [of "w\<lparr>playing := True\<rparr>" rate]
  by (auto simp: playback_process_def playback_ok_def list_all_iff split: option.split)

lemma playback_ok_new [simp]: "playback_ok new_playback"
  by (simp add: playback_ok_def new_playback_def)

lemma playback_inv_step: "0 \<le> rate \<Longrightarrow> playback_inv s \<Longrightarrow> playback_inv (playback_step rate s e)"
  by (cases "(rate, s, e)" rule: playback_step.cases)
    (auto simp: playback_inv_def speaker_samples_ok split_beta process_ok playback_message_def [of None])

interpretation jitter_buffer: guarded_machine "(new_playback, [])" "\<lambda>_ _. 0 \<le> rate" "playback_step rate" playback_inv for rate
  by unfold_locales (simp_all add: playback_inv_step, simp add: playback_inv_def)

lemma playback_run_inv: "0 \<le> rate \<Longrightarrow> playback_inv (foldl (playback_step rate) (new_playback, []) es)"
proof (rule jitter_buffer.inv_run)
  show "run_allowed (\<lambda>_ _. 0 \<le> rate) (playback_step rate) (new_playback, []) es" if "0 \<le> rate"
    using that by (induction es rule: rev_induct) (simp_all add: run_allowed_append)
qed

text \<open>How many frames the calls of \<^verbatim>\<open>process\<close> in a run ask for.\<close>

fun quanta :: "playback_event list \<Rightarrow> nat list" where
  "quanta [] = []"
| "quanta (Quantum n # es) = (case n of None \<Rightarrow> 0 | Some k \<Rightarrow> k) # quanta es"
| "quanta (e # es) = quanta es"

lemma quanta_snoc: "quanta (es @ [e]) = quanta es @ quanta [e]"
  by (induction es rule: quanta.induct) simp_all

lemma playback_lengths:
  assumes "0 \<le> rate"
  shows "map length (snd (foldl (playback_step rate) (new_playback, []) es)) = quanta es"
proof (induction es rule: rev_induct)
  case (snoc e es)
  obtain w outs where s: "foldl (playback_step rate) (new_playback, []) es = (w, outs)" by fastforce
  from playback_run_inv [OF assms, of es] have "playback_ok w" by (simp add: s playback_inv_def)
  with snoc assms show ?case by (cases e) (simp_all add: s quanta_snoc split_beta process_ok(3))
qed simp

section \<open>The microphone\<close>

text \<open>
  However the samples are cut into blocks of up to 4095, the packets are the whole recording interpolated at 48 kHz.
\<close>

lemma packets_reference:
  assumes "new_packetizer rate = Inr p" "rate \<le> 96000" "list_all (\<lambda>b. length b \<le> 4095) blocks"
  defines "ks \<equiv> resampled (rate / 48000) (concat blocks) (ticks (rate / 48000) (length (concat blocks)))"
  shows "\<exists>q packets. push_all blocks p = Some (q, packets) \<and> list_all (\<lambda>b. length b = 1920) packets \<and>
    length packets = length ks div 960 \<and> concat packets = take (1920 * length packets) (concat (map le16 ks))"
proof -
  from assms(1) have rate: "8000 \<le> rate" and p: "p = \<lparr>pstep = rate / 48000, pinput = [], pread = 0, packet = blank_packet, packetLength = 0\<rparr>"
    by (auto simp: new_packetizer_def targetRate_def split: if_splits)
  let ?s = "rate / 48000"
  have s: "0 < ?s" "?s \<le> 2" using rate assms(2) by simp_all
  have "ticks ?s 0 = 0" using rate by (simp add: ticks_def)
  then have "reads ?s [] 0 (ticks ?s (length ([] :: rat list))) p"
      "packed p [] (resampled ?s [] (ticks ?s (length ([] :: rat list))))"
    by (simp_all add: reads_def p resampled_def)
  from push_all_reference [OF s this(1) _ this(2) assms(3)] obtain q packets
    where "push_all blocks p = Some (q, packets)" "packed q packets ks"
    by (auto simp: ks_def)
  with packed_prefix show ?thesis by blast
qed

fun audio_all :: "rat list option list \<Rightarrow> chunker \<Rightarrow> chunker option" where
  "audio_all [] w = Some w"
| "audio_all (q # qs) w = (case audio_process q w of None \<Rightarrow> None | Some w \<Rightarrow> audio_all qs w)"

definition recording :: "rat list option list \<Rightarrow> rat list" where
  "recording qs = concat (map (\<lambda>q. case q of None \<Rightarrow> [] | Some xs \<Rightarrow> xs) qs)"

lemma audio_process_ok:
  assumes "chunker_ok xs w"
  shows "\<exists>w'. audio_process q w = Some w' \<and> chunker_ok (xs @ (case q of None \<Rightarrow> [] | Some ys \<Rightarrow> ys)) w' \<and>
    chunkFrames w' = chunkFrames w"
  using assms chunk_loop_ok [OF assms] by (cases q) (auto simp: audio_process_def)

lemma audio_all_ok:
  assumes "chunker_ok xs w"
  shows "\<exists>w'. audio_all qs w = Some w' \<and> chunker_ok (xs @ recording qs) w' \<and> chunkFrames w' = chunkFrames w"
  using assms
proof (induction qs arbitrary: xs w)
  case (Cons q qs)
  from audio_process_ok [OF Cons.prems, of q] obtain w1
    where w1: "audio_process q w = Some w1" "chunker_ok (xs @ (case q of None \<Rightarrow> [] | Some ys \<Rightarrow> ys)) w1"
      "chunkFrames w1 = chunkFrames w" by blast
  from Cons.IH [OF w1(2)] w1 show ?case by (auto simp: recording_def)
qed (simp add: recording_def)

lemma chunkFrames_bounds:
  assumes "8000 \<le> rate" "rate \<le> 96000"
  shows "160 \<le> js_round (rate / 50) \<and> js_round (rate / 50) \<le> 1920"
  using assms by (intro js_round_between) simp_all

section \<open>Properties\<close>

text \<open>
  C9: For an input rate between 8 and 96 kHz (the packetizer accepts up to 192 kHz, where \<open>fast_rate_skips\<close> shows that the
  result depends on how the recording is cut up), and whatever the sizes of the pieces the audio thread hands over: the
  worklet posts the recording in chunks of 20 ms and keeps less than one; the packets made of the chunks are exactly what
  is posted so far interpolated at 48 kHz, as little-endian 16-bit words, in packets of 960 words; both loops always end.
  Positions and samples are exact rationals.
\<close>

theorem microphone_pipeline:
  assumes "new_packetizer rate = Inr p" "rate \<le> 96000"
  shows "\<exists>w rest q packets. audio_all quantums (new_chunker rate) = Some w \<and>
    recording quantums = concat (posted w) @ rest \<and> int (length rest) < js_round (rate / 50) \<and>
    push_all (posted w) p = Some (q, packets) \<and> list_all (\<lambda>b. length b = 1920) packets \<and>
    (let xs = concat (posted w); ks = resampled (rate / 48000) xs (ticks (rate / 48000) (length xs))
     in length packets = length ks div 960 \<and> concat packets = take (1920 * length packets) (concat (map le16 ks)))"
proof -
  from assms(1) have "8000 \<le> rate" by (auto simp: new_packetizer_def split: if_splits)
  note b = chunkFrames_bounds [OF this assms(2)]
  then have "chunker_ok [] (new_chunker rate)" by (simp add: chunker_ok_def new_chunker_def Let_def)
  from audio_all_ok [OF this, of quantums] obtain w where w: "audio_all quantums (new_chunker rate) = Some w"
      "chunker_ok (recording quantums) w" "chunkFrames w = nat (js_round (rate / 50))"
    by (auto simp: new_chunker_def Let_def)
  from w(2,3) b have "list_all (\<lambda>c. length c \<le> 4095) (posted w)" by (auto simp: chunker_ok_def list_all_iff)
  from packets_reference [OF assms this] obtain q packets where q: "push_all (posted w) p = Some (q, packets)"
      "list_all (\<lambda>b. length b = 1920) packets"
      "length packets = length (resampled (rate / 48000) (concat (posted w)) (ticks (rate / 48000) (length (concat (posted w))))) div 960"
      "concat packets = take (1920 * length packets) (concat (map le16 (resampled (rate / 48000) (concat (posted w))
         (ticks (rate / 48000) (length (concat (posted w)))))))"
    by blast
  from w(2,3) b have "recording quantums = concat (posted w) @ take (filled w) (chunk w)"
      "int (length (take (filled w) (chunk w))) < js_round (rate / 50)"
    by (auto simp: chunker_ok_def)
  with w(1) q show ?thesis unfolding Let_def by blast
qed

theorem microphone_pipeline_witness:
  "\<exists>w rest. audio_all [Some [0, 1 / 2], None, Some [- 1]] (new_chunker 44100) = Some w \<and>
     [0, 1 / 2, - 1] = concat (posted w) @ rest"
proof -
  have p: "new_packetizer 44100 = Inr (projr (new_packetizer 44100))" by (simp add: new_packetizer_def)
  have "recording [Some [0, 1 / 2], None, Some [- 1]] = [0, 1 / 2, - 1]" by (simp add: recording_def)
  with microphone_pipeline [OF p, of "[Some [0, 1 / 2], None, Some [- 1]]"] show ?thesis by force
qed

text \<open>
  A recording packed into words and read back as the speaker does differs from the recording, clipped to the
  range of a sample, by at most half a step of the 16-bit scale.
\<close>

theorem pcm_round_trip:
  "list_all2 (\<lambda>x y. \<bar>y - max (- 1) (min 1 x)\<bar> \<le> 1 / 65534) xs (speaker_samples (concat (map (\<lambda>x. le16 (pcm_word x)) xs)))"
proof (induction xs)
  case (Cons x xs)
  with pcm_word_near [of x] pcm_word_range [of x] show ?case by (simp add: speaker_samples_le16)
qed (simp add: speaker_samples_def)

text \<open>
  C40: whatever bytes arrive from the device, and however packets, resets and requests for sound follow each other, the
  jitter buffer holds at most 400 ms, every request is filled to its last frame, and no frame leaves the range of a
  sample.
\<close>

theorem playback_bounded:
  fixes es :: "playback_event list"
  assumes "0 < rate"
  defines "s \<equiv> foldl (playback_step (48000 / rate)) (new_playback, []) es"
  shows "length (pbuffer (fst s)) \<le> 19200 \<and> map length (snd s) = quanta es \<and>
    list_all (\<lambda>out. list_all (\<lambda>x. - 1 \<le> x \<and> x \<le> 1) out) (snd s)"
proof -
  have rate: "0 \<le> 48000 / rate" using assms(1) by simp
  from playback_run_inv [OF rate, of es] playback_lengths [OF rate, of es] show ?thesis
    unfolding s_def by (simp add: playback_inv_def playback_ok_def maxFrames_def)
qed

theorem playback_bounded_witness:
  "map length (snd (foldl (playback_step (48000 / 44100)) (new_playback, [])
     [Packet [0, 128, 255, 127], Quantum (Some 128), Reset_message, Quantum None])) = [128, 0]"
  using playback_bounded [of 44100 "[Packet [0, 128, 255, 127], Quantum (Some 128), Reset_message, Quantum None]"]
  by simp

text \<open>
  Beyond 96 kHz the blocks matter: at 176.4 kHz four samples at once give one word, the same four in two blocks give
  two, because a position past the end of the input is cut back to the end.
\<close>

lemma push_loop_cases:
  "\<not> pread p + 1 < of_nat (length (pinput p)) \<Longrightarrow> push_loop p packets = Some (p, packets)"
  "pread p + 1 < of_nat (length (pinput p)) \<Longrightarrow>
    push_loop p packets = push_loop (fst (emit p)) (packets @ snd (emit p))"
  by (simp_all add: push_loop.simps [of p] split_beta)

lemma fast_rate_skips:
  "map_option (packetLength \<circ> fst) (push_all [[0, 0, 0, 0]] (projr (new_packetizer 176400))) = Some 1 \<and>
   map_option (packetLength \<circ> fst) (push_all [[0, 0], [0, 0]] (projr (new_packetizer 176400))) = Some 2"
proof -
  have f: "\<lfloor>147 / 40 :: rat\<rfloor> = 3" "\<lfloor>87 / 20 :: rat\<rfloor> = 4" by (rule floor_unique; simp)+
  show ?thesis
    by (simp add: new_packetizer_def targetRate_def push_def accept_def maxInputSamples_def push_loop_cases emit_def
        packetSamples_def consume_def f)
qed

end
