(* ===== verification/Camera_Capture.thy ===== *)
theory Camera_Capture
  imports Prelude
begin

text \<open>
  Sharing a camera: the class \<^verbatim>\<open>CameraCapture\<close> of \<^verbatim>\<open>web/src/pages/desktop/menu/devices/capture.ts\<close> and the
  watchdog's rules in \<^verbatim>\<open>health.ts\<close>. An asynchronous operation is one definition for each stretch between two
  \<^verbatim>\<open>await\<close>s; the promises it waits for are listed in \<open>waits\<close> and settled by events. Beside the fields of the class
  the state lists what the browser keeps alive on its behalf: streams, workers, timers, intervals.
\<close>

section \<open>The watchdog\<close>

definition captureStallTimeoutMS :: int where "captureStallTimeoutMS = 3000"
definition captureHealthyMS :: int where "captureHealthyMS = 15000"
definition captureRestartDelaysMS :: "int list" where "captureRestartDelaysMS = [500, 1000, 2000, 4000, 8000]"

record capture_sample =
  at_ms :: int
  sample_frames :: nat
  live :: bool

definition captureProgress :: "capture_sample \<Rightarrow> capture_sample \<Rightarrow> capture_sample" where
  "captureProgress progress latest = (if sample_frames latest \<noteq> sample_frames progress then latest else progress)"

definition captureStalled :: "capture_sample \<Rightarrow> capture_sample \<Rightarrow> bool" where
  "captureStalled progress latest \<longleftrightarrow> \<not> live latest \<or> at_ms latest - at_ms progress \<ge> captureStallTimeoutMS"

definition captureRestartDelay :: "nat \<Rightarrow> int" where
  "captureRestartDelay restarts = captureRestartDelaysMS ! min restarts (length captureRestartDelaysMS - 1)"

section \<open>State\<close>

record camera_params =
  pid :: nat  \<comment> \<open>identity of the object\<close>
  deviceID :: string
  fps :: nat  \<comment> \<open>0 when the demand names none\<close>

datatype origin = From_start | From_restart

text \<open>What is awaited, with the generation it belongs to and the parameters it was called with.\<close>

datatype wait =
  Wait_media nat camera_params origin
| Wait_play nat camera_params origin
| Wait_delay nat camera_params int
| Wait_bitmap nat camera_params

fun wait_gen :: "wait \<Rightarrow> nat" where
  "wait_gen (Wait_media g p src) = g"
| "wait_gen (Wait_play g p src) = g"
| "wait_gen (Wait_delay g p d) = g"
| "wait_gen (Wait_bitmap g p) = g"

datatype call = Frame "byte list" | Error string

record armed =
  timer_id :: nat
  timer_gen :: nat
  timer_params :: camera_params
  due :: rat

record camera =
  worker :: "nat option"
  stream :: "nat option"
  cvideo :: "nat option"
  ctimer :: "nat option"
  watchdog :: "nat option"
  encoding :: bool
  frameID :: nat
  stopped :: bool
  frames :: nat
  restarts :: nat
  openedAt :: int
  generation :: nat
  params :: "camera_params option"
  progress :: capture_sample
  \<comment> \<open>the browser\<close>
  streams :: "nat list"
  workers :: "nat list"
  timers :: "armed list"
  watchdogs :: "(nat \<times> nat) list"
  handlers :: "(nat \<times> camera_params) list"
  waits :: "wait list"
  calls :: "(nat \<times> call) list"
  next_id :: nat

definition new_camera :: camera where
  "new_camera =
    \<lparr>worker = None, stream = None, cvideo = None, ctimer = None, watchdog = None, encoding = False, frameID = 0,
     stopped = True, frames = 0, restarts = 0, openedAt = 0, generation = 0, params = None,
     progress = \<lparr>at_ms = 0, sample_frames = 0, live = False\<rparr>, streams = [], workers = [], timers = [],
     watchdogs = [], handlers = [], waits = [], calls = [], next_id = 1\<rparr>"

section \<open>Operations\<close>

definition without :: "'a option \<Rightarrow> 'a list \<Rightarrow> 'a list" where
  "without x xs = filter (\<lambda>y. x \<noteq> Some y) xs"

definition teardown :: "camera \<Rightarrow> camera" where
  "teardown c =
    c\<lparr>stopped := True,
      timers := filter (\<lambda>t. ctimer c \<noteq> Some (timer_id t)) (timers c), ctimer := None,
      watchdogs := filter (\<lambda>w. watchdog c \<noteq> Some (fst w)) (watchdogs c), watchdog := None,
      workers := without (worker c) (workers c), worker := None,
      streams := without (stream c) (streams c), stream := None,
      cvideo := None, encoding := False\<rparr>"

definition stop :: "camera \<Rightarrow> camera" where
  "stop c = teardown (c\<lparr>generation := generation c + 1, params := None\<rparr>)"

definition report :: "camera_params \<Rightarrow> call \<Rightarrow> camera \<Rightarrow> camera" where
  "report p x c = c\<lparr>calls := calls c @ [(pid p, x)]\<rparr>"

definition await :: "wait \<Rightarrow> camera \<Rightarrow> camera" where
  "await w c = c\<lparr>waits := waits c @ [w]\<rparr>"

definition settled :: "wait \<Rightarrow> camera \<Rightarrow> camera" where
  "settled w c = c\<lparr>waits := remove1 w (waits c)\<rparr>"

text \<open>\<^verbatim>\<open>restart\<close> up to its delay.\<close>

definition restart :: "nat \<Rightarrow> int \<Rightarrow> camera \<Rightarrow> camera" where
  "restart g now c =
    (case params c of
       None \<Rightarrow> c
     | Some p \<Rightarrow>
         if generation c \<noteq> g then c
         else
           (let c = (if openedAt c \<noteq> 0 \<and> now - openedAt c \<ge> captureHealthyMS then c\<lparr>restarts := 0\<rparr> else c);
                delay = captureRestartDelay (restarts c);
                c = teardown (c\<lparr>restarts := restarts c + 1, generation := generation c + 1\<rparr>)
            in await (Wait_delay (generation c) p delay) c))"

text \<open>The handlers of a failed \<^verbatim>\<open>open\<close> in \<^verbatim>\<open>start\<close> and in \<^verbatim>\<open>restart\<close>.\<close>

definition open_failed :: "nat \<Rightarrow> camera_params \<Rightarrow> origin \<Rightarrow> string \<Rightarrow> int \<Rightarrow> camera \<Rightarrow> camera" where
  "open_failed g p src msg now c =
    (case src of
       From_start \<Rightarrow> if generation c \<noteq> g then c else teardown c
     | From_restart \<Rightarrow>
         if generation c \<noteq> g \<or> map_option pid (params c) \<noteq> Some (pid p) then c
         else restart g now (report p (Error msg) c))"

text \<open>\<^verbatim>\<open>open\<close> up to \<^verbatim>\<open>getUserMedia\<close>; \<open>blocked\<close> is what \<^verbatim>\<open>captureSupport\<close> says.\<close>

definition open_camera :: "nat \<Rightarrow> origin \<Rightarrow> bool \<Rightarrow> int \<Rightarrow> camera \<Rightarrow> camera" where
  "open_camera g src blocked now c =
    (case params c of
       None \<Rightarrow> c
     | Some p \<Rightarrow>
         if generation c \<noteq> g then c
         else if blocked then open_failed g p src ''capture unsupported'' now (teardown c)
         else await (Wait_media g p src) (teardown c))"

definition start :: "string \<Rightarrow> nat \<Rightarrow> bool \<Rightarrow> int \<Rightarrow> camera \<Rightarrow> camera" where
  "start device rate blocked now c =
    (let p = \<lparr>pid = next_id c, deviceID = device, fps = rate\<rparr>;
         c = c\<lparr>next_id := next_id c + 1, params := Some p, restarts := 0, generation := generation c + 1\<rparr>
     in open_camera (generation c) From_start blocked now c)"

text \<open>A stream granted to a retired attempt is stopped at once: it never joins the open streams.\<close>

definition media_granted :: "nat \<Rightarrow> camera_params \<Rightarrow> origin \<Rightarrow> camera \<Rightarrow> camera" where
  "media_granted g p src c =
    (let i = next_id c; c = c\<lparr>next_id := i + 1\<rparr>
     in if generation c \<noteq> g then c
        else await (Wait_play g p src) (c\<lparr>streams := streams c @ [i], stream := Some i, cvideo := Some i\<rparr>))"

text \<open>The encode loop: arm the next tick, then grab a frame unless one is under way.\<close>

definition interval :: "camera_params \<Rightarrow> rat" where
  "interval p = of_int \<lceil>1000 / of_nat (if fps p = 0 then 15 else fps p) :: rat\<rceil>"

definition next_due :: "camera_params \<Rightarrow> rat \<Rightarrow> rat \<Rightarrow> rat" where
  "next_due p d now = max (d + interval p) now"

definition arm :: "nat \<Rightarrow> camera_params \<Rightarrow> rat \<Rightarrow> rat \<Rightarrow> camera \<Rightarrow> camera" where
  "arm g p d now c =
    (let i = next_id c
     in c\<lparr>next_id := i + 1, ctimer := Some i,
          timers := timers c @ [\<lparr>timer_id = i, timer_gen = g, timer_params = p, due = next_due p d now\<rparr>]\<rparr>)"

definition encode :: "nat \<Rightarrow> camera_params \<Rightarrow> rat \<Rightarrow> rat \<Rightarrow> bool \<Rightarrow> camera \<Rightarrow> camera" where
  "encode g p d now ready c =
    (if generation c \<noteq> g \<or> stopped c then c
     else let c = arm g p d now c
          in if \<not> encoding c \<and> ready then await (Wait_bitmap g p) (c\<lparr>encoding := True\<rparr>) else c)"

definition sample :: "bool \<Rightarrow> int \<Rightarrow> camera \<Rightarrow> capture_sample" where
  "sample track now c = \<lparr>at_ms = now, sample_frames = frames c, live = stream c \<noteq> None \<and> track\<rparr>"

definition watch :: "nat \<Rightarrow> bool \<Rightarrow> int \<Rightarrow> camera \<Rightarrow> camera" where
  "watch g track now c =
    (let i = next_id c
     in c\<lparr>progress := sample track now c, next_id := i + 1, watchdog := Some i, watchdogs := watchdogs c @ [(i, g)]\<rparr>)"

definition playing :: "nat \<Rightarrow> camera_params \<Rightarrow> bool \<Rightarrow> int \<Rightarrow> rat \<Rightarrow> bool \<Rightarrow> camera \<Rightarrow> camera" where
  "playing g p track now clock ready c =
    (if generation c \<noteq> g then c
     else
       (let i = next_id c;
            c = c\<lparr>next_id := i + 1, worker := Some i, workers := workers c @ [i], handlers := handlers c @ [(g, p)],
                  stopped := False, frames := 0, openedAt := now\<rparr>
        in encode g p clock clock ready (watch g track now c)))"

definition worker_message :: "nat \<Rightarrow> camera_params \<Rightarrow> byte list option \<Rightarrow> string option \<Rightarrow> camera \<Rightarrow> camera" where
  "worker_message g p payload err c =
    (if generation c \<noteq> g \<or> stopped c then c
     else
       (let c = c\<lparr>encoding := False\<rparr>;
            c = (case err of None \<Rightarrow> c | Some m \<Rightarrow> if m = '''' then c else report p (Error m) c)
        in case payload of None \<Rightarrow> c | Some x \<Rightarrow> report p (Frame x) (c\<lparr>frames := frames c + 1\<rparr>)))"

definition worker_error :: "nat \<Rightarrow> camera_params \<Rightarrow> camera \<Rightarrow> camera" where
  "worker_error g p c =
    (if generation c \<noteq> g \<or> stopped c then c else report p (Error ''Camera encoder stopped'') (c\<lparr>encoding := False\<rparr>))"

definition bitmap_made :: "nat \<Rightarrow> camera \<Rightarrow> camera" where
  "bitmap_made g c = (if generation c \<noteq> g \<or> stopped c then c else c\<lparr>frameID := frameID c + 1\<rparr>)"

definition bitmap_failed :: "nat \<Rightarrow> camera_params \<Rightarrow> string \<Rightarrow> camera \<Rightarrow> camera" where
  "bitmap_failed g p msg c =
    (if generation c \<noteq> g \<or> stopped c then c else report p (Error msg) (c\<lparr>encoding := False\<rparr>))"

definition watchdog_tick :: "nat \<Rightarrow> bool \<Rightarrow> int \<Rightarrow> camera \<Rightarrow> camera" where
  "watchdog_tick g track now c =
    (if generation c \<noteq> g \<or> stopped c then c
     else
       (let latest = sample track now c; c = c\<lparr>progress := captureProgress (progress c) latest\<rparr>
        in if \<not> captureStalled (progress c) latest then c
           else restart g now
             (case params c of None \<Rightarrow> c | Some p \<Rightarrow> report p (Error ''Camera stopped producing frames; reconnecting'') c)))"

definition delay_over :: "nat \<Rightarrow> camera_params \<Rightarrow> bool \<Rightarrow> int \<Rightarrow> camera \<Rightarrow> camera" where
  "delay_over g p blocked now c =
    (if generation c \<noteq> g \<or> map_option pid (params c) \<noteq> Some (pid p) then c
     else open_camera g From_restart blocked now c)"

section \<open>Events\<close>

datatype camera_event =
  Start string nat bool int
| Stop
| Media_granted wait
| Media_refused wait string int
| Plays wait bool int rat bool
| Play_failed wait string int
| Delay_over wait bool int
| Tick armed rat bool
| Watchdog "nat \<times> nat" bool int
| Worker_message "nat \<times> camera_params" "byte list option" "string option"
| Worker_error "nat \<times> camera_params"
| Bitmap_made wait
| Bitmap_failed wait string

fun camera_step :: "camera \<Rightarrow> camera_event \<Rightarrow> camera" where
  "camera_step c (Start device rate blocked now) = start device rate blocked now c"
| "camera_step c Stop = stop c"
| "camera_step c (Media_granted w) =
    (case w of Wait_media g p src \<Rightarrow> media_granted g p src (settled w c) | _ \<Rightarrow> c)"
| "camera_step c (Media_refused w msg now) =
    (case w of Wait_media g p src \<Rightarrow> open_failed g p src msg now (settled w c) | _ \<Rightarrow> c)"
| "camera_step c (Plays w track now clock ready) =
    (case w of Wait_play g p src \<Rightarrow> playing g p track now clock ready (settled w c) | _ \<Rightarrow> c)"
| "camera_step c (Play_failed w msg now) =
    (case w of Wait_play g p src \<Rightarrow> open_failed g p src msg now (settled w c) | _ \<Rightarrow> c)"
| "camera_step c (Delay_over w blocked now) =
    (case w of Wait_delay g p d \<Rightarrow> delay_over g p blocked now (settled w c) | _ \<Rightarrow> c)"
| "camera_step c (Tick t now ready) =
    encode (timer_gen t) (timer_params t) (due t) now ready (c\<lparr>timers := remove1 t (timers c)\<rparr>)"
| "camera_step c (Watchdog w track now) = watchdog_tick (snd w) track now c"
| "camera_step c (Worker_message h payload err) = worker_message (fst h) (snd h) payload err c"
| "camera_step c (Worker_error h) = worker_error (fst h) (snd h) c"
| "camera_step c (Bitmap_made w) = (case w of Wait_bitmap g p \<Rightarrow> bitmap_made g (settled w c) | _ \<Rightarrow> c)"
| "camera_step c (Bitmap_failed w msg) =
    (case w of Wait_bitmap g p \<Rightarrow> bitmap_failed g p msg (settled w c) | _ \<Rightarrow> c)"

text \<open>Only what is awaited, armed or registered can happen.\<close>

fun camera_possible :: "camera \<Rightarrow> camera_event \<Rightarrow> bool" where
  "camera_possible c (Start device rate blocked now) = True"
| "camera_possible c Stop = True"
| "camera_possible c (Media_granted w) = (w \<in> set (waits c))"
| "camera_possible c (Media_refused w msg now) = (w \<in> set (waits c))"
| "camera_possible c (Plays w track now clock ready) = (w \<in> set (waits c))"
| "camera_possible c (Play_failed w msg now) = (w \<in> set (waits c))"
| "camera_possible c (Delay_over w blocked now) = (w \<in> set (waits c))"
| "camera_possible c (Tick t now ready) = (t \<in> set (timers c))"
| "camera_possible c (Watchdog w track now) = (w \<in> set (watchdogs c))"
| "camera_possible c (Worker_message h payload err) = (h \<in> set (handlers c))"
| "camera_possible c (Worker_error h) = (h \<in> set (handlers c))"
| "camera_possible c (Bitmap_made w) = (w \<in> set (waits c))"
| "camera_possible c (Bitmap_failed w msg) = (w \<in> set (waits c))"

section \<open>Invariant\<close>

text \<open>The steps of \<^verbatim>\<open>open\<close> that wait for the current generation.\<close>

fun opens :: "nat \<Rightarrow> wait \<Rightarrow> bool" where
  "opens g (Wait_media h p src) = (h = g)"
| "opens g (Wait_play h p src) = (h = g)"
| "opens g (Wait_delay h p d) = (h = g)"
| "opens g (Wait_bitmap h p) = False"

definition current_waits :: "camera \<Rightarrow> wait list" where
  "current_waits c = filter (opens (generation c)) (waits c)"

fun held :: "'a option \<Rightarrow> 'a list" where
  "held None = []"
| "held (Some x) = [x]"

definition resources_ok :: "camera \<Rightarrow> bool" where
  "resources_ok c \<longleftrightarrow> streams c = held (stream c) \<and> workers c = held (worker c) \<and>
    (timers c = [] \<or> map timer_id (timers c) = held (ctimer c)) \<and>
    watchdogs c = map (\<lambda>i. (i, generation c)) (held (watchdog c)) \<and>
    list_all (\<lambda>t. timer_gen t = generation c) (timers c)"

text \<open>While nothing runs, at most one step of \<^verbatim>\<open>open\<close> is awaited, and a stream is held only to be played.\<close>

fun waiting_ok :: "wait list \<Rightarrow> bool \<Rightarrow> bool" where
  "waiting_ok [] no_stream = no_stream"
| "waiting_ok [Wait_play g p src] no_stream = (\<not> no_stream)"
| "waiting_ok [Wait_media g p src] no_stream = no_stream"
| "waiting_ok [Wait_delay g p d] no_stream = no_stream"
| "waiting_ok _ _ = False"

definition phase_ok :: "camera \<Rightarrow> bool" where
  "phase_ok c \<longleftrightarrow>
    (if stopped c
     then worker c = None \<and> ctimer c = None \<and> watchdog c = None \<and> waiting_ok (current_waits c) (stream c = None)
     else worker c \<noteq> None \<and> stream c \<noteq> None \<and> watchdog c \<noteq> None \<and> params c \<noteq> None \<and> current_waits c = [])"

text \<open>What belongs to the current generation belongs to the current parameters.\<close>

definition owned_by :: "nat \<Rightarrow> camera_params option \<Rightarrow> nat \<Rightarrow> camera_params \<Rightarrow> bool" where
  "owned_by g x h p \<longleftrightarrow> h < g \<or> h = g \<and> x = Some p"

fun wait_owned :: "nat \<Rightarrow> camera_params option \<Rightarrow> wait \<Rightarrow> bool" where
  "wait_owned g x (Wait_media h p src) = owned_by g x h p"
| "wait_owned g x (Wait_play h p src) = owned_by g x h p"
| "wait_owned g x (Wait_delay h p d) = owned_by g x h p"
| "wait_owned g x (Wait_bitmap h p) = owned_by g x h p"

definition owner_ok :: "camera \<Rightarrow> bool" where
  "owner_ok c \<longleftrightarrow> list_all (wait_owned (generation c) (params c)) (waits c) \<and>
    list_all (\<lambda>h. owned_by (generation c) (params c) (fst h) (snd h)) (handlers c) \<and>
    list_all (\<lambda>t. owned_by (generation c) (params c) (timer_gen t) (timer_params t)) (timers c)"

definition camera_inv :: "camera \<Rightarrow> bool" where
  "camera_inv c \<longleftrightarrow> resources_ok c \<and> phase_ok c \<and> owner_ok c"

definition idle :: "camera \<Rightarrow> bool" where
  "idle c \<longleftrightarrow> stopped c \<and> streams c = [] \<and> workers c = [] \<and> timers c = [] \<and> watchdogs c = [] \<and> worker c = None \<and>
    stream c = None \<and> ctimer c = None \<and> watchdog c = None"

lemma teardown_idle: "resources_ok c \<Longrightarrow> idle (teardown (c\<lparr>restarts := n, generation := g, params := x\<rparr>))"
  by (cases "stream c"; cases "worker c"; cases "watchdog c"; cases "ctimer c")
    (auto simp: resources_ok_def idle_def teardown_def without_def)

lemma teardown_fields [simp]:
  "generation (teardown c) = generation c" "params (teardown c) = params c" "waits (teardown c) = waits c"
  "handlers (teardown c) = handlers c" "calls (teardown c) = calls c" "next_id (teardown c) = next_id c"
  "restarts (teardown c) = restarts c" "frames (teardown c) = frames c" "openedAt (teardown c) = openedAt c"
  by (simp_all add: teardown_def)

lemma idle_inv:
  assumes "idle c" "owner_ok c" "current_waits c = []"
  shows "camera_inv c"
  using assms by (simp add: camera_inv_def idle_def resources_ok_def phase_ok_def)

lemma owned_by_retire: "owned_by g x h p \<Longrightarrow> owned_by (Suc g) y h p"
  by (auto simp: owned_by_def)

lemma wait_owned_retire: "wait_owned g x w \<Longrightarrow> wait_owned (Suc g) y w"
  by (cases w) (auto intro: owned_by_retire)

lemma not_opens: "wait_owned g x w \<Longrightarrow> \<not> opens (Suc g) w"
  by (cases w) (auto simp: owned_by_def)

lemma owner_retire:
  assumes "owner_ok c"
  shows "owner_ok (teardown (c\<lparr>restarts := n, generation := Suc (generation c), params := x\<rparr>))"
    "current_waits (teardown (c\<lparr>restarts := n, generation := Suc (generation c), params := x\<rparr>)) = []"
  using assms
  by (auto simp: owner_ok_def current_waits_def teardown_def list_all_iff filter_empty_conv not_opens
      intro: owned_by_retire wait_owned_retire)

lemma await_idle:
  assumes "idle c" "owner_ok c" "current_waits c = []" "params c = Some p"
  shows "camera_inv (await (Wait_media (generation c) p src) c)" "camera_inv (await (Wait_delay (generation c) p d) c)"
  using assms by (simp_all add: camera_inv_def idle_def resources_ok_def phase_ok_def await_def current_waits_def owner_ok_def owned_by_def)

lemma report_fields [simp]:
  "generation (report p x c) = generation c" "params (report p x c) = params c" "restarts (report p x c) = restarts c"
  "openedAt (report p x c) = openedAt c" "stopped (report p x c) = stopped c"
  by (simp_all add: report_def)

lemma inv_cong:
  assumes "camera_inv c" "worker d = worker c" "stream d = stream c" "ctimer d = ctimer c" "watchdog d = watchdog c"
    "stopped d = stopped c" "generation d = generation c" "params d = params c" "streams d = streams c"
    "workers d = workers c" "timers d = timers c" "watchdogs d = watchdogs c" "handlers d = handlers c" "waits d = waits c"
  shows "camera_inv d"
proof -
  have "current_waits d = current_waits c" using assms by (simp add: current_waits_def)
  with assms show ?thesis by (simp add: camera_inv_def resources_ok_def phase_ok_def owner_ok_def)
qed

lemma camera_inv_report [simp]: "camera_inv (report p x c) = camera_inv c"
  by (rule iffI; erule inv_cong) (simp_all add: report_def)

text \<open>Restarting needs the resources and the owners only: it tears everything down.\<close>

definition owned :: "camera \<Rightarrow> bool" where
  "owned c \<longleftrightarrow> resources_ok c \<and> owner_ok c"

lemma owned_inv: "camera_inv c \<Longrightarrow> owned c"
  by (simp add: camera_inv_def owned_def)

lemma owned_cong:
  "owned (report p x c) = owned c" "owned (c\<lparr>progress := s\<rparr>) = owned c" "owned (c\<lparr>restarts := n\<rparr>) = owned c"
  "owned (c\<lparr>next_id := i\<rparr>) = owned c"
  by (simp_all add: owned_def resources_ok_def owner_ok_def report_def)

lemma restart_eq:
  assumes "params c = Some p" "generation c = g"
  shows "\<exists>n d. restart g now c = await (Wait_delay (g + 1) p d)
    (teardown (c\<lparr>restarts := n, generation := Suc (generation c), params := params c\<rparr>))"
  using assms by (cases c) (auto simp: restart_def Let_def)

lemma inv_restart:
  assumes "owned c" "generation c = g" "params c \<noteq> None"
  shows "camera_inv (restart g now c)"
proof -
  from assms obtain p where p: "params c = Some p" by auto
  from restart_eq [OF p assms(2)] obtain n d where r: "restart g now c = await (Wait_delay (g + 1) p d)
      (teardown (c\<lparr>restarts := n, generation := Suc (generation c), params := params c\<rparr>))" by blast
  let ?t = "teardown (c\<lparr>restarts := n, generation := Suc (generation c), params := params c\<rparr>)"
  have "camera_inv (await (Wait_delay (generation ?t) p d) ?t)"
    using assms(1) p by (intro await_idle) (simp_all add: owned_def teardown_idle owner_retire)
  then show ?thesis using assms(2) by (simp add: r)
qed

lemma retired:
  fixes c :: camera and n :: nat and x :: "camera_params option"
  assumes "owned c"
  defines "d \<equiv> teardown (c\<lparr>restarts := n, generation := Suc (generation c), params := x\<rparr>)"
  shows "idle d" "owner_ok d" "current_waits d = []" "camera_inv d"
  using assms by (auto simp: owned_def teardown_idle owner_retire intro: idle_inv)

lemma inv_stop:
  assumes "camera_inv c"
  shows "camera_inv (stop c)" "idle (stop c)"
proof -
  have eq: "stop c = teardown (c\<lparr>restarts := restarts c, generation := Suc (generation c), params := None\<rparr>)"
    by (simp add: stop_def)
  show "camera_inv (stop c)" "idle (stop c)" unfolding eq by (rule retired, rule owned_inv, fact)+
qed

text \<open>A settled promise of a retired generation, and of the current one.\<close>

lemma settled_fields [simp]:
  "generation (settled w c) = generation c" "params (settled w c) = params c" "stopped (settled w c) = stopped c"
  "stream (settled w c) = stream c" "worker (settled w c) = worker c"
  "current_waits (settled w c) = remove1 w (current_waits c)"
  by (simp_all add: settled_def current_waits_def filter_remove1)

lemma owned_settled: "owned c \<Longrightarrow> owned (settled w c)"
  by (auto simp: owned_def resources_ok_def owner_ok_def settled_def list_all_iff dest: notin_set_remove1 set_remove1_subset [THEN subsetD])

lemma inv_settled:
  assumes "camera_inv c" "\<not> opens (generation c) w"
  shows "camera_inv (settled w c)"
proof -
  have "remove1 w (current_waits c) = current_waits c"
    using assms(2) by (auto simp: current_waits_def intro!: remove1_idem)
  moreover have "ctimer (settled w c) = ctimer c" "watchdog (settled w c) = watchdog c" by (simp_all add: settled_def)
  ultimately show ?thesis using assms(1) owned_settled [of c w]
    by (auto simp: camera_inv_def owned_def phase_ok_def)
qed

lemma waiting_single:
  assumes "waiting_ok ws b" "w \<in> set ws"
  shows "ws = [w]"
  using assms by (cases "(ws, b)" rule: waiting_ok.cases) auto

lemma current_settled:
  assumes "camera_inv c" "w \<in> set (waits c)" "opens (generation c) w"
  shows "current_waits c = [w]" "stopped c" "owned (settled w c)" "current_waits (settled w c) = []"
    "worker c = None" "ctimer c = None" "watchdog c = None" "timers c = []" "watchdogs c = []" "workers c = []"
    "stream c \<noteq> None \<longleftrightarrow> (\<exists>g p src. w = Wait_play g p src)"
proof -
  have m: "w \<in> set (current_waits c)" using assms(2,3) by (simp add: current_waits_def)
  with assms(1) show s: "stopped c" by (auto simp: camera_inv_def phase_ok_def split: if_splits)
  with assms(1) have ok: "waiting_ok (current_waits c) (stream c = None)" and n: "worker c = None" "ctimer c = None" "watchdog c = None"
    by (simp_all add: camera_inv_def phase_ok_def)
  from waiting_single [OF ok m] show w: "current_waits c = [w]" .
  then show "current_waits (settled w c) = []" by simp
  show "owned (settled w c)" using assms(1) by (intro owned_settled owned_inv)
  show "worker c = None" "ctimer c = None" "watchdog c = None" by fact+
  with assms(1) show "timers c = []" "watchdogs c = []" "workers c = []" by (auto simp: camera_inv_def resources_ok_def)
  show "stream c \<noteq> None \<longleftrightarrow> (\<exists>g p src. w = Wait_play g p src)"
    using ok assms(3) unfolding w by (cases w) auto
qed

lemma wait_params:
  assumes "camera_inv c" "w \<in> set (waits c)"
  shows "wait_owned (generation c) (params c) w"
  using assms by (simp add: camera_inv_def owner_ok_def list_all_iff)

lemma torn_down:
  assumes "owned c"
  shows "idle (teardown c)" "owner_ok (teardown c)" "owned (teardown c)" "current_waits (teardown c) = current_waits c"
proof -
  show i: "idle (teardown c)"
    using assms teardown_idle [where n = "restarts c" and g = "generation c" and x = "params c", of c] by (simp add: owned_def)
  show o: "owner_ok (teardown c)" using assms by (auto simp: owned_def owner_ok_def teardown_def list_all_iff)
  show "owned (teardown c)" using i o by (simp add: owned_def resources_ok_def idle_def)
  show "current_waits (teardown c) = current_waits c" by (simp add: teardown_def current_waits_def)
qed

lemma inv_open_failed:
  assumes "owned c" "current_waits c = []" "generation c = g" "params c = Some p"
  shows "camera_inv (open_failed g p src msg now c)"
proof (cases src)
  case From_start
  with assms torn_down [OF assms(1)] show ?thesis by (simp add: open_failed_def idle_inv)
next
  case From_restart
  with assms show ?thesis by (simp add: open_failed_def inv_restart owned_cong)
qed

lemma inv_open:
  assumes "idle (teardown c)" "owner_ok (teardown c)" "current_waits (teardown c) = []" "generation c = g" "params c = Some p"
  shows "camera_inv (open_camera g src blocked now c)"
proof -
  have "owned (teardown c)" using assms by (simp add: owned_def resources_ok_def idle_def)
  with assms await_idle [of "teardown c" p] show ?thesis by (simp add: open_camera_def inv_open_failed)
qed

lemma inv_start:
  assumes "camera_inv c"
  shows "camera_inv (start device rate blocked now c)"
proof -
  let ?p = "\<lparr>pid = next_id c, deviceID = device, fps = rate\<rparr>"
  let ?d = "c\<lparr>next_id := Suc (next_id c), restarts := 0, generation := Suc (generation c), params := Some ?p\<rparr>"
  have "owned (c\<lparr>next_id := Suc (next_id c)\<rparr>)" using owned_inv [OF assms] by (simp add: owned_cong)
  from retired [OF this, where n = 0 and x = "Some ?p"]
  have "idle (teardown ?d)" "owner_ok (teardown ?d)" "current_waits (teardown ?d) = []" by simp_all
  then have "camera_inv (open_camera (Suc (generation c)) From_start blocked now ?d)" by (intro inv_open) simp_all
  moreover have "start device rate blocked now c = open_camera (Suc (generation c)) From_start blocked now ?d"
    by (cases c) (simp add: start_def)
  ultimately show ?thesis by simp
qed

lemma inv_media_granted:
  assumes "camera_inv c" "Wait_media g p src \<in> set (waits c)"
  shows "camera_inv (media_granted g p src (settled (Wait_media g p src) c))"
proof (cases "generation c = g")
  case True
  with current_settled [OF assms] wait_params [OF assms] show ?thesis
    by (auto simp: media_granted_def Let_def camera_inv_def owned_def resources_ok_def owner_ok_def phase_ok_def await_def
        settled_def current_waits_def)
next
  case False
  then have "camera_inv (settled (Wait_media g p src) c)" using assms by (intro inv_settled) simp_all
  with False show ?thesis by (auto simp: media_granted_def Let_def elim!: inv_cong)
qed

lemma inv_failed_event:
  assumes "camera_inv c" "w \<in> set (waits c)" "w = Wait_media g p src \<or> w = Wait_play g p src"
  shows "camera_inv (open_failed g p src msg now (settled w c))"
proof (cases "generation c = g")
  case True
  with assms have "opens (generation c) w" by auto
  from current_settled [OF assms(1,2) this] wait_params [OF assms(1,2)] True assms(3) show ?thesis
    by (intro inv_open_failed) (auto simp: owned_by_def)
next
  case False
  with assms have "camera_inv (settled w c)" by (intro inv_settled) auto
  with False show ?thesis by (cases src) (simp_all add: open_failed_def)
qed

lemma inv_delay_over:
  assumes "camera_inv c" "Wait_delay g p d \<in> set (waits c)"
  shows "camera_inv (delay_over g p blocked now (settled (Wait_delay g p d) c))"
proof (cases "generation c = g")
  case True
  with current_settled [OF assms] wait_params [OF assms]
  have "owned (settled (Wait_delay g p d) c)" "current_waits (settled (Wait_delay g p d) c) = []" "params c = Some p"
    by (auto simp: owned_by_def)
  with True torn_down show ?thesis by (auto simp: delay_over_def intro!: inv_open)
next
  case False
  then have "camera_inv (settled (Wait_delay g p d) c)" using assms by (intro inv_settled) simp_all
  with False show ?thesis by (simp add: delay_over_def)
qed

text \<open>The loop keeps one timer, and only while the capture runs.\<close>

definition running :: "nat \<Rightarrow> camera_params \<Rightarrow> camera \<Rightarrow> bool" where
  "running g p c \<longleftrightarrow> camera_inv c \<and> \<not> stopped c \<and> generation c = g \<and> params c = Some p \<and> timers c = []"

lemma inv_arm: "running g p c \<Longrightarrow> camera_inv (arm g p d now c)"
  by (auto simp: running_def camera_inv_def resources_ok_def phase_ok_def owner_ok_def arm_def Let_def current_waits_def
      owned_by_def)

lemma inv_await_bitmap:
  assumes "camera_inv c" "generation c = g" "params c = Some p"
  shows "camera_inv (await (Wait_bitmap g p) (c\<lparr>encoding := b\<rparr>))"
proof -
  have "current_waits (await (Wait_bitmap g p) (c\<lparr>encoding := b\<rparr>)) = current_waits c"
    by (simp add: current_waits_def await_def)
  with assms show ?thesis by (auto simp: camera_inv_def resources_ok_def phase_ok_def owner_ok_def owned_by_def await_def)
qed

lemma inv_encode:
  assumes "camera_inv c" "generation c = g \<Longrightarrow> \<not> stopped c \<Longrightarrow> running g p c"
  shows "camera_inv (encode g p d now ready c)"
proof (cases "generation c \<noteq> g \<or> stopped c")
  case True
  with assms(1) show ?thesis by (auto simp: encode_def)
next
  case False
  with assms(2) have r: "running g p c" by simp
  let ?a = "arm g p d now c"
  have "camera_inv ?a" "generation ?a = g" "params ?a = Some p"
    using inv_arm [OF r] r by (simp_all add: running_def arm_def Let_def)
  with False show ?thesis by (simp add: encode_def Let_def inv_await_bitmap)
qed

lemma inv_playing:
  assumes "camera_inv c" "Wait_play g p src \<in> set (waits c)"
  shows "camera_inv (playing g p track now clock ready (settled (Wait_play g p src) c))"
proof (cases "generation c = g")
  case True
  let ?s = "settled (Wait_play g p src) c"
  let ?i = "next_id ?s"
  let ?d = "watch g track now (?s\<lparr>next_id := ?i + 1, worker := Some ?i, workers := workers ?s @ [?i],
      handlers := handlers ?s @ [(g, p)], stopped := False, frames := 0, openedAt := now\<rparr>)"
  from True current_settled [OF assms] wait_params [OF assms] have "running g p ?d"
    by (auto simp: running_def watch_def Let_def camera_inv_def owned_def resources_ok_def phase_ok_def owner_ok_def
        settled_def current_waits_def owned_by_def)
  then have "camera_inv (encode g p clock clock ready ?d)" by (intro inv_encode) (simp_all add: running_def)
  with True show ?thesis by (simp add: playing_def Let_def)
next
  case False
  then have "camera_inv (settled (Wait_play g p src) c)" using assms by (intro inv_settled) simp_all
  with False show ?thesis by (simp add: playing_def)
qed

lemma inv_tick:
  assumes "camera_inv c" "t \<in> set (timers c)"
  shows "camera_inv (encode (timer_gen t) (timer_params t) (due t) now ready (c\<lparr>timers := remove1 t (timers c)\<rparr>))"
proof -
  let ?d = "c\<lparr>timers := remove1 t (timers c)\<rparr>"
  from assms have one: "timers c = [t]"
    by (cases "ctimer c") (auto simp: camera_inv_def resources_ok_def)
  have i: "camera_inv ?d" using assms(1) one
    by (auto simp: camera_inv_def resources_ok_def phase_ok_def owner_ok_def current_waits_def)
  have "timer_gen t = generation c" "params c = Some (timer_params t)"
    using assms by (auto simp: camera_inv_def resources_ok_def owner_ok_def owned_by_def list_all_iff)
  with i one show ?thesis by (intro inv_encode) (simp_all add: running_def)
qed

lemma inv_watchdog: "camera_inv c \<Longrightarrow> camera_inv (watchdog_tick g track now c)"
proof -
  assume i: "camera_inv c"
  show ?thesis
  proof (cases "generation c \<noteq> g \<or> stopped c")
    case False
    with i obtain p where p: "params c = Some p" by (auto simp: camera_inv_def phase_ok_def)
    have "camera_inv (c\<lparr>progress := x\<rparr>)" for x using i by (auto elim!: inv_cong)
    moreover from this have "camera_inv (restart g now (report p m (c\<lparr>progress := x\<rparr>)))" for x m
      using False p owned_inv [OF i] by (intro inv_restart) (simp_all add: owned_cong)
    ultimately show ?thesis using False p by (simp add: watchdog_tick_def Let_def)
  qed (use i in \<open>auto simp: watchdog_tick_def\<close>)
qed

lemma inv_worker: "camera_inv c \<Longrightarrow> camera_inv (worker_message g p payload err c)" "camera_inv c \<Longrightarrow> camera_inv (worker_error g p c)"
proof -
  assume i: "camera_inv c"
  then have e: "camera_inv (c\<lparr>encoding := False\<rparr>)" "camera_inv (c\<lparr>encoding := False, frames := n\<rparr>)" for n
    by (auto elim!: inv_cong)
  from i e show "camera_inv (worker_error g p c)" by (simp add: worker_error_def)
  have f: "camera_inv (d\<lparr>frames := n\<rparr>) = camera_inv d" for d n by (rule iffI; erule inv_cong) simp_all
  from i e show "camera_inv (worker_message g p payload err c)"
    by (auto simp: worker_message_def Let_def f split: option.split)
qed

lemma inv_bitmap:
  assumes "camera_inv c" "w = Wait_bitmap g p"
  shows "camera_inv (bitmap_made g (settled w c))" "camera_inv (bitmap_failed g p msg (settled w c))"
proof -
  have "camera_inv (settled w c)" using assms by (intro inv_settled) simp_all
  then show "camera_inv (bitmap_made g (settled w c))" "camera_inv (bitmap_failed g p msg (settled w c))"
    by (auto simp: bitmap_made_def bitmap_failed_def elim!: inv_cong)
qed

lemma camera_inv_step:
  assumes "camera_inv c" "camera_possible c e"
  shows "camera_inv (camera_step c e)"
  using assms
  by (cases e) (auto simp: inv_start inv_stop inv_media_granted inv_failed_event inv_playing inv_delay_over inv_tick
      inv_watchdog inv_worker inv_bitmap split: wait.split)

interpretation camera_capture: guarded_machine new_camera camera_possible camera_step camera_inv
  by unfold_locales (rule idle_inv, simp_all add: camera_inv_step idle_def owner_ok_def current_waits_def new_camera_def)

section \<open>Callbacks\<close>

text \<open>What an operation reports goes to the parameters \<open>x\<close>.\<close>

definition tells :: "camera_params option \<Rightarrow> camera \<Rightarrow> camera \<Rightarrow> bool" where
  "tells x c d \<longleftrightarrow> (\<exists>new. calls d = calls c @ new \<and> list_all (\<lambda>r. Some (fst r) = map_option pid x) new)"

lemma tells_same: "calls d = calls c \<Longrightarrow> tells x c d"
  by (simp add: tells_def)

lemma tells_report: "x = Some p \<Longrightarrow> calls d = calls c @ [(pid p, m)] \<Longrightarrow> tells x c d"
  by (simp add: tells_def)

lemma calls_simps [simp]:
  "calls (settled w c) = calls c" "calls (await w c) = calls c" "calls (report p x c) = calls c @ [(pid p, x)]"
  "calls (restart g now c) = calls c" "calls (arm g p d n c) = calls c" "calls (encode g p d n r c) = calls c"
  "calls (watch g t n' c) = calls c"
  by (simp_all add: settled_def await_def report_def restart_def arm_def encode_def watch_def Let_def split: option.split)

lemma tells_open_failed:
  "tells (params c) c (open_failed g p src msg now c)"
  by (cases src; cases "params c") (auto simp: open_failed_def tells_same intro: tells_report)

lemma tells_cong: "calls c = calls c' \<Longrightarrow> x = x' \<Longrightarrow> tells x c d = tells x' c' d"
  by (simp add: tells_def)

lemma tells_open: "tells (params c) c (open_camera g src blocked now c)"
  using tells_open_failed [of "teardown c" g _ src]
  by (auto simp: open_camera_def tells_same tells_def split: option.split)

lemma handler_params:
  assumes "camera_inv c" "h \<in> set (handlers c)" "generation c = fst h"
  shows "params c = Some (snd h)"
  using assms by (auto simp: camera_inv_def owner_ok_def owned_by_def list_all_iff)

lemma tells_worker:
  assumes "params c = Some p \<or> generation c \<noteq> g"
  shows "tells (params c) c (worker_message g p payload err c)" "tells (params c) c (worker_error g p c)"
    "tells (params c) c (bitmap_failed g p msg c)"
  using assms by (auto simp: worker_message_def worker_error_def bitmap_failed_def tells_def Let_def split: option.split)

lemma tells_watchdog: "tells (params c) c (watchdog_tick g track now c)"
  by (auto simp: watchdog_tick_def tells_def Let_def split: option.split)

lemma start_silent: "calls (start device rate blocked now c) = calls c"
  by (simp add: start_def Let_def open_camera_def open_failed_def split: option.split)

lemma tells_settled:
  "tells (params c) (settled w c) d = tells (params c) c d"
  by (simp add: tells_def)

lemma wait_bitmap_params:
  assumes "camera_inv c" "Wait_bitmap g p \<in> set (waits c)"
  shows "params c = Some p \<or> generation c \<noteq> g"
  using wait_params [OF assms] by (auto simp: owned_by_def)

lemma camera_tells:
  assumes "camera_inv c" "camera_possible c e"
  shows "tells (params c) c (camera_step c e)"
proof (cases e)
  case (Bitmap_failed w msg)
  with assms show ?thesis
    using tells_worker(3) [of "settled w c"] wait_bitmap_params [OF assms(1)]
    by (auto simp: tells_same tells_settled split: wait.split)
next
  case (Worker_message h payload err)
  with assms handler_params [OF assms(1), of h] show ?thesis by (auto intro: tells_worker)
next
  case (Worker_error h)
  with assms handler_params [OF assms(1), of h] show ?thesis by (auto intro: tells_worker)
next
  case (Media_refused w msg now)
  with tells_open_failed [of "settled w c"] show ?thesis by (auto simp: tells_same tells_settled split: wait.split)
next
  case (Play_failed w msg now)
  with tells_open_failed [of "settled w c"] show ?thesis by (auto simp: tells_same tells_settled split: wait.split)
next
  case (Delay_over w blocked now)
  with tells_open [of "settled w c"] show ?thesis
    by (auto simp: delay_over_def tells_same tells_settled split: wait.split)
qed (auto simp: tells_same tells_watchdog start_silent stop_def media_granted_def playing_def bitmap_made_def Let_def
    split: wait.split)

section \<open>Properties\<close>

lemma unwanted_idle:
  assumes "camera_inv c" "params c = None"
  shows "idle c"
proof -
  have "\<not> opens (generation c) w" if "w \<in> set (waits c)" for w
    using wait_params [OF assms(1) that] assms(2) by (cases w) (auto simp: owned_by_def)
  then have "current_waits c = []" by (simp add: current_waits_def filter_empty_conv)
  with assms show ?thesis by (auto simp: camera_inv_def phase_ok_def resources_ok_def idle_def split: if_splits)
qed

text \<open>
  C4: however starts, stops, grants, refusals, playback, timers and worker messages interleave, at most one camera
  stream, one encoder, one timer and one watchdog exist and the capture holds them; once it is stopped, nothing the
  browser still delivers for it (a permission granted late, a delay that ends) brings any of them back.
\<close>

theorem camera_never_left_open:
  assumes "run_allowed camera_possible camera_step new_camera es"
  defines "c \<equiv> foldl camera_step new_camera es"
  shows "streams c = held (stream c) \<and> workers c = held (worker c) \<and> length (timers c) \<le> 1 \<and> length (watchdogs c) \<le> 1 \<and>
    (if stopped c then workers c = [] \<and> timers c = [] \<and> watchdogs c = [] else params c \<noteq> None) \<and>
    (params c \<noteq> None \<or> idle c)"
proof -
  have i: "camera_inv c" unfolding c_def by (rule camera_capture.inv_run) fact
  have t: "length (held x) \<le> 1" for x :: "nat option" by (cases x) simp_all
  from i have "timers c = [] \<or> length (timers c) = length (held (ctimer c))" "length (watchdogs c) = length (held (watchdog c))"
    by (auto simp: camera_inv_def resources_ok_def dest: arg_cong [of _ _ length])
  with t have "length (timers c) \<le> 1" "length (watchdogs c) \<le> 1" by (metis le0 list.size(3))+
  with i unwanted_idle [OF i] show ?thesis by (auto simp: camera_inv_def resources_ok_def phase_ok_def)
qed

text \<open>A camera stopped while the browser still asks for permission, which is then granted.\<close>

definition late_grant :: "camera_event list" where
  "late_grant = [Start ''cam'' 30 False 0, Stop, Media_granted (Wait_media 1 \<lparr>pid = 1, deviceID = ''cam'', fps = 30\<rparr> From_start)]"

theorem camera_never_left_open_witness: "idle (foldl camera_step new_camera late_grant)"
proof -
  have "run_allowed camera_possible camera_step new_camera late_grant"
    "params (foldl camera_step new_camera late_grant) = None"
    by (simp_all add: late_grant_def start_def open_camera_def new_camera_def Let_def await_def stop_def teardown_def
        media_granted_def settled_def without_def)
  with camera_never_left_open [of late_grant] show ?thesis by blast
qed

text \<open>
  C38: every frame and every error an event causes is reported to the capture that is current when the event arrives: a
  retired attempt's encoder, timer, permission or delay is never heard.
\<close>

theorem retired_attempts_are_silent:
  assumes "run_allowed camera_possible camera_step new_camera (es @ [e])"
  defines "c \<equiv> foldl camera_step new_camera es"
  shows "\<exists>new. calls (camera_step c e) = calls c @ new \<and> list_all (\<lambda>r. Some (fst r) = map_option pid (params c)) new"
proof -
  have "camera_inv c" "camera_possible c e"
    using assms(1) camera_capture.inv_run by (auto simp: c_def run_allowed_append)
  from camera_tells [OF this] show ?thesis by (simp add: tells_def)
qed

theorem retired_attempts_are_silent_witness:
  "calls (foldl camera_step new_camera late_grant) = []"
  using retired_attempts_are_silent [of "butlast late_grant" "last late_grant"]
  by (auto simp: late_grant_def start_def open_camera_def new_camera_def Let_def await_def stop_def teardown_def
      media_granted_def settled_def without_def)

fun on_time :: "camera_params \<Rightarrow> rat \<Rightarrow> rat list \<Rightarrow> bool" where
  "on_time p d [] = True"
| "on_time p d (n # ns) = (n \<le> d + interval p \<and> on_time p (next_due p d n) ns)"

lemma interval_covers: "1000 \<le> of_nat (if fps p = 0 then 15 else fps p) * interval p"
proof -
  define r :: rat where "r = of_nat (if fps p = 0 then 15 else fps p)"
  have "0 < r" by (simp add: r_def)
  moreover have "1000 / r \<le> interval p" by (simp add: interval_def r_def)
  ultimately show ?thesis unfolding r_def [symmetric] by (simp add: pos_divide_le_eq mult.commute)
qed

lemma due_mono: "d \<le> d' \<Longrightarrow> foldl (next_due p) d ns \<le> foldl (next_due p) d' ns"
  by (induction ns arbitrary: d d') (auto simp: next_due_def intro: max.mono)

lemma due_lower: "d + of_nat (length ns) * interval p \<le> foldl (next_due p) d ns"
proof (induction ns arbitrary: d)
  case (Cons n ns)
  have "d + interval p + of_nat (length ns) * interval p \<le> foldl (next_due p) (d + interval p) ns" by (rule Cons)
  also have "\<dots> \<le> foldl (next_due p) (next_due p d n) ns" by (rule due_mono) (simp add: next_due_def)
  finally show ?case by (simp add: algebra_simps)
qed simp

lemma due_on_time: "on_time p d ns \<Longrightarrow> foldl (next_due p) d ns = d + of_nat (length ns) * interval p"
  by (induction ns arbitrary: d) (auto simp: next_due_def algebra_simps max_def)

text \<open>
  Pacing. The interval is the period of the demanded rate rounded up, the deadlines of \<open>n\<close> ticks are at least
  \<open>n\<close> intervals apart whatever the delays, so the rate is a ceiling; and when no tick is a whole interval late they
  are exactly that far apart, so lateness does not accumulate.
\<close>

theorem frame_rate_is_ceiling:
  "1000 \<le> of_nat (if fps p = 0 then 15 else fps p) * interval p \<and>
   d + of_nat (length ns) * interval p \<le> foldl (next_due p) d ns \<and>
   (on_time p d ns \<longrightarrow> foldl (next_due p) d ns = d + of_nat (length ns) * interval p)"
  using interval_covers due_lower due_on_time by blast

theorem frame_rate_is_ceiling_witness:
  "foldl (next_due \<lparr>pid = 1, deviceID = '''', fps = 30\<rparr>) 100 [101, 140, 168] = 202"
proof -
  have i: "interval \<lparr>pid = 1, deviceID = '''', fps = 30\<rparr> = 34"
  proof -
    have "\<lceil>1000 / 30 :: rat\<rceil> = 34" by (rule ceiling_unique) simp_all
    then show ?thesis by (simp add: interval_def)
  qed
  then have "on_time \<lparr>pid = 1, deviceID = '''', fps = 30\<rparr> 100 [101, 140, 168]" by (simp add: next_due_def)
  with frame_rate_is_ceiling [of "\<lparr>pid = 1, deviceID = '''', fps = 30\<rparr>" 100 "[101, 140, 168]"] i show ?thesis by simp
qed

text \<open>
  The watchdog measures from the sample at which the number of frames last changed, so a capture slower than its ticks
  is not taken for a dead one.
\<close>

lemma progress_is_last_change:
  "\<exists>pre post. first # later = pre @ foldl captureProgress first later # post \<and>
     list_all (\<lambda>s. sample_frames s = sample_frames (foldl captureProgress first later)) post"
proof (induction later rule: rev_induct)
  case (snoc s later)
  then obtain pre post where h: "first # later = pre @ foldl captureProgress first later # post"
    "list_all (\<lambda>s. sample_frames s = sample_frames (foldl captureProgress first later)) post" by blast
  let ?q = "foldl captureProgress first later"
  have q: "foldl captureProgress first (later @ [s]) = (if sample_frames s \<noteq> sample_frames ?q then s else ?q)"
    by (simp add: captureProgress_def [of ?q])
  show ?case
  proof (cases "sample_frames s = sample_frames ?q")
    case True
    with h have "first # later @ [s] = pre @ ?q # (post @ [s])" by simp
    with h(2) True show ?thesis unfolding q by (intro exI [of _ pre] exI [of _ "post @ [s]"]) simp
  next
    case False
    then show ?thesis unfolding q by (intro exI [of _ "first # later"] exI [of _ "[]"]) simp
  qed
qed (rule exI [of _ "[]"], simp)

lemma restart_delays: "500 \<le> captureRestartDelay n \<and> captureRestartDelay n \<le> 8000 \<and> captureRestartDelay n \<le> captureRestartDelay (Suc n)"
proof -
  consider "n = 0" | "n = 1" | "n = 2" | "n = 3" | "n \<ge> 4" by linarith
  then show ?thesis
  proof cases
    case 5
    then have "min n 4 = 4" "min (Suc n) 4 = 4" by simp_all
    then show ?thesis by (simp add: captureRestartDelay_def captureRestartDelaysMS_def)
  qed (simp_all add: captureRestartDelay_def captureRestartDelaysMS_def)
qed

end
