(* ===== verification/Microphone_Capture.thy ===== *)
theory Microphone_Capture
  imports Prelude
begin

text \<open>
  What a browser can capture (\<^verbatim>\<open>captureSupport\<close>) and sharing a microphone: the class \<^verbatim>\<open>MicrophoneCapture\<close> of
  \<^verbatim>\<open>web/src/pages/desktop/menu/devices/capture.ts\<close>. As for the camera, each stretch between two \<^verbatim>\<open>await\<close>s is a
  definition. An object is started once, as the page does.
\<close>

section \<open>Support\<close>

datatype source_kind = camera_source | microphone_source | speaker_source | usb_source

datatype capture_block = Capturable | insecure | unsupported | no_camera | no_microphone | no_speaker

record browser =
  has_user_media :: bool
  secure_context :: "bool option"
  has_canvas_worker :: bool  \<comment> \<open>\<^verbatim>\<open>Worker\<close>, \<^verbatim>\<open>OffscreenCanvas\<close> and \<^verbatim>\<open>createImageBitmap\<close>\<close>
  has_audio_worklet :: bool

definition captureSupport :: "browser \<Rightarrow> source_kind \<Rightarrow> capture_block" where
  "captureSupport b kind =
    (if kind = speaker_source then (if \<not> has_audio_worklet b then no_speaker else Capturable)
     else if \<not> has_user_media b then (if secure_context b = Some False then insecure else unsupported)
     else if kind = camera_source \<and> \<not> has_canvas_worker b then no_camera
     else if kind = microphone_source \<and> \<not> has_audio_worklet b then no_microphone
     else Capturable)"

section \<open>State\<close>

datatype mic_wait = Wait_close "bool option" | Wait_media bool | Wait_module bool | Wait_resume bool

record microphone =
  mstream :: "nat option"
  mcontext :: "nat option"
  connected :: bool  \<comment> \<open>\<^verbatim>\<open>source\<close>, \<^verbatim>\<open>worklet\<close> and \<^verbatim>\<open>mute\<close> are set together\<close>
  track_enabled :: bool
  open_streams :: "nat list"
  open_contexts :: "nat list"
  mwaits :: "mic_wait list"
  started :: bool
  fresh :: nat

definition new_microphone :: microphone where
  "new_microphone = \<lparr>mstream = None, mcontext = None, connected = False, track_enabled = True, open_streams = [],
     open_contexts = [], mwaits = [], started = False, fresh = 1\<rparr>"

definition drop_one :: "nat option \<Rightarrow> nat list \<Rightarrow> nat list" where
  "drop_one x xs = filter (\<lambda>y. x \<noteq> Some y) xs"

section \<open>Operations\<close>

definition setMuted :: "bool \<Rightarrow> microphone \<Rightarrow> microphone" where
  "setMuted muted m = (if mstream m = None then m else m\<lparr>track_enabled := \<not> muted\<rparr>)"

text \<open>The part of \<^verbatim>\<open>stop\<close> after the context is closed; \<open>next\<close> is the muting of a start that waits for it.\<close>

definition begin_start :: "capture_block \<Rightarrow> bool \<Rightarrow> microphone \<Rightarrow> microphone" where
  "begin_start blocked muted m = (if blocked \<noteq> Capturable then m else m\<lparr>mwaits := mwaits m @ [Wait_media muted]\<rparr>)"

definition stop_end :: "capture_block \<Rightarrow> bool option \<Rightarrow> microphone \<Rightarrow> microphone" where
  "stop_end blocked starting m =
    (let m = m\<lparr>mstream := None, mcontext := None, connected := False\<rparr>
     in case starting of None \<Rightarrow> m | Some muted \<Rightarrow> begin_start blocked muted m)"

definition stop_begin :: "capture_block \<Rightarrow> bool option \<Rightarrow> microphone \<Rightarrow> microphone" where
  "stop_begin blocked starting m =
    (let m = m\<lparr>connected := False, open_streams := drop_one (mstream m) (open_streams m)\<rparr>
     in if \<exists>k. mcontext m = Some k \<and> k \<in> set (open_contexts m)
        then m\<lparr>open_contexts := drop_one (mcontext m) (open_contexts m), mwaits := mwaits m @ [Wait_close starting]\<rparr>
        else stop_end blocked starting m)"

definition mic_start :: "capture_block \<Rightarrow> bool \<Rightarrow> microphone \<Rightarrow> microphone" where
  "mic_start blocked muted m = stop_begin blocked (Some muted) (m\<lparr>started := True\<rparr>)"

definition mic_stop :: "microphone \<Rightarrow> microphone" where
  "mic_stop m = stop_begin Capturable None m"

definition mic_granted :: "bool \<Rightarrow> microphone \<Rightarrow> microphone" where
  "mic_granted muted m =
    (let i = fresh m
     in m\<lparr>fresh := i + 2, mstream := Some i, open_streams := open_streams m @ [i], track_enabled := True,
          mcontext := Some (i + 1), open_contexts := open_contexts m @ [i + 1], mwaits := mwaits m @ [Wait_module muted]\<rparr>)"

text \<open>
  \<^verbatim>\<open>this.context\<close> is read again after each wait: without one the code throws, and a closed context refuses to
  resume.
\<close>

definition mic_module :: "bool \<Rightarrow> microphone \<Rightarrow> microphone" where
  "mic_module muted m =
    (if \<exists>k. mcontext m = Some k \<and> k \<in> set (open_contexts m) then m\<lparr>mwaits := mwaits m @ [Wait_resume muted]\<rparr> else m)"

definition mic_resumed :: "bool \<Rightarrow> bool \<Rightarrow> microphone \<Rightarrow> microphone" where
  "mic_resumed running muted m =
    (if mcontext m = None \<or> \<not> running \<or> mstream m = None then m else setMuted muted (m\<lparr>connected := True\<rparr>))"

datatype mic_event =
  Mic_start capture_block bool
| Mic_stop
| Mic_mute bool
| Closed mic_wait capture_block
| Granted mic_wait
| Refused mic_wait
| Module mic_wait bool
| Resumed mic_wait bool

definition met :: "mic_wait \<Rightarrow> microphone \<Rightarrow> microphone" where
  "met w m = m\<lparr>mwaits := remove1 w (mwaits m)\<rparr>"

fun mic_step :: "microphone \<Rightarrow> mic_event \<Rightarrow> microphone" where
  "mic_step m (Mic_start blocked muted) = mic_start blocked muted m"
| "mic_step m Mic_stop = mic_stop m"
| "mic_step m (Mic_mute muted) = setMuted muted m"
| "mic_step m (Closed w blocked) = (case w of Wait_close starting \<Rightarrow> stop_end blocked starting (met w m) | _ \<Rightarrow> m)"
| "mic_step m (Granted w) = (case w of Wait_media muted \<Rightarrow> mic_granted muted (met w m) | _ \<Rightarrow> m)"
| "mic_step m (Refused w) = (case w of Wait_media muted \<Rightarrow> met w m | _ \<Rightarrow> m)"
| "mic_step m (Module w ok) =
    (case w of Wait_module muted \<Rightarrow> (if ok then mic_module muted (met w m) else met w m) | _ \<Rightarrow> m)"
| "mic_step m (Resumed w running) = (case w of Wait_resume muted \<Rightarrow> mic_resumed running muted (met w m) | _ \<Rightarrow> m)"

fun mic_possible :: "microphone \<Rightarrow> mic_event \<Rightarrow> bool" where
  "mic_possible m (Mic_start blocked muted) = (\<not> started m)"
| "mic_possible m (Closed w blocked) = (w \<in> set (mwaits m))"
| "mic_possible m (Granted w) = (w \<in> set (mwaits m))"
| "mic_possible m (Refused w) = (w \<in> set (mwaits m))"
| "mic_possible m (Module w ok) = (w \<in> set (mwaits m))"
| "mic_possible m (Resumed w running) = (w \<in> set (mwaits m))"
| "mic_possible m e = True"

section \<open>Invariant\<close>

definition is_media :: "mic_wait \<Rightarrow> bool" where
  "is_media w \<longleftrightarrow> (\<exists>muted. w = Wait_media muted)"

definition mic_inv :: "microphone \<Rightarrow> bool" where
  "mic_inv m \<longleftrightarrow> set (open_streams m) \<subseteq> set_option (mstream m) \<and> set (open_contexts m) \<subseteq> set_option (mcontext m) \<and>
    length (filter is_media (mwaits m)) \<le> 1 \<and>
    (filter is_media (mwaits m) = [] \<or> mstream m = None \<and> mcontext m = None) \<and>
    (started m \<or> mwaits m = [] \<and> mstream m = None \<and> mcontext m = None) \<and>
    list_all (\<lambda>w. \<forall>muted. w \<noteq> Wait_close (Some muted)) (mwaits m) \<and>
    (Wait_close None \<notin> set (mwaits m) \<or> filter is_media (mwaits m) = [] \<and> open_streams m = [] \<and> open_contexts m = [])"

lemmas mic_defs = mic_start_def mic_stop_def stop_begin_def stop_end_def begin_start_def setMuted_def met_def drop_one_def
  mic_granted_def mic_module_def mic_resumed_def Let_def

lemma media_met:
  assumes "mic_inv m" "Wait_media muted \<in> set (mwaits m)"
  shows "filter is_media (remove1 (Wait_media muted) (mwaits m)) = []" "started m" "mstream m = None" "mcontext m = None"
proof -
  from assms(2) have "Wait_media muted \<in> set (filter is_media (mwaits m))" by (simp add: is_media_def)
  then obtain ws where "filter is_media (mwaits m) = Wait_media muted # ws" "ws = []" "mstream m = None" "mcontext m = None" "started m"
    using assms by (cases "filter is_media (mwaits m)") (auto simp: mic_inv_def)
  then show "filter is_media (remove1 (Wait_media muted) (mwaits m)) = []" "started m" "mstream m = None" "mcontext m = None"
    by (simp_all add: filter_remove1)
qed

lemma filter_remove_other: "\<not> is_media w \<Longrightarrow> filter is_media (remove1 w ws) = filter is_media ws"
  by (simp add: filter_remove1 remove1_idem)

lemma set_remove1D: "x \<in> set (remove1 y xs) \<Longrightarrow> x \<in> set xs"
  using set_remove1_subset by fast

lemma subset_option: "set xs \<subseteq> set_option x \<Longrightarrow> filter (\<lambda>y. x \<noteq> Some y) xs = []"
  by (auto simp: filter_empty_conv)

lemma subset_unopened: "set xs \<subseteq> set_option x \<Longrightarrow> (\<And>k. x = Some k \<Longrightarrow> k \<notin> set xs) \<Longrightarrow> xs = []"
  by (cases x; cases xs) auto

text \<open>Stopping closes whatever is held, now or when the context has closed.\<close>

lemma stop_releases:
  assumes "mic_inv m"
  shows "open_streams (mic_stop m) = []" "open_contexts (mic_stop m) = []" "started (mic_stop m) = started m"
    "filter is_media (mwaits (mic_stop m)) = filter is_media (mwaits m)"
  using assms subset_option [of "open_streams m" "mstream m"] subset_option [of "open_contexts m" "mcontext m"]
    subset_unopened [of "open_contexts m" "mcontext m"]
  by (auto simp: mic_inv_def mic_defs is_media_def)

lemma mic_inv_stop: "mic_inv m \<Longrightarrow> mic_inv (mic_stop m)"
  using stop_releases [of m] by (auto simp: mic_inv_def mic_stop_def stop_begin_def stop_end_def is_media_def Let_def)

lemma mic_inv_start: "mic_inv m \<Longrightarrow> \<not> started m \<Longrightarrow> mic_inv (mic_start blocked muted m)"
  by (auto simp: mic_inv_def mic_defs is_media_def)

lemma mic_inv_closed:
  assumes "mic_inv m" "Wait_close x \<in> set (mwaits m)"
  shows "mic_inv (stop_end blocked x (met (Wait_close x) m))"
proof -
  from assms have "x = None" by (cases x) (auto simp: mic_inv_def list_all_iff)
  with assms show ?thesis
    by (auto simp: mic_inv_def mic_defs filter_remove_other is_media_def list_all_iff dest: set_remove1D)
qed

lemma mic_inv_granted:
  assumes "mic_inv m" "Wait_media muted \<in> set (mwaits m)"
  shows "mic_inv (mic_granted muted (met (Wait_media muted) m))"
proof -
  have "is_media (Wait_media muted)" by (simp add: is_media_def)
  with assms(2) have "filter is_media (mwaits m) \<noteq> []" by (auto simp: filter_empty_conv)
  with assms media_met [OF assms] show ?thesis
    by (auto simp: mic_inv_def mic_defs is_media_def list_all_iff dest: set_remove1D)
qed

lemma mic_inv_met: "mic_inv m \<Longrightarrow> mic_inv (met w m)"
proof -
  assume i: "mic_inv m"
  have "length (filter is_media (remove1 w (mwaits m))) \<le> length (filter is_media (mwaits m))"
    by (simp add: filter_remove1 length_remove1)
  moreover have "filter is_media (mwaits m) = [] \<Longrightarrow> filter is_media (remove1 w (mwaits m)) = []" by (simp add: filter_remove1)
  ultimately show ?thesis using i by (auto simp: mic_inv_def met_def list_all_iff dest: set_remove1D)
qed

lemma mic_inv_module: "mic_inv m \<Longrightarrow> started m \<Longrightarrow> mic_inv (mic_module muted m)" "mic_inv m \<Longrightarrow> mic_inv (mic_resumed r muted m)"
  "mic_inv m \<Longrightarrow> mic_inv (setMuted muted m)"
  by (auto simp: mic_inv_def mic_defs is_media_def)

lemma waiting_started: "mic_inv m \<Longrightarrow> w \<in> set (mwaits m) \<Longrightarrow> started m"
  by (auto simp: mic_inv_def)

lemma started_met [simp]: "started (met w m) = started m"
  by (simp add: met_def)

lemma mic_inv_step:
  assumes "mic_inv m" "mic_possible m e"
  shows "mic_inv (mic_step m e)"
  using assms waiting_started [OF assms(1)]
  by (cases e) (auto simp: mic_inv_start mic_inv_stop mic_inv_closed mic_inv_granted mic_inv_met mic_inv_module
      split: mic_wait.split)

interpretation microphone_capture: guarded_machine new_microphone mic_possible mic_step mic_inv
  by unfold_locales (simp_all add: mic_inv_step, simp add: mic_inv_def new_microphone_def)

section \<open>Properties\<close>

definition released :: "microphone \<Rightarrow> bool" where
  "released m \<longleftrightarrow> mic_inv m \<and> started m \<and> filter is_media (mwaits m) = [] \<and> open_streams m = [] \<and> open_contexts m = []"

lemma filter_met: "filter is_media (mwaits m) = [] \<Longrightarrow> filter is_media (mwaits (met w m)) = []"
  by (simp add: met_def filter_remove1)

lemma released_step:
  assumes "released m" "mic_possible m e"
  shows "released (mic_step m e)"
proof -
  from assms(1) have r: "mic_inv m" "started m" "filter is_media (mwaits m) = []" "open_streams m = []" "open_contexts m = []"
    by (simp_all add: released_def)
  have nomedia: "Wait_media x \<notin> set (mwaits m)" for x using r(3) by (auto simp: filter_empty_conv is_media_def)
  have noclose: "Wait_close (Some x) \<notin> set (mwaits m)" for x using r(1) by (auto simp: mic_inv_def list_all_iff)
  have "started (mic_step m e)" "filter is_media (mwaits (mic_step m e)) = []" "open_streams (mic_step m e) = []"
      "open_contexts (mic_step m e) = []"
    using r assms(2) stop_releases [OF r(1)] nomedia noclose filter_met [OF r(3)]
    by (cases e; auto simp: stop_end_def setMuted_def mic_module_def mic_resumed_def Let_def met_def filter_remove1
        split: mic_wait.split option.split)+
  with mic_inv_step [OF r(1) assms(2)] show ?thesis by (simp add: released_def)
qed

lemma released_run: "released m \<Longrightarrow> run_allowed mic_possible mic_step m es \<Longrightarrow> released (foldl mic_step m es)"
  by (induction es arbitrary: m) (auto intro: released_step)

text \<open>
  C39: stopping a microphone while no permission is awaited releases its stream and its audio context, and nothing that
  was still under way opens them again.
\<close>

theorem microphone_stop_releases:
  assumes "run_allowed mic_possible mic_step new_microphone es" "started (foldl mic_step new_microphone es)"
    "filter is_media (mwaits (foldl mic_step new_microphone es)) = []"
    "run_allowed mic_possible mic_step (mic_stop (foldl mic_step new_microphone es)) later"
  defines "m \<equiv> foldl mic_step (mic_stop (foldl mic_step new_microphone es)) later"
  shows "open_streams m = [] \<and> open_contexts m = []"
proof -
  have i: "mic_inv (foldl mic_step new_microphone es)" by (rule microphone_capture.inv_run) fact
  with assms(2,3) stop_releases [OF i] mic_inv_stop [OF i] have "released (mic_stop (foldl mic_step new_microphone es))"
    by (simp add: released_def)
  from released_run [OF this assms(4)] show ?thesis by (simp add: m_def released_def)
qed

definition mic_session :: "mic_event list" where
  "mic_session = [Mic_start Capturable False, Granted (Wait_media False), Module (Wait_module False) True]"

theorem microphone_stop_releases_witness:
  "open_streams (foldl mic_step (mic_stop (foldl mic_step new_microphone mic_session)) [Resumed (Wait_resume False) True]) = []"
proof -
  have "run_allowed mic_possible mic_step new_microphone mic_session" "started (foldl mic_step new_microphone mic_session)"
    "filter is_media (mwaits (foldl mic_step new_microphone mic_session)) = []"
    "run_allowed mic_possible mic_step (mic_stop (foldl mic_step new_microphone mic_session)) [Resumed (Wait_resume False) True]"
    by (simp_all add: mic_session_def new_microphone_def mic_defs is_media_def)
  from microphone_stop_releases [OF this] show ?thesis by blast
qed

text \<open>
  Stopping while the permission is awaited does not end the start: the permission granted afterwards opens the
  stream and connects it, with nobody left to stop it.
\<close>

theorem microphone_left_on:
  "let m = foldl mic_step new_microphone
       [Mic_start Capturable False, Mic_stop, Granted (Wait_media False), Module (Wait_module False) True,
        Resumed (Wait_resume False) True]
   in open_streams m = [1] \<and> open_contexts m = [2] \<and> connected m \<and> track_enabled m"
  by (simp add: new_microphone_def mic_defs)

end
