(* ===== verification/Usb_Capture.thy ===== *)
theory Usb_Capture
  imports Usb_Relay Profile_Editor
begin

text \<open>
  Reading a USB device of the browser before it is relayed: its descriptors and strings, the profile saved for it and
  the choice of a device (\<^verbatim>\<open>capture\<close>, \<^verbatim>\<open>profileFrom\<close>, \<^verbatim>\<open>captureStrings\<close>, \<^verbatim>\<open>saveProfile\<close>, \<^verbatim>\<open>identity\<close> and
  \<^verbatim>\<open>WebUSBRelay.select\<close> of \<^verbatim>\<open>web/src/pages/desktop/menu/devices/webusb.ts\<close>). Texts from the device are lists of
  UTF-16 code units. The browser's answers to control transfers, its lower-casing of a text, the digest and the
  server's answers are arguments.
\<close>

type_synonym units = "nat list"

section \<open>Results\<close>

datatype capture_error =
  Descriptor_failed nat nat transfer_status
| Open_failed
| Device_class
| Configuration_count
| Configuration_length
| Bos_length
| Language_table
| Malformed_string
| Malformed_configuration wire_error
| No_configuration
| Select_failed
| Not_captured
| Save_failed
| Bos_capabilities
| No_interface
| No_webusb bool

definition bind_err :: "capture_error + 'a \<Rightarrow> ('a \<Rightarrow> capture_error + 'b) \<Rightarrow> capture_error + 'b" where
  "bind_err r f = (case r of Inl e \<Rightarrow> Inl e | Inr x \<Rightarrow> f x)"

lemma bind_err_Inr: "bind_err r f = Inr y \<longleftrightarrow> (\<exists>x. r = Inr x \<and> f x = Inr y)"
  by (cases r) (auto simp: bind_err_def)

text \<open>An element beyond the end of an array reads as \<^verbatim>\<open>undefined\<close>, which is 0 to a bitwise operator.\<close>

definition elem :: "byte list \<Rightarrow> nat \<Rightarrow> byte option" where
  "elem bs i = (if i < length bs then Some (bs ! i) else None)"

definition bits :: "byte option \<Rightarrow> nat" where
  "bits b = (case b of None \<Rightarrow> 0 | Some x \<Rightarrow> unat x)"

section \<open>Descriptors and strings\<close>

text \<open>What the device answers to a request for a descriptor: type, index, language, length.\<close>

type_synonym answers = "nat \<Rightarrow> nat \<Rightarrow> nat \<Rightarrow> nat \<Rightarrow> transfer_status \<times> byte list option"

definition usb_descriptor :: "answers \<Rightarrow> nat \<Rightarrow> nat \<Rightarrow> nat \<Rightarrow> nat \<Rightarrow> capture_error + byte list" where
  "usb_descriptor dev kind i language len =
    (case dev kind i language len of
       (ok, Some bytes) \<Rightarrow> Inr bytes
     | (status, _) \<Rightarrow> Inl (Descriptor_failed kind i status))"

fun code_units :: "byte list \<Rightarrow> units" where
  "code_units (lo # hi # bs) = (unat lo + 256 * unat hi) # code_units bs"
| "code_units _ = []"

definition decodeString :: "byte list \<Rightarrow> capture_error + units" where
  "decodeString data =
    (if length data < 2 \<or> unat (data ! 0) \<noteq> length data \<or> data ! 1 \<noteq> 3 \<or> length data mod 2 \<noteq> 0
     then Inl Malformed_string else Inr (code_units (drop 2 data)))"

definition string_indices :: "byte list \<Rightarrow> byte option list" where
  "string_indices item =
    (if elem item 1 = Some 4 \<and> length item \<ge> 9 then [elem item 8] else []) @
    (if elem item 1 = Some 11 \<and> length item \<ge> 8 then [elem item 7] else []) @
    (if elem item 1 = Some 0x24 \<and> length item \<ge> 4 \<and> elem item 2 = Some 0x0f then [elem item 3] else [])"

fun collect_indices :: "byte list list \<Rightarrow> byte option list \<Rightarrow> capture_error + byte option list" where
  "collect_indices [] indices = Inr indices"
| "collect_indices (config # cs) indices =
    (case walk config 0 of
       Inl e \<Rightarrow> Inl (Malformed_configuration e)
     | Inr items \<Rightarrow> collect_indices cs (fold js_add (concat (map string_indices items)) (js_add (elem config 6) indices)))"

fun fetch_strings :: "answers \<Rightarrow> nat \<Rightarrow> byte option list \<Rightarrow> capture_error + (byte option \<times> units) list" where
  "fetch_strings dev language [] = Inr []"
| "fetch_strings dev language (i # is) =
    bind_err (usb_descriptor dev 3 (bits i) language 255) (\<lambda>value.
    bind_err (decodeString value) (\<lambda>text.
    bind_err (fetch_strings dev language is) (\<lambda>more. Inr ((i, text) # more))))"

definition captureStrings :: "answers \<Rightarrow> byte list \<Rightarrow> byte list list \<Rightarrow> capture_error + (byte option \<times> units) list" where
  "captureStrings dev raw cfgs =
    bind_err (collect_indices cfgs (fold js_add [elem raw 14, elem raw 15, elem raw 16] [])) (\<lambda>indices.
    (let indices = js_delete (Some 0) indices
     in if indices = [] then Inr []
        else bind_err (usb_descriptor dev 3 0 0 255) (\<lambda>languages.
          if length languages < 4 then Inl Language_table
          else fetch_strings dev (unat (languages ! 2) + 256 * unat (languages ! 3)) indices)))"

section \<open>The profile\<close>

definition hex_digit :: "nat \<Rightarrow> char" where
  "hex_digit n = ''0123456789abcdef'' ! n"

text \<open>\<^verbatim>\<open>hex\<close> of a 16-bit identifier and \<^verbatim>\<open>hexByte\<close>.\<close>

definition hex4 :: "16 word \<Rightarrow> string" where
  "hex4 w = (let n = unat w in [hex_digit (n div 4096), hex_digit (n div 256 mod 16), hex_digit (n div 16 mod 16), hex_digit (n mod 16)])"

definition hexByte :: "byte \<Rightarrow> string" where
  "hexByte b = [hex_digit (unat b div 16), hex_digit (unat b mod 16)]"

definition name_unit :: "nat \<Rightarrow> bool" where
  "name_unit u \<longleftrightarrow> 97 \<le> u \<and> u \<le> 122 \<or> 48 \<le> u \<and> u \<le> 57 \<or> u = 46 \<or> u = 95 \<or> u = 45"

text \<open>Each run of other characters becomes one hyphen.\<close>

fun hyphenate :: "bool \<Rightarrow> units \<Rightarrow> string" where
  "hyphenate in_run [] = []"
| "hyphenate in_run (u # us) =
    (if name_unit u then char_of u # hyphenate False us
     else if in_run then hyphenate True us else CHR ''-'' # hyphenate True us)"

definition strip_hyphens :: "string \<Rightarrow> string" where
  "strip_hyphens s = rev (dropWhile (\<lambda>c. c = CHR ''-'') (rev (dropWhile (\<lambda>c. c = CHR ''-'') s)))"

definition shortName :: "(units \<Rightarrow> units) \<Rightarrow> units \<Rightarrow> string" where
  "shortName lower value =
    (let normalized = strip_hyphens (hyphenate False (lower value))
     in take 24 (if normalized = '''' then ''device'' else normalized))"

record device_info =
  vendorId :: "16 word"
  productId :: "16 word"
  productName :: units  \<comment> \<open>empty when the browser has none\<close>
  manufacturerName :: units
  serialNumber :: units
  is_open :: bool
  opens_ok :: bool
  selects_ok :: bool
  active_configuration :: "byte option"

record captured_profile =
  cp_name :: string
  cp_vendor :: string
  cp_product :: string
  cp_bcd_usb :: string
  cp_bcd_device :: string
  cp_class :: "byte \<times> byte \<times> byte"
  cp_serial :: "units option"
  cp_manufacturer :: units
  cp_product_text :: units
  cp_attributes :: "byte option"
  cp_max_power :: nat
  cp_configuration :: units
  cp_device :: "byte list"
  cp_configurations :: "byte list list"
  cp_bos :: "byte list option"
  cp_strings :: "(byte option \<times> units) list"

definition ascii :: "string \<Rightarrow> units" where
  "ascii s = map of_char s"

definition text_at :: "(byte option \<times> units) list \<Rightarrow> byte option \<Rightarrow> units" where
  "text_at strings i = (case map_of strings i of None \<Rightarrow> [] | Some t \<Rightarrow> t)"

definition or_text :: "units \<Rightarrow> units \<Rightarrow> units" where
  "or_text a b = (if a = [] then b else a)"

definition or_first :: "byte option \<Rightarrow> byte list list \<Rightarrow> byte option" where
  "or_first active cfgs =
    (case active of Some v \<Rightarrow> if v = 0 then elem (hd cfgs) 5 else Some v | None \<Rightarrow> elem (hd cfgs) 5)"

definition profileFrom ::
  "(units \<Rightarrow> units) \<Rightarrow> device_info \<Rightarrow> byte option \<Rightarrow> byte list \<Rightarrow> byte list list \<Rightarrow> byte list option \<Rightarrow>
    (byte option \<times> units) list \<Rightarrow> captured_profile" where
  "profileFrom lower d now_active raw cfgs bos strings =
    (let selected =
           (case List.find (\<lambda>c. elem c 5 = or_first now_active cfgs) cfgs of Some c \<Rightarrow> c | None \<Rightarrow> hd cfgs);
         serial = or_text (serialNumber d) (text_at strings (elem raw 16))
     in \<lparr>cp_name = ''webusb-'' @ hex4 (vendorId d) @ ''-'' @ hex4 (productId d) @ ''-'' @
           shortName lower (or_text (or_text serial (productName d)) (ascii ''device'')),
         cp_vendor = ''0x'' @ hex4 (vendorId d), cp_product = ''0x'' @ hex4 (productId d),
         cp_bcd_usb = ''0x'' @ hexByte (raw ! 3) @ hexByte (raw ! 2),
         cp_bcd_device = ''0x'' @ hexByte (raw ! 13) @ hexByte (raw ! 12),
         cp_class = (raw ! 4, raw ! 5, raw ! 6),
         cp_serial = (if serial = [] then None else Some serial),
         cp_manufacturer = or_text (or_text (manufacturerName d) (text_at strings (elem raw 14))) (ascii ''Captured USB device''),
         cp_product_text = or_text (or_text (productName d) (text_at strings (elem raw 15)))
           (ascii (''USB '' @ hex4 (vendorId d) @ '':'' @ hex4 (productId d))),
         cp_attributes = elem selected 7, cp_max_power = max 2 (bits (elem selected 8) * 2),
         cp_configuration = or_text (text_at strings (elem selected 6)) (ascii ''Captured configuration''),
         cp_device = raw, cp_configurations = cfgs, cp_bos = bos, cp_strings = strings\<rparr>)"

section \<open>Capturing\<close>

record captured =
  c_device :: "byte list"
  c_configurations :: "byte list list"
  c_bos :: "byte list option"
  c_strings :: "(byte option \<times> units) list"
  c_profile :: captured_profile
  c_configuration :: byte
  c_interfaces :: "byte list"

definition maxConfigurations :: nat where "maxConfigurations = 8"

definition sized_descriptor :: "answers \<Rightarrow> nat \<Rightarrow> nat \<Rightarrow> nat \<Rightarrow> nat \<Rightarrow> capture_error \<Rightarrow> capture_error + byte list" where
  "sized_descriptor dev kind i short most err =
    bind_err (usb_descriptor dev kind i 0 short) (\<lambda>header.
    (let total = bits (elem header 2) + 256 * bits (elem header 3)
     in if total < short \<or> total > most then Inl err else usb_descriptor dev kind i 0 total))"

fun read_configurations :: "answers \<Rightarrow> nat list \<Rightarrow> capture_error + byte list list" where
  "read_configurations dev [] = Inr []"
| "read_configurations dev (i # is) =
    bind_err (sized_descriptor dev 2 i 9 (64 * 1024) Configuration_length) (\<lambda>c.
    bind_err (read_configurations dev is) (\<lambda>cs. Inr (c # cs)))"

definition read_bos :: "answers \<Rightarrow> byte list \<Rightarrow> capture_error + byte list option" where
  "read_bos dev raw =
    (if unat (raw ! 3) * 256 + unat (raw ! 2) \<ge> 0x0201
     then bind_err (sized_descriptor dev 15 0 5 4096 Bos_length) (\<lambda>b. Inr (Some b)) else Inr None)"

text \<open>The end of \<^verbatim>\<open>capture\<close>: choosing the configuration and its interfaces.\<close>

definition finish_capture ::
  "(units \<Rightarrow> units) \<Rightarrow> device_info \<Rightarrow> byte list \<Rightarrow> byte list list \<Rightarrow> byte list option \<Rightarrow> (byte option \<times> units) list \<Rightarrow>
    capture_error + captured" where
  "finish_capture lower d raw cfgs bos strings =
    (case or_first (active_configuration d) cfgs of
       None \<Rightarrow> Inl No_configuration
     | Some selected \<Rightarrow>
         if selected = 0 then Inl No_configuration
         else if active_configuration d \<noteq> Some selected \<and> \<not> selects_ok d then Inl Select_failed
         else (case List.find (\<lambda>c. elem c 5 = Some selected) cfgs of
             None \<Rightarrow> Inl Not_captured
           | Some active \<Rightarrow>
               (case classifyWebUSBConfiguration active of
                  Inl e \<Rightarrow> Inl (Malformed_configuration e)
                | Inr ifs \<Rightarrow>
                    Inr \<lparr>c_device = raw, c_configurations = cfgs, c_bos = bos, c_strings = strings,
                      c_profile = profileFrom lower d (Some selected) raw cfgs bos strings,
                      c_configuration = selected, c_interfaces = ifs\<rparr>)))"

definition capture :: "answers \<Rightarrow> (units \<Rightarrow> units) \<Rightarrow> device_info \<Rightarrow> capture_error + captured" where
  "capture dev lower d =
    (if \<not> is_open d \<and> \<not> opens_ok d then Inl Open_failed else
     bind_err (usb_descriptor dev 1 0 0 18) (\<lambda>raw.
     if length raw \<noteq> 18 \<or> raw ! 4 \<noteq> 0 then Inl Device_class
     else if raw ! 17 = 0 \<or> unat (raw ! 17) > maxConfigurations then Inl Configuration_count else
     bind_err (read_configurations dev [0..<unat (raw ! 17)]) (\<lambda>cfgs.
     bind_err (read_bos dev raw) (\<lambda>bos.
     bind_err (captureStrings dev raw cfgs) (finish_capture lower d raw cfgs bos)))))"

definition usb_identity_of :: "(byte list \<Rightarrow> byte list) \<Rightarrow> (units \<Rightarrow> byte list) \<Rightarrow> device_info \<Rightarrow> byte list \<Rightarrow> string" where
  "usb_identity_of digest encode_text d raw = concat (map hexByte (take 8 (digest (raw @ encode_text (serialNumber d)))))"

text \<open>
  Saving asks for a profile of that name first and then updates or creates it; \<open>server\<close> says whether there is one and
  whether the server accepts the profile.
\<close>

datatype save_call = Update captured_profile | Create captured_profile

definition saveProfile :: "(string \<Rightarrow> bool) \<Rightarrow> (save_call \<Rightarrow> bool) \<Rightarrow> captured_profile \<Rightarrow> save_call \<times> bool" where
  "saveProfile exists_profile accepts p =
    (let call = (if exists_profile (cp_name p) then Update p else Create p) in (call, accepts call))"

text \<open>\<^verbatim>\<open>select\<close> up to \<^verbatim>\<open>attach\<close>: the call made to the server, and the device with its identity.\<close>

definition select_device ::
  "answers \<Rightarrow> (units \<Rightarrow> units) \<Rightarrow> (byte list \<Rightarrow> byte list) \<Rightarrow> (units \<Rightarrow> byte list) \<Rightarrow> (string \<Rightarrow> bool) \<Rightarrow> (save_call \<Rightarrow> bool) \<Rightarrow>
    bool \<Rightarrow> bool option \<Rightarrow> device_info \<Rightarrow> save_call option \<times> (capture_error + captured \<times> string)" where
  "select_device dev lower digest encode_text exists_profile accepts has_usb secure d =
    (if \<not> has_usb then (None, Inl (No_webusb (secure = Some False)))
     else case capture dev lower d of
       Inl e \<Rightarrow> (None, Inl e)
     | Inr c \<Rightarrow>
         (let (call, good) = saveProfile exists_profile accepts (c_profile c)
          in (Some call,
              if \<not> good then Inl Save_failed
              else if (\<exists>b. c_bos c = Some b \<and> elem b 4 \<noteq> Some 0) then Inl Bos_capabilities
              else if c_interfaces c = [] then Inl No_interface
              else Inr (c, usb_identity_of digest encode_text d (c_device c)))))"

section \<open>Lemmas\<close>

lemma hex_digit_name: "n < 16 \<Longrightarrow> name_start (hex_digit n)"
proof -
  assume "n < 16"
  then have "hex_digit n \<in> set ''0123456789abcdef''" unfolding hex_digit_def by (intro nth_mem) simp
  then show ?thesis by (auto simp: name_start_def is_digit_def)
qed

definition name_char :: "char \<Rightarrow> bool" where
  "name_char c \<longleftrightarrow> name_start c \<or> c \<in> set ''._-''"

lemma hex4_name: "list_all name_char (hex4 w)" "length (hex4 w) = 4"
proof -
  have "unat w < 65536" using unsigned_less [of w] by simp
  then have "unat w div 4096 < 16" by (simp add: div_less_iff_less_mult)
  then show "list_all name_char (hex4 w)" by (simp add: hex4_def Let_def name_char_def hex_digit_name)
  show "length (hex4 w) = 4" by (simp add: hex4_def Let_def)
qed

lemma name_unit_char:
  assumes "name_unit u"
  shows "name_char (char_of u)"
proof -
  from assms have u: "u < 256" by (auto simp: name_unit_def)
  then have n: "of_char (char_of u :: char) = u" by (simp add: of_char_of)
  have c: "CHR ''.'' = char_of (46 :: nat)" "CHR ''_'' = char_of (95 :: nat)" "CHR ''-'' = char_of (45 :: nat)"
    by (simp_all add: char_of_def bit_0)
  from assms show ?thesis
    by (auto simp: name_unit_def name_char_def name_start_def is_digit_def Let_def n c)
qed

lemma name_char_hyphen: "name_char (CHR ''-'')"
  by (simp add: name_char_def)

lemma hyphenate_names: "list_all name_char (hyphenate b us)"
  by (induction b us rule: hyphenate.induct) (auto simp: name_unit_char name_char_hyphen)

lemma set_strip: "set (strip_hyphens s) \<subseteq> set s"
  by (auto simp: strip_hyphens_def dest!: set_dropWhileD)

lemma shortName_names: "list_all name_char (shortName lower value)" "length (shortName lower value) \<le> 24"
    "shortName lower value \<noteq> []"
proof -
  let ?n = "strip_hyphens (hyphenate False (lower value))"
  have "list_all name_char ?n" using set_strip [of "hyphenate False (lower value)"] hyphenate_names
    by (auto simp: list_all_iff)
  moreover have "list_all name_char ''device''" by (simp add: name_char_def name_start_def)
  ultimately show "list_all name_char (shortName lower value)"
    by (auto simp: shortName_def Let_def list_all_iff dest: in_set_takeD)
  show "length (shortName lower value) \<le> 24" "shortName lower value \<noteq> []"
    by (auto simp: shortName_def Let_def)
qed

lemma name_char_plain: "name_char c \<Longrightarrow> \<not> is_ws c"
  by (auto simp: name_char_def name_start_def is_ws_def is_digit_def Let_def)

lemma valid_profile_name:
  assumes "name_start c" "list_all name_char cs" "length cs \<le> 63"
  shows "isProfileName (c # cs)"
proof -
  have "name_char (last (c # cs))" using assms by (auto simp: name_char_def list_all_iff)
  then have "js_trim (c # cs) = c # cs"
    using assms(1) by (intro js_trim_plain) (auto simp: name_char_plain name_char_def)
  with assms show ?thesis by (simp add: isProfileName_def name_char_def [abs_def])
qed

lemma profile_name_valid: "isProfileName (cp_name (profileFrom lower d active raw cfgs bos strings))"
proof -
  let ?s = "shortName lower (or_text (or_text (or_text (serialNumber d) (text_at strings (elem raw 16))) (productName d)) (ascii ''device''))"
  have "list_all name_char ''ebusb-''" "name_start (CHR ''w'')" by (simp_all add: name_char_def name_start_def)
  moreover note shortName_names [of lower] hex4_name name_char_hyphen
  ultimately have "isProfileName (CHR ''w'' # ''ebusb-'' @ hex4 (vendorId d) @ ''-'' @ hex4 (productId d) @ ''-'' @ ?s)"
    by (intro valid_profile_name) (simp_all add: list_all_append order_trans [of _ 24])
  then show ?thesis by (simp add: profileFrom_def Let_def)
qed

lemma length_read_configurations: "read_configurations dev is = Inr cs \<Longrightarrow> length cs = length is"
  by (induction "is" arbitrary: cs) (auto simp: bind_err_Inr)

lemma capture_Inr:
  assumes "capture dev lower d = Inr c"
  obtains cfgs bos strings raw where "length raw = 18" "raw ! 4 = 0" "raw ! 17 \<noteq> 0" "unat (raw ! 17) \<le> 8"
    "read_configurations dev [0..<unat (raw ! 17)] = Inr cfgs" "finish_capture lower d raw cfgs bos strings = Inr c"
  using assms
  by (auto simp: capture_def bind_err_Inr maxConfigurations_def split: if_splits)

lemma finish_capture_Inr:
  assumes "finish_capture lower d raw cfgs bos strings = Inr c"
  shows "c_device c = raw" "c_configurations c = cfgs" "c_configuration c \<noteq> 0"
    "\<exists>active. active \<in> set cfgs \<and> elem active 5 = Some (c_configuration c) \<and> classifyWebUSBConfiguration active = Inr (c_interfaces c)"
    "c_profile c = profileFrom lower d (Some (c_configuration c)) raw cfgs bos strings"
proof -
  from assms obtain selected active where s: "selected \<noteq> 0"
      "List.find (\<lambda>c. elem c 5 = Some selected) cfgs = Some active" "classifyWebUSBConfiguration active = Inr (c_interfaces c)"
      "c_device c = raw" "c_configurations c = cfgs" "c_configuration c = selected"
      "c_profile c = profileFrom lower d (Some selected) raw cfgs bos strings"
    by (auto simp: finish_capture_def split: option.splits if_splits sum.splits)
  then have "active \<in> set cfgs" "elem active 5 = Some selected" by (auto simp: find_Some_iff)
  with s show "c_device c = raw" "c_configurations c = cfgs" "c_configuration c \<noteq> 0"
    "\<exists>active. active \<in> set cfgs \<and> elem active 5 = Some (c_configuration c) \<and> classifyWebUSBConfiguration active = Inr (c_interfaces c)"
    "c_profile c = profileFrom lower d (Some (c_configuration c)) raw cfgs bos strings"
    by auto
qed

section \<open>Properties\<close>

text \<open>
  A device that is captured has no class of its own, one to eight configurations, all of them read, and an active
  one among them whose safe interfaces are those relayed; the name its profile is saved under, whatever texts the device
  carries and however the browser lower-cases them, is one the profile editor accepts.
\<close>

theorem captured_device_is_usable:
  assumes "capture dev lower d = Inr c"
  shows "length (c_device c) = 18 \<and> c_device c ! 4 = 0 \<and> length (c_configurations c) = unat (c_device c ! 17) \<and>
    0 < length (c_configurations c) \<and> length (c_configurations c) \<le> 8 \<and> c_configuration c \<noteq> 0 \<and>
    (\<exists>active. active \<in> set (c_configurations c) \<and> elem active 5 = Some (c_configuration c) \<and>
      classifyWebUSBConfiguration active = Inr (c_interfaces c)) \<and>
    isProfileName (cp_name (c_profile c))"
proof -
  from assms obtain cfgs bos strings raw where c: "length raw = 18" "raw ! 4 = 0" "raw ! 17 \<noteq> 0" "unat (raw ! 17) \<le> 8"
      "read_configurations dev [0..<unat (raw ! 17)] = Inr cfgs" "finish_capture lower d raw cfgs bos strings = Inr c"
    by (rule capture_Inr)
  have "length cfgs = unat (raw ! 17)" using length_read_configurations [OF c(5)] by simp
  moreover have "0 < unat (raw ! 17)" using c(3) by (simp add: unat_gt_0)
  ultimately show ?thesis using c finish_capture_Inr [OF c(6)] profile_name_valid by simp
qed

text \<open>A device without texts, with one vendor interface.\<close>

definition sample_device :: answers where
  "sample_device kind i language len =
    (ok, Some (if kind = 1 then [18, 1, 0, 2, 0, 0, 0, 64, 0x09, 0x12, 1, 0, 0, 1, 0, 0, 0, 1]
       else take len [9, 2, 18, 0, 1, 1, 0, 0x80, 50, 9, 4, 0, 0, 0, 0xff, 0, 0, 0]))"

definition sample_info :: device_info where
  "sample_info = \<lparr>vendorId = 0x1209, productId = 1, productName = [75, 86, 77, 32, 33], manufacturerName = [], serialNumber = [],
     is_open = True, opens_ok = True, selects_ok = True, active_configuration = Some 1\<rparr>"

definition sample_configuration :: "byte list" where
  "sample_configuration = [9, 2, 18, 0, 1, 1, 0, 0x80, 50, 9, 4, 0, 0, 0, 0xff, 0, 0, 0]"

lemma walk_sample:
  "walk sample_configuration 0 = Inr [[9, 2, 18, 0, 1, 1, 0, 0x80, 50], [9, 4, 0, 0, 0, 0xff, 0, 0, 0]]"
  by (simp add: sample_configuration_def walk.simps)

theorem captured_device_is_usable_witness:
  "\<exists>c. capture sample_device (\<lambda>us. us) sample_info = Inr c \<and> isProfileName (cp_name (c_profile c)) \<and> c_configurations c \<noteq> []"
proof -
  let ?raw = "[18, 1, 0, 2, 0, 0, 0, 64, 0x09, 0x12, 1, 0, 0, 1, 0, 0, 0, 1] :: byte list"
  have raw: "usb_descriptor sample_device 1 0 0 18 = Inr ?raw" by (simp add: usb_descriptor_def sample_device_def)
  have cfgs: "read_configurations sample_device [0..<1] = Inr [sample_configuration]"
    by (simp add: sized_descriptor_def usb_descriptor_def sample_device_def bind_err_def elem_def bits_def sample_configuration_def)
  have bos: "read_bos sample_device ?raw = Inr None" by (simp add: read_bos_def)
  have strings: "captureStrings sample_device ?raw [sample_configuration] = Inr []"
    by (simp add: captureStrings_def walk_sample bind_err_def string_indices_def elem_def js_add_def js_delete_def
        sample_configuration_def [symmetric]) (simp add: sample_configuration_def)
  have "classifyWebUSBConfiguration sample_configuration = Inr [0]"
    by (simp add: classifyWebUSBConfiguration_def walk_sample classify_item_def protectedClasses_def supportedClasses_def
        js_add_def)
  then have "\<exists>c. finish_capture (\<lambda>us. us) sample_info ?raw [sample_configuration] None [] = Inr c"
    by (simp add: finish_capture_def sample_info_def or_first_def elem_def) (simp add: sample_configuration_def)
  with raw cfgs bos strings obtain c where c: "capture sample_device (\<lambda>us. us) sample_info = Inr c"
    by (auto simp: capture_def bind_err_def maxConfigurations_def sample_info_def)
  from captured_device_is_usable [OF this] c show ?thesis by auto
qed

text \<open>A device refused for its capabilities has had its profile saved all the same.\<close>

lemma refused_device_is_saved:
  assumes "capture dev lower d = Inr c" "c_bos c = Some b" "elem b 4 \<noteq> Some 0" "accepts (Create (c_profile c))"
    "\<not> exists_profile (cp_name (c_profile c))"
  shows "select_device dev lower digest enc exists_profile accepts True secure d = (Some (Create (c_profile c)), Inl Bos_capabilities)"
  using assms by (simp add: select_device_def saveProfile_def)

end
