(* ===== verification/Assistant_Input.thy ===== *)
theory Assistant_Input
  imports Prelude
begin

text \<open>
  The gestures of the assistant, under \<^verbatim>\<open>web/src/pages/desktop/assistant\<close>: the Control-Control prefix
  (\<^verbatim>\<open>hotkeys.ts\<close>, \<^verbatim>\<open>use-hotkeys.ts\<close>), which elements the gestures belong to (\<^verbatim>\<open>interaction-guard.ts\<close>), four
  clicks (\<^verbatim>\<open>quad-click-matcher.ts\<close>, \<^verbatim>\<open>quad-click.ts\<close>) and the arithmetic of a selection on the picture
  (\<^verbatim>\<open>selection-math.ts\<close>).
\<close>

section \<open>Hot keys\<close>

definition HOTKEY_CODES :: "string list" where
  "HOTKEY_CODES = [''KeyA'', ''KeyC'', ''KeyT'', ''KeyF'', ''KeyS'', ''KeyP'', ''KeyL'', ''KeyR'', ''KeyM'', ''ArrowUp'', ''ArrowDown'']"

definition PREFIX_WINDOW_MS :: int where "PREFIX_WINDOW_MS = 500"

definition isHotkeyCode :: "string \<Rightarrow> bool" where
  "isHotkeyCode code \<longleftrightarrow> code \<in> set HOTKEY_CODES"

record hotkey_matcher =
  ctrlTimes :: "int list"
  held_code :: "string option"

definition new_matcher :: hotkey_matcher where
  "new_matcher = \<lparr>ctrlTimes = [], held_code = None\<rparr>"

definition note_control :: "int \<Rightarrow> hotkey_matcher \<Rightarrow> hotkey_matcher" where
  "note_control t m =
    (let times = filter (\<lambda>x. t - x < PREFIX_WINDOW_MS) (ctrlTimes m @ [t])
     in m\<lparr>ctrlTimes := if length times > 2 then tl times else times\<rparr>)"

text \<open>The action and whether the event is swallowed.\<close>

definition hk_keydown :: "string \<Rightarrow> bool \<Rightarrow> int \<Rightarrow> hotkey_matcher \<Rightarrow> hotkey_matcher \<times> string option \<times> bool" where
  "hk_keydown code repeated now m =
    (if held_code m = Some code then (m, None, True)
     else
       (let m = (if code \<in> {''ControlLeft'', ''ControlRight''} \<and> \<not> repeated then note_control now m else m)
        in if length (ctrlTimes m) = 2 \<and> isHotkeyCode code
           then (m\<lparr>ctrlTimes := [], held_code := Some code\<rparr>, Some code, True)
           else (m, None, False)))"

definition hk_keyup :: "string \<Rightarrow> hotkey_matcher \<Rightarrow> hotkey_matcher \<times> bool" where
  "hk_keyup code m = (if held_code m = Some code then (m\<lparr>held_code := None\<rparr>, True) else (m, False))"

section \<open>Where gestures count\<close>

text \<open>What the guard asks of the page when an event arrives.\<close>

datatype element = Nothing | Body | Document_element | Screen_part | Other_element

definition isRemoteScreen :: "element \<Rightarrow> bool" where
  "isRemoteScreen e \<longleftrightarrow> e = Screen_part"

definition isDesktop :: "element \<Rightarrow> bool" where
  "isDesktop e \<longleftrightarrow> e \<in> {Nothing, Body, Document_element} \<or> isRemoteScreen e"

record page =
  activeElement :: element
  overlay_visible :: bool

definition allowAssistantKeyboard :: "page \<Rightarrow> element \<Rightarrow> bool \<Rightarrow> bool" where
  "allowAssistantKeyboard p target localInteraction \<longleftrightarrow>
    \<not> localInteraction \<and> isDesktop target \<and> isDesktop (activeElement p) \<and> \<not> overlay_visible p"

section \<open>The listeners of the window\<close>

record hotkey_hook =
  matcher :: hotkey_matcher
  local_interaction :: bool
  run_actions :: "string list"

definition new_hook :: hotkey_hook where
  "new_hook = \<lparr>matcher = new_matcher, local_interaction = False, run_actions = []\<rparr>"

datatype hook_event =
  Key_down string bool bool int page element  \<comment> \<open>code, repeat, composing, time, page, target\<close>
| Key_up string page element
| Blur
| Focus_in
| Pointer_down element
| Pointer_over element

definition reset_hook :: "hotkey_hook \<Rightarrow> hotkey_hook" where
  "reset_hook h = h\<lparr>matcher := new_matcher\<rparr>"

text \<open>The new state and whether the event is kept from the rest of the page.\<close>

fun hook_step :: "hotkey_hook \<Rightarrow> hook_event \<Rightarrow> hotkey_hook \<times> bool" where
  "hook_step h (Key_down code repeated composing now p target) =
    (if \<not> allowAssistantKeyboard p target (local_interaction h) then (reset_hook h, False)
     else if composing then (h, False)
     else
       (let (m, action, swallow) = hk_keydown code repeated now (matcher h)
        in (h\<lparr>matcher := m, run_actions := run_actions h @ (case action of None \<Rightarrow> [] | Some a \<Rightarrow> [a])\<rparr>, swallow)))"
| "hook_step h (Key_up code p target) =
    (if \<not> allowAssistantKeyboard p target (local_interaction h) then (reset_hook h, False)
     else let (m, swallow) = hk_keyup code (matcher h) in (h\<lparr>matcher := m\<rparr>, swallow))"
| "hook_step h Blur = (reset_hook h, False)"
| "hook_step h Focus_in = (reset_hook h, False)"
| "hook_step h (Pointer_down target) = (reset_hook (h\<lparr>local_interaction := \<not> isRemoteScreen target\<rparr>), False)"
| "hook_step h (Pointer_over target) =
    (let next_local = \<not> isRemoteScreen target
     in ((if next_local \<noteq> local_interaction h then reset_hook h else h)\<lparr>local_interaction := next_local\<rparr>, False))"

text \<open>The events a run lets through, in order.\<close>

fun passed :: "hotkey_hook \<Rightarrow> hook_event list \<Rightarrow> hook_event list" where
  "passed h [] = []"
| "passed h (e # es) = (let (h', swallow) = hook_step h e in (if swallow then [] else [e]) @ passed h' es)"

section \<open>Four clicks\<close>

definition quad_click :: "bool \<Rightarrow> int \<Rightarrow> int list \<Rightarrow> int list \<times> bool" where
  "quad_click allowed now stamps =
    (if \<not> allowed then ([], False)
     else let stamps = filter (\<lambda>s. now - s < 2000) stamps @ [now]
          in if length stamps < 4 then (stamps, False) else ([], True))"

definition quad_allowed :: "nat \<Rightarrow> element \<Rightarrow> bool \<Rightarrow> bool" where
  "quad_allowed button target overlay \<longleftrightarrow> button = 0 \<and> isRemoteScreen target \<and> \<not> overlay"

section \<open>Selections\<close>

record rect =
  left :: rat
  top :: rat
  rwidth :: rat
  rheight :: rat

record crop =
  crop_x :: rat
  crop_y :: rat
  crop_w :: rat
  crop_h :: rat

definition selectionToCrop :: "rect \<Rightarrow> rect \<Rightarrow> crop option" where
  "selectionToCrop sel media =
    (if rwidth media \<le> 0 \<or> rheight media \<le> 0 then None
     else
       (let l = max (left sel) (left media); t = max (top sel) (top media);
            r = min (left sel + rwidth sel) (left media + rwidth media);
            b = min (top sel + rheight sel) (top media + rheight media)
        in if r - l < 1 \<or> b - t < 1 then None
           else Some \<lparr>crop_x = (l - left media) / rwidth media, crop_y = (t - top media) / rheight media,
                      crop_w = (r - l) / rwidth media, crop_h = (b - t) / rheight media\<rparr>))"

text \<open>The translation and the scale of a crop lock.\<close>

definition cropLockTransform :: "rect \<Rightarrow> rect \<Rightarrow> rect \<Rightarrow> rat \<Rightarrow> (rat \<times> rat \<times> rat) option" where
  "cropLockTransform sel element area layoutScale =
    (let w = max 1 (rwidth sel); h = max 1 (rheight sel);
         scale = min (rwidth area / w) (rheight area / h)
     in if scale \<le> 0 \<or> \<not> layoutScale > 0 then None
        else
          (let offX = left area + (rwidth area - w * scale) / 2;
               offY = top area + (rheight area - h * scale) / 2
           in Some ((offX - left element - (left sel - left element) * scale) / layoutScale,
                    (offY - top element - (top sel - top element) * scale) / layoutScale, scale)))"

section \<open>Lemmas\<close>

fun key_code :: "hook_event \<Rightarrow> string option" where
  "key_code (Key_down code repeated composing now p target) = Some code"
| "key_code (Key_up code p target) = Some code"
| "key_code _ = None"

text \<open>A key event that the guard lets the matcher see.\<close>

fun seen :: "hook_event \<Rightarrow> bool" where
  "seen (Key_down code repeated composing now p target) = (\<not> composing \<and> allowAssistantKeyboard p target False)"
| "seen (Key_up code p target) = allowAssistantKeyboard p target False"
| "seen _ = False"

fun is_key_up :: "string \<Rightarrow> hook_event \<Rightarrow> bool" where
  "is_key_up k (Key_up code p target) = (code = k)"
| "is_key_up k _ = False"

fun hook_run :: "hotkey_hook \<Rightarrow> hook_event list \<Rightarrow> hotkey_hook" where
  "hook_run h [] = h"
| "hook_run h (e # es) = hook_run (fst (hook_step h e)) es"

definition holding :: "string \<Rightarrow> hotkey_hook \<Rightarrow> bool" where
  "holding k h \<longleftrightarrow> held_code (matcher h) = Some k \<and> \<not> local_interaction h"

lemma actions_grow: "\<exists>more. run_actions (fst (hook_step h e)) = run_actions h @ more"
  by (cases e) (auto simp: reset_hook_def split_beta Let_def)

lemma actions_run: "\<exists>more. run_actions (hook_run h es) = run_actions h @ more"
proof (induction es arbitrary: h)
  case (Cons e es)
  from actions_grow [of h e] Cons [of "fst (hook_step h e)"] show ?case by auto
qed simp

lemma note_control_held [simp]: "held_code (note_control t m) = held_code m"
  by (simp add: note_control_def Let_def)

lemma holding_step:
  assumes "holding k h" "seen e" "\<not> is_key_up k e" "run_actions (fst (hook_step h e)) = run_actions h"
  shows "holding k (fst (hook_step h e))" "key_code e = Some k \<Longrightarrow> snd (hook_step h e)"
  using assms
  by (cases e; auto simp: holding_def hk_keydown_def hk_keyup_def Let_def split: if_splits)+

lemma holding_run:
  assumes "holding k h" "list_all seen es" "list_all (\<lambda>e. \<not> is_key_up k e) es" "run_actions (hook_run h es) = run_actions h"
  shows "holding k (hook_run h es) \<and> list_all (\<lambda>e. key_code e \<noteq> Some k) (passed h es)"
  using assms
proof (induction es arbitrary: h)
  case (Cons e es)
  let ?h = "fst (hook_step h e)"
  obtain x y where g: "run_actions ?h = run_actions h @ x" "run_actions (hook_run ?h es) = run_actions ?h @ y"
    using actions_grow [of h e] actions_run [of ?h es] by blast
  with Cons.prems(4) have "x = []" "y = []" by (simp_all del: hook_step.simps)
  with g have a: "run_actions ?h = run_actions h" "run_actions (hook_run ?h es) = run_actions ?h" by simp_all
  note st = holding_step [OF Cons.prems(1) _ _ a(1)]
  from Cons.prems st have "holding k ?h" by simp
  from Cons.IH [OF this] Cons.prems(2,3) a(2)
  have "holding k (hook_run ?h es) \<and> list_all (\<lambda>e. key_code e \<noteq> Some k) (passed ?h es)" by simp
  moreover have "snd (hook_step h e) \<or> key_code e \<noteq> Some k" using st(2) Cons.prems(2,3) by auto
  ultimately show ?case by (auto simp: split_beta)
qed simp

section \<open>Properties\<close>

text \<open>
  Once an action key is taken, the page behind sees nothing of it: its repeats and its release are swallowed, up to
  and including the release, as long as the keys keep going to the picture and no other action is taken meanwhile.
\<close>

theorem hotkey_hidden_until_release:
  assumes "hook_step h (Key_down k repeated composing now p target) = (h', True)"
    "list_all seen es" "list_all (\<lambda>e. \<not> is_key_up k e) es" "run_actions (hook_run h' es) = run_actions h'"
    "allowAssistantKeyboard q target' False"
  shows "list_all (\<lambda>e. key_code e \<noteq> Some k) (passed h' (es @ [Key_up k q target']))"
proof -
  from assms(1) have "holding k h'"
    by (auto simp: holding_def hk_keydown_def allowAssistantKeyboard_def Let_def split: if_splits)
  from holding_run [OF this assms(2-4)] have "holding k (hook_run h' es)" "list_all (\<lambda>e. key_code e \<noteq> Some k) (passed h' es)"
    by simp_all
  moreover have "passed h' (es @ [e]) = passed h' es @ passed (hook_run h' es) [e]" for e
    by (induction es arbitrary: h') (simp_all add: split_beta Let_def)
  ultimately show ?thesis using assms(5) by (simp add: holding_def hk_keyup_def Let_def)
qed

definition desk :: page where "desk = \<lparr>activeElement = Body, overlay_visible = False\<rparr>"

abbreviation press :: "string \<Rightarrow> int \<Rightarrow> hook_event" where
  "press k t \<equiv> Key_down k False False t desk Body"

theorem hotkey_hidden_until_release_witness:
  "list_all (\<lambda>e. key_code e \<noteq> Some ''KeyT'')
     (passed (fst (hook_step (hook_run new_hook [press ''ControlLeft'' 0, press ''ControlLeft'' 200]) (press ''KeyT'' 300)))
       ([press ''KeyT'' 800, press ''KeyX'' 810] @ [Key_up ''KeyT'' desk Body]))"
proof -
  let ?h = "hook_run new_hook [press ''ControlLeft'' 0, press ''ControlLeft'' 200]"
  let ?h' = "fst (hook_step ?h (press ''KeyT'' 300))"
  note defs = new_hook_def new_matcher_def hk_keydown_def hk_keyup_def note_control_def PREFIX_WINDOW_MS_def isHotkeyCode_def
    HOTKEY_CODES_def allowAssistantKeyboard_def isDesktop_def desk_def Let_def
  have a: "hook_step ?h (press ''KeyT'' 300) = (?h', True)" by (simp add: defs)
  show ?thesis by (rule hotkey_hidden_until_release [OF a]) (simp_all add: defs)
qed

text \<open>
  The prefix does not expire. After copy and paste, which press Control twice within half a second, the next A is
  taken for an action and kept from the target, however much later it comes.
\<close>

theorem prefix_never_expires:
  "passed new_hook [press ''ControlLeft'' t, press ''KeyC'' (t + 50), Key_up ''ControlLeft'' desk Body,
     press ''ControlLeft'' (t + 300), press ''KeyV'' (t + 350), Key_up ''ControlLeft'' desk Body, press ''KeyA'' later] =
   [press ''ControlLeft'' t, press ''KeyC'' (t + 50), Key_up ''ControlLeft'' desk Body,
     press ''ControlLeft'' (t + 300), press ''KeyV'' (t + 350), Key_up ''ControlLeft'' desk Body]"
  by (simp add: new_hook_def new_matcher_def hk_keydown_def hk_keyup_def note_control_def PREFIX_WINDOW_MS_def isHotkeyCode_def
    HOTKEY_CODES_def allowAssistantKeyboard_def isDesktop_def desk_def Let_def)

text \<open>
  A selection that touches the picture gives a crop inside the picture: a non-empty part of the unit square.
\<close>

theorem crop_inside_picture:
  assumes "selectionToCrop sel media = Some c"
  shows "0 \<le> crop_x c \<and> 0 \<le> crop_y c \<and> 0 < crop_w c \<and> 0 < crop_h c \<and> crop_x c + crop_w c \<le> 1 \<and> crop_y c + crop_h c \<le> 1"
proof -
  have unit: "0 \<le> (l - m) / w \<and> 0 < (r - l) / w \<and> (l - m) / w + (r - l) / w \<le> 1"
    if "0 < w" "m \<le> l" "1 \<le> r - l" "r \<le> m + w" for l r m w :: rat
    using that by (auto simp: add_divide_distrib [symmetric] divide_le_eq)
  from assms have w: "0 < rwidth media" "0 < rheight media" by (auto simp: selectionToCrop_def Let_def split: if_splits)
  let ?l = "max (left sel) (left media)" and ?t = "max (top sel) (top media)"
  let ?r = "min (left sel + rwidth sel) (left media + rwidth media)" and ?b = "min (top sel + rheight sel) (top media + rheight media)"
  from assms w have "1 \<le> ?r - ?l" "1 \<le> ?b - ?t"
    and c: "c = \<lparr>crop_x = (?l - left media) / rwidth media, crop_y = (?t - top media) / rheight media,
      crop_w = (?r - ?l) / rwidth media, crop_h = (?b - ?t) / rheight media\<rparr>"
    by (auto simp: selectionToCrop_def Let_def split: if_splits)
  then show ?thesis
    using unit [OF w(1), of "left media" ?l ?r] unit [OF w(2), of "top media" ?t ?b] by (simp add: c)
qed

theorem crop_inside_picture_witness:
  "\<exists>c. selectionToCrop \<lparr>left = 0, top = 50, rwidth = 300, rheight = 900\<rparr> \<lparr>left = 100, top = 100, rwidth = 400, rheight = 300\<rparr> = Some c \<and>
     crop_x c + crop_w c \<le> 1"
proof -
  obtain c where "selectionToCrop \<lparr>left = 0, top = 50, rwidth = 300, rheight = 900\<rparr> \<lparr>left = 100, top = 100, rwidth = 400, rheight = 300\<rparr> = Some c"
    by (simp add: selectionToCrop_def)
  with crop_inside_picture [OF this] show ?thesis by blast
qed

text \<open>
  Locking a crop fills the viewport with the selection: it is mapped inside the area, centred, and touches it on two
  sides.
\<close>

theorem crop_lock_fills_area:
  assumes "cropLockTransform sel el area k = Some (tx, ty, scale)" "1 \<le> rwidth sel" "1 \<le> rheight sel"
  defines "x \<equiv> \<lambda>v. left el + tx * k + (v - left el) * scale" and "y \<equiv> \<lambda>v. top el + ty * k + (v - top el) * scale"
  shows "x (left sel) - left area = (left area + rwidth area) - x (left sel + rwidth sel) \<and>
    y (top sel) - top area = (top area + rheight area) - y (top sel + rheight sel) \<and>
    left area \<le> x (left sel) \<and> top area \<le> y (top sel) \<and> (x (left sel) = left area \<or> y (top sel) = top area)"
proof -
  let ?w = "rwidth sel" and ?h = "rheight sel"
  let ?offX = "left area + (rwidth area - ?w * scale) / 2" and ?offY = "top area + (rheight area - ?h * scale) / 2"
  from assms(1-3) have k: "0 < k" and s: "scale = min (rwidth area / ?w) (rheight area / ?h)"
    and t: "tx * k = ?offX - left el - (left sel - left el) * scale" "ty * k = ?offY - top el - (top sel - top el) * scale"
    by (auto simp: cropLockTransform_def Let_def split: if_splits)
  have x: "x v = ?offX + (v - left sel) * scale" for v unfolding x_def t by (simp add: algebra_simps)
  have y: "y v = ?offY + (v - top sel) * scale" for v unfolding y_def t by (simp add: algebra_simps)
  have le: "?w * scale \<le> rwidth area" "?h * scale \<le> rheight area"
    using assms(2,3) by (auto simp: s min_def field_simps)
  have "?w * scale = rwidth area \<or> ?h * scale = rheight area" using assms(2,3) by (auto simp: s min_def)
  with le show ?thesis unfolding x y by (auto simp: field_simps)
qed

theorem crop_lock_fills_area_witness:
  "\<exists>tx ty scale. cropLockTransform \<lparr>left = 100, top = 50, rwidth = 200, rheight = 100\<rparr> \<lparr>left = 0, top = 0, rwidth = 800, rheight = 600\<rparr>
      \<lparr>left = 0, top = 0, rwidth = 800, rheight = 600\<rparr> 1 = Some (tx, ty, scale) \<and> (0 :: rat) \<le> 0 + tx * 1 + (100 - 0) * scale"
proof -
  obtain tx ty scale where t: "cropLockTransform \<lparr>left = 100, top = 50, rwidth = 200, rheight = 100\<rparr> \<lparr>left = 0, top = 0, rwidth = 800, rheight = 600\<rparr>
      \<lparr>left = 0, top = 0, rwidth = 800, rheight = 600\<rparr> 1 = Some (tx, ty, scale)"
    by (simp add: cropLockTransform_def Let_def)
  from crop_lock_fills_area [OF t] show ?thesis using t by simp
qed

end
