(* ===== verification/Auth_Refresh.thy ===== *)
theory Auth_Refresh
  imports Prelude
begin

text \<open>
  The events an answer of the server raises in the page: an expired login and a refresh of the account, the latter at
  most once in two seconds unless timers are late (\<^verbatim>\<open>web/src/lib/auth-events.ts\<close>), and the two answers that raise them
  (\<^verbatim>\<open>web/src/lib/http.ts\<close>). Times are milliseconds of the page's clock.
\<close>

definition REFRESH_INTERVAL :: int where "REFRESH_INTERVAL = 2000"

record auth_events =
  lastRefreshNotifyAt :: int
  pendingRefresh :: "int option"  \<comment> \<open>when the timer is due\<close>
  refreshed :: "int list"
  expired :: nat

definition new_auth_events :: auth_events where
  "new_auth_events = \<lparr>lastRefreshNotifyAt = 0, pendingRefresh = None, refreshed = [], expired = 0\<rparr>"

definition dispatch_refresh :: "int \<Rightarrow> auth_events \<Rightarrow> auth_events" where
  "dispatch_refresh now s = s\<lparr>lastRefreshNotifyAt := now, refreshed := refreshed s @ [now]\<rparr>"

definition notifyAuthRefresh :: "int \<Rightarrow> auth_events \<Rightarrow> auth_events" where
  "notifyAuthRefresh now s =
    (let elapsed = now - lastRefreshNotifyAt s
     in if elapsed < REFRESH_INTERVAL
        then (if pendingRefresh s = None then s\<lparr>pendingRefresh := Some (now + (REFRESH_INTERVAL - elapsed))\<rparr> else s)
        else dispatch_refresh now s)"

definition timer_refresh :: "int \<Rightarrow> auth_events \<Rightarrow> auth_events" where
  "timer_refresh now s = dispatch_refresh now (s\<lparr>pendingRefresh := None\<rparr>)"

definition notifyAuthExpired :: "auth_events \<Rightarrow> auth_events" where
  "notifyAuthExpired s = s\<lparr>expired := expired s + 1\<rparr>"

text \<open>What a rejected request does; \<^verbatim>\<open>None\<close> is a failure without an answer.\<close>

definition response_error :: "nat option \<Rightarrow> int \<Rightarrow> auth_events \<Rightarrow> auth_events" where
  "response_error code now s =
    (if code = Some 401 then notifyAuthExpired s else if code = Some 403 then notifyAuthRefresh now s else s)"

datatype auth_event = Refused "nat option" | Changed | Timer

fun auth_step :: "auth_events \<Rightarrow> int \<times> auth_event \<Rightarrow> auth_events" where
  "auth_step s (now, Refused code) = response_error code now s"
| "auth_step s (now, Changed) = notifyAuthRefresh now s"
| "auth_step s (now, Timer) = timer_refresh now s"

text \<open>The timer fires when it is due or later.\<close>

fun auth_possible :: "auth_events \<Rightarrow> int \<times> auth_event \<Rightarrow> bool" where
  "auth_possible s (now, Timer) = (case pendingRefresh s of None \<Rightarrow> False | Some due \<Rightarrow> due \<le> now)"
| "auth_possible s (now, e) = True"

definition served :: "int \<Rightarrow> auth_events \<Rightarrow> bool" where
  "served t s \<longleftrightarrow> list_ex (\<lambda>d. t \<le> d) (refreshed s) \<or> (\<exists>due. pendingRefresh s = Some due \<and> due \<le> t + REFRESH_INTERVAL)"

definition auth_inv :: "auth_events \<Rightarrow> bool" where
  "auth_inv s \<longleftrightarrow> (\<forall>due. pendingRefresh s = Some due \<longrightarrow> due \<le> lastRefreshNotifyAt s + REFRESH_INTERVAL)"

lemma auth_step_dispatch: "refreshed (dispatch_refresh now s) = refreshed s @ [now]" "pendingRefresh (dispatch_refresh now s) = pendingRefresh s"
  by (simp_all add: dispatch_refresh_def)

text \<open>A notification is served: the refresh follows at once, or a timer within two seconds is pending.\<close>

lemma notify_served:
  assumes "lastRefreshNotifyAt s \<le> now" "auth_inv s"
  shows "served now (notifyAuthRefresh now s)"
  using assms
  by (cases "pendingRefresh s")
    (auto simp: served_def notifyAuthRefresh_def auth_inv_def Let_def auth_step_dispatch REFRESH_INTERVAL_def)

lemma served_step:
  assumes "served t s" "auth_possible s (now, e)" "t \<le> now"
  shows "served t (auth_step s (now, e))"
  using assms
  by (cases e)
    (auto simp: served_def notifyAuthRefresh_def timer_refresh_def response_error_def notifyAuthExpired_def Let_def dispatch_refresh_def
      split: option.splits)

lemma auth_inv_step:
  assumes "auth_inv s" "lastRefreshNotifyAt s \<le> now"
  shows "auth_inv (auth_step s (now, e))" "lastRefreshNotifyAt (auth_step s (now, e)) \<le> now"
  using assms
  by (cases e; auto simp: auth_inv_def notifyAuthRefresh_def timer_refresh_def response_error_def notifyAuthExpired_def Let_def
      dispatch_refresh_def)+

text \<open>The clock does not go back.\<close>

fun in_order :: "int \<Rightarrow> (int \<times> auth_event) list \<Rightarrow> bool" where
  "in_order t [] = True"
| "in_order t ((now, e) # es) = (t \<le> now \<and> in_order now es)"

lemma served_run:
  "served t s \<Longrightarrow> t \<le> u \<Longrightarrow> in_order u es \<Longrightarrow> run_allowed auth_possible auth_step s es \<Longrightarrow> served t (foldl auth_step s es)"
proof (induction es arbitrary: s u)
  case (Cons p es)
  obtain now e where p: "p = (now, e)" by (cases p)
  from Cons.prems p have "served t (auth_step s (now, e))" by (intro served_step) auto
  from Cons.IH [OF this, of now] Cons.prems p show ?case by simp
qed simp

lemma auth_inv_run:
  "auth_inv s \<Longrightarrow> lastRefreshNotifyAt s \<le> t \<Longrightarrow> in_order t es \<Longrightarrow>
    auth_inv (foldl auth_step s es) \<and> lastRefreshNotifyAt (foldl auth_step s es) \<le> fst (last ((t, Changed) # es))"
proof (induction es arbitrary: s t)
  case (Cons p es)
  obtain now e where p: "p = (now, e)" by (cases p)
  have n: "lastRefreshNotifyAt s \<le> now" using Cons.prems p by simp
  from Cons.IH [OF auth_inv_step [OF Cons.prems(1) n]] Cons.prems p show ?case by (auto split: if_splits)
qed simp

text \<open>
  No change of an account is missed. After a notification, at whatever moment of a run it comes, a refresh at or
  after it has been dispatched, or a timer due within two seconds of it is still pending, and firing it dispatches one;
  later notifications and refusals never undo that.
\<close>

theorem auth_refresh_follows:
  assumes "in_order 0 (before @ (now, Changed) # later)"
    "run_allowed auth_possible auth_step new_auth_events (before @ (now, Changed) # later)"
  defines "s \<equiv> foldl auth_step new_auth_events (before @ (now, Changed) # later)"
  shows "list_ex (\<lambda>d. now \<le> d) (refreshed s) \<or>
    (\<exists>due. pendingRefresh s = Some due \<and> due \<le> now + 2000 \<and> refreshed (timer_refresh due s) = refreshed s @ [due])"
proof -
  have split: "in_order t (xs @ (n, e) # ys) \<longleftrightarrow> in_order t xs \<and> fst (last ((t, Changed) # xs)) \<le> n \<and> in_order n ys" for t xs n e ys
    by (induction t xs rule: in_order.induct) auto
  let ?b = "foldl auth_step new_auth_events before"
  have "auth_inv new_auth_events" by (simp add: auth_inv_def new_auth_events_def)
  from auth_inv_run [OF this, of 0 before] assms(1) have "auth_inv ?b" "lastRefreshNotifyAt ?b \<le> now"
    by (auto simp: split new_auth_events_def)
  then have "served now (auth_step ?b (now, Changed))" by (simp add: notify_served)
  from served_run [OF this order_refl] assms(1,2) have "served now s"
    by (simp add: split run_allowed_append s_def)
  then show ?thesis by (auto simp: served_def REFRESH_INTERVAL_def timer_refresh_def dispatch_refresh_def)
qed

theorem auth_refresh_follows_witness:
  "pendingRefresh (foldl auth_step new_auth_events [(5000, Changed), (5600, Changed), (6000, Refused (Some 403))]) = Some 7000"
proof -
  have "in_order 0 ([(5000, Changed)] @ (5600, Changed) # [(6000, Refused (Some 403))])"
    "run_allowed auth_possible auth_step new_auth_events ([(5000, Changed)] @ (5600, Changed) # [(6000, Refused (Some 403))])"
    by simp_all
  from auth_refresh_follows [OF this] show ?thesis
    by (auto simp: new_auth_events_def notifyAuthRefresh_def dispatch_refresh_def response_error_def REFRESH_INTERVAL_def Let_def)
qed

end
