(* ===== verification/Device_Settings.thy ===== *)
theory Device_Settings
  imports Text_Tools
begin

text \<open>
  Two settings pages: attaching a USB device over the network
  (\<^verbatim>\<open>web/src/pages/desktop/menu/settings/passthrough/utils.ts\<close>) and the display identification the board shows to the
  host (\<^verbatim>\<open>web/src/pages/desktop/menu/settings/display/utils.ts\<close>). A match of a pattern is the list of its groups.
\<close>

section \<open>USB over the network\<close>

definition exporterPort :: nat where "exporterPort = 3240"

definition hex_char :: "char \<Rightarrow> bool" where
  "hex_char c \<longleftrightarrow> is_digit c \<or> c \<in> set ''abcdefABCDEF''"

definition letter :: "char \<Rightarrow> bool" where
  "letter c \<longleftrightarrow> (let n = of_char c :: nat in 65 \<le> n \<and> n \<le> 90 \<or> 97 \<le> n \<and> n \<le> 122)"

definition host_char :: "char \<Rightarrow> bool" where
  "host_char c \<longleftrightarrow> is_digit c \<or> letter c \<or> c \<in> set ''.-''"

definition port_part :: "string \<Rightarrow> bool" where
  "port_part s \<longleftrightarrow> (case s of c # ds \<Rightarrow> c = CHR '':'' \<and> ds \<noteq> [] \<and> length ds \<le> 5 \<and> list_all is_digit ds | [] \<Rightarrow> False)"

text \<open>\<^verbatim>\<open>exporterPattern.exec\<close>: the host, and the port with its colon.\<close>

definition exporterPattern :: "string \<Rightarrow> (string \<times> string option) option" where
  "exporterPattern s =
    (let (host, rest) =
       (case s of
          c # cs \<Rightarrow>
            if c = CHR ''['' then
              (let inner = takeWhile (\<lambda>x. hex_char x \<or> x \<in> set '':.'') cs; after = drop (length inner) cs
               in if inner \<noteq> [] \<and> after \<noteq> [] \<and> hd after = CHR '']'' then (c # inner @ [CHR '']''], tl after) else ([], s))
            else (takeWhile host_char s, dropWhile host_char s)
        | [] \<Rightarrow> ([], []))
     in if host = [] then None
        else if rest = [] then Some (host, None)
        else if port_part rest then Some (host, Some rest) else None)"

definition port_number :: "string option \<Rightarrow> nat" where
  "port_number p = (case p of None \<Rightarrow> exporterPort | Some s \<Rightarrow> number_of (tl s))"

definition isValidExporter :: "string \<Rightarrow> bool" where
  "isValidExporter value =
    (let exporter = js_trim value
     in if exporter = '''' \<or> length exporter > 253 then False
        else case exporterPattern exporter of
          None \<Rightarrow> False
        | Some (host, p) \<Rightarrow> 0 < port_number p \<and> port_number p \<le> 65535)"

text \<open>\<^verbatim>\<open>busIdPattern\<close>: a bus, a port and a path of hubs.\<close>

definition digits1 :: "string \<Rightarrow> bool" where
  "digits1 s \<longleftrightarrow> s \<noteq> [] \<and> list_all is_digit s"

definition busIdPattern :: "string \<Rightarrow> bool" where
  "busIdPattern s = (case split_char (CHR ''-'') s of [bus, path] \<Rightarrow> digits1 bus \<and> list_all digits1 (split_char (CHR ''.'') path) | _ \<Rightarrow> False)"

definition isValidBusId :: "string \<Rightarrow> bool" where
  "isValidBusId value = (let busId = js_trim value in length busId > 0 \<and> length busId \<le> 31 \<and> busIdPattern busId)"

definition exporterPortOf :: "string \<Rightarrow> nat" where
  "exporterPortOf exporter =
    (case exporterPattern (js_trim exporter) of
       Some (host, Some s) \<Rightarrow> (let port = number_of (tl s) in if 0 < port \<and> port \<le> 65535 then port else exporterPort)
     | _ \<Rightarrow> exporterPort)"

record passthrough_device =
  idVendor :: string
  idProduct :: string
  device_class :: nat

definition deviceId :: "passthrough_device option \<Rightarrow> string" where
  "deviceId d = (case d of None \<Rightarrow> '''' | Some x \<Rightarrow> if idVendor x = '''' \<or> idProduct x = '''' then '''' else idVendor x @ '':'' @ idProduct x)"

definition isIsochronous :: "passthrough_device option \<Rightarrow> bool" where
  "isIsochronous d = (case d of None \<Rightarrow> False | Some x \<Rightarrow> device_class x \<in> {0x01, 0x0e})"

record commands =
  modprobe :: string
  list_cmd :: string
  bind_cmd :: string
  serve :: string
  tunnel :: string
  exporter_cmd :: string
  unbind :: string

definition buildCommands :: "string \<Rightarrow> string \<Rightarrow> string \<Rightarrow> commands" where
  "buildCommands exporter busId host =
    (let port = nat_string (exporterPortOf exporter); i = (if js_trim busId = '''' then ''1-2'' else js_trim busId)
     in \<lparr>modprobe = ''sudo modprobe usbip-host'', list_cmd = ''usbip list -l'', bind_cmd = ''sudo usbip bind -b '' @ i,
         serve = ''sudo usbipd -4 --tcp-port '' @ port,
         tunnel = ''ssh -N -R '' @ port @ '':127.0.0.1:'' @ port @ '' root@'' @ host, exporter_cmd = ''127.0.0.1:'' @ port,
         unbind = ''sudo usbip unbind -b '' @ i\<rparr>)"

section \<open>Display identification\<close>

record display_mode =
  mode_width :: nat
  mode_height :: nat
  mode_refresh :: nat
  interlaced :: bool

text \<open>\<^verbatim>\<open>modePattern\<close>: digits, \<^verbatim>\<open>x\<close>, digits, \<^verbatim>\<open>p\<close> or \<^verbatim>\<open>i\<close>, digits.\<close>

definition parseMode :: "string option \<Rightarrow> display_mode option" where
  "parseMode m =
    (case m of
       None \<Rightarrow> None
     | Some s \<Rightarrow>
         (let w = takeWhile is_digit s; r1 = dropWhile is_digit s; h = takeWhile is_digit (tl r1); r2 = dropWhile is_digit (tl r1);
              hz = takeWhile is_digit (tl r2); r3 = dropWhile is_digit (tl r2)
          in if w \<noteq> [] \<and> r1 \<noteq> [] \<and> hd r1 = CHR ''x'' \<and> h \<noteq> [] \<and> r2 \<noteq> [] \<and> hd r2 \<in> {CHR ''p'', CHR ''i''} \<and> hz \<noteq> [] \<and> r3 = []
             then Some \<lparr>mode_width = number_of w, mode_height = number_of h, mode_refresh = number_of hz,
                        interlaced = (hd r2 = CHR ''i'')\<rparr>
             else None))"

definition formatMode :: "string option \<Rightarrow> string" where
  "formatMode m =
    (case parseMode m of
       None \<Rightarrow> (case m of None \<Rightarrow> '''' | Some s \<Rightarrow> s)
     | Some x \<Rightarrow> nat_string (mode_width x) @ '' '' @ [char_of (215 :: nat)] @ '' '' @ nat_string (mode_height x) @ '' @ '' @
         nat_string (mode_refresh x) @ '' Hz'')"

definition isOlderVersion :: "string option \<Rightarrow> nat \<Rightarrow> nat \<Rightarrow> bool" where
  "isOlderVersion version major minor =
    (case version of
       None \<Rightarrow> False
     | Some s \<Rightarrow>
         (case split_char (CHR ''.'') s of
            [a, b] \<Rightarrow> digits1 a \<and> digits1 b \<and>
              (if number_of a = major then number_of b < minor else number_of a < major)
          | _ \<Rightarrow> False))"

datatype check_level = error_level | warning_level | info_level

record check =
  check_level :: check_level
  check_key :: string
  check_text :: "string option"

record preflight =
  supported :: bool
  tool_available :: bool
  requires_power_cycle :: bool
  reason :: string

record edid_summary =
  preferred_mode :: "string option"
  audio :: "bool option"
  edid_version :: "string option"

definition plain_check :: "check_level \<Rightarrow> string \<Rightarrow> check" where
  "plain_check l k = \<lparr>check_level = l, check_key = k, check_text = None\<rparr>"

definition preflight_checks :: "preflight option \<Rightarrow> check list" where
  "preflight_checks p =
    (case p of
       None \<Rightarrow> []
     | Some f \<Rightarrow>
         (if \<not> supported f then [\<lparr>check_level = error_level, check_key = ''unsupported'', check_text = Some (reason f)\<rparr>] else []) @
         (if \<not> tool_available f then [plain_check error_level ''toolMissing''] else []))"

definition summary_checks :: "edid_summary \<Rightarrow> bool \<Rightarrow> check list" where
  "summary_checks s cycle =
    (let mode = parseMode (preferred_mode s)
     in (case mode of None \<Rightarrow> [] | Some m \<Rightarrow>
           (if interlaced m then [plain_check warning_level ''interlaced''] else []) @
           (if mode_height m > 1080 \<or> mode_refresh m > 60 then [plain_check warning_level ''tooLarge''] else [])) @
        (if audio s = Some False then [plain_check warning_level ''noAudio''] else []) @
        (if isOlderVersion (edid_version s) 1 4 then [plain_check warning_level ''oldVersion''] else []) @
        [plain_check info_level ''hdmiNotice''] @
        (if cycle then [plain_check info_level ''powerCycleNotice''] else []))"

definition buildChecks :: "edid_summary option \<Rightarrow> preflight option \<Rightarrow> check list" where
  "buildChecks s p =
    preflight_checks p @
    (case s of None \<Rightarrow> [] | Some x \<Rightarrow> summary_checks x (case p of None \<Rightarrow> False | Some f \<Rightarrow> requires_power_cycle f))"

definition powerCycleNotice :: "(bool \<times> bool) option \<Rightarrow> string" where
  "powerCycleNotice r =
    (case r of None \<Rightarrow> '''' | Some (verified, cycle) \<Rightarrow>
       if \<not> cycle then '''' else if verified then ''powerCycleNotice'' else ''powerCycleUnverified'')"

definition pendingNotice :: "string option \<Rightarrow> string" where
  "pendingNotice state = (case state of None \<Rightarrow> '''' | Some s \<Rightarrow> powerCycleNotice (Some (s = ''success'', True)))"

section \<open>Lemmas\<close>

lemma split_char_set: "c \<in> set s \<Longrightarrow> c = d \<or> (\<exists>p \<in> set (split_char d s). c \<in> set p)"
proof (induction s)
  case (Cons x s)
  then show ?case by (cases "split_char d s") auto
qed simp

definition plain_char :: "char \<Rightarrow> bool" where
  "plain_char c \<longleftrightarrow> is_digit c \<or> letter c \<or> c \<in> set '' .:-@''"

definition plain :: "string \<Rightarrow> bool" where
  "plain s \<longleftrightarrow> list_all plain_char s"

lemma plain_append: "plain (s @ t) \<longleftrightarrow> plain s \<and> plain t"
  by (simp add: plain_def)

lemma plain_nat_string: "plain (nat_string n)"
  using nat_string_plain by (auto simp: plain_def list_all_iff plain_char_def)

lemma plain_words:
  "plain ''sudo modprobe usbip-host''" "plain ''usbip list -l''"
  "plain ''sudo usbip bind -b ''" "plain ''sudo usbipd -4 --tcp-port ''"
  "plain ''ssh -N -R ''" "plain '':127.0.0.1:''" "plain '' root@''"
  "plain ''127.0.0.1:''" "plain ''sudo usbip unbind -b ''" "plain ''1-2''"
  by (simp_all add: plain_def plain_char_def letter_def is_digit_def)

lemma bus_id_chars:
  assumes "busIdPattern s" "c \<in> set s"
  shows "plain_char c"
proof -
  from assms(1) obtain bus path where b: "split_char (CHR ''-'') s = [bus, path]" "digits1 bus"
      "list_all digits1 (split_char (CHR ''.'') path)"
    by (auto simp: busIdPattern_def split: list.splits)
  from split_char_set [OF assms(2), of "CHR ''-''"] b have "c = CHR ''-'' \<or> c \<in> set bus \<or> c \<in> set path" by auto
  moreover have "plain_char c" if "c \<in> set path"
    using split_char_set [OF that, of "CHR ''.''"] b(3) by (auto simp: list_all_iff digits1_def plain_char_def)
  ultimately show ?thesis using b(2) by (auto simp: list_all_iff digits1_def plain_char_def)
qed

lemma port_range: "0 < exporterPortOf e \<and> exporterPortOf e \<le> 65535"
  by (auto simp: exporterPortOf_def exporterPort_def Let_def split: option.split)

lemma isOlderVersion_lex: "isOlderVersion (Some (nat_string a @ ''.'' @ nat_string b)) major minor \<longleftrightarrow> a < major \<or> a = major \<and> b < minor"
proof -
  have "CHR ''.'' \<notin> set (nat_string n)" for n using nat_string_plain [of "CHR ''.''" n] by (auto simp: is_digit_def)
  then have "split_char (CHR ''.'') (nat_string a @ ''.'' @ nat_string b) = [nat_string a, nat_string b]"
    by (simp add: split_char_append split_char_plain)
  moreover have "digits1 (nat_string n)" for n
    by (simp add: digits1_def digits_nat_string)
  ultimately show ?thesis by (auto simp: isOlderVersion_def number_nat_string)
qed

lemma span_digits:
  assumes "\<not> is_digit c"
  shows "takeWhile is_digit (nat_string n @ c # s) = nat_string n" "dropWhile is_digit (nat_string n @ c # s) = c # s"
  using assms digits_nat_string [of n] by (simp_all add: takeWhile_append2 dropWhile_append2 list_all_iff)

lemma parseMode_round_trip:
  "parseMode (Some (nat_string w @ ''x'' @ nat_string h @ (if i then ''i'' else ''p'') @ nat_string r)) =
    Some \<lparr>mode_width = w, mode_height = h, mode_refresh = r, interlaced = i\<rparr>"
proof -
  have c: "\<not> is_digit (CHR ''x'')" "\<not> is_digit (CHR ''i'')" "\<not> is_digit (CHR ''p'')" by (simp_all add: is_digit_def)
  have e: "\<And>x. x \<in> set (nat_string n) \<Longrightarrow> is_digit x" "takeWhile is_digit (nat_string n) = nat_string n" for n
    using digits_nat_string [of n] by (simp_all add: list_all_iff)
  show ?thesis by (cases i) (simp_all add: parseMode_def Let_def span_digits c e number_nat_string)
qed

section \<open>Properties\<close>

text \<open>
  The commands the page shows for a valid bus id, any exporter and a host name are plain words: no character of
  them means anything to a shell; the port is a valid one, and the daemon, the tunnel and the exporter name the same.
\<close>

theorem shown_commands_are_plain:
  fixes exporter :: string
  assumes "isValidBusId busId" "list_all host_char host"
  defines "c \<equiv> buildCommands exporter busId host"
  shows "list_all plain [modprobe c, list_cmd c, bind_cmd c, serve c, tunnel c, exporter_cmd c, unbind c] \<and>
    (\<exists>port. 0 < port \<and> port \<le> 65535 \<and> serve c = ''sudo usbipd -4 --tcp-port '' @ nat_string port \<and>
      exporter_cmd c = ''127.0.0.1:'' @ nat_string port \<and>
      tunnel c = ''ssh -N -R '' @ nat_string port @ '':127.0.0.1:'' @ nat_string port @ '' root@'' @ host)"
proof -
  from assms(1) have "plain (js_trim busId)" "js_trim busId \<noteq> ''''"
    using bus_id_chars by (auto simp: isValidBusId_def Let_def plain_def list_all_iff)
  moreover have "plain host" using assms(2) by (auto simp: plain_def list_all_iff host_char_def plain_char_def)
  ultimately have "list_all plain [modprobe c, list_cmd c, bind_cmd c, serve c, tunnel c, exporter_cmd c, unbind c]"
    unfolding c_def buildCommands_def Let_def by (simp only: commands.simps list.pred_inject plain_append plain_words plain_nat_string if_False simp_thms)
  moreover note port_range [of exporter]
  ultimately show ?thesis by (auto simp: c_def buildCommands_def Let_def)
qed

theorem shown_commands_are_plain_witness: "plain (bind_cmd (buildCommands ''10.0.0.2:4000'' '' 1-4.2 '' ''kvm.local''))"
proof -
  have "isValidBusId '' 1-4.2 ''" "list_all host_char ''kvm.local''"
    by (simp_all add: isValidBusId_def js_trim_def is_ws_def busIdPattern_def digits1_def is_digit_def host_char_def letter_def Let_def)
  from shown_commands_are_plain [OF this, of "''10.0.0.2:4000''"] show ?thesis by simp
qed

end
