(* ===== verification/Spec2Isabelle.thy ===== *)
theory Spec2Isabelle
  imports Virtual_Keyboard Paste_Text File_Browser Image_Transfer Sidebar_Safety Sources_Provider Source_Events Keyboard_Input Mouse_Absolute Mouse_Relative Ws_Client Usb_Relay Source_Client Exit_State
    Video_Worker Serial_Port Permissions Profile_Editor Audio_Pcm Camera_Capture Microphone_Capture
    Usb_Capture Assistant_Input Auth_Refresh Device_Settings
begin

text \<open>
  A verification of the web console of NanoKVM, the TypeScript program under \<^verbatim>\<open>src/web/src\<close>.

  \<^bold>\<open>The program.\<close> NanoKVM is a small board that plugs into a computer, the \<^emph>\<open>host\<close>, as keyboard, mouse,
  display, camera, microphone, speaker and USB device. The console is the page a user controls the
  host with. It turns browser events into HID reports and sends them over one web socket; shows the
  H.264 stream of the board; lends cameras, microphones and USB devices of the browser to the host
  over further sockets; and has forms for the settings of the board. Nothing but this page stands
  between a browser event and what the host sees, so most theorems are about what reaches the
  host, what is released when the page loses an event, and what happens when answers arrive late.

  \<^bold>\<open>Theories.\<close> In the order of dependence, with the files under \<^verbatim>\<open>web/src\<close> they translate.

  \<^item> \<^verbatim>\<open>Prelude\<close>: values of the language (bytes, 32-bit operands, insertion-ordered maps and sets,
    \<^verbatim>\<open>Math.round\<close>, decimal notation) and the interfaces, as locales: a byte buffer, a frame codec, a
    machine with guarded or free events and its invariant, an input device that writes tagged frames
    of one size. \<^verbatim>\<open>Text_Tools\<close>: the string functions of the language.
  \<^item> \<^verbatim>\<open>Keymap\<close> (\<^verbatim>\<open>lib/keymap.ts\<close>), \<^verbatim>\<open>Keyboard_Report\<close> (\<^verbatim>\<open>lib/keyboard.ts\<close>, class \<^verbatim>\<open>KeyboardReport\<close>),
    \<^verbatim>\<open>Keyboard_Input\<close> (\<^verbatim>\<open>pages/desktop/keyboard\<close>): the report equals an abstract set of held keys; the
    host always has the current report; every event that takes the keyboard away leaves the host
    with no key down; a modifier whose release was lost is released by the next event.
  \<^item> \<^verbatim>\<open>Mouse_Report\<close> (\<^verbatim>\<open>lib/mouse.ts\<close>), \<^verbatim>\<open>Screen_Geometry\<close> (\<^verbatim>\<open>pages/desktop/screen/geometry.ts\<close>),
    \<^verbatim>\<open>Mouse_Absolute\<close> and \<^verbatim>\<open>Mouse_Relative\<close> (\<^verbatim>\<open>pages/desktop/mouse\<close>): coordinates lie between
    1 and 32768, one more than the HID descriptor allows (recorded as a finding);
    held buttons are accounted for by a mouse button or a touch, and ending a touch releases them.
  \<^item> \<^verbatim>\<open>Ws_Client\<close> (\<^verbatim>\<open>lib/websocket.ts\<close>, class \<^verbatim>\<open>WsClient\<close>): the view-only gate, and, as long as close
    is not called during a closing handshake, one live socket, timers that belong to it and no
    reconnect after a close; lemmas show what goes wrong otherwise. The last section of this theory composes the
    three input devices with this client.
  \<^item> \<^verbatim>\<open>Media_Frame\<close> (\<^verbatim>\<open>menu/devices/transport.ts\<close>), \<^verbatim>\<open>Source_State\<close> (\<^verbatim>\<open>state.ts\<close>), \<^verbatim>\<open>Source_Client\<close>
    (\<^verbatim>\<open>client.ts\<close>, class \<^verbatim>\<open>BrowserSourceClient\<close>): frames decode to what was encoded; the page's copy of
    the slots stays consistent, and the outputs it shows are those \<^verbatim>\<open>server/service/sources/registry.go\<close>
    computes (\<^verbatim>\<open>outputState\<close>, translated for comparison); requests, leases and timers belong to a socket, and a receiver that
    falls silent is restarted. \<^verbatim>\<open>Sources_Provider\<close> and \<^verbatim>\<open>Source_Events\<close> (\<^verbatim>\<open>provider.tsx\<close>): every capture is
    registered for one slot or was told to stop once, a slot given up is not reopened while nothing is
    suspended, captures follow the snapshot, and one socket brings it.
  \<^item> \<^verbatim>\<open>Camera_Capture\<close> and \<^verbatim>\<open>Microphone_Capture\<close> (\<^verbatim>\<open>capture.ts\<close>, \<^verbatim>\<open>health.ts\<close>), \<^verbatim>\<open>Audio_Pcm\<close> (\<^verbatim>\<open>pcm.ts\<close>,
    \<^verbatim>\<open>audio.worklet.ts\<close>, \<^verbatim>\<open>playback.ts\<close>, \<^verbatim>\<open>playback.worklet.ts\<close>): a capture that was stopped or replaced
    leaves no stream behind and stays silent, whatever is still awaited; packets are the
    recording resampled, however it is cut, up to 96 kHz; the jitter buffer is bounded.
  \<^item> \<^verbatim>\<open>Usb_Wire\<close> (\<^verbatim>\<open>webusb-wire.ts\<close>), \<^verbatim>\<open>Usb_Relay\<close> and \<^verbatim>\<open>Usb_Capture\<close> (\<^verbatim>\<open>webusb.ts\<close>): the wire format,
    which requests may reach the device (the endpoints selected, lengths up to 64 KiB; the
    direction is not compared, a finding), one answer per request, and reading a device's profile.
  \<^item> \<^verbatim>\<open>Video_Worker\<close> (\<^verbatim>\<open>pages/desktop/screen/direct.worker.ts\<close>): every picture of the decoder is shown or
    closed once, the queue is bounded, the timers scheduled are the ones it remembers, acknowledgements follow the decoder, stopping releases all.
  \<^item> \<^verbatim>\<open>Exit_State\<close>, \<^verbatim>\<open>Profile_Editor\<close>, \<^verbatim>\<open>Device_Settings\<close> (\<^verbatim>\<open>menu/settings\<close>: \<^verbatim>\<open>exit/state.ts\<close>,
    \<^verbatim>\<open>presentation/editor.ts\<close>, \<^verbatim>\<open>passthrough/utils.ts\<close>, \<^verbatim>\<open>display/utils.ts\<close>), \<^verbatim>\<open>Serial_Port\<close>
    (\<^verbatim>\<open>pages/terminal/validater.ts\<close>), \<^verbatim>\<open>Permissions\<close> (\<^verbatim>\<open>lib/permissions.ts\<close>), \<^verbatim>\<open>Auth_Refresh\<close>
    (\<^verbatim>\<open>lib/auth-events.ts\<close>, \<^verbatim>\<open>lib/http.ts\<close>), \<^verbatim>\<open>Assistant_Input\<close> (\<^verbatim>\<open>pages/desktop/assistant\<close>): the address
    check agrees with ranges of integers, the grants implied by others are a reachability, commands
    shown to the user have no shell character, a refresh that is asked for follows.
  \<^item> \<^verbatim>\<open>Json_Value\<close>, \<^verbatim>\<open>Json_Text\<close>, \<^verbatim>\<open>Base64\<close>: \<^verbatim>\<open>JSON\<close>, \<^verbatim>\<open>btoa\<close> and \<^verbatim>\<open>atob\<close>, with their round trips.
    \<^verbatim>\<open>Local_Storage\<close> (\<^verbatim>\<open>lib/localstorage.ts\<close>, \<^verbatim>\<open>lib/picoclaw-storage.ts\<close>): each of the 22 settings is read
    back after writes of others; unreadable entries are dropped; the assistant's limits are in range.
  \<^item> \<^verbatim>\<open>Picoclaw_Gateway\<close> (\<^verbatim>\<open>lib/picoclaw-gateway.ts\<close>): one connection, closing is final, and a connection
    closed while it is awaited leaves its caller waiting. \<^verbatim>\<open>Picoclaw_View\<close> (\<^verbatim>\<open>jotai/ai-control.ts\<close>,
    \<^verbatim>\<open>message-utils.ts\<close>, \<^verbatim>\<open>runtime-view.ts\<close>, \<^verbatim>\<open>model-config.ts\<close>): what the assistant's panel reads.
  \<^item> \<^verbatim>\<open>Async\<close>: asynchronous functions as values, with a small logic; \<^verbatim>\<open>Async_System\<close>: a page as its
    state and its suspended calls, with the locales \<open>page\<close> (an invariant) and \<open>traced_page\<close> (where a
    value may come from).
  \<^item> \<^verbatim>\<open>Sidebar_Page\<close>, \<^verbatim>\<open>Sidebar_Actions\<close>, \<^verbatim>\<open>Sidebar_Sessions\<close>, \<^verbatim>\<open>Sidebar_System\<close> (\<^verbatim>\<open>pages/desktop/picoclaw\<close>): the
    assistant's panel with all its handlers, effects and timers. \<^verbatim>\<open>Sidebar_Lock\<close>: one action at a time,
    which ends and unlocks; \<^verbatim>\<open>Sidebar_Safety\<close>: late answers, screenshots, and two defects.
  \<^item> \<^verbatim>\<open>File_Browser\<close> (\<^verbatim>\<open>pages/storage/use-file-browser.tsx\<close>, \<^verbatim>\<open>lib/file-names.ts\<close>): a listing belongs to the
    folder it was asked for, stale answers are ignored, what is shown is sorted and complete.
    \<^verbatim>\<open>Image_Transfer\<close> (\<^verbatim>\<open>use-add-media.tsx\<close>): a transfer is shown while it runs and ends once.
  \<^item> \<^verbatim>\<open>Virtual_Keyboard\<close> (\<^verbatim>\<open>pages/desktop/virtual-keyboard\<close>, \<^verbatim>\<open>menu/keyboard/shortcuts\<close>): a key is sent with
    the chosen modifiers, a shortcut with all its keys, and which buttons have no code.
    \<^verbatim>\<open>Paste_Text\<close> (\<^verbatim>\<open>menu/keyboard/paste.tsx\<close>): Russian text becomes keys of an English keyboard.

  \<^bold>\<open>State and effects.\<close> The fields of a class and the refs of a React component are the fields of a
  record, an operation is a function on it with the name of the source, and the events of the
  browser are a datatype with a step function. What leaves the page (bytes on a socket, calls of a
  device, closed streams) is a log in the record. The browser's own state that decides what may
  happen next (sockets, timers that will fire, promises that are awaited) is kept in the record
  too; a guard on events states what the browser guarantees, such as that a cleared timer
  does not fire. Two guards say more, and the properties that have them name them: \<open>tame\<close> of
  \<^verbatim>\<open>Ws_Client\<close> excludes a close during a closing handshake, \<open>event_ok\<close> of \<^verbatim>\<open>Source_State\<close> is what the
  server promises of its events.

  \<^bold>\<open>Asynchronous functions.\<close> In the capture classes a method that awaits is one definition for each
  stretch between two awaits, and what it awaits is a value of the record. In the sidebar, the
  provider and the storage pages it is a value of the datatype \<open>async\<close>, one definition per function of the
  source, and the suspended calls are part of the system. Either way any interleaving of answers is a
  run. Exceptions are values of \<^typ>\<open>'a option\<close> or of a datatype.

  \<^bold>\<open>Numbers and text.\<close> Bytes and 32-bit operands are words, with wrap-around. Times and counters
  are integers, coordinates and samples rationals: rounding of doubles is not modelled, except
  where a time stamp leaves the exact range (\<^verbatim>\<open>Media_Frame\<close>). Strings of the settings pages are lists
  of 8-bit characters, identifiers of media frames lists of UTF-16 units.

  \<^bold>\<open>Loops.\<close> Loops over lists are structural recursion. The two sample loops of \<^verbatim>\<open>Audio_Pcm\<close> have a
  step the caller chooses and are partial functions; \<^verbatim>\<open>microphone_pipeline\<close> shows that they return.
  The closure of \<^verbatim>\<open>Permissions\<close> ends because the set of names it visits grows. The parser of \<^verbatim>\<open>Json_Text\<close>
  has fuel, twice the length of the text and two: more fuel gives the same answer (\<open>fuel_stable\<close>,
  \<open>parse_fuel_enough\<close>). The loop of the sidebar that
  confirms a status makes at most five attempts and is recursion on their number; loops that make one
  turn per answer, as disconnecting all slots, start their next turn as a call of its own.

  \<^bold>\<open>Not modelled.\<close> What React draws and the forms over one HTTP request each; the translations; the
  audio graph and the canvas; the negotiation of the WebRTC screen; the requests of the assistant's
  actions; queries of permissions and the offers of stored leases in the provider. The service on the
  board (Go), its C and C++ programs and the browser are outside: their answers are events or
  arguments.
\<close>

section \<open>Input devices on the console socket\<close>

text \<open>
  Keyboard, absolute and relative mouse hand their frames to one \<^verbatim>\<open>WsClient\<close> by \<^verbatim>\<open>client.send\<close>, as a
  \<^verbatim>\<open>Uint8Array\<close>.
\<close>

definition deliver :: "byte list list \<Rightarrow> ws_client \<Rightarrow> ws_client" where
  "deliver fs c = fold (\<lambda>f c. fst (ws_send (Bytes f) c)) fs c"

text \<open>A use of one of the devices, and the frames it produces.\<close>

datatype device_use =
  Keyboard_use string "ui_event list"
| Absolute_use "abs_event list"
| Relative_use "rel_event list"

fun device_frames :: "device_use \<Rightarrow> byte list list" where
  "device_frames (Keyboard_use os es) = keyboard_ui.sent (foldl (ui_step os) (init_keyboard os) es)"
| "device_frames (Absolute_use es) = abs_mouse.sent (foldl abs_step init_abs_mouse es)"
| "device_frames (Relative_use es) = rel_mouse.sent (foldl rel_step init_rel_mouse es)"

lemma framed_isInputReport:
  "framed tag len fs \<Longrightarrow> uint tag \<in> set INPUT_EVENTS \<Longrightarrow> f \<in> set fs \<Longrightarrow> isInputReport (Bytes f)"
  by (cases f) (auto simp: framed_def list_all_iff isInputReport_def)

text \<open>The console's client of an input device: its message type is one of the gated ones.\<close>

locale console_device = input_device +
  assumes input_tag: "uint tag \<in> set INPUT_EVENTS"
begin

lemma frames_are_input: "f \<in> set (frames (foldl step init es)) \<Longrightarrow> isInputReport (Bytes f)"
  using framed_isInputReport [OF frames_always input_tag] .

end

interpretation console_keyboard:
  console_device "init_keyboard os" "ui_step os" keyboard_ui.sent KEYBOARD_MESSAGE 8 for os
  by unfold_locales (simp add: KEYBOARD_MESSAGE_def INPUT_EVENTS_def)

interpretation console_absolute:
  console_device init_abs_mouse abs_step abs_mouse.sent Mouse_Absolute.MOUSE_MESSAGE 6
  by unfold_locales (simp add: Mouse_Absolute.MOUSE_MESSAGE_def INPUT_EVENTS_def)

interpretation console_relative:
  console_device init_rel_mouse rel_step rel_mouse.sent Mouse_Relative.MOUSE_MESSAGE 4
  by unfold_locales (simp add: Mouse_Relative.MOUSE_MESSAGE_def INPUT_EVENTS_def)

lemma device_frames_input: "f \<in> set (device_frames u) \<Longrightarrow> isInputReport (Bytes f)"
  by (cases u) (auto intro: console_keyboard.frames_are_input console_absolute.frames_are_input
      console_relative.frames_are_input)

lemma deliver_gated:
  "viewOnly c \<Longrightarrow> (\<And>f. f \<in> set fs \<Longrightarrow> isInputReport (Bytes f)) \<Longrightarrow> deliver fs c = c"
  by (induction fs) (auto simp: deliver_def ws_send_def split: option.split)

lemma deliver_connected:
  "\<not> viewOnly c \<Longrightarrow> inst c = Some i \<Longrightarrow> isConnected c \<Longrightarrow>
    out (deliver fs c) = out c @ map (\<lambda>f. (i, Bytes f)) fs"
  by (induction fs arbitrary: c) (auto simp: deliver_def ws_send_def isConnected_def)

text \<open>
  C6: From the devices to the wire: whatever the browser delivers to the keyboard, the absolute or
  the relative mouse, in whatever order their frames are handed to the console socket, a
  view-only client puts none of them on the socket and is not changed, while one that is
  connected and not view-only puts every one of them on its socket, in that order.
\<close>

theorem devices_reach_host_unless_view_only:
  assumes "\<And>f. f \<in> set fs \<Longrightarrow> \<exists>u. f \<in> set (device_frames u)"
    and "inst c = Some i" and "isConnected c"
  shows "if viewOnly c then deliver fs c = c
    else out (deliver fs c) = out c @ map (\<lambda>f. (i, Bytes f)) fs"
  using assms deliver_gated [of c fs] deliver_connected [of c i fs]
  by (auto dest: device_frames_input)

theorem devices_reach_host_unless_view_only_witness:
  "let c = (new_client None)\<lparr>inst := Some 0, sockets := [\<lparr>ready = OPEN, live = True\<rparr>]\<rparr>;
       fs = device_frames (Relative_use [MDown 0]) @ device_frames (Absolute_use [abs_event.Cleanup])
   in out (deliver fs c) = [(0, Bytes [2, 1, 0, 0, 0]), (0, Bytes [2, 0, 0, 0, 0, 0, 0])] \<and>
      deliver fs (setViewOnly True c) = setViewOnly True c"
proof -
  define c where "c = (new_client None)\<lparr>inst := Some 0, sockets := [\<lparr>ready = OPEN, live = True\<rparr>]\<rparr>"
  define fs where "fs = device_frames (Relative_use [MDown 0]) @ device_frames (Absolute_use [abs_event.Cleanup])"
  have relative_frames: "rel_mouse.sent (foldl rel_step init_rel_mouse [MDown 0]) = [[2, 1, 0, 0, 0]]"
    by code_simp
  have absolute_frames:
    "abs_mouse.sent (foldl abs_step init_abs_mouse [abs_event.Cleanup]) = [[2, 0, 0, 0, 0, 0, 0]]"
    by code_simp
  have fs: "fs = [[2, 1, 0, 0, 0], [2, 0, 0, 0, 0, 0, 0]]"
    unfolding fs_def device_frames.simps relative_frames absolute_frames by simp
  have "\<exists>u. f \<in> set (device_frames u)" if "f \<in> set fs" for f
    using that unfolding fs_def set_append Un_iff by blast
  from devices_reach_host_unless_view_only [of fs c 0, OF this]
    devices_reach_host_unless_view_only [of fs "setViewOnly True c" 0, OF this]
  show ?thesis
    unfolding c_def [symmetric] fs_def [symmetric] Let_def
    by (simp add: c_def fs new_client_def isConnected_def setViewOnly_def)
qed

end
